(* ===== verification/Prelude.thy ===== *)
theory Prelude
  imports Main "HOL-Library.Multiset" "HOL-Library.Word"
begin

text \<open>
  Shared vocabulary of the development: the result type and its sequencing operators, the
  checked integer operations of Rust, and the facts on lists that several components use.

  Amounts (\<open>u64\<close> zatoshi), heights (\<open>u32\<close>) and lengths (\<open>usize\<close>) are natural numbers.
  Every \<open>checked_add\<close>, \<open>checked_sub\<close>, \<open>checked_mul\<close> of the source is the operation below with
  the width written out, and \<open>saturating_sub\<close> is subtraction on \<open>nat\<close>.
  Bytes on the wire are \<open>8 word\<close>.
\<close>

type_synonym zatoshi = nat
type_synonym height = nat
type_synonym byte = "8 word"

named_theorems checked_simps "unfolding of the checked integer operations"
named_theorems res_simps "simplification of fallible computations"

section \<open>Error messages\<close>

text \<open>
  The source reports errors as formatted strings. A message is its template together with the
  values that \<open>format!\<close> inserts for the placeholders.
\<close>

datatype message_arg = ANat nat | AInt int | AStr string | AMsg message
  and message = Message string "message_arg list"

abbreviation Msg :: "string \<Rightarrow> message" where
  "Msg s \<equiv> Message s []"

type_synonym 'a outcome = "message + 'a"

section \<open>Fallible computations\<close>

definition res_bind :: "'e + 'a \<Rightarrow> ('a \<Rightarrow> 'e + 'b) \<Rightarrow> 'e + 'b" where
  "res_bind r f = (case r of Inl e \<Rightarrow> Inl e | Inr x \<Rightarrow> f x)"

lemma res_bind_simps [simp]:
  "res_bind (Inl e) f = Inl e"
  "res_bind (Inr x) f = f x"
  by (simp_all add: res_bind_def)

lemma res_bind_cong [fundef_cong]:
  "r = r' \<Longrightarrow> (\<And>x. r' = Inr x \<Longrightarrow> f x = g x) \<Longrightarrow> res_bind r f = res_bind r' g"
  by (cases r') auto

lemma res_bind_Inr_iff [res_simps]:
  "res_bind r f = Inr y \<longleftrightarrow> (\<exists>x. r = Inr x \<and> f x = Inr y)"
  by (cases r) auto

lemma res_bind_Inl_iff:
  "res_bind r f = Inl e \<longleftrightarrow> r = Inl e \<or> (\<exists>x. r = Inr x \<and> f x = Inl e)"
  by (cases r) auto

text \<open>\<open>ok_or\<close>: an absent value becomes the given error.\<close>

definition ok_or :: "'a option \<Rightarrow> 'e \<Rightarrow> 'e + 'a" where
  "ok_or x e = (case x of None \<Rightarrow> Inl e | Some v \<Rightarrow> Inr v)"

lemma ok_or_simps [simp]:
  "ok_or None e = Inl e"
  "ok_or (Some v) e = Inr v"
  by (simp_all add: ok_or_def)

lemma ok_or_Inr_iff [res_simps]: "ok_or x e = Inr v \<longleftrightarrow> x = Some v"
  by (cases x) auto

text \<open>\<open>iter().map(f).collect::<Result<Vec<_>, _>>()\<close>: the first error wins.\<close>

fun res_map :: "('a \<Rightarrow> 'e + 'b) \<Rightarrow> 'a list \<Rightarrow> 'e + 'b list" where
  "res_map f [] = Inr []"
| "res_map f (x # xs) = res_bind (f x) (\<lambda>y. res_bind (res_map f xs) (\<lambda>ys. Inr (y # ys)))"

lemma res_map_Inr_iff: "res_map f xs = Inr ys \<longleftrightarrow> list_all2 (\<lambda>x y. f x = Inr y) xs ys"
  by (induction xs arbitrary: ys) (auto simp: res_simps list_all2_Cons1)

lemma res_map_length: "res_map f xs = Inr ys \<Longrightarrow> length ys = length xs"
  by (auto simp: res_map_Inr_iff dest: list_all2_lengthD)

lemma res_map_total: "(\<And>x. x \<in> set xs \<Longrightarrow> f x = Inr (g x)) \<Longrightarrow> res_map f xs = Inr (map g xs)"
  by (induction xs) auto

lemma res_map_Inl: "res_map f xs = Inl e \<Longrightarrow> \<exists>x \<in> set xs. f x = Inl e"
  by (induction xs) (auto simp: res_bind_Inl_iff)

lemma res_map_cong [fundef_cong]:
  "xs = ys \<Longrightarrow> (\<And>x. x \<in> set ys \<Longrightarrow> f x = g x) \<Longrightarrow> res_map f xs = res_map g ys"
  by (induction ys arbitrary: xs) auto

text \<open>\<open>try_fold\<close>: threads an accumulator through a fallible step.\<close>

fun res_fold :: "('a \<Rightarrow> 's \<Rightarrow> 'e + 's) \<Rightarrow> 'a list \<Rightarrow> 's \<Rightarrow> 'e + 's" where
  "res_fold f [] s = Inr s"
| "res_fold f (x # xs) s = res_bind (f x s) (res_fold f xs)"

lemma res_fold_append:
  "res_fold f (xs @ ys) s = res_bind (res_fold f xs s) (res_fold f ys)"
proof (induction xs arbitrary: s)
  case Nil
  show ?case by simp
next
  case (Cons x xs)
  then show ?case by (cases "f x s") auto
qed

text \<open>Mapping a stateful closure (\<open>FnMut\<close>) over a list, left to right.\<close>

fun map_state :: "('a \<Rightarrow> 's \<Rightarrow> 'b \<times> 's) \<Rightarrow> 'a list \<Rightarrow> 's \<Rightarrow> 'b list \<times> 's" where
  "map_state f [] s = ([], s)"
| "map_state f (x # xs) s = (let (y, s) = f x s; (ys, s) = map_state f xs s in (y # ys, s))"

lemma map_state_cong [fundef_cong]:
  "xs = ys \<Longrightarrow> s = t \<Longrightarrow> (\<And>x u. x \<in> set ys \<Longrightarrow> f x u = g x u) \<Longrightarrow> map_state f xs s = map_state g ys t"
  by (induction ys arbitrary: xs s t) (auto split: prod.splits)

lemma map_state_all2:
  "map_state f xs s = (ys, s') \<Longrightarrow> (\<And>x u. x \<in> set xs \<Longrightarrow> P x (fst (f x u))) \<Longrightarrow> list_all2 P xs ys"
proof (induction xs arbitrary: s ys s')
  case (Cons x xs)
  obtain y t where y: "f x s = (y, t)" by (cases "f x s")
  obtain zs u where zs: "map_state f xs t = (zs, u)" by (cases "map_state f xs t")
  with y Cons.prems(1) have "ys = y # zs" by simp
  moreover have "P x y" using Cons.prems(2)[of x s] y by simp
  ultimately show ?case using Cons.IH[OF zs] Cons.prems(2) by simp
qed simp

text \<open>\<open>slice.get(i)\<close>.\<close>

definition list_get :: "'a list \<Rightarrow> nat \<Rightarrow> 'a option" where
  "list_get xs i = (if i < length xs then Some (xs ! i) else None)"

lemma list_get_Some [res_simps]: "list_get xs i = Some x \<longleftrightarrow> i < length xs \<and> x = xs ! i"
  by (auto simp: list_get_def)

section \<open>Checked machine arithmetic\<close>

definition checked_add :: "nat \<Rightarrow> nat \<Rightarrow> nat \<Rightarrow> nat option" where
  "checked_add w a b = (if a + b < 2 ^ w then Some (a + b) else None)"

definition checked_sub :: "nat \<Rightarrow> nat \<Rightarrow> nat option" where
  "checked_sub a b = (if b \<le> a then Some (a - b) else None)"

definition checked_mul :: "nat \<Rightarrow> nat \<Rightarrow> nat \<Rightarrow> nat option" where
  "checked_mul w a b = (if a * b < 2 ^ w then Some (a * b) else None)"

definition saturating_add :: "nat \<Rightarrow> nat \<Rightarrow> nat \<Rightarrow> nat" where
  "saturating_add w a b = min (a + b) (2 ^ w - 1)"

lemmas checked_defs = checked_add_def checked_sub_def checked_mul_def saturating_add_def

lemma checked_add_Some [checked_simps]:
  "checked_add w a b = Some c \<longleftrightarrow> c = a + b \<and> a + b < 2 ^ w"
  by (auto simp: checked_add_def)

lemma checked_sub_Some [checked_simps]: "checked_sub a b = Some c \<longleftrightarrow> b \<le> a \<and> c = a - b"
  by (auto simp: checked_sub_def)

lemma checked_mul_Some [checked_simps]:
  "checked_mul w a b = Some c \<longleftrightarrow> c = a * b \<and> a * b < 2 ^ w"
  by (auto simp: checked_mul_def)

text \<open>\<open>checked_sum\<close>: folding \<open>checked_add\<close> over a list succeeds exactly when the total fits.\<close>

definition checked_sum_opt :: "nat \<Rightarrow> nat list \<Rightarrow> nat option" where
  "checked_sum_opt w vs = foldl (\<lambda>acc v. Option.bind acc (\<lambda>t. checked_add w t v)) (Some 0) vs"

lemma foldl_bind_None [simp]: "foldl (\<lambda>acc v. Option.bind acc (\<lambda>t. g t v)) None vs = None"
  by (induction vs) auto

lemma checked_sum_from:
  "s < 2 ^ w \<Longrightarrow> foldl (\<lambda>acc v. Option.bind acc (\<lambda>t. checked_add w t v)) (Some s) vs
     = (if s + sum_list vs < 2 ^ w then Some (s + sum_list vs) else None)"
proof (induction vs arbitrary: s)
  case Nil
  then show ?case by simp
next
  case (Cons v vs)
  then show ?case
    by (cases "s + v < 2 ^ w") (auto simp: checked_add_def add.assoc)
qed

lemma checked_sum_eq:
  "checked_sum_opt w vs = (if sum_list vs < 2 ^ w then Some (sum_list vs) else None)"
  using checked_sum_from[of 0 w vs] by (simp add: checked_sum_opt_def)

section \<open>Money\<close>

text \<open>
  \<open>Zatoshis::from_u64\<close> of the zcash protocol crate accepts amounts up to the maximum money
  supply of 21,000,000 ZEC, and the sum of amounts is undefined above it.
\<close>

definition MAX_MONEY :: nat where
  "MAX_MONEY = 21000000 * 100000000"

definition zatoshis_from_u64 :: "nat \<Rightarrow> nat option" where
  "zatoshis_from_u64 v = (if v \<le> MAX_MONEY then Some v else None)"

definition sum_zatoshis :: "nat list \<Rightarrow> nat option" where
  "sum_zatoshis vs = foldl (\<lambda>acc v. Option.bind acc (\<lambda>t. zatoshis_from_u64 (t + v))) (Some 0) vs"

lemma sum_zatoshis_from:
  "s \<le> MAX_MONEY \<Longrightarrow> foldl (\<lambda>acc v. Option.bind acc (\<lambda>t. zatoshis_from_u64 (t + v))) (Some s) vs
     = zatoshis_from_u64 (s + sum_list vs)"
proof (induction vs arbitrary: s)
  case Nil
  then show ?case by (simp add: zatoshis_from_u64_def)
next
  case (Cons v vs)
  then show ?case
    by (cases "s + v \<le> MAX_MONEY")
      (auto simp: zatoshis_from_u64_def add.assoc)
qed

lemma sum_zatoshis_eq: "sum_zatoshis vs = zatoshis_from_u64 (sum_list vs)"
  using sum_zatoshis_from[of 0 vs] by (simp add: sum_zatoshis_def MAX_MONEY_def)

lemma zatoshis_from_u64_Some [checked_simps]:
  "zatoshis_from_u64 v = Some z \<longleftrightarrow> z = v \<and> v \<le> MAX_MONEY"
  by (auto simp: zatoshis_from_u64_def)

section \<open>Sorting\<close>

text \<open>
  \<open>sort_unstable_by(|a, b| b.cmp(a))\<close> and \<open>sort_unstable_by_key(Reverse(..))\<close>: descending
  order of the key. The order of equal keys is not specified by Rust; the model keeps the
  stable one, and the proofs use no more than that the result is a descending permutation.
\<close>

definition sort_desc_by :: "('a \<Rightarrow> nat) \<Rightarrow> 'a list \<Rightarrow> 'a list" where
  "sort_desc_by key xs = rev (sort_key key (rev xs))"

abbreviation sort_desc :: "nat list \<Rightarrow> nat list" where
  "sort_desc \<equiv> sort_desc_by id"

lemma mset_sort_desc_by [simp]: "mset (sort_desc_by key xs) = mset xs"
  by (simp add: sort_desc_by_def)

lemma set_sort_desc_by [simp]: "set (sort_desc_by key xs) = set xs"
  by (simp add: sort_desc_by_def)

lemma length_sort_desc_by [simp]: "length (sort_desc_by key xs) = length xs"
  by (simp add: sort_desc_by_def)

lemma sort_desc_by_Nil [simp]: "sort_desc_by key [] = []"
  by (simp add: sort_desc_by_def)

lemma sorted_rev_sort_desc_by: "sorted (rev (map key (sort_desc_by key xs)))"
  by (simp add: sort_desc_by_def rev_map)

lemma sorted_rev_sort_desc: "sorted (rev (sort_desc xs))"
  using sorted_rev_sort_desc_by[of id xs] by simp

lemma sort_desc_cong: "mset xs = mset ys \<Longrightarrow> sort_desc xs = sort_desc ys"
  by (metis rev_swap properties_for_sort mset_rev mset_sort_desc_by sorted_rev_sort_desc)

lemma sort_desc_sorted: "sorted (rev xs) \<Longrightarrow> sort_desc xs = xs"
  by (metis mset_rev mset_sort_desc_by properties_for_sort rev_swap sorted_rev_sort_desc)

lemma sum_list_mset_cong: "mset xs = mset ys \<Longrightarrow> sum_list xs = sum_list (ys :: nat list)"
  by (metis sum_mset_sum_list)

lemma sum_list_concat: "sum_list (concat xss) = sum_list (map sum_list (xss :: nat list list))"
  by (induction xss) auto

lemma sum_list_length_bound:
  "(\<And>x. x \<in> set xs \<Longrightarrow> f x \<le> (b :: nat)) \<Longrightarrow> sum_list (map f xs) \<le> length xs * b"
  by (induction xs) (auto intro: add_mono)

lemma length_mset_cong: "mset xs = mset ys \<Longrightarrow> length xs = length ys"
  by (metis size_mset)

lemma set_map_filter: "y \<in> set (List.map_filter f xs) \<longleftrightarrow> (\<exists>x \<in> set xs. f x = Some y)"
  by (induction xs) (auto simp: map_filter_simps split: option.splits)

lemma map_filter_append [simp]:
  "List.map_filter f (xs @ ys) = List.map_filter f xs @ List.map_filter f ys"
  by (simp add: map_filter_def)

lemma map_filter_Nil [simp]: "List.map_filter f [] = []"
  by (simp add: map_filter_def)

lemma map_filter_Cons:
  "List.map_filter f (x # xs) =
     (case f x of None \<Rightarrow> List.map_filter f xs | Some y \<Rightarrow> y # List.map_filter f xs)"
  by (simp add: map_filter_def split: option.splits)

lemma map_filter_cong_mset: "mset xs = mset ys \<Longrightarrow> mset (List.map_filter f xs) = mset (List.map_filter f ys)"
  by (simp add: map_filter_def)

lemma sum_list_filter_pos: "sum_list (filter (\<lambda>v. 0 < v) vs) = sum_list (vs :: nat list)"
  by (induction vs) auto

end
