(* ===== verification/Prep_Model.thy ===== *)
theory Prep_Model
  imports Prelude
begin

text \<open>
  The data of the note-preparation planner (wallet/sync/migration/preparation_plan.rs): inputs,
  outputs, transactions, plans and errors, with the accessors of the source, and the operations
  on a plan under construction that the planner's routines share: appending a transaction to a
  layer, collecting the spent coordinates, listing the unconsumed feeders and relabelling them.
  Note values are natural numbers; the planner converts with \<open>zat\<close>, which cannot fail on values
  bounded by the validated totals (\<open>Prep_Greedy\<close> proves that bound).
\<close>

section \<open>Constants and data\<close>

definition PREP_TX_ACTIONS :: nat where
  "PREP_TX_ACTIONS = 16"

definition FUNDING_OUTPUTS_PER_TX :: nat where
  "FUNDING_OUTPUTS_PER_TX = PREP_TX_ACTIONS - 2"

definition CONSOLIDATION_INPUTS_PER_TX :: nat where
  "CONSOLIDATION_INPUTS_PER_TX = PREP_TX_ACTIONS - 1"

lemmas action_constants =
  PREP_TX_ACTIONS_def FUNDING_OUTPUTS_PER_TX_def CONSOLIDATION_INPUTS_PER_TX_def

datatype prep_input =
    Wallet (in_index: nat) (in_value: zatoshi)
  | Prior (in_layer: nat) (in_transaction: nat) (in_output: nat) (in_value: zatoshi)

datatype prep_output =
    Funding (out_value: zatoshi)
  | Intermediate (out_value: zatoshi)
  | Change (out_value: zatoshi)

definition prep_output_role :: "prep_output \<Rightarrow> string" where
  "prep_output_role o' = (case o' of
       Funding _ \<Rightarrow> ''funding''
     | Intermediate _ \<Rightarrow> ''intermediate''
     | Change _ \<Rightarrow> ''change'')"

definition prep_output_from_role :: "string \<Rightarrow> zatoshi \<Rightarrow> prep_output option" where
  "prep_output_from_role role value =
     (if role = ''funding'' then Some (Funding value)
      else if role = ''intermediate'' then Some (Intermediate value)
      else if role = ''change'' then Some (Change value)
      else None)"

record prep_transaction =
  pt_inputs :: "prep_input list"
  pt_outputs :: "prep_output list"

definition action_count :: "prep_transaction \<Rightarrow> nat" where
  "action_count tx = length (pt_inputs tx) + length (pt_outputs tx)"

type_synonym prep_layers = "prep_transaction list list"

record preparation_plan =
  pp_layers :: prep_layers
  pp_direct_funding :: "(nat \<times> zatoshi) list"

definition layer_count :: "preparation_plan \<Rightarrow> nat" where
  "layer_count plan = length (pp_layers plan)"

definition transaction_count :: "preparation_plan \<Rightarrow> nat" where
  "transaction_count plan = sum_list (map length (pp_layers plan))"

definition all_outputs :: "preparation_plan \<Rightarrow> prep_output list" where
  "all_outputs plan = concat (map pt_outputs (concat (pp_layers plan)))"

fun funding_value :: "prep_output \<Rightarrow> zatoshi option" where
  "funding_value (Funding v) = Some v"
| "funding_value _ = None"

fun change_value :: "prep_output \<Rightarrow> zatoshi option" where
  "change_value (Change v) = Some v"
| "change_value _ = None"

fun intermediate_value :: "prep_output \<Rightarrow> zatoshi option" where
  "intermediate_value (Intermediate v) = Some v"
| "intermediate_value _ = None"

definition funding_notes :: "preparation_plan \<Rightarrow> zatoshi list" where
  "funding_notes plan =
     List.map_filter funding_value (all_outputs plan) @ map snd (pp_direct_funding plan)"

definition residual_notes :: "preparation_plan \<Rightarrow> zatoshi list" where
  "residual_notes plan = List.map_filter change_value (all_outputs plan)"

definition residual_count :: "preparation_plan \<Rightarrow> nat" where
  "residual_count plan = length (residual_notes plan)"

datatype prep_error = InsufficientFunds | BalanceInvalid

section \<open>Layers under construction\<close>

text \<open>\<open>layers[layer].push(tx)\<close>.\<close>

definition push_tx :: "prep_layers \<Rightarrow> nat \<Rightarrow> prep_transaction \<Rightarrow> prep_layers" where
  "push_tx ls layer tx = ls[layer := ls ! layer @ [tx]]"

text \<open>\<open>while layers.len() <= layer { layers.push(Vec::new()) }\<close>.\<close>

definition pad_layers :: "prep_layers \<Rightarrow> nat \<Rightarrow> prep_layers" where
  "pad_layers ls layer = ls @ replicate (Suc layer - length ls) []"

text \<open>The coordinates of the earlier outputs that a plan spends.\<close>

fun prior_coord :: "prep_input \<Rightarrow> (nat \<times> nat \<times> nat) option" where
  "prior_coord (Prior l t o' v) = Some (l, t, o')"
| "prior_coord (Wallet i v) = None"

definition all_inputs :: "prep_layers \<Rightarrow> prep_input list" where
  "all_inputs ls = concat (map pt_inputs (concat ls))"

definition spent_coords :: "prep_layers \<Rightarrow> (nat \<times> nat \<times> nat) list" where
  "spent_coords ls = List.map_filter prior_coord (all_inputs ls)"

text \<open>Every output with its coordinates, in plan order (layer, transaction, output).\<close>

definition outputs_at :: "nat \<Rightarrow> nat \<Rightarrow> prep_transaction \<Rightarrow> ((nat \<times> nat \<times> nat) \<times> prep_output) list" where
  "outputs_at li ti tx = map (\<lambda>(oi, out). ((li, ti, oi), out)) (enumerate 0 (pt_outputs tx))"

definition layer_outputs_at :: "nat \<Rightarrow> prep_transaction list \<Rightarrow> ((nat \<times> nat \<times> nat) \<times> prep_output) list" where
  "layer_outputs_at li layer = concat (map (\<lambda>(ti, tx). outputs_at li ti tx) (enumerate 0 layer))"

definition coord_outputs :: "prep_layers \<Rightarrow> ((nat \<times> nat \<times> nat) \<times> prep_output) list" where
  "coord_outputs ls = concat (map (\<lambda>(li, layer). layer_outputs_at li layer) (enumerate 0 ls))"

fun feeder_input :: "(nat \<times> nat \<times> nat) list \<Rightarrow> (nat \<times> nat \<times> nat) \<times> prep_output \<Rightarrow> prep_input option" where
  "feeder_input spent ((li, ti, oi), Intermediate v) =
     (if (li, ti, oi) \<in> set spent then None else Some (Prior li ti oi v))"
| "feeder_input spent _ = None"

definition unconsumed_feeders :: "prep_layers \<Rightarrow> prep_input list" where
  "unconsumed_feeders ls = List.map_filter (feeder_input (spent_coords ls)) (coord_outputs ls)"

text \<open>Relabelling: an intermediate output that nothing spends becomes change.\<close>

fun relabel_output :: "(nat \<times> nat \<times> nat) list \<Rightarrow> nat \<times> nat \<times> nat \<Rightarrow> prep_output \<Rightarrow> prep_output" where
  "relabel_output spent c (Intermediate v) =
     (if c \<in> set spent then Intermediate v else Change v)"
| "relabel_output spent c out = out"

definition relabel_tx ::
    "(nat \<times> nat \<times> nat) list \<Rightarrow> nat \<Rightarrow> nat \<Rightarrow> prep_transaction \<Rightarrow> prep_transaction" where
  "relabel_tx spent li ti tx =
     tx\<lparr>pt_outputs := map (\<lambda>(oi, out). relabel_output spent (li, ti, oi) out)
                        (enumerate 0 (pt_outputs tx))\<rparr>"

definition relabel_unspent :: "prep_layers \<Rightarrow> prep_layers" where
  "relabel_unspent ls =
     map (\<lambda>(li, layer). map (\<lambda>(ti, tx). relabel_tx (spent_coords ls) li ti tx) (enumerate 0 layer))
       (enumerate 0 ls)"

section \<open>Outputs by coordinate\<close>

definition output_at :: "prep_layers \<Rightarrow> nat \<times> nat \<times> nat \<Rightarrow> prep_output option" where
  "output_at ls c = (case c of (l, t, o') \<Rightarrow>
     if l < length ls \<and> t < length (ls ! l) \<and> o' < length (pt_outputs (ls ! l ! t))
     then Some (pt_outputs (ls ! l ! t) ! o') else None)"

lemma set_enumerate_0: "(i, x) \<in> set (enumerate 0 xs) \<longleftrightarrow> i < length xs \<and> xs ! i = x"
  by (auto simp: in_set_enumerate_eq)

lemma set_outputs_at:
  "((l, t, k), out) \<in> set (outputs_at li ti tx) \<longleftrightarrow>
     l = li \<and> t = ti \<and> k < length (pt_outputs tx) \<and> pt_outputs tx ! k = out"
  by (force simp: outputs_at_def set_enumerate_0)

lemma set_layer_outputs_at:
  "((l, t, k), out) \<in> set (layer_outputs_at li layer) \<longleftrightarrow>
     l = li \<and> t < length layer \<and> k < length (pt_outputs (layer ! t)) \<and> pt_outputs (layer ! t) ! k = out"
  by (force simp: layer_outputs_at_def set_enumerate_0 set_outputs_at)

lemma set_coord_outputs: "(c, out) \<in> set (coord_outputs ls) \<longleftrightarrow> output_at ls c = Some out"
proof -
  obtain l t k where c: "c = (l, t, k)" by (cases c)
  show ?thesis
    by (force simp: c coord_outputs_def set_enumerate_0 set_layer_outputs_at output_at_def)
qed

lemma output_at_append:
  "output_at ls c = Some out \<Longrightarrow> output_at (ls @ ms) c = Some out"
  by (auto simp: output_at_def nth_append split: prod.splits if_splits)

lemma output_at_pad [simp]: "output_at (pad_layers ls n) c = output_at ls c"
  by (auto simp: output_at_def pad_layers_def nth_append split: prod.splits)

lemma output_at_push:
  assumes "layer < length ls"
  shows "output_at (push_tx ls layer tx) (l, t, k) =
    (if l = layer \<and> t = length (ls ! layer)
     then (if k < length (pt_outputs tx) then Some (pt_outputs tx ! k) else None)
     else output_at ls (l, t, k))"
  using assms by (auto simp: output_at_def push_tx_def nth_append nth_list_update)

lemma length_push_tx [simp]: "length (push_tx ls layer tx) = length ls"
  by (simp add: push_tx_def)

lemma length_pad_layers [simp]: "length (pad_layers ls layer) = max (length ls) (Suc layer)"
  by (simp add: pad_layers_def)

lemma concat_replicate_Nil [simp]: "concat (replicate n []) = []"
  by (induction n) auto

lemma concat_pad_layers [simp]: "concat (pad_layers ls layer) = concat ls"
  by (simp add: pad_layers_def)

lemma mset_concat_push_tx:
  assumes "layer < length ls"
  shows "mset (concat (push_tx ls layer tx)) = add_mset tx (mset (concat ls))"
  using assms
proof (induction ls arbitrary: layer)
  case Nil
  then show ?case by simp
next
  case (Cons l ls)
  then show ?case by (cases layer) (auto simp: push_tx_def)
qed

lemma prior_coord_Some_iff: "prior_coord inp = Some c \<longleftrightarrow> (\<exists>l t k v. inp = Prior l t k v \<and> c = (l, t, k))"
  by (cases inp) auto

lemma set_spent_coords: "c \<in> set (spent_coords ls) \<longleftrightarrow> (\<exists>inp \<in> set (all_inputs ls). prior_coord inp = Some c)"
  by (simp add: spent_coords_def set_map_filter)

lemma distinct_concat_enumerate:
  assumes "\<And>i x. distinct (f i x)" and "\<And>i x c. c \<in> set (f i x) \<Longrightarrow> index c = i"
  shows "distinct (concat (map (\<lambda>(i, x). f i x) (enumerate 0 xs)))"
proof (induction xs rule: rev_induct)
  case Nil
  show ?case by simp
next
  case (snoc x xs)
  have "index c < length xs" if "c \<in> set (concat (map (\<lambda>(i, x). f i x) (enumerate 0 xs)))" for c
    using that assms(2) by (auto simp: set_enumerate_0)
  then show ?case
    using snoc assms(1)[of "length xs" x] assms(2)[of _ "length xs" x]
    by (fastforce simp: enumerate_append_eq)
qed

lemma distinct_layer_outputs_at: "distinct (map fst (layer_outputs_at li layer))"
proof -
  have tx: "map fst (outputs_at li ti t) = map (\<lambda>k. (li, ti, k)) [0..<length (pt_outputs t)]"
    for ti t
    by (auto simp: outputs_at_def enumerate_eq_zip intro!: nth_equalityI)
  have "distinct (concat (map (\<lambda>(ti, t). map fst (outputs_at li ti t)) (enumerate 0 layer)))"
    by (rule distinct_concat_enumerate[where index = "fst \<circ> snd"])
      (auto simp: tx distinct_map inj_on_def)
  then show ?thesis
    by (simp add: layer_outputs_at_def map_concat comp_def case_prod_unfold)
qed

lemma distinct_coord_outputs: "distinct (map fst (coord_outputs ls))"
proof -
  have layer: "fst c = li" if "c \<in> set (map fst (layer_outputs_at li layer))" for c li layer
    using that by (auto simp: set_layer_outputs_at)
  have "distinct (concat (map (\<lambda>(li, layer). map fst (layer_outputs_at li layer)) (enumerate 0 ls)))"
    by (rule distinct_concat_enumerate[where index = fst])
      (auto simp only: distinct_layer_outputs_at dest!: layer)
  then show ?thesis
    by (simp add: coord_outputs_def map_concat comp_def case_prod_unfold)
qed

lemma coord_outputs_snoc:
  "coord_outputs (ls @ [txs]) = coord_outputs ls @ layer_outputs_at (length ls) txs"
  by (simp add: coord_outputs_def enumerate_append_eq)

lemma all_inputs_snoc: "all_inputs (ls @ [txs]) = all_inputs ls @ concat (map pt_inputs txs)"
  by (simp add: all_inputs_def)

lemma spent_coords_snoc:
  "spent_coords (ls @ [txs]) = spent_coords ls @ List.map_filter prior_coord (concat (map pt_inputs txs))"
  by (simp add: spent_coords_def all_inputs_snoc map_filter_def)

lemma set_unconsumed_feeders:
  "inp \<in> set (unconsumed_feeders ls) \<longleftrightarrow>
     (\<exists>l t k v. inp = Prior l t k v \<and> output_at ls (l, t, k) = Some (Intermediate v)
        \<and> (l, t, k) \<notin> set (spent_coords ls))"
proof -
  have feeder: "feeder_input sp (c, out) = Some inp \<longleftrightarrow>
      (\<exists>v. out = Intermediate v \<and> c \<notin> set sp \<and> inp = Prior (fst c) (fst (snd c)) (snd (snd c)) v)"
    for sp c out
    by (cases c; cases out) auto
  have "inp \<in> set (unconsumed_feeders ls) \<longleftrightarrow>
      (\<exists>c out. output_at ls c = Some out \<and> feeder_input (spent_coords ls) (c, out) = Some inp)"
    by (auto simp: unconsumed_feeders_def set_map_filter set_coord_outputs) (use set_coord_outputs in blast)
  then show ?thesis unfolding feeder by auto
qed

lemma distinct_unconsumed_feeders: "distinct (List.map_filter prior_coord (unconsumed_feeders ls))"
proof -
  have "List.map_filter prior_coord (List.map_filter (feeder_input s) xs)
      = map fst (filter (\<lambda>x. feeder_input s x \<noteq> None) xs)" for s xs
  proof (induction xs)
    case Nil
    then show ?case by (simp add: map_filter_def)
  next
    case (Cons x xs)
    then show ?case
      by (cases x; cases "snd x") (auto simp: map_filter_simps split: if_splits)
  qed
  then show ?thesis
    unfolding unconsumed_feeders_def
    using distinct_coord_outputs[of ls] by (simp add: distinct_map_filter)
qed

lemma prep_output_role_roundtrip:
  "prep_output_from_role (prep_output_role out) (out_value out) = Some out"
  by (cases out) (simp_all add: prep_output_role_def prep_output_from_role_def)

end
