(* ===== verification/Prep_Invariant.thy ===== *)
theory Prep_Invariant
  imports Prep_Model
begin

text \<open>
  The well-formedness of a plan under construction. A reference is valid at layer \<open>k\<close> when it is
  an unused wallet note of the right value or an intermediate output of a strictly earlier layer;
  a transaction is valid when it stays within the action budget and its inputs pay its outputs
  and the fee; layers are valid when all of that holds and no note is spent twice. The lemmas
  say how the two ways the planner grows a plan, appending a whole layer and pushing one
  transaction into a layer, keep these properties.
\<close>

section \<open>Definitions\<close>

fun coord :: "prep_input \<Rightarrow> nat + nat \<times> nat \<times> nat" where
  "coord (Wallet i v) = Inl i"
| "coord (Prior l t k v) = Inr (l, t, k)"

fun ref_ok :: "zatoshi list \<Rightarrow> bool list \<Rightarrow> prep_layers \<Rightarrow> nat \<Rightarrow> prep_input \<Rightarrow> bool" where
  "ref_ok av used ls n (Wallet i v) \<longleftrightarrow> i < length av \<and> av ! i = v \<and> \<not> used ! i"
| "ref_ok av used ls n (Prior l t k v) \<longleftrightarrow> l < n \<and> output_at ls (l, t, k) = Some (Intermediate v)"

definition input_total :: "prep_input list \<Rightarrow> nat" where
  "input_total inps = sum_list (map in_value inps)"

definition output_total :: "prep_output list \<Rightarrow> nat" where
  "output_total outs = sum_list (map out_value outs)"

definition tx_ok :: "nat \<Rightarrow> prep_transaction \<Rightarrow> bool" where
  "tx_ok fee tx \<longleftrightarrow> pt_inputs tx \<noteq> [] \<and> action_count tx \<le> PREP_TX_ACTIONS
     \<and> input_total (pt_inputs tx) = output_total (pt_outputs tx) + fee"

definition refs_ok :: "zatoshi list \<Rightarrow> bool list \<Rightarrow> prep_layers \<Rightarrow> bool" where
  "refs_ok av used ls \<longleftrightarrow>
     (\<forall>n < length ls. \<forall>tx \<in> set (ls ! n). \<forall>inp \<in> set (pt_inputs tx). ref_ok av used ls n inp)"

definition layers_ok :: "zatoshi list \<Rightarrow> bool list \<Rightarrow> nat \<Rightarrow> prep_layers \<Rightarrow> bool" where
  "layers_ok av used fee ls \<longleftrightarrow>
     (\<forall>tx \<in> set (concat ls). tx_ok fee tx) \<and> refs_ok av used ls
       \<and> distinct (map coord (all_inputs ls))"

text \<open>A pool of notes the next layer may spend.\<close>

definition pool_ok :: "zatoshi list \<Rightarrow> bool list \<Rightarrow> prep_layers \<Rightarrow> prep_input list \<Rightarrow> bool" where
  "pool_ok av used ls pool \<longleftrightarrow>
     (\<forall>inp \<in> set pool. ref_ok av used ls (length ls) inp)
       \<and> distinct (map coord (pool @ all_inputs ls))"

text \<open>The feeder references collected while a layer is assembled.\<close>

definition next_ok :: "nat \<Rightarrow> prep_transaction list \<Rightarrow> prep_input list \<Rightarrow> bool" where
  "next_ok layer txs nxt \<longleftrightarrow>
     (\<forall>inp \<in> set nxt. \<exists>t k v. inp = Prior layer t k v \<and> t < length txs
        \<and> k < length (pt_outputs (txs ! t)) \<and> pt_outputs (txs ! t) ! k = Intermediate v)
       \<and> distinct (map coord nxt)"

definition layer_inputs :: "prep_transaction list \<Rightarrow> prep_input list" where
  "layer_inputs txs = concat (map pt_inputs txs)"

definition funding_of :: "prep_layers \<Rightarrow> zatoshi list" where
  "funding_of ls = List.map_filter funding_value (concat (map pt_outputs (concat ls)))"

definition layer_funding :: "prep_transaction list \<Rightarrow> zatoshi list" where
  "layer_funding txs = List.map_filter funding_value (concat (map pt_outputs txs))"

section \<open>Coordinates and references\<close>

lemma coord_Inr_iff: "coord inp = Inr c \<longleftrightarrow> prior_coord inp = Some c"
  by (cases inp; cases c) auto

lemma spent_coords_iff: "c \<in> set (spent_coords ls) \<longleftrightarrow> Inr c \<in> set (map coord (all_inputs ls))"
  by (force simp: set_spent_coords simp flip: coord_Inr_iff)

lemma ref_ok_append: "ref_ok av used ls n inp \<Longrightarrow> ref_ok av used (ls @ ms) n inp"
  by (cases inp) (auto intro: output_at_append)

lemma ref_ok_pad [simp]: "ref_ok av used (pad_layers ls m) n inp = ref_ok av used ls n inp"
  by (cases inp) auto

lemma output_at_push_mono:
  assumes "layer < length ls" and "output_at ls c = Some out"
  shows "output_at (push_tx ls layer tx) c = Some out"
proof -
  obtain l t k where c: "c = (l, t, k)" by (cases c)
  with assms have "\<not> (l = layer \<and> t = length (ls ! layer))"
    by (auto simp: output_at_def split: if_splits)
  with assms c show ?thesis by (auto simp: output_at_push)
qed

lemma ref_ok_push:
  "layer < length ls \<Longrightarrow> ref_ok av used ls n inp \<Longrightarrow> ref_ok av used (push_tx ls layer tx) n inp"
  by (cases inp) (auto intro: output_at_push_mono)

lemma ref_ok_weaken: "ref_ok av used ls n inp \<Longrightarrow> n \<le> m \<Longrightarrow> ref_ok av used ls m inp"
  by (cases inp) auto

lemma refs_ok_prior_layer:
  assumes "refs_ok av used ls" and "Inr (l, t, k) \<in> set (map coord (all_inputs ls))"
  shows "Suc l < length ls \<and> (\<exists>v. output_at ls (l, t, k) = Some (Intermediate v))"
proof -
  from assms(2) obtain inp where inp: "inp \<in> set (all_inputs ls)" "coord inp = Inr (l, t, k)"
    by (metis (mono_tags, lifting) imageE set_map)
  then obtain n tx where n: "n < length ls" "tx \<in> set (ls ! n)" "inp \<in> set (pt_inputs tx)"
  proof -
    from inp(1) obtain layer tx where "layer \<in> set ls" "tx \<in> set layer" "inp \<in> set (pt_inputs tx)"
      by (auto simp: all_inputs_def)
    then show thesis using that by (auto simp: in_set_conv_nth[of layer ls])
  qed
  with assms(1) have "ref_ok av used ls n inp" by (auto simp: refs_ok_def)
  with inp(2) n(1) show ?thesis by (cases inp) auto
qed

section \<open>Sums\<close>

lemma input_total_append [simp]: "input_total (xs @ ys) = input_total xs + input_total ys"
  by (simp add: input_total_def)

lemma input_total_Cons [simp]: "input_total (x # xs) = in_value x + input_total xs"
  by (simp add: input_total_def)

lemma input_total_Nil [simp]: "input_total [] = 0"
  by (simp add: input_total_def)

lemma output_total_append [simp]: "output_total (xs @ ys) = output_total xs + output_total ys"
  by (simp add: output_total_def)

lemma output_total_simps [simp]:
  "output_total [] = 0"
  "output_total (x # xs) = out_value x + output_total xs"
  by (simp_all add: output_total_def)

lemma output_total_funding [simp]: "output_total (map Funding vs) = sum_list vs"
  by (induction vs) auto

lemma output_total_intermediate [simp]: "output_total (map Intermediate vs) = sum_list vs"
  by (induction vs) auto

lemma input_total_mset: "mset xs = mset ys \<Longrightarrow> input_total xs = input_total ys"
  unfolding input_total_def by (rule sum_list_mset_cong) (simp add: image_mset.compositionality)

section \<open>Growing a plan\<close>

lemma layer_inputs_append [simp]: "layer_inputs (txs @ tys) = layer_inputs txs @ layer_inputs tys"
  by (simp add: layer_inputs_def)

lemma layer_inputs_simps [simp]:
  "layer_inputs [] = []"
  "layer_inputs (tx # txs) = pt_inputs tx @ layer_inputs txs"
  by (simp_all add: layer_inputs_def)

lemma layer_funding_append [simp]: "layer_funding (txs @ tys) = layer_funding txs @ layer_funding tys"
  by (simp add: layer_funding_def)

lemma layer_funding_Nil [simp]: "layer_funding [] = []"
  by (simp add: layer_funding_def)

lemma funding_of_snoc [simp]: "funding_of (ls @ [txs]) = funding_of ls @ layer_funding txs"
  by (simp add: funding_of_def layer_funding_def)

lemma funding_of_Nil [simp]: "funding_of [] = []"
  by (simp add: funding_of_def)

lemma funding_of_pad [simp]: "funding_of (pad_layers ls n) = funding_of ls"
  by (simp add: funding_of_def)

lemma all_inputs_pad [simp]: "all_inputs (pad_layers ls n) = all_inputs ls"
  by (simp add: all_inputs_def)

lemma map_filter_funding [simp]:
  "List.map_filter funding_value (map Funding vs) = vs"
  "List.map_filter funding_value (map Intermediate vs) = []"
  by (induction vs) (auto simp: map_filter_Cons)

lemma all_inputs_Nil [simp]: "all_inputs [] = []"
  by (simp add: all_inputs_def)

lemma all_inputs_snoc': "all_inputs (ls @ [txs]) = all_inputs ls @ layer_inputs txs"
  by (simp add: all_inputs_snoc layer_inputs_def)

lemma mset_all_inputs_push:
  assumes "layer < length ls"
  shows "mset (all_inputs (push_tx ls layer tx)) = mset (pt_inputs tx @ all_inputs ls)"
proof -
  have "mset (concat (map g ts)) = (\<Sum>t \<in># mset ts. mset (g t))"
    for g :: "prep_transaction \<Rightarrow> prep_input list" and ts
    by (induction ts) auto
  then show ?thesis
    using mset_concat_push_tx[OF assms, of tx] by (simp add: all_inputs_def)
qed

lemma mset_funding_of_push:
  assumes "layer < length ls"
  shows "mset (funding_of (push_tx ls layer tx))
    = mset (List.map_filter funding_value (pt_outputs tx) @ funding_of ls)"
proof -
  have f: "List.map_filter funding_value (concat (map pt_outputs ts))
      = concat (map (\<lambda>t. List.map_filter funding_value (pt_outputs t)) ts)" for ts
    by (induction ts) auto
  have m: "mset (concat (map g ts)) = (\<Sum>t \<in># mset ts. mset (g t))"
    for g :: "prep_transaction \<Rightarrow> nat list" and ts
    by (induction ts) auto
  show ?thesis
    using mset_concat_push_tx[OF assms, of tx] by (simp add: funding_of_def f m)
qed

lemma layers_ok_Nil [simp]: "layers_ok av used fee []"
  by (simp add: layers_ok_def refs_ok_def)

lemma layers_ok_pad:
  assumes "layers_ok av used fee ls"
  shows "layers_ok av used fee (pad_layers ls n)"
proof -
  have "set (pad_layers ls n ! m) = (if m < length ls then set (ls ! m) else {})"
    if "m < length (pad_layers ls n)" for m
    using that by (auto simp: pad_layers_def nth_append)
  then show ?thesis
    using assms by (auto simp: layers_ok_def refs_ok_def)
qed

lemma layers_ok_snoc:
  assumes ls: "layers_ok av used fee ls"
    and txs: "\<forall>tx \<in> set txs. tx_ok fee tx"
    and refs: "\<forall>inp \<in> set (layer_inputs txs). ref_ok av used ls (length ls) inp"
    and dist: "distinct (map coord (layer_inputs txs @ all_inputs ls))"
  shows "layers_ok av used fee (ls @ [txs])"
proof -
  have "refs_ok av used (ls @ [txs])"
    using ls refs unfolding layers_ok_def refs_ok_def
    by (auto simp: nth_append less_Suc_eq layer_inputs_def intro!: ref_ok_append)
  with ls txs dist show ?thesis
    by (auto simp: layers_ok_def all_inputs_snoc')
qed

lemma layers_ok_push:
  assumes ls: "layers_ok av used fee ls" and layer: "layer < length ls"
    and tx: "tx_ok fee tx"
    and refs: "\<forall>inp \<in> set (pt_inputs tx). ref_ok av used ls layer inp"
    and dist: "distinct (map coord (pt_inputs tx @ all_inputs ls))"
  shows "layers_ok av used fee (push_tx ls layer tx)"
proof -
  have "set (push_tx ls layer tx ! n) = (if n = layer then insert tx (set (ls ! n)) else set (ls ! n))"
    if "n < length ls" for n
    using that layer by (auto simp: push_tx_def nth_list_update)
  then have "refs_ok av used (push_tx ls layer tx)"
    using ls layer refs unfolding layers_ok_def refs_ok_def
    by (auto split: if_splits intro!: ref_ok_push)
  moreover have "set (concat (push_tx ls layer tx)) = insert tx (set (concat ls))"
    using mset_concat_push_tx[OF layer, of tx] by (metis set_mset_add_mset_insert set_mset_mset)
  then have "\<forall>t \<in> set (concat (push_tx ls layer tx)). tx_ok fee t"
    using ls tx by (simp add: layers_ok_def del: set_concat)
  moreover have "distinct (map coord (all_inputs (push_tx ls layer tx)))"
    using dist mset_all_inputs_push[OF layer, of tx]
    by (metis mset_eq_imp_distinct_iff mset_map)
  ultimately show ?thesis by (simp add: layers_ok_def)
qed

section \<open>Pools and feeders\<close>

lemma pool_ok_mset:
  assumes "mset pool = mset pool'"
  shows "pool_ok av used ls pool = pool_ok av used ls pool'"
proof -
  have "mset (map coord (pool @ all_inputs ls)) = mset (map coord (pool' @ all_inputs ls))"
    using assms by simp
  then show ?thesis
    using mset_eq_setD[OF assms] mset_eq_imp_distinct_iff unfolding pool_ok_def by blast
qed

lemma pool_ok_subset:
  assumes "pool_ok av used ls pool" and "mset sub \<subseteq># mset pool"
  shows "pool_ok av used ls sub"
proof -
  from assms(2) obtain rest where "mset pool = mset (sub @ rest)"
    by (metis ex_mset mset_append subset_mset.le_iff_add)
  then have "pool_ok av used ls (sub @ rest)" using assms(1) pool_ok_mset by blast
  then show ?thesis by (auto simp: pool_ok_def)
qed

lemma next_ok_Nil [simp]: "next_ok layer txs []"
  by (simp add: next_ok_def)

lemma next_ok_keep: "next_ok layer txs nxt \<Longrightarrow> next_ok layer (txs @ [tx]) nxt"
  by (fastforce simp: next_ok_def nth_append)

lemma next_ok_push:
  assumes "next_ok layer txs nxt" and "k < length (pt_outputs tx)" and "pt_outputs tx ! k = Intermediate v"
  shows "next_ok layer (txs @ [tx]) (nxt @ [Prior layer (length txs) k v])"
proof -
  have "Inr (layer, length txs, k) \<notin> set (map coord nxt)"
    using assms(1) by (fastforce simp: next_ok_def)
  with next_ok_keep[OF assms(1), of tx] assms(2,3) show ?thesis
    by (auto simp: next_ok_def)
qed

lemma pool_ok_next:
  assumes ls: "layers_ok av used fee (ls @ [txs])" and nxt: "next_ok (length ls) txs nxt"
    and rest: "pool_ok av used ls (layer_inputs txs @ rest)"
  shows "pool_ok av used (ls @ [txs]) (nxt @ rest)"
proof -
  have nref: "ref_ok av used (ls @ [txs]) (Suc (length ls)) inp" if "inp \<in> set nxt" for inp
    using nxt that by (fastforce simp: next_ok_def output_at_def nth_append)
  have rref: "ref_ok av used (ls @ [txs]) (Suc (length ls)) inp" if "inp \<in> set rest" for inp
  proof -
    from rest that have "ref_ok av used ls (length ls) inp" by (simp add: pool_ok_def)
    then show ?thesis
      using ref_ok_append ref_ok_weaken[of av used "ls @ [txs]" "length ls" inp "Suc (length ls)"] by simp
  qed
  have refs: "\<forall>inp \<in> set (nxt @ rest). ref_ok av used (ls @ [txs]) (length (ls @ [txs])) inp"
    using nref rref by auto
  have fresh: "coord inp \<notin> set (map coord (all_inputs (ls @ [txs])))"
    "coord inp \<notin> set (map coord rest)" if inp: "inp \<in> set nxt" for inp
  proof -
    from nxt inp obtain t k v where i: "inp = Prior (length ls) t k v" by (auto simp: next_ok_def)
    show "coord inp \<notin> set (map coord (all_inputs (ls @ [txs])))"
      using ls refs_ok_prior_layer[of av used "ls @ [txs]" "length ls" t k]
      unfolding i layers_ok_def by (force simp del: set_map)
    show "coord inp \<notin> set (map coord rest)"
    proof
      assume "coord inp \<in> set (map coord rest)"
      then obtain r where r: "r \<in> set rest" "coord r = Inr (length ls, t, k)" by (auto simp: i)
      from r(1) rest have "ref_ok av used ls (length ls) r" by (simp add: pool_ok_def)
      with r(2) show False by (cases r) auto
    qed
  qed
  have "distinct (map coord (rest @ all_inputs (ls @ [txs])))"
    using rest by (auto simp: pool_ok_def all_inputs_snoc')
  moreover have "distinct (map coord nxt)" using nxt by (simp add: next_ok_def)
  moreover have "set (map coord nxt) \<inter> set (map coord (rest @ all_inputs (ls @ [txs]))) = {}"
    using fresh by (simp only: map_append set_append set_map) blast
  ultimately have "distinct (map coord ((nxt @ rest) @ all_inputs (ls @ [txs])))"
    by (simp only: append_assoc map_append[of coord nxt] distinct_append)
  with refs show ?thesis unfolding pool_ok_def by blast
qed

lemma pool_ok_unconsumed:
  "pool_ok av used ls (unconsumed_feeders ls)" if ok: "layers_ok av used fee ls"
proof -
  have "map coord xs = map Inr (List.map_filter prior_coord xs)"
    if "\<And>inp. inp \<in> set xs \<Longrightarrow> \<exists>l t k v. inp = Prior l t k v" for xs
    using that
  proof (induction xs)
    case Nil
    then show ?case by simp
  next
    case (Cons x xs)
    from Cons.prems[of x] obtain l t k v where "x = Prior l t k v" by auto
    with Cons show ?case by (simp add: map_filter_Cons)
  qed
  from this[of "unconsumed_feeders ls"]
  have "map coord (unconsumed_feeders ls) = map Inr (List.map_filter prior_coord (unconsumed_feeders ls))"
    by (auto simp: set_unconsumed_feeders)
  then have "distinct (map coord (unconsumed_feeders ls))"
    by (simp add: distinct_map distinct_unconsumed_feeders)
  moreover have "ref_ok av used ls (length ls) inp" and "coord inp \<notin> set (map coord (all_inputs ls))"
    if "inp \<in> set (unconsumed_feeders ls)" for inp
  proof -
    from that obtain l t k v where i: "inp = Prior l t k v" "output_at ls (l, t, k) = Some (Intermediate v)"
        "(l, t, k) \<notin> set (spent_coords ls)"
      by (auto simp: set_unconsumed_feeders)
    then show "ref_ok av used ls (length ls) inp" by (auto simp: output_at_def split: if_splits)
    from i show "coord inp \<notin> set (map coord (all_inputs ls))" by (simp only: spent_coords_iff coord.simps) simp
  qed
  moreover have "distinct (map coord (all_inputs ls))" using ok by (simp add: layers_ok_def)
  ultimately show ?thesis by (auto simp: pool_ok_def)
qed

end
