(* ===== verification/Prep_Consolidate.thy ===== *)
theory Prep_Consolidate
  imports Prep_Invariant
begin

text \<open>
  Consolidation: combining notes that are too small to fund anything into feeder notes
  (\<open>consolidation_batch_sizes\<close> and \<open>consolidate\<close> of preparation_plan.rs). A batch is at least two
  and at most fifteen notes, so that its transaction keeps within the action budget; a batch
  whose sum does not exceed the fee stays unspent.
\<close>

section \<open>Batches\<close>

function consolidation_batch_sizes :: "nat \<Rightarrow> nat list" where
  "consolidation_batch_sizes n =
     (if n = 0 then []
      else let take' =
             (if n \<le> CONSOLIDATION_INPUTS_PER_TX then n
              else if n - CONSOLIDATION_INPUTS_PER_TX = 1 then CONSOLIDATION_INPUTS_PER_TX - 1
              else CONSOLIDATION_INPUTS_PER_TX)
           in take' # consolidation_batch_sizes (n - take'))"
  by auto

termination
  by (relation "measure id") (auto simp: action_constants Let_def split: if_splits)

declare consolidation_batch_sizes.simps [simp del]

lemma consolidation_batch_sizes_props:
  "sum_list (consolidation_batch_sizes n) = n
   \<and> (\<forall>s \<in> set (consolidation_batch_sizes n). s \<le> CONSOLIDATION_INPUTS_PER_TX \<and> (n \<noteq> 1 \<longrightarrow> 2 \<le> s))"
proof (induction n rule: less_induct)
  case (less n)
  show ?case
  proof (cases "n \<le> CONSOLIDATION_INPUTS_PER_TX")
    case True
    then show ?thesis
      by (auto simp: consolidation_batch_sizes.simps[of n] consolidation_batch_sizes.simps[of 0] Let_def)
  next
    case False
    define t where "t = (if n - 15 = 1 then 14 else (15 :: nat))"
    have t: "consolidation_batch_sizes n = t # consolidation_batch_sizes (n - t)"
      using False by (subst consolidation_batch_sizes.simps) (auto simp: action_constants t_def Let_def)
    have n: "15 < n" using False by (simp add: action_constants)
    then have "n - t \<noteq> 1" "n - t < n" "t \<le> n" "t \<le> CONSOLIDATION_INPUTS_PER_TX" "2 \<le> t"
      by (auto simp: t_def action_constants)
    with less.IH[of "n - t"] show ?thesis by (auto simp: t)
  qed
qed

lemma sum_consolidation_batch_sizes [simp]: "sum_list (consolidation_batch_sizes n) = n"
  using consolidation_batch_sizes_props by blast

lemma consolidation_batch_sizes_bounds:
  "s \<in> set (consolidation_batch_sizes n) \<Longrightarrow> n \<noteq> 1 \<Longrightarrow> 2 \<le> s \<and> s \<le> CONSOLIDATION_INPUTS_PER_TX"
  using consolidation_batch_sizes_props by blast

section \<open>Consolidating a pool\<close>

text \<open>
  The loop over the batches, with the pool still to drain, the notes left over, the transactions
  of the layer so far and the feeders collected for the next layer.
\<close>

fun consolidate_batches ::
    "nat \<Rightarrow> nat \<Rightarrow> nat list \<Rightarrow> prep_input list \<Rightarrow> prep_input list \<Rightarrow> prep_transaction list
       \<Rightarrow> prep_input list \<Rightarrow> prep_input list \<times> prep_transaction list \<times> prep_input list" where
  "consolidate_batches layer fee [] pool leftover txs nxt = (leftover, txs, nxt)"
| "consolidate_batches layer fee (sz # sizes) pool leftover txs nxt =
     (let batch = take sz pool; total = input_total batch in
      if total \<le> fee
      then consolidate_batches layer fee sizes (drop sz pool) (leftover @ batch) txs nxt
      else consolidate_batches layer fee sizes (drop sz pool) leftover
             (txs @ [\<lparr>pt_inputs = batch, pt_outputs = [Intermediate (total - fee)]\<rparr>])
             (nxt @ [Prior layer (length txs) 0 (total - fee)]))"

definition consolidate ::
    "prep_input list \<Rightarrow> nat \<Rightarrow> nat \<Rightarrow> prep_transaction list \<Rightarrow> prep_input list
       \<Rightarrow> prep_input list \<times> prep_transaction list \<times> prep_input list" where
  "consolidate pool layer fee txs nxt =
     (if length pool < 2 then (pool, txs, nxt)
      else let pool = sort_desc_by in_value pool in
        consolidate_batches layer fee (consolidation_batch_sizes (length pool)) pool [] txs nxt)"

section \<open>What consolidation keeps\<close>

text \<open>
  The whole effect in one statement: the new transactions are valid, spend exactly the pool less
  the leftover notes, fund nothing, and each of them contributes its feeder.
\<close>

definition consolidated ::
    "nat \<Rightarrow> nat \<Rightarrow> prep_input list \<Rightarrow> prep_transaction list \<Rightarrow> prep_input list \<Rightarrow>
     prep_input list \<Rightarrow> prep_transaction list \<Rightarrow> prep_input list \<Rightarrow> bool" where
  "consolidated layer fee pool txs nxt leftover txs' nxt' \<longleftrightarrow>
     (\<exists>new feeders. txs' = txs @ new \<and> nxt' = nxt @ feeders
        \<and> (\<forall>tx \<in> set new. tx_ok fee tx \<and> 2 \<le> length (pt_inputs tx)
              \<and> (\<exists>v > 0. pt_outputs tx = [Intermediate v]))
        \<and> mset (leftover @ layer_inputs new) = mset pool
        \<and> length feeders = length new
        \<and> input_total feeders + fee * length new = input_total (layer_inputs new)
        \<and> (next_ok layer txs nxt \<longrightarrow> next_ok layer txs' nxt'))"

lemma consolidated_step:
  assumes batch: "mset pool = mset (batch @ pool')"
    and size: "2 \<le> length batch" "length batch \<le> CONSOLIDATION_INPUTS_PER_TX"
    and pays: "fee < input_total batch"
    and rest: "consolidated layer fee pool' (txs @ [\<lparr>pt_inputs = batch, pt_outputs = [Intermediate v]\<rparr>])
                 (nxt @ [Prior layer (length txs) 0 v]) leftover txs' nxt'"
    and v: "v = input_total batch - fee"
  shows "consolidated layer fee pool txs nxt leftover txs' nxt'"
proof -
  define tx where "tx = \<lparr>pt_inputs = batch, pt_outputs = [Intermediate v]\<rparr>"
  define f where "f = Prior layer (length txs) 0 v"
  from rest obtain new feeders where new:
      "txs' = (txs @ [tx]) @ new" "nxt' = (nxt @ [f]) @ feeders"
      "\<forall>tx \<in> set new. tx_ok fee tx \<and> 2 \<le> length (pt_inputs tx) \<and> (\<exists>v > 0. pt_outputs tx = [Intermediate v])"
      "mset (leftover @ layer_inputs new) = mset pool'"
      "length feeders = length new"
      "input_total feeders + fee * length new = input_total (layer_inputs new)"
      "next_ok layer (txs @ [tx]) (nxt @ [f]) \<longrightarrow> next_ok layer txs' nxt'"
    unfolding consolidated_def tx_def f_def by blast
  have tx: "tx_ok fee tx" "\<exists>v > 0. pt_outputs tx = [Intermediate v]" "pt_inputs tx = batch"
    using size pays by (auto simp: tx_def tx_ok_def action_count_def action_constants v)
  have nok: "next_ok layer txs nxt \<Longrightarrow> next_ok layer (txs @ [tx]) (nxt @ [f])"
    unfolding f_def by (rule next_ok_push) (simp_all add: tx_def)
  have "input_total (f # feeders) + fee * length (tx # new) = input_total (layer_inputs (tx # new))"
    using new(6) pays by (simp add: f_def tx_def v)
  moreover have "mset (leftover @ layer_inputs (tx # new)) = mset pool"
    using new(4) batch by (simp add: tx_def union_ac)
  moreover have "\<forall>t \<in> set (tx # new). tx_ok fee t \<and> 2 \<le> length (pt_inputs t)
      \<and> (\<exists>v > 0. pt_outputs t = [Intermediate v])"
    using new(3) tx size(1) by simp
  moreover have "txs' = txs @ (tx # new)" "nxt' = nxt @ (f # feeders)"
      "length (f # feeders) = length (tx # new)"
    using new by simp_all
  moreover have "next_ok layer txs nxt \<longrightarrow> next_ok layer txs' nxt'" using nok new(7) by blast
  ultimately show ?thesis unfolding consolidated_def by blast
qed

lemma consolidated_skip:
  assumes batch: "mset pool = mset (batch @ pool')"
    and rest: "consolidated layer fee pool' txs nxt leftover txs' nxt'"
  shows "consolidated layer fee pool txs nxt (batch @ leftover) txs' nxt'"
proof -
  from rest obtain new feeders where new: "txs' = txs @ new" "nxt' = nxt @ feeders"
      "\<forall>tx \<in> set new. tx_ok fee tx \<and> 2 \<le> length (pt_inputs tx) \<and> (\<exists>v > 0. pt_outputs tx = [Intermediate v])"
      "mset (leftover @ layer_inputs new) = mset pool'" "length feeders = length new"
      "input_total feeders + fee * length new = input_total (layer_inputs new)"
      "next_ok layer txs nxt \<longrightarrow> next_ok layer txs' nxt'"
    unfolding consolidated_def by blast
  have "mset ((batch @ leftover) @ layer_inputs new) = mset pool"
    using new(4) batch by simp
  then show ?thesis
    unfolding consolidated_def by (intro exI[of _ new] exI[of _ feeders] conjI new)
qed

lemma consolidate_batches_spec:
  assumes "consolidate_batches layer fee sizes pool lo txs nxt = (leftover, txs', nxt')"
    and "\<forall>s \<in> set sizes. 2 \<le> s \<and> s \<le> CONSOLIDATION_INPUTS_PER_TX"
    and "sum_list sizes = length pool"
  shows "\<exists>more. leftover = lo @ more \<and> consolidated layer fee pool txs nxt more txs' nxt'"
  using assms
proof (induction sizes arbitrary: pool lo txs nxt)
  case Nil
  then show ?case by (auto simp: consolidated_def)
next
  case (Cons s sizes)
  have sum: "sum_list sizes = length (drop s pool)" and len: "length (take s pool) = s"
    using Cons.prems(3) by auto
  have split: "mset pool = mset (take s pool @ drop s pool)" by simp
  show ?case
  proof (cases "input_total (take s pool) \<le> fee")
    case True
    with Cons.prems have "consolidate_batches layer fee sizes (drop s pool) (lo @ take s pool) txs nxt
        = (leftover, txs', nxt')" by (simp add: Let_def)
    from Cons.IH[OF this _ sum] Cons.prems(2) obtain more where more:
      "leftover = (lo @ take s pool) @ more" "consolidated layer fee (drop s pool) txs nxt more txs' nxt'"
      by auto
    from consolidated_skip[OF split more(2)] more(1) show ?thesis by simp
  next
    case False
    let ?v = "input_total (take s pool) - fee"
    from False Cons.prems(1) have "consolidate_batches layer fee sizes (drop s pool) lo
        (txs @ [\<lparr>pt_inputs = take s pool, pt_outputs = [Intermediate ?v]\<rparr>])
        (nxt @ [Prior layer (length txs) 0 ?v]) = (leftover, txs', nxt')" by (simp add: Let_def)
    from Cons.IH[OF this _ sum] Cons.prems(2) obtain more where more: "leftover = lo @ more"
      "consolidated layer fee (drop s pool) (txs @ [\<lparr>pt_inputs = take s pool, pt_outputs = [Intermediate ?v]\<rparr>])
        (nxt @ [Prior layer (length txs) 0 ?v]) more txs' nxt'"
      by auto
    have "consolidated layer fee pool txs nxt more txs' nxt'"
      using Cons.prems(2) False len more(2)
      by (intro consolidated_step[OF split, of fee layer txs ?v nxt more txs' nxt']) auto
    with more(1) show ?thesis by blast
  qed
qed

lemma consolidate_spec:
  assumes "consolidate pool layer fee txs nxt = (leftover, txs', nxt')"
  shows "consolidated layer fee pool txs nxt leftover txs' nxt'"
proof (cases "length pool < 2")
  case True
  with assms show ?thesis by (auto simp: consolidate_def consolidated_def)
next
  case False
  let ?pool = "sort_desc_by in_value pool"
  from False assms have "consolidate_batches layer fee (consolidation_batch_sizes (length ?pool)) ?pool [] txs nxt
      = (leftover, txs', nxt')" by (simp add: consolidate_def Let_def)
  from consolidate_batches_spec[OF this] consolidation_batch_sizes_bounds False
  have "consolidated layer fee ?pool txs nxt leftover txs' nxt'" by fastforce
  then show ?thesis by (simp add: consolidated_def)
qed

text \<open>When nothing could be consolidated, at most one note of the pool exceeds the fee.\<close>

lemma consolidate_batches_none:
  assumes "consolidate_batches layer fee sizes pool lo txs nxt = (leftover, txs', nxt')"
  shows "length txs \<le> length txs'
    \<and> (sizes \<noteq> [] \<and> length txs' = length txs \<longrightarrow> input_total (take (hd sizes) pool) \<le> fee)"
  using assms
proof (induction sizes arbitrary: pool lo txs nxt)
  case Nil
  then show ?case by simp
next
  case (Cons s sizes)
  show ?case
  proof (cases "input_total (take s pool) \<le> fee")
    case True
    with Cons show ?thesis by (fastforce simp: Let_def)
  next
    case False
    with Cons.prems Cons.IH[of "drop s pool" lo
        "txs @ [\<lparr>pt_inputs = take s pool, pt_outputs = [Intermediate (input_total (take s pool) - fee)]\<rparr>]"]
    show ?thesis by (fastforce simp: Let_def)
  qed
qed

lemma in_value_le_input_total: "x \<in> set xs \<Longrightarrow> in_value x \<le> input_total xs"
  unfolding input_total_def by (induction xs) auto

lemma consolidate_none:
  assumes "consolidate pool layer fee [] nxt = (leftover, [], nxt')" and "2 \<le> length pool"
    and "inp \<in> set pool"
  shows "in_value inp \<le> fee"
proof -
  let ?pool = "sort_desc_by in_value pool"
  let ?sizes = "consolidation_batch_sizes (length ?pool)"
  have "?sizes \<noteq> []" "2 \<le> hd ?sizes"
  proof -
    from assms(2) show ne: "?sizes \<noteq> []" using sum_consolidation_batch_sizes[of "length ?pool"]
      by (metis length_sort_desc_by not_numeral_le_zero sum_list.Nil)
    then have "hd ?sizes \<in> set ?sizes" by simp
    then show "2 \<le> hd ?sizes" using consolidation_batch_sizes_bounds assms(2) by fastforce
  qed
  moreover have "consolidate_batches layer fee ?sizes ?pool [] [] nxt = (leftover, [], nxt')"
    using assms(1,2) by (simp add: consolidate_def Let_def)
  ultimately have total: "input_total (take (hd ?sizes) ?pool) \<le> fee"
    using consolidate_batches_none by fastforce
  obtain first others where first: "?pool = first # others"
    using assms(2) by (cases ?pool) (auto simp flip: length_0_conv)
  have "in_value first \<le> fee"
    using total \<open>2 \<le> hd ?sizes\<close> in_value_le_input_total[of first "take (hd ?sizes) ?pool"]
    by (cases "hd ?sizes") (auto simp: first)
  moreover have "in_value inp \<le> in_value first"
    using assms(3) sorted_rev_sort_desc_by[of in_value pool] set_sort_desc_by[of in_value pool]
    unfolding first by (auto simp: sorted_append)
  ultimately show ?thesis by simp
qed

end
