(* ===== verification/Prep_Split.thy ===== *)
theory Prep_Split
  imports Prep_Invariant
begin

text \<open>
  The balanced fan-out of preparation_plan.rs: one source note is split through a tree in which a
  transaction has at most fourteen children, so that the depth is logarithmic in the number of
  funding notes (\<open>subtree_capacity\<close>, \<open>split_depth\<close>, \<open>even_group_sizes\<close>, \<open>subtree_cost\<close>,
  \<open>build_split\<close>). The lemmas show that the groups partition the targets and shrink, that the cost of a
  subtree is its targets plus one fee per transaction, and that building the tree keeps the plan
  valid, spends the source once, mints exactly the targets and leaves at most one open feeder.
\<close>

section \<open>Shape of the tree\<close>

definition subtree_capacity :: "nat \<Rightarrow> nat" where
  "subtree_capacity depth = FUNDING_OUTPUTS_PER_TX ^ depth"

lemma subtree_capacity_gt: "depth < subtree_capacity depth"
  unfolding subtree_capacity_def action_constants
  by (induction depth) auto

lemma subtree_capacity_pos [simp]: "0 < subtree_capacity depth"
  by (simp add: subtree_capacity_def action_constants)

lemma subtree_capacity_Suc: "subtree_capacity (Suc d) = 14 * subtree_capacity d"
  by (simp add: subtree_capacity_def action_constants)

lemma subtree_capacity_mono: "d \<le> e \<Longrightarrow> subtree_capacity d \<le> subtree_capacity e"
  by (simp add: subtree_capacity_def action_constants power_increasing)

text \<open>\<open>while subtree_capacity(depth) < n { depth += 1 }\<close>.\<close>

function split_depth_loop :: "nat \<Rightarrow> nat \<Rightarrow> nat" where
  "split_depth_loop n depth =
     (if subtree_capacity depth < n then split_depth_loop n (Suc depth) else depth)"
  by auto

termination
proof (relation "measure (\<lambda>(n, depth). n - depth)")
  show "wf (measure (\<lambda>(n, depth). n - depth))" by simp
next
  fix n depth :: nat
  assume "subtree_capacity depth < n"
  then have "depth < n" using subtree_capacity_gt[of depth] by simp
  then show "((n, Suc depth), (n, depth)) \<in> measure (\<lambda>(n, depth). n - depth)" by simp
qed

declare split_depth_loop.simps [simp del]

definition split_depth :: "nat \<Rightarrow> nat" where
  "split_depth n = (if n = 0 then 0 else split_depth_loop n 1)"

lemma split_depth_loop_spec:
  "(\<forall>e. d \<le> e \<and> e < split_depth_loop n d \<longrightarrow> subtree_capacity e < n)
   \<and> n \<le> subtree_capacity (split_depth_loop n d) \<and> d \<le> split_depth_loop n d"
proof (induction n d rule: split_depth_loop.induct)
  case (1 n d)
  show ?case
  proof (cases "subtree_capacity d < n")
    case True
    with 1 show ?thesis
      by (auto simp: split_depth_loop.simps[of n d]) (metis Suc_leI le_neq_implies_less)
  next
    case False
    then show ?thesis by (simp add: split_depth_loop.simps[of n d])
  qed
qed

lemma split_depth_le_iff: "1 \<le> d \<Longrightarrow> split_depth n \<le> d \<longleftrightarrow> n \<le> subtree_capacity d"
proof -
  assume d: "1 \<le> d"
  have "split_depth_loop n 1 \<le> d \<longleftrightarrow> n \<le> subtree_capacity d"
    using split_depth_loop_spec[of 1 n] subtree_capacity_mono[of "split_depth_loop n 1" d] d
    by (meson leD le_trans linorder_not_le)
  then show ?thesis by (simp add: split_depth_def)
qed

lemma split_depth_pos: "0 < n \<Longrightarrow> 1 \<le> split_depth n"
  using split_depth_loop_spec[of 1 n] by (simp add: split_depth_def)

lemma split_depth_capacity: "n \<le> subtree_capacity (split_depth n)"
  using split_depth_loop_spec[of 1 n] by (simp add: split_depth_def)

lemma split_depth_le_1: "split_depth n \<le> 1 \<longleftrightarrow> n \<le> FUNDING_OUTPUTS_PER_TX"
  by (simp add: split_depth_le_iff subtree_capacity_def)

definition div_ceil :: "nat \<Rightarrow> nat \<Rightarrow> nat" where
  "div_ceil a b = a div b + (if 0 < a mod b then 1 else 0)"

lemma div_ceil_le_iff: "0 < b \<Longrightarrow> div_ceil a b \<le> c \<longleftrightarrow> a \<le> c * b"
proof -
  assume b: "0 < b"
  have a: "a = a div b * b + a mod b" by simp
  show ?thesis
  proof (cases "a mod b = 0")
    case True
    then show ?thesis using b a
      by (metis add.right_neutral div_ceil_def less_irrefl mult_le_cancel2)
  next
    case False
    have "a div b < c \<longleftrightarrow> a \<le> c * b"
    proof
      assume "a div b < c"
      then show "a \<le> c * b" using b less_imp_le div_less_iff_less_mult by blast
    next
      assume "a \<le> c * b"
      moreover have "a \<noteq> c * b" using False by auto
      ultimately show "a div b < c" using b div_less_iff_less_mult by (metis le_neq_implies_less)
    qed
    with False show ?thesis by (simp add: div_ceil_def Suc_le_eq)
  qed
qed

lemma div_ceil_mult: "0 < b \<Longrightarrow> a \<le> div_ceil a b * b"
  using div_ceil_le_iff[of b a "div_ceil a b"] by simp

lemma div_ceil_pos: "0 < a \<Longrightarrow> 0 < b \<Longrightarrow> 0 < div_ceil a b"
  using div_ceil_le_iff[of b a 0] by auto

definition even_group_sizes :: "nat \<Rightarrow> nat \<Rightarrow> nat list" where
  "even_group_sizes len g = map (\<lambda>i. len div g + (if i < len mod g then 1 else 0)) [0..<g]"

lemma length_even_group_sizes [simp]: "length (even_group_sizes len g) = g"
  by (simp add: even_group_sizes_def)

lemma sum_even_group_sizes:
  assumes "0 < g"
  shows "sum_list (even_group_sizes len g) = len"
proof -
  have "sum_list (map (\<lambda>i. if i < e then 1 else 0 :: nat) [0..<n]) = min e n" for e n :: nat
    by (induction n) auto
  then have "sum_list (even_group_sizes len g) = g * (len div g) + min (len mod g) g"
    by (simp add: even_group_sizes_def sum_list_addf sum_list_triv)
  with assms show ?thesis by (simp add: min_absorb1)
qed

lemma even_group_sizes_bounds:
  assumes "s \<in> set (even_group_sizes len g)" and "0 < g" and "g \<le> len"
  shows "1 \<le> s \<and> s \<le> div_ceil len g"
proof -
  have "1 \<le> len div g" using assms(2,3) by (simp add: Suc_leI div_greater_zero_iff)
  then show ?thesis using assms by (auto simp: even_group_sizes_def div_ceil_def split: if_splits)
qed

text \<open>The slices \<open>targets[start..start + size]\<close> for consecutive sizes.\<close>

fun slices :: "nat list \<Rightarrow> 'a list \<Rightarrow> 'a list list" where
  "slices [] xs = []"
| "slices (s # ss) xs = take s xs # slices ss (drop s xs)"

lemma concat_slices: "sum_list ss = length xs \<Longrightarrow> concat (slices ss xs) = xs"
  by (induction ss arbitrary: xs) auto

lemma length_slices [simp]: "length (slices ss xs) = length ss"
  by (induction ss arbitrary: xs) auto

lemma map_length_slices: "sum_list ss = length xs \<Longrightarrow> map length (slices ss xs) = ss"
  by (induction ss arbitrary: xs) auto

definition child_groups :: "'a list \<Rightarrow> 'a list list" where
  "child_groups targets =
     (let depth = split_depth (length targets);
          child_cap = subtree_capacity (depth - 1);
          g = div_ceil (length targets) child_cap
      in slices (even_group_sizes (length targets) g) targets)"

lemma child_groups_props:
  assumes depth: "\<not> split_depth (length targets) \<le> 1"
  shows "concat (child_groups targets) = targets"
    and "length (child_groups targets) \<le> FUNDING_OUTPUTS_PER_TX"
    and "\<forall>g \<in> set (child_groups targets). g \<noteq> []
           \<and> length g \<le> subtree_capacity (split_depth (length targets) - 1)"
proof -
  let ?n = "length targets" and ?d = "split_depth (length targets)"
  define cap where "cap = subtree_capacity (?d - 1)"
  define g where "g = div_ceil ?n cap"
  obtain d where d: "?d = Suc d" "1 \<le> d" using depth by (cases ?d) auto
  have groups: "child_groups targets = slices (even_group_sizes ?n g) targets"
    by (simp add: child_groups_def cap_def g_def Let_def)
  have n: "?n \<le> 14 * cap" using split_depth_capacity[of ?n] by (simp add: d cap_def subtree_capacity_Suc)
  have cap: "0 < cap" by (simp add: cap_def)
  have n0: "0 < ?n" using depth by (auto simp: split_depth_def intro!: Nat.gr0I)
  have g: "0 < g" "g \<le> ?n"
    unfolding g_def using n0 cap by (auto simp: div_ceil_pos div_ceil_le_iff Suc_le_eq)
  have sum: "sum_list (even_group_sizes ?n g) = ?n" by (rule sum_even_group_sizes[OF g(1)])
  show "concat (child_groups targets) = targets"
    unfolding groups by (rule concat_slices[OF sum])
  have "g \<le> 14" unfolding g_def using n cap by (simp add: div_ceil_le_iff)
  then show "length (child_groups targets) \<le> FUNDING_OUTPUTS_PER_TX"
    by (simp add: groups action_constants)
  have "1 \<le> s \<and> s \<le> cap" if "s \<in> set (even_group_sizes ?n g)" for s
  proof -
    have "div_ceil ?n g \<le> cap"
      using div_ceil_mult[OF cap, of ?n] g(1) by (simp add: div_ceil_le_iff g_def mult.commute)
    then show ?thesis using even_group_sizes_bounds[OF that g] by simp
  qed
  moreover have "map length (child_groups targets) = even_group_sizes ?n g"
    unfolding groups by (rule map_length_slices[OF sum])
  ultimately have "1 \<le> length x \<and> length x \<le> cap" if "x \<in> set (child_groups targets)" for x
    using that by (metis imageI list.set_map)
  then show "\<forall>g \<in> set (child_groups targets). g \<noteq> [] \<and> length g \<le> subtree_capacity (?d - 1)"
    by (fastforce simp: cap_def)
qed

lemma child_groups_depth:
  assumes "\<not> split_depth (length targets) \<le> 1" and "g \<in> set (child_groups targets)"
  shows "split_depth (length g) \<le> split_depth (length targets) - 1"
  using child_groups_props(3)[OF assms(1)] assms by (subst split_depth_le_iff) auto

lemma child_groups_shorter:
  assumes "\<not> split_depth (length targets) \<le> 1" and "g \<in> set (child_groups targets)"
  shows "length g < length targets"
proof -
  have "split_depth (length g) < split_depth (length targets)"
    using child_groups_depth[OF assms] assms(1) by simp
  moreover have "split_depth m \<le> split_depth n" if "m \<le> n" "n \<noteq> 0" for m n
    using that split_depth_capacity[of n] split_depth_pos[of n]
    by (subst split_depth_le_iff) (auto simp: Suc_le_eq)
  moreover have "length targets \<noteq> 0 \<or> length g \<noteq> 0" using assms(1) by (auto simp: split_depth_def)
  ultimately show ?thesis by (metis leD not_le_imp_less le_zero_eq)
qed

section \<open>The cost of a subtree\<close>

function subtree_cost :: "nat list \<Rightarrow> nat \<Rightarrow> nat \<times> nat" where
  "subtree_cost targets fee =
     (if split_depth (length targets) \<le> 1 then (1, sum_list targets + fee)
      else foldl (\<lambda>acc group.
             let (t, v) = subtree_cost group fee in (fst acc + t, snd acc + v))
             (1, fee) (child_groups targets))"
  by auto

termination
  by (relation "measure (length \<circ> fst)") (auto simp del: One_nat_def intro: child_groups_shorter)

declare subtree_cost.simps [simp del]

lemma foldl_pair_sums:
  "foldl (\<lambda>acc x. let (t, v) = f x in (fst acc + t, snd acc + v)) (a0 :: nat, b0 :: nat) xs
     = (a0 + sum_list (map (fst \<circ> f) xs), b0 + sum_list (map (snd \<circ> f) xs))"
  by (induction xs arbitrary: a0 b0) (auto simp: Let_def split: prod.splits)

lemma subtree_cost_node:
  assumes "\<not> split_depth (length targets) \<le> 1"
  shows "subtree_cost targets fee =
    (1 + sum_list (map (\<lambda>g. fst (subtree_cost g fee)) (child_groups targets)),
     fee + sum_list (map (\<lambda>g. snd (subtree_cost g fee)) (child_groups targets)))"
  using assms unfolding subtree_cost.simps[of targets fee]
  by (simp only: foldl_pair_sums comp_def if_False)

lemma subtree_cost_value:
  "snd (subtree_cost targets fee) = sum_list targets + fee * fst (subtree_cost targets fee)"
proof (induction targets fee rule: subtree_cost.induct)
  case (1 targets fee)
  show ?case
  proof (cases "split_depth (length targets) \<le> 1")
    case True
    then show ?thesis by (simp add: subtree_cost.simps[of targets])
  next
    case False
    let ?G = "child_groups targets"
    have "snd (subtree_cost g fee) = sum_list g + fee * fst (subtree_cost g fee)" if "g \<in> set ?G" for g
      using "1.IH"[OF False] that by blast
    then have "sum_list (map (\<lambda>g. snd (subtree_cost g fee)) ?G)
        = sum_list (map (\<lambda>g. sum_list g + fee * fst (subtree_cost g fee)) ?G)"
      by (metis (mono_tags, lifting) map_eq_conv)
    also have "\<dots> = sum_list (concat ?G) + fee * sum_list (map (\<lambda>g. fst (subtree_cost g fee)) ?G)"
      by (simp add: sum_list_addf sum_list_const_mult sum_list_concat)
    finally show ?thesis
      using child_groups_props(1)[OF False] by (simp add: subtree_cost_node[OF False] algebra_simps)
  qed
qed

lemma subtree_cost_txs_pos: "1 \<le> fst (subtree_cost targets fee)"
proof (cases "split_depth (length targets) \<le> 1")
  case True
  then show ?thesis by (simp add: subtree_cost.simps[of targets])
next
  case False
  then show ?thesis by (simp add: subtree_cost_node)
qed

text \<open>A subtree takes at most twice as many transactions as it has targets.\<close>

lemma subtree_cost_txs_bound: "targets \<noteq> [] \<Longrightarrow> fst (subtree_cost targets fee) + 1 \<le> 2 * length targets"
proof (induction targets fee rule: subtree_cost.induct)
  case (1 targets fee)
  show ?case
  proof (cases "split_depth (length targets) \<le> 1")
    case True
    then have "fst (subtree_cost targets fee) = 1" by (simp add: subtree_cost.simps[of targets])
    with 1 show ?thesis by (cases targets) simp_all
  next
    case False
    let ?G = "child_groups targets"
    note props = child_groups_props[OF False]
    have "sum_list (map (\<lambda>g. fst (subtree_cost g fee) + 1) ?G) \<le> sum_list (map (\<lambda>g. 2 * length g) ?G)"
      by (rule sum_list_mono) (use "1.IH"[OF False] props(3) in blast)
    also have "\<dots> = 2 * length targets"
      using props(1) by (metis length_concat sum_list_const_mult)
    finally have "sum_list (map (\<lambda>g. fst (subtree_cost g fee)) ?G) + length ?G \<le> 2 * length targets"
      by (simp add: sum_list_Suc)
    moreover have "2 \<le> length ?G"
    proof (rule ccontr)
      assume "\<not> 2 \<le> length ?G"
      then consider "?G = []" | g where "?G = [g]" by (cases ?G) (auto simp: Suc_le_eq)
      then show False
      proof cases
        case 1
        then show False using props(1) False by (auto simp: split_depth_def)
      next
        case 2
        then have "g = targets" using props(1) by simp
        then show False using child_groups_shorter[OF False, of g] 2 by simp
      qed
    qed
    ultimately show ?thesis by (simp add: subtree_cost_node[OF False])
  qed
qed

end
