(* ===== verification/Prep_Tree.thy ===== *)
theory Prep_Tree
  imports Prep_Split
begin

text \<open>
  Building the balanced split tree (\<open>build_split\<close> of preparation_plan.rs) on the layers of a plan
  under construction, and what growing a plan by such a tree keeps: the relation \<open>grown\<close> says that
  the larger plan is valid, that positions of outputs are stable, that only the named notes and
  notes created on the way are spent, and it accounts for funding notes, transactions and open
  feeders. It composes over the children of a node, which carries the induction.
\<close>

section \<open>The construction\<close>

definition leftover_output :: "nat \<Rightarrow> prep_output list" where
  "leftover_output leftover = (if 0 < leftover then [Intermediate leftover] else [])"

lemma in_child_enumerate:
  "(k, g, cv) \<in> set (enumerate 0 (zip groups (map f groups))) \<longleftrightarrow> k < length groups \<and> g = groups ! k \<and> cv = f g"
  by (auto simp: set_enumerate_0)

function build_split ::
    "prep_input \<Rightarrow> nat \<Rightarrow> nat list \<Rightarrow> nat \<Rightarrow> nat \<Rightarrow> prep_layers \<Rightarrow> prep_layers" where
  "build_split source source_value targets fee layer layers =
     (let layers = pad_layers layers layer;
          tx_index = length (layers ! layer)
      in if split_depth (length targets) \<le> 1 then
           let spent = sum_list targets;
               leftover = source_value - fee - spent;
               outputs = map Funding targets @ leftover_output leftover
           in push_tx layers layer \<lparr>pt_inputs = [source], pt_outputs = outputs\<rparr>
         else
           let groups = child_groups targets;
               child_values = map (\<lambda>group. snd (subtree_cost group fee)) groups;
               spent = sum_list child_values;
               leftover = source_value - fee - spent;
               outputs = map Intermediate child_values @ leftover_output leftover;
               layers = push_tx layers layer \<lparr>pt_inputs = [source], pt_outputs = outputs\<rparr>
           in fold (\<lambda>(output, group, cv) layers.
                  build_split (Prior layer tx_index output cv) cv group fee (Suc layer) layers)
                (enumerate 0 (zip groups child_values)) layers)"
  by auto

termination
  by (relation "measure (\<lambda>(source, source_value, targets, fee, layer, layers). length targets)")
    (auto simp del: One_nat_def simp: in_child_enumerate intro: child_groups_shorter)

declare build_split.simps [simp del]

section \<open>Growing a plan\<close>

definition open_count :: "prep_layers \<Rightarrow> int" where
  "open_count ls = int (length (List.map_filter intermediate_value (concat (map pt_outputs (concat ls)))))
     - int (length (spent_coords ls))"

definition no_change :: "prep_layers \<Rightarrow> bool" where
  "no_change ls \<longleftrightarrow> (\<forall>tx \<in> set (concat ls). \<forall>out \<in> set (pt_outputs tx). change_value out = None)"

definition spent_set :: "prep_layers \<Rightarrow> (nat + nat \<times> nat \<times> nat) set" where
  "spent_set ls = set (map coord (all_inputs ls))"

definition grown ::
    "zatoshi list \<Rightarrow> bool list \<Rightarrow> nat \<Rightarrow> (nat + nat \<times> nat \<times> nat) set \<Rightarrow> nat list \<Rightarrow> nat \<Rightarrow> int \<Rightarrow> nat
       \<Rightarrow> prep_layers \<Rightarrow> prep_layers \<Rightarrow> bool" where
  "grown av used fee S T n d b L L' \<longleftrightarrow>
     layers_ok av used fee L' \<and> (no_change L \<longrightarrow> no_change L') \<and> ([] \<notin> set L \<longrightarrow> [] \<notin> set L')
     \<and> length L \<le> length L' \<and> length L' \<le> max (length L) b
     \<and> mset (funding_of L') = mset T + mset (funding_of L)
     \<and> (\<forall>c out. output_at L c = Some out \<longrightarrow> output_at L' c = Some out)
     \<and> spent_set L' \<subseteq> S \<union> spent_set L \<union> {Inr c | c. output_at L c = None}
     \<and> length (concat L') = length (concat L) + n
     \<and> open_count L' = open_count L + d"

lemma grown_trans:
  assumes "grown av used fee S1 T1 n1 d1 b L L1" and "grown av used fee S2 T2 n2 d2 b L1 L2"
  shows "grown av used fee (S1 \<union> S2) (T1 @ T2) (n1 + n2) (d1 + d2) b L L2"
proof -
  have mono: "output_at L c = None" if "output_at L1 c = None" for c
    using assms(1) that unfolding grown_def by (metis not_None_eq)
  have "spent_set L2 \<subseteq> S2 \<union> spent_set L1 \<union> {Inr c | c. output_at L1 c = None}"
    using assms(2) unfolding grown_def by simp
  also have "\<dots> \<subseteq> S2 \<union> spent_set L1 \<union> {Inr c | c. output_at L c = None}"
    using mono by blast
  also have "\<dots> \<subseteq> (S1 \<union> S2) \<union> spent_set L \<union> {Inr c | c. output_at L c = None}"
    using assms(1) unfolding grown_def by blast
  finally have S: "spent_set L2 \<subseteq> (S1 \<union> S2) \<union> spent_set L \<union> {Inr c | c. output_at L c = None}" .
  have O: "\<forall>c out. output_at L c = Some out \<longrightarrow> output_at L2 c = Some out"
    using assms unfolding grown_def by blast
  show ?thesis
    using assms S O unfolding grown_def by (auto simp: union_ac)
qed

lemma grown_bound: "grown av used fee S T n d b L L' \<Longrightarrow> b \<le> b' \<Longrightarrow> grown av used fee S T n d b' L L'"
  unfolding grown_def by (elim conjE, intro conjI) (assumption | simp)+

lemma grown_refl: "layers_ok av used fee L \<Longrightarrow> grown av used fee {} [] 0 0 b L L"
  unfolding grown_def by auto

lemma grown_drop:
  assumes "grown av used fee (S \<union> N) T n d b L L'" and "N \<subseteq> {Inr c | c. output_at L c = None}"
  shows "grown av used fee S T n d b L L'"
  using assms unfolding grown_def by (elim conjE, intro conjI) (assumption | blast)+

text \<open>One more transaction.\<close>

lemma open_count_pad [simp]: "open_count (pad_layers ls n) = open_count ls"
  by (simp add: open_count_def spent_coords_def)

lemma open_count_mset:
  assumes "layer < length ls"
  shows "open_count (push_tx ls layer tx) = open_count ls
    + int (length (List.map_filter intermediate_value (pt_outputs tx)))
    - int (length (List.map_filter prior_coord (pt_inputs tx)))"
proof -
  have m: "mset (concat (map g ts)) = (\<Sum>t \<in># mset ts. mset (g t))"
    for g :: "prep_transaction \<Rightarrow> 'x list" and ts
    by (induction ts) auto
  have "mset (concat (map pt_outputs (concat (push_tx ls layer tx))))
      = mset (pt_outputs tx @ concat (map pt_outputs (concat ls)))"
    using mset_concat_push_tx[OF assms, of tx] by (simp add: m)
  from map_filter_cong_mset[OF this, of intermediate_value]
       map_filter_cong_mset[OF mset_all_inputs_push[OF assms, of tx], of prior_coord]
  have "length (List.map_filter intermediate_value (concat (map pt_outputs (concat (push_tx ls layer tx)))))
      = length (List.map_filter intermediate_value (pt_outputs tx))
        + length (List.map_filter intermediate_value (concat (map pt_outputs (concat ls))))"
    and "length (spent_coords (push_tx ls layer tx))
      = length (List.map_filter prior_coord (pt_inputs tx)) + length (spent_coords ls)"
    by (simp_all only: map_filter_append mset_append length_append spent_coords_def flip: size_mset) simp_all
  then show ?thesis by (simp add: open_count_def)
qed

lemma grown_push:
  assumes ok: "layers_ok av used fee L" and src: "ref_ok av used L layer source"
    and fresh: "coord source \<notin> spent_set L"
    and tx: "tx_ok fee \<lparr>pt_inputs = [source], pt_outputs = outs\<rparr>"
    and nc: "\<forall>out \<in> set outs. change_value out = None"
    and layer: "layer \<le> length L"
  shows "grown av used fee {coord source} (List.map_filter funding_value outs) 1
    (int (length (List.map_filter intermediate_value outs)) - (if prior_coord source = None then 0 else 1))
    (Suc layer) L (push_tx (pad_layers L layer) layer \<lparr>pt_inputs = [source], pt_outputs = outs\<rparr>)"
proof -
  let ?P = "pad_layers L layer" and ?tx = "\<lparr>pt_inputs = [source], pt_outputs = outs\<rparr>"
  have len: "layer < length ?P" by simp
  have P: "layers_ok av used fee ?P" using ok by (rule layers_ok_pad)
  have "layers_ok av used fee (push_tx ?P layer ?tx)"
    using src fresh tx ok by (intro layers_ok_push[OF P len]) (auto simp: spent_set_def layers_ok_def)
  moreover have m: "mset (concat (push_tx ?P layer ?tx)) = add_mset ?tx (mset (concat L))"
    using mset_concat_push_tx[OF len, of ?tx] by simp
  then have s: "set (concat (push_tx ?P layer ?tx)) = insert ?tx (set (concat L))"
    by (metis set_mset_add_mset_insert set_mset_mset)
  then have "no_change L \<longrightarrow> no_change (push_tx ?P layer ?tx)"
    using nc unfolding no_change_def s by simp
  moreover have "[] \<notin> set L \<longrightarrow> [] \<notin> set (push_tx ?P layer ?tx)"
    using layer by (auto simp: push_tx_def pad_layers_def set_conv_nth nth_list_update nth_append less_Suc_eq)
  moreover have "mset (funding_of (push_tx ?P layer ?tx))
      = mset (List.map_filter funding_value outs) + mset (funding_of L)"
    using mset_funding_of_push[OF len, of ?tx] by simp
  moreover have "\<forall>c out. output_at L c = Some out \<longrightarrow> output_at (push_tx ?P layer ?tx) c = Some out"
    using output_at_push_mono[OF len] by simp
  moreover have "spent_set (push_tx ?P layer ?tx) = insert (coord source) (spent_set L)"
    using mset_all_inputs_push[OF len, of ?tx, THEN mset_eq_setD] by (simp add: spent_set_def)
  moreover have "length (concat (push_tx ?P layer ?tx)) = length (concat L) + 1"
    using m by (metis Suc_eq_plus1 size_add_mset size_mset)
  moreover have "open_count (push_tx ?P layer ?tx) = open_count L
     + int (length (List.map_filter intermediate_value outs)) - (if prior_coord source = None then 0 else 1)"
    using open_count_mset[OF len, of ?tx] by (simp add: map_filter_Cons split: option.splits)
  moreover have "length (push_tx ?P layer ?tx) = max (length L) (Suc layer)" by simp
  ultimately show ?thesis unfolding grown_def by auto
qed

text \<open>The children of a node, each spending its own feeder.\<close>

lemma grown_fold:
  assumes step: "\<And>x L. x \<in> set xs \<Longrightarrow> layers_ok av used fee L \<Longrightarrow> ready x L
      \<Longrightarrow> grown av used fee {Inr (c x)} (T x) (n x) (- 1) b L (f x L)"
    and ready: "\<And>x L. ready x L \<longleftrightarrow> k < length L \<and> (\<exists>out. output_at L (c x) = Some out \<and> good x out) \<and> Inr (c x) \<notin> spent_set L"
    and "layers_ok av used fee L" and "distinct (map c xs)" and "\<forall>x \<in> set xs. ready x L"
  shows "grown av used fee (Inr ` c ` set xs) (concat (map T xs)) (sum_list (map n xs)) (- int (length xs)) b
    L (fold f xs L)"
  using assms(1) assms(3-)
proof (induction xs arbitrary: L)
  case Nil
  then show ?case using grown_refl by simp
next
  case (Cons x xs)
  have x: "grown av used fee {Inr (c x)} (T x) (n x) (- 1) b L (f x L)"
    using Cons.prems by simp
  have "ready y (f x L)" if y: "y \<in> set xs" for y
  proof -
    from y Cons.prems(4) have "k < length L" "Inr (c y) \<notin> spent_set L"
      and out: "\<exists>out. output_at L (c y) = Some out \<and> good y out" by (simp_all add: ready)
    moreover have "c y \<noteq> c x" using y Cons.prems(3) by (auto simp: image_iff)
    ultimately have "k < length (f x L)" and "Inr (c y) \<notin> spent_set (f x L)"
      using x unfolding grown_def by auto
    moreover have "\<exists>out. output_at (f x L) (c y) = Some out \<and> good y out"
      using x out unfolding grown_def by blast
    ultimately show ?thesis by (simp add: ready)
  qed
  moreover have "layers_ok av used fee (f x L)" using x by (simp add: grown_def)
  ultimately have "grown av used fee (Inr ` c ` set xs) (concat (map T xs)) (sum_list (map n xs)) (- int (length xs)) b
      (f x L) (fold f xs (f x L))"
    using Cons.IH Cons.prems(1,3) by simp
  from grown_trans[OF x this] show ?case by simp
qed

section \<open>The tree\<close>

abbreviation split_bound :: "nat \<Rightarrow> nat list \<Rightarrow> nat" where
  "split_bound layer targets \<equiv> layer + max 1 (split_depth (length targets))"

lemma leftover_output_simps [simp]:
  "output_total (leftover_output l) = l"
  "List.map_filter funding_value (leftover_output l) = []"
  "length (leftover_output l) = (if 0 < l then 1 else 0)"
  "length (List.map_filter intermediate_value (leftover_output l)) = (if 0 < l then 1 else 0)"
  "out \<in> set (leftover_output l) \<Longrightarrow> change_value out = None"
  by (auto simp: leftover_output_def map_filter_Cons split: if_splits)

lemma map_filter_intermediate [simp]:
  "List.map_filter intermediate_value (map Funding vs) = []"
  "List.map_filter intermediate_value (map Intermediate vs) = vs"
  by (induction vs) (auto simp: map_filter_Cons)

lemma map_fst_enumerate_0: "map (\<lambda>x. g (fst x)) (enumerate 0 xs) = map g [0..<length xs]"
  by (simp add: enumerate_eq_zip flip: map_map[of g fst, unfolded comp_def])

lemma map_snd_enumerate_0: "map (\<lambda>x. g (snd x)) (enumerate 0 xs) = map g xs"
  by (simp add: enumerate_eq_zip flip: map_map[of g snd, unfolded comp_def])

definition node_outputs :: "nat \<Rightarrow> nat list \<Rightarrow> nat \<Rightarrow> prep_output list" where
  "node_outputs source_value targets fee =
     (if split_depth (length targets) \<le> 1
      then map Funding targets @ leftover_output (source_value - fee - sum_list targets)
      else let cvs = map (\<lambda>g. snd (subtree_cost g fee)) (child_groups targets)
           in map Intermediate cvs @ leftover_output (source_value - fee - sum_list cvs))"

lemma node_tx_ok:
  assumes "snd (subtree_cost targets fee) \<le> in_value source"
  shows "tx_ok fee \<lparr>pt_inputs = [source], pt_outputs = node_outputs (in_value source) targets fee\<rparr>"
proof (cases "split_depth (length targets) \<le> 1")
  case True
  moreover have "length targets \<le> 14" using True by (simp only: split_depth_le_1) (simp add: action_constants)
  ultimately show ?thesis
    using assms by (auto simp: node_outputs_def tx_ok_def action_count_def action_constants subtree_cost.simps[of targets])
next
  case False
  define cvs where "cvs = map (\<lambda>g. snd (subtree_cost g fee)) (child_groups targets)"
  have "length cvs \<le> 14" using child_groups_props(2)[OF False] by (simp add: cvs_def action_constants)
  moreover have "fee + sum_list cvs \<le> in_value source"
    using assms by (simp add: cvs_def subtree_cost_node[OF False])
  moreover have "node_outputs (in_value source) targets fee
      = map Intermediate cvs @ leftover_output (in_value source - fee - sum_list cvs)"
    using False by (simp add: node_outputs_def cvs_def Let_def)
  ultimately show ?thesis
    by (auto simp: tx_ok_def action_count_def action_constants)
qed

lemma build_split_grown:
  assumes "layers_ok av used fee L" and "ref_ok av used L layer source" and "coord source \<notin> spent_set L"
    and "in_value source = source_value" and "snd (subtree_cost targets fee) \<le> source_value" and "layer \<le> length L"
  shows "grown av used fee {coord source} targets (fst (subtree_cost targets fee))
    ((if snd (subtree_cost targets fee) < source_value then 1 else 0) - (if prior_coord source = None then 0 else 1))
    (split_bound layer targets) L (build_split source source_value targets fee layer L)"
  using assms
proof (induction source source_value targets fee layer L rule: build_split.induct)
  case (1 source source_value targets fee layer L)
  let ?P = "pad_layers L layer" and ?outs = "node_outputs source_value targets fee"
  let ?tx = "\<lparr>pt_inputs = [source], pt_outputs = ?outs\<rparr>"
  let ?cost = "\<lambda>g. snd (subtree_cost g fee)"
  define ti where "ti = length (?P ! layer)"
  define L1 where "L1 = push_tx ?P layer ?tx"
  have nc: "\<forall>out \<in> set ?outs. change_value out = None"
    by (auto simp: node_outputs_def Let_def)
  have tx: "tx_ok fee ?tx" using node_tx_ok[of targets fee source] "1.prems"(4,5) by simp
  have L1: "grown av used fee {coord source} (List.map_filter funding_value ?outs) 1
      (int (length (List.map_filter intermediate_value ?outs)) - (if prior_coord source = None then 0 else 1))
      (Suc layer) L L1"
    unfolding L1_def using "1.prems" tx nc by (intro grown_push) simp_all
  show ?case
  proof (cases "split_depth (length targets) \<le> 1")
    case True
    then have "build_split source source_value targets fee layer L = L1"
      by (simp add: build_split.simps[of source] L1_def node_outputs_def Let_def)
    moreover have "max 1 (split_depth (length targets)) = 1" using True by simp
    moreover have outs: "?outs = map Funding targets @ leftover_output (source_value - fee - sum_list targets)"
      and cost: "subtree_cost targets fee = (1, sum_list targets + fee)"
      using True by (simp_all add: node_outputs_def subtree_cost.simps[of targets])
    moreover have "int (length (List.map_filter intermediate_value ?outs))
        = (if snd (subtree_cost targets fee) < source_value then 1 else 0)"
      unfolding outs cost using "1.prems"(5) by auto
    moreover have "List.map_filter funding_value ?outs = targets" unfolding outs by simp
    ultimately show ?thesis using L1 by (simp only: fst_conv) simp
  next
    case False
    let ?G = "child_groups targets"
    define cvs where "cvs = map ?cost ?G"
    define xs where "xs = enumerate 0 (zip ?G cvs)"
    define c where "c = (\<lambda>x :: nat \<times> nat list \<times> nat. (layer, ti, fst x))"
    define f where "f = (\<lambda>(output, group, cv). build_split (Prior layer ti output cv) cv group fee (Suc layer))"
    define ready where "ready = (\<lambda>x L. layer < length L
        \<and> (\<exists>out. output_at L (c x) = Some out \<and> out = Intermediate (snd (snd x))) \<and> Inr (c x) \<notin> spent_set L)"
    have outs: "?outs = map Intermediate cvs @ leftover_output (source_value - fee - sum_list cvs)"
      using False by (simp add: node_outputs_def cvs_def Let_def)
    have build: "build_split source source_value targets fee layer L = fold f xs L1"
      using False by (simp add: build_split.simps[of source] Let_def outs cvs_def xs_def f_def L1_def ti_def)
    have xs: "x \<in> set xs \<Longrightarrow> \<exists>k g. x = (k, g, ?cost g) \<and> k < length cvs \<and> cvs ! k = ?cost g \<and> g \<in> set ?G" for x
      by (cases x) (auto simp: xs_def cvs_def in_child_enumerate)
    have step: "grown av used fee {Inr (c x)} (fst (snd x)) (fst (subtree_cost (fst (snd x)) fee)) (- 1)
        (split_bound layer targets) M (f x M)"
      if x: "x \<in> set xs" and M: "layers_ok av used fee M" and r: "ready x M" for x M
    proof -
      from xs[OF x] obtain k g where k: "x = (k, g, ?cost g)" "g \<in> set ?G" by blast
      have b: "split_bound (Suc layer) g \<le> split_bound layer targets"
        using child_groups_depth[OF False k(2)] False by (auto simp: max_def)
      have ind: "(k, g, ?cost g) \<in> set (enumerate 0 (zip ?G cvs))" using x k by (simp add: xs_def)
      have "grown av used fee {coord (Prior layer ti k (?cost g))} g (fst (subtree_cost g fee))
          ((if ?cost g < ?cost g then 1 else 0) - (if prior_coord (Prior layer ti k (?cost g)) = None then 0 else 1))
          (split_bound (Suc layer) g) M (build_split (Prior layer ti k (?cost g)) (?cost g) g fee (Suc layer) M)"
        by (rule "1.IH"[OF refl ti_def False refl cvs_def refl refl refl refl ind refl refl])
           (use M r in \<open>auto simp: ready_def k c_def\<close>)
      from grown_bound[OF this b] show ?thesis by (simp add: k c_def f_def)
    qed
    have at: "output_at L (layer, ti, k) = None" for k
      using output_at_pad[of L layer "(layer, ti, k)"] by (simp add: output_at_def ti_def)
    have spent: "spent_set L1 = insert (coord source) (spent_set L)"
      using mset_all_inputs_push[of layer ?P ?tx, THEN mset_eq_setD] by (simp add: L1_def spent_set_def)
    have "ready x L1" if x: "x \<in> set xs" for x
    proof -
      from xs[OF x] obtain k g where k: "x = (k, g, ?cost g)" "k < length cvs" "cvs ! k = ?cost g" by blast
      have "output_at L1 (c x) = Some (Intermediate (?cost g))"
        using k by (simp add: L1_def output_at_push c_def outs nth_append) (simp add: ti_def)
      moreover have "Inr (layer, ti, k) \<notin> spent_set L"
        using refs_ok_prior_layer[of av used L layer ti k] "1.prems"(1) at[of k]
        unfolding layers_ok_def spent_set_def by auto
      moreover have "coord source \<noteq> Inr (layer, ti, k)" using "1.prems"(2) by (cases source) auto
      moreover have "layer < length L1" by (simp add: L1_def)
      ultimately show ?thesis by (auto simp: ready_def k c_def spent)
    qed
    moreover have "map c xs = map (\<lambda>k. (layer, ti, k)) [0..<length (zip ?G cvs)]"
      unfolding c_def xs_def by (rule map_fst_enumerate_0)
    then have "distinct (map c xs)" by (simp only: distinct_map) (simp add: inj_on_def)
    ultimately have "grown av used fee (Inr ` c ` set xs) (concat (map (\<lambda>x. fst (snd x)) xs))
        (sum_list (map (\<lambda>x. fst (subtree_cost (fst (snd x)) fee)) xs)) (- int (length xs))
        (split_bound layer targets) L1 (fold f xs L1)"
      using L1 by (intro grown_fold[where ready = ready and c = c and k = layer
            and good = "\<lambda>x out. out = Intermediate (snd (snd x))"] step)
        (auto simp: ready_def grown_def)
    moreover have "map (\<lambda>x. h (fst (snd x))) xs = map h ?G" for h :: "nat list \<Rightarrow> 'h"
      unfolding xs_def map_snd_enumerate_0[of "\<lambda>y. h (fst y)"]
      by (simp add: cvs_def flip: map_map[of h fst, unfolded comp_def])
    from this[of id] this[of "\<lambda>g. fst (subtree_cost g fee)"]
    have "concat (map (\<lambda>x. fst (snd x)) xs) = targets"
      "map (\<lambda>x. fst (subtree_cost (fst (snd x)) fee)) xs = map (\<lambda>g. fst (subtree_cost g fee)) ?G"
      using child_groups_props(1)[OF False] by simp_all
    moreover have "length xs = length cvs" by (simp add: xs_def cvs_def)
    ultimately have "grown av used fee (Inr ` c ` set xs) targets
        (sum_list (map (\<lambda>g. fst (subtree_cost g fee)) ?G)) (- int (length cvs))
        (split_bound layer targets) L1 (fold f xs L1)" by simp
    from grown_trans[OF grown_bound[OF L1, of "split_bound layer targets"] this]
    have total: "grown av used fee ({coord source} \<union> Inr ` c ` set xs) (List.map_filter funding_value ?outs @ targets)
      (1 + sum_list (map (\<lambda>g. fst (subtree_cost g fee)) ?G))
      (int (length (List.map_filter intermediate_value ?outs)) - (if prior_coord source = None then 0 else 1)
        + - int (length cvs))
      (split_bound layer targets) L (fold f xs L1)" by simp
    have "fst (subtree_cost targets fee) = 1 + sum_list (map (\<lambda>g. fst (subtree_cost g fee)) ?G)"
      and cval: "snd (subtree_cost targets fee) = fee + sum_list cvs"
      by (simp_all add: subtree_cost_node[OF False] cvs_def)
    moreover have "List.map_filter funding_value ?outs = []" unfolding outs by simp
    moreover have "int (length (List.map_filter intermediate_value ?outs)) - (if prior_coord source = None then 0 else 1)
        + - int (length cvs)
      = (if snd (subtree_cost targets fee) < source_value then 1 else 0) - (if prior_coord source = None then 0 else 1)"
      unfolding outs cval using "1.prems"(5) cval by auto
    ultimately have "grown av used fee ({coord source} \<union> Inr ` c ` set xs) targets (fst (subtree_cost targets fee))
      ((if snd (subtree_cost targets fee) < source_value then 1 else 0) - (if prior_coord source = None then 0 else 1))
      (split_bound layer targets) L (fold f xs L1)"
      using total by (simp only: append_Nil)
    moreover have "Inr ` c ` set xs \<subseteq> {Inr c | c. output_at L c = None}"
      using at by (auto simp: c_def)
    ultimately show ?thesis unfolding build by (rule grown_drop)
  qed
qed

section \<open>The depth of the tree\<close>

lemma child_groups_deepest:
  assumes deep: "\<not> split_depth (length targets) \<le> 1"
  shows "\<exists>g \<in> set (child_groups targets). split_depth (length g) = split_depth (length targets) - 1"
proof (rule ccontr)
  let ?d = "split_depth (length targets)" and ?G = "child_groups targets"
  note props = child_groups_props[OF deep]
  assume "\<not> (\<exists>g \<in> set ?G. split_depth (length g) = ?d - 1)"
  then have small: "split_depth (length g) \<le> ?d - 2" if "g \<in> set ?G" for g
    using child_groups_depth[OF deep that] that by fastforce
  have "?G \<noteq> []" using props(1) deep by (auto simp: split_depth_def)
  then obtain g where "g \<in> set ?G" by (meson list.set_sel(1))
  with small[of g] props(3) split_depth_pos[of "length g"] have d: "1 \<le> ?d - 2" by simp
  have "sum_list (map length ?G) \<le> length ?G * subtree_capacity (?d - 2)"
    using small split_depth_le_iff[OF d] by (intro sum_list_length_bound) auto
  also have "\<dots> \<le> 14 * subtree_capacity (?d - 2)" using props(2) by (simp add: action_constants)
  also have "\<dots> = subtree_capacity (?d - 1)"
    using d subtree_capacity_Suc[of "?d - 2"] by (simp add: Suc_diff_Suc numeral_2_eq_2)
  finally have "length targets \<le> subtree_capacity (?d - 1)" using props(1) by (metis length_concat)
  then have "?d \<le> ?d - 1" using d by (subst split_depth_le_iff) auto
  with d show False by simp
qed

lemma length_fold_max:
  assumes "\<And>x M. x \<in> set xs \<Longrightarrow> length (f x M) = max (length M) (h x)"
    and "\<And>x. x \<in> set xs \<Longrightarrow> h x \<le> b" and "\<exists>x \<in> set xs. h x = b"
  shows "length (fold f xs M) = max (length M) b"
proof -
  have "length M \<le> length (fold f xs M) \<and> length (fold f xs M) \<le> max (length M) b
      \<and> (\<forall>x \<in> set xs. h x \<le> length (fold f xs M))" (is "?P xs M")
    if "\<And>x M. x \<in> set xs \<Longrightarrow> length (f x M) = max (length M) (h x)" "\<And>x. x \<in> set xs \<Longrightarrow> h x \<le> b"
    for xs M
    using that
  proof (induction xs arbitrary: M)
    case Nil
    then show ?case by simp
  next
    case (Cons x xs)
    have "?P xs (f x M)" by (rule Cons.IH) (use Cons.prems in simp_all)
    moreover have "length (f x M) = max (length M) (h x)" "h x \<le> b" using Cons.prems by simp_all
    ultimately show ?case by (auto simp: max_def split: if_splits)
  qed
  from this[of xs M] assms show ?thesis by (auto simp: max_def split: if_splits intro: antisym)
qed

lemma length_build_split:
  "targets \<noteq> [] \<Longrightarrow> length (build_split source source_value targets fee layer L)
     = max (length L) (layer + split_depth (length targets))"
proof (induction source source_value targets fee layer L rule: build_split.induct)
  case (1 source source_value targets fee layer L)
  show ?case
  proof (cases "split_depth (length targets) \<le> 1")
    case True
    then have "split_depth (length targets) = 1"
      using "1.prems" split_depth_pos[of "length targets"] by simp
    then show ?thesis by (simp add: build_split.simps[of source] Let_def)
  next
    case False
    let ?G = "child_groups targets" and ?cost = "\<lambda>g. snd (subtree_cost g fee)"
    define ti where "ti = length (pad_layers L layer ! layer)"
    define cvs where "cvs = map ?cost ?G"
    define xs where "xs = enumerate 0 (zip ?G cvs)"
    define f where "f = (\<lambda>(output, group, cv). build_split (Prior layer ti output cv) cv group fee (Suc layer))"
    define h where "h = (\<lambda>x :: nat \<times> nat list \<times> nat. Suc layer + split_depth (length (fst (snd x))))"
    obtain L1 where build: "build_split source source_value targets fee layer L = fold f xs L1"
        and L1: "length L1 = max (length L) (Suc layer)"
      using False by (simp add: build_split.simps[of source] Let_def cvs_def xs_def f_def ti_def)
    have xs: "x \<in> set xs \<Longrightarrow> \<exists>k g. x = (k, g, ?cost g) \<and> g \<in> set ?G" for x
      by (cases x) (auto simp: xs_def cvs_def in_child_enumerate)
    have "length (fold f xs L1) = max (length L1) (layer + split_depth (length targets))"
    proof (rule length_fold_max[where h = h])
      fix x M assume x: "x \<in> set xs"
      from xs[OF x] obtain k g where k: "x = (k, g, ?cost g)" "g \<in> set ?G" by blast
      have ind: "(k, g, ?cost g) \<in> set (enumerate 0 (zip ?G cvs))" using x k by (simp add: xs_def)
      have "g \<noteq> []" using child_groups_props(3)[OF False] k(2) by blast
      from "1.IH"[OF refl ti_def False refl cvs_def refl refl refl refl ind refl refl this]
      show "length (f x M) = max (length M) (h x)" by (simp add: k f_def h_def)
      show "h x \<le> layer + split_depth (length targets)"
        using child_groups_depth[OF False k(2)] False by (simp add: k h_def)
    next
      obtain g where g: "g \<in> set ?G" "split_depth (length g) = split_depth (length targets) - 1"
        using child_groups_deepest[OF False] by blast
      then obtain k where "k < length ?G" "?G ! k = g" by (auto simp: in_set_conv_nth)
      then have "(k, g, ?cost g) \<in> set xs" by (simp add: xs_def cvs_def in_child_enumerate)
      with g False show "\<exists>x \<in> set xs. h x = layer + split_depth (length targets)"
        by (intro bexI[of _ "(k, g, ?cost g)"]) (auto simp: h_def)
    qed
    with False show ?thesis by (simp add: build L1)
  qed
qed

end
