(* ===== verification/Prep_Passes.thy ===== *)
theory Prep_Passes
  imports Prep_Consolidate Prep_Tree
begin

text \<open>
  The passes of the planner in preparation_plan.rs: the exact-match pass
  (\<open>extract_direct_funding\<close>) and the two passes over the notes of one layer of
  \<open>plan_preparation_greedy\<close>: assigning funding values to notes, largest first, and turning the
  assignments into transactions.
\<close>

section \<open>Exact matches\<close>

text \<open>
  \<open>remaining.retain(..)\<close>: a funding value equal to an unused wallet note is funded by that note
  directly. The result is the values kept, the use marks and the direct funding notes.
\<close>

fun extract_loop ::
    "zatoshi list \<Rightarrow> zatoshi list \<Rightarrow> bool list \<Rightarrow> (nat \<times> zatoshi) list
       \<Rightarrow> zatoshi list \<times> bool list \<times> (nat \<times> zatoshi) list" where
  "extract_loop available [] used direct = ([], used, direct)"
| "extract_loop available (funding # rest) used direct =
     (case find (\<lambda>i. \<not> used ! i \<and> available ! i = funding) [0..<length available] of
        Some index \<Rightarrow> extract_loop available rest (used[index := True]) (direct @ [(index, funding)])
      | None \<Rightarrow>
          let (kept, used, direct) = extract_loop available rest used direct
          in (funding # kept, used, direct))"

definition extract_direct_funding ::
    "zatoshi list \<Rightarrow> zatoshi list \<Rightarrow> zatoshi list \<times> bool list \<times> (nat \<times> zatoshi) list" where
  "extract_direct_funding available remaining =
     extract_loop available remaining (replicate (length available) False) []"

lemma find_Some_conv: "find P xs = Some x \<Longrightarrow> P x \<and> x \<in> set xs"
  by (induction xs) (auto split: if_splits)

text \<open>
  What the pass establishes about the direct notes: they are wallet notes of the right value,
  taken once each, and the marks record exactly them.
\<close>

definition direct_ok :: "zatoshi list \<Rightarrow> bool list \<Rightarrow> (nat \<times> zatoshi) list \<Rightarrow> bool" where
  "direct_ok av used direct \<longleftrightarrow> length used = length av \<and> distinct (map fst direct)
     \<and> (\<forall>(i, v) \<in> set direct. i < length av \<and> av ! i = v)
     \<and> (\<forall>i < length av. used ! i \<longleftrightarrow> i \<in> fst ` set direct)"

lemma direct_ok_push:
  assumes "direct_ok av used direct" and "i < length av" and "\<not> used ! i" and "av ! i = v"
  shows "direct_ok av (used[i := True]) (direct @ [(i, v)])"
  using assms unfolding direct_ok_def by (auto simp: nth_list_update)

lemma extract_loop_spec:
  assumes "extract_loop av rem used direct = (kept, used', direct')" and "direct_ok av used direct"
  shows "direct_ok av used' direct'"
    and "mset rem + mset (map snd direct) = mset kept + mset (map snd direct')"
    and "sorted (rev rem) \<Longrightarrow> sorted (rev kept)" and "set kept \<subseteq> set rem"
proof -
  have "direct_ok av used' direct' \<and> mset rem + mset (map snd direct) = mset kept + mset (map snd direct')
      \<and> (sorted (rev rem) \<longrightarrow> sorted (rev kept)) \<and> set kept \<subseteq> set rem"
    using assms
  proof (induction av rem used direct arbitrary: kept rule: extract_loop.induct)
    case (1 av used direct)
    then show ?case by simp
  next
    case (2 av funding rest used direct)
    show ?case
    proof (cases "find (\<lambda>i. \<not> used ! i \<and> av ! i = funding) [0..<length av]")
      case None
      obtain k u d where rec: "extract_loop av rest used direct = (k, u, d)" by (metis prod_cases3)
      with None "2.prems" have "kept = funding # k" "used' = u" "direct' = d" by simp_all
      moreover from this "2.IH"(1)[OF None] rec "2.prems"(2)
      have "direct_ok av u d \<and> mset rest + mset (map snd direct) = mset k + mset (map snd d)
          \<and> (sorted (rev rest) \<longrightarrow> sorted (rev k)) \<and> set k \<subseteq> set rest" by blast
      ultimately show ?thesis by (auto simp: sorted_append subset_iff)
    next
      case (Some i)
      then have "\<not> used ! i \<and> av ! i = funding" "i < length av"
        by (auto dest: find_Some_conv)
      with 2 Some show ?thesis by (fastforce simp: sorted_append dest: direct_ok_push)
    qed
  qed
  then show "direct_ok av used' direct'"
    "mset rem + mset (map snd direct) = mset kept + mset (map snd direct')"
    "sorted (rev rem) \<Longrightarrow> sorted (rev kept)" "set kept \<subseteq> set rem"
    by auto
qed

lemma extract_direct_funding_spec:
  assumes "extract_direct_funding av rem = (kept, used, direct)"
  shows "direct_ok av used direct" and "mset rem = mset kept + mset (map snd direct)"
    and "sorted (rev rem) \<Longrightarrow> sorted (rev kept)" and "set kept \<subseteq> set rem"
proof -
  have "direct_ok av (replicate (length av) False) []" by (simp add: direct_ok_def)
  from extract_loop_spec[OF assms[unfolded extract_direct_funding_def] this]
  show "direct_ok av used direct" "mset rem = mset kept + mset (map snd direct)"
    "sorted (rev rem) \<Longrightarrow> sorted (rev kept)" "set kept \<subseteq> set rem"
    by simp_all
qed

section \<open>Assigning funding notes to the inputs of a layer\<close>

text \<open>
  The inner loop of the first pass: scan the remaining values, largest first, and take each one
  that still fits the budget, up to the output limit.
\<close>

fun assign_funding :: "nat \<Rightarrow> zatoshi list \<Rightarrow> zatoshi list \<Rightarrow> nat \<Rightarrow> zatoshi list \<times> zatoshi list \<times> nat" where
  "assign_funding budget [] assigned used = (assigned, [], used)"
| "assign_funding budget (v # vs) assigned used =
     (if length assigned < FUNDING_OUTPUTS_PER_TX then
        if used + v \<le> budget then assign_funding budget vs (assigned @ [v]) (used + v)
        else let (assigned, kept, used) = assign_funding budget vs assigned used
             in (assigned, v # kept, used)
      else (assigned, v # vs, used))"

lemma assign_funding_spec:
  assumes "assign_funding budget rem as used = (as', kept, used')"
    and "length as \<le> FUNDING_OUTPUTS_PER_TX" and "used \<le> budget"
  shows "mset as + mset rem = mset as' + mset kept \<and> used' + sum_list as = used + sum_list as' \<and> used' \<le> budget
    \<and> length as' \<le> FUNDING_OUTPUTS_PER_TX \<and> length as \<le> length as' \<and> (sorted (rev rem) \<longrightarrow> sorted (rev kept))
    \<and> set kept \<subseteq> set rem"
  using assms
proof (induction budget rem as used arbitrary: kept rule: assign_funding.induct)
  case (1 budget as used)
  then show ?case by simp
next
  case (2 budget v vs as used)
  consider (stop) "\<not> length as < FUNDING_OUTPUTS_PER_TX"
    | (take_it) "length as < FUNDING_OUTPUTS_PER_TX" "used + v \<le> budget"
    | (skip_it) "length as < FUNDING_OUTPUTS_PER_TX" "\<not> used + v \<le> budget"
    by blast
  then show ?case
  proof cases
    case stop
    with 2 show ?thesis by simp
  next
    case take_it
    with "2.IH"(1) "2.prems" show ?thesis by (fastforce simp: sorted_append)
  next
    case skip_it
    with 2 show ?thesis by (fastforce simp: sorted_append split: prod.splits)
  qed
qed

lemma assign_funding_nonempty:
  assumes "assign_funding budget rem [] 0 = (as, kept, used)" and "v \<in> set rem" and "v \<le> budget"
  shows "as \<noteq> []"
proof -
  have grow: "as \<noteq> [] \<Longrightarrow> assign_funding budget rem as used = (as', kept', used') \<Longrightarrow> as' \<noteq> []"
    for budget rem as used as' kept' used'
    by (induction budget rem as used arbitrary: kept' rule: assign_funding.induct)
      (auto split: if_splits prod.splits)
  from assms show ?thesis
  proof (induction rem arbitrary: kept)
    case Nil
    then show ?case by simp
  next
    case (Cons x rem)
    show ?case
    proof (cases "x \<le> budget")
      case True
      with Cons.prems(1) have "assign_funding budget rem [x] x = (as, kept, used)"
        by (simp add: action_constants)
      then show ?thesis using grow by blast
    next
      case False
      with Cons.prems obtain kept' where "assign_funding budget rem [] 0 = (as, kept', used)"
        by (auto simp: action_constants split: prod.splits)
      with Cons.IH Cons.prems False show ?thesis by auto
    qed
  qed
qed

section \<open>The passes over one layer\<close>

type_synonym assignment = "prep_input \<times> zatoshi list \<times> nat"

fun pass_one ::
    "nat \<Rightarrow> prep_input list \<Rightarrow> zatoshi list \<Rightarrow> assignment list \<Rightarrow> prep_input list
       \<Rightarrow> zatoshi list \<times> assignment list \<times> prep_input list" where
  "pass_one fee [] remaining partial' consolidatable = (remaining, partial', consolidatable)"
| "pass_one fee (input # inputs) remaining partial' consolidatable =
     (if remaining = [] then pass_one fee inputs remaining partial' consolidatable
      else
        let v = in_value input;
            smallest = last remaining
        in if v \<le> fee \<or> v - fee < smallest
           then pass_one fee inputs remaining partial' (consolidatable @ [input])
           else
             let budget = v - fee;
                 (assigned, kept, used) = assign_funding budget remaining [] 0
             in pass_one fee inputs kept (partial' @ [(input, assigned, budget - used)]) consolidatable)"

fun pass_two ::
    "nat \<Rightarrow> assignment list \<Rightarrow> prep_transaction list \<Rightarrow> prep_input list
       \<Rightarrow> prep_transaction list \<times> prep_input list" where
  "pass_two layer [] txs nxt = (txs, nxt)"
| "pass_two layer ((input, assigned, leftover) # partial') txs nxt =
     (let outputs = map Funding assigned;
          nxt' = (if 0 < leftover then nxt @ [Prior layer (length txs) (length outputs) leftover] else nxt);
          outputs' = (if 0 < leftover then outputs @ [Intermediate leftover] else outputs)
      in pass_two layer partial' (txs @ [\<lparr>pt_inputs = [input], pt_outputs = outputs'\<rparr>]) nxt')"

definition assignment_ok :: "nat \<Rightarrow> assignment \<Rightarrow> bool" where
  "assignment_ok fee a = (case a of (input, assigned, leftover) \<Rightarrow>
     assigned \<noteq> [] \<and> length assigned \<le> FUNDING_OUTPUTS_PER_TX
       \<and> in_value input = sum_list assigned + leftover + fee)"

abbreviation assigned_of :: "assignment list \<Rightarrow> zatoshi list" where
  "assigned_of ps \<equiv> concat (map (\<lambda>p. fst (snd p)) ps)"

text \<open>
  The first pass: the inputs split into assignments, notes to consolidate and, once nothing
  remains, notes that stay in the wallet. When no assignment was made every input goes to
  consolidation.
\<close>

definition pass_one_spec ::
    "nat \<Rightarrow> prep_input list \<Rightarrow> zatoshi list \<Rightarrow> zatoshi list \<Rightarrow> assignment list \<Rightarrow> prep_input list \<Rightarrow> bool" where
  "pass_one_spec fee inputs rem rem' newp newc \<longleftrightarrow>
     mset rem = mset rem' + mset (assigned_of newp)
     \<and> mset (map fst newp @ newc) \<subseteq># mset inputs
     \<and> (\<forall>p \<in> set newp. assignment_ok fee p)
     \<and> (newp = [] \<longrightarrow> rem' = rem \<and> (rem \<noteq> [] \<longrightarrow> newc = inputs))
     \<and> (sorted (rev rem) \<longrightarrow> sorted (rev rem')) \<and> set rem' \<subseteq> set rem"

lemma pass_one_result:
  assumes "pass_one fee inputs rem p c = (rem', p', c')"
  shows "\<exists>newp newc. p' = p @ newp \<and> c' = c @ newc \<and> pass_one_spec fee inputs rem rem' newp newc"
  using assms
proof (induction inputs arbitrary: rem p c)
  case Nil
  then show ?case by (auto simp: pass_one_spec_def)
next
  case (Cons i inputs)
  let ?small = "in_value i \<le> fee \<or> in_value i - fee < last rem"
  show ?case
  proof (cases "rem = []")
    case True
    with Cons.prems have "pass_one fee inputs rem p c = (rem', p', c')" by simp
    from Cons.IH[OF this] obtain newp newc where
      "p' = p @ newp" "c' = c @ newc" "pass_one_spec fee inputs rem rem' newp newc" by blast
    with True show ?thesis
      by (intro exI[of _ newp] exI[of _ newc]) (auto simp: pass_one_spec_def intro: subset_mset.order_trans)
  next
    case rem: False
    show ?thesis
    proof (cases ?small)
      case True
      with Cons.prems rem have "pass_one fee inputs rem p (c @ [i]) = (rem', p', c')" by auto
      from Cons.IH[OF this] obtain newp newc where IH: "p' = p @ newp" "c' = (c @ [i]) @ newc"
          "pass_one_spec fee inputs rem rem' newp newc" by blast
      then have "pass_one_spec fee (i # inputs) rem rem' newp (i # newc)"
        by (auto simp: pass_one_spec_def)
      with IH show ?thesis by (intro exI[of _ newp] exI[of _ "i # newc"]) simp
    next
      case False
      obtain as kept u where as: "assign_funding (in_value i - fee) rem [] 0 = (as, kept, u)"
        by (metis prod_cases3)
      let ?p = "(i, as, in_value i - fee - u)"
      note spec = assign_funding_spec[OF as]
      have "last rem \<in> set rem" "last rem \<le> in_value i - fee" using rem False by auto
      then have ne: "as \<noteq> []" using assign_funding_nonempty[OF as] by blast
      have ok: "assignment_ok fee ?p" using spec ne False by (auto simp: assignment_ok_def)
      from Cons.prems rem False as have "pass_one fee inputs kept (p @ [?p]) c = (rem', p', c')" by simp
      from Cons.IH[OF this] obtain newp newc where IH: "p' = (p @ [?p]) @ newp" "c' = c @ newc"
          "pass_one_spec fee inputs kept rem' newp newc" by blast
      have "mset rem = mset as + mset kept" using spec by simp
      then have "pass_one_spec fee (i # inputs) rem rem' (?p # newp) newc"
        using IH(3) ok spec by (auto simp: pass_one_spec_def)
      with IH show ?thesis by (intro exI[of _ "?p # newp"] exI[of _ newc]) simp
    qed
  qed
qed

lemma pass_two_result:
  assumes "pass_two layer ps txs nxt = (txs', nxt')" and "\<forall>p \<in> set ps. assignment_ok fee p"
  shows "\<exists>new. txs' = txs @ new \<and> length new = length ps \<and> (\<forall>tx \<in> set new. tx_ok fee tx
      \<and> (\<forall>out \<in> set (pt_outputs tx). change_value out = None))
    \<and> layer_inputs new = map fst ps \<and> layer_funding new = assigned_of ps
    \<and> (next_ok layer txs nxt \<longrightarrow> next_ok layer txs' nxt')"
  using assms
proof (induction ps arbitrary: txs nxt)
  case Nil
  then show ?case by simp
next
  case (Cons q ps)
  obtain input assigned leftover where q: "q = (input, assigned, leftover)" by (metis prod_cases3)
  define outs where "outs = map Funding assigned @ leftover_output leftover"
  define tx where "tx = \<lparr>pt_inputs = [input], pt_outputs = outs\<rparr>"
  define nx where "nx = (if 0 < leftover then nxt @ [Prior layer (length txs) (length assigned) leftover] else nxt)"
  have step: "pass_two layer ps (txs @ [tx]) nx = (txs', nxt')"
    using Cons.prems(1) by (simp add: q tx_def outs_def nx_def leftover_output_def Let_def split: if_splits)
  have IH: "\<exists>new. txs' = (txs @ [tx]) @ new \<and> length new = length ps \<and> (\<forall>tx \<in> set new. tx_ok fee tx
      \<and> (\<forall>out \<in> set (pt_outputs tx). change_value out = None))
    \<and> layer_inputs new = map fst ps \<and> layer_funding new = assigned_of ps
    \<and> (next_ok layer (txs @ [tx]) nx \<longrightarrow> next_ok layer txs' nxt')"
    using Cons.IH[OF step] Cons.prems(2) by simp
  have ok: "tx_ok fee tx" "\<forall>out \<in> set (pt_outputs tx). change_value out = None"
    using Cons.prems(2)
    by (auto simp: q assignment_ok_def tx_ok_def action_count_def action_constants tx_def outs_def)
  have "next_ok layer txs nxt \<Longrightarrow> next_ok layer (txs @ [tx]) nx"
    using next_ok_push[of layer txs nxt "length assigned" tx leftover] next_ok_keep
    by (auto simp: nx_def tx_def outs_def leftover_output_def nth_append)
  moreover have "layer_inputs [tx] = [input]" "layer_funding [tx] = assigned"
    by (simp_all add: tx_def layer_inputs_def layer_funding_def outs_def)
  moreover obtain new where "txs' = (txs @ [tx]) @ new" "length new = length ps"
      "\<forall>tx \<in> set new. tx_ok fee tx \<and> (\<forall>out \<in> set (pt_outputs tx). change_value out = None)"
      "layer_inputs new = map fst ps" "layer_funding new = assigned_of ps"
      "next_ok layer (txs @ [tx]) nx \<longrightarrow> next_ok layer txs' nxt'"
    using IH by blast
  ultimately show ?case
    using ok layer_inputs_append[of "[tx]" new] layer_funding_append[of "[tx]" new]
    by (intro exI[of _ "tx # new"]) (simp add: q)
qed

end
