(* ===== verification/Prep_Plan.thy ===== *)
theory Prep_Plan
  imports Prep_Consolidate Prep_Tree Prep_Passes
begin

text \<open>
  The planner of preparation_plan.rs: the layered largest-first loop and the residual loop of
  \<open>plan_preparation_greedy\<close>, the consolidating fallback \<open>plan_preparation_via_consolidation\<close>, and
  their combination \<open>plan_preparation\<close>. The loops are recursive functions with termination proofs:
  every layer of the greedy loop schedules a funding note or shortens the pool, and every
  round of the two consolidation loops shortens the pool. The lemmas show what each loop keeps of
  the validity of the layers and how it accounts for the funding notes.
\<close>

section \<open>The greedy layers\<close>

text \<open>One iteration of the layered loop: the values still to fund, the layer, the next pool.\<close>

definition greedy_step ::
    "nat \<Rightarrow> zatoshi list \<Rightarrow> prep_input list \<Rightarrow> nat \<Rightarrow> zatoshi list \<times> prep_transaction list \<times> prep_input list" where
  "greedy_step fee remaining current layer =
     (let current = sort_desc_by in_value current;
          (remaining, partial', consolidatable) = pass_one fee current remaining [] [];
          (txs, nxt) = pass_two layer partial' [] [];
          (leftover, txs, nxt) = consolidate consolidatable layer fee txs nxt
      in (remaining, txs, nxt))"

lemma layer_funding_intermediates:
  assumes "\<forall>tx \<in> set new. \<exists>v > 0. pt_outputs tx = [Intermediate v]"
  shows "layer_funding new = []" and "\<forall>tx \<in> set new. \<forall>out \<in> set (pt_outputs tx). change_value out = None"
proof -
  show "layer_funding new = []"
    using assms
  proof (induction new)
    case Nil
    then show ?case by simp
  next
    case (Cons tx new)
    then obtain v where "pt_outputs tx = [Intermediate v]" by auto
    with Cons show ?case by (simp add: layer_funding_def map_filter_Cons)
  qed
  show "\<forall>tx \<in> set new. \<forall>out \<in> set (pt_outputs tx). change_value out = None"
    using assms by fastforce
qed

lemma layer_inputs_length:
  "\<forall>tx \<in> set new. k \<le> length (pt_inputs tx) \<Longrightarrow> k * length new \<le> length (layer_inputs new)"
  by (induction new) auto

text \<open>What an iteration does, whatever the state.\<close>

lemma greedy_step_result:
  assumes "greedy_step fee rem current layer = (rem', txs, nxt)"
  shows "mset rem = mset rem' + mset (layer_funding txs)"
    and "mset (layer_inputs txs) \<subseteq># mset current"
    and "\<forall>tx \<in> set txs. tx_ok fee tx \<and> (\<forall>out \<in> set (pt_outputs tx). change_value out = None)"
    and "next_ok layer txs nxt"
    and "rem \<noteq> [] \<Longrightarrow> txs \<noteq> [] \<Longrightarrow> length rem' < length rem \<or> rem' = rem \<and> length nxt < length current"
    and "sorted (rev rem) \<Longrightarrow> sorted (rev rem')" and "set rem' \<subseteq> set rem"
proof -
  let ?current = "sort_desc_by in_value current"
  obtain partial cons where one: "pass_one fee ?current rem [] [] = (rem', partial, cons)"
    and "\<exists>txs1 nxt1. pass_two layer partial [] [] = (txs1, nxt1) \<and>
       (\<exists>lo. consolidate cons layer fee txs1 nxt1 = (lo, txs, nxt))"
    using assms by (auto simp: greedy_step_def Let_def split: prod.splits)
  then obtain txs1 nxt1 lo where two: "pass_two layer partial [] [] = (txs1, nxt1)"
    and con: "consolidate cons layer fee txs1 nxt1 = (lo, txs, nxt)" by blast
  from pass_one_result[OF one] have one: "pass_one_spec fee ?current rem rem' partial cons" by auto
  then have "\<forall>p \<in> set partial. assignment_ok fee p" by (simp add: pass_one_spec_def)
  from pass_two_result[OF two this] have txs1:
      "length txs1 = length partial" "\<forall>tx \<in> set txs1. tx_ok fee tx \<and> (\<forall>out \<in> set (pt_outputs tx). change_value out = None)"
      "layer_inputs txs1 = map fst partial" "layer_funding txs1 = assigned_of partial" "next_ok layer txs1 nxt1"
    by auto
  from consolidate_spec[OF con] obtain new feeders where new: "txs = txs1 @ new" "nxt = nxt1 @ feeders"
      "\<forall>tx \<in> set new. tx_ok fee tx \<and> 2 \<le> length (pt_inputs tx) \<and> (\<exists>v > 0. pt_outputs tx = [Intermediate v])"
      "mset (lo @ layer_inputs new) = mset cons" "length feeders = length new"
      "next_ok layer txs1 nxt1 \<longrightarrow> next_ok layer txs nxt"
    unfolding consolidated_def by blast
  note inter = layer_funding_intermediates[of new]
  show "mset rem = mset rem' + mset (layer_funding txs)"
    using one new(1,3) txs1(4) inter by (simp add: pass_one_spec_def)
  show "mset (layer_inputs txs) \<subseteq># mset current"
  proof -
    have "mset (layer_inputs txs) + mset lo = mset (map fst partial @ cons)"
      using new(1,4) txs1(3) by (simp add: union_ac flip: new(4))
    moreover have "mset (map fst partial @ cons) \<subseteq># mset current"
      using one by (simp add: pass_one_spec_def)
    ultimately show ?thesis by (metis mset_subset_eq_add_left subset_mset.order_trans)
  qed
  show "\<forall>tx \<in> set txs. tx_ok fee tx \<and> (\<forall>out \<in> set (pt_outputs tx). change_value out = None)"
    using new(1,3) txs1(2) inter(2) by auto
  show "next_ok layer txs nxt" using new(6) txs1(5) by blast
  show "sorted (rev rem) \<Longrightarrow> sorted (rev rem')" "set rem' \<subseteq> set rem"
    using one by (simp_all add: pass_one_spec_def)
  assume rem: "rem \<noteq> []" and txs: "txs \<noteq> []"
  show "length rem' < length rem \<or> rem' = rem \<and> length nxt < length current"
  proof (cases partial)
    case Nil
    then have "pass_two layer partial [] [] = ([], [])" by simp
    with two have t: "txs1 = []" "nxt1 = []" by simp_all
    have c: "mset cons = mset current" using one rem Nil by (simp add: pass_one_spec_def)
    have r: "rem' = rem" using one Nil by (simp add: pass_one_spec_def)
    have "2 * length new \<le> length (layer_inputs new)" using new(3) by (intro layer_inputs_length) auto
    moreover have "length lo + length (layer_inputs new) = length current"
      using new(4) c by (metis length_append size_mset)
    moreover have "0 < length new" using txs new(1) t by simp
    ultimately have "length new < length current" by linarith
    then show ?thesis using r new(2,5) t by simp
  next
    case (Cons p ps)
    with one have "assigned_of partial \<noteq> []" by (cases p) (auto simp: pass_one_spec_def assignment_ok_def)
    then have "0 < length (assigned_of partial)" by blast
    moreover have "length rem = length rem' + length (assigned_of partial)"
      using one by (metis pass_one_spec_def size_mset size_union)
    ultimately show ?thesis by linarith
  qed
qed


function greedy_layers ::
    "nat \<Rightarrow> zatoshi list \<Rightarrow> prep_input list \<Rightarrow> prep_layers \<Rightarrow> prep_error + prep_layers" where
  "greedy_layers fee remaining current layers =
     (if remaining = [] then Inr layers
      else if current = [] then Inl InsufficientFunds
      else
        let (remaining', txs, nxt) = greedy_step fee remaining current (length layers)
        in if txs = [] then Inl InsufficientFunds
           else greedy_layers fee remaining' nxt (layers @ [txs]))"
  by auto

termination
proof (relation "measures [\<lambda>(fee, remaining, current, layers). length remaining,
                           \<lambda>(fee, remaining, current, layers). length current]")
  show "wf (measures [\<lambda>(fee, remaining, current, layers). length remaining,
      \<lambda>(fee, remaining, current, layers). length current])" by (rule wf_measures)
next
  fix fee remaining current x rem' y txs nxt
  fix layers :: prep_layers
  assume "remaining \<noteq> []" and x: "x = greedy_step fee remaining current (length layers)" "(rem', y) = x"
    "(txs, nxt) = y" and "txs \<noteq> []"
  then have "length rem' < length remaining \<or> rem' = remaining \<and> length nxt < length current"
    using greedy_step_result(5)[of fee remaining current "length layers" rem' txs nxt] by metis
  then show "((fee, rem', nxt, layers @ [txs]), fee, remaining, current, layers)
     \<in> measures [\<lambda>(fee, remaining, current, layers). length remaining,
                 \<lambda>(fee, remaining, current, layers). length current]" by auto
qed

declare greedy_layers.simps [simp del]

text \<open>The layers that a plan under construction may have, and the notes that stay available.\<close>

definition build_ok :: "zatoshi list \<Rightarrow> bool list \<Rightarrow> nat \<Rightarrow> prep_layers \<Rightarrow> bool" where
  "build_ok av used fee ls \<longleftrightarrow> layers_ok av used fee ls \<and> no_change ls \<and> [] \<notin> set ls"

lemma build_ok_Nil [simp]: "build_ok av used fee []"
  by (simp add: build_ok_def no_change_def)

lemma build_ok_snoc:
  assumes ls: "build_ok av used fee ls" and pool: "pool_ok av used ls pool"
    and txs: "\<forall>tx \<in> set txs. tx_ok fee tx \<and> (\<forall>out \<in> set (pt_outputs tx). change_value out = None)"
    and sub: "mset (layer_inputs txs) \<subseteq># mset pool" and ne: "txs \<noteq> []"
  shows "build_ok av used fee (ls @ [txs])"
    and "next_ok (length ls) txs nxt \<Longrightarrow> mset (layer_inputs txs @ rest) \<subseteq># mset pool
           \<Longrightarrow> pool_ok av used (ls @ [txs]) (nxt @ rest)"
proof -
  have "pool_ok av used ls (layer_inputs txs)" using pool sub by (rule pool_ok_subset)
  then have "layers_ok av used fee (ls @ [txs])"
    using ls txs by (intro layers_ok_snoc) (auto simp: build_ok_def pool_ok_def)
  then show ok: "build_ok av used fee (ls @ [txs])"
    using ls txs ne by (auto simp: build_ok_def no_change_def)
  assume "next_ok (length ls) txs nxt" "mset (layer_inputs txs @ rest) \<subseteq># mset pool"
  then show "pool_ok av used (ls @ [txs]) (nxt @ rest)"
    using ok pool_ok_subset[OF pool] by (intro pool_ok_next) (auto simp: build_ok_def)
qed

lemma greedy_layers_result:
  assumes "greedy_layers fee rem current ls = Inr ls'" and "build_ok av used fee ls"
    and "rem \<noteq> [] \<Longrightarrow> pool_ok av used ls current"
  shows "build_ok av used fee ls' \<and> mset (funding_of ls') = mset rem + mset (funding_of ls)
    \<and> length ls \<le> length ls'"
  using assms
proof (induction fee rem current ls rule: greedy_layers.induct)
  case (1 fee rem current ls)
  show ?case
  proof (cases "rem = []")
    case True
    with "1.prems" have "ls' = ls" by (simp add: greedy_layers.simps[of fee "[]"])
    with True "1.prems"(2) show ?thesis by simp
  next
    case rem: False
    with "1.prems"(1) have cur: "current \<noteq> []" by (auto simp: greedy_layers.simps[of fee rem])
    obtain rem' txs nxt where step: "greedy_step fee rem current (length ls) = (rem', txs, nxt)"
      by (metis prod_cases3)
    with "1.prems"(1) rem cur have txs: "txs \<noteq> []" and rec: "greedy_layers fee rem' nxt (ls @ [txs]) = Inr ls'"
      by (auto simp: greedy_layers.simps[of fee rem] split: if_splits)
    note res = greedy_step_result[OF step]
    note snoc = build_ok_snoc[OF "1.prems"(2) "1.prems"(3)[OF rem] res(3) res(2) txs]
    have "pool_ok av used (ls @ [txs]) (nxt @ [])"
      by (rule snoc(2)) (use res in simp_all)
    with "1.IH"[OF rem cur step[symmetric] refl refl txs rec snoc(1)] res(1)
    show ?thesis by simp
  qed
qed

section \<open>The residual loop\<close>

definition open_coords :: "prep_layers \<Rightarrow> (nat \<times> nat \<times> nat) set" where
  "open_coords ls = {c. (\<exists>v. output_at ls c = Some (Intermediate v)) \<and> c \<notin> set (spent_coords ls)}"

lemma open_coords_feeders: "open_coords ls = set (List.map_filter prior_coord (unconsumed_feeders ls))"
  by (force simp: open_coords_def set_map_filter set_unconsumed_feeders)

lemma length_unconsumed_feeders: "length (unconsumed_feeders ls) = card (open_coords ls)"
proof -
  have "length (List.map_filter prior_coord xs) = length xs"
    if "\<forall>inp \<in> set xs. prior_coord inp \<noteq> None" for xs
    using that by (induction xs) (auto simp: map_filter_Cons)
  moreover have "\<forall>inp \<in> set (unconsumed_feeders ls). prior_coord inp \<noteq> None"
    by (auto simp: set_unconsumed_feeders)
  ultimately have "length (List.map_filter prior_coord (unconsumed_feeders ls)) = length (unconsumed_feeders ls)"
    by blast
  then show ?thesis
    unfolding open_coords_feeders using distinct_unconsumed_feeders distinct_card by metis
qed

lemma finite_open_coords [simp]: "finite (open_coords ls)"
  by (simp add: open_coords_feeders)

lemma residual_step_shorter:
  assumes con: "consolidate (unconsumed_feeders ls) (length ls) fee [] [] = (lo, txs, nxt)" and "txs \<noteq> []"
  shows "length (unconsumed_feeders (ls @ [txs])) < length (unconsumed_feeders ls)"
proof -
  from consolidate_spec[OF con] have txs:
      "\<forall>tx \<in> set txs. 2 \<le> length (pt_inputs tx) \<and> (\<exists>v > 0. pt_outputs tx = [Intermediate v])"
      and m: "mset (lo @ layer_inputs txs) = mset (unconsumed_feeders ls)"
    unfolding consolidated_def by auto
  define C where "C = set (List.map_filter prior_coord (layer_inputs txs))"
  let ?N = "(\<lambda>t. (length ls, t, 0 :: nat)) ` {..<length txs}"
  have sub: "set (layer_inputs txs) \<subseteq> set (unconsumed_feeders ls)"
    using mset_eq_setD[OF m] by auto
  have "mset (List.map_filter prior_coord lo @ List.map_filter prior_coord (layer_inputs txs))
      = mset (List.map_filter prior_coord (unconsumed_feeders ls))"
    using map_filter_cong_mset[OF m, of prior_coord] by simp
  then have d: "distinct (List.map_filter prior_coord (layer_inputs txs))"
    using distinct_unconsumed_feeders[of ls] by (metis distinct_append mset_eq_imp_distinct_iff)
  have "length (List.map_filter prior_coord xs) = length xs"
    if "set xs \<subseteq> set (unconsumed_feeders ls)" for xs
    using that by (induction xs) (auto simp: map_filter_Cons set_unconsumed_feeders)
  from this[OF sub] have "card C = length (layer_inputs txs)"
    unfolding C_def using d distinct_card by metis
  then have big: "2 * length txs \<le> card C" using txs layer_inputs_length[of txs 2] by simp
  have "C \<subseteq> open_coords ls"
    unfolding C_def open_coords_feeders using sub by (force simp: set_map_filter)
  then have card: "card (open_coords ls - C) + card C = card (open_coords ls)"
    by (metis card_Diff_subset card_mono finite_open_coords finite_subset le_add_diff_inverse2)
  have "open_coords (ls @ [txs]) \<subseteq> (open_coords ls - C) \<union> ?N"
  proof
    fix c assume c: "c \<in> open_coords (ls @ [txs])"
    obtain l t k where cc: "c = (l, t, k)" by (cases c)
    from c have nsp: "c \<notin> set (spent_coords ls)" "c \<notin> C"
      by (auto simp: open_coords_def spent_coords_snoc C_def layer_inputs_def)
    from c obtain v where o': "output_at (ls @ [txs]) c = Some (Intermediate v)" by (auto simp: open_coords_def)
    show "c \<in> (open_coords ls - C) \<union> ?N"
    proof (cases "l < length ls")
      case True
      then have "output_at ls c = output_at (ls @ [txs]) c" by (simp add: cc output_at_def nth_append)
      with o' nsp show ?thesis by (simp add: open_coords_def)
    next
      case False
      with o' have l: "l = length ls" "t < length txs" "k < length (pt_outputs (txs ! t))"
        by (auto simp: cc output_at_def nth_append split: if_splits)
      with txs have "k = 0" by (metis One_nat_def length_Cons less_one list.size(3) nth_mem)
      with l cc show ?thesis by simp
    qed
  qed
  then have "card (open_coords (ls @ [txs])) \<le> card (open_coords ls - C) + card ?N"
    by (meson card_Un_le card_mono finite_Diff finite_UnI finite_imageI finite_lessThan finite_open_coords le_trans)
  also have "card ?N \<le> length txs" using card_image_le[of "{..<length txs}"] by simp
  finally have "card (open_coords (ls @ [txs])) \<le> card (open_coords ls - C) + length txs" by simp
  moreover have "0 < length txs" using assms(2) by simp
  ultimately show ?thesis unfolding length_unconsumed_feeders using big card by linarith
qed

function residual_loop :: "nat \<Rightarrow> prep_layers \<Rightarrow> prep_layers" where
  "residual_loop fee layers =
     (let pool = unconsumed_feeders layers
      in if length pool \<le> 1 then layers
         else
           let (leftover, txs, nxt) = consolidate pool (length layers) fee [] []
           in if txs = [] then layers else residual_loop fee (layers @ [txs]))"
  by auto

termination
  by (relation "measure (\<lambda>(fee, layers). length (unconsumed_feeders layers))")
    (simp, metis case_prod_conv in_measure residual_step_shorter)

declare residual_loop.simps [simp del]

lemma residual_loop_result:
  assumes "build_ok av used fee ls"
  shows "build_ok av used fee (residual_loop fee ls) \<and> mset (funding_of (residual_loop fee ls)) = mset (funding_of ls)
    \<and> (length (unconsumed_feeders (residual_loop fee ls)) \<le> 1
        \<or> (\<forall>inp \<in> set (unconsumed_feeders (residual_loop fee ls)). in_value inp \<le> fee))"
  using assms
proof (induction fee ls rule: residual_loop.induct)
  case (1 fee ls)
  let ?pool = "unconsumed_feeders ls"
  obtain lo txs nxt where con: "consolidate ?pool (length ls) fee [] [] = (lo, txs, nxt)" by (metis prod_cases3)
  consider (one) "length ?pool \<le> 1" | (dust) "\<not> length ?pool \<le> 1" "txs = []" | (more) "\<not> length ?pool \<le> 1" "txs \<noteq> []"
    by blast
  then show ?case
  proof cases
    case one
    with "1.prems" show ?thesis by (simp add: residual_loop.simps[of fee ls] Let_def)
  next
    case dust
    with con have "residual_loop fee ls = ls" by (simp add: residual_loop.simps[of fee ls] Let_def)
    moreover have "in_value inp \<le> fee" if "inp \<in> set ?pool" for inp
      using consolidate_none[of ?pool "length ls" fee "[]" lo nxt inp] con dust that by simp
    ultimately show ?thesis using "1.prems" by simp
  next
    case more
    with con have loop: "residual_loop fee ls = residual_loop fee (ls @ [txs])"
      by (simp add: residual_loop.simps[of fee ls] Let_def)
    from consolidate_spec[OF con] have new:
      "\<forall>tx \<in> set txs. tx_ok fee tx \<and> 2 \<le> length (pt_inputs tx) \<and> (\<exists>v > 0. pt_outputs tx = [Intermediate v])"
      "mset (lo @ layer_inputs txs) = mset ?pool"
      unfolding consolidated_def by auto
    note inter = layer_funding_intermediates[of txs]
    have pool: "pool_ok av used ls ?pool"
      using "1.prems" by (auto simp: build_ok_def intro: pool_ok_unconsumed)
    have sub: "mset (layer_inputs txs) \<subseteq># mset ?pool" using new(2) by (simp flip: new(2))
    have "build_ok av used fee (ls @ [txs])"
      using new(1) inter(2) more(2) by (intro build_ok_snoc(1)[OF "1.prems" pool _ sub]) auto
    with "1.IH"[OF refl more(1) con[symmetric] refl refl more(2)] inter(1) new(1)
    show ?thesis by (simp add: loop)
  qed
qed

end
