(* ===== verification/Prep_Relabel.thy ===== *)
theory Prep_Relabel
  imports Prep_Invariant
begin

text \<open>
  Finalising a plan: relabelling every intermediate output that nothing spends as change keeps
  the inputs, the funding notes and the validity of every transaction, turns exactly the open
  feeders into change, and leaves no intermediate output unspent. The second part is value
  accounting over valid layers: what a plan spends from the wallet is what it pays out, and no
  transaction handles more than the wallet's notes carry.
\<close>

section \<open>The effect of relabelling\<close>

lemma map_enumerate_twice:
  "map (\<lambda>(i, x). g i x) (enumerate 0 (map (\<lambda>(i, x). f i x) (enumerate 0 xs)))
     = map (\<lambda>(i, x). g i (f i x)) (enumerate 0 xs)"
  by (rule nth_equalityI) (auto simp: nth_enumerate_eq)

lemma outputs_at_relabel:
  "outputs_at li ti (relabel_tx sp li ti tx) = map (\<lambda>(c, out). (c, relabel_output sp c out)) (outputs_at li ti tx)"
proof -
  have "outputs_at li ti (relabel_tx sp li ti tx)
      = map (\<lambda>(oi, out). ((li, ti, oi), relabel_output sp (li, ti, oi) out)) (enumerate 0 (pt_outputs tx))"
    unfolding outputs_at_def relabel_tx_def
    using map_enumerate_twice[of "\<lambda>oi out. ((li, ti, oi), out)" "\<lambda>oi. relabel_output sp (li, ti, oi)"]
    by simp
  then show ?thesis by (simp add: outputs_at_def case_prod_unfold comp_def)
qed

lemma coord_outputs_relabel:
  "coord_outputs (relabel_unspent ls)
     = map (\<lambda>(c, out). (c, relabel_output (spent_coords ls) c out)) (coord_outputs ls)"
proof -
  let ?R = "\<lambda>(c, out). (c, relabel_output (spent_coords ls) c out)"
  have layer: "layer_outputs_at li (map (\<lambda>(ti, tx). relabel_tx (spent_coords ls) li ti tx) (enumerate 0 layer))
      = map ?R (layer_outputs_at li layer)" for li layer
    unfolding layer_outputs_at_def map_enumerate_twice
    by (simp add: outputs_at_relabel map_concat case_prod_unfold comp_def)
  show ?thesis
    unfolding coord_outputs_def relabel_unspent_def map_enumerate_twice
    by (simp add: layer[unfolded case_prod_unfold] map_concat case_prod_unfold comp_def)
qed

lemma map_snd_coord_outputs: "map snd (coord_outputs ls) = concat (map pt_outputs (concat ls))"
proof -
  have tx: "map snd (outputs_at li ti tx) = pt_outputs tx" for li ti tx
    by (rule nth_equalityI) (auto simp: outputs_at_def nth_enumerate_eq)
  have flat: "concat (map (\<lambda>(i, x). h x) (enumerate 0 xs)) = concat (map h xs)" for h :: "'a \<Rightarrow> 'b list" and xs
    by (simp add: enumerate_eq_zip case_prod_unfold comp_def flip: map_map[of h snd, unfolded comp_def])
  have layer: "map snd (layer_outputs_at li layer) = concat (map pt_outputs layer)" for li layer
    using flat[of pt_outputs layer] by (simp add: layer_outputs_at_def map_concat case_prod_unfold comp_def tx)
  have "concat (map (\<lambda>layer. concat (map pt_outputs layer)) ls) = concat (map pt_outputs (concat ls))"
    by (induction ls) auto
  then show ?thesis
    using flat[of "\<lambda>layer. concat (map pt_outputs layer)" ls]
    by (simp add: coord_outputs_def map_concat case_prod_unfold comp_def layer)
qed

lemma output_at_relabel:
  "output_at (relabel_unspent ls) c = map_option (relabel_output (spent_coords ls) c) (output_at ls c)"
proof (cases "output_at ls c")
  case None
  then have "(c, out) \<notin> set (coord_outputs (relabel_unspent ls))" for out
    unfolding coord_outputs_relabel by (auto simp: set_coord_outputs)
  then show ?thesis using None by (metis not_None_eq option.simps(8) set_coord_outputs)
next
  case (Some out)
  then have "(c, relabel_output (spent_coords ls) c out) \<in> set (coord_outputs (relabel_unspent ls))"
    unfolding coord_outputs_relabel by (force simp: set_coord_outputs)
  with Some show ?thesis by (simp add: set_coord_outputs)
qed

lemma relabel_value [simp]: "out_value (relabel_output sp c out) = out_value out"
  by (cases out) auto

lemma relabel_funding: "funding_of (relabel_unspent ls) = funding_of ls"
proof -
  have "List.map_filter funding_value (map snd (map (\<lambda>(c, out). (c, relabel_output sp c out)) xs))
      = List.map_filter funding_value (map snd xs)" for sp xs
  proof (induction xs)
    case (Cons x xs)
    then show ?case by (cases x; cases "snd x") (auto simp: map_filter_Cons)
  qed simp
  then show ?thesis
    unfolding funding_of_def
    by (simp only: coord_outputs_relabel flip: map_snd_coord_outputs)
qed

lemma relabel_change:
  assumes "\<forall>tx \<in> set (concat ls). \<forall>out \<in> set (pt_outputs tx). change_value out = None"
  shows "List.map_filter change_value (concat (map pt_outputs (concat (relabel_unspent ls))))
    = map in_value (unconsumed_feeders ls)"
proof -
  have "List.map_filter change_value (map snd (map (\<lambda>(c, out). (c, relabel_output sp c out)) xs))
      = map in_value (List.map_filter (feeder_input sp) xs)"
    if "\<forall>x \<in> set xs. change_value (snd x) = None" for sp xs
    using that
  proof (induction xs)
    case (Cons x xs)
    then show ?case by (cases x; cases "snd x") (auto simp: map_filter_Cons)
  qed simp
  moreover have "\<forall>out \<in> set (map snd (coord_outputs ls)). change_value out = None"
    unfolding map_snd_coord_outputs using assms by auto
  ultimately show ?thesis
    unfolding unconsumed_feeders_def
    by (simp add: coord_outputs_relabel flip: map_snd_coord_outputs)
qed

lemma relabel_shape:
  "length (relabel_unspent ls) = length ls"
  "l < length ls \<Longrightarrow> length (relabel_unspent ls ! l) = length (ls ! l)"
  "l < length ls \<Longrightarrow> t < length (ls ! l)
     \<Longrightarrow> relabel_unspent ls ! l ! t = relabel_tx (spent_coords ls) l t (ls ! l ! t)"
  by (auto simp: relabel_unspent_def nth_enumerate_eq)

lemma relabel_tx_inputs [simp]: "pt_inputs (relabel_tx sp l t tx) = pt_inputs tx"
  by (simp add: relabel_tx_def)

lemma relabel_tx_outputs:
  "length (pt_outputs (relabel_tx sp l t tx)) = length (pt_outputs tx)"
  "output_total (pt_outputs (relabel_tx sp l t tx)) = output_total (pt_outputs tx)"
proof -
  show "length (pt_outputs (relabel_tx sp l t tx)) = length (pt_outputs tx)"
    by (simp add: relabel_tx_def)
  have "map out_value (pt_outputs (relabel_tx sp l t tx)) = map out_value (pt_outputs tx)"
    by (rule nth_equalityI) (auto simp: relabel_tx_def nth_enumerate_eq)
  then show "output_total (pt_outputs (relabel_tx sp l t tx)) = output_total (pt_outputs tx)"
    by (simp add: output_total_def)
qed

lemma tx_ok_relabel: "tx_ok fee (relabel_tx sp l t tx) = tx_ok fee tx"
  by (simp add: tx_ok_def action_count_def relabel_tx_outputs)

lemma relabel_inputs: "all_inputs (relabel_unspent ls) = all_inputs ls"
proof -
  have "map (map pt_inputs) (relabel_unspent ls) = map (map pt_inputs) ls"
    by (rule nth_equalityI) (auto simp: relabel_shape intro!: nth_equalityI)
  then show ?thesis by (metis all_inputs_def map_concat)
qed

lemma relabel_spent: "spent_coords (relabel_unspent ls) = spent_coords ls"
  by (simp add: spent_coords_def relabel_inputs)

lemma layers_ok_relabel:
  assumes ok: "layers_ok av used fee ls"
  shows "layers_ok av used fee (relabel_unspent ls)"
proof -
  have txs: "tx_ok fee tx" if "tx \<in> set (concat (relabel_unspent ls))" for tx
  proof -
    from that obtain l t where "l < length ls" "t < length (ls ! l)" "tx = relabel_unspent ls ! l ! t"
      by (auto simp: in_set_conv_nth relabel_shape)
    moreover from this have "ls ! l ! t \<in> set (concat ls)" by (auto intro!: nth_mem)
    ultimately show ?thesis using ok by (simp add: relabel_shape tx_ok_relabel layers_ok_def del: set_concat)
  qed
  have "ref_ok av used (relabel_unspent ls) n inp"
    if n: "n < length ls" and tx: "tx \<in> set (relabel_unspent ls ! n)" and inp: "inp \<in> set (pt_inputs tx)"
    for n tx inp
  proof -
    from tx n obtain t where t: "t < length (ls ! n)" "tx = relabel_tx (spent_coords ls) n t (ls ! n ! t)"
      by (auto simp: in_set_conv_nth relabel_shape)
    with n inp have inp': "inp \<in> set (pt_inputs (ls ! n ! t))" "ls ! n ! t \<in> set (ls ! n)" by simp_all
    with ok n have r: "ref_ok av used ls n inp" by (auto simp: layers_ok_def refs_ok_def)
    have "inp \<in> set (all_inputs ls)" using inp' n by (auto simp: all_inputs_def)
    with r show ?thesis by (cases inp) (force simp: output_at_relabel set_spent_coords)+
  qed
  then show ?thesis
    using ok txs by (auto simp: layers_ok_def refs_ok_def relabel_shape relabel_inputs)
qed

text \<open>No intermediate output is left unspent.\<close>

definition no_dangling :: "prep_layers \<Rightarrow> bool" where
  "no_dangling ls \<longleftrightarrow> (\<forall>(c, out) \<in> set (coord_outputs ls). intermediate_value out = None \<or> c \<in> set (spent_coords ls))"

lemma no_dangling_relabel: "no_dangling (relabel_unspent ls)"
proof -
  have "c \<in> set sp \<or> intermediate_value (relabel_output sp c out) = None" for sp c out
    by (cases out) auto
  then show ?thesis unfolding no_dangling_def coord_outputs_relabel relabel_spent by fastforce
qed

section \<open>Value accounting\<close>

abbreviation wallet_inputs :: "prep_layers \<Rightarrow> prep_input list" where
  "wallet_inputs ls \<equiv> filter (\<lambda>inp. prior_coord inp = None) (all_inputs ls)"

abbreviation prior_inputs :: "prep_layers \<Rightarrow> prep_input list" where
  "prior_inputs ls \<equiv> filter (\<lambda>inp. prior_coord inp \<noteq> None) (all_inputs ls)"

lemma input_total_filter:
  "input_total (filter P xs) + input_total (filter (\<lambda>x. \<not> P x) xs) = input_total xs"
  by (induction xs) auto

lemma inputs_outputs_total:
  assumes "\<forall>tx \<in> set txs. tx_ok fee tx"
  shows "input_total (concat (map pt_inputs txs)) = output_total (concat (map pt_outputs txs)) + fee * length txs"
  using assms by (induction txs) (auto simp: tx_ok_def)

lemma layers_total:
  "layers_ok av used fee ls \<Longrightarrow>
   input_total (all_inputs ls) = output_total (concat (map pt_outputs (concat ls))) + fee * length (concat ls)"
  unfolding all_inputs_def by (rule inputs_outputs_total) (simp add: layers_ok_def)

lemma in_concat_nth: "tx \<in> set (concat ls) \<Longrightarrow> \<exists>n < length ls. tx \<in> set (ls ! n)"
  by (metis UN_E in_set_conv_nth set_concat)

lemma in_all_inputs_ref:
  assumes "inp \<in> set (all_inputs ls)" and "refs_ok av used ls"
  shows "\<exists>n < length ls. ref_ok av used ls n inp"
proof -
  from assms(1) obtain tx where "tx \<in> set (concat ls)" "inp \<in> set (pt_inputs tx)"
    by (auto simp: all_inputs_def)
  with in_concat_nth[of tx ls] assms(2) show ?thesis unfolding refs_ok_def by blast
qed

text \<open>The wallet notes that a plan spends are distinct notes of the wallet not marked as used.\<close>

lemma wallet_total_le:
  assumes "layers_ok av used fee ls" and "length used = length av"
  shows "input_total (wallet_inputs ls) \<le> sum_list (map (\<lambda>i. if used ! i then 0 else av ! i) [0..<length av])"
proof -
  define I where "I = (\<lambda>inp. in_index inp) ` set (wallet_inputs ls)"
  have w: "\<exists>i. inp = Wallet i (av ! i) \<and> i < length av \<and> \<not> used ! i" if "inp \<in> set (wallet_inputs ls)" for inp
  proof -
    from that have mem: "inp \<in> set (all_inputs ls)" and "prior_coord inp = None" by auto
    from this(2) obtain i v where i: "inp = Wallet i v" by (cases inp rule: prep_input.exhaust) simp_all
    have "refs_ok av used ls" using assms(1) by (simp add: layers_ok_def)
    from in_all_inputs_ref[OF mem this] obtain n where "ref_ok av used ls n inp" by blast
    with i show ?thesis by auto
  qed
  have "distinct (map coord (wallet_inputs ls))"
    using assms(1) by (auto simp: layers_ok_def distinct_map_filter)
  then have d: "distinct (wallet_inputs ls)" by (simp add: distinct_map)
  have inj: "inj_on in_index (set (wallet_inputs ls))"
  proof (rule inj_onI)
    fix x y
    assume "x \<in> set (wallet_inputs ls)" "y \<in> set (wallet_inputs ls)" "in_index x = in_index y"
    with w[of x] w[of y] show "x = y" by auto
  qed
  have "input_total (wallet_inputs ls) = (\<Sum>inp \<in> set (wallet_inputs ls). in_value inp)"
    using d by (simp add: input_total_def sum_list_distinct_conv_sum_set)
  also have "\<dots> = (\<Sum>inp \<in> set (wallet_inputs ls). (if used ! in_index inp then 0 else av ! in_index inp))"
    by (rule sum.cong[OF refl]) (use w in force)
  also have "\<dots> = (\<Sum>i \<in> I. if used ! i then 0 else av ! i)"
    unfolding I_def using inj by (simp add: sum.reindex)
  also have "\<dots> \<le> (\<Sum>i \<in> {..<length av}. if used ! i then 0 else av ! i)"
    by (rule sum_mono2) (use w in \<open>force simp: I_def\<close>)+
  also have "\<dots> = sum_list (map (\<lambda>i. if used ! i then 0 else av ! i) [0..<length av])"
    by (simp add: sum_list_distinct_conv_sum_set atLeast0LessThan)
  finally show ?thesis .
qed

text \<open>The earlier outputs that a plan spends carry exactly what it takes from them.\<close>

abbreviation inter_amount :: "(nat \<times> nat \<times> nat) \<times> prep_output \<Rightarrow> nat" where
  "inter_amount x \<equiv> (case intermediate_value (snd x) of None \<Rightarrow> 0 | Some v \<Rightarrow> v)"

lemma prior_total_sum:
  assumes refs: "refs_ok av used ls" and dist: "distinct (map coord (all_inputs ls))"
  obtains K where "K \<subseteq> set (coord_outputs ls)" and "fst ` K = set (spent_coords ls)"
    and "input_total (prior_inputs ls) = (\<Sum>x \<in> K. inter_amount x)"
proof -
  let ?P = "prior_inputs ls"
  define key where "key = (\<lambda>inp. (the (prior_coord inp), Intermediate (in_value inp)))"
  have r: "\<exists>l t k v. inp = Prior l t k v \<and> output_at ls (l, t, k) = Some (Intermediate v)" if "inp \<in> set ?P" for inp
  proof -
    from that have mem: "inp \<in> set (all_inputs ls)" and "prior_coord inp \<noteq> None" by auto
    from this(2) obtain l t k v where i: "inp = Prior l t k v" by (cases inp rule: prep_input.exhaust) simp_all
    from in_all_inputs_ref[OF mem refs] i show ?thesis by auto
  qed
  have d: "distinct ?P" using distinct_map_filter[OF dist] by (simp add: distinct_map)
  have inj: "inj_on key (set ?P)"
  proof (rule inj_onI)
    fix x y
    assume "x \<in> set ?P" "y \<in> set ?P" "key x = key y"
    with r[of x] r[of y] show "x = y" by (auto simp: key_def)
  qed
  have "key ` set ?P \<subseteq> set (coord_outputs ls)"
  proof
    fix x assume "x \<in> key ` set ?P"
    then obtain inp where "inp \<in> set ?P" "x = key inp" by blast
    with r[of inp] show "x \<in> set (coord_outputs ls)" by (cases "fst x") (auto simp: key_def set_coord_outputs)
  qed
  moreover have "fst ` key ` set ?P = set (spent_coords ls)"
  proof -
    have "fst ` key ` set ?P = (\<lambda>inp. the (prior_coord inp)) ` set ?P" by (simp add: image_image key_def)
    also have "\<dots> = set (spent_coords ls)" by (force simp: spent_coords_def map_filter_def)
    finally show ?thesis .
  qed
  moreover have "input_total ?P = (\<Sum>inp \<in> set ?P. in_value inp)"
    using d by (simp add: input_total_def sum_list_distinct_conv_sum_set)
  then have "input_total ?P = (\<Sum>x \<in> key ` set ?P. inter_amount x)"
    using inj by (simp add: sum.reindex) (simp add: key_def)
  ultimately show thesis by (rule that)
qed

lemma sum_inter_amount:
  "(\<Sum>x \<in> set (coord_outputs ls). inter_amount x)
     = sum_list (List.map_filter intermediate_value (concat (map pt_outputs (concat ls))))"
proof -
  have "distinct (coord_outputs ls)" using distinct_coord_outputs by (simp add: distinct_map)
  then have "(\<Sum>x \<in> set (coord_outputs ls). inter_amount x) = sum_list (map inter_amount (coord_outputs ls))"
    by (simp add: sum_list_distinct_conv_sum_set)
  also have "\<dots> = sum_list (List.map_filter intermediate_value (map snd xs))" if "xs = coord_outputs ls" for xs
    unfolding that[symmetric] by (induction xs) (auto simp: map_filter_Cons split: option.splits)
  finally show ?thesis by (simp add: map_snd_coord_outputs)
qed

lemma prior_total_le:
  assumes refs: "refs_ok av used (ls @ [txs])" and dist: "distinct (map coord (all_inputs (ls @ [txs])))"
  shows "input_total (prior_inputs (ls @ [txs]))
    \<le> sum_list (List.map_filter intermediate_value (concat (map pt_outputs (concat ls))))"
proof -
  obtain K where K: "K \<subseteq> set (coord_outputs (ls @ [txs]))" "fst ` K = set (spent_coords (ls @ [txs]))"
    "input_total (prior_inputs (ls @ [txs])) = (\<Sum>x \<in> K. inter_amount x)"
    by (rule prior_total_sum[OF refs dist])
  have "K \<subseteq> set (coord_outputs ls)"
  proof
    fix x assume x: "x \<in> K"
    obtain l t k out where xx: "x = ((l, t, k), out)" by (metis prod_cases3 surj_pair)
    from x K(2) xx have "(l, t, k) \<in> set (spent_coords (ls @ [txs]))" by force
    then have "Inr (l, t, k) \<in> set (map coord (all_inputs (ls @ [txs])))" by (simp only: spent_coords_iff)
    from refs_ok_prior_layer[OF refs this] have "l < length ls" by simp
    moreover have "output_at (ls @ [txs]) (l, t, k) = Some out" using x K(1) xx set_coord_outputs by blast
    ultimately have "output_at ls (l, t, k) = Some out" by (simp add: output_at_def nth_append split: if_splits)
    then show "x \<in> set (coord_outputs ls)" by (simp add: xx set_coord_outputs)
  qed
  then have "(\<Sum>x \<in> K. inter_amount x) \<le> (\<Sum>x \<in> set (coord_outputs ls). inter_amount x)"
    by (intro sum_mono2) auto
  then show ?thesis unfolding K(3) sum_inter_amount .
qed

lemma prior_total_eq:
  assumes refs: "refs_ok av used ls" and dist: "distinct (map coord (all_inputs ls))" and dang: "no_dangling ls"
  shows "input_total (prior_inputs ls)
    = sum_list (List.map_filter intermediate_value (concat (map pt_outputs (concat ls))))"
proof -
  obtain K where K: "K \<subseteq> set (coord_outputs ls)" "fst ` K = set (spent_coords ls)"
    "input_total (prior_inputs ls) = (\<Sum>x \<in> K. inter_amount x)"
    by (rule prior_total_sum[OF refs dist])
  have zero: "inter_amount x = 0" if x: "x \<in> set (coord_outputs ls) - K" for x
  proof (rule ccontr)
    assume "inter_amount x \<noteq> 0"
    then have "intermediate_value (snd x) \<noteq> None" by (metis option.simps(4))
    with x dang have "fst x \<in> set (spent_coords ls)" by (force simp: no_dangling_def)
    then obtain y where "y \<in> K" "fst y = fst x"
      unfolding K(2)[symmetric] by (metis imageE)
    moreover have "output_at ls (fst z) = Some (snd z)" if "z \<in> set (coord_outputs ls)" for z
      using that by (simp flip: set_coord_outputs)
    then have "output_at ls (fst y) = Some (snd y)" "output_at ls (fst x) = Some (snd x)"
      using K(1) x \<open>y \<in> K\<close> by blast+
    ultimately have "y = x" by (metis option.inject prod.collapse)
    with \<open>y \<in> K\<close> x show False by blast
  qed
  have "(\<Sum>x \<in> K. inter_amount x) = (\<Sum>x \<in> set (coord_outputs ls). inter_amount x)"
    by (rule sum.mono_neutral_left) (use K(1) zero in auto)
  then show ?thesis unfolding K(3) sum_inter_amount .
qed

lemma sum_intermediates_le:
  "sum_list (List.map_filter intermediate_value outs) \<le> output_total outs"
proof (induction outs)
  case (Cons out outs)
  then show ?case by (cases out) (auto simp: map_filter_Cons)
qed simp

lemma layers_ok_prefix: "layers_ok av used fee (ls @ ms) \<Longrightarrow> layers_ok av used fee ls"
proof -
  assume ok: "layers_ok av used fee (ls @ ms)"
  have "ref_ok av used ls n inp" if "ref_ok av used (ls @ ms) n inp" "n < length ls" for n inp
    using that by (cases inp) (auto simp: output_at_def nth_append split: if_splits)
  with ok show ?thesis
    by (fastforce simp: layers_ok_def refs_ok_def nth_append all_inputs_def)
qed

text \<open>No transaction handles more value than the wallet's notes carry in total.\<close>

lemma layer_total_le:
  assumes ok: "layers_ok av used fee (ls @ [txs])" and len: "length used = length av"
  shows "input_total (layer_inputs txs) \<le> sum_list av"
proof -
  have "input_total (all_inputs (ls @ [txs])) = input_total (wallet_inputs (ls @ [txs])) + input_total (prior_inputs (ls @ [txs]))"
    using input_total_filter[of "\<lambda>inp. prior_coord inp = None" "all_inputs (ls @ [txs])"] by simp
  moreover have "input_total (prior_inputs (ls @ [txs])) \<le> output_total (concat (map pt_outputs (concat ls)))"
    using prior_total_le[of av used ls txs] ok sum_intermediates_le le_trans unfolding layers_ok_def by blast
  moreover have "input_total (all_inputs ls) = output_total (concat (map pt_outputs (concat ls))) + fee * length (concat ls)"
    using layers_total layers_ok_prefix[OF ok] by blast
  moreover have "input_total (all_inputs (ls @ [txs])) = input_total (all_inputs ls) + input_total (layer_inputs txs)"
    by (simp add: all_inputs_snoc')
  ultimately have "input_total (layer_inputs txs) \<le> input_total (wallet_inputs (ls @ [txs]))" by linarith
  also have "\<dots> \<le> sum_list (map (\<lambda>i. if used ! i then 0 else av ! i) [0..<length av])"
    by (rule wallet_total_le[OF ok len])
  also have "\<dots> \<le> sum_list (map ((!) av) [0..<length av])" by (rule sum_list_mono) auto
  finally show ?thesis by (simp add: map_nth)
qed

lemma tx_total_le:
  assumes ok: "layers_ok av used fee ls" and len: "length used = length av" and tx: "tx \<in> set (concat ls)"
  shows "input_total (pt_inputs tx) \<le> sum_list av"
proof -
  from in_concat_nth[OF tx] obtain n where n: "n < length ls" "tx \<in> set (ls ! n)" by blast
  then have "ls = take n ls @ [ls ! n] @ drop (Suc n) ls" by (simp add: id_take_nth_drop)
  with ok have "layers_ok av used fee (take n ls @ [ls ! n])"
    using layers_ok_prefix[of av used fee "take n ls @ [ls ! n]" "drop (Suc n) ls"] by simp
  from layer_total_le[OF this len] have "input_total (layer_inputs (ls ! n)) \<le> sum_list av" .
  moreover from n(2) obtain xs ys where "ls ! n = xs @ tx # ys" by (meson split_list)
  then have "input_total (pt_inputs tx) \<le> input_total (layer_inputs (ls ! n))" by simp
  ultimately show ?thesis by simp
qed

end
