(* ===== verification/Prep_Planner.thy ===== *)
theory Prep_Planner
  imports Prep_Plan Prep_Relabel
begin

text \<open>
  The entry points of preparation_plan.rs: \<open>plan_preparation_greedy\<close>, the fallback
  \<open>plan_preparation_via_consolidation\<close> and \<open>plan_preparation\<close>, with the contract they meet:
  \<open>plan_ok\<close>, which says that a plan can be executed against the wallet, and the accounting of
  its funding notes and residual notes.
\<close>

section \<open>The planner\<close>

text \<open>\<open>Iterator::max_by_key\<close> returns the last of several maximal elements.\<close>

fun max_by_value :: "(nat \<times> zatoshi) list \<Rightarrow> (nat \<times> zatoshi) option" where
  "max_by_value [] = None"
| "max_by_value (x # xs) = Some (foldl (\<lambda>best y. if snd best \<le> snd y then y else best) x xs)"

definition unused_notes :: "zatoshi list \<Rightarrow> bool list \<Rightarrow> (nat \<times> zatoshi) list" where
  "unused_notes available used = filter (\<lambda>(i, v). \<not> used ! i) (enumerate 0 available)"

text \<open>The planner proper, after the totals have been validated.\<close>

definition greedy_plan ::
    "zatoshi list \<Rightarrow> zatoshi list \<Rightarrow> zatoshi \<Rightarrow> prep_error + preparation_plan" where
  "greedy_plan available funding fee_per_tx =
     (let remaining = sort_desc (filter (\<lambda>v. 0 < v) funding);
          (remaining, used, direct_funding) = extract_direct_funding available remaining
      in if remaining = [] then Inr \<lparr>pp_layers = [], pp_direct_funding = direct_funding\<rparr>
         else
           let (remaining, layers) =
                 (case max_by_value (unused_notes available used) of
                    Some (idx, big) \<Rightarrow>
                      if snd (subtree_cost remaining fee_per_tx) \<le> big
                      then ([], build_split (Wallet idx big) big remaining fee_per_tx 0 [])
                      else (remaining, [])
                  | None \<Rightarrow> (remaining, []));
               current = map (\<lambda>(i, v). Wallet i v) (unused_notes available used)
           in res_bind (greedy_layers fee_per_tx remaining current layers) (\<lambda>layers.
                let layers = residual_loop fee_per_tx layers
                in Inr \<lparr>pp_layers = relabel_unspent layers, pp_direct_funding = direct_funding\<rparr>))"

definition plan_preparation_greedy ::
    "zatoshi list \<Rightarrow> zatoshi list \<Rightarrow> zatoshi \<Rightarrow> prep_error + preparation_plan" where
  "plan_preparation_greedy available funding fee_per_tx =
     res_bind (ok_or (sum_zatoshis available) BalanceInvalid) (\<lambda>_.
     res_bind (ok_or (sum_zatoshis funding) BalanceInvalid) (\<lambda>_.
       greedy_plan available funding fee_per_tx))"

lemma consolidate_all_shorter:
  assumes con: "consolidate current layer fee [] [] = (leftover, txs, nxt)" and "txs \<noteq> []"
  shows "length nxt + length leftover < length current"
proof -
  from consolidate_spec[OF con] have new:
      "\<forall>tx \<in> set txs. 2 \<le> length (pt_inputs tx)" "length nxt = length txs"
      "mset (leftover @ layer_inputs txs) = mset current"
    unfolding consolidated_def by auto
  from layer_inputs_length[OF new(1)] length_mset_cong[OF new(3)] new(2) assms(2)
  show ?thesis by (cases txs) auto
qed

text \<open>\<open>while current.len() > 1\<close> of the fallback.\<close>

function consolidate_all ::
    "nat \<Rightarrow> prep_input list \<Rightarrow> prep_layers \<Rightarrow> prep_error + prep_input list \<times> prep_layers" where
  "consolidate_all fee current layers =
     (if length current \<le> 1 then Inr (current, layers)
      else
        let (leftover, transactions, nxt) = consolidate current (length layers) fee [] [];
            nxt' = nxt @ leftover
        in if transactions = [] then Inl InsufficientFunds
           else consolidate_all fee nxt' (layers @ [transactions]))"
  by auto

termination
  by (relation "measure (\<lambda>(fee, current, layers). length current)")
    (simp, metis case_prod_conv consolidate_all_shorter in_measure length_append)

declare consolidate_all.simps [simp del]

definition consolidating_plan ::
    "zatoshi list \<Rightarrow> zatoshi list \<Rightarrow> zatoshi \<Rightarrow> prep_error + preparation_plan" where
  "consolidating_plan available funding fee =
     (let targets = sort_desc (filter (\<lambda>v. 0 < v) funding);
          (targets, used, direct_funding) = extract_direct_funding available targets
      in if targets = [] then Inr \<lparr>pp_layers = [], pp_direct_funding = direct_funding\<rparr>
         else
           let current = map (\<lambda>(i, v). Wallet i v)
                 (filter (\<lambda>(i, v). 0 < v) (unused_notes available used))
           in if current = [] then Inl InsufficientFunds
              else res_bind (consolidate_all fee current []) (\<lambda>(current, layers).
                let source = last current;
                    source_value = in_value source
                in if source_value < snd (subtree_cost targets fee) then Inl InsufficientFunds
                   else
                     let layers = build_split source source_value targets fee (length layers) layers
                     in Inr \<lparr>pp_layers = relabel_unspent layers, pp_direct_funding = direct_funding\<rparr>))"

definition plan_preparation_via_consolidation ::
    "zatoshi list \<Rightarrow> zatoshi list \<Rightarrow> zatoshi \<Rightarrow> prep_error + preparation_plan" where
  "plan_preparation_via_consolidation available funding fee_per_tx =
     res_bind (ok_or (sum_zatoshis available) BalanceInvalid) (\<lambda>_.
     res_bind (ok_or (sum_zatoshis funding) BalanceInvalid) (\<lambda>_.
       consolidating_plan available funding fee_per_tx))"

definition plan_preparation ::
    "zatoshi list \<Rightarrow> zatoshi list \<Rightarrow> zatoshi \<Rightarrow> prep_error + preparation_plan" where
  "plan_preparation available funding fee_per_tx =
     (case plan_preparation_greedy available funding fee_per_tx of
        Inr plan \<Rightarrow> Inr plan
      | Inl InsufficientFunds \<Rightarrow> plan_preparation_via_consolidation available funding fee_per_tx
      | Inl error \<Rightarrow> Inl error)"

text \<open>The order of the checks: the totals first, then the greedy plan, then the fallback.\<close>

lemma plan_preparation_eq:
  "plan_preparation available funding fee =
     (if MAX_MONEY < sum_list available \<or> MAX_MONEY < sum_list funding then Inl BalanceInvalid
      else case greedy_plan available funding fee of
          Inl InsufficientFunds \<Rightarrow> consolidating_plan available funding fee
        | result \<Rightarrow> result)"
  by (auto simp: plan_preparation_def plan_preparation_greedy_def plan_preparation_via_consolidation_def
      sum_zatoshis_eq zatoshis_from_u64_def split: sum.splits prep_error.splits)

section \<open>The contract of a plan\<close>

definition direct_marks :: "zatoshi list \<Rightarrow> (nat \<times> zatoshi) list \<Rightarrow> bool list" where
  "direct_marks av direct = map (\<lambda>i. i \<in> set (map fst direct)) [0..<length av]"

definition plan_ok :: "zatoshi list \<Rightarrow> nat \<Rightarrow> preparation_plan \<Rightarrow> bool" where
  "plan_ok av fee plan \<longleftrightarrow>
     direct_ok av (direct_marks av (pp_direct_funding plan)) (pp_direct_funding plan)
     \<and> layers_ok av (direct_marks av (pp_direct_funding plan)) fee (pp_layers plan)
     \<and> [] \<notin> set (pp_layers plan) \<and> no_dangling (pp_layers plan)"

lemma direct_ok_marks: "direct_ok av used direct \<Longrightarrow> used = direct_marks av direct"
  by (rule nth_equalityI) (auto simp: direct_ok_def direct_marks_def)

lemma relabelled_plan:
  assumes "build_ok av used fee ls" and "direct_ok av used direct"
  shows "plan_ok av fee \<lparr>pp_layers = relabel_unspent ls, pp_direct_funding = direct\<rparr>"
    and "mset (funding_notes \<lparr>pp_layers = relabel_unspent ls, pp_direct_funding = direct\<rparr>)
      = mset (funding_of ls) + mset (map snd direct)"
    and "residual_notes \<lparr>pp_layers = relabel_unspent ls, pp_direct_funding = direct\<rparr>
      = map in_value (unconsumed_feeders ls)"
proof -
  have "[] \<notin> set (relabel_unspent ls)"
  proof
    assume "[] \<in> set (relabel_unspent ls)"
    then obtain l where "l < length ls" "relabel_unspent ls ! l = []"
      by (auto simp: in_set_conv_nth relabel_shape)
    then have "ls ! l = []" using relabel_shape(2)[of l ls] by simp
    with \<open>l < length ls\<close> assms(1) show False by (metis build_ok_def nth_mem)
  qed
  then show "plan_ok av fee \<lparr>pp_layers = relabel_unspent ls, pp_direct_funding = direct\<rparr>"
    using assms direct_ok_marks[OF assms(2)] layers_ok_relabel no_dangling_relabel
    by (simp add: plan_ok_def build_ok_def)
  show "mset (funding_notes \<lparr>pp_layers = relabel_unspent ls, pp_direct_funding = direct\<rparr>)
      = mset (funding_of ls) + mset (map snd direct)"
    using relabel_funding[of ls] by (simp add: funding_notes_def all_outputs_def funding_of_def)
  show "residual_notes \<lparr>pp_layers = relabel_unspent ls, pp_direct_funding = direct\<rparr>
      = map in_value (unconsumed_feeders ls)"
    using assms(1) relabel_change[of ls] by (simp add: residual_notes_def all_outputs_def build_ok_def no_change_def)
qed

lemma empty_plan:
  assumes "direct_ok av used direct"
  shows "plan_ok av fee \<lparr>pp_layers = [], pp_direct_funding = direct\<rparr>"
    and "mset (funding_notes \<lparr>pp_layers = [], pp_direct_funding = direct\<rparr>) = mset (map snd direct)"
    and "residual_notes \<lparr>pp_layers = [], pp_direct_funding = direct\<rparr> = []"
  using assms direct_ok_marks[OF assms]
  by (simp_all add: plan_ok_def no_dangling_def coord_outputs_def funding_notes_def all_outputs_def residual_notes_def)

lemma unused_notes_mem:
  "(i, v) \<in> set (unused_notes av used) \<longleftrightarrow> i < length av \<and> av ! i = v \<and> \<not> used ! i"
  by (auto simp: unused_notes_def set_enumerate_0)

lemma distinct_unused_notes: "distinct (map fst (unused_notes av used))"
proof -
  have "distinct (map fst (enumerate 0 av))" by simp
  then show ?thesis unfolding unused_notes_def by (rule distinct_map_filter)
qed

lemma wallet_pool_ok:
  assumes "distinct (map fst notes)" and "set notes \<subseteq> set (unused_notes av used)"
  shows "pool_ok av used [] (map (\<lambda>(i, v). Wallet i v) notes)"
proof -
  have "map coord (map (\<lambda>(i, v). Wallet i v) notes) = map Inl (map fst notes)"
    by (simp add: case_prod_unfold comp_def)
  then have "distinct (map coord (map (\<lambda>(i, v). Wallet i v) notes))"
    using assms(1) by (metis distinct_map inj_Inl inj_on_subset subset_UNIV)
  moreover have "\<forall>inp \<in> set (map (\<lambda>(i, v). Wallet i v) notes). ref_ok av used [] 0 inp"
    using assms(2) unused_notes_mem by fastforce
  ultimately show ?thesis by (simp add: pool_ok_def)
qed

lemma max_by_value_props:
  assumes "max_by_value xs = Some x"
  shows "x \<in> set xs \<and> (\<forall>y \<in> set xs. snd y \<le> snd x)"
proof -
  have "foldl (\<lambda>best y. if snd best \<le> snd y then y else best) b ys \<in> set (b # ys)
      \<and> (\<forall>y \<in> set (b # ys). snd y \<le> snd (foldl (\<lambda>best y. if snd best \<le> snd y then y else best) b ys))"
    for b :: "nat \<times> nat" and ys
  proof (induction ys arbitrary: b)
    case (Cons y ys)
    from Cons[of "if snd b \<le> snd y then y else b"] show ?case by (auto split: if_splits)
  qed simp
  with assms show ?thesis by (cases xs) auto
qed

lemma max_by_value_None [simp]: "max_by_value xs = None \<longleftrightarrow> xs = []"
  by (cases xs) auto

text \<open>A split of one source note, on its own layers.\<close>

lemma build_split_ok:
  assumes ls: "build_ok av used fee ls" and src: "ref_ok av used ls (length ls) source"
    and fresh: "coord source \<notin> spent_set ls"
    and cost: "snd (subtree_cost targets fee) \<le> in_value source"
  shows "build_ok av used fee (build_split source (in_value source) targets fee (length ls) ls)"
    and "mset (funding_of (build_split source (in_value source) targets fee (length ls) ls))
      = mset targets + mset (funding_of ls)"
    and "length (concat (build_split source (in_value source) targets fee (length ls) ls))
      = length (concat ls) + fst (subtree_cost targets fee)"
    and "open_count (build_split source (in_value source) targets fee (length ls) ls) = open_count ls
      + ((if snd (subtree_cost targets fee) < in_value source then 1 else 0)
         - (if prior_coord source = None then 0 else 1))"
  using build_split_grown[of av used fee ls "length ls" source "in_value source" targets] assms
  unfolding grown_def build_ok_def by simp_all

section \<open>Results of the greedy planner\<close>

definition plan_result :: "zatoshi list \<Rightarrow> zatoshi list \<Rightarrow> nat \<Rightarrow> preparation_plan \<Rightarrow> bool" where
  "plan_result av funding fee plan \<longleftrightarrow>
     plan_ok av fee plan \<and> mset (funding_notes plan) = mset (filter (\<lambda>v. 0 < v) funding)
     \<and> (residual_count plan \<le> 1 \<or> (\<forall>v \<in> set (residual_notes plan). v \<le> fee))"

lemma spent_set_Nil [simp]: "spent_set [] = {}"
  by (simp add: spent_set_def)

lemma greedy_result:
  assumes "plan_preparation_greedy av funding fee = Inr plan"
  shows "plan_result av funding fee plan"
proof -
  let ?pos = "filter (\<lambda>v. 0 < v) funding"
  obtain rem used direct where ex: "extract_direct_funding av (sort_desc ?pos) = (rem, used, direct)"
    by (metis prod_cases3)
  note ex_spec = extract_direct_funding_spec[OF ex]
  have msum: "mset ?pos = mset rem + mset (map snd direct)" using ex_spec(2) by simp
  show ?thesis
  proof (cases "rem = []")
    case True
    with assms ex have "plan = \<lparr>pp_layers = [], pp_direct_funding = direct\<rparr>"
      by (auto simp: plan_preparation_greedy_def greedy_plan_def res_simps Let_def)
    with empty_plan[OF ex_spec(1)] msum True show ?thesis by (simp add: plan_result_def residual_count_def)
  next
    case False
    let ?notes = "unused_notes av used"
    let ?split = "case max_by_value ?notes of
        Some (idx, big) \<Rightarrow> if snd (subtree_cost rem fee) \<le> big
          then ([], build_split (Wallet idx big) big rem fee 0 []) else (rem, [])
      | None \<Rightarrow> (rem, [])"
    let ?current = "map (\<lambda>(i, v). Wallet i v) ?notes"
    obtain rem1 ls1 where one: "?split = (rem1, ls1)" by (cases ?split)
    from assms ex False one obtain ls where ls: "greedy_layers fee rem1 ?current ls1 = Inr ls"
      and plan: "plan = \<lparr>pp_layers = relabel_unspent (residual_loop fee ls), pp_direct_funding = direct\<rparr>"
      by (auto simp: plan_preparation_greedy_def greedy_plan_def res_simps Let_def)
    have start: "build_ok av used fee ls1 \<and> mset rem = mset rem1 + mset (funding_of ls1)
        \<and> (rem1 \<noteq> [] \<longrightarrow> ls1 = [])"
    proof (cases "\<exists>idx big. max_by_value ?notes = Some (idx, big) \<and> snd (subtree_cost rem fee) \<le> big")
      case True
      then obtain idx big where m: "max_by_value ?notes = Some (idx, big)" "snd (subtree_cost rem fee) \<le> big" by blast
      from max_by_value_props[OF m(1)] have "ref_ok av used [] 0 (Wallet idx big)"
        by (auto simp: unused_notes_mem)
      with build_split_ok[of av used fee "[]" "Wallet idx big" rem] m one
      show ?thesis by auto
    next
      case False
      then have "?split = (rem, [])" by (auto split: option.splits)
      with one show ?thesis by simp
    qed
    have "pool_ok av used [] ?current" by (rule wallet_pool_ok) (simp_all add: distinct_unused_notes)
    with start have "rem1 \<noteq> [] \<Longrightarrow> pool_ok av used ls1 ?current" by simp
    from greedy_layers_result[OF ls _ this] start
    have "build_ok av used fee ls" "mset (funding_of ls) = mset rem" by auto
    with residual_loop_result[of av used fee ls]
    have res: "build_ok av used fee (residual_loop fee ls)" "mset (funding_of (residual_loop fee ls)) = mset rem"
      "length (unconsumed_feeders (residual_loop fee ls)) \<le> 1
       \<or> (\<forall>inp \<in> set (unconsumed_feeders (residual_loop fee ls)). in_value inp \<le> fee)"
      by auto
    from relabelled_plan[OF res(1) ex_spec(1)] res(2,3) msum plan show ?thesis
      by (auto simp: plan_result_def residual_count_def)
  qed
qed

section \<open>Results of the fallback\<close>

lemma open_count_feeders:
  assumes ok: "layers_ok av used fee ls"
  shows "open_count ls = int (length (unconsumed_feeders ls))"
proof -
  define I where "I = {c. \<exists>v. output_at ls c = Some (Intermediate v)}"
  have mf: "List.map_filter intermediate_value (map snd xs) = map (out_value \<circ> snd) (filter (\<lambda>x. intermediate_value (snd x) \<noteq> None) xs)"
    for xs :: "((nat \<times> nat \<times> nat) \<times> prep_output) list"
  proof (induction xs)
    case (Cons x xs)
    then show ?case by (cases "snd x") (auto simp: map_filter_Cons)
  qed simp
  let ?F = "filter (\<lambda>x. intermediate_value (snd x) \<noteq> None) (coord_outputs ls)"
  have inter: "intermediate_value out \<noteq> None \<longleftrightarrow> (\<exists>v. out = Intermediate v)" for out by (cases out) auto
  have "distinct (map fst ?F)" using distinct_coord_outputs by (rule distinct_map_filter)
  then have "length ?F = card (fst ` set ?F)" using distinct_card[of "map fst ?F"] by simp
  moreover have FI: "fst ` set ?F = I"
  proof (rule set_eqI)
    fix c
    have "c \<in> fst ` set ?F \<longleftrightarrow> (\<exists>out. (c, out) \<in> set (coord_outputs ls) \<and> intermediate_value out \<noteq> None)"
      by force
    then show "c \<in> fst ` set ?F \<longleftrightarrow> c \<in> I" unfolding inter set_coord_outputs I_def by blast
  qed
  ultimately have I: "length (List.map_filter intermediate_value (concat (map pt_outputs (concat ls)))) = card I"
    by (simp add: mf flip: map_snd_coord_outputs)
  have fin: "finite I" unfolding FI[symmetric] by simp
  have sub: "set (spent_coords ls) \<subseteq> I"
  proof
    fix c assume "c \<in> set (spent_coords ls)"
    then obtain l t k where "c = (l, t, k)" "Inr (l, t, k) \<in> set (map coord (all_inputs ls))"
      using spent_coords_iff by (metis prod_cases3)
    with refs_ok_prior_layer ok show "c \<in> I" unfolding I_def layers_ok_def by blast
  qed
  have "distinct (spent_coords ls)"
  proof -
    have "distinct (map coord xs) \<Longrightarrow> distinct (List.map_filter prior_coord xs)" for xs
    proof (induction xs)
      case (Cons x xs)
      have "c \<in> set (List.map_filter prior_coord xs) \<longleftrightarrow> Inr c \<in> coord ` set xs" for c
        by (force simp: set_map_filter simp flip: coord_Inr_iff)
      with Cons show ?case by (cases x) (auto simp: map_filter_Cons)
    qed simp
    then show ?thesis using ok by (simp add: spent_coords_def layers_ok_def)
  qed
  then have "length (spent_coords ls) = card (set (spent_coords ls))" by (simp add: distinct_card)
  moreover have "open_coords ls = I - set (spent_coords ls)" by (auto simp: open_coords_def I_def)
  ultimately show ?thesis
    using sub fin by (simp add: open_count_def I length_unconsumed_feeders card_Diff_subset finite_subset card_mono)
qed

abbreviation prior_count :: "prep_input list \<Rightarrow> nat" where
  "prior_count xs \<equiv> length (List.map_filter prior_coord xs)"

lemma open_count_snoc:
  "open_count (ls @ [txs]) = open_count ls
     + int (length (List.map_filter intermediate_value (concat (map pt_outputs txs)))) - int (prior_count (layer_inputs txs))"
  by (simp add: open_count_def spent_coords_snoc layer_inputs_def)

lemma consolidate_all_result:
  assumes "consolidate_all fee current ls = Inr (current', ls')" and "build_ok av used fee ls"
    and "pool_ok av used ls current" and "open_count ls = int (prior_count current)" and "current \<noteq> []"
  shows "build_ok av used fee ls' \<and> pool_ok av used ls' current' \<and> mset (funding_of ls') = mset (funding_of ls)
    \<and> length current' = 1 \<and> open_count ls' = int (prior_count current')"
  using assms
proof (induction fee current ls rule: consolidate_all.induct)
  case (1 fee current ls)
  show ?case
  proof (cases "length current \<le> 1")
    case True
    with "1.prems"(1) have "current' = current" "ls' = ls" by (simp_all add: consolidate_all.simps[of fee current])
    moreover have "length current = 1" using True "1.prems"(5) by (cases current) auto
    ultimately show ?thesis using "1.prems" by simp
  next
    case False
    obtain lo txs nxt where con: "consolidate current (length ls) fee [] [] = (lo, txs, nxt)" by (metis prod_cases3)
    with "1.prems"(1) False have txs: "txs \<noteq> []" and rec: "consolidate_all fee (nxt @ lo) (ls @ [txs]) = Inr (current', ls')"
      by (auto simp: consolidate_all.simps[of fee current] Let_def split: if_splits)
    from consolidate_spec[OF con] have new:
      "\<forall>tx \<in> set txs. tx_ok fee tx \<and> 2 \<le> length (pt_inputs tx) \<and> (\<exists>v > 0. pt_outputs tx = [Intermediate v])"
      "mset (lo @ layer_inputs txs) = mset current" "length nxt = length txs" "next_ok (length ls) txs nxt"
      unfolding consolidated_def by auto
    note inter = layer_funding_intermediates[of txs]
    have sub: "mset (layer_inputs txs) \<subseteq># mset current" using new(2) by (simp flip: new(2))
    have ok: "\<forall>tx \<in> set txs. tx_ok fee tx \<and> (\<forall>out \<in> set (pt_outputs tx). change_value out = None)"
      using new(1) inter(2) by auto
    note snoc = build_ok_snoc[OF "1.prems"(2,3) ok sub txs]
    have pool: "pool_ok av used (ls @ [txs]) (nxt @ lo)"
      using new(2,4) by (intro snoc(2)) (simp_all add: union_commute flip: new(2))
    have "length (List.map_filter intermediate_value (concat (map pt_outputs ts))) = length ts"
      if "\<forall>tx \<in> set ts. \<exists>v > 0. pt_outputs tx = [Intermediate v]" for ts
      using that by (induction ts) (auto simp: map_filter_Cons)
    from this[of txs] new(1) have outs:
      "length (List.map_filter intermediate_value (concat (map pt_outputs txs))) = length txs" by blast
    have "prior_count xs = length xs" if "\<forall>inp \<in> set xs. \<exists>t k v. inp = Prior (length ls) t k v" for xs
      using that by (induction xs) (auto simp: map_filter_Cons)
    from this[of nxt] new(4) have nx: "prior_count nxt = length nxt" unfolding next_ok_def by blast
    have "prior_count lo + prior_count (layer_inputs txs) = prior_count current"
      using map_filter_cong_mset[OF new(2), of prior_coord, THEN length_mset_cong] by simp
    then have "open_count (ls @ [txs]) = int (prior_count (nxt @ lo))"
      using "1.prems"(4) outs nx new(3) by (simp add: open_count_snoc)
    moreover have "nxt @ lo \<noteq> []" using new(3) txs by auto
    ultimately show ?thesis
      using "1.IH"[OF False con[symmetric] refl refl refl txs rec snoc(1) pool] inter(1) new(1) by simp
  qed
qed

lemma via_consolidation_result:
  assumes "plan_preparation_via_consolidation av funding fee = Inr plan"
  shows "plan_result av funding fee plan" and "residual_count plan \<le> 1"
proof -
  let ?pos = "filter (\<lambda>v. 0 < v) funding"
  obtain rem used direct where ex: "extract_direct_funding av (sort_desc ?pos) = (rem, used, direct)"
    by (metis prod_cases3)
  note ex_spec = extract_direct_funding_spec[OF ex]
  have msum: "mset ?pos = mset rem + mset (map snd direct)" using ex_spec(2) by simp
  have "plan_result av funding fee plan \<and> residual_count plan \<le> 1"
  proof (cases "rem = []")
    case True
    with assms ex have "plan = \<lparr>pp_layers = [], pp_direct_funding = direct\<rparr>"
      by (auto simp: plan_preparation_via_consolidation_def consolidating_plan_def res_simps Let_def)
    with empty_plan[OF ex_spec(1)] msum True show ?thesis by (simp add: plan_result_def residual_count_def)
  next
    case False
    let ?notes = "filter (\<lambda>(i, v). 0 < v) (unused_notes av used)"
    let ?current = "map (\<lambda>(i, v). Wallet i v) ?notes"
    from assms ex False obtain current ls where all: "?current \<noteq> []" "consolidate_all fee ?current [] = Inr (current, ls)"
      and cost: "snd (subtree_cost rem fee) \<le> in_value (last current)"
      and plan: "plan = \<lparr>pp_layers = relabel_unspent (build_split (last current) (in_value (last current)) rem fee (length ls) ls),
        pp_direct_funding = direct\<rparr>"
      by (auto simp: plan_preparation_via_consolidation_def consolidating_plan_def res_simps Let_def not_less split: if_splits)
    have pool: "pool_ok av used [] ?current"
      by (rule wallet_pool_ok) (auto simp: distinct_unused_notes intro: distinct_map_filter)
    have "prior_count ?current = 0"
      by (induction ?notes) (auto simp: map_filter_Cons map_filter_def)
    then have "open_count [] = int (prior_count ?current)" by (simp add: open_count_def spent_coords_def)
    from consolidate_all_result[OF all(2) build_ok_Nil pool this all(1)]
    have res: "build_ok av used fee ls" "pool_ok av used ls current" "mset (funding_of ls) = {#}"
      "length current = 1" "open_count ls = int (prior_count current)"
      by simp_all
    from res(4) obtain src where src: "current = [src]" by (cases current) auto
    have ref: "ref_ok av used ls (length ls) src" "coord src \<notin> spent_set ls"
      using res(2) by (auto simp: src pool_ok_def spent_set_def)
    let ?ls = "build_split src (in_value src) rem fee (length ls) ls"
    have split: "build_ok av used fee ?ls" "mset (funding_of ?ls) = mset rem" "open_count ?ls \<le> 1"
      using build_split_ok[OF res(1) ref, of rem] cost res(3,5) by (auto simp: src map_filter_Cons split: option.splits)
    then have "length (unconsumed_feeders ?ls) \<le> 1"
      using open_count_feeders[of av used fee ?ls] by (simp add: build_ok_def)
    with relabelled_plan[OF split(1) ex_spec(1)] split(2) msum plan src show ?thesis
      by (auto simp: plan_result_def residual_count_def)
  qed
  then show "plan_result av funding fee plan" "residual_count plan \<le> 1" by simp_all
qed

lemma plan_preparation_result:
  assumes "plan_preparation av funding fee = Inr plan"
  shows "plan_result av funding fee plan"
  using assms greedy_result via_consolidation_result(1)
  by (auto simp: plan_preparation_def split: sum.splits prep_error.splits)

end
