(* ===== verification/Prep_Props.thy ===== *)
theory Prep_Props
  imports Prep_Planner
begin

text \<open>
  The properties of the note-preparation planner: every plan it returns can be executed against
  the wallet, mints exactly the requested notes, conserves value, stays within the money supply
  and leaves at most one residual note worth a fee; when it fails and how deep its trees are.
\<close>

section \<open>Conservation over finished layers\<close>

lemma output_total_split:
  "output_total outs = sum_list (List.map_filter funding_value outs)
     + sum_list (List.map_filter intermediate_value outs) + sum_list (List.map_filter change_value outs)"
proof (induction outs)
  case (Cons out outs)
  then show ?case by (cases out) (auto simp: map_filter_Cons)
qed simp

lemma plan_conservation:
  assumes "plan_ok av fee plan"
  shows "input_total (wallet_inputs (pp_layers plan))
    = sum_list (funding_of (pp_layers plan)) + sum_list (residual_notes plan) + fee * transaction_count plan"
proof -
  let ?ls = "pp_layers plan"
  from assms have ok: "layers_ok av (direct_marks av (pp_direct_funding plan)) fee ?ls" and "no_dangling ?ls"
    by (auto simp: plan_ok_def)
  then have "input_total (prior_inputs ?ls)
      = sum_list (List.map_filter intermediate_value (concat (map pt_outputs (concat ?ls))))"
    using prior_total_eq unfolding layers_ok_def by blast
  moreover have "input_total (all_inputs ?ls) = input_total (wallet_inputs ?ls) + input_total (prior_inputs ?ls)"
    using input_total_filter[of "\<lambda>inp. prior_coord inp = None" "all_inputs ?ls"] by simp
  ultimately show ?thesis
    using layers_total[OF ok] output_total_split[of "concat (map pt_outputs (concat ?ls))"]
    by (simp add: funding_of_def residual_notes_def all_outputs_def transaction_count_def length_concat)
qed

lemma length_direct_marks [simp]: "length (direct_marks av direct) = length av"
  by (simp add: direct_marks_def)

lemma direct_total:
  assumes "direct_ok av used direct"
  shows "sum_list (map snd direct) = sum_list (map (\<lambda>i. if used ! i then av ! i else 0) [0..<length av])"
proof -
  have d: "distinct (map fst direct)" and v: "\<forall>(i, v) \<in> set direct. i < length av \<and> av ! i = v"
    and u: "\<forall>i < length av. used ! i \<longleftrightarrow> i \<in> fst ` set direct"
    using assms by (auto simp: direct_ok_def)
  have "map snd direct = map ((!) av) (map fst direct)" using v by auto
  then have "sum_list (map snd direct) = (\<Sum>i \<in> fst ` set direct. av ! i)"
    using d by (metis set_map sum_list_distinct_conv_sum_set)
  also have "\<dots> = (\<Sum>i \<in> fst ` set direct. if used ! i then av ! i else 0)"
    by (rule sum.cong[OF refl]) (use u v in force)
  also have "\<dots> = (\<Sum>i \<in> {..<length av}. if used ! i then av ! i else 0)"
    by (rule sum.mono_neutral_left) (use u v in auto)
  finally show ?thesis by (simp add: sum_list_distinct_conv_sum_set atLeast0LessThan)
qed

lemma plan_wallet_total:
  assumes "plan_ok av fee plan"
  shows "input_total (wallet_inputs (pp_layers plan)) + sum_list (map snd (pp_direct_funding plan)) \<le> sum_list av"
proof -
  let ?used = "direct_marks av (pp_direct_funding plan)"
  from assms have ok: "layers_ok av ?used fee (pp_layers plan)" and d: "direct_ok av ?used (pp_direct_funding plan)"
    by (auto simp: plan_ok_def)
  have "input_total (wallet_inputs (pp_layers plan)) + sum_list (map snd (pp_direct_funding plan))
    \<le> sum_list (map (\<lambda>i. if ?used ! i then 0 else av ! i) [0..<length av])
      + sum_list (map (\<lambda>i. if ?used ! i then av ! i else 0) [0..<length av])"
    using wallet_total_le[OF ok] direct_total[OF d] by simp
  also have "\<dots> = sum_list (map (\<lambda>i. av ! i) [0..<length av])"
    unfolding sum_list_addf[symmetric] by (rule arg_cong[of _ _ sum_list]) simp
  finally show ?thesis by (simp add: map_nth)
qed

lemma greedy_layers_error: "greedy_layers fee rem current ls = Inl e \<Longrightarrow> e = InsufficientFunds"
proof (induction fee rem current ls rule: greedy_layers.induct)
  case (1 fee rem current ls)
  obtain rem' txs nxt where step: "greedy_step fee rem current (length ls) = (rem', txs, nxt)"
    by (metis prod_cases3)
  with 1 show ?case
    by (cases "rem = []"; cases "current = []"; cases "txs = []")
      (auto simp: greedy_layers.simps[of fee rem] greedy_layers.simps[of fee "[]"])
qed

lemma consolidate_all_error: "consolidate_all fee current ls = Inl e \<Longrightarrow> e = InsufficientFunds"
proof (induction fee current ls rule: consolidate_all.induct)
  case (1 fee current ls)
  obtain lo txs nxt where "consolidate current (length ls) fee [] [] = (lo, txs, nxt)" by (metis prod_cases3)
  with 1 show ?case
    by (cases "length current \<le> 1"; cases "txs = []") (auto simp: consolidate_all.simps[of fee current])
qed

lemma greedy_plan_error: "greedy_plan av funding fee = Inl e \<Longrightarrow> e = InsufficientFunds"
  by (auto simp: greedy_plan_def res_bind_Inl_iff Let_def dest: greedy_layers_error split: prod.splits if_splits)

lemma consolidating_plan_error: "consolidating_plan av funding fee = Inl e \<Longrightarrow> e = InsufficientFunds"
  by (auto simp: consolidating_plan_def res_bind_Inl_iff Let_def dest: consolidate_all_error
      split: prod.splits if_splits)

lemma plan_preparation_totals:
  assumes "plan_preparation av funding fee = Inr plan"
  shows "sum_list av \<le> MAX_MONEY" and "sum_list funding \<le> MAX_MONEY"
proof -
  have "sum_list av \<le> MAX_MONEY \<and> sum_list funding \<le> MAX_MONEY"
  proof (cases "plan_preparation_greedy av funding fee")
    case (Inl e)
    with assms have "plan_preparation_via_consolidation av funding fee = Inr plan"
      by (auto simp: plan_preparation_def split: prep_error.splits)
    then show ?thesis
      by (auto simp: plan_preparation_via_consolidation_def res_simps sum_zatoshis_eq checked_simps)
  next
    case (Inr p)
    then show ?thesis by (auto simp: plan_preparation_greedy_def res_simps sum_zatoshis_eq checked_simps)
  qed
  then show "sum_list av \<le> MAX_MONEY" "sum_list funding \<le> MAX_MONEY" by simp_all
qed

lemma plan_preparation_fits:
  assumes "plan_preparation av funding fee = Inr plan"
  shows "sum_list funding + sum_list (residual_notes plan) + fee * transaction_count plan \<le> sum_list av"
proof -
  from plan_preparation_result[OF assms] have ok: "plan_ok av fee plan"
    and m: "mset (funding_notes plan) = mset (filter (\<lambda>v. 0 < v) funding)" by (auto simp: plan_result_def)
  then have funds: "sum_list (funding_of (pp_layers plan)) + sum_list (map snd (pp_direct_funding plan)) = sum_list funding"
    using sum_list_mset_cong[OF m]
    by (simp add: funding_notes_def all_outputs_def funding_of_def sum_list_filter_pos)
  have "input_total (wallet_inputs (pp_layers plan)) + sum_list (map snd (pp_direct_funding plan)) \<le> sum_list av"
    using ok by (rule plan_wallet_total)
  with plan_conservation[OF ok] funds show ?thesis by simp
qed

section \<open>Properties\<close>

text \<open>
  Every transaction of a returned plan spends at least one note, stays within the sixteen
  actions of a padded preparation transaction, and its inputs carry exactly its outputs plus the fee.
\<close>

theorem plan_preparation_transactions:
  assumes "plan_preparation av funding fee = Inr plan" and "tx \<in> set (concat (pp_layers plan))"
  shows "pt_inputs tx \<noteq> [] \<and> action_count tx \<le> PREP_TX_ACTIONS
    \<and> input_total (pt_inputs tx) = output_total (pt_outputs tx) + fee"
  using plan_preparation_result[OF assms(1)] assms(2)
  unfolding plan_result_def plan_ok_def layers_ok_def tx_ok_def by blast

text \<open>
  C23: A returned plan spends no note twice, spends only wallet notes that exist with the stated
  value and are not direct funding notes, and every other input is an intermediate output of a
  strictly earlier layer with the stated value, so the layers can be broadcast in order.
\<close>

theorem plan_preparation_references:
  assumes "plan_preparation av funding fee = Inr plan" and "n < length (pp_layers plan)"
    and "tx \<in> set (pp_layers plan ! n)" and "inp \<in> set (pt_inputs tx)"
  shows "distinct (map coord (all_inputs (pp_layers plan))) \<and>
    (case inp of
       Wallet i v \<Rightarrow> i < length av \<and> av ! i = v \<and> i \<notin> fst ` set (pp_direct_funding plan)
     | Prior l t k v \<Rightarrow> l < n \<and> output_at (pp_layers plan) (l, t, k) = Some (Intermediate v))"
proof -
  let ?used = "direct_marks av (pp_direct_funding plan)"
  from plan_preparation_result[OF assms(1)] have ok: "layers_ok av ?used fee (pp_layers plan)"
    by (simp add: plan_result_def plan_ok_def)
  with assms(2-) have "ref_ok av ?used (pp_layers plan) n inp" by (auto simp: layers_ok_def refs_ok_def)
  then show ?thesis
    using ok by (cases inp) (force simp: layers_ok_def direct_marks_def)+
qed

text \<open>
  C17: The funding notes of a returned plan, minted or taken directly from the wallet, are
  exactly the requested positive values, as a multiset; the direct ones are distinct wallet notes of
  the stated value.
\<close>

theorem plan_preparation_funding:
  assumes "plan_preparation av funding fee = Inr plan"
  shows "mset (funding_notes plan) = mset (filter (\<lambda>v. 0 < v) funding)
    \<and> distinct (map fst (pp_direct_funding plan))
    \<and> list_all (\<lambda>(i, v). i < length av \<and> av ! i = v) (pp_direct_funding plan)"
  using plan_preparation_result[OF assms]
  by (auto simp: plan_result_def plan_ok_def direct_ok_def list_all_iff)

text \<open>
  C8: A returned plan conserves value end to end: the wallet notes it spends carry exactly the
  funding notes it mints, its residual notes and one fee per transaction. Together with the direct
  notes, the residual is what remains of the wallet notes that it touches.
\<close>

theorem plan_preparation_conservation:
  assumes "plan_preparation av funding fee = Inr plan"
  shows "input_total (wallet_inputs (pp_layers plan)) + sum_list (map snd (pp_direct_funding plan))
    = sum_list funding + sum_list (residual_notes plan) + fee * transaction_count plan"
proof -
  from plan_preparation_result[OF assms] have ok: "plan_ok av fee plan"
    and "mset (funding_notes plan) = mset (filter (\<lambda>v. 0 < v) funding)" by (auto simp: plan_result_def)
  from this(2) have "sum_list (funding_of (pp_layers plan)) + sum_list (map snd (pp_direct_funding plan)) = sum_list funding"
    using sum_list_mset_cong[of "funding_notes plan" "filter (\<lambda>v. 0 < v) funding"]
    by (simp add: funding_notes_def all_outputs_def funding_of_def sum_list_filter_pos)
  with plan_conservation[OF ok] show ?thesis by simp
qed

text \<open>
  A returned plan leaves at most one residual note, unless every residual note is worth no
  more than a fee and combining them could not pay for itself; and every intermediate output is
  spent, so nothing is left dangling between layers.
\<close>

theorem plan_preparation_residual:
  assumes "plan_preparation av funding fee = Inr plan"
  shows "(1 < residual_count plan \<longrightarrow> list_all (\<lambda>v. v \<le> fee) (residual_notes plan))
    \<and> no_dangling (pp_layers plan) \<and> [] \<notin> set (pp_layers plan)"
  using plan_preparation_result[OF assms] by (auto simp: plan_result_def plan_ok_def list_all_iff)

text \<open>
  Every value that a returned plan mentions is at most the money supply, so the conversion
  \<open>zat\<close> of every planned value succeeds: an input, an output and a direct funding note are each
  bounded by the validated total of the available notes.
\<close>

theorem plan_preparation_values:
  assumes "plan_preparation av funding fee = Inr plan" and "tx \<in> set (concat (pp_layers plan))"
  shows "(inp \<in> set (pt_inputs tx) \<longrightarrow> zatoshis_from_u64 (in_value inp) = Some (in_value inp))
    \<and> (out \<in> set (pt_outputs tx) \<longrightarrow> zatoshis_from_u64 (out_value out) = Some (out_value out))"
proof -
  from plan_preparation_result[OF assms(1)]
  have ok: "layers_ok av (direct_marks av (pp_direct_funding plan)) fee (pp_layers plan)"
    by (simp add: plan_result_def plan_ok_def)
  then have tx: "tx_ok fee tx" using assms(2) by (auto simp: layers_ok_def)
  have total: "input_total (pt_inputs tx) \<le> MAX_MONEY"
    using tx_total_le[OF ok _ assms(2)] plan_preparation_totals(1)[OF assms(1)] by simp
  have "out_value out \<le> output_total (pt_outputs tx)" if "out \<in> set (pt_outputs tx)"
    using that unfolding output_total_def by (simp add: member_le_sum_list)
  then show ?thesis
    using total tx in_value_le_input_total[of inp "pt_inputs tx"]
    by (auto simp: zatoshis_from_u64_def tx_ok_def)
qed


text \<open>
  A returned plan is affordable: the requested values, the residual notes and one fee per
  transaction fit into the available notes.
\<close>

theorem plan_preparation_affordable:
  assumes "plan_preparation av funding fee = Inr plan"
  shows "sum_list funding + sum_list (residual_notes plan) + fee * transaction_count plan \<le> sum_list av"
  using assms by (rule plan_preparation_fits)

text \<open>
  The planner fails with \<open>BalanceInvalid\<close> exactly when one of the two totals exceeds the money
  supply; every other failure is \<open>InsufficientFunds\<close>.
\<close>

theorem plan_preparation_balance_invalid:
  "plan_preparation av funding fee = Inl BalanceInvalid
     \<longleftrightarrow> MAX_MONEY < sum_list av \<or> MAX_MONEY < sum_list funding"
  using greedy_plan_error[of av funding fee] consolidating_plan_error[of av funding fee]
  by (auto simp: plan_preparation_eq split: sum.splits prep_error.splits)

text \<open>
  When one unused wallet note can pay for the whole split of the values that no note matches
  exactly, the planner succeeds with the balanced tree: its layers number \<open>split_depth\<close> of the
  value count, its transactions are those of \<open>subtree_cost\<close>, and at most one residual note remains.
\<close>

theorem plan_preparation_single_note:
  assumes totals: "sum_list av \<le> MAX_MONEY" "sum_list funding \<le> MAX_MONEY"
    and ex: "extract_direct_funding av (sort_desc (filter (\<lambda>v. 0 < v) funding)) = (rem, used, direct)"
    and rem: "rem \<noteq> []" and unused: "(i, v) \<in> set (unused_notes av used)"
    and cost: "snd (subtree_cost rem fee) \<le> v"
  shows "\<exists>plan. plan_preparation av funding fee = Inr plan \<and> pp_direct_funding plan = direct
    \<and> layer_count plan = split_depth (length rem)
    \<and> transaction_count plan = fst (subtree_cost rem fee) \<and> residual_count plan \<le> 1"
proof -
  note ex_spec = extract_direct_funding_spec[OF ex]
  obtain idx big where m: "max_by_value (unused_notes av used) = Some (idx, big)"
    using unused by (metis empty_iff list.set(1) max_by_value_None not_None_eq surj_pair)
  note max = max_by_value_props[OF m]
  then have "v \<le> big" using unused by fastforce
  with cost have big: "snd (subtree_cost rem fee) \<le> big" by simp
  have ref: "ref_ok av used [] 0 (Wallet idx big)" using max by (simp add: unused_notes_mem)
  let ?ls = "build_split (Wallet idx big) big rem fee 0 []"
  have split: "build_ok av used fee ?ls" "length (concat ?ls) = fst (subtree_cost rem fee)" "open_count ?ls \<le> 1"
    using build_split_ok[of av used fee "[]" "Wallet idx big" rem] ref big
    by (simp_all add: open_count_def spent_coords_def)
  then have few: "length (unconsumed_feeders ?ls) \<le> 1"
    using open_count_feeders[of av used fee ?ls] by (simp add: build_ok_def)
  then have "residual_loop fee ?ls = ?ls" by (simp add: residual_loop.simps[of fee ?ls])
  with ex rem m big have "greedy_plan av funding fee
      = Inr \<lparr>pp_layers = relabel_unspent ?ls, pp_direct_funding = direct\<rparr>" (is "_ = Inr ?plan")
    by (simp add: greedy_plan_def greedy_layers.simps[of fee "[]"])
  with totals have plan: "plan_preparation av funding fee = Inr ?plan" by (simp add: plan_preparation_eq)
  have "map length (relabel_unspent ?ls) = map length ?ls"
    by (rule nth_equalityI) (auto simp: relabel_shape)
  then have "transaction_count ?plan = fst (subtree_cost rem fee)"
    using split(2) by (simp add: transaction_count_def length_concat)
  moreover have "layer_count ?plan = split_depth (length rem)"
    using length_build_split[OF rem, of "Wallet idx big" big fee 0 "[]"]
    by (simp add: layer_count_def relabel_shape)
  moreover have "residual_count ?plan \<le> 1"
    using relabelled_plan(3)[OF split(1) ex_spec(1)] few by (simp add: residual_count_def)
  ultimately show ?thesis using plan by (intro exI[of _ ?plan]) simp
qed

text \<open>
  The cost of a split tree is its targets plus one fee per transaction, for at most twice as
  many transactions as targets; for up to 4,096 targets within the money supply neither the sum
  nor any intermediate sum of \<open>subtree_cost\<close> leaves 64 bits.
\<close>

theorem subtree_cost_no_overflow:
  assumes "targets \<noteq> []" and "length targets \<le> 4096" and "sum_list targets \<le> MAX_MONEY" and "fee \<le> MAX_MONEY"
  shows "snd (subtree_cost targets fee) = sum_list targets + fee * fst (subtree_cost targets fee)
    \<and> fst (subtree_cost targets fee) < 2 * length targets \<and> snd (subtree_cost targets fee) < 2 ^ 64"
proof -
  have txs: "fst (subtree_cost targets fee) + 1 \<le> 2 * length targets"
    using subtree_cost_txs_bound[OF assms(1)] .
  then have "fee * fst (subtree_cost targets fee) \<le> MAX_MONEY * 8191"
    using assms(2,4) by (intro mult_mono) auto
  with assms(3) have "sum_list targets + fee * fst (subtree_cost targets fee) < 2 ^ 64"
    by (simp add: MAX_MONEY_def)
  with txs show ?thesis by (simp add: subtree_cost_value)
qed

text \<open>
  The consolidating fallback leaves at most one residual note whatever the fee, and meets the
  same contract as the greedy plan.
\<close>

theorem fallback_single_residual:
  assumes "plan_preparation_via_consolidation av funding fee = Inr plan"
  shows "plan_ok av fee plan \<and> residual_count plan \<le> 1
    \<and> mset (funding_notes plan) = mset (filter (\<lambda>v. 0 < v) funding)"
  using via_consolidation_result[OF assms] by (auto simp: plan_result_def)

text \<open>
  C36: The fallback is not complete. With fifteen notes of 10 and one note of 1, a target of 148 and
  a fee of 1, consolidating the fifteen notes and splitting funds the target, yet the planner
  reports insufficient funds, because it consolidates the dust note as well and pays a fee for it.
\<close>

theorem plan_preparation_incomplete:
  "plan_preparation (replicate 15 10 @ [1]) [148] 1 = Inl InsufficientFunds
   \<and> (\<exists>plan. plan_ok (replicate 15 10 @ [1]) 1 plan \<and> funding_notes plan = [148])"
proof -
  have "greedy_plan (replicate 15 10 @ [1]) [148] 1 = Inl InsufficientFunds"
    "consolidating_plan (replicate 15 10 @ [1]) [148] 1 = Inl InsufficientFunds"
    by code_simp+
  then have "plan_preparation (replicate 15 10 @ [1]) [148] 1 = Inl InsufficientFunds"
    by (simp add: plan_preparation_eq MAX_MONEY_def sum_list_replicate)
  moreover have "plan_ok (replicate 15 10 @ [1]) 1
      \<lparr>pp_layers = [[\<lparr>pt_inputs = map (\<lambda>i. Wallet i 10) [0..<15], pt_outputs = [Intermediate 149]\<rparr>],
         [\<lparr>pt_inputs = [Prior 0 0 0 149], pt_outputs = [Funding 148]\<rparr>]], pp_direct_funding = []\<rparr>
    \<and> funding_notes
      \<lparr>pp_layers = [[\<lparr>pt_inputs = map (\<lambda>i. Wallet i 10) [0..<15], pt_outputs = [Intermediate 149]\<rparr>],
         [\<lparr>pt_inputs = [Prior 0 0 0 149], pt_outputs = [Funding 148]\<rparr>]], pp_direct_funding = []\<rparr> = [148]"
    by code_simp
  ultimately show ?thesis by blast
qed


section \<open>Witnesses\<close>

text \<open>
  The example of the source's own test: three notes of 100 fund 100 directly and 150 through a
  consolidation, leaving 30.
\<close>

definition example_plan :: preparation_plan where
  "example_plan = \<lparr>pp_layers =
      [[\<lparr>pt_inputs = [Wallet 1 100, Wallet 2 100], pt_outputs = [Intermediate 190]\<rparr>],
       [\<lparr>pt_inputs = [Prior 0 0 0 190], pt_outputs = [Funding 150, Change 30]\<rparr>]],
     pp_direct_funding = [(0, 100)]\<rparr>"

lemma example_run: "plan_preparation [100, 100, 100] [100, 150] 10 = Inr example_plan"
proof -
  have "greedy_plan [100, 100, 100] [100, 150] 10 = Inr example_plan"
    unfolding example_plan_def by code_simp
  then show ?thesis by (simp add: plan_preparation_eq MAX_MONEY_def)
qed

lemma example_fallback:
  "plan_preparation_via_consolidation [100, 100, 100] [100, 150] 10 = Inr example_plan"
proof -
  have "consolidating_plan [100, 100, 100] [100, 150] 10 = Inr example_plan"
    unfolding example_plan_def by code_simp
  then show ?thesis
    by (simp add: plan_preparation_via_consolidation_def sum_zatoshis_eq zatoshis_from_u64_def MAX_MONEY_def)
qed

abbreviation "example_tx \<equiv> \<lparr>pt_inputs = [Prior 0 0 0 190], pt_outputs = [Funding 150, Change 30]\<rparr>"

theorem plan_preparation_transactions_witness:
  "action_count example_tx \<le> PREP_TX_ACTIONS
   \<and> input_total (pt_inputs example_tx) = output_total (pt_outputs example_tx) + 10"
  using plan_preparation_transactions[OF example_run, of example_tx] by (simp add: example_plan_def)

theorem plan_preparation_references_witness:
  "distinct (map coord (all_inputs (pp_layers example_plan)))
   \<and> output_at (pp_layers example_plan) (0, 0, 0) = Some (Intermediate 190)"
  using plan_preparation_references[OF example_run, of 1 example_tx "Prior 0 0 0 190"]
  by (simp add: example_plan_def)

theorem plan_preparation_funding_witness:
  "mset (funding_notes example_plan) = {#100, 150#}"
  using plan_preparation_funding[OF example_run] by simp

theorem plan_preparation_conservation_witness:
  "input_total (wallet_inputs (pp_layers example_plan)) + 100 = 250 + 30 + 10 * transaction_count example_plan"
  using plan_preparation_conservation[OF example_run]
  by (simp add: example_plan_def residual_notes_def all_outputs_def map_filter_Cons)

theorem plan_preparation_residual_witness: "no_dangling (pp_layers example_plan)"
  using plan_preparation_residual[OF example_run] by simp

theorem plan_preparation_values_witness: "zatoshis_from_u64 190 = Some 190"
  using plan_preparation_values[OF example_run, of example_tx "Prior 0 0 0 190" "Change 30"]
  by (simp add: example_plan_def)

theorem plan_preparation_affordable_witness:
  "250 + sum_list (residual_notes example_plan) + 10 * transaction_count example_plan \<le> 300"
  using plan_preparation_affordable[OF example_run] by simp

theorem plan_preparation_single_note_witness:
  "\<exists>plan. plan_preparation [500] [100, 150] 10 = Inr plan \<and> layer_count plan = 1 \<and> transaction_count plan = 1"
proof -
  have ex: "extract_direct_funding [500] (sort_desc (filter (\<lambda>v. 0 < v) [100, 150])) = ([150, 100], [False], [])"
    by code_simp
  have un: "(0, 500) \<in> set (unused_notes [500] [False])" by (simp add: unused_notes_mem)
  have sd: "split_depth (length [150, 100 :: nat]) = 1" by code_simp
  have cost: "subtree_cost [150, 100] 10 = (1, 260)" by code_simp
  obtain plan where "plan_preparation [500] [100, 150] 10 = Inr plan \<and> pp_direct_funding plan = []
     \<and> layer_count plan = split_depth (length [150, 100 :: nat])
     \<and> transaction_count plan = fst (subtree_cost [150, 100] 10) \<and> residual_count plan \<le> 1"
    using plan_preparation_single_note[OF _ _ ex _ un, of 10] by (auto simp: MAX_MONEY_def cost)
  then show ?thesis using sd cost by auto
qed

theorem subtree_cost_no_overflow_witness:
  "snd (subtree_cost [150, 100] 10) = 250 + 10 * fst (subtree_cost [150, 100] 10)
   \<and> snd (subtree_cost [150, 100] 10) < 2 ^ 64"
  using subtree_cost_no_overflow[of "[150, 100]" 10] by (simp add: MAX_MONEY_def)

theorem fallback_single_residual_witness: "plan_ok [100, 100, 100] 10 example_plan"
  using fallback_single_residual[OF example_fallback] by simp

end
