(* ===== verification/Migration_Policy.thy ===== *)
theory Migration_Policy
  imports Prelude
begin

text \<open>
  The timing policies of the Orchard to Ironwood migration: \<open>WalletNetwork\<close> of
  wallet/network.rs, wallet/sync/migration/policy.rs and the parameter tables of
  wallet/sync/migration/preparation_policy.rs. The process-wide flag
  \<open>FAST_TESTNET_MIGRATION_ENABLED\<close> is the argument \<open>fast\<close>. The lemmas show that stored policy
  names read back to the policy that wrote them and that every pair of delay parameters can
  drive the rejection sampler (positive mean, positive maximum, mean below maximum).
\<close>

section \<open>Networks\<close>

datatype wallet_network = Net_Main | Net_Test | Net_Regtest

definition wallet_network_from_str :: "string \<Rightarrow> wallet_network option" where
  "wallet_network_from_str s =
     (if s = ''main'' then Some Net_Main
      else if s = ''test'' then Some Net_Test
      else if s = ''regtest'' then Some Net_Regtest
      else None)"

section \<open>Constants\<close>

definition ZATOSHIS_PER_ZEC :: nat where
  "ZATOSHIS_PER_ZEC = 100000000"

definition ZIP318_MAX_RESIDUAL_VALUE_ZATOSHI :: nat where
  "ZIP318_MAX_RESIDUAL_VALUE_ZATOSHI = ZATOSHIS_PER_ZEC div 100"

definition ZIP318_MAX_MIGRATION_DENOMINATION_ZATOSHI :: nat where
  "ZIP318_MAX_MIGRATION_DENOMINATION_ZATOSHI = 10000 * ZATOSHIS_PER_ZEC"

definition ZIP318_ANCHOR_BUCKET_MODULUS :: nat where
  "ZIP318_ANCHOR_BUCKET_MODULUS = 144"

definition REGTEST_ANCHOR_BUCKET_MODULUS :: nat where
  "REGTEST_ANCHOR_BUCKET_MODULUS = 1"

definition FAST_TESTNET_ANCHOR_BUCKET_MODULUS :: nat where
  "FAST_TESTNET_ANCHOR_BUCKET_MODULUS = 12"

definition ZIP318_ANCHOR_AGE_CAP :: nat where
  "ZIP318_ANCHOR_AGE_CAP = 4"

definition ZIP318_EXPIRY_MODULUS :: nat where
  "ZIP318_EXPIRY_MODULUS = 34560"

definition ZIP318_TRANSFER_DELAY :: "nat \<times> nat" where
  "ZIP318_TRANSFER_DELAY = (144, 576)"

definition NINETY_MINUTE_TRANSFER_MEAN_DELAY_BLOCKS :: nat where
  "NINETY_MINUTE_TRANSFER_MEAN_DELAY_BLOCKS = 66"

definition REGTEST_TRANSFER_DELAY :: "nat \<times> nat" where
  "REGTEST_TRANSFER_DELAY = (1, 4)"

definition FAST_TESTNET_TRANSFER_DELAY :: "nat \<times> nat" where
  "FAST_TESTNET_TRANSFER_DELAY = (12, 48)"

definition DENSE_MIGRATION_PART_THRESHOLD :: nat where
  "DENSE_MIGRATION_PART_THRESHOLD = 10"

definition MIN_IRONWOOD_MIGRATION_OUTPUT_ZATOSHI :: nat where
  "MIN_IRONWOOD_MIGRATION_OUTPUT_ZATOSHI = 1"

lemmas denomination_constants =
  ZATOSHIS_PER_ZEC_def ZIP318_MAX_RESIDUAL_VALUE_ZATOSHI_def
  ZIP318_MAX_MIGRATION_DENOMINATION_ZATOSHI_def

section \<open>Transfer timing\<close>

datatype migration_timing_policy =
    Standard | Standard90Minutes | Standard90MinutesLatestAnchor | FastTestnet

definition timing_policy_as_str :: "migration_timing_policy \<Rightarrow> string" where
  "timing_policy_as_str p = (case p of
       Standard \<Rightarrow> ''standard''
     | Standard90Minutes \<Rightarrow> ''standard_90m''
     | Standard90MinutesLatestAnchor \<Rightarrow> ''standard_90m_latest_anchor''
     | FastTestnet \<Rightarrow> ''fast_testnet'')"

definition timing_policy_from_str :: "string \<Rightarrow> migration_timing_policy outcome" where
  "timing_policy_from_str s =
     (if s = ''standard'' then Inr Standard
      else if s = ''standard_90m'' then Inr Standard90Minutes
      else if s = ''standard_90m_latest_anchor'' then Inr Standard90MinutesLatestAnchor
      else if s = ''fast_testnet'' then Inr FastTestnet
      else Inl (Message ''Unsupported migration timing policy: {value}'' [AStr s]))"

definition configured_timing_policy :: "bool \<Rightarrow> wallet_network \<Rightarrow> migration_timing_policy" where
  "configured_timing_policy fast network =
     (if network \<in> {Net_Test, Net_Regtest} \<and> fast then FastTestnet
      else if network = Net_Regtest then Standard
      else Standard90Minutes)"

definition schedule_parameters_with_policy ::
    "wallet_network \<Rightarrow> migration_timing_policy \<Rightarrow> nat \<times> nat" where
  "schedule_parameters_with_policy network policy =
     (if network = Net_Regtest \<and> policy = FastTestnet then FAST_TESTNET_TRANSFER_DELAY
      else if network = Net_Regtest then REGTEST_TRANSFER_DELAY
      else if network = Net_Test \<and> policy = FastTestnet then FAST_TESTNET_TRANSFER_DELAY
      else if policy \<in> {Standard90Minutes, Standard90MinutesLatestAnchor}
        then (NINETY_MINUTE_TRANSFER_MEAN_DELAY_BLOCKS, snd ZIP318_TRANSFER_DELAY)
      else ZIP318_TRANSFER_DELAY)"

definition schedule_parameters :: "bool \<Rightarrow> wallet_network \<Rightarrow> nat \<times> nat" where
  "schedule_parameters fast network =
     schedule_parameters_with_policy network (configured_timing_policy fast network)"

definition schedule_parameters_with_policy_for_part_count ::
    "wallet_network \<Rightarrow> migration_timing_policy \<Rightarrow> nat \<Rightarrow> nat \<times> nat" where
  "schedule_parameters_with_policy_for_part_count network policy part_count =
     (let (mean_delay, max_delay) = schedule_parameters_with_policy network policy;
          effective_mean = (if DENSE_MIGRATION_PART_THRESHOLD < part_count
                            then max (mean_delay div 2) 1 else mean_delay)
      in (effective_mean, max_delay))"

definition schedule_parameters_for_part_count :: "bool \<Rightarrow> wallet_network \<Rightarrow> nat \<Rightarrow> nat \<times> nat" where
  "schedule_parameters_for_part_count fast network part_count =
     schedule_parameters_with_policy_for_part_count network
       (configured_timing_policy fast network) part_count"

section \<open>Preparation timing\<close>

definition DENSE_PREPARATION_TRANSACTION_THRESHOLD :: nat where
  "DENSE_PREPARATION_TRANSACTION_THRESHOLD = 3"

definition ZIP318_PREPARATION_DELAY :: "nat \<times> nat" where
  "ZIP318_PREPARATION_DELAY = (16, 96)"

definition REGTEST_PREPARATION_DELAY :: "nat \<times> nat" where
  "REGTEST_PREPARATION_DELAY = (1, 4)"

definition FAST_TESTNET_PREPARATION_DELAY :: "nat \<times> nat" where
  "FAST_TESTNET_PREPARATION_DELAY = (4, 16)"

datatype preparation_timing_policy = Immediate | Zip318Spaced

definition from_spacing_enabled :: "bool \<Rightarrow> preparation_timing_policy" where
  "from_spacing_enabled enabled = (if enabled then Zip318Spaced else Immediate)"

definition preparation_policy_as_str :: "preparation_timing_policy \<Rightarrow> string" where
  "preparation_policy_as_str p = (case p of
       Immediate \<Rightarrow> ''immediate''
     | Zip318Spaced \<Rightarrow> ''zip318_spaced'')"

definition preparation_policy_from_str :: "string \<Rightarrow> preparation_timing_policy outcome" where
  "preparation_policy_from_str s =
     (if s = ''immediate'' then Inr Immediate
      else if s = ''zip318_spaced'' then Inr Zip318Spaced
      else Inl (Message ''Unsupported migration preparation timing policy: {value}'' [AStr s]))"

definition preparation_schedule_parameters ::
    "wallet_network \<Rightarrow> migration_timing_policy \<Rightarrow> nat \<times> nat" where
  "preparation_schedule_parameters network policy =
     (if network = Net_Regtest \<and> policy = FastTestnet then FAST_TESTNET_PREPARATION_DELAY
      else if network = Net_Regtest then REGTEST_PREPARATION_DELAY
      else if network = Net_Test \<and> policy = FastTestnet then FAST_TESTNET_PREPARATION_DELAY
      else ZIP318_PREPARATION_DELAY)"

definition preparation_schedule_parameters_for_transaction_count ::
    "wallet_network \<Rightarrow> migration_timing_policy \<Rightarrow> nat \<Rightarrow> nat \<times> nat" where
  "preparation_schedule_parameters_for_transaction_count network policy transaction_count =
     (let (mean_delay, max_delay) = preparation_schedule_parameters network policy;
          effective_mean = (if DENSE_PREPARATION_TRANSACTION_THRESHOLD < transaction_count
                            then max (mean_delay div 2) 1 else mean_delay)
      in (effective_mean, max_delay))"

definition estimated_preparation_spacing_delay_blocks ::
    "bool \<Rightarrow> wallet_network \<Rightarrow> preparation_timing_policy \<Rightarrow> nat \<Rightarrow> nat outcome" where
  "estimated_preparation_spacing_delay_blocks fast network policy transaction_count =
     (if policy = Immediate then Inr 0
      else ok_or (checked_mul 32
                   (fst (preparation_schedule_parameters_for_transaction_count network
                          (configured_timing_policy fast network) transaction_count))
                   transaction_count)
             (Msg ''Migration preparation spacing estimate overflow''))"

section \<open>Facts about the tables\<close>

lemmas delay_tables =
  ZIP318_TRANSFER_DELAY_def NINETY_MINUTE_TRANSFER_MEAN_DELAY_BLOCKS_def
  REGTEST_TRANSFER_DELAY_def FAST_TESTNET_TRANSFER_DELAY_def
  ZIP318_PREPARATION_DELAY_def REGTEST_PREPARATION_DELAY_def FAST_TESTNET_PREPARATION_DELAY_def

lemma timing_policy_str_roundtrip:
  "timing_policy_from_str (timing_policy_as_str p) = Inr p"
  by (cases p) (simp_all add: timing_policy_as_str_def timing_policy_from_str_def)

lemma preparation_policy_str_roundtrip:
  "preparation_policy_from_str (preparation_policy_as_str p) = Inr p"
  by (cases p) (simp_all add: preparation_policy_as_str_def preparation_policy_from_str_def)

lemma schedule_parameters_sane:
  "schedule_parameters_with_policy network policy = (mean, mx) \<Longrightarrow> 0 < mean \<and> mean \<le> mx"
  by (auto simp: schedule_parameters_with_policy_def delay_tables split: if_splits)

lemma schedule_parameters_part_count_sane:
  "schedule_parameters_with_policy_for_part_count network policy n = (mean, mx)
     \<Longrightarrow> 0 < mean \<and> mean \<le> mx \<and> mx = snd (schedule_parameters_with_policy network policy)"
  by (cases "schedule_parameters_with_policy network policy")
    (auto simp: schedule_parameters_with_policy_for_part_count_def
      dest: schedule_parameters_sane split: if_splits)

lemma preparation_parameters_sane:
  "preparation_schedule_parameters network policy = (mean, mx) \<Longrightarrow> 0 < mean \<and> mean \<le> mx"
  by (auto simp: preparation_schedule_parameters_def delay_tables split: if_splits)

lemma preparation_parameters_count_sane:
  "preparation_schedule_parameters_for_transaction_count network policy n = (mean, mx)
     \<Longrightarrow> 0 < mean \<and> mean \<le> mx \<and> mx = snd (preparation_schedule_parameters network policy)"
  by (cases "preparation_schedule_parameters network policy")
    (auto simp: preparation_schedule_parameters_for_transaction_count_def
      dest: preparation_parameters_sane split: if_splits)

end
