(* ===== verification/Denominations.thy ===== *)
theory Denominations
  imports Migration_Policy
begin

text \<open>
  The ZIP 318 denominations of wallet/sync/migration/denomination_policy.rs: the search for the
  largest canonical denomination, the standalone greedy plan and the canonical expiry height.
  The search is shown to return the greatest member of the explicit denomination list; the
  greedy plan conserves value, emits canonical denominations in descending order and stops only
  when no further one is affordable.
\<close>

section \<open>The largest canonical denomination\<close>

definition zip318_pick :: "nat \<Rightarrow> nat \<Rightarrow> nat \<Rightarrow> nat option \<Rightarrow> nat option" where
  "zip318_pick value magnitude multiplier best =
     (case checked_mul 64 magnitude multiplier of
        None \<Rightarrow> best
      | Some denomination \<Rightarrow>
          if denomination \<le> value \<and> denomination \<le> ZIP318_MAX_MIGRATION_DENOMINATION_ZATOSHI
          then Some denomination else best)"

text \<open>The magnitude loop; the outer option is \<open>None\<close> where the loop would not return.\<close>

partial_function (option) largest_zip318_loop ::
    "nat \<Rightarrow> nat \<Rightarrow> nat option \<Rightarrow> nat option option" where
  "largest_zip318_loop value magnitude best =
     (let best' = fold (zip318_pick value magnitude) [1, 2, 5] best in
      if ZIP318_MAX_MIGRATION_DENOMINATION_ZATOSHI \<le> magnitude then Some best'
      else (case checked_mul 64 magnitude 10 of
              None \<Rightarrow> Some None
            | Some magnitude' \<Rightarrow> largest_zip318_loop value magnitude' best'))"

definition largest_zip318_denomination_at_or_below :: "nat \<Rightarrow> nat option" where
  "largest_zip318_denomination_at_or_below value =
     (if value < ZIP318_MAX_RESIDUAL_VALUE_ZATOSHI then None
      else Option.bind (largest_zip318_loop value ZIP318_MAX_RESIDUAL_VALUE_ZATOSHI None) id)"

definition is_zip318_canonical_denomination :: "nat \<Rightarrow> bool" where
  "is_zip318_canonical_denomination value \<longleftrightarrow>
     largest_zip318_denomination_at_or_below value = Some value"

section \<open>The denomination list and the specification of the search\<close>

definition zip318_denominations :: "nat list" where
  "zip318_denominations =
     concat (map (\<lambda>k. map (\<lambda>m. m * 10 ^ k) [1, 2, 5]) [6, 7, 8, 9, 10, 11]) @ [10 ^ 12]"

lemma zip318_denominations_values:
  "zip318_denominations =
     [1000000, 2000000, 5000000, 10000000, 20000000, 50000000,
      100000000, 200000000, 500000000, 1000000000, 2000000000, 5000000000,
      10000000000, 20000000000, 50000000000, 100000000000, 200000000000, 500000000000,
      1000000000000]"
  by (simp add: zip318_denominations_def)

lemma zip318_pick_eq:
  assumes "magnitude * multiplier < 2 ^ 64"
  shows "zip318_pick value magnitude multiplier best =
    (if magnitude * multiplier \<le> value
        \<and> magnitude * multiplier \<le> ZIP318_MAX_MIGRATION_DENOMINATION_ZATOSHI
     then Some (magnitude * multiplier) else best)"
  using assms by (simp add: zip318_pick_def checked_mul_def)

lemma largest_zip318_loop_eq:
  "largest_zip318_loop value 1000000 None =
     Some (fold (\<lambda>d best. if d \<le> value then Some d else best) zip318_denominations None)"
  unfolding zip318_denominations_values
  by (simp add: largest_zip318_loop.simps zip318_pick_eq checked_mul_def denomination_constants)

lemma fold_last_below:
  fixes v :: nat
  assumes "sorted ds"
  shows "fold (\<lambda>d best. if d \<le> v then Some d else best) ds None = r \<Longrightarrow>
    (case r of None \<Rightarrow> \<forall>d \<in> set ds. v < d
     | Some m \<Rightarrow> m \<in> set ds \<and> m \<le> v \<and> (\<forall>d \<in> set ds. d \<le> v \<longrightarrow> d \<le> m))"
  using assms
proof (induction ds arbitrary: r rule: rev_induct)
  case Nil
  then show ?case by auto
next
  case (snoc d ds)
  then show ?case
    by (auto simp: sorted_append split: option.splits if_splits)
qed

lemma largest_zip318_eq_fold:
  "largest_zip318_denomination_at_or_below value =
     fold (\<lambda>d best. if d \<le> value then Some d else best) zip318_denominations None"
proof (cases "value < 1000000")
  case True
  have "sorted zip318_denominations" by (simp add: zip318_denominations_values)
  from fold_last_below[OF this refl, of "value"] True
  show ?thesis
    by (auto simp: largest_zip318_denomination_at_or_below_def denomination_constants
        zip318_denominations_values split: option.splits if_splits)
next
  case False
  then show ?thesis
    by (simp add: largest_zip318_denomination_at_or_below_def denomination_constants
        largest_zip318_loop_eq)
qed

lemma largest_zip318_Some_iff:
  "largest_zip318_denomination_at_or_below value = Some d \<longleftrightarrow>
     d \<in> set zip318_denominations \<and> d \<le> value
       \<and> (\<forall>d' \<in> set zip318_denominations. d' \<le> value \<longrightarrow> d' \<le> d)"
proof -
  have s: "sorted zip318_denominations" by (simp add: zip318_denominations_values)
  note spec = fold_last_below[OF s refl, of "value", folded largest_zip318_eq_fold]
  show ?thesis
  proof (cases "largest_zip318_denomination_at_or_below value")
    case None
    with spec show ?thesis by (simp add: not_le[symmetric] del: not_le)
  next
    case (Some m)
    with spec show ?thesis by simp (metis order_antisym)
  qed
qed

lemma largest_zip318_None_iff:
  "largest_zip318_denomination_at_or_below value = None \<longleftrightarrow> value < 1000000"
proof -
  have s: "sorted zip318_denominations" by (simp add: zip318_denominations_values)
  note spec = fold_last_below[OF s refl, of "value", folded largest_zip318_eq_fold]
  have "1000000 \<in> set zip318_denominations" by (simp add: zip318_denominations_values)
  moreover have "1000000 \<le> d" if "d \<in> set zip318_denominations" for d
    using that by (auto simp: zip318_denominations_values)
  ultimately show ?thesis
    using spec by (fastforce split: option.splits)
qed

lemma canonical_denomination_iff:
  "is_zip318_canonical_denomination d \<longleftrightarrow> d \<in> set zip318_denominations"
  by (auto simp: is_zip318_canonical_denomination_def largest_zip318_Some_iff)

lemma canonical_bounds:
  "d \<in> set zip318_denominations \<Longrightarrow> 1000000 \<le> d \<and> d \<le> 1000000000000"
  by (auto simp: zip318_denominations_values)

lemma largest_zip318_canonical:
  "largest_zip318_denomination_at_or_below v = Some d \<Longrightarrow>
     is_zip318_canonical_denomination d \<and> 1000000 \<le> d \<and> d \<le> v"
  by (auto simp: largest_zip318_Some_iff canonical_denomination_iff dest: canonical_bounds)

lemma largest_zip318_mono:
  "v \<le> w \<Longrightarrow> largest_zip318_denomination_at_or_below v = Some d \<Longrightarrow>
     largest_zip318_denomination_at_or_below w = Some e \<Longrightarrow> d \<le> e"
  by (auto simp: largest_zip318_Some_iff)

section \<open>The standalone plan\<close>

record denomination_plan =
  migration_outputs :: "zatoshi list"
  orchard_change :: "zatoshi option"
  split_fee_zatoshi :: zatoshi
  migration_fee_zatoshi :: zatoshi
  total_input_zatoshi :: zatoshi
  total_migratable_zatoshi :: zatoshi

function plan_denominations_loop ::
    "nat \<Rightarrow> nat \<Rightarrow> nat list \<Rightarrow> (nat list \<times> nat) outcome" where
  "plan_denominations_loop fee remaining outputs =
     (case checked_sub remaining fee of
        None \<Rightarrow> Inr (outputs, remaining)
      | Some spendable_after_fee \<Rightarrow>
         (case largest_zip318_denomination_at_or_below spendable_after_fee of
            None \<Rightarrow> Inr (outputs, remaining)
          | Some denomination \<Rightarrow>
             (case Option.bind (checked_sub remaining denomination) (\<lambda>v. checked_sub v fee) of
                None \<Rightarrow> Inl (Msg ''Canonical denomination fee underflow'')
              | Some remaining' \<Rightarrow>
                  plan_denominations_loop fee remaining' (outputs @ [denomination]))))"
  by pat_completeness auto
termination
proof (relation "measure (\<lambda>(fee, remaining, outputs). remaining)", goal_cases)
  case 1
  show ?case by simp
next
  case (2 fee remaining outputs v d r)
  then show ?case
    by (auto simp: checked_simps bind_eq_Some_conv dest!: largest_zip318_canonical)
qed

declare plan_denominations_loop.simps [simp del]

definition plan_denominations ::
    "zatoshi \<Rightarrow> zatoshi \<Rightarrow> zatoshi \<Rightarrow> zatoshi \<Rightarrow> denomination_plan outcome" where
  "plan_denominations total_input split_fee migration_fee minimum_output =
     (if total_input \<le> split_fee then
        Inr \<lparr>migration_outputs = [], orchard_change = None, split_fee_zatoshi = total_input,
             migration_fee_zatoshi = migration_fee, total_input_zatoshi = total_input,
             total_migratable_zatoshi = 0\<rparr>
      else
        res_bind (ok_or (checked_sub total_input split_fee)
                        (Msg ''Denomination split fee underflow'')) (\<lambda>remaining.
        res_bind (plan_denominations_loop migration_fee remaining []) (\<lambda>(outputs, remaining).
        res_bind (ok_or (checked_sum_opt 64 outputs) (Msg ''Migratable total overflow'')) (\<lambda>total.
        Inr \<lparr>migration_outputs = outputs,
             orchard_change = (if minimum_output \<le> remaining then Some remaining else None),
             split_fee_zatoshi = split_fee, migration_fee_zatoshi = migration_fee,
             total_input_zatoshi = total_input, total_migratable_zatoshi = total\<rparr>))))"

lemma plan_denominations_loop_spec:
  assumes "sorted (rev outputs)"
    and "\<forall>d \<in> set outputs. is_zip318_canonical_denomination d"
    and "\<forall>d \<in> set outputs. \<forall>e. largest_zip318_denomination_at_or_below (remaining - fee) = Some e
           \<longrightarrow> fee \<le> remaining \<longrightarrow> e \<le> d"
  shows "\<exists>outs rest. plan_denominations_loop fee remaining outputs = Inr (outs, rest)
    \<and> sorted (rev outs) \<and> (\<forall>d \<in> set outs. is_zip318_canonical_denomination d)
    \<and> remaining + sum_list outputs + length outputs * fee
        = rest + sum_list outs + length outs * fee
    \<and> rest < 1000000 + fee"
  using assms
proof (induction fee remaining outputs rule: plan_denominations_loop.induct)
  case (1 fee remaining outputs)
  show ?case
  proof (cases "checked_sub remaining fee")
    case None
    then have "plan_denominations_loop fee remaining outputs = Inr (outputs, remaining)"
        "remaining < fee"
      by (auto simp: plan_denominations_loop.simps[of fee remaining] checked_sub_def split: if_splits)
    then show ?thesis using "1.prems" by auto
  next
    case sub: (Some s)
    then have s: "fee \<le> remaining" "s = remaining - fee" by (auto simp: checked_simps)
    show ?thesis
    proof (cases "largest_zip318_denomination_at_or_below s")
      case None
      then have "plan_denominations_loop fee remaining outputs = Inr (outputs, remaining)"
          "s < 1000000"
        using None sub
        by (simp_all add: plan_denominations_loop.simps[of fee remaining] flip: largest_zip318_None_iff)
      then show ?thesis using "1.prems" s by auto
    next
      case d: (Some d)
      then have dv: "is_zip318_canonical_denomination d" "d \<le> s"
        by (auto dest: largest_zip318_canonical)
      let ?r = "remaining - d - fee"
      have bind: "Option.bind (checked_sub remaining d) (\<lambda>v. checked_sub v fee) = Some ?r"
      proof -
        have "d \<le> remaining" "fee \<le> remaining - d" using dv s by arith+
        then show ?thesis by (simp add: checked_sub_def)
      qed
      have step: "plan_denominations_loop fee remaining outputs
          = plan_denominations_loop fee ?r (outputs @ [d])"
        using sub d bind by (simp add: plan_denominations_loop.simps[of fee remaining])
      have le_d: "d \<le> x" if "x \<in> set outputs" for x
        using "1.prems"(3) that d s by blast
      have next_le: "e \<le> d" if "largest_zip318_denomination_at_or_below (?r - fee) = Some e" for e
        using largest_zip318_mono[OF _ that d] s by simp
      have "\<exists>outs rest. plan_denominations_loop fee ?r (outputs @ [d]) = Inr (outs, rest)
        \<and> sorted (rev outs) \<and> (\<forall>x \<in> set outs. is_zip318_canonical_denomination x)
        \<and> ?r + sum_list (outputs @ [d]) + length (outputs @ [d]) * fee
            = rest + sum_list outs + length outs * fee
        \<and> rest < 1000000 + fee"
        using "1.IH"[OF sub d bind] "1.prems"(1,2) dv le_d next_le
        by (fastforce simp: sorted_append dest: order_trans)
      then show ?thesis
        using step s dv by auto
    qed
  qed
qed

section \<open>Expiry heights\<close>

definition zip318_canonical_migration_expiry_height :: "height \<Rightarrow> height outcome" where
  "zip318_canonical_migration_expiry_height scheduled_height =
     (let boundary = scheduled_height - scheduled_height mod ZIP318_EXPIRY_MODULUS in
      res_bind (ok_or (checked_mul 32 ZIP318_EXPIRY_MODULUS 2) (Msg ''ZIP 318 expiry window overflow''))
        (\<lambda>window. ok_or (checked_add 32 boundary window)
                     (Msg ''ZIP 318 canonical expiry height overflow'')))"

lemma expiry_height_window:
  assumes "zip318_canonical_migration_expiry_height h = Inr e"
  shows "e mod ZIP318_EXPIRY_MODULUS = 0
    \<and> h + ZIP318_EXPIRY_MODULUS < e \<and> e \<le> h + 2 * ZIP318_EXPIRY_MODULUS"
proof -
  let ?m = "34560 :: nat"
  from assms have e: "e = (h - h mod ?m) + 2 * ?m"
    by (auto simp: zip318_canonical_migration_expiry_height_def ZIP318_EXPIRY_MODULUS_def
        checked_defs Let_def split: if_splits)
  have "h mod ?m < ?m" by simp
  moreover have "h - h mod ?m = ?m * (h div ?m)" by (simp add: minus_mod_eq_mult_div)
  moreover have "h mod ?m \<le> h" by simp
  ultimately show ?thesis
    using e unfolding ZIP318_EXPIRY_MODULUS_def by (simp; linarith)
qed

lemma expiry_height_defined:
  "h < 2 ^ 32 - 2 * ZIP318_EXPIRY_MODULUS \<Longrightarrow>
     \<exists>e. zip318_canonical_migration_expiry_height h = Inr e"
  by (auto simp: zip318_canonical_migration_expiry_height_def ZIP318_EXPIRY_MODULUS_def
      checked_defs Let_def)

end
