(* ===== verification/Refinement.thy ===== *)
theory Refinement
  imports Denominations "HOL-Library.List_Lexorder"
begin

text \<open>
  The optional refinement of the largest denominations (split_plan.rs): the policy with its gate
  percentages, the recursive draw of a refinement tree, and the enumeration of every pruning of
  a tree, from the most split to the unsplit root. The random source is a parameter: \<open>next_u32\<close>
  maps a generator state to the number drawn and the next state.
\<close>

section \<open>Policy\<close>

definition TEN_THOUSAND_ZEC_ZATOSHI :: nat where
  "TEN_THOUSAND_ZEC_ZATOSHI = ZIP318_MAX_MIGRATION_DENOMINATION_ZATOSHI"

definition FIVE_THOUSAND_ZEC_ZATOSHI :: nat where
  "FIVE_THOUSAND_ZEC_ZATOSHI = TEN_THOUSAND_ZEC_ZATOSHI div 2"

definition TWO_THOUSAND_ZEC_ZATOSHI :: nat where
  "TWO_THOUSAND_ZEC_ZATOSHI = TEN_THOUSAND_ZEC_ZATOSHI div 5"

definition ONE_THOUSAND_ZEC_ZATOSHI :: nat where
  "ONE_THOUSAND_ZEC_ZATOSHI = TEN_THOUSAND_ZEC_ZATOSHI div 10"

lemmas refinable_constants =
  TEN_THOUSAND_ZEC_ZATOSHI_def FIVE_THOUSAND_ZEC_ZATOSHI_def TWO_THOUSAND_ZEC_ZATOSHI_def
  ONE_THOUSAND_ZEC_ZATOSHI_def denomination_constants

record denomination_refinement_policy =
  ten_thousand_split_percent :: nat
  five_thousand_split_percent :: nat
  two_thousand_split_percent :: nat

datatype denomination_refinement =
  Refinement (rf_value: zatoshi) (rf_children: "denomination_refinement list")

definition refinement_leaf :: "zatoshi \<Rightarrow> denomination_refinement" where
  "refinement_leaf v = Refinement v []"

text \<open>\<open>const fn new\<close> with its assertion: \<open>None\<close> where the constructor would panic.\<close>

definition new_refinement_policy :: "nat \<Rightarrow> nat \<Rightarrow> nat \<Rightarrow> denomination_refinement_policy option" where
  "new_refinement_policy ten five two =
     (if ten \<le> 100 \<and> five \<le> 100 \<and> two \<le> 100
      then Some \<lparr>ten_thousand_split_percent = ten, five_thousand_split_percent = five,
                 two_thousand_split_percent = two\<rparr>
      else None)"

definition AGGRESSIVE_REFINEMENT_POLICY :: denomination_refinement_policy where
  "AGGRESSIVE_REFINEMENT_POLICY = the (new_refinement_policy 80 55 35)"

definition split_rule :: "denomination_refinement_policy \<Rightarrow> zatoshi \<Rightarrow> (nat \<times> zatoshi list) option" where
  "split_rule policy denomination =
     (if denomination = TEN_THOUSAND_ZEC_ZATOSHI then
        Some (ten_thousand_split_percent policy, [FIVE_THOUSAND_ZEC_ZATOSHI, FIVE_THOUSAND_ZEC_ZATOSHI])
      else if denomination = FIVE_THOUSAND_ZEC_ZATOSHI then
        Some (five_thousand_split_percent policy,
          [TWO_THOUSAND_ZEC_ZATOSHI, TWO_THOUSAND_ZEC_ZATOSHI, ONE_THOUSAND_ZEC_ZATOSHI])
      else if denomination = TWO_THOUSAND_ZEC_ZATOSHI then
        Some (two_thousand_split_percent policy, [ONE_THOUSAND_ZEC_ZATOSHI, ONE_THOUSAND_ZEC_ZATOSHI])
      else None)"

lemma split_rule_children:
  "split_rule policy d = Some (pct, children) \<Longrightarrow> c \<in> set children \<Longrightarrow> c < d"
  by (auto simp: split_rule_def refinable_constants split: if_splits)

lemma split_rule_sum:
  "split_rule policy d = Some (pct, children) \<Longrightarrow>
     sum_list children = d \<and> children \<noteq> [] \<and> (\<forall>c \<in> set (d # children). is_zip318_canonical_denomination c)"
  by (auto simp: split_rule_def refinable_constants canonical_denomination_iff zip318_denominations_values
      split: if_splits)

section \<open>Drawing a refinement\<close>

function refine_denomination ::
    "('r \<Rightarrow> nat \<times> 'r) \<Rightarrow> denomination_refinement_policy \<Rightarrow> zatoshi \<Rightarrow> 'r \<Rightarrow> denomination_refinement \<times> 'r" where
  "refine_denomination next_u32 policy denomination rng =
     (case split_rule policy denomination of
        None \<Rightarrow> (refinement_leaf denomination, rng)
      | Some (split_percent, children) \<Rightarrow>
          if split_percent = 0 then (refinement_leaf denomination, rng)
          else
            let (draw, rng) = next_u32 rng
            in if split_percent \<le> draw mod 100 then (refinement_leaf denomination, rng)
               else
                 let (refined, rng) = map_state (\<lambda>child rng. refine_denomination next_u32 policy child rng) children rng
                 in (Refinement denomination refined, rng))"
  by auto

termination
  by (relation "measure (\<lambda>(next_u32, policy, denomination, rng). denomination)")
    (auto intro: split_rule_children)

declare refine_denomination.simps [simp del]

text \<open>A well-formed tree: canonical values, and the children of a node sum to its value.\<close>

fun refinement_ok :: "denomination_refinement \<Rightarrow> bool" where
  "refinement_ok (Refinement v cs) \<longleftrightarrow> is_zip318_canonical_denomination v
     \<and> (cs \<noteq> [] \<longrightarrow> sum_list (map rf_value cs) = v) \<and> (\<forall>c \<in> set cs. refinement_ok c)"

lemma refine_denomination_ok:
  "is_zip318_canonical_denomination d \<Longrightarrow>
   refinement_ok (fst (refine_denomination next_u32 policy d rng))
     \<and> rf_value (fst (refine_denomination next_u32 policy d rng)) = d"
proof (induction next_u32 policy d rng rule: refine_denomination.induct)
  case (1 next_u32 policy d rng)
  show ?case
  proof (cases "split_rule policy d")
    case None
    with 1 show ?thesis by (simp add: refine_denomination.simps[of next_u32 policy d] refinement_leaf_def)
  next
    case (Some rule)
    then obtain pct children where r: "split_rule policy d = Some (pct, children)" by (cases rule) auto
    obtain draw rng1 where n: "next_u32 rng = (draw, rng1)" by (cases "next_u32 rng")
    consider "pct = 0 \<or> pct \<le> draw mod 100" | "pct \<noteq> 0" "\<not> pct \<le> draw mod 100" by blast
    then show ?thesis
    proof cases
      case 1
      with "1.prems" r n show ?thesis
        by (auto simp: refine_denomination.simps[of next_u32 policy d] refinement_leaf_def)
    next
      case 2
      obtain cs rng2 where m: "map_state (\<lambda>child rng. refine_denomination next_u32 policy child rng) children rng1 = (cs, rng2)"
        by (cases "map_state (\<lambda>child rng. refine_denomination next_u32 policy child rng) children rng1")
      have d: "refine_denomination next_u32 policy d rng = (Refinement d cs, rng2)"
        using 2 r n m by (simp add: refine_denomination.simps[of next_u32 policy d])
      have "list_all2 (\<lambda>c r. refinement_ok r \<and> rf_value r = c) children cs"
        by (rule map_state_all2[OF m])
          (use "1.IH"[OF r refl 2(1) n[symmetric] refl 2(2)] split_rule_sum[OF r] in auto)
      then have "map rf_value cs = children" "\<forall>c \<in> set cs. refinement_ok c"
        by (induction children cs rule: list_all2_induct) auto
      with split_rule_sum[OF r] "1.prems" show ?thesis by (simp add: d)
    qed
  qed
qed

section \<open>Candidates\<close>

text \<open>
  A candidate is a list of parts. Candidates are compared by the number of parts, more parts first,
  then lexicographically; the class instance lets the library sort them.
\<close>

datatype candidate = Candidate (candidate_parts: "zatoshi list")

instantiation candidate :: linorder
begin

definition less_eq_candidate :: "candidate \<Rightarrow> candidate \<Rightarrow> bool" where
  "less_eq_candidate a b \<longleftrightarrow>
     length (candidate_parts b) < length (candidate_parts a)
     \<or> length (candidate_parts a) = length (candidate_parts b) \<and> candidate_parts a \<le> candidate_parts b"

definition less_candidate :: "candidate \<Rightarrow> candidate \<Rightarrow> bool" where
  "less_candidate a b \<longleftrightarrow> a \<le> b \<and> \<not> b \<le> (a :: candidate)"

instance
proof
  fix a b c :: candidate
  show "(a < b) = (a \<le> b \<and> \<not> b \<le> a)" by (simp add: less_candidate_def)
  show "a \<le> a" by (simp add: less_eq_candidate_def)
  show "a \<le> b \<Longrightarrow> b \<le> c \<Longrightarrow> a \<le> c" by (auto simp: less_eq_candidate_def)
  show "a \<le> b \<Longrightarrow> b \<le> a \<Longrightarrow> a = b" by (cases a; cases b) (auto simp: less_eq_candidate_def)
  show "a \<le> b \<or> b \<le> a" by (auto simp: less_eq_candidate_def)
qed

end

definition order_candidates :: "zatoshi list list \<Rightarrow> zatoshi list list" where
  "order_candidates cs = map candidate_parts (remdups_adj (sort (map (\<lambda>c. Candidate (sort_desc c)) cs)))"

definition combine_candidates :: "zatoshi list list \<Rightarrow> zatoshi list list \<Rightarrow> zatoshi list list" where
  "combine_candidates expanded child_candidates =
     concat (map (\<lambda>prefix. map (\<lambda>child_candidate. prefix @ child_candidate) child_candidates) expanded)"

definition checked_sum :: "nat list \<Rightarrow> string \<Rightarrow> nat outcome" where
  "checked_sum values context = ok_or (checked_sum_opt 64 values) (Msg context)"

fun refinement_candidates :: "denomination_refinement \<Rightarrow> zatoshi list list outcome"
  and expand_children :: "denomination_refinement list \<Rightarrow> zatoshi list list \<Rightarrow> zatoshi list list outcome" where
  "refinement_candidates (Refinement v cs) =
     (if \<not> is_zip318_canonical_denomination v then
        Inl (Msg ''Denomination refinement produced a noncanonical value'')
      else if cs = [] then Inr [[v]]
      else
        res_bind (checked_sum (map rf_value cs) ''Denomination refinement total overflow'') (\<lambda>total.
          if total \<noteq> v then Inl (Msg ''Denomination refinement must preserve the selected value'')
          else res_bind (expand_children cs [[]]) (\<lambda>expanded.
            Inr (order_candidates (expanded @ [[v]])))))"
| "expand_children [] expanded = Inr expanded"
| "expand_children (c # cs) expanded =
     res_bind (refinement_candidates c) (\<lambda>child_candidates.
     res_bind (ok_or (checked_mul 64 (length expanded) (length child_candidates))
                 (Msg ''Denomination refinement candidate count overflow'')) (\<lambda>_.
       expand_children cs (combine_candidates expanded child_candidates)))"

text \<open>What a candidate is worth, and what it consists of.\<close>

definition candidate_ok :: "zatoshi \<Rightarrow> zatoshi list \<Rightarrow> bool" where
  "candidate_ok v c \<longleftrightarrow> sum_list c = v \<and> (\<forall>d \<in> set c. is_zip318_canonical_denomination d)"

lemma candidate_ok_sort [simp]: "candidate_ok v (sort_desc c) = candidate_ok v c"
  using sum_list_mset_cong[of "sort_desc c" c] by (simp add: candidate_ok_def)

lemma set_order_candidates: "set (order_candidates cs) = sort_desc ` set cs"
  by (auto simp: order_candidates_def image_image)

lemma sorted_remdups_adj_strict: "sorted xs \<Longrightarrow> sorted_wrt (<) (remdups_adj (xs :: 'a :: linorder list))"
proof (induction xs rule: remdups_adj.induct)
  case (3 x y xs)
  show ?case
  proof (cases "x = y")
    case True
    with 3 show ?thesis by simp
  next
    case False
    with "3.prems" have "x < y" "\<forall>z \<in> set xs. y \<le> z" by auto
    then have "\<forall>z \<in> set (y # xs). x < z" by auto
    with 3 False show ?thesis by simp
  qed
qed auto

lemma order_candidates_order:
  "sorted_wrt (\<lambda>a b. length b < length a \<or> length a = length b \<and> a < b) (order_candidates cs)"
proof -
  have "sorted_wrt (<) (remdups_adj (sort (map (\<lambda>c. Candidate (sort_desc c)) cs)))"
    by (rule sorted_remdups_adj_strict) simp
  then show ?thesis
    unfolding order_candidates_def sorted_wrt_map
    by (rule sorted_wrt_mono_rel[rotated])
      (auto simp: less_candidate_def less_eq_candidate_def)
qed

lemma refinement_candidates_spec:
  "refinement_candidates r = Inr cs \<Longrightarrow>
     (\<forall>c \<in> set cs. candidate_ok (rf_value r) c \<and> sorted (rev c)) \<and> [rf_value r] \<in> set cs"
  "expand_children rs expanded = Inr out \<Longrightarrow> \<forall>c \<in> set expanded. candidate_ok s c \<Longrightarrow>
     \<forall>c \<in> set out. candidate_ok (s + sum_list (map rf_value rs)) c"
proof (induction r and rs expanded arbitrary: cs and out s rule: refinement_candidates_expand_children.induct)
  case (1 v rs)
  show ?case
  proof (cases "rs = []")
    case True
    with "1.prems" show ?thesis by (auto simp: candidate_ok_def split: if_splits)
  next
    case False
    with "1.prems" obtain expanded where can: "is_zip318_canonical_denomination v"
      and sum: "checked_sum (map rf_value rs) ''Denomination refinement total overflow'' = Inr v"
      and ex: "expand_children rs [[]] = Inr expanded" and cs: "cs = order_candidates (expanded @ [[v]])"
      by (auto simp: res_simps split: if_splits)
    from sum have s: "sum_list (map rf_value rs) = v"
      by (auto simp: checked_sum_def res_simps checked_sum_eq split: if_splits)
    have "\<forall>c \<in> set expanded. candidate_ok (0 + sum_list (map rf_value rs)) c"
      using "1.IH"[OF _ False sum _ ex, of 0] can by (auto simp: candidate_ok_def)
    then have "\<forall>c \<in> set (expanded @ [[v]]). candidate_ok v c" using can s by (auto simp: candidate_ok_def)
    moreover have "[v] \<in> set cs" unfolding cs set_order_candidates
      by (rule image_eqI[of _ _ "[v]"]) (auto simp: sort_desc_sorted)
    ultimately show ?thesis
      using sorted_rev_sort_desc by (auto simp: cs set_order_candidates)
  qed
next
  case (2 expanded)
  then show ?case by simp
next
  case (3 r rs expanded)
  from "3.prems"(1) obtain cc where cc: "refinement_candidates r = Inr cc"
    and rest: "expand_children rs (combine_candidates expanded cc) = Inr out"
    and mul: "ok_or (checked_mul 64 (length expanded) (length cc)) (Msg ''Denomination refinement candidate count overflow'')
      = Inr (length expanded * length cc)"
    by (auto simp: res_simps checked_simps)
  have "\<forall>c \<in> set (combine_candidates expanded cc). candidate_ok (s + rf_value r) c"
    using "3.IH"(1)[OF cc] "3.prems"(2) by (auto simp: combine_candidates_def candidate_ok_def)
  from "3.IH"(2)[OF cc mul rest this] show ?case by (simp add: add.assoc)
qed


section \<open>The number of candidates\<close>

text \<open>A tree has at most this many prunings; the trees of a policy have at most 26.\<close>

fun prunings :: "denomination_refinement \<Rightarrow> nat" where
  "prunings (Refinement v cs) = (if cs = [] then 1 else Suc (prod_list (map prunings cs)))"

lemma prunings_pos: "0 < prunings r"
  by (cases r) simp

lemma prod_prunings_pos: "0 < prod_list (map prunings cs)"
  by (induction cs) (auto simp: prunings_pos)

lemma length_combine_candidates [simp]:
  "length (combine_candidates xs ys) = length xs * length ys"
  by (induction xs) (auto simp: combine_candidates_def)

lemma length_order_candidates: "length (order_candidates cs) \<le> length cs"
  unfolding order_candidates_def by (metis length_map length_sort remdups_adj_length)

lemma refinement_candidates_total:
  "refinement_ok r \<Longrightarrow> prunings r < 2 ^ 64 \<Longrightarrow>
     \<exists>cs. refinement_candidates r = Inr cs \<and> length cs \<le> prunings r"
  "\<forall>r \<in> set rs. refinement_ok r \<Longrightarrow> expanded \<noteq> [] \<Longrightarrow> length expanded * prod_list (map prunings rs) < 2 ^ 64 \<Longrightarrow>
     \<exists>out. expand_children rs expanded = Inr out \<and> length out \<le> length expanded * prod_list (map prunings rs)"
proof (induction r and rs expanded rule: refinement_candidates_expand_children.induct)
  case (1 v rs)
  show ?case
  proof (cases "rs = []")
    case True
    with "1.prems" show ?thesis by simp
  next
    case False
    from "1.prems"(1) False have can: "is_zip318_canonical_denomination v" and s: "sum_list (map rf_value rs) = v"
      and ok: "\<forall>r \<in> set rs. refinement_ok r" by simp_all
    have "v < 2 ^ 64" using can canonical_bounds[of v] by (simp add: canonical_denomination_iff)
    then have sum: "checked_sum (map rf_value rs) ''Denomination refinement total overflow'' = Inr v"
      by (simp add: checked_sum_def checked_sum_eq s)
    have small: "length [[] :: nat list] * prod_list (map prunings rs) < 2 ^ 64" using "1.prems"(2) False by simp
    have "\<not> v \<noteq> v" by simp
    from "1.IH"[OF _ False sum this ok _ small] can obtain out where
      "expand_children rs [[]] = Inr out" "length out \<le> prod_list (map prunings rs)" by auto
    then show ?thesis
      using can False sum length_order_candidates[of "out @ [[v]]"] by auto
  qed
next
  case (2 expanded)
  then show ?case by simp
next
  case (3 r rs expanded)
  let ?P = "prod_list (map prunings rs)"
  have le: "length expanded * (prunings r * ?P) < 2 ^ 64" using "3.prems"(3) by simp
  have pos: "1 \<le> length expanded" "1 \<le> ?P" "1 \<le> prunings r"
    using "3.prems"(2) prod_prunings_pos[of rs] prunings_pos[of r] by (simp_all add: Suc_le_eq)
  have a: "prunings r * 1 \<le> prunings r * ?P" using pos(2) by (rule mult_le_mono2)
  have b: "1 * (prunings r * ?P) \<le> length expanded * (prunings r * ?P)" using pos(1) by (rule mult_le_mono1)
  have "prunings r < 2 ^ 64" using le a b by linarith
  with "3.IH"(1) "3.prems"(1) obtain cc where cc: "refinement_candidates r = Inr cc" "length cc \<le> prunings r" by auto
  have ccne: "cc \<noteq> []" using refinement_candidates_spec(1)[OF cc(1)] by auto
  have "length expanded * length cc \<le> length expanded * prunings r" using cc(2) by (rule mult_le_mono2)
  then have len: "length expanded * length cc * ?P \<le> length expanded * prunings r * ?P" by (rule mult_le_mono1)
  have "length expanded * prunings r * ?P < 2 ^ 64" using le by (simp add: mult.assoc)
  with len have small: "length expanded * length cc * ?P < 2 ^ 64" by (rule le_less_trans)
  have "length expanded * length cc * 1 \<le> length expanded * length cc * ?P" using pos(2) by (rule mult_le_mono2)
  then have "length expanded * length cc < 2 ^ 64" using small by linarith
  then have mul: "ok_or (checked_mul 64 (length expanded) (length cc)) (Msg ''Denomination refinement candidate count overflow'')
      = Inr (length expanded * length cc)"
    by (simp add: checked_mul_def)
  have "combine_candidates expanded cc \<noteq> []"
    using ccne "3.prems"(2) by (metis length_0_conv length_combine_candidates mult_is_0)
  from "3.IH"(2)[OF cc(1) mul _ this] "3.prems"(1) small obtain out where
    "expand_children rs (combine_candidates expanded cc) = Inr out" "length out \<le> length expanded * length cc * ?P"
    by auto
  moreover from this(2) len have "length out \<le> length expanded * prunings r * ?P" by (rule le_trans)
  ultimately show ?case using cc(1) mul by (intro exI[of _ out]) (simp add: mult.assoc)
qed

definition pruning_bound :: "zatoshi \<Rightarrow> nat" where
  "pruning_bound d = (if d = TEN_THOUSAND_ZEC_ZATOSHI then 26 else if d = FIVE_THOUSAND_ZEC_ZATOSHI then 5
     else if d = TWO_THOUSAND_ZEC_ZATOSHI then 2 else 1)"

lemma split_rule_bound:
  "split_rule policy d = Some (pct, children) \<Longrightarrow> Suc (prod_list (map pruning_bound children)) = pruning_bound d"
  by (auto simp: split_rule_def pruning_bound_def refinable_constants split: if_splits)

lemma refine_denomination_prunings:
  "prunings (fst (refine_denomination next_u32 policy d rng)) \<le> pruning_bound d"
proof (induction next_u32 policy d rng rule: refine_denomination.induct)
  case (1 next_u32 policy d rng)
  have leaf: "prunings (refinement_leaf d) \<le> pruning_bound d"
    by (simp add: refinement_leaf_def pruning_bound_def)
  show ?case
  proof (cases "split_rule policy d")
    case None
    with leaf show ?thesis by (simp add: refine_denomination.simps[of next_u32 policy d])
  next
    case (Some rule)
    then obtain pct children where r: "split_rule policy d = Some (pct, children)" by (cases rule) auto
    obtain draw rng1 where n: "next_u32 rng = (draw, rng1)" by (cases "next_u32 rng")
    consider "pct = 0 \<or> pct \<le> draw mod 100" | "pct \<noteq> 0" "\<not> pct \<le> draw mod 100" by blast
    then show ?thesis
    proof cases
      case 1
      with r n leaf show ?thesis by (auto simp: refine_denomination.simps[of next_u32 policy d])
    next
      case 2
      obtain cs rng2 where m: "map_state (\<lambda>child rng. refine_denomination next_u32 policy child rng) children rng1 = (cs, rng2)"
        by (cases "map_state (\<lambda>child rng. refine_denomination next_u32 policy child rng) children rng1")
      have d: "refine_denomination next_u32 policy d rng = (Refinement d cs, rng2)"
        using 2 r n m by (simp add: refine_denomination.simps[of next_u32 policy d])
      have "list_all2 (\<lambda>c t. prunings t \<le> pruning_bound c) children cs"
        by (rule map_state_all2[OF m]) (use "1.IH"[OF r refl 2(1) n[symmetric] refl 2(2)] in blast)
      then have "prod_list (map prunings cs) \<le> prod_list (map pruning_bound children)"
        by (induction children cs rule: list_all2_induct) (auto intro: mult_le_mono)
      with split_rule_bound[OF r] leaf show ?thesis by (auto simp: d pruning_bound_def)
    qed
  qed
qed

text \<open>The candidates of a drawn refinement exist, and there are at most 26 of them.\<close>

lemma refine_candidates_exist:
  assumes "is_zip318_canonical_denomination d"
  shows "\<exists>cs. refinement_candidates (fst (refine_denomination next_u32 policy d rng)) = Inr cs \<and> length cs \<le> 26"
proof -
  let ?r = "fst (refine_denomination next_u32 policy d rng)"
  have "prunings ?r \<le> 26"
    using refine_denomination_prunings[of next_u32 policy d rng] by (auto simp: pruning_bound_def split: if_splits)
  moreover from this have "prunings ?r < 2 ^ 64" by simp
  moreover have "refinement_ok ?r" using refine_denomination_ok[OF assms, of next_u32 policy rng] by simp
  ultimately show ?thesis using refinement_candidates_total(1)[of ?r] by (meson le_trans)
qed

end
