(* ===== verification/Stage_Translation.thy ===== *)
theory Stage_Translation
  imports Prep_Props Denominations "HOL-Library.AList"
begin

text \<open>
  The translation of a preparation plan into padded denomination stages (split_plan.rs):
  transactions become stages in plan order, inputs become references to wallet inputs or to the
  outputs of earlier stages, and every funding note receives the index of a migration part. The
  table of free part indices (\<open>BTreeMap<u64, Vec<usize>>\<close>) is an association list with a stack per
  value. The proofs show that the translation of a valid plan never reports an error, that it
  assigns every part index exactly once, and that stage references point backwards.
\<close>

section \<open>Data\<close>

definition DENOMINATION_SPLIT_ACTIONS :: nat where
  "DENOMINATION_SPLIT_ACTIONS = PREP_TX_ACTIONS"

datatype split_stage_input =
    Original (input_index: nat) (stage_value: zatoshi)
  | Prior_Stage (stage_index: nat) (output_index: nat) (stage_value: zatoshi)

datatype split_terminal_kind = Migration | OrchardChange | Continuation

record split_stage_output =
  so_value :: zatoshi
  so_kind :: split_terminal_kind
  so_part_index :: "nat option"

record split_stage_plan =
  ss_layer_index :: nat
  ss_inputs :: "split_stage_input list"
  ss_outputs :: "split_stage_output list"
  ss_fee :: zatoshi
  ss_requested_actions :: nat

record direct_migration_input =
  dm_input_index :: nat
  dm_part_index :: nat
  dm_value :: zatoshi

record padded_denomination_plan =
  pd_denominations :: denomination_plan
  pd_stages :: "split_stage_plan list"
  pd_layer_count :: nat
  pd_direct_inputs :: "direct_migration_input list"

section \<open>The table of part indices\<close>

type_synonym part_table = "(zatoshi \<times> nat list) list"

definition push_part :: "part_table \<Rightarrow> zatoshi \<Rightarrow> nat \<Rightarrow> part_table" where
  "push_part table v p = AList.update v (p # (case map_of table v of None \<Rightarrow> [] | Some ps \<Rightarrow> ps)) table"

definition available_parts :: "zatoshi list \<Rightarrow> part_table" where
  "available_parts funding = foldl (\<lambda>table (p, v). push_part table v p) [] (rev (enumerate 0 funding))"

text \<open>\<open>get_mut(&value).and_then(Vec::pop)\<close>: the top of the stack, which is the smallest free index.\<close>

definition take_part_index :: "part_table \<Rightarrow> zatoshi \<Rightarrow> (nat \<times> part_table) outcome" where
  "take_part_index table v =
     (case map_of table v of
        Some (p # ps) \<Rightarrow> Inr (p, AList.update v ps table)
      | _ \<Rightarrow> Inl (Message ''Preparation plan produced unexpected funding value {value_zatoshi}'' [ANat v]))"

section \<open>Translation\<close>

fun translate_direct ::
    "nat list \<Rightarrow> (nat \<times> zatoshi) list \<Rightarrow> part_table \<Rightarrow> (direct_migration_input list \<times> part_table) outcome" where
  "translate_direct indices [] parts = Inr ([], parts)"
| "translate_direct indices ((i, v) # rest) parts =
     res_bind (ok_or (list_get indices i) (Msg ''Direct funding input index is out of range'')) (\<lambda>input_index.
     res_bind (take_part_index parts v) (\<lambda>(part_index, parts).
     res_bind (translate_direct indices rest parts) (\<lambda>(inputs, parts).
       Inr (\<lparr>dm_input_index = input_index, dm_part_index = part_index, dm_value = v\<rparr> # inputs, parts))))"

type_synonym coordinate_table = "nat \<times> nat \<rightharpoonup> nat"

fun translate_input :: "nat list \<Rightarrow> coordinate_table \<Rightarrow> prep_input \<Rightarrow> split_stage_input outcome" where
  "translate_input indices coordinates (Wallet i v) =
     res_bind (ok_or (list_get indices i) (Msg ''Preparation wallet input index is out of range'')) (\<lambda>input_index.
       Inr (Original input_index v))"
| "translate_input indices coordinates (Prior l t k v) =
     res_bind (ok_or (coordinates (l, t)) (Msg ''Preparation input references an unknown prior transaction''))
       (\<lambda>stage. Inr (Prior_Stage stage k v))"

fun translate_outputs ::
    "prep_output list \<Rightarrow> part_table \<Rightarrow> (split_stage_output list \<times> part_table) outcome" where
  "translate_outputs [] parts = Inr ([], parts)"
| "translate_outputs (Funding v # outs) parts =
     res_bind (take_part_index parts v) (\<lambda>(p, parts).
     res_bind (translate_outputs outs parts) (\<lambda>(outputs, parts).
       Inr (\<lparr>so_value = v, so_kind = Migration, so_part_index = Some p\<rparr> # outputs, parts)))"
| "translate_outputs (Intermediate v # outs) parts =
     res_bind (translate_outputs outs parts) (\<lambda>(outputs, parts).
       Inr (\<lparr>so_value = v, so_kind = Continuation, so_part_index = None\<rparr> # outputs, parts))"
| "translate_outputs (Change v # outs) parts =
     res_bind (translate_outputs outs parts) (\<lambda>(outputs, parts).
       Inr (\<lparr>so_value = v, so_kind = OrchardChange, so_part_index = None\<rparr> # outputs, parts))"

record translation_state =
  ts_coordinates :: coordinate_table
  ts_stages :: "split_stage_plan list"
  ts_parts :: part_table

definition translate_transaction ::
    "nat list \<Rightarrow> nat \<Rightarrow> nat \<Rightarrow> nat \<times> prep_transaction \<Rightarrow> translation_state \<Rightarrow> translation_state outcome" where
  "translate_transaction indices fee layer_index = (\<lambda>(transaction_index, tx) st.
     res_bind (res_map (translate_input indices (ts_coordinates st)) (pt_inputs tx)) (\<lambda>inputs.
     res_bind (translate_outputs (pt_outputs tx) (ts_parts st)) (\<lambda>(outputs, parts).
     res_bind (ok_or (checked_add 64 (length inputs) (length outputs)) (Msg ''Preparation action count overflow''))
       (\<lambda>requested_actions.
     if DENOMINATION_SPLIT_ACTIONS < requested_actions then
       Inl (Message ''Preparation transaction requests {requested_actions} actions instead of at most {DENOMINATION_SPLIT_ACTIONS}''
              [ANat requested_actions, ANat DENOMINATION_SPLIT_ACTIONS])
     else
       res_bind (ok_or (checked_sum_opt 64 (map stage_value inputs)) (Msg ''Preparation input total overflow'')) (\<lambda>input_sum.
       res_bind (ok_or (checked_sum_opt 64 (map so_value outputs)) (Msg ''Preparation output total overflow'')) (\<lambda>output_sum.
       res_bind (ok_or (checked_add 64 output_sum fee) (Msg ''Preparation transaction value overflow'')) (\<lambda>expected.
       if input_sum \<noteq> expected then Inl (Msg ''Preparation transaction does not conserve value'')
       else
         let index = length (ts_stages st) in
         Inr \<lparr>ts_coordinates = (ts_coordinates st)((layer_index, transaction_index) \<mapsto> index),
              ts_stages = ts_stages st @
                [\<lparr>ss_layer_index = layer_index, ss_inputs = inputs, ss_outputs = outputs,
                  ss_fee = fee, ss_requested_actions = requested_actions\<rparr>],
              ts_parts = parts\<rparr>)))))))"

definition translate_layer ::
    "nat list \<Rightarrow> nat \<Rightarrow> nat \<times> prep_transaction list \<Rightarrow> translation_state \<Rightarrow> translation_state outcome" where
  "translate_layer indices fee = (\<lambda>(layer_index, layer) st.
     res_fold (translate_transaction indices fee layer_index) (enumerate 0 layer) st)"

definition translate_preparation_plan ::
    "preparation_plan \<Rightarrow> denomination_plan \<Rightarrow> nat list \<Rightarrow> zatoshi list \<Rightarrow> zatoshi
       \<Rightarrow> padded_denomination_plan outcome" where
  "translate_preparation_plan preparation denominations positive_input_indices funding_values fee =
     res_bind (translate_direct positive_input_indices (pp_direct_funding preparation)
                 (available_parts funding_values)) (\<lambda>(direct, parts).
     res_bind (res_fold (translate_layer positive_input_indices fee) (enumerate 0 (pp_layers preparation))
                 \<lparr>ts_coordinates = Map.empty, ts_stages = [], ts_parts = parts\<rparr>) (\<lambda>st.
     if list_ex (\<lambda>(v, parts). parts \<noteq> []) (ts_parts st) then
       Inl (Msg ''Preparation plan did not assign every migration part'')
     else
       Inr \<lparr>pd_denominations = denominations, pd_stages = ts_stages st,
            pd_layer_count = layer_count preparation,
            pd_direct_inputs = sort_key dm_part_index direct\<rparr>))"

section \<open>Taking part indices\<close>

text \<open>
  The pairs (part, value) that a table still offers. A table is good when its keys are distinct;
  then a part can be taken for every value offered.
\<close>

definition offers :: "part_table \<Rightarrow> (nat \<times> zatoshi) multiset" where
  "offers table = mset (concat (map (\<lambda>(v, ps). map (\<lambda>p. (p, v)) ps) table))"

abbreviation table_ok :: "part_table \<Rightarrow> bool" where
  "table_ok table \<equiv> distinct (map fst table)"

lemma offers_update:
  "table_ok table \<Longrightarrow> offers (AList.update v ps table) + mset (map (\<lambda>p. (p, v)) (case map_of table v of None \<Rightarrow> [] | Some qs \<Rightarrow> qs))
     = offers table + mset (map (\<lambda>p. (p, v)) ps)"
proof (induction table)
  case Nil
  then show ?case by (simp add: offers_def)
next
  case (Cons e table)
  obtain w qs where e: "e = (w, qs)" by (cases e)
  show ?case
  proof (cases "w = v")
    case True
    then show ?thesis by (simp add: e offers_def union_ac)
  next
    case False
    with Cons show ?thesis by (simp add: e offers_def union_assoc)
  qed
qed

lemma offers_push:
  assumes "table_ok table"
  shows "offers (push_part table v p) = add_mset (p, v) (offers table)" and "table_ok (push_part table v p)"
  using offers_update[OF assms, of v "p # (case map_of table v of None \<Rightarrow> [] | Some ps \<Rightarrow> ps)"] assms
  by (simp_all add: push_part_def distinct_update)

lemma available_parts_offers:
  "offers (available_parts funding) = mset (enumerate 0 funding) \<and> table_ok (available_parts funding)"
proof -
  have "offers (foldl (\<lambda>table (p, v). push_part table v p) t xs) = offers t + mset xs
      \<and> table_ok (foldl (\<lambda>table (p, v). push_part table v p) t xs)" if "table_ok t" for t xs
    using that
  proof (induction xs arbitrary: t)
    case (Cons x xs)
    then show ?case by (cases x) (simp add: offers_push)
  qed simp
  from this[of "[]" "rev (enumerate 0 funding)"] show ?thesis
    by (simp add: available_parts_def offers_def)
qed

lemma take_part_index_ok:
  assumes "table_ok table" and "v \<in># image_mset snd (offers table)"
  shows "\<exists>p table'. take_part_index table v = Inr (p, table') \<and> table_ok table'
    \<and> offers table = add_mset (p, v) (offers table')"
proof -
  from assms(2) have "\<exists>qs. (v, qs) \<in> set table \<and> qs \<noteq> []" by (force simp: offers_def)
  then obtain qs where "(v, qs) \<in> set table" "qs \<noteq> []" by blast
  with assms(1) have "map_of table v = Some qs" by simp
  moreover from \<open>qs \<noteq> []\<close> obtain p ps where q: "qs = p # ps" by (cases qs) auto
  ultimately have m: "map_of table v = Some (p # ps)" by simp
  have "offers (AList.update v ps table) + mset (map (\<lambda>p. (p, v)) (p # ps))
      = offers table + mset (map (\<lambda>p. (p, v)) ps)"
    using offers_update[OF assms(1), of v ps] m by simp
  then have "offers table = add_mset (p, v) (offers (AList.update v ps table))" by simp
  with m assms(1) show ?thesis by (simp add: take_part_index_def distinct_update)
qed

lemma offers_empty: "offers table = {#} \<Longrightarrow> \<not> list_ex (\<lambda>(v, parts). parts \<noteq> []) table"
  by (auto simp: offers_def list_ex_iff)


section \<open>The stages of a valid plan\<close>

type_synonym flat_transaction = "nat \<times> nat \<times> prep_transaction"

definition flat_transactions :: "(nat \<times> prep_transaction list) list \<Rightarrow> flat_transaction list" where
  "flat_transactions ls = concat (map (\<lambda>(li, layer). map (\<lambda>(ti, tx). (li, ti, tx)) (enumerate 0 layer)) ls)"

lemma res_fold_map: "res_fold f (map g xs) s = res_fold (\<lambda>x. f (g x)) xs s"
  by (induction xs arbitrary: s) (auto simp: res_bind_def split: sum.splits)

lemma translate_layers_flat:
  "res_fold (translate_layer indices fee) ls st
     = res_fold (\<lambda>(li, x). translate_transaction indices fee li x) (flat_transactions ls) st"
proof (induction ls arbitrary: st)
  case Nil
  then show ?case by (simp add: flat_transactions_def)
next
  case (Cons l ls)
  obtain li layer where l: "l = (li, layer)" by (cases l)
  have "flat_transactions (l # ls) = map (\<lambda>(ti, tx). (li, ti, tx)) (enumerate 0 layer) @ flat_transactions ls"
    by (simp add: flat_transactions_def l)
  moreover have "res_fold (\<lambda>(li, x). translate_transaction indices fee li x)
      (map (\<lambda>(ti, tx). (li, ti, tx)) (enumerate 0 layer)) st
    = res_fold (translate_transaction indices fee li) (enumerate 0 layer) st"
    unfolding res_fold_map by (rule arg_cong[of _ _ "\<lambda>f. res_fold f (enumerate 0 layer) st"]) auto
  ultimately have "res_fold (\<lambda>(li, x). translate_transaction indices fee li x) (flat_transactions (l # ls)) st
    = res_bind (translate_layer indices fee l st)
        (res_fold (\<lambda>(li, x). translate_transaction indices fee li x) (flat_transactions ls))"
    by (simp add: res_fold_append translate_layer_def l)
  then show ?case using Cons.IH by (simp add: res_bind_def split: sum.splits)
qed

lemma set_flat_transactions:
  "(l, t, tx) \<in> set (flat_transactions (enumerate 0 ls)) \<longleftrightarrow> l < length ls \<and> t < length (ls ! l) \<and> ls ! l ! t = tx"
  by (force simp: flat_transactions_def set_enumerate_0)

lemma sorted_flat_transactions: "sorted (map fst (flat_transactions (enumerate 0 ls)))"
proof (induction ls rule: rev_induct)
  case Nil
  then show ?case by (simp add: flat_transactions_def)
next
  case (snoc layer ls)
  have "map fst (map (\<lambda>(ti, tx). (length ls, ti, tx)) (enumerate 0 layer)) = replicate (length layer) (length ls)"
    by (rule nth_equalityI) (auto simp: nth_enumerate_eq)
  moreover have "\<forall>x \<in> set (flat_transactions (enumerate 0 ls)). fst x < length ls"
    using set_flat_transactions[of _ _ _ ls] by (metis prod.collapse)
  ultimately show ?case
    using snoc by (simp add: enumerate_append_eq flat_transactions_def sorted_append less_imp_le)
qed

lemma flat_transactions_snd: "map (\<lambda>(l, t, tx). tx) (flat_transactions (enumerate 0 ls)) = concat ls"
proof (induction ls rule: rev_induct)
  case Nil
  then show ?case by (simp add: flat_transactions_def)
next
  case (snoc layer ls)
  have "map (\<lambda>(l, t, tx). tx) (map (\<lambda>(ti, tx). (length ls, ti, tx)) (enumerate 0 layer)) = layer"
    by (rule nth_equalityI) (auto simp: nth_enumerate_eq)
  with snoc show ?case by (simp add: enumerate_append_eq flat_transactions_def)
qed

text \<open>How a stage reflects its transaction.\<close>

fun output_matches :: "prep_output \<Rightarrow> split_stage_output \<Rightarrow> bool" where
  "output_matches (Funding v) out \<longleftrightarrow> so_value out = v \<and> so_kind out = Migration \<and> so_part_index out \<noteq> None"
| "output_matches (Intermediate v) out \<longleftrightarrow> so_value out = v \<and> so_kind out = Continuation \<and> so_part_index out = None"
| "output_matches (Change v) out \<longleftrightarrow> so_value out = v \<and> so_kind out = OrchardChange \<and> so_part_index out = None"

fun input_matches :: "nat list \<Rightarrow> split_stage_plan list \<Rightarrow> prep_input \<Rightarrow> split_stage_input \<Rightarrow> bool" where
  "input_matches indices stages (Wallet i v) inp \<longleftrightarrow> inp = Original (indices ! i) v \<and> i < length indices"
| "input_matches indices stages (Prior l t k v) inp \<longleftrightarrow>
     (\<exists>s. inp = Prior_Stage s k v \<and> s < length stages \<and> ss_layer_index (stages ! s) = l
        \<and> k < length (ss_outputs (stages ! s))
        \<and> ss_outputs (stages ! s) ! k = \<lparr>so_value = v, so_kind = Continuation, so_part_index = None\<rparr>)"

definition stage_matches ::
    "nat list \<Rightarrow> nat \<Rightarrow> split_stage_plan list \<Rightarrow> flat_transaction \<Rightarrow> split_stage_plan \<Rightarrow> bool" where
  "stage_matches indices fee stages = (\<lambda>(li, ti, tx) stage.
     ss_layer_index stage = li \<and> ss_fee stage = fee \<and> ss_requested_actions stage = action_count tx
     \<and> list_all2 (input_matches indices stages) (pt_inputs tx) (ss_inputs stage)
     \<and> list_all2 output_matches (pt_outputs tx) (ss_outputs stage))"

definition assigned_outputs :: "split_stage_output list \<Rightarrow> (nat \<times> zatoshi) list" where
  "assigned_outputs outs = List.map_filter (\<lambda>out. map_option (\<lambda>p. (p, so_value out)) (so_part_index out)) outs"

definition assigned_stages :: "split_stage_plan list \<Rightarrow> (nat \<times> zatoshi) list" where
  "assigned_stages stages = concat (map (\<lambda>stage. assigned_outputs (ss_outputs stage)) stages)"

lemma translate_outputs_ok:
  assumes "table_ok parts" and "mset (List.map_filter funding_value outs) \<subseteq># image_mset snd (offers parts)"
  shows "\<exists>outputs parts'. translate_outputs outs parts = Inr (outputs, parts') \<and> table_ok parts'
    \<and> offers parts = mset (assigned_outputs outputs) + offers parts' \<and> list_all2 output_matches outs outputs
    \<and> map snd (assigned_outputs outputs) = List.map_filter funding_value outs"
  using assms
proof (induction outs arbitrary: parts)
  case Nil
  then show ?case by (simp add: assigned_outputs_def)
next
  case (Cons out outs)
  show ?case
  proof (cases out)
    case (Funding v)
    with Cons.prems have "v \<in># image_mset snd (offers parts)" by (simp add: map_filter_Cons insert_subset_eq_iff)
    from take_part_index_ok[OF Cons.prems(1) this] obtain p parts1 where p: "take_part_index parts v = Inr (p, parts1)"
      "table_ok parts1" "offers parts = add_mset (p, v) (offers parts1)" by blast
    with Cons.prems Funding have "mset (List.map_filter funding_value outs) \<subseteq># image_mset snd (offers parts1)"
      by (simp add: map_filter_Cons)
    from Cons.IH[OF p(2) this] obtain outputs parts' where IH: "translate_outputs outs parts1 = Inr (outputs, parts')"
      "table_ok parts'" "offers parts1 = mset (assigned_outputs outputs) + offers parts'"
      "list_all2 output_matches outs outputs" "map snd (assigned_outputs outputs) = List.map_filter funding_value outs"
      by blast
    with p Funding show ?thesis by (simp add: assigned_outputs_def map_filter_Cons)
  next
    case (Intermediate v)
    with Cons.prems Cons.IH[OF Cons.prems(1)] show ?thesis
      by (auto simp: assigned_outputs_def map_filter_Cons)
  next
    case (Change v)
    with Cons.prems Cons.IH[OF Cons.prems(1)] show ?thesis
      by (auto simp: assigned_outputs_def map_filter_Cons)
  qed
qed

lemma input_matches_append: "input_matches indices stages inp out \<Longrightarrow> input_matches indices (stages @ later) inp out"
  by (cases inp) (auto simp: nth_append)

lemma stage_matches_append:
  "stage_matches indices fee stages x stage \<Longrightarrow> stage_matches indices fee (stages @ later) x stage"
  unfolding stage_matches_def
  by (auto intro: list_all2_mono input_matches_append split: prod.splits)


abbreviation flat_coord :: "flat_transaction \<Rightarrow> nat \<times> nat" where
  "flat_coord x \<equiv> (fst x, fst (snd x))"

lemma distinct_flat_coords: "distinct (map flat_coord (flat_transactions (enumerate 0 ls)))"
proof (induction ls rule: rev_induct)
  case Nil
  then show ?case by (simp add: flat_transactions_def)
next
  case (snoc layer ls)
  let ?new = "map (\<lambda>(ti, tx). (length ls, ti, tx)) (enumerate 0 layer)"
  have "map flat_coord ?new = map (\<lambda>t. (length ls, t)) [0..<length layer]"
    by (rule nth_equalityI) (auto simp: nth_enumerate_eq)
  then have "distinct (map flat_coord ?new)" by (simp only: distinct_map) (simp add: inj_on_def)
  moreover have "fst x < length ls" if "x \<in> set (flat_transactions (enumerate 0 ls))" for x
    using that set_flat_transactions[of "fst x" "fst (snd x)" "snd (snd x)" ls] by simp
  moreover have "fst x = length ls" if "x \<in> set ?new" for x using that by auto
  moreover have "flat_transactions (enumerate 0 (ls @ [layer])) = flat_transactions (enumerate 0 ls) @ ?new"
    by (simp add: enumerate_append_eq flat_transactions_def)
  ultimately show ?case
    using snoc by (simp only: map_append distinct_append) fastforce
qed

definition translated ::
    "nat list \<Rightarrow> nat \<Rightarrow> (nat \<times> zatoshi) multiset \<Rightarrow> flat_transaction list \<Rightarrow> translation_state \<Rightarrow> bool" where
  "translated indices fee F xs st \<longleftrightarrow>
     length (ts_stages st) = length xs
     \<and> (\<forall>i < length xs. stage_matches indices fee (take i (ts_stages st)) (xs ! i) (ts_stages st ! i))
     \<and> (\<forall>i < length xs. ts_coordinates st (flat_coord (xs ! i)) = Some i)
     \<and> table_ok (ts_parts st) \<and> F = offers (ts_parts st) + mset (assigned_stages (ts_stages st))
     \<and> map snd (assigned_stages (ts_stages st)) = layer_funding (map (\<lambda>(l, t, tx). tx) xs)"

definition translatable ::
    "nat list \<Rightarrow> nat \<Rightarrow> flat_transaction list \<Rightarrow> flat_transaction \<Rightarrow> bool" where
  "translatable indices fee xs = (\<lambda>(li, ti, tx).
     tx_ok fee tx \<and> input_total (pt_inputs tx) < 2 ^ 64
     \<and> (\<forall>inp \<in> set (pt_inputs tx). case inp of
          Wallet i v \<Rightarrow> i < length indices
        | Prior l t k v \<Rightarrow> \<exists>tx'. (l, t, tx') \<in> set xs \<and> k < length (pt_outputs tx') \<and> pt_outputs tx' ! k = Intermediate v))"

lemma translate_input_ok:
  assumes st: "translated indices fee F xs st"
    and inp: "case inp of
          Wallet i v \<Rightarrow> i < length indices
        | Prior l t k v \<Rightarrow> \<exists>tx'. (l, t, tx') \<in> set xs \<and> k < length (pt_outputs tx') \<and> pt_outputs tx' ! k = Intermediate v"
  shows "\<exists>out. translate_input indices (ts_coordinates st) inp = Inr out \<and> input_matches indices (ts_stages st) inp out
    \<and> stage_value out = in_value inp"
proof (cases inp)
  case (Wallet i v)
  with inp show ?thesis by (simp add: list_get_def)
next
  case (Prior l t k v)
  with inp obtain tx' where x: "(l, t, tx') \<in> set xs" "k < length (pt_outputs tx')" "pt_outputs tx' ! k = Intermediate v" by auto
  then obtain i where i: "i < length xs" "xs ! i = (l, t, tx')" by (auto simp: in_set_conv_nth)
  with st have c: "ts_coordinates st (l, t) = Some i" and len: "length (ts_stages st) = length xs"
    and m: "stage_matches indices fee (take i (ts_stages st)) (l, t, tx') (ts_stages st ! i)"
    unfolding translated_def by force+
  from m have l: "ss_layer_index (ts_stages st ! i) = l" and
    all: "list_all2 output_matches (pt_outputs tx') (ss_outputs (ts_stages st ! i))"
    by (auto simp: stage_matches_def)
  from list_all2_nthD[OF all x(2)] list_all2_lengthD[OF all] x
  have "output_matches (Intermediate v) (ss_outputs (ts_stages st ! i) ! k)" "k < length (ss_outputs (ts_stages st ! i))"
    by simp_all
  moreover from this have "ss_outputs (ts_stages st ! i) ! k = \<lparr>so_value = v, so_kind = Continuation, so_part_index = None\<rparr>"
    by (simp del: split_paired_All)
  ultimately show ?thesis using c l i(1) len by (auto simp: Prior)
qed

lemma translate_transaction_ok:
  assumes st: "translated indices fee F xs st" and x: "translatable indices fee xs (li, ti, tx)"
    and new: "(li, ti) \<notin> flat_coord ` set xs"
    and parts: "mset (List.map_filter funding_value (pt_outputs tx)) \<subseteq># image_mset snd (offers (ts_parts st))"
  shows "\<exists>st'. translate_transaction indices fee li (ti, tx) st = Inr st' \<and> translated indices fee F (xs @ [(li, ti, tx)]) st'"
proof -
  have tx: "tx_ok fee tx" "input_total (pt_inputs tx) < 2 ^ 64" using x by (simp_all add: translatable_def)
  have "\<forall>inp \<in> set (pt_inputs tx). \<exists>out. translate_input indices (ts_coordinates st) inp = Inr out
      \<and> input_matches indices (ts_stages st) inp out \<and> stage_value out = in_value inp"
    using x translate_input_ok[OF st] by (simp add: translatable_def)
  then obtain g where g: "\<And>inp. inp \<in> set (pt_inputs tx) \<Longrightarrow> translate_input indices (ts_coordinates st) inp = Inr (g inp)
      \<and> input_matches indices (ts_stages st) inp (g inp) \<and> stage_value (g inp) = in_value inp" by metis
  define inputs where "inputs = map g (pt_inputs tx)"
  have inputs: "res_map (translate_input indices (ts_coordinates st)) (pt_inputs tx) = Inr inputs"
    unfolding inputs_def by (rule res_map_total) (use g in blast)
  have im: "list_all2 (input_matches indices (ts_stages st)) (pt_inputs tx) inputs"
    using g by (auto simp: inputs_def list_all2_conv_all_nth)
  have isum: "map stage_value inputs = map in_value (pt_inputs tx)" using g by (simp add: inputs_def)
  from st have tok: "table_ok (ts_parts st)" by (simp add: translated_def)
  from translate_outputs_ok[OF tok parts] obtain outputs parts' where outs:
    "translate_outputs (pt_outputs tx) (ts_parts st) = Inr (outputs, parts')" "table_ok parts'"
    "offers (ts_parts st) = mset (assigned_outputs outputs) + offers parts'"
    "list_all2 output_matches (pt_outputs tx) outputs"
    "map snd (assigned_outputs outputs) = List.map_filter funding_value (pt_outputs tx)" by blast
  have osum: "map so_value outputs = map out_value (pt_outputs tx)"
  proof -
    have "so_value b = out_value a" if "output_matches a b" for a b using that by (cases a) auto
    with outs(4) show ?thesis by (induction rule: list_all2_induct) auto
  qed
  have len: "length inputs + length outputs = action_count tx"
    using list_all2_lengthD[OF outs(4)] by (simp add: inputs_def action_count_def)
  have cons: "input_total (pt_inputs tx) = output_total (pt_outputs tx) + fee" "action_count tx \<le> 16"
    using tx(1) by (simp_all add: tx_ok_def action_constants)
  let ?stage = "\<lparr>ss_layer_index = li, ss_inputs = inputs, ss_outputs = outputs,
                  ss_fee = fee, ss_requested_actions = action_count tx\<rparr>"
  let ?st = "\<lparr>ts_coordinates = (ts_coordinates st)((li, ti) \<mapsto> length (ts_stages st)),
      ts_stages = ts_stages st @ [?stage], ts_parts = parts'\<rparr>"
  have "translate_transaction indices fee li (ti, tx) st = Inr ?st"
    using cons tx(2) inputs outs(1) len isum osum
    by (simp add: translate_transaction_def DENOMINATION_SPLIT_ACTIONS_def action_constants checked_sum_eq
        checked_add_def input_total_def output_total_def Let_def)
  moreover have "translated indices fee F (xs @ [(li, ti, tx)]) ?st"
  proof -
    have "stage_matches indices fee (ts_stages st) (li, ti, tx) ?stage"
      using im outs(4) by (simp add: stage_matches_def)
    moreover have "\<forall>i. fst (xs ! i) = li \<and> fst (snd (xs ! i)) = ti \<longrightarrow> \<not> i < length xs"
      using new nth_mem[of _ xs] by force
    ultimately show ?thesis
      using st outs(2,3,5)
      unfolding translated_def assigned_stages_def
      by (simp add: nth_append less_Suc_eq union_ac layer_funding_def)
  qed
  ultimately show ?thesis by blast
qed

lemma translate_flat_ok:
  assumes "translated indices fee F xs st" and "distinct (map flat_coord (xs @ rest))"
    and "\<And>ys x zs. rest = ys @ x # zs \<Longrightarrow> translatable indices fee (xs @ ys) x"
    and "mset (layer_funding (map (\<lambda>(l, t, tx). tx) rest)) \<subseteq># image_mset snd (offers (ts_parts st))"
  shows "\<exists>st'. res_fold (\<lambda>(li, x). translate_transaction indices fee li x) rest st = Inr st'
    \<and> translated indices fee F (xs @ rest) st'"
  using assms
proof (induction rest arbitrary: xs st)
  case Nil
  then show ?case by simp
next
  case (Cons x rest)
  obtain li ti tx where x: "x = (li, ti, tx)" by (metis prod_cases3)
  have t: "translatable indices fee xs (li, ti, tx)" using Cons.prems(3)[of "[]" x rest] by (simp add: x)
  have new: "(li, ti) \<notin> flat_coord ` set xs" using Cons.prems(2) by (auto simp: x)
  have fund: "layer_funding (map (\<lambda>(l, t, tx). tx) (x # rest))
      = List.map_filter funding_value (pt_outputs tx) @ layer_funding (map (\<lambda>(l, t, tx). tx) rest)"
    by (simp add: x layer_funding_def)
  have "mset (List.map_filter funding_value (pt_outputs tx))
      \<subseteq># mset (layer_funding (map (\<lambda>(l, t, tx). tx) (x # rest)))" unfolding fund by simp
  from this Cons.prems(4) have "mset (List.map_filter funding_value (pt_outputs tx)) \<subseteq># image_mset snd (offers (ts_parts st))"
    by (rule subset_mset.order_trans)
  from translate_transaction_ok[OF Cons.prems(1) t new this] obtain st' where st':
    "translate_transaction indices fee li (ti, tx) st = Inr st'" "translated indices fee F (xs @ [x]) st'"
    unfolding x by blast
  have "offers (ts_parts st) + mset (assigned_stages (ts_stages st)) = offers (ts_parts st') + mset (assigned_stages (ts_stages st'))"
    using Cons.prems(1) st'(2) by (simp add: translated_def)
  then have "image_mset snd (offers (ts_parts st)) + mset (map snd (assigned_stages (ts_stages st)))
      = image_mset snd (offers (ts_parts st')) + mset (map snd (assigned_stages (ts_stages st')))"
    by (metis image_mset_union mset_map)
  moreover have "map snd (assigned_stages (ts_stages st')) = map snd (assigned_stages (ts_stages st)) @ List.map_filter funding_value (pt_outputs tx)"
    using Cons.prems(1) st'(2) by (simp add: translated_def x layer_funding_def)
  ultimately have "image_mset snd (offers (ts_parts st))
      = image_mset snd (offers (ts_parts st')) + mset (List.map_filter funding_value (pt_outputs tx))"
    by simp
  with Cons.prems(4) fund have "mset (layer_funding (map (\<lambda>(l, t, tx). tx) rest)) \<subseteq># image_mset snd (offers (ts_parts st'))"
    by (simp add: union_commute)
  from Cons.IH[OF st'(2) _ _ this] Cons.prems(2) Cons.prems(3)[of "x # _"]
  have "\<exists>st''. res_fold (\<lambda>(li, x). translate_transaction indices fee li x) rest st' = Inr st''
      \<and> translated indices fee F ((xs @ [x]) @ rest) st''" by simp
  with st'(1) show ?case by (simp add: x)
qed


section \<open>The translation of a valid plan\<close>

lemma translate_direct_ok:
  assumes "table_ok parts" and "\<forall>(i, v) \<in> set direct. i < length indices"
    and "mset (map snd direct) \<subseteq># image_mset snd (offers parts)"
  shows "\<exists>ds parts'. translate_direct indices direct parts = Inr (ds, parts') \<and> table_ok parts'
    \<and> offers parts = mset (map (\<lambda>d. (dm_part_index d, dm_value d)) ds) + offers parts'
    \<and> map (\<lambda>d. (dm_input_index d, dm_value d)) ds = map (\<lambda>(i, v). (indices ! i, v)) direct"
  using assms
proof (induction direct arbitrary: parts)
  case Nil
  then show ?case by simp
next
  case (Cons x direct)
  obtain i v where x: "x = (i, v)" by (cases x)
  with Cons.prems have "v \<in># image_mset snd (offers parts)" by (simp add: insert_subset_eq_iff)
  from take_part_index_ok[OF Cons.prems(1) this] obtain p parts1 where p: "take_part_index parts v = Inr (p, parts1)"
    "table_ok parts1" "offers parts = add_mset (p, v) (offers parts1)" by blast
  with Cons.prems(3) x have sub: "mset (map snd direct) \<subseteq># image_mset snd (offers parts1)" by simp
  from Cons.prems(2) have "\<forall>(i, v) \<in> set direct. i < length indices" by simp
  from Cons.IH[OF p(2) this sub] obtain ds parts' where "translate_direct indices direct parts1 = Inr (ds, parts')"
    "table_ok parts'" "offers parts1 = mset (map (\<lambda>d. (dm_part_index d, dm_value d)) ds) + offers parts'"
    "map (\<lambda>d. (dm_input_index d, dm_value d)) ds = map (\<lambda>(i, v). (indices ! i, v)) direct" by blast
  with p x Cons.prems(2) show ?case by (simp add: list_get_def)
qed

lemma plan_translatable:
  assumes ok: "layers_ok av used fee ls" and len: "length used = length av" "length indices = length av"
    and money: "sum_list av \<le> MAX_MONEY" and split: "flat_transactions (enumerate 0 ls) = ys @ x # zs"
  shows "translatable indices fee ys x"
proof -
  obtain li ti tx where x: "x = (li, ti, tx)" by (metis prod_cases3)
  have "(li, ti, tx) \<in> set (flat_transactions (enumerate 0 ls))" using split x by simp
  then have pos: "li < length ls" "ti < length (ls ! li)" "ls ! li ! ti = tx" by (simp_all add: set_flat_transactions)
  then have txl: "tx \<in> set (ls ! li)" by (metis nth_mem)
  then have txc: "tx \<in> set (concat ls)" using pos(1) by (auto intro!: bexI[of _ "ls ! li"])
  have "input_total (pt_inputs tx) < 2 ^ 64"
    using tx_total_le[OF ok len(1) txc] money by (simp add: MAX_MONEY_def)
  moreover have "tx_ok fee tx" using ok txc by (simp add: layers_ok_def del: set_concat)
  moreover have "case inp of Wallet i v \<Rightarrow> i < length indices
      | Prior l t k v \<Rightarrow> \<exists>tx'. (l, t, tx') \<in> set ys \<and> k < length (pt_outputs tx') \<and> pt_outputs tx' ! k = Intermediate v"
    if inp: "inp \<in> set (pt_inputs tx)" for inp
  proof -
    have r: "ref_ok av used ls li inp" using ok pos(1) txl inp by (simp add: layers_ok_def refs_ok_def)
    show ?thesis
    proof (cases inp)
      case (Wallet i v)
      with r len(2) show ?thesis by simp
    next
      case (Prior l t k v)
      with r have l: "l < li" and o': "output_at ls (l, t, k) = Some (Intermediate v)" by simp_all
      let ?y = "(l, t, ls ! l ! t)"
      from o' have y: "?y \<in> set (ys @ x # zs)" "k < length (pt_outputs (ls ! l ! t))" "pt_outputs (ls ! l ! t) ! k = Intermediate v"
        unfolding split[symmetric] by (auto simp: set_flat_transactions output_at_def split: if_splits)
      moreover have "?y \<noteq> x" using l x by auto
      moreover have "?y \<notin> set zs"
      proof
        assume "?y \<in> set zs"
        then have "fst x \<le> fst ?y"
          using sorted_flat_transactions[of ls] unfolding split by (simp add: sorted_append) force
        with l x show False by simp
      qed
      ultimately show ?thesis by (auto simp: Prior)
    qed
  qed
  ultimately show ?thesis by (simp add: translatable_def x)
qed

definition translation_result ::
    "nat list \<Rightarrow> nat \<Rightarrow> preparation_plan \<Rightarrow> zatoshi list \<Rightarrow> padded_denomination_plan \<Rightarrow> bool" where
  "translation_result indices fee plan funding p \<longleftrightarrow>
     pd_layer_count p = layer_count plan \<and> length (pd_stages p) = transaction_count plan
     \<and> (\<forall>i < length (pd_stages p). stage_matches indices fee (take i (pd_stages p))
          (flat_transactions (enumerate 0 (pp_layers plan)) ! i) (pd_stages p ! i))
     \<and> mset (map (\<lambda>d. (dm_part_index d, dm_value d)) (pd_direct_inputs p)) + mset (assigned_stages (pd_stages p))
         = mset (enumerate 0 funding)
     \<and> mset (map (\<lambda>d. (dm_input_index d, dm_value d)) (pd_direct_inputs p))
         = mset (map (\<lambda>(i, v). (indices ! i, v)) (pp_direct_funding plan))"

lemma translate_plan_ok:
  assumes plan: "plan_ok av fee plan" and money: "sum_list av \<le> MAX_MONEY"
    and fund: "mset (funding_notes plan) = mset funding" and len: "length indices = length av"
  shows "\<exists>p. translate_preparation_plan plan den indices funding fee = Inr p \<and> pd_denominations p = den
    \<and> translation_result indices fee plan funding p"
proof -
  let ?used = "direct_marks av (pp_direct_funding plan)" and ?ls = "pp_layers plan"
  let ?flat = "flat_transactions (enumerate 0 ?ls)" and ?direct = "pp_direct_funding plan"
  from plan have ok: "layers_ok av ?used fee ?ls" and dok: "direct_ok av ?used ?direct" by (simp_all add: plan_ok_def)
  have offers0: "offers (available_parts funding) = mset (enumerate 0 funding)" "table_ok (available_parts funding)"
    using available_parts_offers by blast+
  have vals: "image_mset snd (offers (available_parts funding)) = mset (map snd ?direct) + mset (funding_of ?ls)"
  proof -
    have "image_mset snd (mset (enumerate 0 funding)) = mset funding" by (simp flip: mset_map)
    then show ?thesis
      using fund by (simp add: offers0 funding_notes_def all_outputs_def funding_of_def union_commute)
  qed
  have "\<forall>(i, v) \<in> set ?direct. i < length indices" using dok len by (auto simp: direct_ok_def)
  from translate_direct_ok[OF offers0(2) this, unfolded vals] obtain ds parts where d:
    "translate_direct indices ?direct (available_parts funding) = Inr (ds, parts)" "table_ok parts"
    "offers (available_parts funding) = mset (map (\<lambda>d. (dm_part_index d, dm_value d)) ds) + offers parts"
    "map (\<lambda>d. (dm_input_index d, dm_value d)) ds = map (\<lambda>(i, v). (indices ! i, v)) ?direct"
    by auto
  have "map dm_value ds = map snd (map (\<lambda>d. (dm_input_index d, dm_value d)) ds)" by simp
  then have dv: "map dm_value ds = map snd ?direct" unfolding d(4) by (simp add: case_prod_unfold comp_def)
  have "image_mset snd (offers (available_parts funding)) = mset (map dm_value ds) + image_mset snd (offers parts)"
    unfolding d(3) by (simp add: image_mset.compositionality comp_def)
  with vals dv have pv: "image_mset snd (offers parts) = mset (funding_of ?ls)" by simp
  let ?st = "\<lparr>ts_coordinates = Map.empty, ts_stages = [], ts_parts = parts\<rparr>"
  have fund_flat: "layer_funding (map (\<lambda>(l, t, tx). tx) ?flat) = funding_of ?ls"
    unfolding flat_transactions_snd by (simp add: layer_funding_def funding_of_def)
  have "\<exists>st'. res_fold (\<lambda>(li, x). translate_transaction indices fee li x) ?flat ?st = Inr st'
      \<and> translated indices fee (offers parts) ([] @ ?flat) st'"
  proof (rule translate_flat_ok)
    show "translated indices fee (offers parts) [] ?st"
      using d(2) by (simp add: translated_def assigned_stages_def)
    show "distinct (map flat_coord ([] @ ?flat))" using distinct_flat_coords by simp
    show "mset (layer_funding (map (\<lambda>(l, t, tx). tx) ?flat)) \<subseteq># image_mset snd (offers (ts_parts ?st))"
      unfolding fund_flat by (simp add: pv)
    fix ys x zs assume "?flat = ys @ x # zs"
    from plan_translatable[OF ok _ len money this] show "translatable indices fee ([] @ ys) x" by simp
  qed
  then obtain st' where st': "res_fold (translate_layer indices fee) (enumerate 0 ?ls) ?st = Inr st'"
    "translated indices fee (offers parts) ?flat st'" unfolding translate_layers_flat by auto
  have flen: "length ?flat = transaction_count plan"
    using flat_transactions_snd[of ?ls] by (metis length_concat length_map transaction_count_def)
  have "image_mset snd (offers (ts_parts st')) = {#}"
  proof -
    have "image_mset snd (offers parts) = image_mset snd (offers (ts_parts st')) + mset (map snd (assigned_stages (ts_stages st')))"
      using st'(2) by (metis image_mset_union mset_map translated_def)
    moreover have "map snd (assigned_stages (ts_stages st')) = funding_of ?ls"
      using st'(2) fund_flat by (simp add: translated_def)
    ultimately show ?thesis using pv by simp
  qed
  then have none: "offers (ts_parts st') = {#}" by simp
  let ?p = "\<lparr>pd_denominations = den, pd_stages = ts_stages st',
            pd_layer_count = layer_count plan, pd_direct_inputs = sort_key dm_part_index ds\<rparr>"
  have "translate_preparation_plan plan den indices funding fee = Inr ?p"
    using d(1) st'(1) offers_empty[OF none] by (simp add: translate_preparation_plan_def)
  moreover have "translation_result indices fee plan funding ?p"
    using st'(2) flen d(3,4) none offers0(1)
    unfolding translation_result_def translated_def by (simp flip: d(4))
  ultimately show ?thesis by (intro exI[of _ ?p]) simp
qed

end
