(* ===== verification/Planner_Interface.thy ===== *)
theory Planner_Interface
  imports Stage_Translation
begin

text \<open>
  The contract on which the denomination planner relies when it calls the preparation planner, as
  a locale, and its interpretation on \<open>plan_preparation\<close>. A client may assume that a returned plan
  is executable, funds what was asked, stays affordable, does not depend on the order of the
  requested values, and that \<open>BalanceInvalid\<close> means what it says. The lemmas of the locale are
  the facts the client needs: the plan translates into stages, and its commitment stays within the
  available notes.
\<close>

locale preparation_planner =
  fixes planner :: "zatoshi list \<Rightarrow> zatoshi list \<Rightarrow> zatoshi \<Rightarrow> prep_error + preparation_plan"
  assumes executable: "planner av funding fee = Inr plan \<Longrightarrow> plan_ok av fee plan"
    and funds: "planner av funding fee = Inr plan \<Longrightarrow> mset (funding_notes plan) = mset (filter (\<lambda>v. 0 < v) funding)"
    and money: "planner av funding fee = Inr plan \<Longrightarrow> sum_list av \<le> MAX_MONEY"
    and affordable: "planner av funding fee = Inr plan \<Longrightarrow>
        sum_list funding + sum_list (residual_notes plan) + fee * transaction_count plan \<le> sum_list av"
    and invalid: "planner av funding fee = Inl BalanceInvalid \<Longrightarrow>
        MAX_MONEY < sum_list av \<or> MAX_MONEY < sum_list funding"
    and order_irrelevant: "mset funding = mset funding' \<Longrightarrow> planner av funding fee = planner av funding' fee"
begin

lemma translates:
  assumes "planner av funding fee = Inr plan" and "mset parts = mset funding" and "\<forall>v \<in> set funding. 0 < v"
    and "length indices = length av"
  shows "\<exists>p. translate_preparation_plan plan den indices parts fee = Inr p \<and> pd_denominations p = den
    \<and> translation_result indices fee plan parts p"
proof -
  have "filter (\<lambda>v. 0 < v) funding = funding" using assms(3) by (simp add: filter_id_conv)
  with funds[OF assms(1)] assms(2) have "mset (funding_notes plan) = mset parts" by simp
  from translate_plan_ok[OF executable[OF assms(1)] money[OF assms(1)] this assms(4)] show ?thesis .
qed

lemma commitment:
  assumes "planner av funding fee = Inr plan"
  shows "sum_list funding + fee * transaction_count plan \<le> sum_list av"
    and "sum_list funding + fee * transaction_count plan < 2 ^ 64"
proof -
  show "sum_list funding + fee * transaction_count plan \<le> sum_list av" using affordable[OF assms] by simp
  with money[OF assms] show "sum_list funding + fee * transaction_count plan < 2 ^ 64" by (simp add: MAX_MONEY_def)
qed

end

lemma plan_preparation_mset:
  assumes "mset funding = mset funding'"
  shows "plan_preparation av funding fee = plan_preparation av funding' fee"
proof -
  have s: "sort_desc (filter (\<lambda>v. 0 < v) funding) = sort_desc (filter (\<lambda>v. 0 < v) funding')"
    using assms by (intro sort_desc_cong) simp
  have "greedy_plan av funding fee = greedy_plan av funding' fee"
    "consolidating_plan av funding fee = consolidating_plan av funding' fee"
    unfolding greedy_plan_def consolidating_plan_def s by (rule refl)+
  moreover have "sum_list funding = sum_list funding'" using assms by (rule sum_list_mset_cong)
  ultimately show ?thesis by (simp add: plan_preparation_eq split: sum.split prep_error.split)
qed

lemma plan_preparation_invalid:
  "plan_preparation av funding fee = Inl BalanceInvalid \<Longrightarrow> MAX_MONEY < sum_list av \<or> MAX_MONEY < sum_list funding"
  using greedy_plan_error[of av funding fee] consolidating_plan_error[of av funding fee]
  by (auto simp: plan_preparation_eq split: sum.splits prep_error.splits if_splits)

interpretation prep: preparation_planner plan_preparation
proof
  fix av funding funding' :: "zatoshi list" and fee :: zatoshi and plan
  show "plan_preparation av funding fee = Inr plan \<Longrightarrow> plan_ok av fee plan"
    using plan_preparation_result by (simp add: plan_result_def)
  show "plan_preparation av funding fee = Inr plan \<Longrightarrow> mset (funding_notes plan) = mset (filter (\<lambda>v. 0 < v) funding)"
    using plan_preparation_result by (simp add: plan_result_def)
  show "plan_preparation av funding fee = Inr plan \<Longrightarrow> sum_list av \<le> MAX_MONEY"
    by (rule plan_preparation_totals)
  show "plan_preparation av funding fee = Inr plan \<Longrightarrow>
      sum_list funding + sum_list (residual_notes plan) + fee * transaction_count plan \<le> sum_list av"
    by (rule plan_preparation_fits)
  show "plan_preparation av funding fee = Inl BalanceInvalid \<Longrightarrow> MAX_MONEY < sum_list av \<or> MAX_MONEY < sum_list funding"
    by (rule plan_preparation_invalid)
  show "mset funding = mset funding' \<Longrightarrow> plan_preparation av funding fee = plan_preparation av funding' fee"
    by (rule plan_preparation_mset)
qed

end
