(* ===== verification/Split_Planning.thy ===== *)
theory Split_Planning
  imports Refinement Planner_Interface
begin

text \<open>
  The padded denomination planner of split_plan.rs: it picks canonical denominations while the
  preparation planner can still fund them, optionally refining the largest, and translates the
  final preparation. The refiner is the closure argument of the source, with its captured state
  threaded through; the loop over denominations terminates because every accepted candidate
  adds at least the smallest denomination while the committed value stays within the inputs.
\<close>

section \<open>Context and committed value\<close>

record planning_context =
  pc_indices :: "nat list"
  pc_total :: zatoshi
  pc_available :: "zatoshi list"
  pc_prep_fee :: zatoshi

definition APPROVED_PLAN_STALE_ERROR :: message where
  "APPROVED_PLAN_STALE_ERROR =
     Msg ''Approved migration plan no longer matches the spendable Orchard balance. Review the migration plan again.''"

definition APPROVED_PLAN_ORDER_ERROR :: message where
  "APPROVED_PLAN_ORDER_ERROR =
     Msg ''Approved migration denominations are not in canonical part order. Review the migration plan again.''"

definition planning_context :: "zatoshi list \<Rightarrow> zatoshi \<Rightarrow> zatoshi \<Rightarrow> planning_context option outcome" where
  "planning_context input_values fee minimum_output =
     (let indices = filter (\<lambda>i. 0 < input_values ! i) [0..<length input_values] in
      if indices = [] then Inr None
      else if fee = 0 then Inl (Msg ''Padded denomination stage fee must be positive'')
      else if minimum_output \<noteq> 1 then
        Inl (Msg ''Padded denomination stages require a 1-zatoshi minimum output to preserve the exact ZIP 317 fee'')
      else
        let vals = map (\<lambda>i. input_values ! i) indices in
        res_bind (ok_or (checked_sum_opt 64 vals) (Msg ''Selected Orchard value overflow'')) (\<lambda>total.
        res_bind (res_map (\<lambda>v. ok_or (zatoshis_from_u64 v) (Msg ''Selected Orchard note exceeds the maximum money supply'')) vals)
          (\<lambda>available.
        res_bind (ok_or (zatoshis_from_u64 fee) (Msg ''Padded denomination fee is invalid'')) (\<lambda>prep_fee.
          Inr (Some \<lparr>pc_indices = indices, pc_total = total, pc_available = available,
                     pc_prep_fee = prep_fee\<rparr>)))))"

definition committed_value :: "zatoshi list \<Rightarrow> preparation_plan \<Rightarrow> zatoshi \<Rightarrow> nat outcome" where
  "committed_value funding preparation fee =
     res_bind (checked_sum funding ''Migration funding total overflow'') (\<lambda>funding_total.
     res_bind (ok_or (checked_mul 64 fee (transaction_count preparation)) (Msg ''Preparation fee total overflow''))
       (\<lambda>prep_fees.
     ok_or (checked_add 64 funding_total prep_fees) (Msg ''Migration committed value overflow'')))"

text \<open>The prepared note of a crossing carries the crossing and its migration fee.\<close>

definition funding_for_crossings :: "zatoshi list \<Rightarrow> zatoshi \<Rightarrow> zatoshi list outcome" where
  "funding_for_crossings crossing_values migration_fee =
     res_map (\<lambda>crossing. ok_or (checked_add 64 crossing migration_fee)
                (Msg ''Prepared migration note value overflow'')) crossing_values"

definition typed_funding :: "zatoshi list \<Rightarrow> zatoshi list outcome" where
  "typed_funding funding_values =
     res_map (\<lambda>v. ok_or (zatoshis_from_u64 v) (Msg ''Prepared migration note value is invalid'')) funding_values"

definition preparation_for_crossings ::
    "planning_context \<Rightarrow> zatoshi list \<Rightarrow> zatoshi \<Rightarrow> zatoshi \<Rightarrow> (zatoshi list \<times> preparation_plan) option outcome" where
  "preparation_for_crossings context crossing_values fee migration_fee =
     res_bind (funding_for_crossings crossing_values migration_fee) (\<lambda>funding_values.
     res_bind (typed_funding funding_values) (\<lambda>typed_funding.
     case plan_preparation (pc_available context) typed_funding (pc_prep_fee context) of
       Inl InsufficientFunds \<Rightarrow> Inr None
     | Inl BalanceInvalid \<Rightarrow> Inl (Msg ''Migration preparation balance is invalid'')
     | Inr candidate \<Rightarrow>
         res_bind (committed_value funding_values candidate fee) (\<lambda>committed.
           Inr (if committed \<le> pc_total context then Some (funding_values, candidate) else None))))"

definition minimum_funding_note :: "zatoshi \<Rightarrow> nat outcome" where
  "minimum_funding_note migration_fee =
     ok_or (checked_add 64 ZIP318_MAX_RESIDUAL_VALUE_ZATOSHI migration_fee) (Msg ''Minimum migration funding note overflow'')"

section \<open>Choosing the next denomination\<close>

fun try_candidates ::
    "planning_context \<Rightarrow> zatoshi list \<Rightarrow> zatoshi \<Rightarrow> zatoshi \<Rightarrow> zatoshi list list
       \<Rightarrow> (zatoshi list \<times> zatoshi list \<times> preparation_plan) option outcome" where
  "try_candidates context crossing fee migration_fee [] = Inr None"
| "try_candidates context crossing fee migration_fee (candidate # candidates) =
     res_bind (preparation_for_crossings context (crossing @ candidate) fee migration_fee) (\<lambda>result.
       case result of
         Some (funding, preparation) \<Rightarrow> Inr (Some (crossing @ candidate, funding, preparation))
       | None \<Rightarrow> try_candidates context crossing fee migration_fee candidates)"

function select_denomination ::
    "planning_context \<Rightarrow> (zatoshi \<Rightarrow> 'r \<Rightarrow> denomination_refinement \<times> 'r) \<Rightarrow> zatoshi list \<Rightarrow> zatoshi \<Rightarrow> zatoshi
       \<Rightarrow> zatoshi \<Rightarrow> 'r \<Rightarrow> ((zatoshi list \<times> zatoshi list \<times> preparation_plan) option \<times> 'r) outcome" where
  "select_denomination context refine crossing fee migration_fee affordable rng =
     (if affordable < ZIP318_MAX_RESIDUAL_VALUE_ZATOSHI then Inr (None, rng)
      else case largest_zip318_denomination_at_or_below affordable of
        None \<Rightarrow> Inr (None, rng)
      | Some greedy \<Rightarrow>
          let (refinement, rng') = refine greedy rng in
          if rf_value refinement \<noteq> greedy then
            Inl (Msg ''Denomination refinement must preserve the selected value'')
          else
            res_bind (refinement_candidates refinement) (\<lambda>candidates.
            res_bind (try_candidates context crossing fee migration_fee candidates) (\<lambda>accepted.
              if accepted \<noteq> None \<or> greedy = ZIP318_MAX_RESIDUAL_VALUE_ZATOSHI then Inr (accepted, rng')
              else select_denomination context refine crossing fee migration_fee (greedy - 1) rng')))"
  by auto

termination
  by (relation "measure (\<lambda>(context, refine, crossing, fee, migration_fee, affordable, rng). affordable)")
    (auto dest!: largest_zip318_canonical)

declare select_denomination.simps [simp del]

lemma funding_for_crossings_iff:
  "funding_for_crossings crossing mfee = Inr fs \<longleftrightarrow> fs = map (\<lambda>c. c + mfee) crossing \<and> (\<forall>v \<in> set fs. v < 2 ^ 64)"
  unfolding funding_for_crossings_def
  by (induction crossing arbitrary: fs) (auto simp: res_simps checked_simps)

lemma typed_funding_iff: "typed_funding fs = Inr ts \<longleftrightarrow> ts = fs \<and> (\<forall>v \<in> set fs. v \<le> MAX_MONEY)"
  unfolding typed_funding_def
  by (induction fs arbitrary: ts) (auto simp: res_simps checked_simps)

lemma committed_value_iff:
  "committed_value funding preparation fee = Inr c \<longleftrightarrow>
     c = sum_list funding + fee * transaction_count preparation \<and> c < 2 ^ 64"
  by (auto simp: committed_value_def checked_sum_def checked_sum_eq res_simps checked_simps split: if_splits)

lemma preparation_for_crossings_Some:
  "preparation_for_crossings context crossing fee mfee = Inr (Some (funding, preparation)) \<longleftrightarrow>
     funding = map (\<lambda>c. c + mfee) crossing \<and> (\<forall>v \<in> set funding. v \<le> MAX_MONEY)
     \<and> plan_preparation (pc_available context) funding (pc_prep_fee context) = Inr preparation
     \<and> sum_list funding + fee * transaction_count preparation \<le> pc_total context
     \<and> sum_list funding + fee * transaction_count preparation < 2 ^ 64"
proof -
  have "v \<le> MAX_MONEY \<Longrightarrow> v < 2 ^ 64" for v by (simp add: MAX_MONEY_def)
  then show ?thesis
    by (auto simp: preparation_for_crossings_def res_bind_Inr_iff funding_for_crossings_iff typed_funding_iff
        committed_value_iff split: sum.splits prep_error.splits)
qed

lemma try_candidates_Some:
  "try_candidates context crossing fee mfee cs = Inr (Some (crossing', funding, preparation)) \<Longrightarrow>
     \<exists>c \<in> set cs. crossing' = crossing @ c
       \<and> preparation_for_crossings context crossing' fee mfee = Inr (Some (funding, preparation))"
  by (induction cs) (auto simp: res_simps split: option.splits)

lemma select_denomination_unfold:
  assumes "select_denomination context refine crossing fee mfee affordable rng = Inr res"
    and "\<not> affordable < ZIP318_MAX_RESIDUAL_VALUE_ZATOSHI"
    and "largest_zip318_denomination_at_or_below affordable = Some greedy"
    and "refine greedy rng = (r, rng1)"
  shows "\<exists>candidates accepted. rf_value r = greedy \<and> refinement_candidates r = Inr candidates
    \<and> try_candidates context crossing fee mfee candidates = Inr accepted
    \<and> (if accepted \<noteq> None \<or> greedy = ZIP318_MAX_RESIDUAL_VALUE_ZATOSHI then Inr (accepted, rng1)
        else select_denomination context refine crossing fee mfee (greedy - 1) rng1) = Inr res"
proof -
  have "rf_value r = greedy" and "res_bind (refinement_candidates r) (\<lambda>candidates.
      res_bind (try_candidates context crossing fee mfee candidates) (\<lambda>accepted.
        if accepted \<noteq> None \<or> greedy = ZIP318_MAX_RESIDUAL_VALUE_ZATOSHI then Inr (accepted, rng1)
        else select_denomination context refine crossing fee mfee (greedy - 1) rng1)) = Inr res"
    using assms by (simp_all add: select_denomination.simps[of "context" refine crossing fee mfee affordable] split: if_split_asm)
  then show ?thesis unfolding res_bind_Inr_iff by blast
qed

lemma select_denomination_Some:
  assumes "select_denomination context refine crossing fee mfee affordable rng = Inr (Some (crossing', funding, preparation), rng')"
  shows "\<exists>c v. crossing' = crossing @ c \<and> candidate_ok v c \<and> 1000000 \<le> v \<and> v \<le> affordable
    \<and> preparation_for_crossings context crossing' fee mfee = Inr (Some (funding, preparation))"
  using assms
proof (induction "context" refine crossing fee mfee affordable rng rule: select_denomination.induct)
  case (1 ctx refine crossing fee mfee affordable rng)
  from "1.prems" obtain greedy where big: "\<not> affordable < ZIP318_MAX_RESIDUAL_VALUE_ZATOSHI"
    and greedy: "largest_zip318_denomination_at_or_below affordable = Some greedy"
    by (auto simp: select_denomination.simps[of ctx refine] split: if_splits option.splits)
  obtain r rng1 where r: "refine greedy rng = (r, rng1)" by (cases "refine greedy rng")
  from "1.prems" big greedy r obtain candidates accepted where v: "rf_value r = greedy"
    and cand: "refinement_candidates r = Inr candidates"
    and tried: "try_candidates ctx crossing fee mfee candidates = Inr accepted"
    and rest: "(if accepted \<noteq> None \<or> greedy = ZIP318_MAX_RESIDUAL_VALUE_ZATOSHI then Inr (accepted, rng1)
      else select_denomination ctx refine crossing fee mfee (greedy - 1) rng1)
      = Inr (Some (crossing', funding, preparation), rng')"
    by (auto simp: select_denomination.simps[of ctx refine] res_simps split: if_splits)
  note gr = largest_zip318_canonical[OF greedy]
  show ?case
  proof (cases "accepted = None")
    case False
    with rest have "accepted = Some (crossing', funding, preparation)" by simp
    from try_candidates_Some[OF tried[unfolded this]] refinement_candidates_spec(1)[OF cand] v gr
    show ?thesis by auto
  next
    case True
    with rest have "greedy \<noteq> ZIP318_MAX_RESIDUAL_VALUE_ZATOSHI" by auto
    with rest True have "select_denomination ctx refine crossing fee mfee (greedy - 1) rng1
      = Inr (Some (crossing', funding, preparation), rng')" by simp
    from "1.IH"[OF big greedy r[symmetric] refl _ cand tried _ this] v True \<open>greedy \<noteq> _\<close> gr
    obtain c v where "crossing' = crossing @ c" "candidate_ok v c" "1000000 \<le> v" "v \<le> greedy - 1"
      "preparation_for_crossings ctx crossing' fee mfee = Inr (Some (funding, preparation))" by auto
    moreover from this(4) gr have "v \<le> affordable" by linarith
    ultimately show ?thesis by blast
  qed
qed

section \<open>Filling the balance\<close>

lemma sum_list_map_add: "sum_list (map (\<lambda>c. c + k) cs) = sum_list cs + length cs * (k :: nat)"
  by (induction cs) auto

lemma accepted_grows:
  assumes "select_denomination context refine crossing fee mfee affordable rng = Inr (Some (crossing', funding, preparation), rng')"
  shows "sum_list crossing < sum_list crossing' \<and> sum_list crossing' \<le> pc_total context"
proof -
  from select_denomination_Some[OF assms] obtain c v where c: "crossing' = crossing @ c" "candidate_ok v c" "1000000 \<le> v"
    and prep: "preparation_for_crossings context crossing' fee mfee = Inr (Some (funding, preparation))" by blast
  from prep[unfolded preparation_for_crossings_Some] have "sum_list crossing' \<le> pc_total context"
    by (auto simp: sum_list_map_add)
  with c show ?thesis by (auto simp: candidate_ok_def)
qed

function fill_balance ::
    "planning_context \<Rightarrow> (zatoshi \<Rightarrow> 'r \<Rightarrow> denomination_refinement \<times> 'r) \<Rightarrow> zatoshi \<Rightarrow> zatoshi \<Rightarrow> nat
       \<Rightarrow> zatoshi list \<Rightarrow> zatoshi list \<Rightarrow> preparation_plan \<Rightarrow> 'r
       \<Rightarrow> (zatoshi list \<times> zatoshi list \<times> preparation_plan) outcome" where
  "fill_balance context refine fee migration_fee minimum_note crossing funding preparation rng =
     res_bind (committed_value funding preparation fee) (\<lambda>committed.
       let budget = pc_total context - committed in
       if budget < minimum_note then Inr (crossing, funding, preparation)
       else
         let affordable = min (budget - migration_fee) ZIP318_MAX_MIGRATION_DENOMINATION_ZATOSHI in
         res_bind (select_denomination context refine crossing fee migration_fee affordable rng) (\<lambda>(accepted, rng).
           case accepted of
             None \<Rightarrow> Inr (crossing, funding, preparation)
           | Some (crossing', funding', preparation') \<Rightarrow>
               fill_balance context refine fee migration_fee minimum_note crossing' funding' preparation' rng))"
  by auto

termination
proof (relation "measure (\<lambda>(context, refine, fee, migration_fee, m, crossing, funding, preparation, rng).
    Suc (pc_total context) - sum_list crossing)", goal_cases)
  case 1
  show ?case by simp
next
  case (2 ctx refine fee mfee m crossing funding preparation rng committed budget affordable pair accepted rng' a crossing' y funding' preparation')
  then have "select_denomination ctx refine crossing fee mfee affordable rng = Inr (Some (crossing', funding', preparation'), rng')"
    by simp
  from accepted_grows[OF this] have "sum_list crossing < sum_list crossing'" "sum_list crossing' \<le> pc_total ctx" by simp_all
  then show ?case by simp
qed

declare fill_balance.simps [simp del]


section \<open>Finishing a plan\<close>

definition finish_plan ::
    "planning_context \<Rightarrow> zatoshi list \<Rightarrow> zatoshi list \<Rightarrow> preparation_plan \<Rightarrow> zatoshi \<Rightarrow> zatoshi \<Rightarrow> zatoshi
       \<Rightarrow> padded_denomination_plan option outcome" where
  "finish_plan context crossing_values funding_values preparation fee migration_fee minimum_output =
     (if crossing_values = [] then Inr None
      else if length crossing_values \<noteq> length funding_values then
        Inl (Msg ''Migration denomination and funding note counts differ'')
      else
        let denomination_funding = sort_desc_by fst (zip crossing_values funding_values);
            crossing_values = map fst denomination_funding;
            funding_values = map snd denomination_funding
        in
        res_bind (ok_or (checked_mul 64 fee (transaction_count preparation)) (Msg ''Preparation fee total overflow''))
          (\<lambda>split_fee.
        res_bind (checked_sum funding_values ''Migration funding total overflow'') (\<lambda>funding_total.
        res_bind (ok_or (Option.bind (checked_sub (pc_total context) funding_total) (\<lambda>v. checked_sub v split_fee))
                    (Msg ''Migration preparation plan exceeds selected Orchard value'')) (\<lambda>remaining.
        res_bind (checked_sum crossing_values ''Migratable denomination total overflow'') (\<lambda>total_migratable.
        let denominations =
              \<lparr>migration_outputs = crossing_values,
               orchard_change = (if minimum_output \<le> remaining then Some remaining else None),
               split_fee_zatoshi = split_fee, migration_fee_zatoshi = migration_fee,
               total_input_zatoshi = pc_total context, total_migratable_zatoshi = total_migratable\<rparr>
        in res_bind (translate_preparation_plan preparation denominations (pc_indices context) funding_values fee)
             (\<lambda>plan. Inr (Some plan)))))))"

definition empty_preparation :: preparation_plan where
  "empty_preparation = \<lparr>pp_layers = [], pp_direct_funding = []\<rparr>"

definition plan_padded_denominations_with_refiner ::
    "zatoshi list \<Rightarrow> zatoshi \<Rightarrow> zatoshi \<Rightarrow> zatoshi \<Rightarrow> (zatoshi \<Rightarrow> 'r \<Rightarrow> denomination_refinement \<times> 'r) \<Rightarrow> 'r
       \<Rightarrow> padded_denomination_plan option outcome" where
  "plan_padded_denominations_with_refiner input_values fee migration_fee minimum_output refine rng =
     res_bind (planning_context input_values fee minimum_output) (\<lambda>context.
       case context of None \<Rightarrow> Inr None
     | Some context \<Rightarrow>
         res_bind (minimum_funding_note migration_fee) (\<lambda>minimum_note.
         res_bind (fill_balance context refine fee migration_fee minimum_note [] [] empty_preparation rng)
           (\<lambda>(crossing, funding, preparation).
             finish_plan context crossing funding preparation fee migration_fee minimum_output)))"

definition plan_padded_denominations_with_policy_and_rng ::
    "('r \<Rightarrow> nat \<times> 'r) \<Rightarrow> denomination_refinement_policy \<Rightarrow> zatoshi list \<Rightarrow> zatoshi \<Rightarrow> zatoshi \<Rightarrow> zatoshi \<Rightarrow> 'r
       \<Rightarrow> padded_denomination_plan option outcome" where
  "plan_padded_denominations_with_policy_and_rng next_u32 policy input_values fee migration_fee minimum_output rng =
     plan_padded_denominations_with_refiner input_values fee migration_fee minimum_output
       (refine_denomination next_u32 policy) rng"

definition plan_padded_denominations ::
    "('r \<Rightarrow> nat \<times> 'r) \<Rightarrow> zatoshi list \<Rightarrow> zatoshi \<Rightarrow> zatoshi \<Rightarrow> zatoshi \<Rightarrow> 'r
       \<Rightarrow> padded_denomination_plan option outcome" where
  "plan_padded_denominations next_u32 input_values fee migration_fee minimum_output rng =
     plan_padded_denominations_with_policy_and_rng next_u32 AGGRESSIVE_REFINEMENT_POLICY
       input_values fee migration_fee minimum_output rng"

definition plan_padded_denominations_without_refinement ::
    "zatoshi list \<Rightarrow> zatoshi \<Rightarrow> zatoshi \<Rightarrow> zatoshi \<Rightarrow> padded_denomination_plan option outcome" where
  "plan_padded_denominations_without_refinement input_values fee migration_fee minimum_output =
     plan_padded_denominations_with_refiner input_values fee migration_fee minimum_output
       (\<lambda>v (u :: unit). (refinement_leaf v, u)) ()"

section \<open>Replaying approved targets\<close>

function can_append_loop ::
    "planning_context \<Rightarrow> zatoshi list \<Rightarrow> zatoshi \<Rightarrow> zatoshi \<Rightarrow> zatoshi \<Rightarrow> bool outcome" where
  "can_append_loop context trial fee migration_fee affordable =
     (if affordable < ZIP318_MAX_RESIDUAL_VALUE_ZATOSHI then Inr False
      else case largest_zip318_denomination_at_or_below affordable of
        None \<Rightarrow> Inr False
      | Some crossing \<Rightarrow>
          res_bind (preparation_for_crossings context (trial @ [crossing]) fee migration_fee) (\<lambda>result.
            if result \<noteq> None then Inr True
            else if crossing = ZIP318_MAX_RESIDUAL_VALUE_ZATOSHI then Inr False
            else can_append_loop context trial fee migration_fee (crossing - 1)))"
  by auto

termination
  by (relation "measure (\<lambda>(context, trial, fee, migration_fee, affordable). affordable)")
    (auto dest!: largest_zip318_canonical)

declare can_append_loop.simps [simp del]

definition can_append_canonical_denomination ::
    "planning_context \<Rightarrow> zatoshi list \<Rightarrow> zatoshi list \<Rightarrow> preparation_plan \<Rightarrow> zatoshi \<Rightarrow> zatoshi \<Rightarrow> bool outcome" where
  "can_append_canonical_denomination context crossing_values funding_values preparation fee migration_fee =
     res_bind (committed_value funding_values preparation fee) (\<lambda>committed.
     let budget = pc_total context - committed in
     res_bind (minimum_funding_note migration_fee) (\<lambda>minimum_note.
       if budget < minimum_note then Inr False
       else can_append_loop context crossing_values fee migration_fee
              (min (budget - migration_fee) ZIP318_MAX_MIGRATION_DENOMINATION_ZATOSHI)))"

text \<open>\<open>windows(2).all(|pair| pair[0] >= pair[1])\<close>.\<close>

fun non_increasing :: "nat list \<Rightarrow> bool" where
  "non_increasing (x # y # zs) \<longleftrightarrow> y \<le> x \<and> non_increasing (y # zs)"
| "non_increasing _ \<longleftrightarrow> True"

definition plan_padded_denominations_for_targets ::
    "zatoshi list \<Rightarrow> zatoshi list \<Rightarrow> zatoshi \<Rightarrow> zatoshi \<Rightarrow> zatoshi \<Rightarrow> padded_denomination_plan option outcome" where
  "plan_padded_denominations_for_targets input_values targets fee migration_fee minimum_output =
     (if targets = [] then Inr None
      else case find (\<lambda>v. \<not> is_zip318_canonical_denomination v) targets of
        Some v \<Rightarrow> Inl (Message ''Approved migration denomination {value} is not canonical'' [ANat v])
      | None \<Rightarrow>
      if \<not> non_increasing targets then Inl APPROVED_PLAN_ORDER_ERROR
      else
        res_bind (planning_context input_values fee minimum_output) (\<lambda>context. case context of
          None \<Rightarrow> Inl APPROVED_PLAN_STALE_ERROR
        | Some context \<Rightarrow>
          res_bind (preparation_for_crossings context targets fee migration_fee) (\<lambda>result. case result of
            None \<Rightarrow> Inl APPROVED_PLAN_STALE_ERROR
          | Some (funding, preparation) \<Rightarrow>
            res_bind (can_append_canonical_denomination context targets funding preparation fee migration_fee)
              (\<lambda>more. if more then Inl APPROVED_PLAN_STALE_ERROR
                 else finish_plan context targets funding preparation fee migration_fee minimum_output))))"

end
