(* ===== verification/Split_Lemmas.thy ===== *)
theory Split_Lemmas
  imports Split_Planning
begin

text \<open>
  Facts about the denomination planner: the outcome of a preparation depends only on the multiset of
  crossings, the choice of a denomination fails only when no single canonical denomination fits,
  finishing a plan commutes with sorting, and no step of planning reports an internal error.
\<close>

section \<open>Order of the crossings\<close>

lemma funding_for_crossings_eq:
  "funding_for_crossings crossing mfee = (if \<forall>c \<in> set crossing. c + mfee < 2 ^ 64
     then Inr (map (\<lambda>c. c + mfee) crossing) else Inl (Msg ''Prepared migration note value overflow''))"
  unfolding funding_for_crossings_def
  by (induction crossing) (auto simp: checked_add_def ok_or_def)

lemma typed_funding_eq:
  "typed_funding fs = (if \<forall>v \<in> set fs. v \<le> MAX_MONEY then Inr fs
     else Inl (Msg ''Prepared migration note value is invalid''))"
  unfolding typed_funding_def
  by (induction fs) (auto simp: zatoshis_from_u64_def)

lemma committed_value_sum:
  "sum_list fs = sum_list fs' \<Longrightarrow> committed_value fs p fee = committed_value fs' p fee"
  by (simp add: committed_value_def checked_sum_def checked_sum_eq)

lemma preparation_mset:
  assumes m: "mset crossing = mset crossing'"
    and r: "preparation_for_crossings ctx crossing fee mfee = r"
  shows "preparation_for_crossings ctx crossing' fee mfee
    = (case r of Inl e \<Rightarrow> Inl e | Inr None \<Rightarrow> Inr None
       | Inr (Some (f, p)) \<Rightarrow> Inr (Some (map (\<lambda>c. c + mfee) crossing', p)))"
proof -
  let ?f = "map (\<lambda>c. c + mfee) crossing" and ?f' = "map (\<lambda>c. c + mfee) crossing'"
  have s: "set crossing = set crossing'" using m by (metis set_mset_mset)
  have mf: "mset ?f = mset ?f'" using m by simp
  have plan: "plan_preparation av ?f' pf = plan_preparation av ?f pf" for av pf
    using mf by (metis prep.order_irrelevant)
  have com: "committed_value ?f' p fee = committed_value ?f p fee" for p
    by (rule committed_value_sum) (metis mf sum_list_mset_cong)
  show ?thesis
    unfolding r[symmetric] preparation_for_crossings_def funding_for_crossings_eq typed_funding_eq
    by (auto simp: s plan com res_bind_def split: sum.splits prep_error.splits)
qed

lemma preparation_mset_None:
  "mset crossing = mset crossing' \<Longrightarrow> preparation_for_crossings ctx crossing fee mfee = Inr None \<Longrightarrow>
     preparation_for_crossings ctx crossing' fee mfee = Inr None"
  using preparation_mset[of crossing crossing' ctx fee mfee "Inr None"] by simp

section \<open>When no denomination fits\<close>

lemma try_candidates_None:
  "try_candidates ctx crossing fee mfee cs = Inr None \<Longrightarrow> c \<in> set cs \<Longrightarrow>
     preparation_for_crossings ctx (crossing @ c) fee mfee = Inr None"
proof (induction cs)
  case (Cons d cs)
  from Cons.prems(1) have "preparation_for_crossings ctx (crossing @ d) fee mfee = Inr None"
    "try_candidates ctx crossing fee mfee cs = Inr None"
    by (auto simp: res_simps split: option.splits prod.splits) (metis option.exhaust prod.exhaust)+
  with Cons show ?case by auto
qed simp

lemma select_None_append:
  assumes "select_denomination ctx refine crossing fee mfee affordable rng = Inr (None, rng')"
    and "mset crossing = mset trial"
  shows "can_append_loop ctx trial fee mfee affordable = Inr False"
  using assms
proof (induction ctx refine crossing fee mfee affordable rng rule: select_denomination.induct)
  case (1 ctx refine crossing fee mfee affordable rng)
  show ?case
  proof (cases "affordable < ZIP318_MAX_RESIDUAL_VALUE_ZATOSHI \<or> largest_zip318_denomination_at_or_below affordable = None")
    case True
    then show ?thesis by (auto simp: can_append_loop.simps[of ctx trial])
  next
    case False
    then obtain greedy where big: "\<not> affordable < ZIP318_MAX_RESIDUAL_VALUE_ZATOSHI"
      and greedy: "largest_zip318_denomination_at_or_below affordable = Some greedy" by auto
    obtain r rng1 where r: "refine greedy rng = (r, rng1)" by (cases "refine greedy rng")
    from select_denomination_unfold[OF "1.prems"(1) big greedy r] obtain candidates accepted where v: "rf_value r = greedy"
      and cand: "refinement_candidates r = Inr candidates"
      and tried: "try_candidates ctx crossing fee mfee candidates = Inr accepted"
      and rest: "(if accepted \<noteq> None \<or> greedy = ZIP318_MAX_RESIDUAL_VALUE_ZATOSHI then Inr (accepted, rng1)
        else select_denomination ctx refine crossing fee mfee (greedy - 1) rng1) = Inr (None, rng')" by blast
    from rest have acc: "accepted = None" by (cases accepted) simp_all
    have "[greedy] \<in> set candidates" using refinement_candidates_spec(1)[OF cand] v by simp
    from try_candidates_None[OF tried[unfolded acc] this]
    have none: "preparation_for_crossings ctx (trial @ [greedy]) fee mfee = Inr None"
      by (rule preparation_mset_None[rotated]) (simp add: "1.prems"(2))
    show ?thesis
    proof (cases "greedy = ZIP318_MAX_RESIDUAL_VALUE_ZATOSHI")
      case True
      then show ?thesis using big greedy none by (simp add: can_append_loop.simps[of ctx trial])
    next
      case False
      with rest acc have "select_denomination ctx refine crossing fee mfee (greedy - 1) rng1 = Inr (None, rng')" by simp
      from "1.IH"[OF big greedy r[symmetric] refl _ cand tried _ this "1.prems"(2)] v acc False
      show ?thesis using big greedy none by (simp add: can_append_loop.simps[of ctx trial fee mfee affordable])
    qed
  qed
qed

section \<open>Filling the balance\<close>

definition filled ::
    "planning_context \<Rightarrow> (zatoshi \<Rightarrow> 'r \<Rightarrow> denomination_refinement \<times> 'r) \<Rightarrow> zatoshi \<Rightarrow> zatoshi \<Rightarrow> nat
       \<Rightarrow> zatoshi list \<Rightarrow> zatoshi list \<Rightarrow> preparation_plan \<Rightarrow> bool" where
  "filled ctx refine fee mfee mn crossing funding preparation \<longleftrightarrow>
     (\<exists>committed. committed_value funding preparation fee = Inr committed
        \<and> (pc_total ctx - committed < mn
           \<or> (\<exists>rng rng'. select_denomination ctx refine crossing fee mfee
                (min (pc_total ctx - committed - mfee) ZIP318_MAX_MIGRATION_DENOMINATION_ZATOSHI) rng = Inr (None, rng'))))"

lemma fill_balance_result:
  assumes "fill_balance ctx refine fee mfee mn crossing funding preparation rng = Inr (crossing', funding', preparation')"
    and "\<forall>c \<in> set crossing. is_zip318_canonical_denomination c"
    and "crossing = [] \<or> preparation_for_crossings ctx crossing fee mfee = Inr (Some (funding, preparation))"
  shows "filled ctx refine fee mfee mn crossing' funding' preparation'
    \<and> (\<forall>c \<in> set crossing'. is_zip318_canonical_denomination c)
    \<and> (crossing' = [] \<or> preparation_for_crossings ctx crossing' fee mfee = Inr (Some (funding', preparation')))"
  using assms
proof (induction ctx refine fee mfee mn crossing funding preparation rng rule: fill_balance.induct)
  case (1 ctx refine fee mfee mn crossing funding preparation rng)
  from "1.prems"(1) obtain committed where com: "committed_value funding preparation fee = Inr committed"
    by (auto simp: fill_balance.simps[of ctx refine] res_simps)
  let ?budget = "pc_total ctx - committed"
  let ?aff = "min (?budget - mfee) ZIP318_MAX_MIGRATION_DENOMINATION_ZATOSHI"
  show ?case
  proof (cases "?budget < mn")
    case True
    with "1.prems" com show ?thesis by (auto simp: fill_balance.simps[of ctx refine] filled_def)
  next
    case False
    with "1.prems"(1) com obtain accepted rng' where sel:
        "select_denomination ctx refine crossing fee mfee ?aff rng = Inr (accepted, rng')"
      and rest: "(case accepted of None \<Rightarrow> Inr (crossing, funding, preparation)
           | Some (c, f, p) \<Rightarrow> fill_balance ctx refine fee mfee mn c f p rng') = Inr (crossing', funding', preparation')"
      by (auto simp: fill_balance.simps[of ctx refine] res_simps Let_def)
    show ?thesis
    proof (cases accepted)
      case None
      with rest sel com "1.prems"(2,3) show ?thesis by (auto simp: filled_def)
    next
      case (Some a)
      obtain c f p where a: "a = (c, f, p)" by (metis prod_cases3)
      with Some sel have sel': "select_denomination ctx refine crossing fee mfee ?aff rng = Inr (Some (c, f, p), rng')" by simp
      from select_denomination_Some[OF sel'] obtain d v where d: "c = crossing @ d" "candidate_ok v d"
        "preparation_for_crossings ctx c fee mfee = Inr (Some (f, p))" by blast
      then have canon: "\<forall>x \<in> set c. is_zip318_canonical_denomination x"
        using "1.prems"(2) by (auto simp: candidate_ok_def)
      have "fill_balance ctx refine fee mfee mn c f p rng' = Inr (crossing', funding', preparation')"
        using rest Some a by simp
      from "1.IH"[OF com refl False refl sel refl Some a[symmetric] refl this canon] d(3) show ?thesis by blast
    qed
  qed
qed

section \<open>Finishing\<close>

lemma insort_key_map: "insort_key f (g x) (map g xs) = map g (insort_key (f \<circ> g) x xs)"
  by (induction xs) auto

lemma sort_desc_by_map: "sort_desc_by f (map g xs) = map g (sort_desc_by (f \<circ> g) xs)"
proof -
  have "sort_key f (map g ys) = map g (sort_key (f \<circ> g) ys)" for ys
    by (induction ys) (simp_all add: insort_key_map[unfolded comp_def] comp_def)
  then show ?thesis by (simp add: sort_desc_by_def rev_map)
qed

lemma zip_map_self: "zip xs (map g xs) = map (\<lambda>x. (x, g x)) xs"
  by (induction xs) auto

lemma sorted_pairs:
  "map fst (sort_desc_by fst (zip xs (map g xs))) = sort_desc xs"
  "map snd (sort_desc_by fst (zip xs (map g xs))) = map g (sort_desc xs)"
  by (simp_all add: zip_map_self sort_desc_by_map comp_def id_def)

lemma finish_plan_sorted:
  "finish_plan ctx (sort_desc crossing) (map (\<lambda>c. c + mfee) (sort_desc crossing)) preparation fee mfee mo
     = finish_plan ctx crossing (map (\<lambda>c. c + mfee) crossing) preparation fee mfee mo"
proof -
  have "sort_desc (sort_desc crossing) = sort_desc crossing" by (rule sort_desc_sorted[OF sorted_rev_sort_desc])
  moreover have "sort_desc crossing = [] \<longleftrightarrow> crossing = []" by (metis length_0_conv length_sort_desc_by)
  ultimately show ?thesis by (simp add: finish_plan_def sorted_pairs)
qed

lemma non_increasing_iff: "non_increasing xs \<longleftrightarrow> sorted (rev xs)"
  by (induction xs rule: non_increasing.induct) (auto simp: sorted_append intro: order_trans)

text \<open>The context: the positive inputs, in order, and their total.\<close>

lemma planning_context_Some:
  "planning_context inputs fee mo = Inr (Some ctx) \<longleftrightarrow>
     pc_indices ctx = filter (\<lambda>i. 0 < inputs ! i) [0..<length inputs] \<and> pc_indices ctx \<noteq> []
     \<and> pc_available ctx = map (\<lambda>i. inputs ! i) (pc_indices ctx) \<and> (\<forall>v \<in> set (pc_available ctx). v \<le> MAX_MONEY)
     \<and> pc_total ctx = sum_list (pc_available ctx) \<and> pc_total ctx < 2 ^ 64
     \<and> pc_prep_fee ctx = fee \<and> 0 < fee \<and> fee \<le> MAX_MONEY \<and> mo = 1"
proof -
  have "res_map (\<lambda>v. ok_or (zatoshis_from_u64 v) e) vs = Inr ts \<longleftrightarrow> ts = vs \<and> (\<forall>v \<in> set vs. v \<le> MAX_MONEY)"
    for e :: message and vs ts
    by (induction vs arbitrary: ts) (auto simp: res_simps checked_simps)
  then show ?thesis
    by (cases ctx) (auto simp: planning_context_def Let_def res_simps checked_simps checked_sum_eq split: if_splits)
qed


section \<open>Planning reports no internal error\<close>

text \<open>A context built from inputs that leave room for a million migration fees.\<close>

definition roomy :: "planning_context \<Rightarrow> zatoshi \<Rightarrow> zatoshi \<Rightarrow> bool" where
  "roomy ctx fee mfee \<longleftrightarrow> pc_prep_fee ctx = fee \<and> pc_total ctx = sum_list (pc_available ctx)
     \<and> pc_total ctx + 1000000 * mfee \<le> MAX_MONEY"

lemma MAX_MONEY_64: "v \<le> MAX_MONEY \<Longrightarrow> v < 2 ^ 64"
  by (simp add: MAX_MONEY_def)

lemma preparation_total:
  assumes room: "roomy ctx fee mfee" and small: "sum_list crossing + length crossing * mfee \<le> MAX_MONEY"
  shows "\<exists>r. preparation_for_crossings ctx crossing fee mfee = Inr r"
proof -
  let ?f = "map (\<lambda>c. c + mfee) crossing"
  have s: "sum_list ?f \<le> MAX_MONEY" using small by (simp add: sum_list_map_add)
  have le: "\<forall>v \<in> set ?f. v \<le> MAX_MONEY" using s member_le_sum_list le_trans by blast
  then have b: "\<forall>c \<in> set crossing. c + mfee < 2 ^ 64" using MAX_MONEY_64 by simp
  have av: "sum_list (pc_available ctx) \<le> MAX_MONEY" using room by (auto simp: roomy_def)
  show ?thesis
  proof (cases "plan_preparation (pc_available ctx) ?f fee")
    case (Inl e)
    with prep.invalid[of "pc_available ctx" ?f fee] s av have "e = InsufficientFunds" by (cases e) auto
    with Inl b le room show ?thesis
      by (auto simp: preparation_for_crossings_def funding_for_crossings_eq typed_funding_eq roomy_def)
  next
    case (Inr plan)
    have "\<exists>c. committed_value ?f plan fee = Inr c"
      using prep.commitment(2)[OF Inr] by (auto simp: committed_value_iff)
    with Inr b le room show ?thesis
      by (auto simp: preparation_for_crossings_def funding_for_crossings_eq typed_funding_eq roomy_def)
  qed
qed

lemma candidate_length: "candidate_ok v c \<Longrightarrow> length c * 1000000 \<le> v"
proof -
  assume c: "candidate_ok v c"
  have "length c * 1000000 \<le> sum_list c" if "\<forall>d \<in> set c. 1000000 \<le> d" for c :: "nat list"
    using that by (induction c) auto
  moreover have "\<forall>d \<in> set c. 1000000 \<le> d"
    using c canonical_bounds by (auto simp: candidate_ok_def canonical_denomination_iff)
  ultimately show ?thesis using c by (auto simp: candidate_ok_def)
qed

lemma try_candidates_total:
  assumes "roomy ctx fee mfee" and "\<forall>c \<in> set cs. candidate_ok v c" and "v \<le> 1000000000000"
    and "sum_list crossing + length crossing * mfee + v + 1000000 * mfee \<le> MAX_MONEY"
  shows "\<exists>r. try_candidates ctx crossing fee mfee cs = Inr r"
  using assms(2)
proof (induction cs)
  case (Cons c cs)
  then have c: "candidate_ok v c" by simp
  from candidate_length[OF this] assms(3) have "length c \<le> 1000000" by linarith
  then have "length c * mfee \<le> 1000000 * mfee" by (rule mult_le_mono1)
  moreover have "sum_list (crossing @ c) + length (crossing @ c) * mfee
      = sum_list crossing + length crossing * mfee + v + length c * mfee"
    using c by (simp add: candidate_ok_def add_mult_distrib)
  ultimately have "sum_list (crossing @ c) + length (crossing @ c) * mfee \<le> MAX_MONEY"
    using assms(4) by linarith
  from preparation_total[OF assms(1) this] obtain r where "preparation_for_crossings ctx (crossing @ c) fee mfee = Inr r" by blast
  with Cons show ?case by (cases r) auto
qed simp

lemma select_denomination_total:
  assumes "roomy ctx fee mfee"
    and "sum_list crossing + length crossing * mfee + affordable + 1000000 * mfee \<le> MAX_MONEY"
    and "affordable \<le> 1000000000000"
  shows "\<exists>r. select_denomination ctx (refine_denomination next_u32 policy) crossing fee mfee affordable rng = Inr r"
  using assms(2,3)
proof (induction affordable arbitrary: rng rule: less_induct)
  case (less affordable)
  show ?case
  proof (cases "affordable < ZIP318_MAX_RESIDUAL_VALUE_ZATOSHI \<or> largest_zip318_denomination_at_or_below affordable = None")
    case True
    then show ?thesis by (auto simp: select_denomination.simps[of ctx _ crossing fee mfee affordable])
  next
    case False
    then obtain greedy where greedy: "largest_zip318_denomination_at_or_below affordable = Some greedy" by auto
    note g = largest_zip318_canonical[OF greedy]
    obtain r rng1 where r: "refine_denomination next_u32 policy greedy rng = (r, rng1)"
      by (cases "refine_denomination next_u32 policy greedy rng")
    have v: "rf_value r = greedy" using refine_denomination_ok[of greedy next_u32 policy rng] g r by simp
    obtain cs where cs: "refinement_candidates r = Inr cs"
      using refine_candidates_exist[of greedy next_u32 policy rng] g r by auto
    have ok: "\<forall>c \<in> set cs. candidate_ok greedy c" using refinement_candidates_spec(1)[OF cs] v by blast
    obtain acc where acc: "try_candidates ctx crossing fee mfee cs = Inr acc"
      using try_candidates_total[OF assms(1) ok, of crossing] g less.prems by auto
    have "\<exists>r. select_denomination ctx (refine_denomination next_u32 policy) crossing fee mfee (greedy - 1) rng1 = Inr r"
      using g less.prems by (intro less.IH) auto
    with False greedy r v cs acc show ?thesis
      by (auto simp: select_denomination.simps[of ctx _ crossing fee mfee affordable])
  qed
qed

lemma fill_balance_total:
  assumes "roomy ctx fee mfee"
    and "crossing = [] \<and> funding = [] \<and> preparation = empty_preparation
      \<or> preparation_for_crossings ctx crossing fee mfee = Inr (Some (funding, preparation))"
    and "ZIP318_MAX_RESIDUAL_VALUE_ZATOSHI + mfee \<le> mn"
  shows "\<exists>r. fill_balance ctx (refine_denomination next_u32 policy) fee mfee mn crossing funding preparation rng = Inr r"
  using assms(2)
proof (induction "Suc (pc_total ctx) - sum_list crossing" arbitrary: crossing funding preparation rng rule: less_induct)
  case less
  let ?refine = "refine_denomination next_u32 policy"
  have com: "\<exists>committed. committed_value funding preparation fee = Inr committed
      \<and> sum_list crossing + length crossing * mfee \<le> committed"
    using less.prems
    by (auto simp: committed_value_iff preparation_for_crossings_Some empty_preparation_def transaction_count_def sum_list_map_add)
  then obtain committed where com: "committed_value funding preparation fee = Inr committed"
    "sum_list crossing + length crossing * mfee \<le> committed" by blast
  let ?budget = "pc_total ctx - committed"
  let ?aff = "min (?budget - mfee) ZIP318_MAX_MIGRATION_DENOMINATION_ZATOSHI"
  show ?case
  proof (cases "?budget < mn")
    case True
    with com show ?thesis by (simp add: fill_balance.simps[of ctx ?refine])
  next
    case False
    with assms(3) have pos: "committed < pc_total ctx"
      by (simp add: denomination_constants)
    have "sum_list crossing + length crossing * mfee + ?aff + 1000000 * mfee \<le> MAX_MONEY"
      using com(2) pos assms(1) by (auto simp: roomy_def min_def)
    moreover have "?aff \<le> 1000000000000" by (simp add: denomination_constants)
    ultimately obtain acc rng' where sel: "select_denomination ctx ?refine crossing fee mfee ?aff rng = Inr (acc, rng')"
      using select_denomination_total[OF assms(1)] by (metis prod.exhaust)
    show ?thesis
    proof (cases acc)
      case None
      with False com sel show ?thesis by (simp add: fill_balance.simps[of ctx ?refine] Let_def)
    next
      case (Some a)
      obtain c f p where a: "a = (c, f, p)" by (metis prod_cases3)
      from sel Some a have sel': "select_denomination ctx ?refine crossing fee mfee ?aff rng = Inr (Some (c, f, p), rng')" by simp
      from accepted_grows[OF sel'] have "Suc (pc_total ctx) - sum_list c < Suc (pc_total ctx) - sum_list crossing"
        by linarith
      moreover from select_denomination_Some[OF sel'] have "preparation_for_crossings ctx c fee mfee = Inr (Some (f, p))" by blast
      ultimately have "\<exists>r. fill_balance ctx ?refine fee mfee mn c f p rng' = Inr r" using less.hyps by blast
      with False com sel Some a show ?thesis by (simp add: fill_balance.simps[of ctx ?refine fee mfee mn crossing] Let_def)
    qed
  qed
qed

end
