(* ===== verification/Split_Props.thy ===== *)
theory Split_Props
  imports Split_Lemmas
begin

text \<open>
  The properties of the padded denomination planner: its plans are canonical and conserve value,
  their stages can be executed in order and carry every migration part exactly once, an approved
  plan replays to itself, and planning reports no internal error.
\<close>

section \<open>The shape of a finished plan\<close>

definition finished ::
    "planning_context \<Rightarrow> zatoshi list \<Rightarrow> preparation_plan \<Rightarrow> zatoshi \<Rightarrow> zatoshi \<Rightarrow> padded_denomination_plan \<Rightarrow> bool" where
  "finished ctx crossing preparation fee mfee p \<longleftrightarrow>
     (let outputs = sort_desc crossing;
          split_fee = fee * transaction_count preparation;
          remaining = pc_total ctx - (sum_list outputs + length outputs * mfee) - split_fee
      in sum_list outputs + length outputs * mfee + split_fee \<le> pc_total ctx
         \<and> pd_denominations p =
             \<lparr>migration_outputs = outputs,
              orchard_change = (if 1 \<le> remaining then Some remaining else None),
              split_fee_zatoshi = split_fee, migration_fee_zatoshi = mfee,
              total_input_zatoshi = pc_total ctx, total_migratable_zatoshi = sum_list outputs\<rparr>
         \<and> translation_result (pc_indices ctx) fee preparation (map (\<lambda>c. c + mfee) outputs) p)"

lemma finish_plan_result:
  assumes ctx: "planning_context inputs fee mo = Inr (Some ctx)" and ne: "crossing \<noteq> []"
    and canon: "\<forall>c \<in> set crossing. is_zip318_canonical_denomination c"
    and prep: "preparation_for_crossings ctx crossing fee mfee = Inr (Some (funding, preparation))"
  shows "\<exists>p. finish_plan ctx crossing funding preparation fee mfee mo = Inr (Some p) \<and> finished ctx crossing preparation fee mfee p"
proof -
  let ?out = "sort_desc crossing" and ?fund = "map (\<lambda>c. c + mfee) (sort_desc crossing)"
  let ?sf = "fee * transaction_count preparation"
  from ctx have c: "pc_prep_fee ctx = fee" "mo = 1" "pc_total ctx = sum_list (pc_available ctx)" "pc_total ctx < 2 ^ 64"
    "length (pc_indices ctx) = length (pc_available ctx)"
    unfolding planning_context_Some by auto
  from prep have p: "funding = map (\<lambda>c. c + mfee) crossing"
    "plan_preparation (pc_available ctx) funding fee = Inr preparation"
    "sum_list funding + ?sf \<le> pc_total ctx"
    unfolding preparation_for_crossings_Some c(1) by auto
  have mf: "mset ?fund = mset funding" by (simp add: p(1))
  have sum: "sum_list ?fund = sum_list funding" using mf by (rule sum_list_mset_cong)
  have pos: "\<forall>v \<in> set funding. 0 < v"
    using canon canonical_bounds by (fastforce simp: p(1) canonical_denomination_iff)
  from sum p(3) have fits: "sum_list ?fund + ?sf \<le> pc_total ctx" by simp
  have out: "sum_list ?out \<le> sum_list ?fund" by (simp add: sum_list_map_add)
  define den where "den = \<lparr>migration_outputs = ?out,
      orchard_change = (if mo \<le> pc_total ctx - sum_list ?fund - ?sf then Some (pc_total ctx - sum_list ?fund - ?sf) else None),
      split_fee_zatoshi = ?sf, migration_fee_zatoshi = mfee,
      total_input_zatoshi = pc_total ctx, total_migratable_zatoshi = sum_list ?out\<rparr>"
  from prep.translates[OF p(2) mf pos c(5), of den] obtain pl where pl:
    "translate_preparation_plan preparation den (pc_indices ctx) ?fund fee = Inr pl" "pd_denominations pl = den"
    "translation_result (pc_indices ctx) fee preparation ?fund pl" by blast
  have mul: "checked_mul 64 fee (transaction_count preparation) = Some ?sf"
    using fits c(4) by (simp add: checked_mul_def)
  have s1: "checked_sum ?fund ''Migration funding total overflow'' = Inr (sum_list ?fund)"
    and s2: "checked_sum ?out ''Migratable denomination total overflow'' = Inr (sum_list ?out)"
    using fits c(4) out by (simp_all add: checked_sum_def checked_sum_eq)
  have rem: "Option.bind (checked_sub (pc_total ctx) (sum_list ?fund)) (\<lambda>v. checked_sub v ?sf) = Some (pc_total ctx - sum_list ?fund - ?sf)"
    using fits by (simp add: checked_sub_def)
  have "finish_plan ctx crossing funding preparation fee mfee mo
      = res_bind (translate_preparation_plan preparation den (pc_indices ctx) ?fund fee) (\<lambda>plan. Inr (Some plan))"
    unfolding den_def using ne by (simp add: finish_plan_def p(1) sorted_pairs mul s1[unfolded p(1)] s2 rem Let_def)
  then have "finish_plan ctx crossing funding preparation fee mfee mo = Inr (Some pl)" by (simp add: pl(1))
  moreover have "finished ctx crossing preparation fee mfee pl"
    using pl(2,3) fits c(2) by (simp add: finished_def den_def Let_def sum_list_map_add)
  ultimately show ?thesis by blast
qed

lemma planned:
  assumes "plan_padded_denominations_with_refiner inputs fee mfee mo refine rng = Inr (Some p)"
  obtains ctx mn crossing funding preparation where
    "planning_context inputs fee mo = Inr (Some ctx)" and "minimum_funding_note mfee = Inr mn"
    and "crossing \<noteq> []" and "\<forall>c \<in> set crossing. is_zip318_canonical_denomination c"
    and "preparation_for_crossings ctx crossing fee mfee = Inr (Some (funding, preparation))"
    and "filled ctx refine fee mfee mn crossing funding preparation"
    and "finish_plan ctx crossing funding preparation fee mfee mo = Inr (Some p)"
    and "finished ctx crossing preparation fee mfee p"
proof -
  from assms obtain ctx mn crossing funding preparation where
    ctx: "planning_context inputs fee mo = Inr (Some ctx)" and mn: "minimum_funding_note mfee = Inr mn"
    and fill: "fill_balance ctx refine fee mfee mn [] [] empty_preparation rng = Inr (crossing, funding, preparation)"
    and fin: "finish_plan ctx crossing funding preparation fee mfee mo = Inr (Some p)"
    by (auto simp: plan_padded_denominations_with_refiner_def res_bind_Inr_iff split: option.splits prod.splits)
  have ne: "crossing \<noteq> []" using fin by (auto simp: finish_plan_def)
  from fill_balance_result[OF fill] ne have r: "filled ctx refine fee mfee mn crossing funding preparation"
    "\<forall>c \<in> set crossing. is_zip318_canonical_denomination c"
    "preparation_for_crossings ctx crossing fee mfee = Inr (Some (funding, preparation))" by simp_all
  from finish_plan_result[OF ctx ne r(2,3)] fin have "finished ctx crossing preparation fee mfee p" by auto
  from that[OF ctx mn ne r(2,3,1) fin this] show thesis .
qed

lemma total_positive_inputs:
  "sum_list (map ((!) inputs) (filter (\<lambda>i. 0 < inputs ! i) [0..<length inputs])) = sum_list (inputs :: nat list)"
proof -
  have "sum_list (map f (filter (\<lambda>i. 0 < f i) xs)) = sum_list (map f xs)" for f :: "nat \<Rightarrow> nat" and xs
    by (induction xs) auto
  then show ?thesis by (simp add: map_nth)
qed

lemma planning_context_total:
  assumes "0 < fee" and "fee \<le> MAX_MONEY" and "sum_list inputs \<le> MAX_MONEY"
  shows "\<exists>c. planning_context inputs fee 1 = Inr c"
proof -
  let ?vals = "map ((!) inputs) (filter (\<lambda>i. 0 < inputs ! i) [0..<length inputs])"
  have sum: "sum_list ?vals \<le> MAX_MONEY" using total_positive_inputs[of inputs] assms(3) by simp
  then have "\<forall>v \<in> set ?vals. v \<le> MAX_MONEY" using member_le_sum_list le_trans by blast
  then have "res_map (\<lambda>v. ok_or (zatoshis_from_u64 v) e) ?vals = Inr (map id ?vals)" for e :: message
    by (intro res_map_total) (auto simp: zatoshis_from_u64_def)
  with assms(1,2) sum MAX_MONEY_64[OF sum] show ?thesis
    by (simp add: planning_context_def checked_sum_eq zatoshis_from_u64_def Let_def)
qed

text \<open>One stage of a translated plan.\<close>

lemma stage_of_valid_plan:
  assumes plan: "plan_ok av fee preparation" and tr: "translation_result indices fee preparation funding p"
    and ctx: "av = map (\<lambda>i. inputs ! i) indices \<and> indices = filter (\<lambda>i. 0 < inputs ! i) [0..<length inputs]"
    and i: "i < length (pd_stages p)" and inp: "inp \<in> set (ss_inputs (pd_stages p ! i))"
  shows "ss_requested_actions (pd_stages p ! i) \<le> DENOMINATION_SPLIT_ACTIONS
    \<and> sum_list (map stage_value (ss_inputs (pd_stages p ! i)))
        = sum_list (map so_value (ss_outputs (pd_stages p ! i))) + fee
    \<and> (case inp of
         Original j v \<Rightarrow> j < length inputs \<and> inputs ! j = v \<and> 0 < v
       | Prior_Stage s k v \<Rightarrow> s < i \<and> ss_layer_index (pd_stages p ! s) < ss_layer_index (pd_stages p ! i)
           \<and> k < length (ss_outputs (pd_stages p ! s))
           \<and> ss_outputs (pd_stages p ! s) ! k = \<lparr>so_value = v, so_kind = Continuation, so_part_index = None\<rparr>)"
proof -
  let ?flat = "flat_transactions (enumerate 0 (pp_layers preparation))" and ?st = "pd_stages p ! i"
  have "length ?flat = transaction_count preparation"
    using flat_transactions_snd[of "pp_layers preparation"] by (metis length_concat length_map transaction_count_def)
  with tr i have len: "i < length ?flat" by (simp add: translation_result_def)
  obtain li ti tx where x: "?flat ! i = (li, ti, tx)" by (metis prod_cases3)
  then have "(li, ti, tx) \<in> set ?flat" using len by (metis nth_mem)
  then have pos: "li < length (pp_layers preparation)" "tx \<in> set (pp_layers preparation ! li)"
    by (auto simp: set_flat_transactions)
  from tr i have "stage_matches indices fee (take i (pd_stages p)) (?flat ! i) ?st"
    unfolding translation_result_def by blast
  then have m: "stage_matches indices fee (take i (pd_stages p)) (li, ti, tx) ?st" by (simp only: x)
  then have st: "ss_layer_index ?st = li" "ss_requested_actions ?st = action_count tx"
    and ins: "list_all2 (input_matches indices (take i (pd_stages p))) (pt_inputs tx) (ss_inputs ?st)"
    and outs: "list_all2 output_matches (pt_outputs tx) (ss_outputs ?st)"
    by (auto simp: stage_matches_def)
  from plan have ok: "layers_ok av (direct_marks av (pp_direct_funding preparation)) fee (pp_layers preparation)"
    by (simp add: plan_ok_def)
  with pos have tx: "tx_ok fee tx" by (auto simp: layers_ok_def)
  have iv: "stage_value b = in_value a" if "input_matches ind sts a b" for ind sts a b using that by (cases a) auto
  from ins have "map stage_value (ss_inputs ?st) = map in_value (pt_inputs tx)"
    by (induction rule: list_all2_induct) (auto dest: iv)
  moreover have ov: "so_value b = out_value a" if "output_matches a b" for a b using that by (cases a) auto
  from outs have "map so_value (ss_outputs ?st) = map out_value (pt_outputs tx)"
    by (induction rule: list_all2_induct) (auto dest: ov)
  ultimately have cons: "sum_list (map stage_value (ss_inputs ?st)) = sum_list (map so_value (ss_outputs ?st)) + fee"
    using tx by (simp add: tx_ok_def input_total_def output_total_def)
  from inp obtain n where n: "n < length (ss_inputs ?st)" "ss_inputs ?st ! n = inp" by (auto simp: in_set_conv_nth)
  define a where "a = pt_inputs tx ! n"
  have a: "a \<in> set (pt_inputs tx)" "input_matches indices (take i (pd_stages p)) a inp"
    using n list_all2_nthD2[OF ins n(1)] list_all2_lengthD[OF ins] by (simp_all add: a_def)
  from ok pos a(1) have r: "ref_ok av (direct_marks av (pp_direct_funding preparation)) (pp_layers preparation) li a"
    by (auto simp: layers_ok_def refs_ok_def)
  have "case inp of
         Original j v \<Rightarrow> j < length inputs \<and> inputs ! j = v \<and> 0 < v
       | Prior_Stage s k v \<Rightarrow> s < i \<and> ss_layer_index (pd_stages p ! s) < ss_layer_index ?st
           \<and> k < length (ss_outputs (pd_stages p ! s))
           \<and> ss_outputs (pd_stages p ! s) ! k = \<lparr>so_value = v, so_kind = Continuation, so_part_index = None\<rparr>"
  proof (cases a)
    case (Wallet j v)
    with a(2) have j: "inp = Original (indices ! j) v" "j < length indices" by simp_all
    with r Wallet ctx have v: "inputs ! (indices ! j) = v" by auto
    have "indices ! j \<in> set indices" using j(2) by simp
    then have "indices ! j < length inputs" "0 < inputs ! (indices ! j)" using ctx by auto
    with j v show ?thesis by simp
  next
    case (Prior l t k v)
    with a(2) r show ?thesis using i st(1) by (auto simp: nth_take)
  qed
  then show ?thesis using cons tx st(2) by (simp add: tx_ok_def DENOMINATION_SPLIT_ACTIONS_def)
qed

section \<open>Properties\<close>

text \<open>
  C1: A plan's migration outputs are canonical denominations in non-increasing order, and the plan
  conserves value: the inputs are exactly the outputs, one migration fee per output, one fee per
  preparation stage and the Orchard change.
\<close>

theorem padded_plan_conserves:
  assumes "plan_padded_denominations_with_refiner inputs fee mfee mo refine rng = Inr (Some p)"
  shows "migration_outputs (pd_denominations p) \<noteq> []
    \<and> list_all is_zip318_canonical_denomination (migration_outputs (pd_denominations p))
    \<and> sorted (rev (migration_outputs (pd_denominations p)))
    \<and> sum_list inputs = sum_list (migration_outputs (pd_denominations p))
        + length (migration_outputs (pd_denominations p)) * mfee + fee * length (pd_stages p)
        + (case orchard_change (pd_denominations p) of None \<Rightarrow> 0 | Some change \<Rightarrow> change)"
proof -
  obtain ctx mn crossing funding preparation where
    ctx: "planning_context inputs fee mo = Inr (Some ctx)" and ne: "crossing \<noteq> []"
    and canon: "\<forall>c \<in> set crossing. is_zip318_canonical_denomination c"
    and fin: "finished ctx crossing preparation fee mfee p" by (rule planned[OF assms])
  have "pc_total ctx = sum_list inputs"
    using ctx total_positive_inputs[of inputs] unfolding planning_context_Some by (auto simp del: map_map)
  moreover have "length (pd_stages p) = transaction_count preparation"
    using fin by (simp add: finished_def Let_def translation_result_def)
  moreover have "sort_desc crossing \<noteq> []" using ne by (metis length_0_conv length_sort_desc_by)
  ultimately show ?thesis
    using fin canon sorted_rev_sort_desc[of crossing] by (auto simp: finished_def Let_def list_all_iff)
qed

text \<open>
  C16: Every migration part is carried exactly once: the part indices of the direct inputs and of the
  stage outputs, with the values of the notes that carry them, are exactly the outputs of the plan
  in part order, each with its migration fee.
\<close>

theorem padded_plan_parts:
  assumes "plan_padded_denominations_with_refiner inputs fee mfee mo refine rng = Inr (Some p)"
  shows "mset (map (\<lambda>d. (dm_part_index d, dm_value d)) (pd_direct_inputs p)) + mset (assigned_stages (pd_stages p))
    = mset (enumerate 0 (map (\<lambda>c. c + mfee) (migration_outputs (pd_denominations p))))"
proof -
  obtain ctx mn crossing funding preparation where "finished ctx crossing preparation fee mfee p"
    by (rule planned[OF assms])
  then show ?thesis by (simp add: finished_def Let_def translation_result_def)
qed

text \<open>
  C22: An approved plan replays: rebuilding the preparation for the outputs of a plan, with the same
  inputs and fees and without drawing randomness, succeeds and gives the same plan, whatever
  refinement produced it.
\<close>

theorem padded_plan_replays:
  assumes "plan_padded_denominations_with_refiner inputs fee mfee mo refine rng = Inr (Some p)"
  shows "plan_padded_denominations_for_targets inputs (migration_outputs (pd_denominations p)) fee mfee mo = Inr (Some p)"
proof -
  obtain ctx mn crossing funding preparation where
    ctx: "planning_context inputs fee mo = Inr (Some ctx)" and mn: "minimum_funding_note mfee = Inr mn"
    and ne: "crossing \<noteq> []" and canon: "\<forall>c \<in> set crossing. is_zip318_canonical_denomination c"
    and prep: "preparation_for_crossings ctx crossing fee mfee = Inr (Some (funding, preparation))"
    and filled: "filled ctx refine fee mfee mn crossing funding preparation"
    and fin: "finish_plan ctx crossing funding preparation fee mfee mo = Inr (Some p)"
    and res: "finished ctx crossing preparation fee mfee p" by (rule planned[OF assms])
  let ?t = "sort_desc crossing" and ?f = "map (\<lambda>c. c + mfee) (sort_desc crossing)"
  have targets: "migration_outputs (pd_denominations p) = ?t" using res by (simp add: finished_def Let_def)
  have f: "funding = map (\<lambda>c. c + mfee) crossing" using prep by (simp add: preparation_for_crossings_Some)
  have prep': "preparation_for_crossings ctx ?t fee mfee = Inr (Some (?f, preparation))"
    using preparation_mset[OF _ prep, of ?t] by simp
  have com: "committed_value ?f preparation fee = committed_value funding preparation fee"
    by (rule committed_value_sum) (rule sum_list_mset_cong, simp add: f)
  from filled obtain committed where cv: "committed_value funding preparation fee = Inr committed"
    and stop: "pc_total ctx - committed < mn
      \<or> (\<exists>rng rng'. select_denomination ctx refine crossing fee mfee
           (min (pc_total ctx - committed - mfee) ZIP318_MAX_MIGRATION_DENOMINATION_ZATOSHI) rng = Inr (None, rng'))"
    unfolding filled_def by blast
  have "can_append_canonical_denomination ctx ?t ?f preparation fee mfee = Inr False"
    using stop select_None_append[of ctx refine crossing fee mfee _ _ _ ?t]
    by (auto simp: can_append_canonical_denomination_def com cv mn Let_def)
  moreover have "finish_plan ctx ?t ?f preparation fee mfee mo = Inr (Some p)"
    using fin by (simp add: finish_plan_sorted f)
  moreover have "find (\<lambda>v. \<not> is_zip318_canonical_denomination v) ?t = None"
    using canon by (simp add: find_None_iff)
  moreover have "?t \<noteq> []" using ne by (metis length_0_conv length_sort_desc_by)
  moreover have "non_increasing ?t" by (simp add: non_increasing_iff sorted_rev_sort_desc)
  ultimately show ?thesis
    by (simp add: targets plan_padded_denominations_for_targets_def ctx prep')
qed


text \<open>
  C28: The stages of a plan can be executed in order. Each keeps within the padded action limit and
  conserves value with its fee; an original input is a positive input of the wallet with its value;
  every other input is a continuation output, of the same value, of an earlier stage in an earlier
  layer.
\<close>

theorem padded_plan_stages:
  assumes "plan_padded_denominations_with_refiner inputs fee mfee mo refine rng = Inr (Some p)"
    and "i < length (pd_stages p)" and "inp \<in> set (ss_inputs (pd_stages p ! i))"
  shows "ss_requested_actions (pd_stages p ! i) \<le> DENOMINATION_SPLIT_ACTIONS
    \<and> sum_list (map stage_value (ss_inputs (pd_stages p ! i)))
        = sum_list (map so_value (ss_outputs (pd_stages p ! i))) + fee
    \<and> (case inp of
         Original j v \<Rightarrow> j < length inputs \<and> inputs ! j = v \<and> 0 < v
       | Prior_Stage s k v \<Rightarrow> s < i \<and> ss_layer_index (pd_stages p ! s) < ss_layer_index (pd_stages p ! i)
           \<and> k < length (ss_outputs (pd_stages p ! s))
           \<and> ss_outputs (pd_stages p ! s) ! k = \<lparr>so_value = v, so_kind = Continuation, so_part_index = None\<rparr>)"
proof -
  obtain ctx mn crossing funding preparation where
    ctx: "planning_context inputs fee mo = Inr (Some ctx)"
    and prep: "preparation_for_crossings ctx crossing fee mfee = Inr (Some (funding, preparation))"
    and fin: "finished ctx crossing preparation fee mfee p" by (rule planned[OF assms(1)])
  have "plan_preparation (pc_available ctx) funding fee = Inr preparation"
    using prep ctx unfolding preparation_for_crossings_Some planning_context_Some by auto
  from prep.executable[OF this] have plan: "plan_ok (pc_available ctx) fee preparation" .
  from fin have tr: "translation_result (pc_indices ctx) fee preparation
      (map (\<lambda>c. c + mfee) (sort_desc crossing)) p" by (simp add: finished_def Let_def)
  from stage_of_valid_plan[OF plan tr _ assms(2,3)] ctx show ?thesis
    unfolding planning_context_Some by (auto split: split_stage_input.splits)
qed

text \<open>
  C29: Planning with a drawn refinement reports no internal error: when the fee is positive and a
  valid amount, and the inputs leave room below the money supply for a million migration fees,
  every draw of the generator gives a plan or the answer that nothing can be migrated.
\<close>

theorem padded_planning_total:
  assumes "0 < fee" and "fee \<le> MAX_MONEY" and "sum_list inputs + 1000000 * mfee \<le> MAX_MONEY"
  shows "\<exists>r. plan_padded_denominations_with_policy_and_rng next_u32 policy inputs fee mfee 1 rng = Inr r"
proof -
  let ?refine = "refine_denomination next_u32 policy"
  obtain c where c: "planning_context inputs fee 1 = Inr c" using planning_context_total[OF assms(1,2), of inputs] assms(3) by auto
  show ?thesis
  proof (cases c)
    case None
    with c show ?thesis
      by (simp add: plan_padded_denominations_with_policy_and_rng_def plan_padded_denominations_with_refiner_def)
  next
    case (Some ctx)
    with c have ctx: "planning_context inputs fee 1 = Inr (Some ctx)" by simp
    have "mfee \<le> MAX_MONEY" using assms(3) by simp
    then have mn: "minimum_funding_note mfee = Inr (ZIP318_MAX_RESIDUAL_VALUE_ZATOSHI + mfee)"
      by (simp add: minimum_funding_note_def checked_add_def denomination_constants MAX_MONEY_def)
    have "pc_total ctx = sum_list inputs"
      using ctx total_positive_inputs[of inputs] unfolding planning_context_Some by (auto simp del: map_map)
    then have room: "roomy ctx fee mfee"
      using ctx assms(3) unfolding planning_context_Some roomy_def by simp
    from fill_balance_total[OF room, of "[]" "[]" empty_preparation "ZIP318_MAX_RESIDUAL_VALUE_ZATOSHI + mfee" next_u32 policy rng]
    obtain crossing funding preparation where fill: "fill_balance ctx ?refine fee mfee (ZIP318_MAX_RESIDUAL_VALUE_ZATOSHI + mfee)
        [] [] empty_preparation rng = Inr (crossing, funding, preparation)" by auto
    have "\<exists>r. finish_plan ctx crossing funding preparation fee mfee 1 = Inr r"
    proof (cases "crossing = []")
      case True
      then show ?thesis by (simp add: finish_plan_def)
    next
      case False
      with fill_balance_result[OF fill] finish_plan_result[OF ctx False] show ?thesis by fastforce
    qed
    with ctx mn fill show ?thesis
      by (simp add: plan_padded_denominations_with_policy_and_rng_def plan_padded_denominations_with_refiner_def)
  qed
qed

text \<open>
  For every draw, a refinement of a canonical denomination has between one and 26 candidates, each
  a non-increasing list of canonical denominations with the same sum, ordered from the most parts
  to the fewest without repetition, and the unsplit denomination is among them, so the deepest
  affordable split is tried first and refusing to split is always an option.
\<close>

theorem refinement_candidates_policy:
  assumes "is_zip318_canonical_denomination d"
  shows "\<exists>cs. refinement_candidates (fst (refine_denomination next_u32 policy d rng)) = Inr cs
    \<and> 1 \<le> length cs \<and> length cs \<le> 26 \<and> [d] \<in> set cs
    \<and> list_all (\<lambda>c. sum_list c = d \<and> sorted (rev c) \<and> list_all is_zip318_canonical_denomination c) cs
    \<and> sorted_wrt (\<lambda>a b. length b < length a \<or> length a = length b \<and> a < b) cs"
proof -
  let ?r = "fst (refine_denomination next_u32 policy d rng)"
  obtain cs where cs: "refinement_candidates ?r = Inr cs" "length cs \<le> 26"
    using refine_candidates_exist[OF assms, of next_u32 policy rng] by blast
  have v: "rf_value ?r = d" using refine_denomination_ok[OF assms, of next_u32 policy rng] by simp
  note spec = refinement_candidates_spec(1)[OF cs(1), unfolded v]
  have "sorted_wrt (\<lambda>a b. length b < length a \<or> length a = length b \<and> a < b) cs"
  proof (cases ?r)
    case (Refinement w rs)
    with cs(1) show ?thesis
      using order_candidates_order by (auto simp: res_simps split: if_splits)
  qed
  moreover have "1 \<le> length cs" using spec by (cases cs) auto
  ultimately show ?thesis using cs spec by (auto simp: list_all_iff candidate_ok_def)
qed


section \<open>Witnesses\<close>

text \<open>
  One note of 1,200,000 with a stage fee of 80,000 and a migration fee of 15,000: one stage mints the
  prepared note of the smallest denomination and returns 105,000.
\<close>

abbreviation "sample_plan \<equiv> \<lparr>pp_layers = [[\<lparr>pt_inputs = [Wallet 0 1200000], pt_outputs = [Funding 1015000, Change 105000]\<rparr>]],
   pp_direct_funding = []\<rparr>"

definition sample_padded :: padded_denomination_plan where
  "sample_padded =
    \<lparr>pd_denominations = \<lparr>migration_outputs = [1000000], orchard_change = Some 105000, split_fee_zatoshi = 80000,
       migration_fee_zatoshi = 15000, total_input_zatoshi = 1200000, total_migratable_zatoshi = 1000000\<rparr>,
     pd_stages = [\<lparr>ss_layer_index = 0, ss_inputs = [Original 0 1200000],
       ss_outputs = [\<lparr>so_value = 1015000, so_kind = Migration, so_part_index = Some 0\<rparr>,
                     \<lparr>so_value = 105000, so_kind = OrchardChange, so_part_index = None\<rparr>],
       ss_fee = 80000, ss_requested_actions = 3\<rparr>],
     pd_layer_count = 1, pd_direct_inputs = []\<rparr>"

lemma sample_preparation: "plan_preparation [1200000] [1015000] 80000 = Inr sample_plan"
proof -
  have "greedy_plan [1200000] [1015000] 80000 = Inr sample_plan"
    by (simp add: greedy_plan_def extract_direct_funding_def sort_desc_by_def unused_notes_def subtree_cost.simps
        split_depth_def split_depth_loop.simps subtree_capacity_def action_constants build_split.simps pad_layers_def
        push_tx_def leftover_output_def greedy_layers.simps residual_loop.simps unconsumed_feeders_def spent_coords_def
        all_inputs_def coord_outputs_def layer_outputs_at_def outputs_at_def map_filter_Cons relabel_unspent_def
        relabel_tx_def Let_def)
  then show ?thesis by (simp add: plan_preparation_eq MAX_MONEY_def)
qed

lemma sample_select:
  "largest_zip318_denomination_at_or_below 1185000 = Some 1000000"
  by (auto simp: largest_zip318_Some_iff zip318_denominations_values)

lemma sample_run:
  "plan_padded_denominations_with_refiner [1200000] 80000 15000 1 (\<lambda>v (u :: unit). (refinement_leaf v, u)) () = Inr (Some sample_padded)"
proof -
  define ctx where "ctx = \<lparr>pc_indices = [0], pc_total = 1200000, pc_available = [1200000], pc_prep_fee = 80000\<rparr>"
  have c: "planning_context [1200000] 80000 1 = Inr (Some ctx)"
    by (simp add: ctx_def planning_context_def checked_sum_eq zatoshis_from_u64_def MAX_MONEY_def)
  have prep: "preparation_for_crossings ctx [1000000] 80000 15000 = Inr (Some ([1015000], sample_plan))"
    by (simp add: preparation_for_crossings_Some ctx_def sample_preparation MAX_MONEY_def transaction_count_def)
  have cand: "refinement_candidates (refinement_leaf 1000000) = Inr [[1000000]]"
    by (simp add: refinement_leaf_def canonical_denomination_iff zip318_denominations_values)
  have sel: "select_denomination ctx (\<lambda>v (u :: unit). (refinement_leaf v, u)) [] 80000 15000 1185000 ()
      = Inr (Some ([1000000], [1015000], sample_plan), ())"
    using prep cand sample_select
    by (simp add: select_denomination.simps[of ctx _ "[]"] denomination_constants refinement_leaf_def)
  have com0: "committed_value [] empty_preparation 80000 = Inr 0"
    by (simp add: committed_value_iff empty_preparation_def transaction_count_def)
  have com: "committed_value [1015000] sample_plan 80000 = Inr 1095000"
    by (simp add: committed_value_iff transaction_count_def)
  have stop: "fill_balance ctx (\<lambda>v (u :: unit). (refinement_leaf v, u)) 80000 15000 1015000 [1000000] [1015000] sample_plan ()
      = Inr ([1000000], [1015000], sample_plan)"
    by (simp add: fill_balance.simps[of ctx _ _ _ _ "[1000000]"] com) (simp add: ctx_def)
  have "pc_total ctx = 1200000" by (simp add: ctx_def)
  then have fill: "fill_balance ctx (\<lambda>v (u :: unit). (refinement_leaf v, u)) 80000 15000 1015000 [] [] empty_preparation ()
      = Inr ([1000000], [1015000], sample_plan)"
    using sel stop by (simp add: fill_balance.simps[of ctx _ _ _ _ "[]"] com0 denomination_constants)
  have mn: "minimum_funding_note 15000 = Inr 1015000"
    by (simp add: minimum_funding_note_def checked_add_def denomination_constants)
  have "finish_plan ctx [1000000] [1015000] sample_plan 80000 15000 1 = Inr (Some sample_padded)"
    by (simp add: finish_plan_def ctx_def sort_desc_by_def transaction_count_def checked_defs checked_sum_def checked_sum_eq
        translate_preparation_plan_def available_parts_def push_part_def translate_layer_def translate_transaction_def
        list_get_def take_part_index_def sample_padded_def layer_count_def DENOMINATION_SPLIT_ACTIONS_def
        action_constants enumerate_eq_zip)
  with c mn fill show ?thesis by (simp add: plan_padded_denominations_with_refiner_def)
qed

theorem padded_plan_conserves_witness:
  "(1200000 :: nat) = 1000000 + 15000 + 80000 * length (pd_stages sample_padded) + 105000"
  using padded_plan_conserves[OF sample_run] by (simp add: sample_padded_def)

theorem padded_plan_parts_witness:
  "mset (map (\<lambda>d. (dm_part_index d, dm_value d)) (pd_direct_inputs sample_padded)) + mset (assigned_stages (pd_stages sample_padded))
    = {#(0, 1015000)#}"
  using padded_plan_parts[OF sample_run] by (simp add: sample_padded_def)

theorem padded_plan_replays_witness:
  "plan_padded_denominations_for_targets [1200000] [1000000] 80000 15000 1 = Inr (Some sample_padded)"
  using padded_plan_replays[OF sample_run] by (simp add: sample_padded_def)

theorem padded_plan_stages_witness:
  "ss_requested_actions (pd_stages sample_padded ! 0) \<le> DENOMINATION_SPLIT_ACTIONS"
  using padded_plan_stages[OF sample_run, of 0 "Original 0 1200000"] by (simp add: sample_padded_def)

theorem padded_planning_total_witness:
  "\<exists>r. plan_padded_denominations_with_policy_and_rng (\<lambda>s :: nat. (s, Suc s)) AGGRESSIVE_REFINEMENT_POLICY
     [1200000] 80000 15000 1 7 = Inr r"
  using padded_planning_total[of 80000 "[1200000]" 15000 "\<lambda>s :: nat. (s, Suc s)" AGGRESSIVE_REFINEMENT_POLICY 7]
  by (simp add: MAX_MONEY_def)

theorem refinement_candidates_policy_witness:
  "\<exists>cs. refinement_candidates (fst (refine_denomination (\<lambda>s :: nat. (s, Suc s)) AGGRESSIVE_REFINEMENT_POLICY 1000000000000 7)) = Inr cs
    \<and> length cs \<le> 26 \<and> [1000000000000] \<in> set cs"
  using refinement_candidates_policy[of 1000000000000 "\<lambda>s :: nat. (s, Suc s)" AGGRESSIVE_REFINEMENT_POLICY 7]
  by (auto simp: canonical_denomination_iff zip318_denominations_values)

end
