(* ===== verification/Anchor_Props.thy ===== *)
theory Anchor_Props
  imports Anchors
begin

text \<open>
  The properties of anchor selection: the two descriptions of a candidate agree, the draw has the
  intended weights, candidates exist exactly from the proof-ready height on, and the retry height
  is the next height at which the set of candidates can change.
\<close>

lemma candidate_boundaries_mem:
  assumes "zip318_anchor_boundary_at_or_before_with_policy network policy observed = Some latest"
  shows "b \<in> set (zip318_anchor_candidate_boundaries_with_policy network policy observed note_mined nu6_3) \<longleftrightarrow>
    zip318_anchor_boundary_age network policy latest b \<noteq> None \<and> max note_mined (saturating_add 32 nu6_3 1) \<le> b"
proof -
  let ?m = "anchor_bucket_modulus network policy"
  let ?ages = "[anchor_bucket_min_age network policy ..< Suc ZIP318_ANCHOR_AGE_CAP]"
  have small: "\<forall>age \<in> set ?ages. age * ?m < 2 ^ 32" using age_product_small by auto
  have "b \<in> set (zip318_anchor_candidate_boundaries_with_policy network policy observed note_mined nu6_3) \<longleftrightarrow>
      (\<exists>age \<in> set ?ages. latest = b + age * ?m \<and> max note_mined (saturating_add 32 nu6_3 1) \<le> b)"
    using candidate_ages_loop_set[OF small sorted_upt] assms
    by (simp add: zip318_anchor_candidate_boundaries_with_policy_def del: upt_Suc)
  then show ?thesis
    by (auto simp: boundary_age_Some[OF refl] not_None_eq[symmetric] simp del: not_None_eq upt_Suc)
      (auto simp: boundary_age_Some[OF refl])
qed

text \<open>
  The enumeration of candidate boundaries and the test for one agree: for every activation height
  below the largest 32-bit height, a boundary is enumerated exactly when it passes the test.
\<close>

theorem anchor_candidates_agree:
  assumes "nu6_3 < 2 ^ 32 - 1"
  shows "b \<in> set (zip318_anchor_candidate_boundaries_with_policy network policy observed note_mined nu6_3)
    \<longleftrightarrow> zip318_anchor_boundary_is_candidate_with_policy network policy b observed note_mined nu6_3"
proof (cases "zip318_anchor_boundary_at_or_before_with_policy network policy observed")
  case None
  then show ?thesis
    by (simp add: zip318_anchor_candidate_boundaries_with_policy_def zip318_anchor_boundary_is_candidate_with_policy_def)
next
  case (Some latest)
  let ?m = "anchor_bucket_modulus network policy"
  have sat: "saturating_add 32 nu6_3 1 = nu6_3 + 1" using assms by (simp add: saturating_add_def)
  have mult: "b mod ?m = 0" if "zip318_anchor_boundary_age network policy latest b \<noteq> None"
  proof -
    from that obtain age where "latest = b + age * ?m" by (auto simp: boundary_age_Some[OF refl])
    moreover have "latest mod ?m = 0" using Some by (auto simp: boundary_at_or_before_Some)
    ultimately show ?thesis by (metis mod_mult_self1)
  qed
  show ?thesis
    unfolding candidate_boundaries_mem[OF Some] zip318_anchor_boundary_is_candidate_with_policy_def sat
    using mult Some by (cases "zip318_anchor_boundary_age network policy latest b") auto
qed

theorem anchor_candidates_agree_witness:
  "288 \<in> set (zip318_anchor_candidate_boundaries_with_policy Net_Main Standard 500 200 100)
    \<longleftrightarrow> zip318_anchor_boundary_is_candidate_with_policy Net_Main Standard 288 500 200 100"
  using anchor_candidates_agree[of 100 288 Net_Main Standard 500 200] by simp

lemma standard_anchor [simp]:
  "anchor_bucket_modulus Net_Main Standard = 144" "anchor_bucket_min_age Net_Main Standard = 1"
  "ZIP318_ANCHOR_AGE_CAP = 4"
  by (simp_all add: anchor_bucket_modulus_def anchor_bucket_min_age_def ZIP318_ANCHOR_BUCKET_MODULUS_def
      ZIP318_ANCHOR_AGE_CAP_def)

text \<open>
  The anchor draw over the candidates of a note picks one of them whatever number is drawn below
  the total weight, and it picks a boundary of age \<open>a\<close> for exactly \<open>2 ^ (4 - a)\<close> of these numbers,
  so each older boundary is half as likely as the one after it.
\<close>

theorem anchor_draw_weights:
  assumes latest: "zip318_anchor_boundary_at_or_before_with_policy network policy observed = Some latest"
    and cands: "cands = zip318_anchor_candidate_boundaries_with_policy network policy observed note_mined nu6_3"
    and ne: "cands \<noteq> []"
  shows "\<exists>total. 0 < total
    \<and> (\<forall>d < total. \<exists>b \<in> set cands.
         zip318_draw_anchor_boundary_from_available_with_policy (\<lambda>_. d) network policy observed cands = Some b)
    \<and> (\<forall>b \<in> set cands. \<exists>age. zip318_anchor_boundary_age network policy latest b = Some age
         \<and> card {d. d < total \<and>
             zip318_draw_anchor_boundary_from_available_with_policy (\<lambda>_. d) network policy observed cands = Some b}
           = 2 ^ (ZIP318_ANCHOR_AGE_CAP - age))"
proof -
  have ages: "\<forall>c \<in> set cands. zip318_anchor_boundary_age network policy latest c \<noteq> None"
    using candidate_boundaries_mem[OF latest] by (simp add: cands)
  have len: "length cands \<le> 5 \<and> distinct cands"
    unfolding cands by (rule candidates_few)
  have "0 + 16 * length cands < 2 ^ 32" using len by simp
  from weigh_candidates_total[OF ages this, of "[]"] obtain weighted total where
    w: "weigh_candidates network policy latest cands [] 0 = Some (weighted, total)" by auto
  from weigh_candidates_result[OF w] have total: "total = sum_list (map snd weighted)"
    and all: "list_all2 (\<lambda>c (b, k). b = c \<and> (\<exists>age. zip318_anchor_boundary_age network policy latest c = Some age
          \<and> k = 2 ^ (ZIP318_ANCHOR_AGE_CAP - age))) cands weighted" by auto
  have fst: "map fst weighted = cands"
    using all by (induction rule: list_all2_induct) auto
  have pos: "0 < total"
  proof -
    from ne obtain c cs where "cands = c # cs" by (cases cands) auto
    with all obtain b k ws where "weighted = (b, k) # ws" "0 < k" by (auto simp: list_all2_Cons1)
    then show ?thesis using total by simp
  qed
  have draw: "zip318_draw_anchor_boundary_from_available_with_policy (\<lambda>_. d) network policy observed cands
      = pick_weighted weighted d" for d
    using latest ne w pos by (simp add: zip318_draw_anchor_boundary_from_available_with_policy_def)
  have some: "\<exists>b \<in> set cands. pick_weighted weighted d = Some b" if d: "d < total" for d
  proof -
    obtain b where "pick_weighted weighted d = Some b" using pick_weighted_some[of d weighted] d total by auto
    moreover from pick_weighted_mem[OF this] have "b \<in> set cands" by (simp flip: fst)
    ultimately show ?thesis by blast
  qed
  have each: "\<exists>age. zip318_anchor_boundary_age network policy latest b = Some age
      \<and> card {d. d < total \<and> pick_weighted weighted d = Some b} = 2 ^ (ZIP318_ANCHOR_AGE_CAP - age)"
    if b: "b \<in> set cands" for b
  proof -
    from b obtain i where i: "i < length cands" "cands ! i = b" by (auto simp: in_set_conv_nth)
    obtain age where age: "zip318_anchor_boundary_age network policy latest b = Some age"
      "weighted ! i = (b, 2 ^ (ZIP318_ANCHOR_AGE_CAP - age))"
      using list_all2_nthD[OF all i(1)] i(2) by (auto simp: case_prod_unfold prod_eq_iff)
    have "(b, 2 ^ (ZIP318_ANCHOR_AGE_CAP - age)) \<in> set weighted"
      using i(1) age(2) list_all2_lengthD[OF all] by (metis nth_mem)
    from pick_weighted_draws[OF _ this] fst len total age(1) show ?thesis by auto
  qed
  show ?thesis unfolding draw using pos some each by blast
qed

theorem anchor_draw_weights_witness:
  "\<exists>total. 0 < total
    \<and> (\<forall>d < total. \<exists>b \<in> set [432, 288].
         zip318_draw_anchor_boundary_from_available_with_policy (\<lambda>_. d) Net_Main Standard 600 [432, 288] = Some b)
    \<and> (\<forall>b \<in> set [432, 288]. \<exists>age. zip318_anchor_boundary_age Net_Main Standard 576 b = Some age
         \<and> card {d. d < total \<and>
             zip318_draw_anchor_boundary_from_available_with_policy (\<lambda>_. d) Net_Main Standard 600 [432, 288] = Some b}
           = 2 ^ (ZIP318_ANCHOR_AGE_CAP - age))"
proof (rule anchor_draw_weights[where note_mined = 200 and ?nu6_3.0 = 100])
  show "zip318_anchor_boundary_at_or_before_with_policy Net_Main Standard 600 = Some 576"
    by (simp add: zip318_anchor_boundary_at_or_before_with_policy_def)
  show "[432, 288] = zip318_anchor_candidate_boundaries_with_policy Net_Main Standard 600 200 100"
    by (simp add: zip318_anchor_candidate_boundaries_with_policy_def saturating_add_def
        zip318_anchor_boundary_at_or_before_with_policy_def checked_defs upt_conv_Cons)
qed simp

lemma containing_boundary:
  assumes "anchor_boundary_containing_note_with_policy network policy mined = Inr b"
  shows "mined \<le> b \<and> b mod anchor_bucket_modulus network policy = 0 \<and> b < mined + anchor_bucket_modulus network policy"
proof (cases "mined mod anchor_bucket_modulus network policy = 0")
  case True
  then show ?thesis using assms by (simp add: anchor_boundary_containing_note_with_policy_def)
next
  case False
  let ?m = "anchor_bucket_modulus network policy"
  from False assms have b: "b = mined + (?m - mined mod ?m)"
    by (simp add: anchor_boundary_containing_note_with_policy_def Let_def checked_add_def ok_or_def split: if_splits)
  have lt: "mined mod ?m < ?m" by simp
  then have "b = mined - mined mod ?m + ?m" using b mod_less_eq_dividend[of mined ?m] by linarith
  then have "b mod ?m = 0" by (simp add: minus_mod_eq_mult_div)
  moreover have "mined \<le> b" "b < mined + ?m" using b lt False by linarith+
  ultimately show ?thesis by blast
qed

lemma multiple_between:
  fixes m :: nat
  assumes "x mod m = 0" and "y mod m = 0" and "x < y + m"
  shows "x \<le> y"
proof -
  from assms(1,2) obtain i j where ij: "x = m * i" "y = m * j" by (meson mod_0_imp_dvd dvdE)
  with assms(3) have "m * i < m * (j + 1)" by (simp add: algebra_simps)
  then have "i < j + 1" by (rule mult_less_cancel1[THEN iffD1, THEN conjunct2])
  then have "i \<le> j" by simp
  with ij show ?thesis by simp
qed

text \<open>
  C33: Proof readiness is exact. For a note mined after the activation height, the candidate set at an
  observed height is non-empty exactly when that height has reached the computed proof-ready height
  less the confirmation lag: neither an early try nor a needless wait.
\<close>

theorem proof_ready_exact:
  assumes ready: "proof_ready_height_for_note_mined_height trusted network policy mined = Inr ready_height"
    and mined: "nu6_3 < mined" "mined < 2 ^ 32"
  shows "zip318_anchor_candidate_boundaries_with_policy network policy observed mined nu6_3 \<noteq> []
    \<longleftrightarrow> ready_height \<le> observed + confirmation_lag trusted"
proof -
  let ?m = "anchor_bucket_modulus network policy"
  let ?a = "anchor_bucket_min_age network policy"
  from ready obtain c where c: "anchor_boundary_containing_note_with_policy network policy mined = Inr c"
    and h: "ready_height = c + ?m * ?a + confirmation_lag trusted"
    by (auto simp: proof_ready_height_for_note_mined_height_def Let_def checked_defs ok_or_Inr_iff res_simps
        split: if_splits option.splits elim!: that)
  note cb = containing_boundary[OF c]
  have lower: "max mined (saturating_add 32 nu6_3 1) = mined" using mined by (simp add: saturating_add_def)
  have alt: "ready_height \<le> observed + confirmation_lag trusted \<longleftrightarrow> c + ?a * ?m \<le> observed"
    by (simp add: h mult.commute)
  have c0: "0 < c" using cb mined by linarith
  show ?thesis
  proof (cases "zip318_anchor_boundary_at_or_before_with_policy network policy observed")
    case None
    then have "observed div ?m = 0" by (simp add: zip318_anchor_boundary_at_or_before_with_policy_def Let_def
          minus_mod_eq_mult_div split: if_splits)
    then have "observed < ?m" using anchor_modulus_pos[of network policy] by (auto simp: div_eq_0_iff)
    moreover have "?m \<le> c" using cb c0 by (metis dvd_imp_le mod_0_imp_dvd)
    ultimately show ?thesis using None alt by (simp add: zip318_anchor_candidate_boundaries_with_policy_def)
  next
    case (Some latest)
    then have lat: "latest = ?m * (observed div ?m)" by (simp add: boundary_at_or_before_Some)
    have le: "latest \<le> observed" "observed < latest + ?m"
      unfolding lat using mod_less_divisor[OF anchor_modulus_pos, of observed network policy]
        div_mult_mod_eq[of observed ?m] by (simp_all only: mult.commute[of ?m])
    have mem: "b \<in> set (zip318_anchor_candidate_boundaries_with_policy network policy observed mined nu6_3)
        \<longleftrightarrow> zip318_anchor_boundary_age network policy latest b \<noteq> None \<and> mined \<le> b" for b
      using candidate_boundaries_mem[OF Some, of b mined nu6_3] unfolding lower .
    have cap: "?a \<le> ZIP318_ANCHOR_AGE_CAP" using anchor_min_age_le[of network policy] by (simp add: ZIP318_ANCHOR_AGE_CAP_def)
    show ?thesis
    proof
      assume "zip318_anchor_candidate_boundaries_with_policy network policy observed mined nu6_3 \<noteq> []"
      then obtain b where "b \<in> set (zip318_anchor_candidate_boundaries_with_policy network policy observed mined nu6_3)"
        by (cases "zip318_anchor_candidate_boundaries_with_policy network policy observed mined nu6_3") auto
      then obtain age where age: "latest = b + age * ?m" "?a \<le> age" "mined \<le> b"
        by (auto simp: mem boundary_age_Some[OF refl])
      have "b mod ?m = 0" using age(1) lat by (metis mod_mult_self1 mod_mult_self1_is_0 mult.commute)
      with cb age(3) have "c \<le> b" by (intro multiple_between[of c ?m b]) auto
      moreover have "?a * ?m \<le> age * ?m" using age(2) by (rule mult_le_mono1)
      ultimately show "ready_height \<le> observed + confirmation_lag trusted" using alt age(1) le(1) by linarith
    next
      assume "ready_height \<le> observed + confirmation_lag trusted"
      then have o: "c + ?a * ?m \<le> observed" using alt by simp
      have "c + ?a * ?m \<le> latest"
      proof (rule multiple_between[of _ ?m])
        show "(c + ?a * ?m) mod ?m = 0" using cb by simp
        show "latest mod ?m = 0" by (simp add: lat)
        show "c + ?a * ?m < latest + ?m" using o le(2) by linarith
      qed
      then have "zip318_anchor_boundary_age network policy latest (latest - ?a * ?m) = Some ?a \<and> mined \<le> latest - ?a * ?m"
        using cb cap by (auto simp: boundary_age_Some[OF refl])
      then have "latest - ?a * ?m \<in> set (zip318_anchor_candidate_boundaries_with_policy network policy observed mined nu6_3)"
        by (simp add: mem)
      then show "zip318_anchor_candidate_boundaries_with_policy network policy observed mined nu6_3 \<noteq> []" by auto
    qed
  qed
qed

theorem proof_ready_exact_witness:
  "zip318_anchor_candidate_boundaries_with_policy Net_Main Standard 432 200 100 \<noteq> []
    \<longleftrightarrow> 434 \<le> 432 + confirmation_lag 3"
proof (rule proof_ready_exact)
  show "proof_ready_height_for_note_mined_height 3 Net_Main Standard 200 = Inr 434"
    by (simp add: proof_ready_height_for_note_mined_height_def anchor_boundary_containing_note_with_policy_def
        checked_defs ok_or_def confirmation_lag_def)
qed simp_all

text \<open>
  After a failed selection the retry height is neither too late nor useless: where the newest
  boundary is excluded, the newest boundary of the trusted height stays the same up to the retry
  height and a new one appears at the retry height itself.
\<close>

theorem retry_height_exact:
  assumes retry: "next_anchor_retry_height_after trusted network policy scanned = Inr retry_height"
    and aged: "0 < anchor_bucket_min_age network policy"
    and lag: "confirmation_lag trusted \<le> scanned"
  shows "scanned < retry_height
    \<and> (\<forall>h. scanned \<le> h \<and> h < retry_height \<longrightarrow>
          zip318_anchor_boundary_at_or_before_with_policy network policy (h - confirmation_lag trusted)
          = zip318_anchor_boundary_at_or_before_with_policy network policy (scanned - confirmation_lag trusted))
    \<and> zip318_anchor_boundary_at_or_before_with_policy network policy (retry_height - confirmation_lag trusted)
        = Some (retry_height - confirmation_lag trusted)"
proof -
  let ?m = "anchor_bucket_modulus network policy"
  let ?l = "confirmation_lag trusted"
  define q where "q = (scanned - ?l) div ?m"
  define rr where "rr = (scanned - ?l) mod ?m"
  have r: "rr < ?m" by (simp add: rr_def)
  have s: "scanned - ?l = ?m * q + rr" by (simp add: q_def rr_def)
  have "retry_height = (scanned - ?l) + (?m - rr) + ?l"
    using retry aged by (simp add: next_anchor_retry_height_after_def Let_def checked_defs ok_or_def rr_def
        split: if_splits option.splits)
  then have rh: "retry_height = ?m * (q + 1) + ?l" using s r by simp
  have "zip318_anchor_boundary_at_or_before_with_policy network policy (h - ?l)
      = zip318_anchor_boundary_at_or_before_with_policy network policy (scanned - ?l)"
    if h: "scanned \<le> h" "h < retry_height" for h
  proof -
    have "?m * q \<le> h - ?l" "h - ?l < ?m * (q + 1)" using h s rh lag by linarith+
    then have "(h - ?l) div ?m = q" by (intro div_nat_eqI) (simp_all add: mult.commute)
    then show ?thesis
      by (simp add: zip318_anchor_boundary_at_or_before_with_policy_def Let_def minus_mod_eq_mult_div q_def)
  qed
  moreover have "scanned < retry_height" using rh s r lag by simp
  moreover have "zip318_anchor_boundary_at_or_before_with_policy network policy (retry_height - ?l) = Some (retry_height - ?l)"
    using rh by (simp add: zip318_anchor_boundary_at_or_before_with_policy_def Let_def)
  ultimately show ?thesis by blast
qed

theorem retry_height_exact_witness:
  "zip318_anchor_boundary_at_or_before_with_policy Net_Main Standard (577 - confirmation_lag 3)
     = zip318_anchor_boundary_at_or_before_with_policy Net_Main Standard (500 - confirmation_lag 3)
   \<and> zip318_anchor_boundary_at_or_before_with_policy Net_Main Standard (578 - confirmation_lag 3)
     = Some (578 - confirmation_lag 3)"
proof -
  have "next_anchor_retry_height_after 3 Net_Main Standard 500 = Inr 578"
    by (simp add: next_anchor_retry_height_after_def checked_defs ok_or_def confirmation_lag_def)
  note exact = retry_height_exact[OF this]
  have bounds: "0 < anchor_bucket_min_age Net_Main Standard" "confirmation_lag 3 \<le> 500"
    by (simp_all add: confirmation_lag_def)
  show ?thesis
    using exact[OF bounds, THEN conjunct2, THEN conjunct1, THEN spec, of 577]
      exact[OF bounds, THEN conjunct2, THEN conjunct2]
    by (simp only: numeral_le_iff numeral_less_iff semiring_norm simp_thms)
qed

end
