(* ===== verification/Schedule.thy ===== *)
theory Schedule
  imports Complex_Main "HOL-Library.Monad_Syntax" Migration_Policy
begin

text \<open>
  Random delays and transfer schedules: wallet/sync/migration/schedule.rs, the layer schedule of
  wallet/sync/migration/preparation_policy.rs and \<open>schedule_block_offset_for_part\<close> of
  wallet/sync/migration.rs. The random generator is a \<open>random_source\<close> threaded as explicit state;
  a call that never returns (an endless rejection loop) or panics is \<open>None\<close>.
\<close>

section \<open>The random source\<close>

text \<open>
  \<open>next_u64\<close> and the slice shuffle of the random-number crates: \<open>shuffle_order n\<close> draws the order
  in which a list of \<open>n\<close> elements is rearranged.
\<close>

record 'r random_source =
  next_u64 :: "'r \<Rightarrow> nat \<times> 'r"
  shuffle_order :: "nat \<Rightarrow> 'r \<Rightarrow> nat list \<times> 'r"

text \<open>
  Double-precision arithmetic: the value of the natural logarithm and the rounding of an exact
  result to the nearest double. Rust leaves the precision of \<open>ln\<close> open.
\<close>

record f64_arith =
  f64_ln :: "real \<Rightarrow> real"
  f64_round :: "real \<Rightarrow> real"

definition shuffle :: "'r random_source \<Rightarrow> 'a list \<Rightarrow> 'r \<Rightarrow> 'a list \<times> 'r" where
  "shuffle rng xs r = (case shuffle_order rng (length xs) r of (order, r) \<Rightarrow> (map (\<lambda>i. xs ! i) order, r))"

definition shuffles :: "'r random_source \<Rightarrow> bool" where
  "shuffles rng \<longleftrightarrow> (\<forall>n r. mset (fst (shuffle_order rng n r)) = mset [0..<n])"

section \<open>Delays\<close>

definition UNIT_STEP :: real where
  "UNIT_STEP = 1 / 2 ^ 53"

definition U64_TO_MANTISSA_SHIFT :: nat where
  "U64_TO_MANTISSA_SHIFT = 11"

text \<open>All operations here are exact in double precision: the result is a multiple of \<open>2 ^ -53\<close> in (0, 1].\<close>

definition draw_unit_left_open :: "'r random_source \<Rightarrow> 'r \<Rightarrow> real \<times> 'r" where
  "draw_unit_left_open rng r =
     (case next_u64 rng r of (word, r) \<Rightarrow> (1 - real (word div 2 ^ U64_TO_MANTISSA_SHIFT) * UNIT_STEP, r))"

text \<open>\<open>as u64\<close> saturates, \<open>as u32\<close> truncates.\<close>

definition round_nonnegative_to_u32 :: "f64_arith \<Rightarrow> real \<Rightarrow> nat" where
  "round_nonnegative_to_u32 fp v = min (nat \<lfloor>f64_round fp (v + 1 / 2)\<rfloor>) (2 ^ 64 - 1) mod 2 ^ 32"

definition sampled_delay :: "f64_arith \<Rightarrow> nat \<Rightarrow> real \<Rightarrow> nat" where
  "sampled_delay fp mean_delay_blocks uniform =
     round_nonnegative_to_u32 fp (f64_round fp (- f64_ln fp uniform * real mean_delay_blocks))"

text \<open>The rejection loop.\<close>

partial_function (option) draw_delay ::
    "'r random_source \<Rightarrow> f64_arith \<Rightarrow> nat \<Rightarrow> nat \<Rightarrow> 'r \<Rightarrow> (nat \<times> 'r) option" where
  "draw_delay rng fp mean_delay_blocks max_delay_blocks r =
     (case draw_unit_left_open rng r of (uniform, r) \<Rightarrow>
        let sampled = sampled_delay fp mean_delay_blocks uniform in
        if sampled \<le> max_delay_blocks then Some (sampled, r)
        else draw_delay rng fp mean_delay_blocks max_delay_blocks r)"

fun offsets_loop ::
    "'r random_source \<Rightarrow> f64_arith \<Rightarrow> nat \<Rightarrow> nat \<Rightarrow> nat \<Rightarrow> nat \<Rightarrow> 'r \<Rightarrow> (nat list \<times> 'r) option" where
  "offsets_loop rng fp mean_delay_blocks max_delay_blocks 0 elapsed_blocks r = Some ([], r)"
| "offsets_loop rng fp mean_delay_blocks max_delay_blocks (Suc n) elapsed_blocks r =
     do {
       (delay, r) \<leftarrow> draw_delay rng fp mean_delay_blocks max_delay_blocks r;
       let elapsed_blocks = saturating_add 32 elapsed_blocks delay;
       (offsets, r) \<leftarrow> offsets_loop rng fp mean_delay_blocks max_delay_blocks n elapsed_blocks r;
       Some (elapsed_blocks # offsets, r)
     }"

definition random_schedule_block_offsets_with_rng ::
    "'r random_source \<Rightarrow> f64_arith \<Rightarrow> nat \<Rightarrow> nat \<Rightarrow> nat \<Rightarrow> 'r \<Rightarrow> (nat list \<times> 'r) option" where
  "random_schedule_block_offsets_with_rng rng fp how_many mean_delay_blocks max_delay_blocks r =
     (if mean_delay_blocks = 0 \<or> max_delay_blocks = 0 then None
      else offsets_loop rng fp mean_delay_blocks max_delay_blocks how_many 0 r)"

section \<open>Transfer schedules\<close>

record migration_schedule_entry =
  part_index :: "nat option"
  value_zatoshi :: zatoshi
  block_offset :: nat

definition planned_transfer_schedule_for_parts_with_policy ::
    "'r random_source \<Rightarrow> f64_arith \<Rightarrow> wallet_network \<Rightarrow> migration_timing_policy \<Rightarrow> (nat \<times> zatoshi) list \<Rightarrow> 'r
      \<Rightarrow> (migration_schedule_entry list \<times> 'r) option" where
  "planned_transfer_schedule_for_parts_with_policy rng fp network timing_policy parts r =
     (case shuffle rng parts r of (parts, r) \<Rightarrow>
      case schedule_parameters_with_policy_for_part_count network timing_policy (length parts) of
        (mean_delay_blocks, max_delay_blocks) \<Rightarrow>
      do {
        (offsets, r) \<leftarrow> random_schedule_block_offsets_with_rng rng fp (length parts)
                          mean_delay_blocks max_delay_blocks r;
        Some (map (\<lambda>((i, v), offset). \<lparr>part_index = Some i, value_zatoshi = v, block_offset = offset\<rparr>)
               (zip parts offsets), r)
      })"

definition planned_transfer_schedule_with_policy ::
    "'r random_source \<Rightarrow> f64_arith \<Rightarrow> wallet_network \<Rightarrow> migration_timing_policy \<Rightarrow> zatoshi list \<Rightarrow> 'r
      \<Rightarrow> (migration_schedule_entry list \<times> 'r) option" where
  "planned_transfer_schedule_with_policy rng fp network timing_policy values r =
     planned_transfer_schedule_for_parts_with_policy rng fp network timing_policy
       (map (\<lambda>(i, v). (i mod 2 ^ 32, v)) (enumerate 0 values)) r"

definition planned_transfer_schedule ::
    "bool \<Rightarrow> 'r random_source \<Rightarrow> f64_arith \<Rightarrow> wallet_network \<Rightarrow> zatoshi list \<Rightarrow> 'r
      \<Rightarrow> (migration_schedule_entry list \<times> 'r) option" where
  "planned_transfer_schedule fast rng fp network values r =
     planned_transfer_schedule_for_parts_with_policy rng fp network (configured_timing_policy fast network)
       (map (\<lambda>(i, v). (i mod 2 ^ 32, v)) (enumerate 0 values)) r"

definition schedule_block_offset_for_part ::
    "migration_schedule_entry list \<Rightarrow> zatoshi list \<Rightarrow> nat \<Rightarrow> zatoshi \<Rightarrow> nat option" where
  "schedule_block_offset_for_part schedule target_values part v =
     (if \<forall>entry \<in> set schedule. part_index entry \<noteq> None
      then map_option block_offset
             (find (\<lambda>entry. part_index entry = Some part \<and> value_zatoshi entry = v) schedule)
      else if list_get target_values part \<noteq> Some v then None
      else
        let equal_value_rank = length (filter (\<lambda>value. value = v) (take part target_values)) in
        map_option block_offset (list_get (filter (\<lambda>entry. value_zatoshi entry = v) schedule) equal_value_rank))"

definition rebuild_schedule_block_offsets ::
    "'r random_source \<Rightarrow> f64_arith \<Rightarrow> migration_schedule_entry list \<Rightarrow> zatoshi list \<Rightarrow> (nat \<times> zatoshi) list
      \<Rightarrow> wallet_network \<Rightarrow> migration_timing_policy \<Rightarrow> 'r \<Rightarrow> (nat list outcome \<times> 'r) option" where
  "rebuild_schedule_block_offsets rng fp schedule target_values recoveries network timing_policy r =
     (if \<exists>(part, v) \<in> set recoveries. schedule_block_offset_for_part schedule target_values part v = None
      then Some (Inl (Msg ''Approved migration schedule is missing a recovery child''), r)
      else case schedule_parameters_with_policy network timing_policy of
        (mean_delay_blocks, max_delay_blocks) \<Rightarrow>
      do {
        (offsets, r) \<leftarrow> random_schedule_block_offsets_with_rng rng fp (length recoveries)
                          mean_delay_blocks max_delay_blocks r;
        (case shuffle rng [0..<length recoveries] r of (slots, r) \<Rightarrow>
         Some (Inr (foldl (\<lambda>assigned (slot, offset). assigned[slot := offset])
                      (replicate (length recoveries) 0) (zip slots offsets)), r))
      })"

section \<open>Validation\<close>

definition validate_schedule_part_indexes_step ::
    "zatoshi list \<Rightarrow> migration_schedule_entry \<Rightarrow> nat set \<Rightarrow> nat set outcome" where
  "validate_schedule_part_indexes_step target_values entry seen =
     res_bind (ok_or (part_index entry) (Msg ''Approved migration schedule part indexes are incomplete'')) (\<lambda>part.
     res_bind (ok_or (list_get target_values part)
        (Msg ''Approved migration schedule part index is outside the plan'')) (\<lambda>v.
     if part \<in> seen then Inl (Msg ''Approved migration schedule part index is duplicated'')
     else if v \<noteq> value_zatoshi entry then Inl (Msg ''Approved migration schedule part value changed'')
     else Inr (insert part seen)))"

definition validate_schedule_part_indexes :: "migration_schedule_entry list \<Rightarrow> zatoshi list \<Rightarrow> unit outcome" where
  "validate_schedule_part_indexes schedule target_values =
     (if \<forall>entry \<in> set schedule. part_index entry = None then Inr ()
      else if \<exists>entry \<in> set schedule. part_index entry = None
        then Inl (Msg ''Approved migration schedule part indexes are incomplete'')
      else res_bind (res_fold (validate_schedule_part_indexes_step target_values) schedule {}) (\<lambda>_. Inr ()))"

fun validate_gaps :: "nat \<Rightarrow> nat \<Rightarrow> migration_schedule_entry list \<Rightarrow> unit outcome" where
  "validate_gaps max_delay_blocks previous_offset [] = Inr ()"
| "validate_gaps max_delay_blocks previous_offset (entry # rest) =
     res_bind (ok_or (checked_sub (block_offset entry) previous_offset)
        (Msg ''Approved migration schedule is not ordered'')) (\<lambda>gap.
     if max_delay_blocks < gap then Inl (Msg ''Approved migration schedule delay is outside policy'')
     else validate_gaps max_delay_blocks (block_offset entry) rest)"

definition validate_schedule_with_policy ::
    "migration_schedule_entry list \<Rightarrow> zatoshi list \<Rightarrow> wallet_network \<Rightarrow> migration_timing_policy \<Rightarrow> unit outcome" where
  "validate_schedule_with_policy schedule target_values network timing_policy =
     (if length schedule \<noteq> length target_values then Inl (Msg ''Approved migration schedule count changed'')
      else if sort (map value_zatoshi schedule) \<noteq> sort target_values
        then Inl (Msg ''Approved migration schedule values changed'')
      else res_bind (validate_schedule_part_indexes schedule target_values) (\<lambda>_.
        validate_gaps (snd (schedule_parameters_with_policy network timing_policy)) 0 schedule))"

definition validate_schedule ::
    "bool \<Rightarrow> migration_schedule_entry list \<Rightarrow> zatoshi list \<Rightarrow> wallet_network \<Rightarrow> unit outcome" where
  "validate_schedule fast schedule target_values network =
     validate_schedule_with_policy schedule target_values network (configured_timing_policy fast network)"

definition target_slot_step ::
    "migration_schedule_entry \<Rightarrow> zatoshi option list \<Rightarrow> zatoshi option list outcome" where
  "target_slot_step entry target_values =
     (case part_index entry of
        None \<Rightarrow> Inl (Msg ''all schedule entries were checked above'')
      | Some part \<Rightarrow>
          res_bind (ok_or (list_get target_values part)
             (Msg ''Approved migration schedule part index is outside the plan'')) (\<lambda>slot.
          if slot \<noteq> None then Inl (Msg ''Approved migration schedule part index is duplicated'')
          else Inr (target_values[part := Some (value_zatoshi entry)])))"

definition target_values_from_schedule :: "migration_schedule_entry list \<Rightarrow> zatoshi list outcome" where
  "target_values_from_schedule schedule =
     (if schedule = [] then Inr []
      else if \<forall>entry \<in> set schedule. part_index entry = None
        then Inl (Msg ''Approved migration schedule does not identify migration parts'')
      else if \<exists>entry \<in> set schedule. part_index entry = None
        then Inl (Msg ''Approved migration schedule part indexes are incomplete'')
      else res_bind (res_fold target_slot_step schedule (replicate (length schedule) None)) (\<lambda>target_values.
        res_map (\<lambda>slot. ok_or slot (Msg ''Approved migration schedule part indexes are incomplete'')) target_values))"

section \<open>Preparation heights\<close>

definition preparation_delay_with_rng ::
    "'r random_source \<Rightarrow> f64_arith \<Rightarrow> wallet_network \<Rightarrow> migration_timing_policy \<Rightarrow> nat \<Rightarrow> 'r \<Rightarrow> (nat \<times> 'r) option" where
  "preparation_delay_with_rng rng fp network timing_policy transaction_count r =
     (case preparation_schedule_parameters_for_transaction_count network timing_policy transaction_count of
        (mean_delay_blocks, max_delay_blocks) \<Rightarrow> draw_delay rng fp mean_delay_blocks max_delay_blocks r)"

text \<open>The stages of one layer: each takes the running height, moved on by a fresh delay when spaced.\<close>

fun layer_stages_loop ::
    "('r \<Rightarrow> (nat \<times> 'r) option) \<Rightarrow> preparation_timing_policy \<Rightarrow> nat list \<Rightarrow> nat list \<Rightarrow> height \<Rightarrow> 'r
      \<Rightarrow> ((nat list \<times> height) outcome \<times> 'r) option" where
  "layer_stages_loop delay policy [] heights scheduled_height r = Some (Inr (heights, scheduled_height), r)"
| "layer_stages_loop delay policy (stage_index # rest) heights scheduled_height r =
     (if policy = Zip318Spaced then
        do {
          (blocks, r) \<leftarrow> delay r;
          (case checked_add 32 scheduled_height blocks of
             None \<Rightarrow> Some (Inl (Msg ''Migration preparation scheduled height overflow''), r)
           | Some scheduled_height \<Rightarrow>
               layer_stages_loop delay policy rest (heights[stage_index := scheduled_height]) scheduled_height r)
        }
      else layer_stages_loop delay policy rest (heights[stage_index := scheduled_height]) scheduled_height r)"

definition stages_of_layer :: "nat list \<Rightarrow> nat \<Rightarrow> nat list" where
  "stages_of_layer stage_layers layer_index = filter (\<lambda>i. stage_layers ! i = layer_index) [0..<length stage_layers]"

fun layers_loop ::
    "'r random_source \<Rightarrow> ('r \<Rightarrow> (nat \<times> 'r) option) \<Rightarrow> nat \<Rightarrow> preparation_timing_policy \<Rightarrow> nat list \<Rightarrow> nat list
      \<Rightarrow> nat list \<Rightarrow> height \<Rightarrow> 'r \<Rightarrow> (nat list outcome \<times> 'r) option" where
  "layers_loop rng delay confirmations policy stage_layers [] heights layer_base r = Some (Inr heights, r)"
| "layers_loop rng delay confirmations policy stage_layers (layer_index # layers) heights layer_base r =
     (let stage_indices = stages_of_layer stage_layers layer_index in
      if stage_indices = [] then
        Some (Inl (Message ''Migration preparation schedule is missing layer {layer_index}'' [ANat layer_index]), r)
      else case (if policy = Zip318Spaced then shuffle rng stage_indices r else (stage_indices, r)) of
        (stage_indices, r) \<Rightarrow>
      do {
        (result, r) \<leftarrow> layer_stages_loop delay policy stage_indices heights layer_base r;
        (case result of
           Inl e \<Rightarrow> Some (Inl e, r)
         | Inr (heights, scheduled_height) \<Rightarrow>
             (case checked_add 32 scheduled_height confirmations of
                None \<Rightarrow> Some (Inl (Msg ''Migration preparation layer height overflow''), r)
              | Some layer_base \<Rightarrow>
                  layers_loop rng delay confirmations policy stage_layers layers heights layer_base r))
      })"

definition planned_preparation_scheduled_heights ::
    "'r random_source \<Rightarrow> f64_arith \<Rightarrow> nat \<Rightarrow> wallet_network \<Rightarrow> preparation_timing_policy
      \<Rightarrow> migration_timing_policy \<Rightarrow> height \<Rightarrow> nat list \<Rightarrow> 'r \<Rightarrow> (nat list outcome \<times> 'r) option" where
  "planned_preparation_scheduled_heights rng fp confirmations network preparation_policy timing_policy
      target_height stage_layers r =
     (if stage_layers = [] then Some (Inr [], r)
      else layers_loop rng
             (preparation_delay_with_rng rng fp network timing_policy (length stage_layers))
             confirmations preparation_policy stage_layers [0 ..< Suc (Max (set stage_layers))]
             (replicate (length stage_layers) 0) (target_height - 1) r)"

end
