(* ===== verification/Schedule_Lemmas.thy ===== *)
theory Schedule_Lemmas
  imports "HOL-Library.Multiset" Schedule
begin

text \<open>
  Lemmas on random delays and schedules: when the rejection loop returns, the gaps of the drawn
  offsets, what validation and target reading accept, and how parts meet their schedule entries.
\<close>

section \<open>The rejection loop\<close>

text \<open>The states of the generator from which some later draw is accepted.\<close>

inductive accepts :: "'r random_source \<Rightarrow> f64_arith \<Rightarrow> nat \<Rightarrow> nat \<Rightarrow> 'r \<Rightarrow> bool"
  for rng fp mean mx where
  now: "draw_unit_left_open rng r = (u, r') \<Longrightarrow> sampled_delay fp mean u \<le> mx \<Longrightarrow> accepts rng fp mean mx r"
| later: "draw_unit_left_open rng r = (u, r') \<Longrightarrow> accepts rng fp mean mx r' \<Longrightarrow> accepts rng fp mean mx r"

lemma draw_delay_result:
  "draw_delay rng fp mean mx r = Some dr \<Longrightarrow> fst dr \<le> mx \<and> accepts rng fp mean mx r"
proof (induction rule: draw_delay.raw_induct[rotated, consumes 1, case_names step])
  case (step self rng fp mean mx r dr)
  obtain u r' where u: "draw_unit_left_open rng r = (u, r')" by (cases "draw_unit_left_open rng r")
  show ?case
  proof (cases "sampled_delay fp mean u \<le> mx")
    case True
    with step(2) u have "dr = (sampled_delay fp mean u, r')" by (simp add: Let_def)
    with True show ?thesis by (simp add: accepts.now[OF u])
  next
    case False
    with step(2) u have "self rng fp mean mx r' = Some dr" by (simp add: Let_def)
    from step(1)[OF this] show ?thesis using accepts.later[OF u] by blast
  qed
qed

lemma draw_delay_returns: "accepts rng fp mean mx r \<Longrightarrow> \<exists>d r'. draw_delay rng fp mean mx r = Some (d, r')"
proof (induction rule: accepts.induct)
  case (now r u r')
  then show ?case by (subst draw_delay.simps) simp
next
  case (later r u r')
  then show ?case by (subst draw_delay.simps) (auto simp: Let_def)
qed

lemmas draw_delay_le = draw_delay_result[THEN conjunct1]

section \<open>Offsets\<close>

fun gaps_within :: "nat \<Rightarrow> nat \<Rightarrow> nat list \<Rightarrow> bool" where
  "gaps_within mx previous [] \<longleftrightarrow> True"
| "gaps_within mx previous (offset # offsets) \<longleftrightarrow>
     previous \<le> offset \<and> offset \<le> previous + mx \<and> gaps_within mx offset offsets"

lemma gaps_within_sorted: "gaps_within mx p os \<Longrightarrow> sorted (p # os)"
  by (induction os arbitrary: p) (auto intro: order_trans)

lemma offsets_loop_result:
  assumes "offsets_loop rng fp mean mx n e r = Some (os, r')"
  shows "length os = n \<and> (e < 2 ^ 32 \<longrightarrow> gaps_within mx e os \<and> (\<forall>x \<in> set os. x < 2 ^ 32))"
  using assms
proof (induction n arbitrary: e r os)
  case (Suc n)
  then obtain d r1 os' where d: "draw_delay rng fp mean mx r = Some (d, r1)"
    and os': "offsets_loop rng fp mean mx n (saturating_add 32 e d) r1 = Some (os', r')"
    and os: "os = saturating_add 32 e d # os'"
    by (auto simp: Let_def split: Option.bind_splits prod.splits)
  have "d \<le> mx" using draw_delay_le[OF d] by simp
  with Suc.IH[OF os'] os show ?case by (auto simp: saturating_add_def)
qed simp

lemma offsets_loop_returns:
  assumes "\<forall>r. accepts rng fp mean mx r"
  shows "\<exists>os r'. offsets_loop rng fp mean mx n e r = Some (os, r')"
proof (induction n arbitrary: e r)
  case (Suc n)
  obtain d r1 where d: "draw_delay rng fp mean mx r = Some (d, r1)"
    using draw_delay_returns[OF assms[rule_format, of r]] by auto
  obtain os r2 where os: "offsets_loop rng fp mean mx n (saturating_add 32 e d) r1 = Some (os, r2)"
    using Suc[of "saturating_add 32 e d" r1] by auto
  show ?case by (simp add: d os)
qed simp

lemma random_offsets_result:
  assumes "random_schedule_block_offsets_with_rng rng fp n mean mx r = Some (os, r')"
  shows "length os = n \<and> gaps_within mx 0 os \<and> (\<forall>x \<in> set os. x < 2 ^ 32)"
  using assms offsets_loop_result[of rng fp mean mx n 0 r os r']
  by (auto simp: random_schedule_block_offsets_with_rng_def split: if_splits)

section \<open>Validation\<close>

lemma validate_gaps_iff:
  "validate_gaps mx p schedule = Inr () \<longleftrightarrow> gaps_within mx p (map block_offset schedule)"
proof (induction schedule arbitrary: p)
  case (Cons e schedule)
  show ?case by (auto simp: Cons.IH checked_sub_def split: if_splits)
qed simp

lemma part_indexes_fold_iff:
  "res_fold (validate_schedule_part_indexes_step tv) schedule seen = Inr seen' \<longleftrightarrow>
     distinct (map part_index schedule)
     \<and> (\<forall>e \<in> set schedule. \<exists>p. part_index e = Some p \<and> p < length tv \<and> p \<notin> seen \<and> tv ! p = value_zatoshi e)
     \<and> seen' = seen \<union> {p. Some p \<in> part_index ` set schedule}"
proof (induction schedule arbitrary: seen)
  case (Cons e schedule)
  show ?case
  proof (cases "\<exists>p. part_index e = Some p \<and> p < length tv \<and> p \<notin> seen \<and> tv ! p = value_zatoshi e")
    case True
    then obtain p where p: "part_index e = Some p" "p < length tv" "p \<notin> seen" "tv ! p = value_zatoshi e" by blast
    then have "validate_schedule_part_indexes_step tv e seen = Inr (insert p seen)"
      by (simp add: validate_schedule_part_indexes_step_def list_get_def)
    then show ?thesis using p by (auto simp: Cons.IH) force+
  next
    case False
    then have "\<nexists>s. validate_schedule_part_indexes_step tv e seen = Inr s"
      by (auto simp: validate_schedule_part_indexes_step_def list_get_def ok_or_def res_bind_def
          split: option.splits sum.splits if_splits)
    then show ?thesis using False by (auto simp: res_bind_Inr_iff)
  qed
qed auto

text \<open>A schedule names the parts of a target list: each part once, with its value.\<close>

definition names_parts :: "migration_schedule_entry list \<Rightarrow> zatoshi list \<Rightarrow> bool" where
  "names_parts schedule tv \<longleftrightarrow> distinct (map part_index schedule)
     \<and> (\<forall>e \<in> set schedule. \<exists>p. part_index e = Some p \<and> p < length tv \<and> tv ! p = value_zatoshi e)"

lemma validate_part_indexes_iff:
  "validate_schedule_part_indexes schedule tv = Inr () \<longleftrightarrow>
     (\<forall>e \<in> set schedule. part_index e = None) \<or> names_parts schedule tv"
proof -
  have step: "res_bind (res_fold (validate_schedule_part_indexes_step tv) schedule {}) (\<lambda>_. Inr ()) = Inr ()
      \<longleftrightarrow> names_parts schedule tv"
    by (auto simp: res_bind_Inr_iff part_indexes_fold_iff names_parts_def)
  have "names_parts schedule tv \<Longrightarrow> \<forall>e \<in> set schedule. part_index e \<noteq> None" by (auto simp: names_parts_def)
  with step show ?thesis unfolding validate_schedule_part_indexes_def
    by (simp only: split: if_split) blast
qed

lemma validate_schedule_iff:
  "validate_schedule_with_policy schedule tv network policy = Inr () \<longleftrightarrow>
     mset (map value_zatoshi schedule) = mset tv
     \<and> ((\<forall>e \<in> set schedule. part_index e = None) \<or> names_parts schedule tv)
     \<and> gaps_within (snd (schedule_parameters_with_policy network policy)) 0 (map block_offset schedule)"
proof -
  have "sort xs = sort ys \<longleftrightarrow> mset xs = mset ys" for xs ys :: "nat list"
    by (metis mset_sort properties_for_sort sorted_sort)
  moreover have "mset (map value_zatoshi schedule) = mset tv \<Longrightarrow> length schedule = length tv"
    by (metis length_map size_mset)
  ultimately show ?thesis
    by (auto simp: validate_schedule_with_policy_def res_bind_Inr_iff validate_part_indexes_iff validate_gaps_iff)
qed

text \<open>As many entries as parts: the named parts are all the parts.\<close>

lemma names_parts_perm:
  assumes "names_parts schedule tv" and "length schedule = length tv"
  shows "mset (map part_index schedule) = mset (map Some [0..<length tv])"
proof -
  have "set (map part_index schedule) \<subseteq> Some ` {..<length tv}" using assms(1) by (force simp: names_parts_def)
  moreover have "card (set (map part_index schedule)) = length tv"
    using assms by (metis distinct_card length_map names_parts_def)
  ultimately have "set (map part_index schedule) = Some ` {..<length tv}"
    by (intro card_subset_eq) (auto simp: card_image)
  moreover have "distinct (map part_index schedule)" using assms(1) by (simp add: names_parts_def)
  moreover have "set (map Some [0..<length tv]) = Some ` {..<length tv}" by (auto simp: atLeast0LessThan)
  ultimately show ?thesis by (metis distinct_map distinct_upt inj_Some inj_on_subset set_eq_iff_mset_eq_distinct subset_UNIV)
qed

section \<open>Reading the target values\<close>

lemma target_fold_result:
  "res_fold target_slot_step schedule slots = Inr slots' \<Longrightarrow>
     distinct (map part_index schedule) \<and> length slots' = length slots
     \<and> (\<forall>e \<in> set schedule. \<exists>p. part_index e = Some p \<and> p < length slots \<and> slots ! p = None
          \<and> slots' ! p = Some (value_zatoshi e))
     \<and> (\<forall>i < length slots. Some i \<notin> part_index ` set schedule \<longrightarrow> slots' ! i = slots ! i)"
proof (induction schedule arbitrary: slots)
  case (Cons e schedule)
  then obtain s1 where s1: "target_slot_step e slots = Inr s1" and rest1: "res_fold target_slot_step schedule s1 = Inr slots'"
    by (auto simp: res_bind_Inr_iff)
  from s1 obtain p where p: "part_index e = Some p" "p < length slots" "slots ! p = None"
    and "s1 = slots[p := Some (value_zatoshi e)]"
    by (auto simp: target_slot_step_def res_bind_Inr_iff res_simps split: option.splits if_splits)
  with rest1 have rest: "res_fold target_slot_step schedule (slots[p := Some (value_zatoshi e)]) = Inr slots'" by simp
  note IH = Cons.IH[OF rest]
  have fresh: "Some p \<notin> part_index ` set schedule"
  proof
    assume "Some p \<in> part_index ` set schedule"
    then obtain e' where "e' \<in> set schedule" "part_index e' = Some p" by force
    with IH p(2) show False by force
  qed
  with IH p have "slots' ! p = Some (value_zatoshi e)" by (metis length_list_update nth_list_update_eq)
  moreover have "\<exists>q. part_index e' = Some q \<and> q < length slots \<and> slots ! q = None \<and> slots' ! q = Some (value_zatoshi e')"
    if e': "e' \<in> set schedule" for e'
  proof -
    from IH e' obtain q where q: "part_index e' = Some q" "q < length slots"
      "slots[p := Some (value_zatoshi e)] ! q = None" "slots' ! q = Some (value_zatoshi e')" by auto
    then have "q \<noteq> p" using p(2) by auto
    with q show ?thesis by auto
  qed
  ultimately show ?case using IH p fresh by (auto simp: image_iff)
qed simp

lemma target_fold_exists:
  "distinct (map part_index schedule) \<Longrightarrow>
     (\<forall>e \<in> set schedule. \<exists>p. part_index e = Some p \<and> p < length slots \<and> slots ! p = None) \<Longrightarrow>
     \<exists>slots'. res_fold target_slot_step schedule slots = Inr slots'"
proof (induction schedule arbitrary: slots)
  case (Cons e schedule)
  then obtain p where p: "part_index e = Some p" "p < length slots" "slots ! p = None" by auto
  then have "target_slot_step e slots = Inr (slots[p := Some (value_zatoshi e)])"
    by (simp add: target_slot_step_def list_get_def)
  moreover have "\<forall>e' \<in> set schedule. \<exists>q. part_index e' = Some q \<and> q < length (slots[p := Some (value_zatoshi e)])
      \<and> slots[p := Some (value_zatoshi e)] ! q = None"
  proof
    fix e' assume e': "e' \<in> set schedule"
    with Cons.prems(2) obtain q where q: "part_index e' = Some q" "q < length slots" "slots ! q = None" by auto
    have "q \<noteq> p" using Cons.prems(1) e' q(1) p(1) by force
    with q show "\<exists>q. part_index e' = Some q \<and> q < length (slots[p := Some (value_zatoshi e)])
      \<and> slots[p := Some (value_zatoshi e)] ! q = None" by auto
  qed
  ultimately show ?case using Cons.IH[of "slots[p := Some (value_zatoshi e)]"] Cons.prems(1) by simp
qed simp

lemma res_map_ok_or_iff: "res_map (\<lambda>slot. ok_or slot e) slots = Inr vs \<longleftrightarrow> slots = map Some vs"
  by (induction slots arbitrary: vs) (auto simp: res_bind_Inr_iff res_simps map_eq_Cons_conv)

lemma target_values_iff:
  assumes "schedule \<noteq> []"
  shows "target_values_from_schedule schedule = Inr tv \<longleftrightarrow> length tv = length schedule \<and> names_parts schedule tv"
    (is "?L \<longleftrightarrow> ?R")
proof
  assume ?L
  with assms obtain slots where fold: "res_fold target_slot_step schedule (replicate (length schedule) None) = Inr slots"
    and slots: "slots = map Some tv"
    by (auto simp: target_values_from_schedule_def res_bind_Inr_iff res_map_ok_or_iff split: if_splits)
  from target_fold_result[OF fold] slots show ?R by (fastforce simp: names_parts_def)
next
  assume R: ?R
  then have all: "\<forall>e \<in> set schedule. \<exists>p. part_index e = Some p \<and> p < length schedule" by (auto simp: names_parts_def)
  moreover have "distinct (map part_index schedule)" using R by (simp add: names_parts_def)
  ultimately obtain slots where fold: "res_fold target_slot_step schedule (replicate (length schedule) None) = Inr slots"
    using target_fold_exists[of schedule "replicate (length schedule) None"] by force
  note res = target_fold_result[OF fold]
  have "slots = map Some tv"
  proof (rule nth_equalityI)
    show len: "length slots = length (map Some tv)" using res R by simp
    fix i assume i: "i < length slots"
    then have "Some i \<in># mset (map part_index schedule)"
      using names_parts_perm[of schedule tv] R len by simp
    then obtain e where e: "e \<in> set schedule" "part_index e = Some i" by auto
    then have "slots ! i = Some (value_zatoshi e)" using res by fastforce
    moreover have "tv ! i = value_zatoshi e" using R e by (force simp: names_parts_def)
    ultimately show "slots ! i = map Some tv ! i" using i len by simp
  qed
  moreover have "\<exists>e \<in> set schedule. part_index e \<noteq> None" using all assms by (cases schedule) auto
  ultimately show ?L using assms fold all
    by (auto simp: target_values_from_schedule_def res_map_ok_or_iff)
qed

section \<open>Parts and entries\<close>

text \<open>Two keyed lists that agree on every key agree as multisets.\<close>

lemma count_mset_map: "count (mset (map F xs)) z = length (filter (\<lambda>i. F i = z) xs)"
  by (induction xs) auto

lemma mset_map_by_key:
  assumes "\<And>v. map F (filter (\<lambda>i. g i = v) xs) = map Some (filter (\<lambda>y. h y = v) ys)"
  shows "mset (map F xs) = mset (map Some ys)"
proof (rule multiset_eqI)
  fix z
  have key: "F i = Some y \<Longrightarrow> g i = h y" if "i \<in> set xs" for i y
  proof -
    assume F: "F i = Some y"
    have "i \<in> set (filter (\<lambda>j. g j = g i) xs)" using that by simp
    then have "F i \<in> set (map F (filter (\<lambda>j. g j = g i) xs))" by (simp only: set_map image_eqI)
    with assms[of "g i"] F show ?thesis by auto
  qed
  show "count (mset (map F xs)) z = count (mset (map Some ys)) z"
  proof (cases z)
    case None
    have ne: "F i \<noteq> None" if "i \<in> set xs" for i
    proof -
      have "i \<in> set (filter (\<lambda>j. g j = g i) xs)" using that by simp
      then have "F i \<in> set (map F (filter (\<lambda>j. g j = g i) xs))" by (simp only: set_map image_eqI)
      with assms[of "g i"] show ?thesis by auto
    qed
    have "z \<notin># mset (map F xs)" using ne None by fastforce
    moreover have "z \<notin># mset (map Some ys)" using None by auto
    ultimately show ?thesis by (metis count_inI)
  next
    case (Some y)
    have "filter (\<lambda>i. F i = z) xs = filter (\<lambda>i. F i = z) (filter (\<lambda>i. g i = h y) xs)"
      using key Some by (auto intro!: filter_cong)
    then have "count (mset (map F xs)) z = count (mset (map F (filter (\<lambda>i. g i = h y) xs))) z"
      by (simp only: count_mset_map)
    also have "\<dots> = count (mset (map Some (filter (\<lambda>y'. h y' = h y) ys))) z" by (simp only: assms)
    also have "\<dots> = count (mset (map Some ys)) z"
      by (simp only: count_mset_map Some option.inject filter_filter) (metis (no_types, lifting) filter_cong)
    finally show ?thesis .
  qed
qed

text \<open>The parts of one value, in order, meet the entries of that value, in order.\<close>

definition rank_of :: "zatoshi list \<Rightarrow> nat \<Rightarrow> nat" where
  "rank_of tv i = length (filter (\<lambda>v. v = tv ! i) (take i tv))"

lemma parts_of_value_ranks:
  "map (\<lambda>i. list_get ys (rank_of tv i)) (filter (\<lambda>i. tv ! i = v) [0..<length tv])
     = map (list_get ys) [0..<length (filter (\<lambda>w. w = v) tv)]"
proof (induction tv rule: rev_induct)
  case (snoc w tv)
  have old: "rank_of (tv @ [w]) i = rank_of tv i" "(tv @ [w]) ! i = tv ! i" if "i < length tv" for i
    using that by (simp_all add: rank_of_def nth_append)
  have "filter (\<lambda>i. (tv @ [w]) ! i = v) [0..<length tv] = filter (\<lambda>i. tv ! i = v) [0..<length tv]"
    by (rule filter_cong) (auto simp: old)
  moreover have "map (\<lambda>i. list_get ys (rank_of (tv @ [w]) i)) (filter (\<lambda>i. tv ! i = v) [0..<length tv])
      = map (\<lambda>i. list_get ys (rank_of tv i)) (filter (\<lambda>i. tv ! i = v) [0..<length tv])"
    by (rule map_cong) (auto simp: old)
  moreover have "rank_of (tv @ [w]) (length tv) = length (filter (\<lambda>u. u = w) tv)" by (simp add: rank_of_def)
  ultimately show ?case using snoc.IH by (cases "w = v") simp_all
qed simp

lemma map_list_get: "n = length ys \<Longrightarrow> map (list_get ys) [0..<n] = map Some ys"
  by (auto intro: nth_equalityI simp: list_get_def)

lemma parts_meet_entries:
  assumes "mset (map value_zatoshi schedule) = mset tv"
  shows "mset (map (\<lambda>i. list_get (filter (\<lambda>e. value_zatoshi e = tv ! i) schedule) (rank_of tv i)) [0..<length tv])
    = mset (map Some schedule)"
proof (rule mset_map_by_key[where g = "\<lambda>i. tv ! i" and h = value_zatoshi])
  fix v
  let ?ys = "filter (\<lambda>e. value_zatoshi e = v) schedule"
  have "length (filter (\<lambda>w. w = v) tv) = count (mset tv) v" by (simp add: count_mset_map[of id, simplified])
  also have "\<dots> = length ?ys" by (simp only: assms[symmetric] count_mset_map)
  finally have len: "length (filter (\<lambda>w. w = v) tv) = length ?ys" .
  have "map (\<lambda>i. list_get (filter (\<lambda>e. value_zatoshi e = tv ! i) schedule) (rank_of tv i))
        (filter (\<lambda>i. tv ! i = v) [0..<length tv])
      = map (\<lambda>i. list_get ?ys (rank_of tv i)) (filter (\<lambda>i. tv ! i = v) [0..<length tv])"
    by (rule map_cong) auto
  then show "map (\<lambda>i. list_get (filter (\<lambda>e. value_zatoshi e = tv ! i) schedule) (rank_of tv i))
        (filter (\<lambda>i. tv ! i = v) [0..<length tv]) = map Some ?ys"
    by (simp only: parts_of_value_ranks map_list_get[OF len])
qed

lemma find_named_part:
  assumes "distinct (map part_index schedule)" and "e \<in> set schedule" and "part_index e = Some p" and "value_zatoshi e = v"
  shows "find (\<lambda>entry. part_index entry = Some p \<and> value_zatoshi entry = v) schedule = Some e"
  using assms
proof (induction schedule)
  case (Cons a schedule)
  show ?case
  proof (cases "a = e")
    case True
    then show ?thesis using Cons.prems by simp
  next
    case False
    with Cons.prems have "e \<in> set schedule" by simp
    moreover from this Cons.prems have "part_index a \<noteq> Some p" by force
    ultimately show ?thesis using Cons by simp
  qed
qed simp

lemma valid_schedule_serves_parts:
  assumes "mset (map value_zatoshi schedule) = mset tv"
    and "(\<forall>e \<in> set schedule. part_index e = None) \<or> names_parts schedule tv"
  shows "mset (map (\<lambda>i. schedule_block_offset_for_part schedule tv i (tv ! i)) [0..<length tv])
    = mset (map (\<lambda>e. Some (block_offset e)) schedule)"
proof (cases "\<forall>e \<in> set schedule. part_index e \<noteq> None")
  case False
  then have none: "\<not> (\<forall>e \<in> set schedule. part_index e \<noteq> None)" .
  have "schedule_block_offset_for_part schedule tv i (tv ! i)
      = map_option block_offset (list_get (filter (\<lambda>e. value_zatoshi e = tv ! i) schedule) (rank_of tv i))"
    if "i < length tv" for i
    unfolding schedule_block_offset_for_part_def if_not_P[OF none] using that
    by (simp add: list_get_def rank_of_def)
  then have "map (\<lambda>i. schedule_block_offset_for_part schedule tv i (tv ! i)) [0..<length tv]
      = map (map_option block_offset)
          (map (\<lambda>i. list_get (filter (\<lambda>e. value_zatoshi e = tv ! i) schedule) (rank_of tv i)) [0..<length tv])"
    by simp
  then show ?thesis using parts_meet_entries[OF assms(1)] by (simp only: mset_map) (simp add: image_mset.compositionality o_def)
next
  case all: True
  show ?thesis
  proof (cases "schedule = []")
    case True
    with assms(1) show ?thesis by simp
  next
    case False
    with all assms(2) have names: "names_parts schedule tv" by (cases schedule) auto
    have len: "length schedule = length tv" using assms(1) by (metis length_map size_mset)
    let ?f = "\<lambda>p. schedule_block_offset_for_part schedule tv (the p) (tv ! the p)"
    have "?f (part_index e) = Some (block_offset e)" if "e \<in> set schedule" for e
    proof -
      from names that obtain p where "part_index e = Some p" "tv ! p = value_zatoshi e" by (auto simp: names_parts_def)
      with names that all show ?thesis
        by (simp add: schedule_block_offset_for_part_def find_named_part names_parts_def)
    qed
    then have "map (\<lambda>e. Some (block_offset e)) schedule = map ?f (map part_index schedule)" by simp
    then have "mset (map (\<lambda>e. Some (block_offset e)) schedule) = image_mset ?f (mset (map part_index schedule))"
      by (simp only: mset_map)
    also have "\<dots> = image_mset ?f (mset (map Some [0..<length tv]))" by (simp only: names_parts_perm[OF names len])
    also have "\<dots> = mset (map (\<lambda>i. schedule_block_offset_for_part schedule tv i (tv ! i)) [0..<length tv])"
      by (simp add: image_mset.compositionality o_def)
    finally show ?thesis by simp
  qed
qed

end
