(* ===== verification/Schedule_Props.thy ===== *)
theory Schedule_Props
  imports Schedule_Lemmas
begin

text \<open>
  The properties of transfer and preparation schedules: a drawn schedule passes validation and reads
  back to its values, drawing terminates, every part finds its own entry, rebuilt offsets form a
  schedule, and preparation layers are spaced by the confirmations they need.
\<close>

section \<open>A drawn schedule\<close>

lemma shuffle_perm:
  assumes "shuffles rng" and "shuffle rng xs r = (ys, r')"
  shows "mset ys = mset xs"
proof -
  obtain order where order: "shuffle_order rng (length xs) r = (order, r')" and ys: "ys = map (\<lambda>i. xs ! i) order"
    using assms(2) by (auto simp: shuffle_def split: prod.splits)
  have "mset order = mset [0..<length xs]" using assms(1) order by (metis fst_conv shuffles_def)
  then have "mset ys = image_mset (\<lambda>i. xs ! i) (mset [0..<length xs])" by (simp only: ys mset_map)
  also have "\<dots> = mset (map (\<lambda>i. xs ! i) [0..<length xs])" by simp
  finally show ?thesis by (simp only: map_nth)
qed

lemma planned_for_parts:
  assumes "shuffles rng"
    and "planned_transfer_schedule_for_parts_with_policy rng fp network policy parts r = Some (schedule, r')"
  shows "mset (map (\<lambda>e. (part_index e, value_zatoshi e)) schedule) = mset (map (\<lambda>(i, v). (Some i, v)) parts)
    \<and> gaps_within (snd (schedule_parameters_with_policy network policy)) 0 (map block_offset schedule)"
proof -
  obtain ps r1 where ps: "shuffle rng parts r = (ps, r1)" by (cases "shuffle rng parts r")
  obtain mean mx where mm: "schedule_parameters_with_policy_for_part_count network policy (length ps) = (mean, mx)"
    by (cases "schedule_parameters_with_policy_for_part_count network policy (length ps)")
  from assms(2) ps mm obtain os where os: "random_schedule_block_offsets_with_rng rng fp (length ps) mean mx r1 = Some (os, r')"
    and sch: "schedule = map (\<lambda>((i, v), offset). \<lparr>part_index = Some i, value_zatoshi = v, block_offset = offset\<rparr>) (zip ps os)"
    by (auto simp: planned_transfer_schedule_for_parts_with_policy_def split: Option.bind_splits)
  note res = random_offsets_result[OF os]
  have "map (\<lambda>e. (part_index e, value_zatoshi e)) schedule = map (\<lambda>(i, v). (Some i, v)) (map fst (zip ps os))"
    by (simp add: sch case_prod_unfold o_def)
  also have "map fst (zip ps os) = ps" using res by simp
  finally have "mset (map (\<lambda>e. (part_index e, value_zatoshi e)) schedule) = mset (map (\<lambda>(i, v). (Some i, v)) parts)"
    using shuffle_perm[OF assms(1) ps] by simp
  moreover have "map block_offset schedule = map snd (zip ps os)"
    by (simp add: sch case_prod_unfold o_def)
  then have "map block_offset schedule = os" using res by simp
  ultimately show ?thesis using res schedule_parameters_part_count_sane[OF mm] by simp
qed

text \<open>An indexed schedule of exactly the parts of a list.\<close>

lemma planned_names:
  assumes "mset (map (\<lambda>e. (part_index e, value_zatoshi e)) schedule) = mset (map (\<lambda>(i, v). (Some i, v)) (enumerate 0 vs))"
  shows "names_parts schedule vs \<and> mset (map value_zatoshi schedule) = mset vs \<and> length schedule = length vs"
proof -
  have "mset (map part_index schedule) = image_mset fst (mset (map (\<lambda>e. (part_index e, value_zatoshi e)) schedule))"
    by (simp add: image_mset.compositionality o_def)
  also have "\<dots> = mset (map Some (map fst (enumerate 0 vs)))"
    by (simp only: assms mset_map[symmetric] map_map) (rule arg_cong[where f = mset], rule map_cong, auto)
  finally have idx: "mset (map part_index schedule) = mset (map Some [0..<length vs])"
    by (simp only: map_fst_enumerate add_0)
  have "distinct (map Some [0..<length vs])" by (simp add: distinct_map)
  with idx have dist: "distinct (map part_index schedule)" by (metis mset_eq_imp_distinct_iff)
  have "mset (map value_zatoshi schedule) = image_mset snd (mset (map (\<lambda>e. (part_index e, value_zatoshi e)) schedule))"
    by (simp add: image_mset.compositionality o_def)
  also have "\<dots> = mset (map snd (enumerate 0 vs))"
    by (simp only: assms mset_map[symmetric] map_map) (rule arg_cong[where f = mset], rule map_cong, auto)
  finally have vals: "mset (map value_zatoshi schedule) = mset vs" by (simp only: map_snd_enumerate)
  have "\<exists>p. part_index e = Some p \<and> p < length vs \<and> vs ! p = value_zatoshi e" if "e \<in> set schedule" for e
  proof -
    from that have "(part_index e, value_zatoshi e) \<in># mset (map (\<lambda>e. (part_index e, value_zatoshi e)) schedule)" by simp
    then have "(part_index e, value_zatoshi e) \<in># mset (map (\<lambda>(i, v). (Some i, v)) (enumerate 0 vs))"
      by (simp only: assms)
    then show ?thesis by (auto simp: in_set_enumerate_eq)
  qed
  with dist vals show ?thesis by (metis length_map names_parts_def size_mset)
qed

text \<open>
  C31: A freshly drawn transfer schedule always passes the later validation against the values it was
  drawn for, dense schedules and saturated offsets included, and the target values read back from
  its part indexes are exactly those values in part order.
\<close>

theorem planned_schedule_validates:
  assumes "shuffles rng" and "length values \<le> 2 ^ 32"
    and "planned_transfer_schedule_with_policy rng fp network policy values r = Some (schedule, r')"
  shows "validate_schedule_with_policy schedule values network policy = Inr ()
    \<and> target_values_from_schedule schedule = Inr values"
proof -
  have parts: "map (\<lambda>(i, v). (i mod 2 ^ 32, v)) (enumerate 0 values) = enumerate 0 values"
    by (rule map_idI) (use assms(2) in \<open>auto simp: in_set_enumerate_eq\<close>)
  from assms(3) have "planned_transfer_schedule_for_parts_with_policy rng fp network policy (enumerate 0 values) r = Some (schedule, r')"
    by (simp only: planned_transfer_schedule_with_policy_def parts)
  note planned = planned_for_parts[OF assms(1) this]
  note named = planned_names[OF planned[THEN conjunct1]]
  have "target_values_from_schedule schedule = Inr values"
  proof (cases "schedule = []")
    case True
    with named show ?thesis by (simp add: target_values_from_schedule_def)
  next
    case False
    with named show ?thesis by (simp add: target_values_iff)
  qed
  with named planned show ?thesis by (simp add: validate_schedule_iff)
qed

text \<open>A source that always draws one half, with a stand-in logarithm, for concrete runs.\<close>

definition half_source :: "nat random_source" where
  "half_source = \<lparr>next_u64 = \<lambda>r. (2 ^ 63, r + 1), shuffle_order = \<lambda>n r. (rev [0..<n], r)\<rparr>"

definition plain_arith :: f64_arith where
  "plain_arith = \<lparr>f64_ln = \<lambda>u. u - 1, f64_round = \<lambda>v. v\<rparr>"

lemma half_source_shuffles [simp]: "shuffles half_source"
  by (simp add: shuffles_def half_source_def)

lemma half_source_delay:
  "mean = 2 * k \<Longrightarrow> k \<le> mx \<Longrightarrow> k < 2 ^ 32 \<Longrightarrow> draw_delay half_source plain_arith mean mx r = Some (k, Suc r)"
  by (subst draw_delay.simps)
    (simp add: draw_unit_left_open_def half_source_def plain_arith_def sampled_delay_def UNIT_STEP_def
      U64_TO_MANTISSA_SHIFT_def round_nonnegative_to_u32_def)

lemma Suc_numeral_offsets:
  "offsets_loop rng fp mean mx 2 e r = offsets_loop rng fp mean mx (Suc (Suc 0)) e r"
  by (simp only: numeral_2_eq_2)

lemma half_source_schedule:
  "planned_transfer_schedule_with_policy half_source plain_arith Net_Main Standard [30, 20] 0 =
     Some ([\<lparr>part_index = Some 1, value_zatoshi = 20, block_offset = 72\<rparr>,
            \<lparr>part_index = Some 0, value_zatoshi = 30, block_offset = 144\<rparr>], 2)"
  by (simp add: planned_transfer_schedule_with_policy_def planned_transfer_schedule_for_parts_with_policy_def
      shuffle_def half_source_def[THEN arg_cong[where f = shuffle_order]] schedule_parameters_with_policy_for_part_count_def
      schedule_parameters_with_policy_def delay_tables DENSE_MIGRATION_PART_THRESHOLD_def
      random_schedule_block_offsets_with_rng_def saturating_add_def enumerate_simps Suc_numeral_offsets
      half_source_delay[of 144 72 576])

theorem planned_schedule_validates_witness:
  "validate_schedule_with_policy
      [\<lparr>part_index = Some 1, value_zatoshi = 20, block_offset = 72\<rparr>,
       \<lparr>part_index = Some 0, value_zatoshi = 30, block_offset = 144\<rparr>] [30, 20] Net_Main Standard = Inr ()
    \<and> target_values_from_schedule
      [\<lparr>part_index = Some 1, value_zatoshi = 20, block_offset = 72\<rparr>,
       \<lparr>part_index = Some 0, value_zatoshi = 30, block_offset = 144\<rparr>] = Inr [30, 20]"
  by (rule planned_schedule_validates[OF half_source_shuffles _ half_source_schedule]) simp

text \<open>
  C32: Drawing a schedule returns. It is enough that the random source keeps producing, from every
  state and after finitely many draws, a word below \<open>2 ^ 11\<close> (the uniform number 1), given that the
  logarithm of 1 is 0 and that 0 and 1/2 are exact doubles.
\<close>

theorem planned_schedule_returns:
  assumes source: "\<forall>r. \<exists>k. fst (next_u64 rng (((\<lambda>r. snd (next_u64 rng r)) ^^ k) r)) < 2 ^ 11"
    and fp: "f64_ln fp 1 = 0" "f64_round fp 0 = 0" "f64_round fp (1 / 2) = 1 / 2"
  shows "\<exists>schedule r'. planned_transfer_schedule_with_policy rng fp network policy values r = Some (schedule, r')"
proof -
  have acc: "accepts rng fp mean mx r" if "fst (next_u64 rng (((\<lambda>r. snd (next_u64 rng r)) ^^ k) r)) < 2 ^ 11" for k mean mx r
    using that
  proof (induction k arbitrary: r)
    case 0
    obtain w r' where w: "next_u64 rng r = (w, r')" by (cases "next_u64 rng r")
    with 0 have "draw_unit_left_open rng r = (1, r')"
      by (simp add: draw_unit_left_open_def U64_TO_MANTISSA_SHIFT_def)
    moreover have "sampled_delay fp mean 1 \<le> mx"
      using fp by (simp add: sampled_delay_def round_nonnegative_to_u32_def)
    ultimately show ?case by (rule accepts.now)
  next
    case (Suc k)
    obtain w r' where w: "next_u64 rng r = (w, r')" by (cases "next_u64 rng r")
    have "((\<lambda>r. snd (next_u64 rng r)) ^^ Suc k) r = ((\<lambda>r. snd (next_u64 rng r)) ^^ k) r'"
      by (simp only: funpow_Suc_right o_apply w snd_conv)
    with Suc.prems have "fst (next_u64 rng (((\<lambda>r. snd (next_u64 rng r)) ^^ k) r')) < 2 ^ 11" by (simp only:)
    from accepts.later[OF _ Suc.IH[OF this]] show ?case
      using w by (metis (no_types, lifting) case_prod_conv draw_unit_left_open_def)
  qed
  have all: "\<forall>r. accepts rng fp mean mx r" for mean mx using source acc by blast
  define parts where "parts = map (\<lambda>(i, v). (i mod 2 ^ 32, v)) (enumerate 0 values)"
  obtain ps r1 where ps: "shuffle rng parts r = (ps, r1)" by (cases "shuffle rng parts r")
  obtain mean mx where mm: "schedule_parameters_with_policy_for_part_count network policy (length ps) = (mean, mx)"
    by (cases "schedule_parameters_with_policy_for_part_count network policy (length ps)")
  have "0 < mean" "0 < mx" using schedule_parameters_part_count_sane[OF mm] by auto
  moreover obtain os r2 where "offsets_loop rng fp mean mx (length ps) 0 r1 = Some (os, r2)"
    using offsets_loop_returns[OF all, of mean mx "length ps" 0 r1] by auto
  ultimately show ?thesis unfolding planned_transfer_schedule_with_policy_def parts_def[symmetric]
    by (simp add: planned_transfer_schedule_for_parts_with_policy_def ps mm random_schedule_block_offsets_with_rng_def)
qed

text \<open>A source of which every second word is small.\<close>

definition alternating_source :: "nat random_source" where
  "alternating_source = \<lparr>next_u64 = \<lambda>r. (if even r then 2 ^ 63 else 7, r + 1), shuffle_order = \<lambda>n r. ([0..<n], r)\<rparr>"

theorem planned_schedule_returns_witness:
  "\<exists>schedule r'. planned_transfer_schedule_with_policy alternating_source plain_arith Net_Main Standard [30, 20] 0
     = Some (schedule, r')"
proof (rule planned_schedule_returns)
  show "\<forall>r. \<exists>k. fst (next_u64 alternating_source (((\<lambda>r. snd (next_u64 alternating_source r)) ^^ k) r)) < 2 ^ 11"
  proof
    fix r :: nat
    show "\<exists>k. fst (next_u64 alternating_source (((\<lambda>r. snd (next_u64 alternating_source r)) ^^ k) r)) < 2 ^ 11"
      by (rule exI[of _ "if even r then 1 else 0"]) (simp add: alternating_source_def)
  qed
qed (simp_all add: plain_arith_def)

section \<open>Serving the parts\<close>

text \<open>
  In a validated schedule every part of the plan finds a block offset, and over all parts the
  offsets found are exactly the offsets of the entries, each used once; this holds for schedules
  with part indexes and for older ones without, where equal values are matched by rank.
\<close>

theorem validated_schedule_serves_every_part:
  assumes "validate_schedule_with_policy schedule target_values network policy = Inr ()"
  shows "mset (map (\<lambda>part. schedule_block_offset_for_part schedule target_values part (target_values ! part))
             [0..<length target_values])
    = mset (map (\<lambda>entry. Some (block_offset entry)) schedule)"
  using assms by (simp only: validate_schedule_iff valid_schedule_serves_parts)

theorem validated_schedule_serves_every_part_witness:
  "mset (map (\<lambda>part. schedule_block_offset_for_part
              [\<lparr>part_index = None, value_zatoshi = 20, block_offset = 5\<rparr>,
               \<lparr>part_index = None, value_zatoshi = 20, block_offset = 9\<rparr>] [20, 20] part ([20, 20] ! part)) [0..<length [20, 20 :: nat]])
    = mset (map (\<lambda>entry. Some (block_offset entry))
              [\<lparr>part_index = None, value_zatoshi = 20, block_offset = 5\<rparr>,
               \<lparr>part_index = None, value_zatoshi = 20, block_offset = 9\<rparr>])"
proof -
  have "validate_schedule_with_policy
      [\<lparr>part_index = None, value_zatoshi = 20, block_offset = 5\<rparr>,
       \<lparr>part_index = None, value_zatoshi = 20, block_offset = 9\<rparr>] [20, 20] Net_Main Standard = Inr ()"
    by (simp add: validate_schedule_with_policy_def validate_schedule_part_indexes_def checked_sub_def
        schedule_parameters_with_policy_def delay_tables)
  from validated_schedule_serves_every_part[OF this] show ?thesis .
qed

text \<open>
  Reading the target values of an indexed schedule and validating its part indexes agree: the
  reader returns a list exactly when that list has one value per entry and the validator accepts
  the schedule for it.
\<close>

theorem target_values_are_the_validated_ones:
  assumes "\<exists>entry \<in> set schedule. part_index entry \<noteq> None"
  shows "target_values_from_schedule schedule = Inr target_values \<longleftrightarrow>
    length target_values = length schedule \<and> validate_schedule_part_indexes schedule target_values = Inr ()"
proof -
  have "schedule \<noteq> []" using assms by auto
  moreover have "(\<forall>entry \<in> set schedule. part_index entry = None) \<longleftrightarrow> False" using assms by auto
  ultimately show ?thesis by (simp only: target_values_iff validate_part_indexes_iff simp_thms)
qed

theorem target_values_are_the_validated_ones_witness:
  "target_values_from_schedule [\<lparr>part_index = Some 0, value_zatoshi = 20, block_offset = 5\<rparr>] = Inr [20] \<longleftrightarrow>
    length [20 :: nat] = length [\<lparr>part_index = Some 0, value_zatoshi = 20, block_offset = 5\<rparr>]
    \<and> validate_schedule_part_indexes [\<lparr>part_index = Some 0, value_zatoshi = 20, block_offset = 5\<rparr>] [20] = Inr ()"
  by (rule target_values_are_the_validated_ones) simp

section \<open>Rebuilt offsets\<close>

lemma assign_slots:
  "length slots = length os \<Longrightarrow> distinct slots \<Longrightarrow> \<forall>s \<in> set slots. s < length a \<Longrightarrow>
     map (\<lambda>s. foldl (\<lambda>a (slot, x). a[slot := x]) a (zip slots os) ! s) slots = os
     \<and> length (foldl (\<lambda>a (slot, x). a[slot := x]) a (zip slots os)) = length a
     \<and> (\<forall>i < length a. i \<notin> set slots \<longrightarrow> foldl (\<lambda>a (slot, x). a[slot := x]) a (zip slots os) ! i = a ! i)"
proof (induction slots os arbitrary: a rule: list_induct2')
  case (4 s slots x os)
  from 4(1)[of "a[s := x]"] 4(2-4) show ?case by auto
qed auto

text \<open>
  A rebuild fails exactly when some recovered part has no entry in the approved schedule; otherwise
  it hands every recovery an offset, and the offsets in ascending order start and step within the
  delay bound of the policy.
\<close>

theorem rebuilt_offsets_form_a_schedule:
  assumes "shuffles rng"
    and "rebuild_schedule_block_offsets rng fp schedule target_values recoveries network policy r = Some (result, r')"
  shows "case result of
      Inl e \<Rightarrow> \<exists>(part, v) \<in> set recoveries. schedule_block_offset_for_part schedule target_values part v = None
    | Inr offsets \<Rightarrow>
        (\<forall>(part, v) \<in> set recoveries. schedule_block_offset_for_part schedule target_values part v \<noteq> None)
        \<and> length offsets = length recoveries
        \<and> gaps_within (snd (schedule_parameters_with_policy network policy)) 0 (sort offsets)"
proof (cases "\<exists>(part, v) \<in> set recoveries. schedule_block_offset_for_part schedule target_values part v = None")
  case True
  with assms(2) have "result = Inl (Msg ''Approved migration schedule is missing a recovery child'')"
    unfolding rebuild_schedule_block_offsets_def if_P[OF True] by simp
  with True show ?thesis by simp
next
  case False
  obtain mean mx where mm: "schedule_parameters_with_policy network policy = (mean, mx)"
    by (cases "schedule_parameters_with_policy network policy")
  let ?n = "length recoveries"
  from assms(2) obtain os r1 slots where os: "random_schedule_block_offsets_with_rng rng fp ?n mean mx r = Some (os, r1)"
    and slots: "shuffle rng [0..<?n] r1 = (slots, r')"
    and result: "result = Inr (foldl (\<lambda>a (slot, x). a[slot := x]) (replicate ?n 0) (zip slots os))"
    unfolding rebuild_schedule_block_offsets_def if_not_P[OF False] mm
    by (auto split: Option.bind_splits prod.splits)
  let ?a = "foldl (\<lambda>a (slot, x). a[slot := x]) (replicate ?n 0) (zip slots os)"
  note res = random_offsets_result[OF os]
  have perm: "mset slots = mset [0..<?n]" by (rule shuffle_perm[OF assms(1) slots])
  then have "length slots = ?n" "distinct slots" "set slots = {0..<?n}"
    by (metis length_upt minus_nat.diff_0 size_mset, metis distinct_upt mset_eq_imp_distinct_iff, metis set_mset_mset set_upt)
  with res assign_slots[of slots os "replicate ?n 0"]
  have a: "map (\<lambda>s. ?a ! s) slots = os" "length ?a = ?n" by auto
  have "mset ?a = mset (map (\<lambda>s. ?a ! s) [0..<?n])" using a(2) by (metis map_nth)
  also have "\<dots> = image_mset (\<lambda>s. ?a ! s) (mset slots)" by (simp only: mset_map perm)
  also have "\<dots> = mset os" by (simp only: mset_map[symmetric] a(1))
  finally have "sort ?a = os"
    using gaps_within_sorted[of mx 0 os] res by (metis properties_for_sort sorted_wrt.simps(2))
  with res a(2) result False mm show ?thesis by auto
qed

theorem rebuilt_offsets_form_a_schedule_witness:
  "schedule_block_offset_for_part
        [\<lparr>part_index = Some 0, value_zatoshi = 30, block_offset = 144\<rparr>] [30] 0 30 \<noteq> None
   \<and> length [72 :: nat] = length [(0 :: nat, 30 :: nat)]
   \<and> gaps_within (snd (schedule_parameters_with_policy Net_Main Standard)) 0 (sort [72])"
proof -
  have "rebuild_schedule_block_offsets half_source plain_arith
      [\<lparr>part_index = Some 0, value_zatoshi = 30, block_offset = 144\<rparr>] [30] [(0, 30)] Net_Main Standard 0
    = Some (Inr [72], 1)"
    by (simp add: rebuild_schedule_block_offsets_def schedule_block_offset_for_part_def
        schedule_parameters_with_policy_def delay_tables random_schedule_block_offsets_with_rng_def
        half_source_delay[of 144 72 576] saturating_add_def shuffle_def
        half_source_def[THEN arg_cong[where f = shuffle_order]])
  from rebuilt_offsets_form_a_schedule[OF half_source_shuffles this] show ?thesis by simp
qed

section \<open>Preparation heights\<close>

lemma layer_stages_result:
  assumes "layer_stages_loop delay policy stages heights base r = Some (Inr (heights', last_height), r')"
    and "\<forall>i \<in> set stages. i < length heights"
  shows "length heights' = length heights \<and> base \<le> last_height
    \<and> (\<forall>i \<in> set stages. base \<le> heights' ! i \<and> heights' ! i \<le> last_height)
    \<and> (\<forall>i < length heights. i \<notin> set stages \<longrightarrow> heights' ! i = heights ! i)"
  using assms
proof (induction stages arbitrary: heights base r)
  case (Cons i stages)
  from Cons.prems obtain h r1 where h: "base \<le> h"
    and rest: "layer_stages_loop delay policy stages (heights[i := h]) h r1 = Some (Inr (heights', last_height), r')"
  proof (cases "policy = Zip318Spaced")
    case True
    with Cons.prems(1) obtain d r1 where
      "layer_stages_loop delay policy stages (heights[i := base + d]) (base + d) r1 = Some (Inr (heights', last_height), r')"
      by (auto simp: checked_add_def split: if_splits Option.bind_splits)
    then show ?thesis by (intro that[of "base + d" r1]) auto
  next
    case False
    with Cons.prems(1) show ?thesis by (intro that[of base r]) auto
  qed
  have IH: "length heights' = length heights \<and> h \<le> last_height
    \<and> (\<forall>j \<in> set stages. h \<le> heights' ! j \<and> heights' ! j \<le> last_height)
    \<and> (\<forall>j < length heights. j \<notin> set stages \<longrightarrow> heights' ! j = heights[i := h] ! j)"
    using Cons.IH[OF rest] Cons.prems(2) by simp
  have i: "i < length heights" using Cons.prems(2) by simp
  have "h \<le> heights' ! i \<and> heights' ! i \<le> last_height" using IH i by (cases "i \<in> set stages") auto
  moreover have "base \<le> heights' ! j" if "j \<in> set stages" for j using IH h that by (meson order_trans)
  ultimately show ?case using IH h i by auto
qed simp

lemma layers_loop_result:
  assumes "shuffles rng"
    and "layers_loop rng delay confirmations policy layer_of layers heights base r = Some (Inr heights', r')"
    and "sorted_wrt (<) layers" and "length heights = length layer_of"
  shows "length heights' = length heights
    \<and> (\<forall>i < length layer_of. layer_of ! i \<in> set layers \<longrightarrow> base \<le> heights' ! i)
    \<and> (\<forall>i < length layer_of. layer_of ! i \<notin> set layers \<longrightarrow> heights' ! i = heights ! i)
    \<and> (\<forall>i < length layer_of. \<forall>j < length layer_of. layer_of ! i \<in> set layers \<and> layer_of ! j \<in> set layers
         \<and> layer_of ! i < layer_of ! j \<longrightarrow> heights' ! i + confirmations \<le> heights' ! j)"
  using assms(2-)
proof (induction layers arbitrary: heights base r)
  case (Cons l layers)
  let ?st = "stages_of_layer layer_of l"
  obtain st r1 where st: "(if policy = Zip318Spaced then shuffle rng ?st r else (?st, r)) = (st, r1)"
    by (cases "if policy = Zip318Spaced then shuffle rng ?st r else (?st, r)")
  then have "mset st = mset ?st" using shuffle_perm[OF assms(1)] by (auto split: if_splits)
  then have "set st = set ?st" by (metis set_mset_mset)
  then have set: "set st = {i. i < length layer_of \<and> layer_of ! i = l}" by (auto simp: stages_of_layer_def)
  have step: "layers_loop rng delay confirmations policy layer_of (l # layers) heights base r =
      (if ?st = [] then
        Some (Inl (Message ''Migration preparation schedule is missing layer {layer_index}'' [ANat l]), r)
       else Option.bind (layer_stages_loop delay policy st heights base r1) (\<lambda>(result, r).
         case result of Inl e \<Rightarrow> Some (Inl e, r)
         | Inr (heights, scheduled_height) \<Rightarrow>
             (case checked_add 32 scheduled_height confirmations of
                None \<Rightarrow> Some (Inl (Msg ''Migration preparation layer height overflow''), r)
              | Some layer_base \<Rightarrow> layers_loop rng delay confirmations policy layer_of layers heights layer_base r)))"
    by (simp only: layers_loop.simps Let_def st prod.case)
  from Cons.prems(1)[unfolded step] obtain hs last_height r2 where
    hs: "layer_stages_loop delay policy st heights base r1 = Some (Inr (hs, last_height), r2)"
    and rest: "layers_loop rng delay confirmations policy layer_of layers hs (last_height + confirmations) r2 = Some (Inr heights', r')"
    by (auto simp: checked_add_def split: if_splits Option.bind_splits sum.splits option.splits)
  have one: "length hs = length heights \<and> base \<le> last_height
    \<and> (\<forall>i \<in> set st. base \<le> hs ! i \<and> hs ! i \<le> last_height) \<and> (\<forall>i < length heights. i \<notin> set st \<longrightarrow> hs ! i = heights ! i)"
    by (rule layer_stages_result[OF hs]) (simp add: set Cons.prems(3))
  have more: "length heights' = length hs
    \<and> (\<forall>i < length layer_of. layer_of ! i \<in> set layers \<longrightarrow> last_height + confirmations \<le> heights' ! i)
    \<and> (\<forall>i < length layer_of. layer_of ! i \<notin> set layers \<longrightarrow> heights' ! i = hs ! i)
    \<and> (\<forall>i < length layer_of. \<forall>j < length layer_of. layer_of ! i \<in> set layers \<and> layer_of ! j \<in> set layers
         \<and> layer_of ! i < layer_of ! j \<longrightarrow> heights' ! i + confirmations \<le> heights' ! j)"
    using Cons.IH[OF rest] Cons.prems(2,3) one by simp
  have l: "l \<notin> set layers" "\<forall>k \<in> set layers. l < k" using Cons.prems(2) by auto
  have now: "base \<le> heights' ! i \<and> heights' ! i \<le> last_height" if "i < length layer_of" "layer_of ! i = l" for i
    using that one more l set by auto
  show ?case
  proof (intro conjI allI impI)
    show "length heights' = length heights" using one more by simp
    show "base \<le> heights' ! i" if "i < length layer_of" "layer_of ! i \<in> set (l # layers)" for i
      using that now[OF that(1)] more one by (metis le_add1 order_trans set_ConsD)
    show "heights' ! i = heights ! i" if "i < length layer_of" "layer_of ! i \<notin> set (l # layers)" for i
      using that more one set Cons.prems(3) by auto
    show "heights' ! i + confirmations \<le> heights' ! j"
      if i: "i < length layer_of" and j: "j < length layer_of"
        and lt: "layer_of ! i \<in> set (l # layers) \<and> layer_of ! j \<in> set (l # layers) \<and> layer_of ! i < layer_of ! j" for i j
    proof (cases "layer_of ! i = l")
      case True
      with lt l have "layer_of ! j \<in> set layers" by auto
      then have "last_height + confirmations \<le> heights' ! j" using more j by blast
      with now[OF i True] show ?thesis by simp
    next
      case False
      with lt l have "layer_of ! i \<in> set layers" "layer_of ! j \<in> set layers" by auto
      with more i j lt show ?thesis by blast
    qed
  qed
qed simp

text \<open>
  The heights drawn for the preparation stages respect the layers: no stage is scheduled before
  the block preceding the target, and every stage of a later layer is scheduled at least the
  required confirmations after every stage of an earlier one, whatever the generator draws.
\<close>

theorem preparation_layers_are_spaced:
  assumes "shuffles rng"
    and "planned_preparation_scheduled_heights rng fp confirmations network preparation_policy timing_policy
           target_height stage_layers r = Some (Inr heights, r')"
  shows "length heights = length stage_layers
    \<and> (\<forall>i < length stage_layers. target_height - 1 \<le> heights ! i)
    \<and> (\<forall>i < length stage_layers. \<forall>j < length stage_layers.
         stage_layers ! i < stage_layers ! j \<longrightarrow> heights ! i + confirmations \<le> heights ! j)"
proof (cases "stage_layers = []")
  case True
  with assms(2) show ?thesis by (simp add: planned_preparation_scheduled_heights_def)
next
  case False
  let ?layers = "[0 ..< Suc (Max (set stage_layers))]"
  from False assms(2) have loop: "layers_loop rng
      (preparation_delay_with_rng rng fp network timing_policy (length stage_layers)) confirmations preparation_policy
      stage_layers ?layers (replicate (length stage_layers) 0) (target_height - 1) r = Some (Inr heights, r')"
    by (simp add: planned_preparation_scheduled_heights_def)
  have mem: "stage_layers ! i \<in> set ?layers" if "i < length stage_layers" for i
    using that by (simp add: less_Suc_eq_le del: upt_Suc)
  from layers_loop_result[OF assms(1) loop sorted_wrt_upt length_replicate] mem
  show ?thesis by (simp only: length_replicate) blast
qed

theorem preparation_layers_are_spaced_witness:
  "100 - 1 \<le> [107, 118 :: nat] ! 0 \<and> [107, 118] ! 0 + 3 \<le> [107, 118 :: nat] ! 1"
proof -
  have "planned_preparation_scheduled_heights half_source plain_arith 3 Net_Main Zip318Spaced Standard
      100 [0, 1] 0 = Some (Inr [107, 118], 2)"
    by (simp add: planned_preparation_scheduled_heights_def stages_of_layer_def preparation_delay_with_rng_def
        preparation_schedule_parameters_for_transaction_count_def preparation_schedule_parameters_def delay_tables
        DENSE_PREPARATION_TRANSACTION_THRESHOLD_def half_source_delay[of 16 8 96] checked_add_def shuffle_def
        half_source_def[THEN arg_cong[where f = shuffle_order]] upt_conv_Cons)
  note spaced = preparation_layers_are_spaced[OF half_source_shuffles this]
  from spaced have "100 - 1 \<le> [107, 118 :: nat] ! 0" by simp
  moreover from spaced have "[107, 118] ! 0 + 3 \<le> [107, 118 :: nat] ! 1" by simp
  ultimately show ?thesis by blast
qed

end
