(* ===== verification/Compact_Sigs.thy ===== *)
theory Compact_Sigs
  imports Prelude
begin

text \<open>
  The compact signature blob of wallet/keystone.rs: a little-endian count and one 69-byte record
  per signature. Bytes are \<open>8 word\<close>; action indexes and counts are natural numbers below their
  machine width. The decoder accepts exactly the encodings of at most 96 signatures.
\<close>

section \<open>Little-endian words\<close>

definition le_bytes :: "nat \<Rightarrow> byte list" where
  "le_bytes n = [word_of_nat n, word_of_nat (n div 256), word_of_nat (n div 65536), word_of_nat (n div 16777216)]"

definition le_value :: "byte \<Rightarrow> byte \<Rightarrow> byte \<Rightarrow> byte \<Rightarrow> nat" where
  "le_value b0 b1 b2 b3 = unat b0 + 256 * unat b1 + 65536 * unat b2 + 16777216 * unat b3"

lemma unat_byte_of_nat: "unat (word_of_nat n :: byte) = n mod 256"
  by (simp add: unat_of_nat)

lemma unat_byte_less: "unat (b :: byte) < 256"
  using unsigned_less[of b] by simp

lemma le_value_less: "le_value b0 b1 b2 b3 < 2 ^ 32"
  using unat_byte_less[of b0] unat_byte_less[of b1] unat_byte_less[of b2] unat_byte_less[of b3]
  by (simp add: le_value_def)

lemma div_256_powers: "n div 65536 = n div 256 div 256" "n div 16777216 = n div 256 div 256 div (256 :: nat)"
  by (simp_all add: div_mult2_eq[symmetric])

lemma le_value_bytes:
  assumes "n < 2 ^ 32" and "le_bytes n = [b0, b1, b2, b3]"
  shows "le_value b0 b1 b2 b3 = n"
proof -
  define q where "q = n div 256"
  define p where "p = q div 256"
  define t where "t = p div 256"
  have n: "n = n mod 256 + 256 * q" and q: "q = q mod 256 + 256 * p" and p: "p = p mod 256 + 256 * t"
    by (simp_all add: q_def p_def t_def)
  have "t < 256" using assms(1) by (simp add: t_def p_def q_def div_mult2_eq[symmetric] less_mult_imp_div_less)
  then have "unat b0 = n mod 256" "unat b1 = q mod 256" "unat b2 = p mod 256" "unat b3 = t"
    using assms(2) by (auto simp: le_bytes_def unat_byte_of_nat div_256_powers q_def p_def t_def)
  then show ?thesis unfolding le_value_def using n q p by linarith
qed

lemma le_bytes_value: "le_bytes (le_value b0 b1 b2 b3) = [b0, b1, b2, b3]"
proof -
  note less = unat_byte_less[of b0] unat_byte_less[of b1] unat_byte_less[of b2] unat_byte_less[of b3]
  have digit: "(a + 256 * x) mod 256 = a" "(a + 256 * x) div 256 = x" if "a < 256" for a x :: nat
    using that by simp_all
  have v: "le_value b0 b1 b2 b3 = unat b0 + 256 * (unat b1 + 256 * (unat b2 + 256 * unat b3))"
    by (simp add: le_value_def)
  show ?thesis
    unfolding le_bytes_def v div_256_powers digit(2)[OF less(1)] digit(2)[OF less(2)] digit(2)[OF less(3)]
    by (simp only: word_unat_eq_iff unat_byte_of_nat digit(1)[OF less(1)] digit(1)[OF less(2)] digit(1)[OF less(3)]
        mod_less[OF less(4)] list.inject simp_thms)
qed

lemma length_le_bytes [simp]: "length (le_bytes n) = 4"
  by (simp add: le_bytes_def)

section \<open>Signatures\<close>

datatype value_pool = Orchard | Ironwood

record spend_auth_signature =
  sig_value_pool :: value_pool
  sig_action_index :: nat
  sig_signature :: "byte list"

definition ZCASH_SIG_LEN :: nat where
  "ZCASH_SIG_LEN = 64"

definition COMPACT_ACTION_SIG_LEN :: nat where
  "COMPACT_ACTION_SIG_LEN = 1 + 4 + ZCASH_SIG_LEN"

definition ZCASH_SIGN_BATCH_MAX_SIGNATURES :: nat where
  "ZCASH_SIGN_BATCH_MAX_SIGNATURES = 96"

text \<open>A value of the Rust type: the signature is an array of 64 bytes.\<close>

definition signature_typed :: "spend_auth_signature \<Rightarrow> bool" where
  "signature_typed s \<longleftrightarrow> length (sig_signature s) = ZCASH_SIG_LEN"

definition encode_signature_pool :: "value_pool \<Rightarrow> byte" where
  "encode_signature_pool pool = (case pool of Orchard \<Rightarrow> 0 | Ironwood \<Rightarrow> 1)"

definition decode_signature_pool :: "nat \<Rightarrow> value_pool outcome" where
  "decode_signature_pool pool =
     (if pool = 0 then Inr Orchard else if pool = 1 then Inr Ironwood
      else Inl (Message ''Unsupported zcash-batch-sig-result pool {other}'' [ANat pool]))"

section \<open>Encoding\<close>

definition encode_record :: "spend_auth_signature \<Rightarrow> byte list \<Rightarrow> byte list outcome" where
  "encode_record s out =
     (if sig_action_index s < 2 ^ 32
      then Inr (out @ encode_signature_pool (sig_value_pool s) # le_bytes (sig_action_index s) @ sig_signature s)
      else Inl (Msg ''Compact signature action index exceeds u32''))"

definition encode_compact_action_sigs :: "spend_auth_signature list \<Rightarrow> byte list outcome" where
  "encode_compact_action_sigs sigs =
     (if 2 ^ 32 \<le> length sigs then Inl (Msg ''Too many compact signatures to encode'')
      else res_bind (ok_or (Option.bind (checked_mul 64 (length sigs) COMPACT_ACTION_SIG_LEN)
                             (\<lambda>body_len. checked_add 64 body_len 4))
                       (Msg ''Compact signature blob length overflow'')) (\<lambda>_.
        res_fold encode_record sigs (le_bytes (length sigs))))"

section \<open>Decoding\<close>

definition decode_record :: "byte list \<Rightarrow> spend_auth_signature outcome" where
  "decode_record record =
     res_bind (decode_signature_pool (unat (record ! 0))) (\<lambda>value_pool.
     if length (drop 5 record) \<noteq> ZCASH_SIG_LEN
     then Inl (Msg ''Compact signature record has wrong signature length'')
     else Inr \<lparr>sig_value_pool = value_pool,
               sig_action_index = le_value (record ! 1) (record ! 2) (record ! 3) (record ! 4),
               sig_signature = drop 5 record\<rparr>)"

text \<open>\<open>chunks_exact(n)\<close>: the full chunks of a slice, a shorter rest dropped.\<close>

fun chunks_exact :: "nat \<Rightarrow> nat \<Rightarrow> 'a list \<Rightarrow> 'a list list" where
  "chunks_exact n 0 xs = []"
| "chunks_exact n (Suc k) xs = take n xs # chunks_exact n k (drop n xs)"

definition decode_compact_action_sigs :: "byte list \<Rightarrow> spend_auth_signature list outcome" where
  "decode_compact_action_sigs bytes =
     (if length bytes < 4 then Inl (Msg ''Compact signature blob is too short for its count header'')
      else
        let count = le_value (bytes ! 0) (bytes ! 1) (bytes ! 2) (bytes ! 3) in
        if ZCASH_SIGN_BATCH_MAX_SIGNATURES < count
        then Inl (Msg ''Compact signature blob exceeds the {ZCASH_SIGN_BATCH_MAX_SIGNATURES}-signature limit'')
        else
          let body = drop 4 bytes in
          res_bind (ok_or (checked_mul 64 count COMPACT_ACTION_SIG_LEN)
                      (Msg ''Compact signature blob length overflow'')) (\<lambda>expected.
          if length body \<noteq> expected
          then Inl (Message ''Compact signature blob has {} body bytes, expected {expected} for {count} signatures''
                      [ANat (length body), ANat expected, ANat count])
          else res_map decode_record
                 (chunks_exact COMPACT_ACTION_SIG_LEN (length body div COMPACT_ACTION_SIG_LEN) body)))"

section \<open>Records\<close>

lemmas sig_lens = ZCASH_SIG_LEN_def COMPACT_ACTION_SIG_LEN_def ZCASH_SIGN_BATCH_MAX_SIGNATURES_def

definition record_bytes :: "spend_auth_signature \<Rightarrow> byte list" where
  "record_bytes s = encode_signature_pool (sig_value_pool s) # le_bytes (sig_action_index s) @ sig_signature s"

lemma encode_fold_iff:
  "res_fold encode_record sigs out = Inr bytes \<longleftrightarrow>
     (\<forall>s \<in> set sigs. sig_action_index s < 2 ^ 32) \<and> bytes = out @ concat (map record_bytes sigs)"
  by (induction sigs arbitrary: out) (auto simp: encode_record_def record_bytes_def)

lemma decode_pool_iff: "decode_signature_pool (unat (b :: byte)) = Inr pool \<longleftrightarrow> b = encode_signature_pool pool"
  by (cases pool) (auto simp: decode_signature_pool_def encode_signature_pool_def word_unat_eq_iff)

lemma decode_record_iff:
  assumes "length bs = 69"
  shows "decode_record bs = Inr s \<longleftrightarrow> signature_typed s \<and> sig_action_index s < 2 ^ 32 \<and> bs = record_bytes s"
proof -
  from assms obtain p b0 b1 b2 b3 rest where bs: "bs = p # b0 # b1 # b2 # b3 # rest" and rest: "length rest = 64"
    by (auto simp: numeral_eq_Suc length_Suc_conv)
  have index: "i < 2 ^ 32 \<and> le_bytes i = [b0, b1, b2, b3] \<longleftrightarrow> i = le_value b0 b1 b2 b3" for i
    using le_value_less[of b0 b1 b2 b3] le_value_bytes[of i b0 b1 b2 b3] le_bytes_value[of b0 b1 b2 b3] by auto
  obtain pool i sig where s: "s = \<lparr>sig_value_pool = pool, sig_action_index = i, sig_signature = sig\<rparr>" by (cases s)
  have "decode_record bs = Inr s \<longleftrightarrow> p = encode_signature_pool pool \<and> i = le_value b0 b1 b2 b3 \<and> sig = rest"
    by (auto simp: bs rest s decode_record_def res_bind_Inr_iff decode_pool_iff sig_lens)
  moreover have "bs = record_bytes s \<longleftrightarrow>
      p = encode_signature_pool pool \<and> le_bytes i = [b0, b1, b2, b3] \<and> sig = rest"
    by (auto simp: bs s record_bytes_def le_bytes_def)
  moreover have "signature_typed s" if "sig = rest" using rest that by (simp add: signature_typed_def s sig_lens)
  ultimately show ?thesis using index[of i] by (auto simp: s)
qed

lemma chunks_records:
  "length body = 69 * k \<Longrightarrow>
     res_map decode_record (chunks_exact 69 k body) = Inr sigs \<longleftrightarrow>
       length sigs = k \<and> (\<forall>s \<in> set sigs. signature_typed s \<and> sig_action_index s < 2 ^ 32)
       \<and> body = concat (map record_bytes sigs)"
proof (induction k arbitrary: body sigs)
  case (Suc k)
  have lens: "length (take 69 body) = 69" "length (drop 69 body) = 69 * k" using Suc.prems by auto
  have rec: "length (record_bytes s) = 69" if "signature_typed s" for s
    using that by (simp add: record_bytes_def signature_typed_def sig_lens)
  have split: "body = r @ rest \<longleftrightarrow> take 69 body = r \<and> drop 69 body = rest" if "length r = 69" for r rest
    using that append_take_drop_id[of 69 body] by auto
  show ?case
    by (cases sigs) (auto simp: res_bind_Inr_iff decode_record_iff[OF lens(1)] Suc.IH[OF lens(2)] split rec)
qed auto

section \<open>Properties\<close>

lemma encode_iff:
  "encode_compact_action_sigs sigs = Inr bytes \<longleftrightarrow>
     length sigs < 2 ^ 32 \<and> (\<forall>s \<in> set sigs. sig_action_index s < 2 ^ 32)
     \<and> bytes = le_bytes (length sigs) @ concat (map record_bytes sigs)"
proof (cases "length sigs < 2 ^ 32")
  case True
  then have "length sigs * 69 < 2 ^ 64" "length sigs * 69 + 4 < 2 ^ 64" by simp_all
  with True show ?thesis
    by (simp add: encode_compact_action_sigs_def checked_defs sig_lens encode_fold_iff)
qed (simp add: encode_compact_action_sigs_def)

lemma decode_encode_iff:
  "decode_compact_action_sigs bytes = Inr sigs \<longleftrightarrow>
     encode_compact_action_sigs sigs = Inr bytes \<and> length sigs \<le> ZCASH_SIGN_BATCH_MAX_SIGNATURES
     \<and> (\<forall>s \<in> set sigs. signature_typed s)"
    (is "?L \<longleftrightarrow> ?R")
proof (cases "4 \<le> length bytes")
  case False
  then show ?thesis by (auto simp: decode_compact_action_sigs_def encode_iff)
next
  case True
  then obtain b0 b1 b2 b3 body where bytes: "bytes = b0 # b1 # b2 # b3 # body"
    by (auto simp: numeral_eq_Suc Suc_le_length_iff)
  let ?k = "le_value b0 b1 b2 b3"
  have "?L \<longleftrightarrow> ?k \<le> 96 \<and> length body = 69 * ?k \<and> res_map decode_record (chunks_exact 69 ?k body) = Inr sigs"
    by (auto simp: bytes decode_compact_action_sigs_def Let_def checked_defs sig_lens res_simps)
  also have "\<dots> \<longleftrightarrow> ?k \<le> 96 \<and> length body = 69 * ?k \<and> length sigs = ?k
      \<and> (\<forall>s \<in> set sigs. signature_typed s \<and> sig_action_index s < 2 ^ 32) \<and> body = concat (map record_bytes sigs)"
    using chunks_records[of body ?k sigs] by auto
  also have "\<dots> \<longleftrightarrow> ?R"
  proof -
    have index: "length sigs < 2 ^ 32 \<and> le_bytes (length sigs) = [b0, b1, b2, b3] \<longleftrightarrow> length sigs = ?k"
      using le_value_less[of b0 b1 b2 b3] le_value_bytes[of "length sigs" b0 b1 b2 b3] le_bytes_value[of b0 b1 b2 b3] by auto
    have "bytes = le_bytes (length sigs) @ concat (map record_bytes sigs)
        \<longleftrightarrow> le_bytes (length sigs) = [b0, b1, b2, b3] \<and> body = concat (map record_bytes sigs)"
      by (auto simp: bytes le_bytes_def)
    moreover have "length (concat (map record_bytes sigs)) = 69 * length sigs" if "\<forall>s \<in> set sigs. signature_typed s"
      using that by (induction sigs) (auto simp: record_bytes_def signature_typed_def sig_lens)
    ultimately show ?thesis using index unfolding encode_iff ZCASH_SIGN_BATCH_MAX_SIGNATURES_def by auto
  qed
  finally show ?thesis .
qed

text \<open>
  C34: The decoder of compact signatures accepts exactly the encodings of at most 96 signatures: what it
  returns encodes back to the same bytes (the format is canonical) and every such encoding is read back.
\<close>

theorem compact_sigs_decode_iff:
  "decode_compact_action_sigs bytes = Inr sigs \<longleftrightarrow>
     encode_compact_action_sigs sigs = Inr bytes \<and> length sigs \<le> ZCASH_SIGN_BATCH_MAX_SIGNATURES
     \<and> (\<forall>s \<in> set sigs. signature_typed s)"
  by (rule decode_encode_iff)

theorem compact_sigs_decode_iff_witness:
  "decode_compact_action_sigs (le_bytes 1 @ 1 # le_bytes 258 @ replicate 64 7)
     = Inr [\<lparr>sig_value_pool = Ironwood, sig_action_index = 258, sig_signature = replicate 64 7\<rparr>]"
  unfolding compact_sigs_decode_iff
  by (simp add: encode_iff record_bytes_def encode_signature_pool_def signature_typed_def sig_lens)

text \<open>
  The encoder has no bound of 96: a longer list is encoded without an error, and the bytes it
  produces can never be decoded.
\<close>

theorem oversized_sigs_encode_unreadably:
  assumes "\<forall>s \<in> set sigs. sig_action_index s < 2 ^ 32" and "ZCASH_SIGN_BATCH_MAX_SIGNATURES < length sigs"
    and "length sigs < 2 ^ 32"
  shows "\<exists>bytes. encode_compact_action_sigs sigs = Inr bytes
    \<and> decode_compact_action_sigs bytes
      = Inl (Msg ''Compact signature blob exceeds the {ZCASH_SIGN_BATCH_MAX_SIGNATURES}-signature limit'')"
proof -
  let ?bytes = "le_bytes (length sigs) @ concat (map record_bytes sigs)"
  obtain b0 b1 b2 b3 where b: "le_bytes (length sigs) = [b0, b1, b2, b3]" by (simp add: le_bytes_def)
  have "le_value b0 b1 b2 b3 = length sigs" by (rule le_value_bytes[OF assms(3) b])
  then have "decode_compact_action_sigs ?bytes
      = Inl (Msg ''Compact signature blob exceeds the {ZCASH_SIGN_BATCH_MAX_SIGNATURES}-signature limit'')"
    using assms(2) by (simp add: b decode_compact_action_sigs_def)
  moreover have "encode_compact_action_sigs sigs = Inr ?bytes" using assms by (simp add: encode_iff)
  ultimately show ?thesis by blast
qed

theorem oversized_sigs_encode_unreadably_witness:
  "\<exists>bytes. encode_compact_action_sigs
        (replicate 97 \<lparr>sig_value_pool = Orchard, sig_action_index = 0, sig_signature = replicate 64 0\<rparr>) = Inr bytes
    \<and> decode_compact_action_sigs bytes
      = Inl (Msg ''Compact signature blob exceeds the {ZCASH_SIGN_BATCH_MAX_SIGNATURES}-signature limit'')"
  by (rule oversized_sigs_encode_unreadably) (simp_all add: ZCASH_SIGN_BATCH_MAX_SIGNATURES_def)

end
