(* ===== verification/Secret_Payload.thy ===== *)
theory Secret_Payload
  imports "HOL-Library.Char_ord" Prelude
begin

text \<open>
  wallet/secret_payload.rs: the container of an encrypted payload. The cipher, the key derivation,
  the base64 and the JSON codecs belong to other crates and are the fields of a \<open>crypto_library\<close>,
  the type of serialized text being left open; \<open>crypto_laws\<close> states what the code relies on. The
  nonce that the operating system's generator draws is an argument.
\<close>

definition KDF_ITERATIONS :: nat where
  "KDF_ITERATIONS = 100000"

definition KEY_LEN :: nat where
  "KEY_LEN = 32"

definition NONCE_LEN :: nat where
  "NONCE_LEN = 12"

definition MAC_LEN :: nat where
  "MAC_LEN = 16"

lemmas payload_lens = KEY_LEN_def NONCE_LEN_def MAC_LEN_def

record encrypted_payload =
  ep_version :: nat
  ep_nonce :: string
  ep_cipher_text :: string
  ep_mac :: string

record 't crypto_library =
  aes_encrypt :: "byte list \<Rightarrow> byte list \<Rightarrow> byte list \<Rightarrow> byte list option"
  aes_decrypt :: "byte list \<Rightarrow> byte list \<Rightarrow> byte list \<Rightarrow> byte list option"
  pbkdf2_hmac_sha256 :: "byte list \<Rightarrow> byte list \<Rightarrow> nat \<Rightarrow> nat \<Rightarrow> byte list"
  base64_encode :: "byte list \<Rightarrow> string"
  base64_decode :: "string \<Rightarrow> byte list outcome"
  json_encode :: "encrypted_payload \<Rightarrow> 't outcome"
  json_decode :: "'t \<Rightarrow> encrypted_payload outcome"

definition crypto_laws :: "'t crypto_library \<Rightarrow> bool" where
  "crypto_laws lib \<longleftrightarrow>
     (\<forall>key nonce clear sealed. aes_encrypt lib key nonce clear = Some sealed \<longrightarrow>
        aes_decrypt lib key nonce sealed = Some clear \<and> length sealed = length clear + MAC_LEN)
     \<and> (\<forall>bytes. base64_decode lib (base64_encode lib bytes) = Inr bytes)
     \<and> (\<forall>payload text. json_encode lib payload = Inr text \<longrightarrow> json_decode lib text = Inr payload)"

definition decode_base64 :: "'t crypto_library \<Rightarrow> string \<Rightarrow> string \<Rightarrow> byte list outcome" where
  "decode_base64 lib text label =
     (case base64_decode lib text of
        Inl e \<Rightarrow> Inl (Message ''Failed to decode {label}: {e}'' [AStr label, AMsg e])
      | Inr bytes \<Rightarrow> Inr bytes)"

definition derive_key :: "'t crypto_library \<Rightarrow> byte list \<Rightarrow> byte list \<Rightarrow> byte list" where
  "derive_key lib password salt = pbkdf2_hmac_sha256 lib password salt KDF_ITERATIONS KEY_LEN"

definition encrypt_with_cipher :: "'t crypto_library \<Rightarrow> byte list \<Rightarrow> byte list \<Rightarrow> byte list \<Rightarrow> 't outcome" where
  "encrypt_with_cipher lib key nonce clear_text =
     res_bind (ok_or (aes_encrypt lib key nonce clear_text) (Msg ''Failed to encrypt secure-storage payload''))
       (\<lambda>cipher_text_and_tag.
     if length cipher_text_and_tag < MAC_LEN then Inl (Msg ''Encrypted payload is shorter than AES-GCM tag'')
     else
       let split_at = length cipher_text_and_tag - MAC_LEN in
       (case json_encode lib
               \<lparr>ep_version = 1, ep_nonce = base64_encode lib nonce,
                ep_cipher_text = base64_encode lib (take split_at cipher_text_and_tag),
                ep_mac = base64_encode lib (drop split_at cipher_text_and_tag)\<rparr> of
          Inl e \<Rightarrow> Inl (Message ''Failed to serialize encrypted payload: {e}'' [AMsg e])
        | Inr text \<Rightarrow> Inr text))"

definition decrypt_with_cipher :: "'t crypto_library \<Rightarrow> byte list \<Rightarrow> 't \<Rightarrow> byte list outcome" where
  "decrypt_with_cipher lib key raw_payload =
     (case json_decode lib raw_payload of
        Inl e \<Rightarrow> Inl (Message ''Failed to parse encrypted payload: {e}'' [AMsg e])
      | Inr payload \<Rightarrow>
          if ep_version payload \<noteq> 1
          then Inl (Message ''Unsupported encrypted payload version: {}'' [ANat (ep_version payload)])
          else
            res_bind (decode_base64 lib (ep_nonce payload) ''encrypted payload nonce'') (\<lambda>nonce.
            if length nonce \<noteq> NONCE_LEN
            then Inl (Message ''Invalid encrypted payload nonce length: {}'' [ANat (length nonce)])
            else
              res_bind (decode_base64 lib (ep_cipher_text payload) ''encrypted payload cipher text'') (\<lambda>cipher_text.
              res_bind (decode_base64 lib (ep_mac payload) ''encrypted payload mac'') (\<lambda>mac.
              if length mac \<noteq> MAC_LEN
              then Inl (Message ''Invalid encrypted payload mac length: {}'' [ANat (length mac)])
              else ok_or (aes_decrypt lib key nonce (cipher_text @ mac))
                     (Msg ''Failed to decrypt secure-storage payload'')))))"

definition encrypt_payload ::
    "'t crypto_library \<Rightarrow> byte list \<Rightarrow> byte list \<Rightarrow> byte list \<Rightarrow> byte list \<Rightarrow> 't outcome" where
  "encrypt_payload lib nonce clear_text password salt =
     encrypt_with_cipher lib (derive_key lib password salt) nonce clear_text"

definition decrypt_payload :: "'t crypto_library \<Rightarrow> 't \<Rightarrow> byte list \<Rightarrow> byte list \<Rightarrow> byte list outcome" where
  "decrypt_payload lib raw_payload password salt =
     decrypt_with_cipher lib (derive_key lib password salt) raw_payload"

definition encrypt_payload_with_base64_salt ::
    "'t crypto_library \<Rightarrow> byte list \<Rightarrow> byte list \<Rightarrow> byte list \<Rightarrow> string \<Rightarrow> 't outcome" where
  "encrypt_payload_with_base64_salt lib nonce clear_text password salt_base64 =
     res_bind (decode_base64 lib salt_base64 ''secure storage salt'') (\<lambda>salt.
     encrypt_payload lib nonce clear_text password salt)"

definition decrypt_payload_with_base64_salt ::
    "'t crypto_library \<Rightarrow> 't \<Rightarrow> byte list \<Rightarrow> string \<Rightarrow> byte list outcome" where
  "decrypt_payload_with_base64_salt lib raw_payload password salt_base64 =
     res_bind (decode_base64 lib salt_base64 ''secure storage salt'') (\<lambda>salt.
     decrypt_payload lib raw_payload password salt)"

definition derive_password_verifier_base64 :: "'t crypto_library \<Rightarrow> byte list \<Rightarrow> string \<Rightarrow> string outcome" where
  "derive_password_verifier_base64 lib password salt_base64 =
     res_bind (decode_base64 lib salt_base64 ''password verifier salt'') (\<lambda>salt.
     Inr (base64_encode lib (derive_key lib password salt)))"

section \<open>Sealing and opening\<close>

lemma decrypt_encrypted:
  assumes laws: "crypto_laws lib" and nonce: "length nonce = NONCE_LEN"
    and sealed: "encrypt_payload lib nonce clear_text password salt = Inr text"
  shows "decrypt_payload lib text password salt = Inr clear_text"
proof -
  let ?key = "derive_key lib password salt"
  from sealed obtain ct where ct: "aes_encrypt lib ?key nonce clear_text = Some ct"
    and json: "json_encode lib
        \<lparr>ep_version = 1, ep_nonce = base64_encode lib nonce,
         ep_cipher_text = base64_encode lib (take (length ct - MAC_LEN) ct),
         ep_mac = base64_encode lib (drop (length ct - MAC_LEN) ct)\<rparr> = Inr text"
    by (auto simp: encrypt_payload_def encrypt_with_cipher_def Let_def res_simps split: if_splits sum.splits)
  have "aes_decrypt lib ?key nonce ct = Some clear_text" "length ct = length clear_text + MAC_LEN"
    using laws ct by (auto simp: crypto_laws_def)
  moreover have "json_decode lib text = Inr
        \<lparr>ep_version = 1, ep_nonce = base64_encode lib nonce,
         ep_cipher_text = base64_encode lib (take (length ct - MAC_LEN) ct),
         ep_mac = base64_encode lib (drop (length ct - MAC_LEN) ct)\<rparr>"
    using laws json by (simp add: crypto_laws_def)
  moreover have "base64_decode lib (base64_encode lib bytes) = Inr bytes" for bytes
    using laws by (simp add: crypto_laws_def)
  ultimately show ?thesis
    using nonce by (simp add: decrypt_payload_def decrypt_with_cipher_def decode_base64_def)
qed

text \<open>
  C35: A sealed payload opens to what was sealed, under the same password and salt: splitting the tag
  off, encoding the three fields and joining them again loses nothing, and no length check refuses.
\<close>

theorem sealed_payload_opens:
  assumes "crypto_laws lib" and "length nonce = NONCE_LEN"
    and "encrypt_payload_with_base64_salt lib nonce clear_text password salt_base64 = Inr text"
  shows "decrypt_payload_with_base64_salt lib text password salt_base64 = Inr clear_text"
  using assms decrypt_encrypted[OF assms(1,2)]
  by (auto simp: encrypt_payload_with_base64_salt_def decrypt_payload_with_base64_salt_def res_bind_Inr_iff)

text \<open>A library for concrete runs: the tag is the start of the key, the text is the payload itself.\<close>

definition plain_crypto :: "encrypted_payload crypto_library" where
  "plain_crypto = \<lparr>aes_encrypt = \<lambda>key nonce clear. Some (clear @ take 16 (key @ replicate 16 0)),
     aes_decrypt = \<lambda>key nonce sealed. (let n = length sealed - 16 in
       if drop n sealed = take 16 (key @ replicate 16 0) then Some (take n sealed) else None),
     pbkdf2_hmac_sha256 = \<lambda>password salt iterations n. take n (password @ salt @ replicate n 0),
     base64_encode = map (\<lambda>b. char_of (unat b)), base64_decode = \<lambda>text. Inr (map (\<lambda>c. word_of_nat (of_char c)) text),
     json_encode = Inr, json_decode = Inr\<rparr>"

lemma plain_base64: "base64_decode plain_crypto (base64_encode plain_crypto bytes) = Inr bytes"
proof -
  have "unat (b :: byte) mod 256 = unat b" for b
    using unsigned_less[of b, where ?'a = nat] by (intro mod_less) simp
  then show ?thesis by (simp add: plain_crypto_def comp_def)
qed

lemma plain_crypto_laws: "crypto_laws plain_crypto"
  using plain_base64 by (auto simp: crypto_laws_def MAC_LEN_def) (auto simp: plain_crypto_def)

theorem sealed_payload_opens_witness:
  "decrypt_payload_with_base64_salt plain_crypto
      \<lparr>ep_version = 1, ep_nonce = base64_encode plain_crypto (replicate 12 110),
       ep_cipher_text = base64_encode plain_crypto [65],
       ep_mac = base64_encode plain_crypto (take 16 (derive_key plain_crypto [112, 113] [115] @ replicate 16 0))\<rparr>
      [112, 113] (base64_encode plain_crypto [115]) = Inr [65]"
proof (rule sealed_payload_opens[OF plain_crypto_laws])
  show "length (replicate 12 (110 :: byte)) = NONCE_LEN" by (simp add: NONCE_LEN_def)
  let ?key = "derive_key plain_crypto [112, 113] [115]"
  have "aes_encrypt plain_crypto ?key (replicate 12 110) [65] = Some ([65] @ take 16 (?key @ replicate 16 0))"
    by (simp add: plain_crypto_def)
  moreover have "json_encode plain_crypto p = Inr p" for p by (simp add: plain_crypto_def)
  moreover have "length (take 16 (?key @ replicate 16 (0 :: byte))) = 16" by simp
  ultimately show "encrypt_payload_with_base64_salt plain_crypto (replicate 12 110) [65] [112, 113]
      (base64_encode plain_crypto [115])
    = Inr \<lparr>ep_version = 1, ep_nonce = base64_encode plain_crypto (replicate 12 110),
       ep_cipher_text = base64_encode plain_crypto [65],
       ep_mac = base64_encode plain_crypto (take 16 (?key @ replicate 16 0))\<rparr>"
    by (simp add: encrypt_payload_with_base64_salt_def encrypt_payload_def encrypt_with_cipher_def
        decode_base64_def plain_base64 MAC_LEN_def)
qed

end
