(* ===== verification/Store_Monad.thy ===== *)
theory Store_Monad
  imports Prelude
begin

text \<open>
  Code that runs against a database: a computation takes the store and returns its result, or an
  error, together with the store it leaves behind. A failing statement leaves the changes of the
  statements before it, as SQLite does within a transaction; \<open>savepoint\<close> undoes them.
\<close>

type_synonym ('s, 'a) store_op = "'s \<Rightarrow> 'a outcome \<times> 's"

definition st_return :: "'a \<Rightarrow> ('s, 'a) store_op" where
  "st_return x s = (Inr x, s)"

definition st_fail :: "message \<Rightarrow> ('s, 'a) store_op" where
  "st_fail e s = (Inl e, s)"

definition st_lift :: "'a outcome \<Rightarrow> ('s, 'a) store_op" where
  "st_lift r s = (r, s)"

definition st_bind :: "('s, 'a) store_op \<Rightarrow> ('a \<Rightarrow> ('s, 'b) store_op) \<Rightarrow> ('s, 'b) store_op" where
  "st_bind m f s = (case m s of (Inl e, s) \<Rightarrow> (Inl e, s) | (Inr x, s) \<Rightarrow> f x s)"

text \<open>\<open>map_err(|e| format!("...: {e}"))\<close>.\<close>

definition st_context :: "string \<Rightarrow> ('s, 'a) store_op \<Rightarrow> ('s, 'a) store_op" where
  "st_context label m s = (case m s of (Inl e, s) \<Rightarrow> (Inl (Message label [AMsg e]), s) | (Inr x, s) \<Rightarrow> (Inr x, s))"

fun st_each :: "('x \<Rightarrow> ('s, unit) store_op) \<Rightarrow> 'x list \<Rightarrow> ('s, unit) store_op" where
  "st_each f [] = st_return ()"
| "st_each f (x # xs) = st_bind (f x) (\<lambda>_. st_each f xs)"

definition savepoint :: "('s, 'a) store_op \<Rightarrow> ('s, 'a) store_op" where
  "savepoint m s = (case m s of (Inl e, _) \<Rightarrow> (Inl e, s) | (Inr x, s) \<Rightarrow> (Inr x, s))"

lemma st_simps [simp]:
  "st_return x s = (Inr x, s)" "st_fail e s = (Inl e, s)" "st_lift r s = (r, s)"
  by (simp_all add: st_return_def st_fail_def st_lift_def)

lemma st_bind_Inr [res_simps]:
  "st_bind m f s = (Inr y, s') \<longleftrightarrow> (\<exists>x t. m s = (Inr x, t) \<and> f x t = (Inr y, s'))"
  by (cases "m s"; cases "fst (m s)") (auto simp: st_bind_def)

lemma st_context_Inr [res_simps]: "st_context label m s = (Inr y, s') \<longleftrightarrow> m s = (Inr y, s')"
  by (cases "m s"; cases "fst (m s)") (auto simp: st_context_def)

lemma st_bind_eq:
  "m s = (Inr x, t) \<Longrightarrow> st_bind m f s = f x t"
  "m s = (Inl e, t) \<Longrightarrow> st_bind m f s = (Inl e, t)"
  by (simp_all add: st_bind_def)

lemma st_context_eq:
  "m s = (Inr x, t) \<Longrightarrow> st_context label m s = (Inr x, t)"
  "m s = (Inl e, t) \<Longrightarrow> st_context label m s = (Inl (Message label [AMsg e]), t)"
  by (simp_all add: st_context_def)

text \<open>A property of the store that every part of a computation keeps.\<close>

definition keeps :: "('s \<Rightarrow> bool) \<Rightarrow> ('s, 'a) store_op \<Rightarrow> bool" where
  "keeps P m \<longleftrightarrow> (\<forall>s. P s \<longrightarrow> P (snd (m s)))"

lemma keeps_basic [simp, intro]:
  "keeps P (st_return x)" "keeps P (st_fail e)" "keeps P (st_lift r)"
  by (simp_all add: keeps_def)

lemma keeps_bind [intro]: "keeps P m \<Longrightarrow> (\<And>x. keeps P (f x)) \<Longrightarrow> keeps P (st_bind m f)"
  unfolding keeps_def st_bind_def by (fastforce split: prod.splits sum.splits)

lemma keeps_context [intro]: "keeps P m \<Longrightarrow> keeps P (st_context label m)"
  unfolding keeps_def st_context_def by (fastforce split: prod.splits sum.splits)

lemma keeps_each: "(\<And>x. x \<in> set xs \<Longrightarrow> keeps P (f x)) \<Longrightarrow> keeps P (st_each f xs)"
  by (induction xs) auto

lemma keeps_savepoint: "keeps P m \<Longrightarrow> keeps P (savepoint m)"
  unfolding keeps_def savepoint_def by (fastforce split: prod.splits sum.splits)

lemma savepoint_atomic: "savepoint m s = (Inl e, s') \<Longrightarrow> s' = s"
  by (auto simp: savepoint_def split: prod.splits sum.splits)

lemma savepoint_Inr: "savepoint m s = (Inr x, s') \<longleftrightarrow> m s = (Inr x, s')"
  by (auto simp: savepoint_def split: prod.splits sum.splits)

end
