(* ===== verification/Stage_Store.thy ===== *)
theory Stage_Store
  imports "HOL-Library.Product_Lexorder" Store_Monad Compact_Sigs Secret_Payload Schedule
begin

text \<open>
  The persistent denomination stages of wallet/sync/migration/stages.rs: three tables with the
  constraints of their schema, the batch validation and insertion, the reads, and the guarded
  updates that move a stage through its states. The schema upgrades of older databases and
  failures of SQLite itself are not modelled; the tables exist, with the current columns.
\<close>

section \<open>States and kinds\<close>

datatype denomination_stage_status = AwaitingInputs | Pending | Broadcasted | Confirmed

definition status_as_str :: "denomination_stage_status \<Rightarrow> string" where
  "status_as_str s = (case s of
       AwaitingInputs \<Rightarrow> ''awaiting_inputs''
     | Pending \<Rightarrow> ''pending''
     | Broadcasted \<Rightarrow> ''broadcasted''
     | Confirmed \<Rightarrow> ''confirmed'')"

definition status_parse :: "string \<Rightarrow> denomination_stage_status outcome" where
  "status_parse v =
     (if v = ''awaiting_inputs'' then Inr AwaitingInputs
      else if v = ''pending'' then Inr Pending
      else if v = ''broadcasted'' then Inr Broadcasted
      else if v = ''confirmed'' then Inr Confirmed
      else Inl (Message ''Unknown migration denomination stage status: {other}'' [AStr v]))"

datatype stage_output_kind = Migration | Change | Continuation

definition kind_as_str :: "stage_output_kind \<Rightarrow> string" where
  "kind_as_str k = (case k of
       Migration \<Rightarrow> ''migration''
     | Change \<Rightarrow> ''change''
     | Continuation \<Rightarrow> ''continuation'')"

definition kind_parse :: "string \<Rightarrow> stage_output_kind outcome" where
  "kind_parse v =
     (if v = ''migration'' then Inr Migration
      else if v = ''change'' then Inr Change
      else if v = ''continuation'' then Inr Continuation
      else Inl (Message ''Unknown migration denomination stage output kind: {other}'' [AStr v]))"

lemma status_str_roundtrip [simp]: "status_parse (status_as_str s) = Inr s"
  by (cases s) (simp_all add: status_parse_def status_as_str_def)

lemma kind_str_roundtrip [simp]: "kind_parse (kind_as_str k) = Inr k"
  by (cases k) (simp_all add: kind_parse_def kind_as_str_def)

lemma status_str_inj [simp]: "status_as_str s = status_as_str t \<longleftrightarrow> s = t"
  by (cases s; cases t) (simp_all add: status_as_str_def)

section \<open>Values of the interface\<close>

record stage_input_ref =
  sir_txid_hex :: string
  sir_output_index :: nat
  sir_value_zatoshi :: zatoshi
  sir_note_version :: nat
  sir_nullifier_hex :: "string option"

record stage_output_ref =
  sor_output_index :: nat
  sor_value_zatoshi :: zatoshi
  sor_note_version :: nat
  sor_kind :: stage_output_kind
  sor_part_index :: "nat option"

record stage_insert =
  ins_stage_index :: nat
  ins_base_pczt :: "byte list"
  ins_sigs :: "spend_auth_signature list"
  ins_raw_tx :: "byte list option"
  ins_expected_txid_hex :: string
  ins_target_height :: height
  ins_scheduled_height :: height
  ins_expiry_height :: height
  ins_fee_zatoshi :: zatoshi
  ins_status :: denomination_stage_status
  ins_inputs :: "stage_input_ref list"
  ins_outputs :: "stage_output_ref list"

record denomination_stage =
  ds_stage_index :: nat
  ds_base_pczt :: "byte list"
  ds_sigs :: "spend_auth_signature list"
  ds_raw_tx :: "byte list option"
  ds_expected_txid_hex :: string
  ds_target_height :: height
  ds_scheduled_height :: height
  ds_broadcast_not_before_height :: "height option"
  ds_expiry_height :: height
  ds_fee_zatoshi :: zatoshi
  ds_status :: denomination_stage_status
  ds_confirmed_mined_height :: "height option"
  ds_confirmed_block_hash :: "byte list option"
  ds_inputs :: "stage_input_ref list"
  ds_outputs :: "stage_output_ref list"

record pending_raw_stage =
  pr_stage_index :: nat
  pr_expected_txid_hex :: string
  pr_raw_tx :: "byte list"
  pr_target_height :: height
  pr_scheduled_height :: height
  pr_broadcast_not_before_height :: "height option"
  pr_expiry_height :: height
  pr_fee_zatoshi :: zatoshi

definition effective_broadcast_height :: "pending_raw_stage \<Rightarrow> height" where
  "effective_broadcast_height p =
     max (case pr_broadcast_not_before_height p of None \<Rightarrow> 0 | Some h \<Rightarrow> h) (pr_scheduled_height p)"

record stage_status_counts =
  cnt_awaiting_inputs :: nat
  cnt_pending :: nat
  cnt_broadcasted :: nat
  cnt_confirmed :: nat
  cnt_total :: nat

record stage_chain_record =
  cr_stage_index :: nat
  cr_expected_txid_hex :: string
  cr_status :: denomination_stage_status
  cr_confirmed_mined_height :: "height option"
  cr_confirmed_block_hash :: "byte list option"
  cr_parent_txids :: "string list"
  cr_outputs :: "stage_output_ref list"

section \<open>Tables\<close>

text \<open>The columns of the three tables; \<open>'t\<close> is the text of an encrypted payload.\<close>

record 't stage_row =
  row_run_id :: string
  row_stage_index :: nat
  row_encrypted_base_pczt :: 't
  row_encrypted_compact_sigs :: 't
  row_encrypted_raw_tx :: "'t option"
  row_expected_txid_hex :: string
  row_target_height :: height
  row_scheduled_height :: height
  row_broadcast_not_before_height :: "height option"
  row_broadcast_attempted :: nat
  row_expiry_height :: height
  row_fee_zatoshi :: zatoshi
  row_confirmed_mined_height :: "height option"
  row_confirmed_block_hash :: "byte list option"
  row_status :: string

record input_row =
  inr_run_id :: string
  inr_stage_index :: nat
  inr_input_order :: nat
  inr_input :: stage_input_ref

record output_row =
  our_run_id :: string
  our_stage_index :: nat
  our_output_order :: nat
  our_output_index :: nat
  our_value_zatoshi :: zatoshi
  our_note_version :: nat
  our_kind :: string
  our_part_index :: "nat option"

record 't stage_db =
  stage_rows :: "'t stage_row list"
  input_rows :: "input_row list"
  output_rows :: "output_row list"

text \<open>The two CHECK clauses and the CHECK on the status column.\<close>

definition stage_row_checks :: "'t stage_row \<Rightarrow> bool" where
  "stage_row_checks row \<longleftrightarrow>
     row_status row \<in> {''awaiting_inputs'', ''pending'', ''broadcasted'', ''confirmed''}
     \<and> ((row_status row = ''awaiting_inputs'' \<and> row_encrypted_raw_tx row = None)
        \<or> (row_status row \<in> {''pending'', ''broadcasted''} \<and> row_encrypted_raw_tx row \<noteq> None)
        \<or> row_status row = ''confirmed'')
     \<and> ((row_status row \<noteq> ''confirmed'' \<and> row_confirmed_mined_height row = None \<and> row_confirmed_block_hash row = None)
        \<or> (row_status row = ''confirmed'' \<and> row_confirmed_mined_height row \<noteq> None
           \<and> (case row_confirmed_block_hash row of None \<Rightarrow> False | Some hash \<Rightarrow> length hash = 32)))"

definition insert_stage_row :: "'t stage_row \<Rightarrow> ('t stage_db, unit) store_op" where
  "insert_stage_row row db =
     (if \<not> stage_row_checks row then (Inl (Msg ''CHECK constraint failed''), db)
      else if (row_run_id row, row_stage_index row) \<in> (\<lambda>r. (row_run_id r, row_stage_index r)) ` set (stage_rows db)
           \<or> (row_run_id row, row_expected_txid_hex row) \<in> (\<lambda>r. (row_run_id r, row_expected_txid_hex r)) ` set (stage_rows db)
        then (Inl (Msg ''UNIQUE constraint failed''), db)
      else (Inr (), db\<lparr>stage_rows := stage_rows db @ [row]\<rparr>))"

definition insert_input_row :: "input_row \<Rightarrow> ('t stage_db, unit) store_op" where
  "insert_input_row row db =
     (if (inr_run_id row, inr_stage_index row, inr_input_order row)
           \<in> (\<lambda>r. (inr_run_id r, inr_stage_index r, inr_input_order r)) ` set (input_rows db)
         \<or> (inr_run_id row, sir_txid_hex (inr_input row), sir_output_index (inr_input row))
           \<in> (\<lambda>r. (inr_run_id r, sir_txid_hex (inr_input r), sir_output_index (inr_input r))) ` set (input_rows db)
        then (Inl (Msg ''UNIQUE constraint failed''), db)
      else if (inr_run_id row, inr_stage_index row) \<notin> (\<lambda>r. (row_run_id r, row_stage_index r)) ` set (stage_rows db)
        then (Inl (Msg ''FOREIGN KEY constraint failed''), db)
      else (Inr (), db\<lparr>input_rows := input_rows db @ [row]\<rparr>))"

definition insert_output_row :: "output_row \<Rightarrow> ('t stage_db, unit) store_op" where
  "insert_output_row row db =
     (if our_kind row \<notin> {''migration'', ''change'', ''continuation''} then (Inl (Msg ''CHECK constraint failed''), db)
      else if (our_run_id row, our_stage_index row, our_output_order row)
           \<in> (\<lambda>r. (our_run_id r, our_stage_index r, our_output_order r)) ` set (output_rows db)
         \<or> (our_run_id row, our_stage_index row, our_output_index row)
           \<in> (\<lambda>r. (our_run_id r, our_stage_index r, our_output_index r)) ` set (output_rows db)
        then (Inl (Msg ''UNIQUE constraint failed''), db)
      else if (our_run_id row, our_stage_index row) \<notin> (\<lambda>r. (row_run_id r, row_stage_index r)) ` set (stage_rows db)
        then (Inl (Msg ''FOREIGN KEY constraint failed''), db)
      else (Inr (), db\<lparr>output_rows := output_rows db @ [row]\<rparr>))"

text \<open>\<open>UPDATE ... SET f WHERE p\<close> on the stages: the number of rows changed, or a failed CHECK.\<close>

definition update_stages :: "('t stage_row \<Rightarrow> bool) \<Rightarrow> ('t stage_row \<Rightarrow> 't stage_row) \<Rightarrow> ('t stage_db, nat) store_op" where
  "update_stages p f db =
     (let rows = map (\<lambda>r. if p r then f r else r) (stage_rows db) in
      if \<forall>r \<in> set rows. stage_row_checks r
      then (Inr (length (filter p (stage_rows db))), db\<lparr>stage_rows := rows\<rparr>)
      else (Inl (Msg ''CHECK constraint failed''), db))"

section \<open>Hexadecimal identifiers\<close>

definition is_ascii_hexdigit :: "char \<Rightarrow> bool" where
  "is_ascii_hexdigit c \<longleftrightarrow> c \<in> set ''0123456789abcdefABCDEF''"

definition ascii_lower :: "char \<Rightarrow> char" where
  "ascii_lower c = (let n = (of_char c :: nat) in if 65 \<le> n \<and> n \<le> 90 then char_of (n + 32) else c)"

definition to_ascii_lowercase :: "string \<Rightarrow> string" where
  "to_ascii_lowercase s = map ascii_lower s"

definition validate_hex_32 :: "string \<Rightarrow> string \<Rightarrow> unit outcome" where
  "validate_hex_32 v label =
     (if length v \<noteq> 64 \<or> \<not> list_all is_ascii_hexdigit v
      then Inl (Message ''Invalid {label}: expected 32-byte hex'' [AStr label])
      else Inr ())"

definition validate_txid_hex :: "string \<Rightarrow> string \<Rightarrow> unit outcome" where
  "validate_txid_hex v label = validate_hex_32 v label"

definition count_to_u32 :: "nat \<Rightarrow> nat outcome" where
  "count_to_u32 n = (if n < 2 ^ 32 then Inr n else Inl (Msg ''Migration denomination stage count overflow''))"

lemma to_ascii_lowercase_idem [simp]: "to_ascii_lowercase (to_ascii_lowercase s) = to_ascii_lowercase s"
  by (auto simp: to_ascii_lowercase_def ascii_lower_def Let_def)

end
