(* ===== verification/Stage_Ops.thy ===== *)
theory Stage_Ops
  imports Stage_Store
begin

text \<open>
  The operations of wallet/sync/migration/stages.rs on the tables of \<open>Stage_Store\<close>, and the
  catch-up rescheduling of wallet/sync/migration/preparation_policy.rs. The nonces of encrypted
  columns are the argument \<open>nonce\<close>, by stage index and column.
\<close>

section \<open>Validating a batch\<close>

type_synonym batch_seen = "nat set \<times> string set \<times> (string \<times> nat) set"

definition validate_raw_state :: "stage_insert \<Rightarrow> unit outcome" where
  "validate_raw_state stage =
     (case (ins_status stage, ins_raw_tx stage) of
        (AwaitingInputs, None) \<Rightarrow> Inr ()
      | (AwaitingInputs, Some _) \<Rightarrow>
          Inl (Message ''Awaiting migration denomination stage {} already has a raw transaction''
                [ANat (ins_stage_index stage)])
      | (Pending, Some raw_tx) \<Rightarrow>
          if raw_tx \<noteq> [] then Inr ()
          else Inl (Message ''Migration denomination stage {} has an empty raw transaction'' [ANat (ins_stage_index stage)])
      | (Pending, None) \<Rightarrow>
          Inl (Message ''Migration denomination stage {} is {} without a raw transaction''
                [ANat (ins_stage_index stage), AStr (status_as_str (ins_status stage))])
      | (_, _) \<Rightarrow>
          Inl (Message ''Migration denomination stage {} cannot be inserted as {}''
                [ANat (ins_stage_index stage), AStr (status_as_str (ins_status stage))]))"

definition validate_input :: "stage_input_ref \<Rightarrow> (string \<times> nat) set \<Rightarrow> (string \<times> nat) set outcome" where
  "validate_input inp input_outpoints =
     res_bind (validate_txid_hex (sir_txid_hex inp) ''input transaction ID'') (\<lambda>_.
     res_bind (case sir_nullifier_hex inp of
                 None \<Rightarrow> Inr () | Some nullifier \<Rightarrow> validate_hex_32 nullifier ''input nullifier'') (\<lambda>_.
     let outpoint = (to_ascii_lowercase (sir_txid_hex inp), sir_output_index inp) in
     if outpoint \<in> input_outpoints
     then Inl (Message ''Migration denomination input {}:{} is assigned more than once''
                [AStr (sir_txid_hex inp), ANat (sir_output_index inp)])
     else Inr (insert outpoint input_outpoints)))"

definition validate_output :: "nat \<Rightarrow> stage_output_ref \<Rightarrow> nat set \<Rightarrow> nat set outcome" where
  "validate_output stage_index outp output_indices =
     (if sor_kind outp \<noteq> Migration \<and> sor_part_index outp \<noteq> None
      then Inl (Message ''Migration denomination stage {} assigns a part index to a {} output''
                 [ANat stage_index, AStr (kind_as_str (sor_kind outp))])
      else if sor_output_index outp \<in> output_indices
        then Inl (Message ''Migration denomination stage {} repeats output index {}''
                 [ANat stage_index, ANat (sor_output_index outp)])
      else Inr (insert (sor_output_index outp) output_indices))"

definition validate_stage :: "stage_insert \<Rightarrow> batch_seen \<Rightarrow> batch_seen outcome" where
  "validate_stage stage seen =
     (case seen of (stage_indices, expected_txids, input_outpoints) \<Rightarrow>
      if ins_stage_index stage \<in> stage_indices
      then Inl (Message ''Duplicate migration denomination stage index {}'' [ANat (ins_stage_index stage)])
      else res_bind (validate_txid_hex (ins_expected_txid_hex stage) ''expected transaction ID'') (\<lambda>_.
      if to_ascii_lowercase (ins_expected_txid_hex stage) \<in> expected_txids
      then Inl (Message ''Duplicate migration denomination expected txid {}'' [AStr (ins_expected_txid_hex stage)])
      else if ins_base_pczt stage = []
        then Inl (Message ''Migration denomination stage {} has an empty base PCZT'' [ANat (ins_stage_index stage)])
      else if ins_inputs stage = []
        then Inl (Message ''Migration denomination stage {} has no real inputs'' [ANat (ins_stage_index stage)])
      else if ins_outputs stage = []
        then Inl (Message ''Migration denomination stage {} has no real outputs'' [ANat (ins_stage_index stage)])
      else res_bind (validate_raw_state stage) (\<lambda>_.
        res_bind (res_fold validate_input (ins_inputs stage) input_outpoints) (\<lambda>input_outpoints.
        res_bind (res_fold (validate_output (ins_stage_index stage)) (ins_outputs stage) {}) (\<lambda>_.
        Inr (insert (ins_stage_index stage) stage_indices,
             insert (to_ascii_lowercase (ins_expected_txid_hex stage)) expected_txids, input_outpoints))))))"

definition validate_stage_batch :: "string \<Rightarrow> stage_insert list \<Rightarrow> unit outcome" where
  "validate_stage_batch run_id batch =
     (if run_id = [] then Inl (Msg ''Migration denomination stage run ID is empty'')
      else res_bind (res_fold validate_stage batch ({}, {}, {})) (\<lambda>_. Inr ()))"

section \<open>Inserting\<close>

definition lower_input :: "stage_input_ref \<Rightarrow> stage_input_ref" where
  "lower_input inp = inp\<lparr>sir_txid_hex := to_ascii_lowercase (sir_txid_hex inp),
     sir_nullifier_hex := map_option to_ascii_lowercase (sir_nullifier_hex inp)\<rparr>"

definition order_to_u32 :: "string \<Rightarrow> nat \<Rightarrow> unit outcome" where
  "order_to_u32 label n = (if n < 2 ^ 32 then Inr () else Inl (Msg label))"

definition insert_input :: "string \<Rightarrow> nat \<Rightarrow> nat \<times> stage_input_ref \<Rightarrow> ('t stage_db, unit) store_op" where
  "insert_input run_id stage_index oi = (case oi of (input_order, inp) \<Rightarrow>
     st_bind (st_lift (order_to_u32 ''Migration denomination input order exceeds u32'' input_order)) (\<lambda>_.
     st_context ''Insert migration denomination stage input: {e}'' (insert_input_row
       \<lparr>inr_run_id = run_id, inr_stage_index = stage_index, inr_input_order = input_order,
        inr_input = lower_input inp\<rparr>)))"

definition insert_output :: "string \<Rightarrow> nat \<Rightarrow> nat \<times> stage_output_ref \<Rightarrow> ('t stage_db, unit) store_op" where
  "insert_output run_id stage_index oo = (case oo of (output_order, outp) \<Rightarrow>
     st_bind (st_lift (order_to_u32 ''Migration denomination output order exceeds u32'' output_order)) (\<lambda>_.
     st_context ''Insert migration denomination stage output: {e}'' (insert_output_row
       \<lparr>our_run_id = run_id, our_stage_index = stage_index, our_output_order = output_order,
        our_output_index = sor_output_index outp, our_value_zatoshi = sor_value_zatoshi outp,
        our_note_version = sor_note_version outp, our_kind = kind_as_str (sor_kind outp),
        our_part_index = sor_part_index outp\<rparr>)))"

definition transpose_result :: "'a outcome option \<Rightarrow> 'a option outcome" where
  "transpose_result x = (case x of None \<Rightarrow> Inr None | Some r \<Rightarrow> res_bind r (\<lambda>v. Inr (Some v)))"

definition insert_stage ::
    "'t crypto_library \<Rightarrow> (nat \<Rightarrow> nat \<Rightarrow> byte list) \<Rightarrow> string \<Rightarrow> byte list \<Rightarrow> byte list \<Rightarrow> stage_insert
      \<Rightarrow> ('t stage_db, unit) store_op" where
  "insert_stage lib nonce run_id password salt stage =
     (let i = ins_stage_index stage in
      st_bind (st_lift (encrypt_payload lib (nonce i 0) (ins_base_pczt stage) password salt)) (\<lambda>encrypted_base_pczt.
      st_bind (st_lift (encode_compact_action_sigs (ins_sigs stage))) (\<lambda>sigs_blob.
      st_bind (st_lift (encrypt_payload lib (nonce i 1) sigs_blob password salt)) (\<lambda>encrypted_compact_sigs.
      st_bind (st_lift (transpose_result
                (map_option (\<lambda>raw_tx. encrypt_payload lib (nonce i 2) raw_tx password salt) (ins_raw_tx stage))))
        (\<lambda>encrypted_raw_tx.
      st_bind (st_context ''Insert migration denomination stage: {e}'' (insert_stage_row
        \<lparr>row_run_id = run_id, row_stage_index = i, row_encrypted_base_pczt = encrypted_base_pczt,
         row_encrypted_compact_sigs = encrypted_compact_sigs, row_encrypted_raw_tx = encrypted_raw_tx,
         row_expected_txid_hex = to_ascii_lowercase (ins_expected_txid_hex stage),
         row_target_height = ins_target_height stage, row_scheduled_height = ins_scheduled_height stage,
         row_broadcast_not_before_height = None, row_broadcast_attempted = 0,
         row_expiry_height = ins_expiry_height stage, row_fee_zatoshi = ins_fee_zatoshi stage,
         row_confirmed_mined_height = None, row_confirmed_block_hash = None,
         row_status = status_as_str (ins_status stage)\<rparr>)) (\<lambda>_.
      st_bind (st_each (insert_input run_id i) (enumerate 0 (ins_inputs stage))) (\<lambda>_.
      st_each (insert_output run_id i) (enumerate 0 (ins_outputs stage)))))))))"

definition insert_denomination_stages_with_tx ::
    "'t crypto_library \<Rightarrow> (nat \<Rightarrow> nat \<Rightarrow> byte list) \<Rightarrow> string \<Rightarrow> stage_insert list \<Rightarrow> byte list \<Rightarrow> string
      \<Rightarrow> ('t stage_db, unit) store_op" where
  "insert_denomination_stages_with_tx lib nonce run_id batch password salt_base64 =
     st_bind (st_lift (validate_stage_batch run_id batch)) (\<lambda>_.
     st_bind (st_lift (decode_base64 lib salt_base64 ''migration denomination stage salt'')) (\<lambda>salt.
     savepoint (st_each (insert_stage lib nonce run_id password salt) batch)))"

section \<open>Reading\<close>

definition run_rows :: "'t stage_db \<Rightarrow> string \<Rightarrow> 't stage_row list" where
  "run_rows db run_id = sort_key row_stage_index (filter (\<lambda>r. row_run_id r = run_id) (stage_rows db))"

definition stage_inputs :: "'t stage_db \<Rightarrow> string \<Rightarrow> nat \<Rightarrow> stage_input_ref list" where
  "stage_inputs db run_id stage_index =
     map inr_input (sort_key inr_input_order
       (filter (\<lambda>r. inr_run_id r = run_id \<and> inr_stage_index r = stage_index) (input_rows db)))"

definition stage_outputs :: "'t stage_db \<Rightarrow> string \<Rightarrow> nat \<Rightarrow> stage_output_ref list outcome" where
  "stage_outputs db run_id stage_index =
     res_map (\<lambda>r. res_bind (kind_parse (our_kind r)) (\<lambda>kind.
         Inr \<lparr>sor_output_index = our_output_index r, sor_value_zatoshi = our_value_zatoshi r,
              sor_note_version = our_note_version r, sor_kind = kind, sor_part_index = our_part_index r\<rparr>))
       (sort_key our_output_order
         (filter (\<lambda>r. our_run_id r = run_id \<and> our_stage_index r = stage_index) (output_rows db)))"

definition read_stage ::
    "'t crypto_library \<Rightarrow> byte list \<Rightarrow> 't stage_db \<Rightarrow> string \<Rightarrow> 't stage_row \<Rightarrow> denomination_stage outcome" where
  "read_stage lib key db run_id row =
     res_bind (decrypt_with_cipher lib key (row_encrypted_base_pczt row)) (\<lambda>base_pczt.
     res_bind (decrypt_with_cipher lib key (row_encrypted_compact_sigs row)) (\<lambda>sigs_blob.
     res_bind (transpose_result (map_option (decrypt_with_cipher lib key) (row_encrypted_raw_tx row))) (\<lambda>raw_tx.
     res_bind (decode_compact_action_sigs sigs_blob) (\<lambda>sigs.
     res_bind (status_parse (row_status row)) (\<lambda>status.
     res_bind (stage_outputs db run_id (row_stage_index row)) (\<lambda>outputs.
     Inr \<lparr>ds_stage_index = row_stage_index row, ds_base_pczt = base_pczt, ds_sigs = sigs, ds_raw_tx = raw_tx,
          ds_expected_txid_hex = row_expected_txid_hex row, ds_target_height = row_target_height row,
          ds_scheduled_height = row_scheduled_height row,
          ds_broadcast_not_before_height = row_broadcast_not_before_height row,
          ds_expiry_height = row_expiry_height row, ds_fee_zatoshi = row_fee_zatoshi row, ds_status = status,
          ds_confirmed_mined_height = row_confirmed_mined_height row,
          ds_confirmed_block_hash = row_confirmed_block_hash row,
          ds_inputs = stage_inputs db run_id (row_stage_index row), ds_outputs = outputs\<rparr>))))))"

definition denomination_stages_for_run ::
    "'t crypto_library \<Rightarrow> 't stage_db \<Rightarrow> string \<Rightarrow> byte list \<Rightarrow> string \<Rightarrow> denomination_stage list outcome" where
  "denomination_stages_for_run lib db run_id password salt_base64 =
     res_bind (decode_base64 lib salt_base64 ''migration denomination stage salt'') (\<lambda>salt.
     res_map (read_stage lib (derive_key lib password salt) db run_id) (run_rows db run_id))"

definition expired_unbroadcast_denomination_stage_count :: "'t stage_db \<Rightarrow> string \<Rightarrow> height \<Rightarrow> nat outcome" where
  "expired_unbroadcast_denomination_stage_count db run_id observed_height =
     count_to_u32 (length (filter (\<lambda>r. row_run_id r = run_id \<and> row_status r \<in> {''awaiting_inputs'', ''pending''}
       \<and> 0 < row_expiry_height r \<and> row_expiry_height r \<le> observed_height) (stage_rows db)))"

definition expired_broadcasted_denomination_stage_count :: "'t stage_db \<Rightarrow> string \<Rightarrow> height \<Rightarrow> nat outcome" where
  "expired_broadcasted_denomination_stage_count db run_id observed_height =
     count_to_u32 (length (filter (\<lambda>r. row_run_id r = run_id \<and> row_status r = ''broadcasted''
       \<and> 0 < row_expiry_height r \<and> row_expiry_height r \<le> observed_height) (stage_rows db)))"

definition row_effective_height :: "'t stage_row \<Rightarrow> height" where
  "row_effective_height r =
     max (row_scheduled_height r) (case row_broadcast_not_before_height r of None \<Rightarrow> 0 | Some h \<Rightarrow> h)"

definition pending_raw_denomination_stages ::
    "'t crypto_library \<Rightarrow> 't stage_db \<Rightarrow> string \<Rightarrow> byte list \<Rightarrow> string \<Rightarrow> pending_raw_stage list outcome" where
  "pending_raw_denomination_stages lib db run_id password salt_base64 =
     res_bind (decode_base64 lib salt_base64 ''migration denomination stage salt'') (\<lambda>salt.
     res_map (\<lambda>r. res_bind (ok_or (row_encrypted_raw_tx r) (Msg ''Read pending migration denomination stage: {e}''))
         (\<lambda>encrypted_raw_tx.
         res_bind (decrypt_with_cipher lib (derive_key lib password salt) encrypted_raw_tx) (\<lambda>raw_tx.
         Inr \<lparr>pr_stage_index = row_stage_index r, pr_expected_txid_hex = row_expected_txid_hex r, pr_raw_tx = raw_tx,
              pr_target_height = row_target_height r, pr_scheduled_height = row_scheduled_height r,
              pr_broadcast_not_before_height = row_broadcast_not_before_height r,
              pr_expiry_height = row_expiry_height r, pr_fee_zatoshi = row_fee_zatoshi r\<rparr>)))
       (sort_key (\<lambda>r. (row_effective_height r, row_stage_index r))
         (filter (\<lambda>r. row_run_id r = run_id \<and> row_status r = ''pending'' \<and> row_encrypted_raw_tx r \<noteq> None)
           (stage_rows db))))"

definition denomination_stage_expected_txids :: "'t stage_db \<Rightarrow> string \<Rightarrow> string list" where
  "denomination_stage_expected_txids db run_id = map row_expected_txid_hex (run_rows db run_id)"

definition denomination_stage_chain_records :: "'t stage_db \<Rightarrow> string \<Rightarrow> stage_chain_record list outcome" where
  "denomination_stage_chain_records db run_id =
     res_map (\<lambda>r.
       res_bind (case (row_confirmed_mined_height r, row_confirmed_block_hash r) of
                   (None, None) \<Rightarrow> Inr ()
                 | (Some _, Some hash) \<Rightarrow>
                     if length hash = 32 then Inr ()
                     else Inl (Message ''Migration denomination stage {expected_txid_hex} has a malformed chain inclusion''
                            [AStr (row_expected_txid_hex r)])
                 | _ \<Rightarrow> Inl (Message ''Migration denomination stage {expected_txid_hex} has a malformed chain inclusion''
                            [AStr (row_expected_txid_hex r)])) (\<lambda>_.
       res_bind (status_parse (row_status r)) (\<lambda>status.
       res_bind (stage_outputs db run_id (row_stage_index r)) (\<lambda>outputs.
       Inr \<lparr>cr_stage_index = row_stage_index r, cr_expected_txid_hex = row_expected_txid_hex r, cr_status = status,
            cr_confirmed_mined_height = row_confirmed_mined_height r,
            cr_confirmed_block_hash = row_confirmed_block_hash r,
            cr_parent_txids = map (\<lambda>i. to_ascii_lowercase (sir_txid_hex i)) (stage_inputs db run_id (row_stage_index r)),
            cr_outputs = outputs\<rparr>)))) (run_rows db run_id)"

definition denomination_stage_status_counts :: "'t stage_db \<Rightarrow> string \<Rightarrow> stage_status_counts outcome" where
  "denomination_stage_status_counts db run_id =
     (let rows = filter (\<lambda>r. row_run_id r = run_id) (stage_rows db);
          of_status = (\<lambda>s. length (filter (\<lambda>r. row_status r = s) rows))
      in res_bind (count_to_u32 (of_status ''awaiting_inputs'')) (\<lambda>awaiting_inputs.
         res_bind (count_to_u32 (of_status ''pending'')) (\<lambda>pending.
         res_bind (count_to_u32 (of_status ''broadcasted'')) (\<lambda>broadcasted.
         res_bind (count_to_u32 (of_status ''confirmed'')) (\<lambda>confirmed.
         res_bind (count_to_u32 (length rows)) (\<lambda>total.
         Inr \<lparr>cnt_awaiting_inputs = awaiting_inputs, cnt_pending = pending, cnt_broadcasted = broadcasted,
              cnt_confirmed = confirmed, cnt_total = total\<rparr>))))))"

definition locked_denomination_stage_input_outpoints :: "'t stage_db \<Rightarrow> string \<Rightarrow> (string \<times> nat) set" where
  "locked_denomination_stage_input_outpoints db run_id =
     set (concat (map (\<lambda>i. if inr_run_id i = run_id
                            \<and> (\<exists>s \<in> set (stage_rows db). row_run_id s = inr_run_id i
                                 \<and> row_stage_index s = inr_stage_index i \<and> row_status s \<noteq> ''confirmed'')
                           then [(to_ascii_lowercase (sir_txid_hex (inr_input i)), sir_output_index (inr_input i))]
                           else []) (input_rows db)))"

section \<open>Moving a stage\<close>

definition promote_awaiting_denomination_stage ::
    "'t crypto_library \<Rightarrow> byte list \<Rightarrow> string \<Rightarrow> nat \<Rightarrow> string \<Rightarrow> byte list \<Rightarrow> byte list \<Rightarrow> string
      \<Rightarrow> ('t stage_db, unit) store_op" where
  "promote_awaiting_denomination_stage lib nonce run_id stage_index expected_txid_hex raw_tx password salt_base64 =
     st_bind (st_lift (validate_txid_hex expected_txid_hex ''expected transaction ID'')) (\<lambda>_.
     if raw_tx = [] then st_fail (Msg ''Migration denomination stage raw transaction is empty'')
     else
       st_bind (st_lift (decode_base64 lib salt_base64 ''migration denomination stage salt'')) (\<lambda>salt.
       st_bind (st_lift (encrypt_payload lib nonce raw_tx password salt)) (\<lambda>encrypted_raw_tx.
       st_bind (st_context ''Promote awaiting migration denomination stage: {e}'' (update_stages
           (\<lambda>r. row_run_id r = run_id \<and> row_stage_index r = stage_index
             \<and> row_expected_txid_hex r = to_ascii_lowercase expected_txid_hex
             \<and> row_status r = ''awaiting_inputs'' \<and> row_encrypted_raw_tx r = None)
           (\<lambda>r. r\<lparr>row_encrypted_raw_tx := Some encrypted_raw_tx, row_status := ''pending''\<rparr>))) (\<lambda>updated.
       if updated = 1 then st_return ()
       else st_fail (Message
         ''Migration denomination stage {stage_index} is missing, has a different txid, or is not awaiting inputs''
         [ANat stage_index])))))"

definition find_stage :: "'t stage_db \<Rightarrow> string \<Rightarrow> string \<Rightarrow> 't stage_row option" where
  "find_stage db run_id txid = find (\<lambda>r. row_run_id r = run_id \<and> row_expected_txid_hex r = txid) (stage_rows db)"

definition transition_stage ::
    "string \<Rightarrow> string \<Rightarrow> denomination_stage_status \<Rightarrow> ('t stage_db, unit) store_op" where
  "transition_stage run_id expected_txid_hex target =
     st_bind (st_lift (validate_txid_hex expected_txid_hex ''expected transaction ID'')) (\<lambda>_.
     let txid = to_ascii_lowercase expected_txid_hex in
     if target \<noteq> Broadcasted
     then st_fail (Message ''Unsupported migration denomination stage transition target {}'' [AStr (status_as_str target)])
     else
       st_bind (st_context ''Update migration denomination stage status: {e}'' (update_stages
           (\<lambda>r. row_run_id r = run_id \<and> row_expected_txid_hex r = txid \<and> row_status r = ''pending'')
           (\<lambda>r. r\<lparr>row_status := status_as_str target\<rparr>))) (\<lambda>updated.
       if updated = 1 then st_return ()
       else (\<lambda>db. st_lift
         (res_bind (ok_or (find_stage db run_id txid)
                     (Message ''Migration denomination stage {expected_txid_hex} was not found'' [AStr txid])) (\<lambda>row.
          res_bind (status_parse (row_status row)) (\<lambda>current.
          if current = target \<or> (target = Broadcasted \<and> current = Confirmed) then Inr ()
          else Inl (Message ''Cannot move migration denomination stage from {} to {}''
                 [AStr (status_as_str current), AStr (status_as_str target)])))) db)))"

definition mark_denomination_stage_broadcasted :: "string \<Rightarrow> string \<Rightarrow> ('t stage_db, unit) store_op" where
  "mark_denomination_stage_broadcasted run_id expected_txid_hex = transition_stage run_id expected_txid_hex Broadcasted"

definition mark_denomination_stage_confirmed_at ::
    "string \<Rightarrow> string \<Rightarrow> height \<Rightarrow> byte list \<Rightarrow> ('t stage_db, unit) store_op" where
  "mark_denomination_stage_confirmed_at run_id expected_txid_hex mined_height block_hash =
     st_bind (st_lift (validate_txid_hex expected_txid_hex ''expected transaction ID'')) (\<lambda>_.
     let txid = to_ascii_lowercase expected_txid_hex in
     st_bind (st_context ''Confirm migration denomination stage: {e}'' (update_stages
         (\<lambda>r. row_run_id r = run_id \<and> row_expected_txid_hex r = txid \<and> row_status r \<in> {''pending'', ''broadcasted''})
         (\<lambda>r. r\<lparr>row_status := ''confirmed'', row_confirmed_mined_height := Some mined_height,
                row_confirmed_block_hash := Some block_hash\<rparr>))) (\<lambda>updated.
     if updated = 1 then st_return ()
     else (\<lambda>db. st_lift
       (res_bind (ok_or (find_stage db run_id txid)
                   (Message ''Migration denomination stage {expected_txid_hex} was not found'' [AStr txid])) (\<lambda>row.
        res_bind (status_parse (row_status row)) (\<lambda>status.
        if status \<noteq> Confirmed
        then Inl (Message ''Cannot move migration denomination stage from {} to confirmed'' [AStr (status_as_str status)])
        else if row_confirmed_mined_height row = Some mined_height \<and> row_confirmed_block_hash row = Some block_hash
          then Inr ()
        else Inl (Message ''Migration denomination stage {expected_txid_hex} moved to a different chain inclusion''
               [AStr txid])))) db)))"

definition replace_denomination_stage_confirmation_identity ::
    "string \<Rightarrow> string \<Rightarrow> height \<Rightarrow> byte list \<Rightarrow> ('t stage_db, unit) store_op" where
  "replace_denomination_stage_confirmation_identity run_id expected_txid_hex mined_height block_hash =
     st_bind (st_lift (validate_txid_hex expected_txid_hex ''expected transaction ID'')) (\<lambda>_.
     st_bind (st_context ''Replace migration denomination chain inclusion: {e}'' (update_stages
         (\<lambda>r. row_run_id r = run_id \<and> row_expected_txid_hex r = to_ascii_lowercase expected_txid_hex
           \<and> row_status r \<in> {''awaiting_inputs'', ''pending'', ''broadcasted'', ''confirmed''})
         (\<lambda>r. r\<lparr>row_status := ''confirmed'', row_confirmed_mined_height := Some mined_height,
                row_confirmed_block_hash := Some block_hash\<rparr>))) (\<lambda>updated.
     if updated = 1 then st_return ()
     else st_fail (Message ''Migration denomination stage {expected_txid_hex} cannot record a mined inclusion''
            [AStr expected_txid_hex])))"

definition reset_denomination_stage_exact :: "string \<Rightarrow> string \<Rightarrow> ('t stage_db, unit) store_op" where
  "reset_denomination_stage_exact run_id expected_txid_hex =
     st_bind (st_lift (validate_txid_hex expected_txid_hex ''expected transaction ID'')) (\<lambda>_.
     st_bind (st_context ''Reset migration denomination stage after reorg: {e}'' (update_stages
         (\<lambda>r. row_run_id r = run_id \<and> row_expected_txid_hex r = to_ascii_lowercase expected_txid_hex)
         (\<lambda>r. r\<lparr>row_encrypted_raw_tx := None, row_status := ''awaiting_inputs'',
                row_confirmed_mined_height := None, row_confirmed_block_hash := None\<rparr>))) (\<lambda>updated.
     if updated = 1 then st_return ()
     else st_fail (Message ''Migration denomination stage {expected_txid_hex} was not found'' [AStr expected_txid_hex])))"

end
