(* ===== verification/Stage_Invariant.thy ===== *)
theory Stage_Invariant
  imports Stage_Ops
begin

text \<open>
  The invariant of the stage tables and how each statement and operation keeps it. The operations
  form a step relation on databases; what every step preserves of a stage is proved here too.
\<close>

section \<open>The invariant\<close>

definition stage_key :: "'t stage_row \<Rightarrow> string \<times> nat" where
  "stage_key r = (row_run_id r, row_stage_index r)"

definition stage_txid :: "'t stage_row \<Rightarrow> string \<times> string" where
  "stage_txid r = (row_run_id r, row_expected_txid_hex r)"

definition store_ok :: "'t stage_db \<Rightarrow> bool" where
  "store_ok db \<longleftrightarrow>
     (\<forall>r \<in> set (stage_rows db). stage_row_checks r)
     \<and> distinct (map stage_key (stage_rows db)) \<and> distinct (map stage_txid (stage_rows db))
     \<and> distinct (map (\<lambda>r. (inr_run_id r, inr_stage_index r, inr_input_order r)) (input_rows db))
     \<and> distinct (map (\<lambda>r. (inr_run_id r, sir_txid_hex (inr_input r), sir_output_index (inr_input r))) (input_rows db))
     \<and> (\<forall>r \<in> set (input_rows db). (inr_run_id r, inr_stage_index r) \<in> stage_key ` set (stage_rows db))
     \<and> distinct (map (\<lambda>r. (our_run_id r, our_stage_index r, our_output_order r)) (output_rows db))
     \<and> distinct (map (\<lambda>r. (our_run_id r, our_stage_index r, our_output_index r)) (output_rows db))
     \<and> (\<forall>r \<in> set (output_rows db). (our_run_id r, our_stage_index r) \<in> stage_key ` set (stage_rows db)
          \<and> our_kind r \<in> {''migration'', ''change'', ''continuation''})"

named_theorems store_keeps

lemma keeps_insert_stage_row [store_keeps]: "keeps store_ok (insert_stage_row row)"
  by (auto simp: keeps_def insert_stage_row_def store_ok_def stage_key_def stage_txid_def)

lemma keeps_insert_input_row [store_keeps]: "keeps store_ok (insert_input_row row)"
  by (auto simp: keeps_def insert_input_row_def store_ok_def stage_key_def stage_txid_def)

lemma keeps_insert_output_row [store_keeps]: "keeps store_ok (insert_output_row row)"
  by (auto simp: keeps_def insert_output_row_def store_ok_def stage_key_def stage_txid_def)

text \<open>An update that leaves the identity of a stage alone.\<close>

definition keeps_identity :: "('t stage_row \<Rightarrow> 't stage_row) \<Rightarrow> bool" where
  "keeps_identity f \<longleftrightarrow> (\<forall>r. stage_key (f r) = stage_key r \<and> stage_txid (f r) = stage_txid r)"

lemma store_ok_rows:
  assumes "store_ok db" and "\<forall>r \<in> set rows. stage_row_checks r"
    and key: "map stage_key rows = map stage_key (stage_rows db)" and "map stage_txid rows = map stage_txid (stage_rows db)"
  shows "store_ok (db\<lparr>stage_rows := rows\<rparr>)"
proof -
  have "stage_key ` set rows = stage_key ` set (stage_rows db)" by (simp only: set_map[symmetric] key)
  with assms show ?thesis by (simp add: store_ok_def)
qed

lemma keeps_update [store_keeps]:
  assumes "keeps_identity f"
  shows "keeps store_ok (update_stages p f)"
proof -
  let ?g = "\<lambda>r. if p r then f r else r"
  have id: "stage_key (?g r) = stage_key r" "stage_txid (?g r) = stage_txid r" for r
    using assms by (simp_all add: keeps_identity_def)
  have "map stage_key (map ?g rows) = map stage_key rows" "map stage_txid (map ?g rows) = map stage_txid rows" for rows
    using id by simp_all
  then show ?thesis
    unfolding keeps_def update_stages_def Let_def by (auto intro!: store_ok_rows simp del: map_map)
qed

section \<open>Operations keep the invariant\<close>

lemma keeps_insert_input [store_keeps]: "keeps store_ok (insert_input run_id i oi)"
  by (auto simp: insert_input_def intro!: store_keeps split: prod.splits)

lemma keeps_insert_output [store_keeps]: "keeps store_ok (insert_output run_id i oo)"
  by (auto simp: insert_output_def intro!: store_keeps split: prod.splits)

lemma keeps_insert_stage [store_keeps]: "keeps store_ok (insert_stage lib nonce run_id password salt stage)"
  unfolding insert_stage_def Let_def by (intro keeps_bind keeps_basic keeps_context keeps_each store_keeps)

lemma keeps_insert_batch [store_keeps]:
  "keeps store_ok (insert_denomination_stages_with_tx lib nonce run_id batch password salt_base64)"
  unfolding insert_denomination_stages_with_tx_def
  by (intro keeps_bind keeps_basic keeps_savepoint keeps_each store_keeps)

lemma keeps_promote [store_keeps]:
  "keeps store_ok (promote_awaiting_denomination_stage lib nonce run_id i txid raw_tx password salt_base64)"
  unfolding promote_awaiting_denomination_stage_def
  by (auto intro!: keeps_bind keeps_context keeps_update simp: keeps_identity_def stage_key_def stage_txid_def)

lemma keeps_read [store_keeps]: "keeps P (\<lambda>db. (g db, db))"
  by (simp add: keeps_def)

lemma keeps_transition [store_keeps]: "keeps store_ok (transition_stage run_id txid target)"
  unfolding transition_stage_def Let_def
  by (auto intro!: keeps_bind keeps_context keeps_update keeps_read simp: keeps_identity_def stage_key_def stage_txid_def)

lemma keeps_broadcasted [store_keeps]: "keeps store_ok (mark_denomination_stage_broadcasted run_id txid)"
  unfolding mark_denomination_stage_broadcasted_def by (rule keeps_transition)

lemma keeps_confirmed [store_keeps]:
  "keeps store_ok (mark_denomination_stage_confirmed_at run_id txid mined_height block_hash)"
  unfolding mark_denomination_stage_confirmed_at_def Let_def
  by (auto intro!: keeps_bind keeps_context keeps_update keeps_read simp: keeps_identity_def stage_key_def stage_txid_def)

lemma keeps_replace [store_keeps]:
  "keeps store_ok (replace_denomination_stage_confirmation_identity run_id txid mined_height block_hash)"
  unfolding replace_denomination_stage_confirmation_identity_def
  by (auto intro!: keeps_bind keeps_context keeps_update simp: keeps_identity_def stage_key_def stage_txid_def)

lemma keeps_reset [store_keeps]: "keeps store_ok (reset_denomination_stage_exact run_id txid)"
  unfolding reset_denomination_stage_exact_def
  by (auto intro!: keeps_bind keeps_context keeps_update simp: keeps_identity_def stage_key_def stage_txid_def)

section \<open>Steps\<close>

text \<open>One call of the module on the database, whatever its arguments and its result.\<close>

inductive stage_step :: "'t crypto_library \<Rightarrow> 't stage_db \<Rightarrow> 't stage_db \<Rightarrow> bool" for lib where
  step_insert: "insert_denomination_stages_with_tx lib nonce run_id batch password salt db = (result, db')
      \<Longrightarrow> stage_step lib db db'"
| step_promote: "promote_awaiting_denomination_stage lib nonce1 run_id i txid raw_tx password salt db = (result, db')
      \<Longrightarrow> stage_step lib db db'"
| step_broadcasted: "mark_denomination_stage_broadcasted run_id txid db = (result, db') \<Longrightarrow> stage_step lib db db'"
| step_confirmed: "length block_hash = 32 \<Longrightarrow>
      mark_denomination_stage_confirmed_at run_id txid mined_height block_hash db = (result, db') \<Longrightarrow> stage_step lib db db'"
| step_replace: "length block_hash = 32 \<Longrightarrow>
      replace_denomination_stage_confirmation_identity run_id txid mined_height block_hash db = (result, db')
      \<Longrightarrow> stage_step lib db db'"
| step_reset: "reset_denomination_stage_exact run_id txid db = (result, db') \<Longrightarrow> stage_step lib db db'"

inductive_cases stage_stepE: "stage_step lib db db'"

definition empty_db :: "'t stage_db" where
  "empty_db = \<lparr>stage_rows = [], input_rows = [], output_rows = []\<rparr>"

lemma empty_db_ok: "store_ok empty_db"
  by (simp add: store_ok_def empty_db_def)

lemma keepsD: "keeps P m \<Longrightarrow> P s \<Longrightarrow> m s = (x, s') \<Longrightarrow> P s'"
  by (metis keeps_def snd_conv)

lemma stage_step_ok: "stage_step lib db db' \<Longrightarrow> store_ok db \<Longrightarrow> store_ok db'"
  by (erule stage_stepE) (auto elim!: keepsD[rotated 2] intro!: store_keeps)

lemma stage_steps_ok: "(stage_step lib)\<^sup>*\<^sup>* db db' \<Longrightarrow> store_ok db \<Longrightarrow> store_ok db'"
  by (induction rule: rtranclp_induct) (auto intro: stage_step_ok)

section \<open>What a step keeps of a stage\<close>

text \<open>The signed material and the plan of a stage: everything but its raw transaction and chain state.\<close>

definition stage_material where
  "stage_material r = (stage_key r, row_expected_txid_hex r, row_encrypted_base_pczt r, row_encrypted_compact_sigs r,
     row_target_height r, row_scheduled_height r, row_expiry_height r, row_fee_zatoshi r)"

definition material_kept :: "'t stage_db \<Rightarrow> 't stage_db \<Rightarrow> bool" where
  "material_kept db db' \<longleftrightarrow>
     (\<exists>new. map stage_material (stage_rows db') = map stage_material (stage_rows db) @ new)
     \<and> (\<exists>new. input_rows db' = input_rows db @ new) \<and> (\<exists>new. output_rows db' = output_rows db @ new)"

lemma material_refl: "material_kept db db"
  by (simp add: material_kept_def)

lemma material_trans: "material_kept a b \<Longrightarrow> material_kept b c \<Longrightarrow> material_kept a c"
  by (fastforce simp: material_kept_def)

definition grows :: "('t stage_db, 'a) store_op \<Rightarrow> bool" where
  "grows m \<longleftrightarrow> (\<forall>db. material_kept db (snd (m db)))"

lemma grows_from_keeps: "(\<And>db0. keeps (material_kept db0) m) \<Longrightarrow> grows m"
  by (simp add: grows_def keeps_def material_refl)

lemma material_insert_rows [store_keeps]:
  "keeps (material_kept db0) (insert_stage_row row)"
  "keeps (material_kept db0) (insert_input_row irow)"
  "keeps (material_kept db0) (insert_output_row orow)"
  by (auto simp: keeps_def insert_stage_row_def insert_input_row_def insert_output_row_def material_kept_def)

lemma material_update [store_keeps]:
  assumes "\<And>r. stage_material (f r) = stage_material r"
  shows "keeps (material_kept db0) (update_stages p f)"
proof -
  have "map stage_material (map (\<lambda>r. if p r then f r else r) rows) = map stage_material rows" for rows
    using assms by simp
  then show ?thesis
    unfolding keeps_def update_stages_def Let_def material_kept_def by (auto simp del: map_map)
qed

lemma material_insert_stage [store_keeps]:
  "keeps (material_kept db0) (insert_stage lib nonce run_id password salt stage)"
  unfolding insert_stage_def Let_def insert_input_def insert_output_def
  by (intro keeps_bind keeps_basic keeps_context keeps_each store_keeps)
    (auto intro!: keeps_bind keeps_context store_keeps split: prod.splits)

lemma material_insert_batch [store_keeps]:
  "keeps (material_kept db0) (insert_denomination_stages_with_tx lib nonce run_id batch password salt)"
  unfolding insert_denomination_stages_with_tx_def
  by (intro keeps_bind keeps_basic keeps_savepoint keeps_each store_keeps)

lemma material_promote [store_keeps]:
  "keeps (material_kept db0) (promote_awaiting_denomination_stage lib nonce run_id i txid raw_tx password salt)"
  unfolding promote_awaiting_denomination_stage_def
  by (auto intro!: keeps_bind keeps_context material_update simp: stage_material_def stage_key_def)

lemma material_broadcasted [store_keeps]:
  "keeps (material_kept db0) (mark_denomination_stage_broadcasted run_id txid)"
  unfolding mark_denomination_stage_broadcasted_def transition_stage_def Let_def
  by (auto intro!: keeps_bind keeps_context material_update keeps_read simp: stage_material_def stage_key_def)

lemma material_confirmed [store_keeps]:
  "keeps (material_kept db0) (mark_denomination_stage_confirmed_at run_id txid mined_height block_hash)"
  unfolding mark_denomination_stage_confirmed_at_def Let_def
  by (auto intro!: keeps_bind keeps_context material_update keeps_read simp: stage_material_def stage_key_def)

lemma material_replace [store_keeps]:
  "keeps (material_kept db0) (replace_denomination_stage_confirmation_identity run_id txid mined_height block_hash)"
  unfolding replace_denomination_stage_confirmation_identity_def
  by (auto intro!: keeps_bind keeps_context material_update simp: stage_material_def stage_key_def)

lemma material_reset [store_keeps]:
  "keeps (material_kept db0) (reset_denomination_stage_exact run_id txid)"
  unfolding reset_denomination_stage_exact_def
  by (auto intro!: keeps_bind keeps_context material_update simp: stage_material_def stage_key_def)

lemma material_step: "stage_step lib db db' \<Longrightarrow> material_kept db db'"
  by (erule stage_stepE) (auto elim!: keepsD[rotated 2] intro!: store_keeps material_refl)

lemma material_steps: "(stage_step lib)\<^sup>*\<^sup>* db db' \<Longrightarrow> material_kept db db'"
  by (induction rule: rtranclp_induct) (auto intro: material_refl material_trans material_step)

end
