(* ===== verification/Stage_Ids.thy ===== *)
theory Stage_Ids
  imports Stage_Invariant
begin

text \<open>
  The identifiers the stage tables hold: every stored transaction ID is 64 hexadecimal digits in
  lower case, because a batch is validated before it is inserted and no update changes an ID. The
  guarded updates rely on it: they compare with lower-cased arguments and refuse others.
\<close>

definition valid_txid :: "string \<Rightarrow> bool" where
  "valid_txid txid \<longleftrightarrow> length txid = 64 \<and> list_all is_ascii_hexdigit txid"

lemma valid_txid_accepted: "validate_txid_hex txid label = Inr () \<longleftrightarrow> valid_txid txid"
  by (auto simp: valid_txid_def validate_txid_hex_def validate_hex_32_def)

lemma valid_txidD [simp]: "valid_txid txid \<Longrightarrow> validate_txid_hex txid label = Inr ()"
  by (simp add: valid_txid_accepted)

lemma valid_bind [simp]: "valid_txid txid \<Longrightarrow> st_bind (st_lift (validate_txid_hex txid label)) f = f ()"
  using valid_txid_accepted[of txid label] by (intro ext) (simp add: st_bind_def)

lemma hexdigits_lower: "list_all (\<lambda>c. is_ascii_hexdigit (ascii_lower c)) ''0123456789abcdefABCDEF''"
  by code_simp

lemma hexdigit_lower: "is_ascii_hexdigit c \<Longrightarrow> is_ascii_hexdigit (ascii_lower c)"
  using hexdigits_lower unfolding list_all_iff is_ascii_hexdigit_def[of c] by blast

lemma valid_txid_lower: "valid_txid txid \<Longrightarrow> valid_txid (to_ascii_lowercase txid)"
  by (simp add: valid_txid_def to_ascii_lowercase_def list_all_length hexdigit_lower)

definition canonical_txid :: "string \<Rightarrow> bool" where
  "canonical_txid txid \<longleftrightarrow> valid_txid txid \<and> to_ascii_lowercase txid = txid"

lemma canonical_lower: "valid_txid txid \<Longrightarrow> canonical_txid (to_ascii_lowercase txid)"
  by (simp add: canonical_txid_def valid_txid_lower)

definition ids_ok :: "'t stage_db \<Rightarrow> bool" where
  "ids_ok db \<longleftrightarrow> (\<forall>r \<in> set (stage_rows db). canonical_txid (row_expected_txid_hex r))
     \<and> (\<forall>r \<in> set (input_rows db). canonical_txid (sir_txid_hex (inr_input r)))"

lemma empty_db_ids: "ids_ok empty_db"
  by (simp add: ids_ok_def empty_db_def)

section \<open>What validation of a batch establishes\<close>

lemma res_fold_each:
  assumes "res_fold f xs s = Inr s'" and "\<And>x s s'. x \<in> set xs \<Longrightarrow> f x s = Inr s' \<Longrightarrow> P x"
  shows "\<forall>x \<in> set xs. P x"
  using assms by (induction xs arbitrary: s) (auto simp: res_simps)

lemma validate_input_valid: "validate_input inp seen = Inr seen' \<Longrightarrow> valid_txid (sir_txid_hex inp)"
  by (auto simp: validate_input_def res_simps valid_txid_accepted)

lemma validate_stage_valid:
  assumes "validate_stage stage seen = Inr seen'"
  shows "valid_txid (ins_expected_txid_hex stage) \<and> (\<forall>inp \<in> set (ins_inputs stage). valid_txid (sir_txid_hex inp))"
proof -
  obtain a b c where seen: "seen = (a, b, c)" by (cases seen)
  from assms obtain outs where "validate_txid_hex (ins_expected_txid_hex stage) ''expected transaction ID'' = Inr ()"
    and fold: "res_fold validate_input (ins_inputs stage) c = Inr outs"
    by (auto simp: validate_stage_def seen res_simps split: if_splits)
  moreover have "\<forall>inp \<in> set (ins_inputs stage). valid_txid (sir_txid_hex inp)"
    by (rule res_fold_each[OF fold]) (rule validate_input_valid)
  ultimately show ?thesis by (simp add: valid_txid_accepted)
qed

lemma validate_batch_valid:
  assumes "validate_stage_batch run_id batch = Inr ()" and "stage \<in> set batch"
  shows "valid_txid (ins_expected_txid_hex stage)" "\<forall>inp \<in> set (ins_inputs stage). valid_txid (sir_txid_hex inp)"
proof -
  from assms(1) obtain s where fold: "res_fold validate_stage batch ({}, {}, {}) = Inr s"
    by (auto simp: validate_stage_batch_def res_simps split: if_splits)
  have "\<forall>stage \<in> set batch. valid_txid (ins_expected_txid_hex stage)
      \<and> (\<forall>inp \<in> set (ins_inputs stage). valid_txid (sir_txid_hex inp))"
    by (rule res_fold_each[OF fold]) (rule validate_stage_valid)
  with assms(2) show "valid_txid (ins_expected_txid_hex stage)"
    "\<forall>inp \<in> set (ins_inputs stage). valid_txid (sir_txid_hex inp)" by auto
qed

section \<open>Operations keep the identifiers canonical\<close>

lemma ids_insert_stage_row [store_keeps]:
  "canonical_txid (row_expected_txid_hex row) \<Longrightarrow> keeps ids_ok (insert_stage_row row)"
  by (auto simp: keeps_def insert_stage_row_def ids_ok_def)

lemma ids_insert_input_row [store_keeps]:
  "canonical_txid (sir_txid_hex (inr_input row)) \<Longrightarrow> keeps ids_ok (insert_input_row row)"
  by (auto simp: keeps_def insert_input_row_def ids_ok_def)

lemma ids_insert_output_row [store_keeps]: "keeps ids_ok (insert_output_row row)"
  by (auto simp: keeps_def insert_output_row_def ids_ok_def)

lemma ids_update [store_keeps]:
  assumes "keeps_identity f"
  shows "keeps ids_ok (update_stages p f)"
  using assms by (auto simp: keeps_def update_stages_def Let_def ids_ok_def keeps_identity_def stage_txid_def)

lemma ids_insert_stage:
  assumes "valid_txid (ins_expected_txid_hex stage)" and "\<forall>inp \<in> set (ins_inputs stage). valid_txid (sir_txid_hex inp)"
  shows "keeps ids_ok (insert_stage lib nonce run_id password salt stage)"
proof -
  have "canonical_txid (to_ascii_lowercase (ins_expected_txid_hex stage))"
    using assms(1) by (rule canonical_lower)
  moreover have "keeps ids_ok (insert_input run_id i oi)" if "oi \<in> set (enumerate 0 (ins_inputs stage))" for i oi
  proof -
    from that have "snd oi \<in> set (ins_inputs stage)" by (metis in_set_zip enumerate_eq_zip nth_mem)
    with assms(2) have "canonical_txid (to_ascii_lowercase (sir_txid_hex (snd oi)))" by (simp add: canonical_lower)
    then show ?thesis
      by (auto simp: insert_input_def lower_input_def split: prod.splits intro!: keeps_bind keeps_context ids_insert_input_row)
  qed
  moreover have "keeps ids_ok (insert_output run_id i oo)" for i oo
    by (auto simp: insert_output_def split: prod.splits intro!: keeps_bind keeps_context ids_insert_output_row)
  ultimately show ?thesis
    unfolding insert_stage_def Let_def
    by (intro keeps_bind keeps_basic keeps_context keeps_each ids_insert_stage_row) simp_all
qed

lemma keeps_if_lift: "(r = Inr () \<Longrightarrow> keeps P (f ())) \<Longrightarrow> keeps P (st_bind (st_lift r) f)"
  by (cases r) (auto simp: keeps_def st_bind_def)

lemma ids_insert_batch [store_keeps]:
  "keeps ids_ok (insert_denomination_stages_with_tx lib nonce run_id batch password salt_base64)"
  unfolding insert_denomination_stages_with_tx_def
  by (rule keeps_if_lift)
    (intro keeps_bind keeps_basic keeps_savepoint keeps_each ids_insert_stage validate_batch_valid)

lemma ids_promote [store_keeps]:
  "keeps ids_ok (promote_awaiting_denomination_stage lib nonce run_id i txid raw_tx password salt_base64)"
  unfolding promote_awaiting_denomination_stage_def
  by (auto intro!: keeps_bind keeps_context ids_update simp: keeps_identity_def stage_key_def stage_txid_def)

lemma ids_broadcasted [store_keeps]: "keeps ids_ok (mark_denomination_stage_broadcasted run_id txid)"
  unfolding mark_denomination_stage_broadcasted_def transition_stage_def Let_def
  by (auto intro!: keeps_bind keeps_context ids_update keeps_read simp: keeps_identity_def stage_key_def stage_txid_def)

lemma ids_confirmed [store_keeps]:
  "keeps ids_ok (mark_denomination_stage_confirmed_at run_id txid mined_height block_hash)"
  unfolding mark_denomination_stage_confirmed_at_def Let_def
  by (auto intro!: keeps_bind keeps_context ids_update keeps_read simp: keeps_identity_def stage_key_def stage_txid_def)

lemma ids_replace [store_keeps]:
  "keeps ids_ok (replace_denomination_stage_confirmation_identity run_id txid mined_height block_hash)"
  unfolding replace_denomination_stage_confirmation_identity_def
  by (auto intro!: keeps_bind keeps_context ids_update simp: keeps_identity_def stage_key_def stage_txid_def)

lemma ids_reset [store_keeps]: "keeps ids_ok (reset_denomination_stage_exact run_id txid)"
  unfolding reset_denomination_stage_exact_def
  by (auto intro!: keeps_bind keeps_context ids_update simp: keeps_identity_def stage_key_def stage_txid_def)

lemma stage_step_ids: "stage_step lib db db' \<Longrightarrow> ids_ok db \<Longrightarrow> ids_ok db'"
  by (erule stage_stepE) (auto elim!: keepsD[rotated 2] intro!: store_keeps)

lemma stage_steps_ids: "(stage_step lib)\<^sup>*\<^sup>* db db' \<Longrightarrow> ids_ok db \<Longrightarrow> ids_ok db'"
  by (induction rule: rtranclp_induct) (auto intro: stage_step_ids)

end
