(* ===== verification/Stage_Phases.thy ===== *)
theory Stage_Phases
  imports Stage_Ids
begin

text \<open>
  The life of one stage as an abstract machine: the phase a stage is in, the moves its owner may
  make, and the proof that the guarded SQL updates of \<open>Stage_Ops\<close> implement them. The contract
  the callers rely on is the locale \<open>stage_lifecycle\<close>, interpreted on the updates.
\<close>

section \<open>Phases and moves\<close>

datatype stage_phase = Waiting | Ready | Sent | Included height "byte list"

definition row_phase :: "'t stage_row \<Rightarrow> stage_phase" where
  "row_phase r =
     (if row_status r = ''awaiting_inputs'' then Waiting
      else if row_status r = ''pending'' then Ready
      else if row_status r = ''broadcasted'' then Sent
      else Included (the (row_confirmed_mined_height r)) (the (row_confirmed_block_hash r)))"

type_synonym stage_id = "string \<times> string"

definition phases :: "'t stage_db \<Rightarrow> stage_id \<rightharpoonup> stage_phase" where
  "phases db k = map_option row_phase (find_stage db (fst k) (snd k))"

text \<open>A move: whether it is accepted, and the phase it leads to.\<close>

fun broadcast_move :: "stage_phase \<Rightarrow> stage_phase option" where
  "broadcast_move Waiting = None"
| "broadcast_move Ready = Some Sent"
| "broadcast_move Sent = Some Sent"
| "broadcast_move (Included h b) = Some (Included h b)"

fun confirm_move :: "height \<Rightarrow> byte list \<Rightarrow> stage_phase \<Rightarrow> stage_phase option" where
  "confirm_move h b Waiting = None"
| "confirm_move h b Ready = Some (Included h b)"
| "confirm_move h b Sent = Some (Included h b)"
| "confirm_move h b (Included h' b') = (if h = h' \<and> b = b' then Some (Included h b) else None)"

definition include_move :: "height \<Rightarrow> byte list \<Rightarrow> stage_phase \<Rightarrow> stage_phase option" where
  "include_move h b p = Some (Included h b)"

definition reset_move :: "stage_phase \<Rightarrow> stage_phase option" where
  "reset_move p = Some Waiting"

text \<open>
  An operation implements a move of the stage \<open>k\<close>: it succeeds exactly when the stage exists and
  the move is accepted, then changes the phase of this stage and of no other, and a refused call
  leaves the database as it was.
\<close>

definition implements_move ::
    "stage_id \<Rightarrow> ('t stage_db, unit) store_op \<Rightarrow> (stage_phase \<Rightarrow> stage_phase option) \<Rightarrow> bool" where
  "implements_move k op move \<longleftrightarrow>
     (\<forall>db. store_ok db \<longrightarrow>
        (case Option.bind (phases db k) move of
           None \<Rightarrow> (\<exists>e. op db = (Inl e, db))
         | Some p \<Rightarrow> (\<exists>db'. op db = (Inr (), db') \<and> phases db' = (phases db)(k \<mapsto> p))))"

section \<open>Updates of one stage\<close>

lemma find_stage_unique:
  assumes "store_ok db"
  shows "find_stage db run txid = Some r \<longleftrightarrow> r \<in> set (stage_rows db) \<and> row_run_id r = run \<and> row_expected_txid_hex r = txid"
proof -
  have d: "distinct (map stage_txid (stage_rows db))" using assms by (simp add: store_ok_def)
  have "find (\<lambda>r. row_run_id r = run \<and> row_expected_txid_hex r = txid) rows = Some r
      \<longleftrightarrow> r \<in> set rows \<and> row_run_id r = run \<and> row_expected_txid_hex r = txid"
    if "distinct (map stage_txid rows)" for rows
    using that by (induction rows) (auto simp: stage_txid_def)
  from this[OF d] show ?thesis by (simp add: find_stage_def)
qed

lemma find_map_other:
  "(\<And>r. r \<in> set rows \<Longrightarrow> Q r \<Longrightarrow> g r = r) \<Longrightarrow> (\<And>r. r \<in> set rows \<Longrightarrow> Q (g r) \<longleftrightarrow> Q r)
    \<Longrightarrow> find Q (map g rows) = find Q rows"
  by (induction rows) auto

lemma update_none:
  assumes ok: "store_ok db" and p: "\<And>r. p r \<Longrightarrow> row_run_id r = run \<and> row_expected_txid_hex r = txid"
    and none: "\<And>r. find_stage db run txid = Some r \<Longrightarrow> \<not> p r"
  shows "update_stages p f db = (Inr 0, db)"
proof -
  have "\<not> p r" if "r \<in> set (stage_rows db)" for r
    using that p none find_stage_unique[OF ok, of run txid] by blast
  then have "map (\<lambda>r. if p r then f r else r) (stage_rows db) = stage_rows db" "filter p (stage_rows db) = []"
    by (simp_all add: map_idI filter_empty_conv)
  then show ?thesis using ok by (simp add: update_stages_def store_ok_def)
qed

lemma update_some:
  assumes ok: "store_ok db" and p: "\<And>r. p r \<Longrightarrow> row_run_id r = run \<and> row_expected_txid_hex r = txid"
    and r: "find_stage db run txid = Some r" "p r" and f: "keeps_identity f" "stage_row_checks (f r)"
  shows "\<exists>db'. update_stages p f db = (Inr 1, db') \<and> store_ok db'
    \<and> find_stage db' run txid = Some (f r)
    \<and> (\<forall>run' txid'. (run', txid') \<noteq> (run, txid) \<longrightarrow> find_stage db' run' txid' = find_stage db run' txid')"
proof -
  let ?g = "\<lambda>x. if p x then f x else x"
  let ?db = "db\<lparr>stage_rows := map ?g (stage_rows db)\<rparr>"
  have rr: "r \<in> set (stage_rows db)" "row_run_id r = run" "row_expected_txid_hex r = txid"
    using r(1) find_stage_unique[OF ok] by blast+
  have only: "p x \<longleftrightarrow> x = r" if "x \<in> set (stage_rows db)" for x
  proof
    assume "p x"
    with p that have "find_stage db run txid = Some x" using find_stage_unique[OF ok] by blast
    with r(1) show "x = r" by simp
  qed (use r in simp)
  have id: "row_run_id (f x) = row_run_id x" "row_expected_txid_hex (f x) = row_expected_txid_hex x" for x
    using f(1) by (auto simp: keeps_identity_def stage_txid_def)
  have "distinct (stage_rows db)" using ok by (auto simp: store_ok_def distinct_map)
  then have "length (filter p (stage_rows db)) = 1"
    using only rr(1) by (simp add: filter_cong[of _ _ p "\<lambda>x. x = r"] distinct_length_filter)
  moreover have "\<forall>x \<in> set (map ?g (stage_rows db)). stage_row_checks x"
    using ok only f(2) by (auto simp: store_ok_def)
  ultimately have u: "update_stages p f db = (Inr 1, ?db)" by (simp add: update_stages_def Let_def)
  have ok': "store_ok ?db" using keepsD[OF keeps_update[OF f(1)] ok u] .
  have "find_stage ?db run txid = Some (f r)"
    using find_stage_unique[OF ok'] rr r(2) id by (force simp: image_iff)
  moreover have "find_stage ?db run' txid' = find_stage db run' txid'" if "(run', txid') \<noteq> (run, txid)" for run' txid'
    unfolding find_stage_def using that only rr id by (auto intro!: find_map_other)
  ultimately show ?thesis using u ok' by blast
qed


section \<open>The updates implement the moves\<close>

text \<open>The shape the updates share: one guarded statement, then a look at why it changed nothing.\<close>

definition guarded_update ::
    "string \<Rightarrow> ('t stage_row \<Rightarrow> bool) \<Rightarrow> ('t stage_row \<Rightarrow> 't stage_row) \<Rightarrow> ('t stage_db, unit) store_op
      \<Rightarrow> ('t stage_db, unit) store_op" where
  "guarded_update label p f otherwise =
     st_bind (st_context label (update_stages p f)) (\<lambda>updated. if updated = 1 then st_return () else otherwise)"

lemma phases_eqI:
  assumes "\<And>run txid. find_stage db' run txid = find_stage db run txid \<or> (run, txid) = k"
    and "find_stage db' (fst k) (snd k) = Some r"
  shows "phases db' = (phases db)(k \<mapsto> row_phase r)"
proof
  fix k'
  show "phases db' k' = ((phases db)(k \<mapsto> row_phase r)) k'"
    using assms(1)[of "fst k'" "snd k'"] assms(2) by (cases "k' = k") (auto simp: phases_def)
qed

lemma guarded_hit:
  assumes "store_ok db" and "\<And>r. p r \<Longrightarrow> row_run_id r = run \<and> row_expected_txid_hex r = txid"
    and "find_stage db run txid = Some r" "p r" and "keeps_identity f" "stage_row_checks (f r)"
  shows "\<exists>db'. guarded_update label p f otherwise db = (Inr (), db')
    \<and> phases db' = (phases db)((run, txid) \<mapsto> row_phase (f r))"
proof -
  obtain db' where u: "update_stages p f db = (Inr 1, db')" and r': "find_stage db' run txid = Some (f r)"
    and other: "\<And>run' txid'. (run', txid') \<noteq> (run, txid) \<Longrightarrow> find_stage db' run' txid' = find_stage db run' txid'"
    using update_some[where p = p and f = f and run = run and txid = txid, OF assms] by blast
  have "guarded_update label p f otherwise db = (Inr (), db')"
    using u by (simp add: guarded_update_def st_bind_def st_context_def)
  moreover have "phases db' = (phases db)((run, txid) \<mapsto> row_phase (f r))"
  proof (rule phases_eqI)
    show "find_stage db' run' txid' = find_stage db run' txid' \<or> (run', txid') = (run, txid)" for run' txid'
      using other[of run' txid'] by blast
  qed (simp add: r')
  ultimately show ?thesis by blast
qed

lemma guarded_miss:
  assumes "store_ok db" and "\<And>r. p r \<Longrightarrow> row_run_id r = run \<and> row_expected_txid_hex r = txid"
    and "\<And>r. find_stage db run txid = Some r \<Longrightarrow> \<not> p r"
  shows "guarded_update label p f otherwise db = otherwise db"
  using update_none[where p = p and run = run and txid = txid, OF assms]
  by (simp add: guarded_update_def st_bind_def st_context_def)

text \<open>The row of a stage meets its CHECK clauses; the status determines what is stored.\<close>

lemma found_row:
  assumes "store_ok db" and "find_stage db run txid = Some r"
  shows "stage_row_checks r" "row_run_id r = run" "row_expected_txid_hex r = txid"
  using assms find_stage_unique[OF assms(1), of run txid r] by (auto simp: store_ok_def)

lemma phase_cases:
  assumes "stage_row_checks r"
  obtains (waiting) "row_phase r = Waiting" "row_status r = ''awaiting_inputs''" "row_encrypted_raw_tx r = None"
  | (ready) "row_phase r = Ready" "row_status r = ''pending''" "row_encrypted_raw_tx r \<noteq> None"
      "stage_row_checks (r\<lparr>row_status := ''broadcasted''\<rparr>)"
  | (sent) "row_phase r = Sent" "row_status r = ''broadcasted''" "row_encrypted_raw_tx r \<noteq> None"
  | (included) h b where "row_phase r = Included h b" "row_status r = ''confirmed''"
      "row_confirmed_mined_height r = Some h" "row_confirmed_block_hash r = Some b"
  using assms unfolding stage_row_checks_def row_phase_def by (auto split: option.splits)

lemma status_parses:
  "status_parse ''awaiting_inputs'' = Inr AwaitingInputs" "status_parse ''pending'' = Inr Pending"
  "status_parse ''broadcasted'' = Inr Broadcasted" "status_parse ''confirmed'' = Inr Confirmed"
  by (simp_all add: status_parse_def)

lemmas stage_updates = mark_denomination_stage_broadcasted_def transition_stage_def
  mark_denomination_stage_confirmed_at_def replace_denomination_stage_confirmation_identity_def
  reset_denomination_stage_exact_def

lemma identity_kept [simp]:
  "keeps_identity (\<lambda>r. r\<lparr>row_status := s\<rparr>)"
  "keeps_identity (\<lambda>r. r\<lparr>row_status := s, row_confirmed_mined_height := h, row_confirmed_block_hash := b\<rparr>)"
  "keeps_identity (\<lambda>r. r\<lparr>row_encrypted_raw_tx := t, row_status := s,
      row_confirmed_mined_height := h, row_confirmed_block_hash := b\<rparr>)"
  "keeps_identity (\<lambda>r. r\<lparr>row_encrypted_raw_tx := t, row_status := s\<rparr>)"
  by (simp_all add: keeps_identity_def stage_key_def stage_txid_def)

lemma implements_moveI:
  assumes miss: "\<And>db. store_ok db \<Longrightarrow> find_stage db (fst k) (snd k) = None \<Longrightarrow> \<exists>e. op db = (Inl e, db)"
    and refuse: "\<And>db r. store_ok db \<Longrightarrow> find_stage db (fst k) (snd k) = Some r \<Longrightarrow> stage_row_checks r
        \<Longrightarrow> move (row_phase r) = None \<Longrightarrow> \<exists>e. op db = (Inl e, db)"
    and accept: "\<And>db r p. store_ok db \<Longrightarrow> find_stage db (fst k) (snd k) = Some r \<Longrightarrow> stage_row_checks r
        \<Longrightarrow> move (row_phase r) = Some p \<Longrightarrow> \<exists>db'. op db = (Inr (), db') \<and> phases db' = (phases db)(k \<mapsto> p)"
  shows "implements_move k op move"
  unfolding implements_move_def
proof (intro allI impI)
  fix db :: "'a stage_db"
  assume ok: "store_ok db"
  show "case Option.bind (phases db k) move of None \<Rightarrow> \<exists>e. op db = (Inl e, db)
    | Some p \<Rightarrow> \<exists>db'. op db = (Inr (), db') \<and> phases db' = (phases db)(k \<mapsto> p)"
  proof (cases "find_stage db (fst k) (snd k)")
    case None
    with ok miss show ?thesis by (simp add: phases_def)
  next
    case (Some r)
    then have "phases db k = Some (row_phase r)" by (simp add: phases_def)
    moreover have "stage_row_checks r" using found_row[OF ok Some] by simp
    ultimately show ?thesis
      using refuse[OF ok Some] accept[OF ok Some] by (cases "move (row_phase r)") simp_all
  qed
qed


lemma row_phase_updates [simp]:
  "row_phase (r\<lparr>row_status := ''broadcasted''\<rparr>) = Sent"
  "row_phase (r\<lparr>row_status := ''confirmed'', row_confirmed_mined_height := Some h, row_confirmed_block_hash := Some b\<rparr>)
    = Included h b"
  "row_phase (r\<lparr>row_encrypted_raw_tx := t, row_status := ''awaiting_inputs'',
      row_confirmed_mined_height := h', row_confirmed_block_hash := b'\<rparr>) = Waiting"
  "row_phase (r\<lparr>row_encrypted_raw_tx := t, row_status := ''pending''\<rparr>) = Ready"
  by (simp_all add: row_phase_def)

lemma row_checks_updates [simp]:
  "length b = 32 \<Longrightarrow> stage_row_checks
    (r\<lparr>row_status := ''confirmed'', row_confirmed_mined_height := Some h, row_confirmed_block_hash := Some b\<rparr>)"
  "stage_row_checks (r\<lparr>row_encrypted_raw_tx := None, row_status := ''awaiting_inputs'',
      row_confirmed_mined_height := None, row_confirmed_block_hash := None\<rparr>)"
  by (simp_all add: stage_row_checks_def)

lemma phases_same: "find_stage db (fst k) (snd k) = Some r \<Longrightarrow> phases db = (phases db)(k \<mapsto> row_phase r)"
  by (rule ext) (auto simp: phases_def)

text \<open>One proof for all guarded updates: what the guard admits and what is done when it admits nothing.\<close>

lemma guarded_implements:
  fixes p :: "'t stage_row \<Rightarrow> bool"
  assumes pid: "\<And>r. p r \<Longrightarrow> row_run_id r = run \<and> row_expected_txid_hex r = txid" and f: "keeps_identity f"
    and hit: "\<And>r. stage_row_checks r \<Longrightarrow> p r \<Longrightarrow> stage_row_checks (f r) \<and> move (row_phase r) = Some (row_phase (f r))"
    and none: "\<And>db. find_stage db run txid = None \<Longrightarrow> \<exists>e. otherwise db = (Inl e, db)"
    and miss: "\<And>db r. find_stage db run txid = Some r \<Longrightarrow> stage_row_checks r \<Longrightarrow> row_run_id r = run
        \<Longrightarrow> row_expected_txid_hex r = txid \<Longrightarrow> \<not> p r \<Longrightarrow>
        (\<exists>e. otherwise db = (Inl e, db) \<and> move (row_phase r) = None)
        \<or> (otherwise db = (Inr (), db) \<and> move (row_phase r) = Some (row_phase r))"
  shows "implements_move (run, txid) (guarded_update label p f otherwise) move"
proof (rule implements_moveI, unfold fst_conv snd_conv)
  fix db :: "'t stage_db" assume ok: "store_ok db" and "find_stage db run txid = None"
  then show "\<exists>e. guarded_update label p f otherwise db = (Inl e, db)"
    using guarded_miss[where p = p and run = run and txid = txid, OF ok pid] none by simp
next
  fix db :: "'t stage_db" and r assume ok: "store_ok db" and r: "find_stage db run txid = Some r"
    and c: "stage_row_checks r" and m: "move (row_phase r) = None"
  note id = found_row(2,3)[OF ok r]
  have np: "\<not> p r" using hit[OF c] m by auto
  with miss[OF r c id] m obtain e where e: "otherwise db = (Inl e, db)" by auto
  have "guarded_update label p f otherwise db = otherwise db"
    by (rule guarded_miss[where p = p and run = run and txid = txid, OF ok pid]) (use np r in auto)
  with e show "\<exists>e. guarded_update label p f otherwise db = (Inl e, db)" by simp
next
  fix db :: "'t stage_db" and r ph assume ok: "store_ok db" and r: "find_stage db run txid = Some r"
    and c: "stage_row_checks r" and m: "move (row_phase r) = Some ph"
  note id = found_row(2,3)[OF ok r]
  show "\<exists>db'. guarded_update label p f otherwise db = (Inr (), db') \<and> phases db' = (phases db)((run, txid) \<mapsto> ph)"
  proof (cases "p r")
    case True
    have h: "stage_row_checks (f r)" "ph = row_phase (f r)" using hit[OF c True] m by simp_all
    show ?thesis
      using guarded_hit[where p = p and f = f and r = r and run = run and txid = txid, OF ok pid r True f h(1)] h(2) by simp
  next
    case False
    with miss[OF r c id] m have o: "otherwise db = (Inr (), db)" "ph = row_phase r" by auto
    have "guarded_update label p f otherwise db = otherwise db"
      by (rule guarded_miss[where p = p and run = run and txid = txid, OF ok pid]) (use False r in auto)
    with o show ?thesis using phases_same[of db "(run, txid)" r] r by simp
  qed
qed

lemma broadcast_implements:
  assumes "valid_txid txid"
  shows "implements_move (run, to_ascii_lowercase txid) (mark_denomination_stage_broadcasted run txid) broadcast_move"
  apply (simp only: stage_updates Let_def valid_bind[OF assms] guarded_update_def[symmetric] simp_thms if_False)
  apply (rule guarded_implements[where run = run and txid = "to_ascii_lowercase txid"])
  apply simp
  apply (simp add: status_as_str_def)
  apply (erule phase_cases; simp add: status_as_str_def)
  apply simp
  apply (erule phase_cases; simp add: status_parses)
  done

lemma confirm_implements:
  assumes "valid_txid txid" and "length block_hash = 32"
  shows "implements_move (run, to_ascii_lowercase txid)
    (mark_denomination_stage_confirmed_at run txid mined_height block_hash) (confirm_move mined_height block_hash)"
  apply (simp only: stage_updates Let_def valid_bind[OF assms(1)] guarded_update_def[symmetric] simp_thms if_False)
  apply (rule guarded_implements[where run = run and txid = "to_ascii_lowercase txid"])
  apply blast
  apply simp
  apply (erule phase_cases; simp add: assms)
  apply simp
  apply (erule phase_cases; simp add: status_parses; blast)
  done

lemma include_implements:
  assumes "valid_txid txid" and "length block_hash = 32"
  shows "implements_move (run, to_ascii_lowercase txid)
    (replace_denomination_stage_confirmation_identity run txid mined_height block_hash) (include_move mined_height block_hash)"
  apply (simp only: stage_updates Let_def valid_bind[OF assms(1)] guarded_update_def[symmetric] simp_thms if_False)
  apply (rule guarded_implements[where run = run and txid = "to_ascii_lowercase txid"])
  apply blast
  apply simp
  apply (simp add: assms include_move_def)
  apply simp
  apply (erule phase_cases; simp)
  done

lemma reset_implements:
  assumes "valid_txid txid"
  shows "implements_move (run, to_ascii_lowercase txid) (reset_denomination_stage_exact run txid) reset_move"
  apply (simp only: stage_updates Let_def valid_bind[OF assms(1)] guarded_update_def[symmetric] simp_thms if_False)
  apply (rule guarded_implements[where run = run and txid = "to_ascii_lowercase txid"])
  apply blast
  apply simp
  apply (simp add: reset_move_def)
  apply simp
  apply simp
  done

text \<open>Promotion also names the stage by its index and needs the salt and the cipher to work.\<close>

lemma promote_implements:
  fixes run :: string
  assumes "store_ok db" and txid: "valid_txid txid" and raw: "raw_tx \<noteq> []"
    and salt: "decode_base64 lib salt_base64 ''migration denomination stage salt'' = Inr salt"
    and sealed: "encrypt_payload lib nonce raw_tx password salt = Inr sealed"
  defines "k \<equiv> (run, to_ascii_lowercase txid)"
  shows "if phases db k = Some Waiting \<and> map_option row_stage_index (find_stage db run (to_ascii_lowercase txid)) = Some i
    then \<exists>db'. promote_awaiting_denomination_stage lib nonce run i txid raw_tx password salt_base64 db = (Inr (), db')
           \<and> phases db' = (phases db)(k \<mapsto> Ready)
    else \<exists>e. promote_awaiting_denomination_stage lib nonce run i txid raw_tx password salt_base64 db = (Inl e, db)"
proof -
  let ?t = "to_ascii_lowercase txid"
  let ?p = "\<lambda>r. row_run_id r = run \<and> row_stage_index r = i \<and> row_expected_txid_hex r = ?t
      \<and> row_status r = ''awaiting_inputs'' \<and> row_encrypted_raw_tx r = None"
  let ?f = "\<lambda>r. r\<lparr>row_encrypted_raw_tx := Some sealed, row_status := ''pending''\<rparr>"
  let ?label = "''Promote awaiting migration denomination stage: {e}''"
  define refused :: "('a stage_db, unit) store_op" where "refused = st_fail (Message
         ''Migration denomination stage {stage_index} is missing, has a different txid, or is not awaiting inputs''
         [ANat i])"
  have op: "promote_awaiting_denomination_stage lib nonce run i txid raw_tx password salt_base64 db
      = guarded_update ?label ?p ?f refused db"
    by (simp add: promote_awaiting_denomination_stage_def txid raw salt sealed st_bind_eq(1) guarded_update_def
        refused_def)
  have pid: "?p r \<Longrightarrow> row_run_id r = run \<and> row_expected_txid_hex r = ?t" for r :: "'a stage_row" by blast
  show ?thesis
  proof (cases "\<exists>r. find_stage db run ?t = Some r \<and> ?p r")
    case True
    then obtain r where r: "find_stage db run ?t = Some r" "?p r" by blast
    have "stage_row_checks r" using found_row(1)[OF assms(1) r(1)] .
    with r(2) have "stage_row_checks (?f r)" by (simp add: stage_row_checks_def)
    from guarded_hit[where p = ?p and f = ?f and run = run and txid = ?t, OF assms(1) pid r identity_kept(4) this]
    obtain db' where "guarded_update ?label ?p ?f refused db = (Inr (), db')" "phases db' = (phases db)(k \<mapsto> Ready)"
      by (auto simp: k_def)
    moreover have "phases db k = Some Waiting" using r by (simp add: phases_def k_def row_phase_def)
    ultimately show ?thesis using r by (auto simp: op)
  next
    case False
    have "guarded_update ?label ?p ?f refused db = refused db"
      by (rule guarded_miss[where p = ?p and run = run and txid = ?t, OF assms(1) pid]) (use False in auto)
    moreover have "\<not> (phases db k = Some Waiting \<and> map_option row_stage_index (find_stage db run ?t) = Some i)"
    proof
      assume *: "phases db k = Some Waiting \<and> map_option row_stage_index (find_stage db run ?t) = Some i"
      then obtain r where r: "find_stage db run ?t = Some r" "row_phase r = Waiting" "row_stage_index r = i"
        by (auto simp: phases_def k_def)
      from found_row[OF assms(1) r(1)] have "stage_row_checks r" "row_run_id r = run" "row_expected_txid_hex r = ?t" .
      with r have "?p r" by (auto elim: phase_cases)
      with r(1) False show False by blast
    qed
    ultimately show ?thesis by (auto simp: op refused_def)
  qed
qed

section \<open>The contract of the stage store\<close>

text \<open>
  What the reconciliation with the chain relies on when it resets and includes stages: each call on
  a known stage succeeds, keeps the store well formed, and moves this stage only.
\<close>

locale stage_lifecycle =
  fixes ok :: "'db \<Rightarrow> bool" and view :: "'db \<Rightarrow> stage_id \<Rightarrow> stage_phase option"
    and reset :: "string \<Rightarrow> string \<Rightarrow> ('db, unit) store_op"
    and incl :: "string \<Rightarrow> string \<Rightarrow> height \<Rightarrow> byte list \<Rightarrow> ('db, unit) store_op"
  assumes reset_law: "ok db \<Longrightarrow> view db (run, t) \<noteq> None \<Longrightarrow>
      \<exists>db'. reset run t db = (Inr (), db') \<and> ok db' \<and> view db' = (view db)((run, t) \<mapsto> Waiting)"
    and incl_law: "ok db \<Longrightarrow> view db (run, t) \<noteq> None \<Longrightarrow> length b = 32 \<Longrightarrow>
      \<exists>db'. incl run t h b db = (Inr (), db') \<and> ok db' \<and> view db' = (view db)((run, t) \<mapsto> Included h b)"
begin

lemma reset_each:
  assumes "ok db" and "\<forall>t \<in> set ts. view db (run, t) \<noteq> None"
  shows "\<exists>db'. st_each (reset run) ts db = (Inr (), db') \<and> ok db'
    \<and> view db' = (\<lambda>k. if fst k = run \<and> snd k \<in> set ts then Some Waiting else view db k)"
  using assms
proof (induction ts arbitrary: db)
  case (Cons t ts)
  obtain db1 where 1: "reset run t db = (Inr (), db1)" "ok db1" "view db1 = (view db)((run, t) \<mapsto> Waiting)"
    using reset_law[OF Cons.prems(1), of run t] Cons.prems(2) by auto
  have "\<forall>t \<in> set ts. view db1 (run, t) \<noteq> None" using Cons.prems(2) by (simp add: 1(3))
  from Cons.IH[OF 1(2) this] obtain db2 where "st_each (reset run) ts db1 = (Inr (), db2)" "ok db2"
    "view db2 = (\<lambda>k. if fst k = run \<and> snd k \<in> set ts then Some Waiting else view db1 k)" by blast
  then show ?case using 1 by (auto simp: st_bind_def fun_eq_iff)
qed auto

lemma incl_each:
  assumes "ok db" and "\<forall>(t, h, b) \<in> set ids. view db (run, t) \<noteq> None \<and> length b = 32" and "distinct (map fst ids)"
  shows "\<exists>db'. st_each (\<lambda>(t, h, b). incl run t h b) ids db = (Inr (), db') \<and> ok db'
    \<and> view db' = (\<lambda>k. case (if fst k = run then map_of ids (snd k) else None) of
          Some (h, b) \<Rightarrow> Some (Included h b) | None \<Rightarrow> view db k)"
  using assms
proof (induction ids arbitrary: db)
  case (Cons i ids)
  obtain t h b where i: "i = (t, h, b)" by (cases i)
  obtain db1 where 1: "incl run t h b db = (Inr (), db1)" "ok db1" "view db1 = (view db)((run, t) \<mapsto> Included h b)"
    using incl_law[OF Cons.prems(1), of run t b h] Cons.prems(2) by (auto simp: i)
  have "\<forall>(t, h, b) \<in> set ids. view db1 (run, t) \<noteq> None \<and> length b = 32" using Cons.prems(2) by (auto simp: 1(3))
  moreover have d: "distinct (map fst ids)" "map_of ids t = None"
    using Cons.prems(3) by (auto simp: i map_of_eq_None_iff)
  ultimately obtain db2 where "st_each (\<lambda>(t, h, b). incl run t h b) ids db1 = (Inr (), db2)" "ok db2"
    "view db2 = (\<lambda>k. case (if fst k = run then map_of ids (snd k) else None) of
          Some (h, b) \<Rightarrow> Some (Included h b) | None \<Rightarrow> view db1 k)" using Cons.IH[OF 1(2)] by blast
  then show ?case using 1 d(2) by (auto simp: i st_bind_def fun_eq_iff split: option.splits)
qed auto

end

definition stages_ok :: "'t stage_db \<Rightarrow> bool" where
  "stages_ok db \<longleftrightarrow> store_ok db \<and> ids_ok db"

lemma stages_ok_keeps:
  "keeps store_ok op \<Longrightarrow> keeps ids_ok op \<Longrightarrow> stages_ok db \<Longrightarrow> op db = (r, db') \<Longrightarrow> stages_ok db'"
  unfolding stages_ok_def by (blast intro: keepsD)

lemma known_canonical:
  assumes "stages_ok db" and "phases db (run, t) \<noteq> None"
  shows "valid_txid t" "to_ascii_lowercase t = t"
proof -
  from assms(2) obtain r where "find_stage db run t = Some r" by (auto simp: phases_def)
  with assms(1) have "r \<in> set (stage_rows db)" "row_expected_txid_hex r = t"
    using find_stage_unique[of db run t r] by (auto simp: stages_ok_def)
  with assms(1) show "valid_txid t" "to_ascii_lowercase t = t"
    by (auto simp: stages_ok_def ids_ok_def canonical_txid_def)
qed

lemma implements_moveD:
  assumes "implements_move k op move" and "store_ok db" and "phases db k = Some p" and "move p = Some q"
  shows "\<exists>db'. op db = (Inr (), db') \<and> phases db' = (phases db)(k \<mapsto> q)"
  using assms by (auto simp: implements_move_def)

interpretation stages: stage_lifecycle stages_ok phases reset_denomination_stage_exact
    replace_denomination_stage_confirmation_identity
proof
  fix db :: "'a stage_db" and run t
  assume ok: "stages_ok db" and known: "phases db (run, t) \<noteq> None"
  note t = known_canonical[OF ok known]
  from known obtain p where p: "phases db (run, t) = Some p" by blast
  have s: "store_ok db" using ok by (simp add: stages_ok_def)
  obtain db' where "reset_denomination_stage_exact run t db = (Inr (), db')" "phases db' = (phases db)((run, t) \<mapsto> Waiting)"
    using implements_moveD[OF reset_implements[OF t(1), of run] s, of p Waiting] p by (auto simp: t(2) reset_move_def)
  then show "\<exists>db'. reset_denomination_stage_exact run t db = (Inr (), db') \<and> stages_ok db'
      \<and> phases db' = (phases db)((run, t) \<mapsto> Waiting)"
    using stages_ok_keeps[OF keeps_reset ids_reset ok] by blast
next
  fix db :: "'a stage_db" and run t and b :: "byte list" and h
  assume ok: "stages_ok db" and known: "phases db (run, t) \<noteq> None" and b: "length b = 32"
  note t = known_canonical[OF ok known]
  from known obtain p where p: "phases db (run, t) = Some p" by blast
  have s: "store_ok db" using ok by (simp add: stages_ok_def)
  obtain db' where "replace_denomination_stage_confirmation_identity run t h b db = (Inr (), db')"
      "phases db' = (phases db)((run, t) \<mapsto> Included h b)"
    using implements_moveD[OF include_implements[OF t(1) b, of run h] s, of p "Included h b"] p
    by (auto simp: t(2) include_move_def)
  then show "\<exists>db'. replace_denomination_stage_confirmation_identity run t h b db = (Inr (), db') \<and> stages_ok db'
      \<and> phases db' = (phases db)((run, t) \<mapsto> Included h b)"
    using stages_ok_keeps[OF keeps_replace ids_replace ok] by blast
qed

end
