(* ===== verification/Stage_Roundtrip.thy ===== *)
theory Stage_Roundtrip
  imports Stage_Phases
begin

text \<open>
  Inserting a batch of stages and reading the run back. The insertion appends one stage row per stage and
  one row per input and output; the reader sorts by stage index and by order, decrypts, and
  rebuilds the values that were inserted, with their identifiers in lower case.
\<close>

section \<open>What an insertion appends\<close>

definition stage_input_rows :: "string \<Rightarrow> stage_insert \<Rightarrow> input_row list" where
  "stage_input_rows run_id stage = map (\<lambda>(o', inp).
     \<lparr>inr_run_id = run_id, inr_stage_index = ins_stage_index stage, inr_input_order = o', inr_input = lower_input inp\<rparr>)
     (enumerate 0 (ins_inputs stage))"

definition stage_output_rows :: "string \<Rightarrow> stage_insert \<Rightarrow> output_row list" where
  "stage_output_rows run_id stage = map (\<lambda>(o', outp).
     \<lparr>our_run_id = run_id, our_stage_index = ins_stage_index stage, our_output_order = o',
      our_output_index = sor_output_index outp, our_value_zatoshi = sor_value_zatoshi outp,
      our_note_version = sor_note_version outp, our_kind = kind_as_str (sor_kind outp),
      our_part_index = sor_part_index outp\<rparr>) (enumerate 0 (ins_outputs stage))"

definition stored_row ::
    "'t crypto_library \<Rightarrow> (nat \<Rightarrow> nat \<Rightarrow> byte list) \<Rightarrow> string \<Rightarrow> byte list \<Rightarrow> byte list \<Rightarrow> stage_insert \<Rightarrow> 't stage_row
      \<Rightarrow> bool" where
  "stored_row lib nonce run_id password salt stage row \<longleftrightarrow>
     (\<exists>blob. encode_compact_action_sigs (ins_sigs stage) = Inr blob
        \<and> encrypt_payload lib (nonce (ins_stage_index stage) 1) blob password salt = Inr (row_encrypted_compact_sigs row))
     \<and> encrypt_payload lib (nonce (ins_stage_index stage) 0) (ins_base_pczt stage) password salt
         = Inr (row_encrypted_base_pczt row)
     \<and> (case (ins_raw_tx stage, row_encrypted_raw_tx row) of (None, None) \<Rightarrow> True
         | (Some raw_tx, Some sealed) \<Rightarrow> encrypt_payload lib (nonce (ins_stage_index stage) 2) raw_tx password salt = Inr sealed
         | _ \<Rightarrow> False)
     \<and> row_run_id row = run_id \<and> row_stage_index row = ins_stage_index stage
     \<and> row_expected_txid_hex row = to_ascii_lowercase (ins_expected_txid_hex stage)
     \<and> row_target_height row = ins_target_height stage \<and> row_scheduled_height row = ins_scheduled_height stage
     \<and> row_broadcast_not_before_height row = None \<and> row_broadcast_attempted row = 0
     \<and> row_expiry_height row = ins_expiry_height stage \<and> row_fee_zatoshi row = ins_fee_zatoshi stage
     \<and> row_confirmed_mined_height row = None \<and> row_confirmed_block_hash row = None
     \<and> row_status row = status_as_str (ins_status stage)"

lemma insert_row_appends:
  "insert_stage_row row db = (Inr u, db') \<Longrightarrow> db' = db\<lparr>stage_rows := stage_rows db @ [row]\<rparr>"
  "insert_input_row irow db = (Inr u, db') \<Longrightarrow> db' = db\<lparr>input_rows := input_rows db @ [irow]\<rparr>"
  "insert_output_row orow db = (Inr u, db') \<Longrightarrow> db' = db\<lparr>output_rows := output_rows db @ [orow]\<rparr>"
  by (auto simp: insert_stage_row_def insert_input_row_def insert_output_row_def split: if_splits)

lemma st_each_appends:
  assumes "st_each f xs db = (Inr u, db')"
    and "\<And>x db db' u. x \<in> set xs \<Longrightarrow> f x db = (Inr u, db') \<Longrightarrow> db' = g db [x]"
    and "\<And>db. g db [] = db" and "\<And>db ys zs. g (g db ys) zs = g db (ys @ zs)"
  shows "db' = g db xs"
  using assms(1,2)
proof (induction xs arbitrary: db)
  case Nil
  then show ?case using assms(3) by simp
next
  case (Cons x xs)
  from Cons.prems(1) obtain db1 v where 1: "f x db = (Inr v, db1)" and rest: "st_each f xs db1 = (Inr u, db')"
    by (auto simp: res_simps)
  have "db1 = g db [x]" using Cons.prems(2)[OF _ 1] by simp
  moreover have "db' = g db1 xs" by (rule Cons.IH[OF rest]) (rule Cons.prems(2); simp)
  ultimately show ?case using assms(4)[of db "[x]" xs] by simp
qed

lemma inputs_appended:
  assumes "st_each (insert_input run_id (ins_stage_index stage)) (enumerate 0 (ins_inputs stage)) db = (Inr u, db')"
  shows "db' = db\<lparr>input_rows := input_rows db @ stage_input_rows run_id stage\<rparr>"
proof -
  let ?r = "\<lambda>(o', inp). \<lparr>inr_run_id = run_id, inr_stage_index = ins_stage_index stage, inr_input_order = o',
      inr_input = lower_input inp\<rparr>"
  have "db' = db\<lparr>input_rows := input_rows db @ map ?r (enumerate 0 (ins_inputs stage))\<rparr>"
    by (rule st_each_appends[OF assms, where g = "\<lambda>db xs. db\<lparr>input_rows := input_rows db @ map ?r xs\<rparr>"])
      (auto simp: insert_input_def res_simps dest!: insert_row_appends(2) split: prod.splits)
  then show ?thesis by (simp add: stage_input_rows_def)
qed

lemma outputs_appended:
  assumes "st_each (insert_output run_id (ins_stage_index stage)) (enumerate 0 (ins_outputs stage)) db = (Inr u, db')"
  shows "db' = db\<lparr>output_rows := output_rows db @ stage_output_rows run_id stage\<rparr>"
proof -
  let ?r = "\<lambda>(o', outp). \<lparr>our_run_id = run_id, our_stage_index = ins_stage_index stage, our_output_order = o',
      our_output_index = sor_output_index outp, our_value_zatoshi = sor_value_zatoshi outp,
      our_note_version = sor_note_version outp, our_kind = kind_as_str (sor_kind outp),
      our_part_index = sor_part_index outp\<rparr>"
  have "db' = db\<lparr>output_rows := output_rows db @ map ?r (enumerate 0 (ins_outputs stage))\<rparr>"
    by (rule st_each_appends[OF assms, where g = "\<lambda>db xs. db\<lparr>output_rows := output_rows db @ map ?r xs\<rparr>"])
      (auto simp: insert_output_def res_simps dest!: insert_row_appends(3) split: prod.splits)
  then show ?thesis by (simp add: stage_output_rows_def)
qed

lemma insert_stage_appends:
  assumes "insert_stage lib nonce run_id password salt stage db = (Inr u, db')"
  shows "\<exists>row. stored_row lib nonce run_id password salt stage row
    \<and> db' = db\<lparr>stage_rows := stage_rows db @ [row], input_rows := input_rows db @ stage_input_rows run_id stage,
        output_rows := output_rows db @ stage_output_rows run_id stage\<rparr>"
proof -
  let ?i = "ins_stage_index stage"
  from assms obtain pczt blob sigs raw db1 db2 where
      pczt: "encrypt_payload lib (nonce ?i 0) (ins_base_pczt stage) password salt = Inr pczt"
    and blob: "encode_compact_action_sigs (ins_sigs stage) = Inr blob"
    and sigs: "encrypt_payload lib (nonce ?i 1) blob password salt = Inr sigs"
    and raw: "transpose_result (map_option (\<lambda>raw_tx. encrypt_payload lib (nonce ?i 2) raw_tx password salt)
        (ins_raw_tx stage)) = Inr raw"
    and row: "insert_stage_row \<lparr>row_run_id = run_id, row_stage_index = ?i, row_encrypted_base_pczt = pczt,
         row_encrypted_compact_sigs = sigs, row_encrypted_raw_tx = raw,
         row_expected_txid_hex = to_ascii_lowercase (ins_expected_txid_hex stage),
         row_target_height = ins_target_height stage, row_scheduled_height = ins_scheduled_height stage,
         row_broadcast_not_before_height = None, row_broadcast_attempted = 0,
         row_expiry_height = ins_expiry_height stage, row_fee_zatoshi = ins_fee_zatoshi stage,
         row_confirmed_mined_height = None, row_confirmed_block_hash = None,
         row_status = status_as_str (ins_status stage)\<rparr> db = (Inr (), db1)"
    and ins: "st_each (insert_input run_id ?i) (enumerate 0 (ins_inputs stage)) db1 = (Inr (), db2)"
    and outs: "st_each (insert_output run_id ?i) (enumerate 0 (ins_outputs stage)) db2 = (Inr u, db')"
    by (auto simp: insert_stage_def Let_def res_simps)
  have "case (ins_raw_tx stage, raw) of (None, None) \<Rightarrow> True
      | (Some raw_tx, Some sealed) \<Rightarrow> encrypt_payload lib (nonce ?i 2) raw_tx password salt = Inr sealed | _ \<Rightarrow> False"
    using raw by (cases "ins_raw_tx stage") (auto simp: transpose_result_def res_simps)
  with pczt blob sigs show ?thesis
    unfolding outputs_appended[OF outs] inputs_appended[OF ins] insert_row_appends(1)[OF row]
    by (intro exI conjI) (auto simp: stored_row_def)
qed

lemma insert_batch_appends:
  assumes "st_each (insert_stage lib nonce run_id password salt) batch db = (Inr u, db')"
  shows "\<exists>rows. list_all2 (stored_row lib nonce run_id password salt) batch rows
    \<and> db' = db\<lparr>stage_rows := stage_rows db @ rows,
        input_rows := input_rows db @ concat (map (stage_input_rows run_id) batch),
        output_rows := output_rows db @ concat (map (stage_output_rows run_id) batch)\<rparr>"
  using assms
proof (induction batch arbitrary: db)
  case (Cons stage batch)
  from Cons.prems obtain db1 v where 1: "insert_stage lib nonce run_id password salt stage db = (Inr v, db1)"
    and rest: "st_each (insert_stage lib nonce run_id password salt) batch db1 = (Inr u, db')" by (auto simp: res_simps)
  from insert_stage_appends[OF 1] Cons.IH[OF rest] show ?case
    by (fastforce simp: list_all2_Cons1)
qed simp


section \<open>Reading the run back\<close>

definition read_back :: "stage_insert \<Rightarrow> denomination_stage" where
  "read_back stage =
     \<lparr>ds_stage_index = ins_stage_index stage, ds_base_pczt = ins_base_pczt stage, ds_sigs = ins_sigs stage,
      ds_raw_tx = ins_raw_tx stage, ds_expected_txid_hex = to_ascii_lowercase (ins_expected_txid_hex stage),
      ds_target_height = ins_target_height stage, ds_scheduled_height = ins_scheduled_height stage,
      ds_broadcast_not_before_height = None, ds_expiry_height = ins_expiry_height stage,
      ds_fee_zatoshi = ins_fee_zatoshi stage, ds_status = ins_status stage,
      ds_confirmed_mined_height = None, ds_confirmed_block_hash = None,
      ds_inputs = map lower_input (ins_inputs stage), ds_outputs = ins_outputs stage\<rparr>"

lemma filter_concat_one:
  "distinct (map k xs) \<Longrightarrow> x \<in> set xs \<Longrightarrow> (\<And>y r. y \<in> set xs \<Longrightarrow> r \<in> set (f y) \<Longrightarrow> P r \<longleftrightarrow> k y = k x)
    \<Longrightarrow> filter P (concat (map f xs)) = f x"
proof (induction xs)
  case (Cons y ys)
  have tail: "filter P (concat (map f ys)) = (if x \<in> set ys then f x else [])"
  proof (cases "x \<in> set ys")
    case False
    with Cons.prems have "k y = k x" "k x \<notin> k ` set ys" by auto
    then have "\<forall>z \<in> set ys. k z \<noteq> k x" by (metis image_eqI)
    with Cons.prems(3) False show ?thesis by (auto simp: filter_empty_conv)
  qed (use Cons in simp)
  show ?case
  proof (cases "y = x")
    case True
    then have "filter P (f y) = f y" "x \<notin> set ys" using Cons.prems by (auto simp: filter_id_conv)
    with tail True show ?thesis by simp
  next
    case False
    then have "x \<in> set ys" "k y \<noteq> k x" using Cons.prems by auto
    then have "filter P (f y) = []" using Cons.prems(3) by (auto simp: filter_empty_conv)
    with tail \<open>x \<in> set ys\<close> show ?thesis by simp
  qed
qed simp

lemma sort_key_sorted: "sorted (map f xs) \<Longrightarrow> sort_key f xs = xs"
  by (induction xs) (auto simp: insort_is_Cons)

lemma list_all2_insort:
  "list_all2 R xs ys \<Longrightarrow> R x y \<Longrightarrow> (\<And>a b. R a b \<Longrightarrow> f a = g b)
    \<Longrightarrow> list_all2 R (insort_key f x xs) (insort_key g y ys)"
  by (induction xs ys rule: list_all2_induct) auto

lemma list_all2_sort_key:
  "list_all2 R xs ys \<Longrightarrow> (\<And>a b. R a b \<Longrightarrow> f a = g b) \<Longrightarrow> list_all2 R (sort_key f xs) (sort_key g ys)"
  by (induction xs ys rule: list_all2_induct) (auto intro: list_all2_insort)

lemma enumerate_orders: "map fst (enumerate n xs) = [n..<n + length xs]" "map snd (enumerate n xs) = xs"
  by (simp_all add: enumerate_eq_zip)

lemma res_map_kinds:
  "res_map (\<lambda>r. res_bind (kind_parse (our_kind r)) (\<lambda>kind.
      Inr \<lparr>sor_output_index = our_output_index r, sor_value_zatoshi = our_value_zatoshi r,
           sor_note_version = our_note_version r, sor_kind = kind, sor_part_index = our_part_index r\<rparr>))
     (stage_output_rows run_id stage) = Inr (ins_outputs stage)"
  unfolding res_map_Inr_iff
  by (auto simp: stage_output_rows_def list_all2_conv_all_nth nth_enumerate_eq)

lemma sorted_orders:
  "sorted (map inr_input_order (stage_input_rows run_id stage))"
  "sorted (map our_output_order (stage_output_rows run_id stage))"
proof -
  have "map inr_input_order (stage_input_rows run_id stage) = map fst (enumerate 0 (ins_inputs stage))"
    unfolding stage_input_rows_def map_map by (rule map_cong) auto
  then show "sorted (map inr_input_order (stage_input_rows run_id stage))" by (simp only: enumerate_orders sorted_upt)
  have "map our_output_order (stage_output_rows run_id stage) = map fst (enumerate 0 (ins_outputs stage))"
    unfolding stage_output_rows_def map_map by (rule map_cong) auto
  then show "sorted (map our_output_order (stage_output_rows run_id stage))" by (simp only: enumerate_orders sorted_upt)
qed

text \<open>The inputs and outputs of one stage of the batch, in a database where the run is otherwise new.\<close>

lemma batch_inputs:
  assumes "input_rows db = old @ concat (map (stage_input_rows run_id) batch)" and "\<forall>r \<in> set old. inr_run_id r \<noteq> run_id"
    and "distinct (map ins_stage_index batch)" and "stage \<in> set batch"
  shows "stage_inputs db run_id (ins_stage_index stage) = map lower_input (ins_inputs stage)"
proof -
  let ?P = "\<lambda>r. inr_run_id r = run_id \<and> inr_stage_index r = ins_stage_index stage"
  have "filter ?P (concat (map (stage_input_rows run_id) batch)) = stage_input_rows run_id stage"
    by (rule filter_concat_one[OF assms(3,4)]) (auto simp: stage_input_rows_def)
  moreover have "filter ?P old = []" using assms(2) by (auto simp: filter_empty_conv)
  ultimately have "filter ?P (input_rows db) = stage_input_rows run_id stage" by (simp add: assms(1))
  then have "stage_inputs db run_id (ins_stage_index stage) = map inr_input (stage_input_rows run_id stage)"
    by (simp add: stage_inputs_def sort_key_sorted[OF sorted_orders(1)])
  also have "\<dots> = map (lower_input \<circ> snd) (enumerate 0 (ins_inputs stage))"
    by (auto simp: stage_input_rows_def)
  also have "\<dots> = map lower_input (map snd (enumerate 0 (ins_inputs stage)))" by (simp only: map_map)
  finally show ?thesis by (simp only: enumerate_orders(2))
qed

lemma batch_outputs:
  assumes "output_rows db = old @ concat (map (stage_output_rows run_id) batch)" and "\<forall>r \<in> set old. our_run_id r \<noteq> run_id"
    and "distinct (map ins_stage_index batch)" and "stage \<in> set batch"
  shows "stage_outputs db run_id (ins_stage_index stage) = Inr (ins_outputs stage)"
proof -
  let ?P = "\<lambda>r. our_run_id r = run_id \<and> our_stage_index r = ins_stage_index stage"
  have "filter ?P (concat (map (stage_output_rows run_id) batch)) = stage_output_rows run_id stage"
    by (rule filter_concat_one[OF assms(3,4)]) (auto simp: stage_output_rows_def)
  moreover have "filter ?P old = []" using assms(2) by (auto simp: filter_empty_conv)
  ultimately have "filter ?P (output_rows db) = stage_output_rows run_id stage" by (simp add: assms(1))
  then show ?thesis by (simp add: stage_outputs_def sort_key_sorted[OF sorted_orders(2)] res_map_kinds)
qed

lemma stored_row_reads:
  assumes laws: "crypto_laws lib" and nonces: "\<And>i c. length (nonce i c) = NONCE_LEN"
    and stored: "stored_row lib nonce run_id password salt stage row"
    and sigs: "length (ins_sigs stage) \<le> ZCASH_SIGN_BATCH_MAX_SIGNATURES" "\<forall>s \<in> set (ins_sigs stage). signature_typed s"
    and inputs: "stage_inputs db run_id (ins_stage_index stage) = map lower_input (ins_inputs stage)"
    and outputs: "stage_outputs db run_id (ins_stage_index stage) = Inr (ins_outputs stage)"
  shows "read_stage lib (derive_key lib password salt) db run_id row = Inr (read_back stage)"
proof -
  let ?key = "derive_key lib password salt"
  have opens: "decrypt_with_cipher lib ?key wrapped = Inr clear"
    if "encrypt_payload lib (nonce i c) clear password salt = Inr wrapped" for i c clear wrapped
    using decrypt_encrypted[OF laws nonces that] by (simp add: decrypt_payload_def)
  from stored obtain blob where blob: "encode_compact_action_sigs (ins_sigs stage) = Inr blob"
    and sealed: "encrypt_payload lib (nonce (ins_stage_index stage) 1) blob password salt = Inr (row_encrypted_compact_sigs row)"
    by (auto simp: stored_row_def)
  have "decode_compact_action_sigs blob = Inr (ins_sigs stage)" using blob sigs by (simp add: decode_encode_iff)
  moreover have "transpose_result (map_option (decrypt_with_cipher lib ?key) (row_encrypted_raw_tx row)) = Inr (ins_raw_tx stage)"
    using stored by (auto simp: stored_row_def transpose_result_def opens split: option.splits)
  moreover have "decrypt_with_cipher lib ?key (row_encrypted_base_pczt row) = Inr (ins_base_pczt stage)"
    by (rule opens[of "ins_stage_index stage" 0]) (use stored in \<open>simp add: stored_row_def\<close>)
  ultimately show ?thesis
    using stored opens[OF sealed] inputs outputs by (simp add: read_stage_def stored_row_def read_back_def)
qed

lemma batch_reads_back:
  assumes laws: "crypto_laws lib" and nonces: "\<And>i c. length (nonce i c) = NONCE_LEN"
    and sigs: "\<forall>stage \<in> set batch. length (ins_sigs stage) \<le> ZCASH_SIGN_BATCH_MAX_SIGNATURES
        \<and> (\<forall>s \<in> set (ins_sigs stage). signature_typed s)"
    and ok: "store_ok db" and new: "\<forall>r \<in> set (stage_rows db). row_run_id r \<noteq> run_id"
    and ins: "insert_denomination_stages_with_tx lib nonce run_id batch password salt_base64 db = (Inr u, db')"
  shows "denomination_stages_for_run lib db' run_id password salt_base64
    = Inr (map read_back (sort_key ins_stage_index batch))"
proof -
  from ins obtain salt where salt: "decode_base64 lib salt_base64 ''migration denomination stage salt'' = Inr salt"
    and each: "st_each (insert_stage lib nonce run_id password salt) batch db = (Inr u, db')"
    by (auto simp: insert_denomination_stages_with_tx_def res_simps savepoint_Inr)
  from insert_batch_appends[OF each] obtain rows where
      rows: "list_all2 (stored_row lib nonce run_id password salt) batch rows"
    and db': "db' = db\<lparr>stage_rows := stage_rows db @ rows,
        input_rows := input_rows db @ concat (map (stage_input_rows run_id) batch),
        output_rows := output_rows db @ concat (map (stage_output_rows run_id) batch)\<rparr>" by blast
  have idx: "map row_stage_index rows = map ins_stage_index batch" and runs: "\<forall>r \<in> set rows. row_run_id r = run_id"
    using rows by (induction rule: list_all2_induct) (auto simp: stored_row_def)
  have "store_ok db'" by (rule keepsD[OF keeps_insert_batch ok ins])
  then have "distinct (map stage_key rows)" by (simp add: store_ok_def db')
  moreover have "map stage_key rows = map (Pair run_id) (map row_stage_index rows)"
    using runs by (simp add: stage_key_def)
  ultimately have "distinct (map (Pair run_id) (map ins_stage_index batch))" by (simp only: idx)
  then have dist: "distinct (map ins_stage_index batch)" unfolding distinct_map by blast
  have fk: "\<forall>r \<in> set (input_rows db). (inr_run_id r, inr_stage_index r) \<in> stage_key ` set (stage_rows db)"
    "\<forall>r \<in> set (output_rows db). (our_run_id r, our_stage_index r) \<in> stage_key ` set (stage_rows db)"
    using ok by (simp_all add: store_ok_def)
  have old: "\<forall>r \<in> set (input_rows db). inr_run_id r \<noteq> run_id" "\<forall>r \<in> set (output_rows db). our_run_id r \<noteq> run_id"
    using fk new by (fastforce simp: stage_key_def)+
  have reads: "read_stage lib (derive_key lib password salt) db' run_id row = Inr (read_back stage)"
    if "stage \<in> set batch" and "stored_row lib nonce run_id password salt stage row" for stage row
  proof (rule stored_row_reads[OF laws nonces that(2)])
    show "stage_inputs db' run_id (ins_stage_index stage) = map lower_input (ins_inputs stage)"
      by (rule batch_inputs[OF _ old(1) dist that(1)]) (simp add: db')
    show "stage_outputs db' run_id (ins_stage_index stage) = Inr (ins_outputs stage)"
      by (rule batch_outputs[OF _ old(2) dist that(1)]) (simp add: db')
  qed (use sigs that(1) in auto)
  have "run_rows db' run_id = sort_key row_stage_index rows"
    using new runs by (simp add: run_rows_def db' filter_empty_conv filter_id_conv)
  moreover have "list_all2 (\<lambda>stage row. stage \<in> set batch \<and> stored_row lib nonce run_id password salt stage row) batch rows"
    using rows by (auto simp: list_all2_conv_all_nth)
  then have "list_all2 (\<lambda>stage row. stage \<in> set batch \<and> stored_row lib nonce run_id password salt stage row)
      (sort_key ins_stage_index batch) (sort_key row_stage_index rows)"
    by (rule list_all2_sort_key) (simp add: stored_row_def)
  then have "list_all2 (\<lambda>row d. read_stage lib (derive_key lib password salt) db' run_id row = Inr d)
      (sort_key row_stage_index rows) (map read_back (sort_key ins_stage_index batch))"
    by (auto simp: list_all2_conv_all_nth reads)
  ultimately show ?thesis by (simp add: denomination_stages_for_run_def salt res_map_Inr_iff)
qed

end
