(* ===== verification/Stage_Catchup.thy ===== *)
theory Stage_Catchup
  imports Stage_Phases Schedule_Lemmas
begin

text \<open>
  \<open>rerandomize_remaining_preparation_broadcast_heights\<close> of
  wallet/sync/migration/preparation_policy.rs: when a preparation broadcast missed its height, every
  stage not yet submitted gets a fresh height, in the existing order, above the chain tip. The two
  policies that the code reads from the run are arguments here; \<open>Run_Store\<close> reads them.
\<close>

definition unsubmitted :: "string \<Rightarrow> 't stage_row \<Rightarrow> bool" where
  "unsubmitted run_id r \<longleftrightarrow> row_run_id r = run_id \<and> row_status r \<in> {''awaiting_inputs'', ''pending''}"

definition remaining_stages :: "'t stage_db \<Rightarrow> string \<Rightarrow> 't stage_row list" where
  "remaining_stages db run_id =
     sort_key (\<lambda>r. (row_effective_height r, row_stage_index r)) (filter (unsubmitted run_id) (stage_rows db))"

definition count_stages_for_run :: "'t stage_db \<Rightarrow> string \<Rightarrow> nat outcome" where
  "count_stages_for_run db run_id =
     (let n = length (filter (\<lambda>r. row_run_id r = run_id) (stage_rows db))
      in if n < 2 ^ 32 then Inr n else Inl (Msg ''Migration count overflow''))"

fun catch_up_loop ::
    "('r \<Rightarrow> (nat \<times> 'r) option) \<Rightarrow> string \<Rightarrow> (nat \<times> height \<times> height option) list \<Rightarrow> height \<Rightarrow> 't stage_db \<Rightarrow> 'r
      \<Rightarrow> ((unit outcome \<times> 't stage_db) \<times> 'r) option" where
  "catch_up_loop delay run_id [] preceding_height db r = Some ((Inr (), db), r)"
| "catch_up_loop delay run_id ((stage_index, scheduled_height, existing_not_before_height) # rest) preceding_height db r =
     do {
       (blocks, r) \<leftarrow> delay r;
       (case checked_add 32 preceding_height blocks of
          None \<Rightarrow> Some ((Inl (Msg ''Migration preparation catch-up height overflow''), db), r)
        | Some randomized_height \<Rightarrow>
            let effective_height = max (max randomized_height scheduled_height)
                  (case existing_not_before_height of None \<Rightarrow> 0 | Some h \<Rightarrow> h) in
            (case st_context ''Reschedule migration denomination catch-up stage: {e}'' (update_stages
                    (\<lambda>s. row_run_id s = run_id \<and> row_stage_index s = stage_index
                       \<and> row_status s \<in> {''awaiting_inputs'', ''pending''})
                    (\<lambda>s. s\<lparr>row_broadcast_not_before_height := Some effective_height\<rparr>)) db of
               (Inl e, db) \<Rightarrow> Some ((Inl e, db), r)
             | (Inr updated, db) \<Rightarrow> catch_up_loop delay run_id rest effective_height db r))
     }"

definition rerandomize_remaining_preparation_broadcast_heights ::
    "'r random_source \<Rightarrow> f64_arith \<Rightarrow> preparation_timing_policy \<Rightarrow> migration_timing_policy \<Rightarrow> string \<Rightarrow> wallet_network
      \<Rightarrow> height \<Rightarrow> 't stage_db \<Rightarrow> 'r \<Rightarrow> ((nat outcome \<times> 't stage_db) \<times> 'r) option" where
  "rerandomize_remaining_preparation_broadcast_heights rng fp preparation_policy timing_policy run_id network
      chain_tip_height db r =
     (if preparation_policy = Immediate then Some ((Inr 0, db), r)
      else case count_stages_for_run db run_id of
        Inl e \<Rightarrow> Some ((Inl e, db), r)
      | Inr transaction_count \<Rightarrow>
          let remaining = map (\<lambda>s. (row_stage_index s, row_scheduled_height s, row_broadcast_not_before_height s))
                (remaining_stages db run_id) in
          do {
            ((result, db), r) \<leftarrow> catch_up_loop
               (preparation_delay_with_rng rng fp network timing_policy transaction_count)
               run_id remaining chain_tip_height db r;
            Some ((res_bind result (\<lambda>_.
               if length remaining < 2 ^ 32 then Inr (length remaining)
               else Inl (Msg ''Migration preparation catch-up count exceeds u32'')), db), r)
          })"

section \<open>What a catch-up changes\<close>

text \<open>\<open>rescheduled run_id ks h db db'\<close>: exactly the unsubmitted stages with an index in \<open>ks\<close> got the height \<open>h\<close>.\<close>

definition rescheduled :: "string \<Rightarrow> nat set \<Rightarrow> (nat \<Rightarrow> height) \<Rightarrow> 't stage_db \<Rightarrow> 't stage_db \<Rightarrow> bool" where
  "rescheduled run_id ks h db db' \<longleftrightarrow>
     db' = db\<lparr>stage_rows := map (\<lambda>s. if unsubmitted run_id s \<and> row_stage_index s \<in> ks
         then s\<lparr>row_broadcast_not_before_height := Some (h (row_stage_index s))\<rparr> else s) (stage_rows db)\<rparr>"

lemma unsubmitted_update [simp]:
  "unsubmitted run_id (s\<lparr>row_broadcast_not_before_height := h\<rparr>) = unsubmitted run_id s"
  by (simp add: unsubmitted_def)

lemma rescheduled_compose:
  fixes db :: "'a stage_db"
  assumes "rescheduled run_id {i} (\<lambda>_. e) db db1" and "rescheduled run_id ks h db1 db2" and "i \<notin> ks"
  shows "rescheduled run_id (insert i ks) (h(i := e)) db db2"
proof -
  let ?g = "\<lambda>ks h s. if unsubmitted run_id s \<and> row_stage_index s \<in> ks
      then s\<lparr>row_broadcast_not_before_height := Some (h (row_stage_index s))\<rparr> else s"
  have "?g ks h (?g {i} (\<lambda>_. e) s) = ?g (insert i ks) (h(i := e)) s" for s :: "'a stage_row"
    using assms(3) by auto
  then have "map (?g ks h) (map (?g {i} (\<lambda>_. e)) rows) = map (?g (insert i ks) (h(i := e))) rows"
    for rows :: "'a stage_row list" by (simp only: map_map comp_def)
  with assms(1,2) show ?thesis unfolding rescheduled_def by simp
qed

lemma catch_up_loop_spec:
  assumes "catch_up_loop delay run_id rows preceding db r = Some ((Inr (), db'), r')"
    and "distinct (map fst rows)"
  shows "\<exists>h. rescheduled run_id (fst ` set rows) h db db' \<and> sorted (preceding # map (h \<circ> fst) rows)
    \<and> (\<forall>(i, s, b) \<in> set rows. s \<le> h i \<and> (case b of None \<Rightarrow> 0 | Some b \<Rightarrow> b) \<le> h i)"
  using assms
proof (induction rows arbitrary: preceding db r)
  case Nil
  then show ?case by (auto simp: rescheduled_def intro!: exI[of _ "\<lambda>_. 0"])
next
  case (Cons row rest)
  obtain i s b where row: "row = (i, s, b)" by (cases row)
  let ?b = "case b of None \<Rightarrow> 0 | Some b \<Rightarrow> b"
  let ?p = "\<lambda>s. row_run_id s = run_id \<and> row_stage_index s = i \<and> row_status s \<in> {''awaiting_inputs'', ''pending''}"
  from Cons.prems(1) obtain d r1 where d: "delay r = Some (d, r1)"
    by (auto simp: row split: Option.bind_splits)
  with Cons.prems(1) have fits: "preceding + d < 2 ^ 32"
    by (auto simp: row checked_add_def split: if_splits)
  define e where "e = max (max (preceding + d) s) ?b"
  let ?f = "\<lambda>s. s\<lparr>row_broadcast_not_before_height := Some e\<rparr>"
  obtain n db1 where u: "update_stages ?p ?f db = (Inr n, db1)"
    and rest: "catch_up_loop delay run_id rest e db1 r1 = Some ((Inr (), db'), r')"
    using Cons.prems(1) d fits
    by (cases "update_stages ?p ?f db"; cases "fst (update_stages ?p ?f db)")
      (auto simp: row checked_add_def st_context_def e_def Let_def)
  have p: "?p = (\<lambda>s. unsubmitted run_id s \<and> row_stage_index s \<in> {i})"
    by (rule ext) (simp add: unsubmitted_def conj_ac)
  have one: "rescheduled run_id {i} (\<lambda>_. e) db db1"
    using u unfolding p by (auto simp: update_stages_def rescheduled_def Let_def split: if_splits)
  have i: "i \<notin> fst ` set rest" and dist: "distinct (map fst rest)" using Cons.prems(2) by (simp_all add: row)
  from Cons.IH[OF rest dist] obtain h where h: "rescheduled run_id (fst ` set rest) h db1 db'"
    "sorted (e # map (h \<circ> fst) rest)"
    "\<forall>(i, s, b) \<in> set rest. s \<le> h i \<and> (case b of None \<Rightarrow> 0 | Some b \<Rightarrow> b) \<le> h i" by blast
  have m: "map (h(i := e) \<circ> fst) rest = map (h \<circ> fst) rest" using i by auto
  have bounds: "preceding \<le> e" "s \<le> e" "?b \<le> e" by (simp_all add: e_def)
  have "sorted (preceding # map (h(i := e) \<circ> fst) (row # rest))"
    using h(2) bounds(1) unfolding list.map m by (auto simp: row)
  moreover have "\<forall>(j, s, b) \<in> set (row # rest). s \<le> (h(i := e)) j \<and> (case b of None \<Rightarrow> 0 | Some b \<Rightarrow> b) \<le> (h(i := e)) j"
    using h(3) i bounds by (fastforce simp: row image_iff)
  moreover have "rescheduled run_id (fst ` set (row # rest)) (h(i := e)) db db'"
    using rescheduled_compose[OF one h(1) i] by (simp add: row)
  ultimately show ?case by blast
qed

lemma remaining_distinct:
  assumes "store_ok db"
  shows "distinct (map row_stage_index (remaining_stages db run_id))"
proof -
  have "distinct (map stage_key (stage_rows db))" using assms by (simp add: store_ok_def)
  then have "distinct (map stage_key (remaining_stages db run_id))"
    unfolding remaining_stages_def by (auto simp: distinct_map intro: inj_on_subset)
  moreover have "\<forall>r \<in> set (remaining_stages db run_id). row_run_id r = run_id"
    by (simp add: remaining_stages_def unsubmitted_def)
  ultimately show ?thesis by (auto simp: distinct_map inj_on_def stage_key_def)
qed

end
