(* ===== verification/Stage_Props.thy ===== *)
theory Stage_Props
  imports Stage_Roundtrip Stage_Catchup Schedule_Props
begin

text \<open>
  The properties of the stage store: what every call keeps, the abstract machine its updates implement,
  the round trip through the encrypted tables, the locks on stage inputs and the catch-up
  rescheduling. The witnesses run the store on one stage with the plain crypto library.
\<close>

section \<open>A concrete store\<close>

definition sample_txid :: string where
  "sample_txid = replicate 64 CHR ''a''"

definition sample_stage :: stage_insert where
  "sample_stage =
     \<lparr>ins_stage_index = 3, ins_base_pczt = [1, 2], ins_sigs = [], ins_raw_tx = Some [9],
      ins_expected_txid_hex = sample_txid, ins_target_height = 100, ins_scheduled_height = 110,
      ins_expiry_height = 34560, ins_fee_zatoshi = 80000, ins_status = Pending,
      ins_inputs = [\<lparr>sir_txid_hex = replicate 64 CHR ''b'', sir_output_index = 1, sir_value_zatoshi = 500000,
                     sir_note_version = 2, sir_nullifier_hex = None\<rparr>],
      ins_outputs = [\<lparr>sor_output_index = 0, sor_value_zatoshi = 420000, sor_note_version = 2,
                      sor_kind = Migration, sor_part_index = Some 0\<rparr>]\<rparr>"

abbreviation sample_insert :: "encrypted_payload stage_db \<Rightarrow> unit outcome \<times> encrypted_payload stage_db" where
  "sample_insert \<equiv> insert_denomination_stages_with_tx plain_crypto (\<lambda>_ _. replicate 12 0) ''run'' [sample_stage] [7]
     (base64_encode plain_crypto [8])"

definition sample_db :: "encrypted_payload stage_db" where
  "sample_db = snd (sample_insert empty_db)"

lemma repeated_digit:
  "length (replicate 64 c) = 64 \<and> list_all is_ascii_hexdigit (replicate 64 c) \<longleftrightarrow> is_ascii_hexdigit c"
  "to_ascii_lowercase (replicate 64 c) = replicate 64 (ascii_lower c)"
  by (simp_all add: list_all_iff to_ascii_lowercase_def)

lemma digits: "is_ascii_hexdigit CHR ''a''" "is_ascii_hexdigit CHR ''b''" "ascii_lower CHR ''a'' = CHR ''a''"
    "ascii_lower CHR ''b'' = CHR ''b''"
  by code_simp+

lemma sample_txids:
  "valid_txid sample_txid" "to_ascii_lowercase sample_txid = sample_txid" "valid_txid (replicate 64 CHR ''b'')"
  unfolding valid_txid_def sample_txid_def repeated_digit digits by (rule TrueI refl digits)+

lemma sample_validates: "validate_stage_batch ''run'' [sample_stage] = Inr ()"
  using sample_txids
  by (simp add: validate_stage_batch_def validate_stage_def sample_stage_def validate_raw_state_def
      validate_input_def validate_output_def)

lemma plain_encrypts: "\<exists>c. encrypt_payload plain_crypto nonce clear password salt = Inr c"
proof -
  let ?key = "derive_key plain_crypto password salt"
  have "aes_encrypt plain_crypto ?key nonce clear = Some (clear @ take 16 (?key @ replicate 16 0))"
    "json_encode plain_crypto p = Inr p" for p by (simp_all add: plain_crypto_def)
  moreover have "length (take 16 (?key @ replicate 16 (0 :: byte))) = 16" by simp
  ultimately show ?thesis by (simp add: encrypt_payload_def encrypt_with_cipher_def MAC_LEN_def)
qed

definition sample_row where
  "sample_row a b c =
     \<lparr>row_run_id = ''run'', row_stage_index = 3, row_encrypted_base_pczt = a, row_encrypted_compact_sigs = b,
      row_encrypted_raw_tx = Some c, row_expected_txid_hex = sample_txid, row_target_height = 100,
      row_scheduled_height = 110, row_broadcast_not_before_height = None, row_broadcast_attempted = 0,
      row_expiry_height = 34560, row_fee_zatoshi = 80000, row_confirmed_mined_height = None,
      row_confirmed_block_hash = None, row_status = ''pending''\<rparr>"

lemma sample_row_inserts: "insert_stage_row (sample_row a b c) empty_db
    = (Inr (), empty_db\<lparr>stage_rows := [sample_row a b c]\<rparr>)"
  by (simp add: insert_stage_row_def stage_row_checks_def sample_row_def empty_db_def)

lemma sample_inserted: "sample_insert empty_db = (Inr (), sample_db)"
proof -
  let ?enc = "\<lambda>clear. encrypt_payload plain_crypto (replicate 12 0) clear [7] [8]"
  obtain a b c where sealed: "?enc [1, 2] = Inr a" "?enc [0, 0, 0, 0] = Inr b" "?enc [9] = Inr c"
    using plain_encrypts[of "replicate 12 0" "[1, 2]" "[7]" "[8]"]
      plain_encrypts[of "replicate 12 0" "[0, 0, 0, 0]" "[7]" "[8]"] plain_encrypts[of "replicate 12 0" "[9]" "[7]" "[8]"]
    by auto
  have sigs: "encode_compact_action_sigs [] = Inr [0, 0, 0, 0]"
    by (simp add: encode_iff le_bytes_def)
  have "fst (insert_stage plain_crypto (\<lambda>_ _. replicate 12 0) ''run'' [7] [8] sample_stage empty_db) = Inr ()"
    using sample_row_inserts[of a b c]
    by (simp add: insert_stage_def sample_stage_def sealed sigs transpose_result_def sample_row_def sample_txids
        status_as_str_def st_bind_def st_context_def insert_input_def order_to_u32_def insert_input_row_def empty_db_def
        insert_output_def insert_output_row_def kind_as_str_def)
  then have "fst (sample_insert empty_db) = Inr ()"
    by (simp add: insert_denomination_stages_with_tx_def sample_validates st_bind_def decode_base64_def plain_base64
        savepoint_def prod_eq_iff split: prod.splits sum.splits)
  then show ?thesis by (simp add: sample_db_def prod_eq_iff)
qed

lemma sample_steps: "(stage_step plain_crypto)\<^sup>*\<^sup>* empty_db sample_db"
  using step_insert[OF sample_inserted] by blast

lemma sample_ok: "stages_ok sample_db"
  using stage_steps_ok[OF sample_steps empty_db_ok] stage_steps_ids[OF sample_steps empty_db_ids]
  by (simp add: stages_ok_def)

lemma sample_rows:
  "\<exists>row. stored_row plain_crypto (\<lambda>_ _. replicate 12 0) ''run'' [7] [8] sample_stage row
     \<and> sample_db = \<lparr>stage_rows = [row], input_rows = stage_input_rows ''run'' sample_stage,
         output_rows = stage_output_rows ''run'' sample_stage\<rparr>"
proof -
  have each: "st_each (insert_stage plain_crypto (\<lambda>_ _. replicate 12 0) ''run'' [7] [8]) [sample_stage] empty_db
      = (Inr (), sample_db)"
    using sample_inserted
    by (simp add: insert_denomination_stages_with_tx_def sample_validates st_bind_eq savepoint_Inr decode_base64_def
        plain_base64 del: st_each.simps)
  have one: "insert_stage plain_crypto (\<lambda>_ _. replicate 12 0) ''run'' [7] [8] sample_stage empty_db = (Inr (), sample_db)"
    using each by (auto simp: res_simps)
  from insert_stage_appends[OF one] show ?thesis by (simp add: empty_db_def)
qed

lemma sample_row_facts:
  "\<exists>row. stage_rows sample_db = [row] \<and> row_run_id row = ''run'' \<and> row_stage_index row = 3
     \<and> row_expected_txid_hex row = sample_txid \<and> row_status row = ''pending'' \<and> row_scheduled_height row = 110
     \<and> row_broadcast_not_before_height row = None"
proof -
  obtain row where stored: "stored_row plain_crypto (\<lambda>_ _. replicate 12 0) ''run'' [7] [8] sample_stage row"
    and db: "sample_db = \<lparr>stage_rows = [row], input_rows = stage_input_rows ''run'' sample_stage,
         output_rows = stage_output_rows ''run'' sample_stage\<rparr>" using sample_rows by (elim exE conjE)
  from stored have "row_run_id row = ''run'' \<and> row_stage_index row = 3 \<and> row_expected_txid_hex row = sample_txid
      \<and> row_status row = ''pending'' \<and> row_scheduled_height row = 110 \<and> row_broadcast_not_before_height row = None"
    by (simp add: stored_row_def sample_stage_def sample_txids(2) status_as_str_def)
  moreover have "stage_rows sample_db = [row]" unfolding db by simp
  ultimately show ?thesis by blast
qed

lemma sample_found:
  "\<exists>row. find_stage sample_db ''run'' sample_txid = Some row \<and> row_stage_index row = 3 \<and> row_status row = ''pending''"
  using sample_row_facts by (elim exE conjE) (simp add: find_stage_def)

lemma sample_stage_ready: "phases sample_db (''run'', sample_txid) = Some Ready"
  using sample_found by (elim exE conjE) (simp add: phases_def row_phase_def)

lemma sample_inputs: "stage_inputs sample_db ''run'' 3 = map lower_input (ins_inputs sample_stage)"
proof -
  obtain row where db: "sample_db = \<lparr>stage_rows = [row], input_rows = stage_input_rows ''run'' sample_stage,
         output_rows = stage_output_rows ''run'' sample_stage\<rparr>" using sample_rows by (elim exE conjE)
  have "input_rows sample_db = [] @ concat (map (stage_input_rows ''run'') [sample_stage])" unfolding db by simp
  from batch_inputs[OF this, of sample_stage] show ?thesis by (simp add: sample_stage_def)
qed

section \<open>Well-formedness\<close>

text \<open>
  C37: Every database the stage module can reach from an empty one, whatever the calls and whether they
  succeed, is well formed: each row meets the CHECK constraints, stages are unique by index and
  by transaction ID within a run, inputs are spent once per run, no input or output lacks its
  stage, and every identifier is a canonical lower-case transaction ID.
\<close>

theorem stage_store_well_formed:
  assumes "(stage_step lib)\<^sup>*\<^sup>* empty_db db"
  shows "store_ok db \<and> ids_ok db"
  using stage_steps_ok[OF assms empty_db_ok] stage_steps_ids[OF assms empty_db_ids] ..

theorem stage_store_well_formed_witness: "store_ok sample_db \<and> ids_ok sample_db"
  by (rule stage_store_well_formed[OF sample_steps])

section \<open>The life of a stage\<close>

text \<open>
  C38: The guarded SQL updates implement the abstract life of a stage: on a well-formed database a call
  succeeds exactly when the stage exists and its phase allows the move, it then changes the
  phase of that stage only, and a refused call changes nothing. A broadcast never undoes an
  inclusion, an inclusion is repeated only with the same block, and only a reset leaves it.
\<close>

theorem stage_updates_implement_moves:
  assumes "valid_txid txid" and "length block_hash = 32"
  shows "implements_move (run, to_ascii_lowercase txid) (mark_denomination_stage_broadcasted run txid) broadcast_move
    \<and> implements_move (run, to_ascii_lowercase txid)
        (mark_denomination_stage_confirmed_at run txid mined_height block_hash) (confirm_move mined_height block_hash)
    \<and> implements_move (run, to_ascii_lowercase txid)
        (replace_denomination_stage_confirmation_identity run txid mined_height block_hash)
        (include_move mined_height block_hash)
    \<and> implements_move (run, to_ascii_lowercase txid) (reset_denomination_stage_exact run txid) reset_move"
  using broadcast_implements[OF assms(1)] confirm_implements[OF assms] include_implements[OF assms]
    reset_implements[OF assms(1)] by blast

theorem stage_updates_implement_moves_witness:
  "\<exists>db. mark_denomination_stage_broadcasted ''run'' sample_txid sample_db = (Inr (), db)
    \<and> phases db = (phases sample_db)((''run'', sample_txid) \<mapsto> Sent)"
proof -
  have ok: "store_ok sample_db" using sample_ok by (simp add: stages_ok_def)
  have "implements_move (''run'', sample_txid) (mark_denomination_stage_broadcasted ''run'' sample_txid) broadcast_move"
    using stage_updates_implement_moves[OF sample_txids(1) length_replicate[of 32 0], of "''run''" 5, THEN conjunct1]
    by (simp only: sample_txids(2))
  from implements_moveD[OF this ok sample_stage_ready] show ?thesis by simp
qed

text \<open>
  No call ever alters or drops what the user signed: as long as stages are only inserted, moved
  or reset, every stored stage keeps its transaction ID, its encrypted PCZT and signatures, its
  heights and its fee, and every input and output row stays.
\<close>

theorem stage_material_survives:
  assumes "(stage_step lib)\<^sup>*\<^sup>* db db'" and "r \<in> set (stage_rows db)"
  shows "(\<exists>r' \<in> set (stage_rows db'). row_run_id r' = row_run_id r \<and> row_stage_index r' = row_stage_index r
        \<and> row_expected_txid_hex r' = row_expected_txid_hex r
        \<and> row_encrypted_base_pczt r' = row_encrypted_base_pczt r
        \<and> row_encrypted_compact_sigs r' = row_encrypted_compact_sigs r
        \<and> row_target_height r' = row_target_height r \<and> row_scheduled_height r' = row_scheduled_height r
        \<and> row_expiry_height r' = row_expiry_height r \<and> row_fee_zatoshi r' = row_fee_zatoshi r)
    \<and> set (input_rows db) \<subseteq> set (input_rows db') \<and> set (output_rows db) \<subseteq> set (output_rows db')"
proof -
  from material_steps[OF assms(1)] obtain new ins outs where
      m: "map stage_material (stage_rows db') = map stage_material (stage_rows db) @ new"
    and "input_rows db' = input_rows db @ ins" "output_rows db' = output_rows db @ outs"
    by (auto simp: material_kept_def)
  moreover from assms(2) have "stage_material r \<in> set (map stage_material (stage_rows db'))" by (simp add: m)
  then obtain r' where "r' \<in> set (stage_rows db')" "stage_material r' = stage_material r" by auto
  ultimately show ?thesis by (auto simp: stage_material_def stage_key_def)
qed

theorem stage_material_survives_witness:
  "\<exists>r'. r' \<in> set (stage_rows (snd (reset_denomination_stage_exact ''run'' sample_txid sample_db)))
    \<and> row_expected_txid_hex r' = sample_txid"
proof -
  obtain r where r: "find_stage sample_db ''run'' sample_txid = Some r" using sample_stage_ready by (auto simp: phases_def)
  have ok: "store_ok sample_db" using sample_ok by (simp add: stages_ok_def)
  from r have "r \<in> set (stage_rows sample_db)" "row_expected_txid_hex r = sample_txid"
    using find_stage_unique[OF ok] by blast+
  moreover have "(stage_step plain_crypto)\<^sup>*\<^sup>* sample_db (snd (reset_denomination_stage_exact ''run'' sample_txid sample_db))"
    using step_reset[OF surjective_pairing] by blast
  ultimately show ?thesis using stage_material_survives by fastforce
qed

section \<open>Round trip\<close>

text \<open>
  A batch that is inserted for a new run reads back as it was written: the run's stages, in the order
  of their indexes, with the clear PCZT, signatures and raw transaction, the inputs and outputs in their
  order, and every identifier in lower case. This needs signature lists the compact format can
  carry (at most 96 signatures of 64 bytes).
\<close>

theorem inserted_stages_read_back:
  assumes "crypto_laws lib" and "\<And>i c. length (nonce i c) = NONCE_LEN"
    and "\<forall>stage \<in> set batch. length (ins_sigs stage) \<le> ZCASH_SIGN_BATCH_MAX_SIGNATURES
        \<and> (\<forall>s \<in> set (ins_sigs stage). signature_typed s)"
    and "store_ok db" and "\<forall>r \<in> set (stage_rows db). row_run_id r \<noteq> run_id"
    and "insert_denomination_stages_with_tx lib nonce run_id batch password salt_base64 db = (Inr (), db')"
  shows "denomination_stages_for_run lib db' run_id password salt_base64
    = Inr (map read_back (sort_key ins_stage_index batch))"
  by (rule batch_reads_back[OF assms])

theorem inserted_stages_read_back_witness:
  "denomination_stages_for_run plain_crypto sample_db ''run'' [7] (base64_encode plain_crypto [8])
     = Inr [read_back sample_stage]"
proof -
  have "denomination_stages_for_run plain_crypto sample_db ''run'' [7] (base64_encode plain_crypto [8])
     = Inr (map read_back (sort_key ins_stage_index [sample_stage]))"
    by (rule inserted_stages_read_back[OF plain_crypto_laws _ _ empty_db_ok _ sample_inserted])
      (simp_all add: NONCE_LEN_def empty_db_def sample_stage_def)
  then show ?thesis by simp
qed

section \<open>Locked inputs\<close>

lemma key_unique: "store_ok db \<Longrightarrow> r \<in> set (stage_rows db) \<Longrightarrow> s \<in> set (stage_rows db) \<Longrightarrow> stage_key r = stage_key s \<Longrightarrow> r = s"
  by (auto simp: store_ok_def distinct_map dest: inj_onD)

definition locked_rows :: "'t stage_db \<Rightarrow> string \<Rightarrow> input_row set" where
  "locked_rows db run_id = {i \<in> set (input_rows db). inr_run_id i = run_id
     \<and> (\<exists>s \<in> set (stage_rows db). stage_key s = (inr_run_id i, inr_stage_index i) \<and> row_status s \<noteq> ''confirmed'')}"

definition row_outpoint :: "input_row \<Rightarrow> string \<times> nat" where
  "row_outpoint i = (to_ascii_lowercase (sir_txid_hex (inr_input i)), sir_output_index (inr_input i))"

lemma locked_eq: "locked_denomination_stage_input_outpoints db run_id = row_outpoint ` locked_rows db run_id"
  unfolding locked_denomination_stage_input_outpoints_def locked_rows_def row_outpoint_def stage_key_def
  by (auto simp: image_iff split: if_splits)

lemma outpoints_distinct:
  assumes "stages_ok db" and "i \<in> set (input_rows db)" "j \<in> set (input_rows db)" and "inr_run_id i = inr_run_id j"
    and "row_outpoint i = row_outpoint j"
  shows "i = j"
proof -
  have "canonical_txid (sir_txid_hex (inr_input i))" "canonical_txid (sir_txid_hex (inr_input j))"
    using assms(1-3) by (auto simp: stages_ok_def ids_ok_def)
  with assms(5) have "sir_txid_hex (inr_input i) = sir_txid_hex (inr_input j)"
    "sir_output_index (inr_input i) = sir_output_index (inr_input j)"
    by (simp_all add: row_outpoint_def canonical_txid_def)
  moreover have "distinct (map (\<lambda>r. (inr_run_id r, sir_txid_hex (inr_input r), sir_output_index (inr_input r))) (input_rows db))"
    using assms(1) by (simp add: stages_ok_def store_ok_def)
  ultimately show ?thesis using assms(2-4) by (auto simp: distinct_map dest: inj_onD)
qed

lemma guarded_success:
  assumes "guarded_update label p f otherwise db = (Inr (), db')"
  shows "\<exists>n db1. update_stages p f db = (Inr n, db1) \<and> (if n = 1 then db' = db1 else otherwise db1 = (Inr (), db'))"
  using assms by (cases "update_stages p f db"; cases "fst (update_stages p f db)")
    (auto simp: guarded_update_def st_bind_def st_context_def split: if_splits)

lemma confirmed_rows:
  fixes db :: "'a stage_db"
  assumes ok: "store_ok db" and txid: "valid_txid txid" and r: "find_stage db run (to_ascii_lowercase txid) = Some r"
    and hash: "length block_hash = 32"
    and op: "mark_denomination_stage_confirmed_at run txid mined_height block_hash db = (Inr (), db')"
  shows "input_rows db' = input_rows db"
    and "stage_key s = k \<Longrightarrow> s \<in> set (stage_rows db') \<Longrightarrow> row_status s \<noteq> ''confirmed'' \<Longrightarrow> s \<in> set (stage_rows db) \<and> k \<noteq> stage_key r"
    and "s \<in> set (stage_rows db) \<Longrightarrow> s \<noteq> r \<Longrightarrow> s \<in> set (stage_rows db')"
proof -
  let ?t = "to_ascii_lowercase txid"
  let ?p = "\<lambda>r. row_run_id r = run \<and> row_expected_txid_hex r = ?t \<and> row_status r \<in> {''pending'', ''broadcasted''}"
  let ?f = "\<lambda>r. r\<lparr>row_status := ''confirmed'', row_confirmed_mined_height := Some mined_height,
                row_confirmed_block_hash := Some block_hash\<rparr>"
  note rr = found_row[OF ok r]
  have rin: "r \<in> set (stage_rows db)" using r find_stage_unique[OF ok] by blast
  have only: "?p x \<Longrightarrow> x \<in> set (stage_rows db) \<Longrightarrow> x = r" for x
    using r find_stage_unique[OF ok, of run ?t] by (metis option.inject)
  define found where "found = (\<lambda>db :: 'a stage_db. st_lift
       (res_bind (ok_or (find_stage db run ?t)
                   (Message ''Migration denomination stage {expected_txid_hex} was not found'' [AStr ?t])) (\<lambda>row.
        res_bind (status_parse (row_status row)) (\<lambda>status.
        if status \<noteq> Confirmed
        then Inl (Message ''Cannot move migration denomination stage from {} to confirmed'' [AStr (status_as_str status)])
        else if row_confirmed_mined_height row = Some mined_height \<and> row_confirmed_block_hash row = Some block_hash
          then Inr ()
        else Inl (Message ''Migration denomination stage {expected_txid_hex} moved to a different chain inclusion''
               [AStr ?t])))) db)"
  have "guarded_update ''Confirm migration denomination stage: {e}'' ?p ?f found db = (Inr (), db')"
    using op by (simp only: mark_denomination_stage_confirmed_at_def Let_def valid_bind[OF txid] guarded_update_def found_def)
  from guarded_success[OF this] obtain n db1 where u: "update_stages ?p ?f db = (Inr n, db1)"
    and rest: "if n = 1 then db' = db1 else found db1 = (Inr (), db')" by (elim exE conjE)
  have pid: "?p x \<Longrightarrow> row_run_id x = run \<and> row_expected_txid_hex x = ?t" for x :: "'a stage_row" by blast
  have "stage_row_checks (?f r)" using hash by simp
  with update_some[where p = ?p and f = ?f and run = run and txid = ?t, OF ok pid r] u
  have hit: "?p r \<Longrightarrow> n = 1" by fastforce
  have same: "\<not> ?p r \<Longrightarrow> n = 0 \<and> db1 = db"
    using update_none[where p = ?p and f = ?f and run = run and txid = ?t, OF ok pid] r u by fastforce
  have case1: "if n = 1 then db' = db1 else db' = db1 \<and> row_status r = ''confirmed''"
  proof (cases "n = 1")
    case False
    then have "db1 = db" using same hit by blast
    moreover from this False rest have "found db = (Inr (), db')" by simp
    with r have "db' = db" "row_status r = ''confirmed''"
      by (auto simp: found_def res_simps status_parse_def split: if_splits)
    ultimately show ?thesis by simp
  qed (use rest in simp)
  have db1: "stage_rows db1 = map (\<lambda>x. if ?p x then ?f x else x) (stage_rows db)" "input_rows db1 = input_rows db"
    and n: "n = length (filter ?p (stage_rows db))"
    using u by (auto simp: update_stages_def Let_def split: if_splits)
  have db': "db' = db1" using case1 by (auto split: if_splits)
  show "input_rows db' = input_rows db" by (simp add: db' db1)
  have done_: "?p r \<or> row_status r = ''confirmed''"
  proof (cases "n = 1")
    case True
    with same show ?thesis by auto
  qed (use case1 in auto)
  show "s \<in> set (stage_rows db')" if s: "s \<in> set (stage_rows db)" "s \<noteq> r"
  proof -
    have "\<not> ?p s" using only s by blast
    then have "(if ?p s then ?f s else s) = s" by (rule if_not_P)
    with imageI[OF s(1), of "\<lambda>x. if ?p x then ?f x else x"] show ?thesis by (simp only: db' db1(1) set_map)
  qed
  show "stage_key s = k \<Longrightarrow> s \<in> set (stage_rows db') \<Longrightarrow> row_status s \<noteq> ''confirmed'' \<Longrightarrow> s \<in> set (stage_rows db) \<and> k \<noteq> stage_key r"
  proof -
    assume k: "stage_key s = k" and s: "s \<in> set (stage_rows db')" "row_status s \<noteq> ''confirmed''"
    then obtain x where x: "x \<in> set (stage_rows db)" "s = (if ?p x then ?f x else x)" by (auto simp: db' db1(1))
    have np: "\<not> ?p x" using s(2) x(2) by auto
    have sx: "s = x" using x(2) unfolding if_not_P[OF np] .
    have "s \<noteq> r" using done_ s(2) sx np by blast
    then have "stage_key s \<noteq> stage_key r" using key_unique[OF ok _ rin] x(1) sx by blast
    then show ?thesis using x(1) sx k by simp
  qed
qed


text \<open>
  Recording the inclusion of a stage releases exactly its own inputs for ordinary spending: after a
  successful call the locked outpoints of the run are those locked before, without the inputs
  of that stage.
\<close>

theorem confirmation_releases_inputs:
  assumes "stages_ok db" and "valid_txid txid" and "length block_hash = 32"
    and "find_stage db run (to_ascii_lowercase txid) = Some r"
    and "mark_denomination_stage_confirmed_at run txid mined_height block_hash db = (Inr (), db')"
  shows "locked_denomination_stage_input_outpoints db' run
    = locked_denomination_stage_input_outpoints db run
      - (\<lambda>inp. (to_ascii_lowercase (sir_txid_hex inp), sir_output_index inp)) ` set (stage_inputs db run (row_stage_index r))"
proof -
  have ok: "store_ok db" using assms(1) by (simp add: stages_ok_def)
  note after = confirmed_rows[OF ok assms(2,4,3,5)]
  have r: "row_run_id r = run" "r \<in> set (stage_rows db)"
    using found_row[OF ok assms(4)] find_stage_unique[OF ok] assms(4) by blast+
  let ?own = "{i \<in> set (input_rows db). inr_run_id i = run \<and> inr_stage_index i = row_stage_index r}"
  have "locked_rows db' run = locked_rows db run - ?own"
  proof (rule set_eqI)
    fix i
    have "i \<in> locked_rows db' run \<longleftrightarrow> i \<in> set (input_rows db) \<and> inr_run_id i = run
        \<and> (\<exists>s \<in> set (stage_rows db'). stage_key s = (inr_run_id i, inr_stage_index i) \<and> row_status s \<noteq> ''confirmed'')"
      by (simp add: locked_rows_def after(1))
    also have "\<dots> \<longleftrightarrow> i \<in> locked_rows db run \<and> (inr_run_id i, inr_stage_index i) \<noteq> stage_key r"
      using after(2,3) by (fastforce simp: locked_rows_def)
    also have "\<dots> \<longleftrightarrow> i \<in> locked_rows db run - ?own"
      using r(1) by (auto simp: locked_rows_def stage_key_def)
    finally show "i \<in> locked_rows db' run \<longleftrightarrow> i \<in> locked_rows db run - ?own" .
  qed
  moreover have "row_outpoint ` (locked_rows db run - ?own) = row_outpoint ` locked_rows db run - row_outpoint ` ?own"
    by (rule inj_on_image_set_diff[of _ "{i \<in> set (input_rows db). inr_run_id i = run}"])
      (auto simp: inj_on_def locked_rows_def dest: outpoints_distinct[OF assms(1)])
  moreover have "row_outpoint ` ?own
      = (\<lambda>inp. (to_ascii_lowercase (sir_txid_hex inp), sir_output_index inp)) ` set (stage_inputs db run (row_stage_index r))"
    by (auto simp: stage_inputs_def row_outpoint_def image_image)
  ultimately show ?thesis by (simp add: locked_eq)
qed

theorem confirmation_releases_inputs_witness:
  "\<exists>db. mark_denomination_stage_confirmed_at ''run'' sample_txid 120 (replicate 32 5) sample_db = (Inr (), db)
     \<and> (replicate 64 CHR ''b'', 1) \<notin> locked_denomination_stage_input_outpoints db ''run''"
proof -
  have ok: "store_ok sample_db" using sample_ok by (simp add: stages_ok_def)
  have "implements_move (''run'', sample_txid) (mark_denomination_stage_confirmed_at ''run'' sample_txid 120 (replicate 32 5))
      (confirm_move 120 (replicate 32 5))"
    using confirm_implements[OF sample_txids(1) length_replicate[of 32 5], of "''run''" 120] by (simp only: sample_txids(2))
  from implements_moveD[OF this ok sample_stage_ready confirm_move.simps(2)] obtain db where
    db: "mark_denomination_stage_confirmed_at ''run'' sample_txid 120 (replicate 32 5) sample_db = (Inr (), db)" by blast
  obtain row where row: "find_stage sample_db ''run'' sample_txid = Some row" "row_stage_index row = 3"
    using sample_found by blast
  from row(1) have "find_stage sample_db ''run'' (to_ascii_lowercase sample_txid) = Some row" by (simp only: sample_txids(2))
  from confirmation_releases_inputs[OF sample_ok sample_txids(1) length_replicate this db]
  have "locked_denomination_stage_input_outpoints db ''run'' = locked_denomination_stage_input_outpoints sample_db ''run''
      - (\<lambda>inp. (to_ascii_lowercase (sir_txid_hex inp), sir_output_index inp)) ` set (map lower_input (ins_inputs sample_stage))"
    by (simp only: row(2) sample_inputs)
  moreover have "(replicate 64 CHR ''b'', 1)
      \<in> (\<lambda>inp. (to_ascii_lowercase (sir_txid_hex inp), sir_output_index inp)) ` set (map lower_input (ins_inputs sample_stage))"
    by (simp add: sample_stage_def lower_input_def repeated_digit digits)
  ultimately show ?thesis using db by blast
qed

section \<open>Catching up\<close>

text \<open>
  A catch-up after a missed preparation broadcast gives every stage not yet submitted a new height and
  changes nothing else. In the order in which the stages were due the new heights never
  decrease, none lies below the chain tip and no stage becomes due earlier than before.
\<close>

theorem catch_up_keeps_order:
  assumes "store_ok db"
    and "rerandomize_remaining_preparation_broadcast_heights rng fp Zip318Spaced timing_policy run_id network
          chain_tip_height db r = Some ((Inr n, db'), r')"
  shows "n = length (remaining_stages db run_id)
    \<and> (\<exists>h. db' = db\<lparr>stage_rows := map (\<lambda>s. if unsubmitted run_id s
              then s\<lparr>row_broadcast_not_before_height := Some (h (row_stage_index s))\<rparr> else s) (stage_rows db)\<rparr>
        \<and> sorted (chain_tip_height # map (\<lambda>s. h (row_stage_index s)) (remaining_stages db run_id))
        \<and> (\<forall>s \<in> set (remaining_stages db run_id). row_effective_height s \<le> h (row_stage_index s)))"
proof -
  let ?rows = "map (\<lambda>s. (row_stage_index s, row_scheduled_height s, row_broadcast_not_before_height s)) (remaining_stages db run_id)"
  from assms(2) obtain count where
      loop: "catch_up_loop (preparation_delay_with_rng rng fp network timing_policy count) run_id ?rows chain_tip_height db r
        = Some ((Inr (), db'), r')"
    and n: "n = length (remaining_stages db run_id)"
    by (auto simp: rerandomize_remaining_preparation_broadcast_heights_def Let_def res_simps
        split: sum.splits Option.bind_splits if_splits)
  have "map fst ?rows = map row_stage_index (remaining_stages db run_id)" by (simp add: comp_def)
  then have "distinct (map fst ?rows)" using remaining_distinct[OF assms(1)] by (simp only:)
  from catch_up_loop_spec[OF loop this] obtain h where
      h: "rescheduled run_id (fst ` set ?rows) h db db'" "sorted (chain_tip_height # map (h \<circ> fst) ?rows)"
        "\<forall>(i, s, b) \<in> set ?rows. s \<le> h i \<and> (case b of None \<Rightarrow> 0 | Some b \<Rightarrow> b) \<le> h i" by blast
  have "unsubmitted run_id s \<and> row_stage_index s \<in> fst ` set ?rows \<longleftrightarrow> unsubmitted run_id s" if "s \<in> set (stage_rows db)" for s
    using that by (force simp: remaining_stages_def)
  then have "map (\<lambda>s. if unsubmitted run_id s \<and> row_stage_index s \<in> fst ` set ?rows
        then s\<lparr>row_broadcast_not_before_height := Some (h (row_stage_index s))\<rparr> else s) (stage_rows db)
      = map (\<lambda>s. if unsubmitted run_id s
        then s\<lparr>row_broadcast_not_before_height := Some (h (row_stage_index s))\<rparr> else s) (stage_rows db)"
    by (intro map_cong refl if_cong) simp_all
  then have "db' = db\<lparr>stage_rows := map (\<lambda>s. if unsubmitted run_id s
      then s\<lparr>row_broadcast_not_before_height := Some (h (row_stage_index s))\<rparr> else s) (stage_rows db)\<rparr>"
    using h(1) unfolding rescheduled_def by (simp only:)
  moreover have "\<forall>s \<in> set (remaining_stages db run_id). row_effective_height s \<le> h (row_stage_index s)"
    using h(3) by (auto simp: row_effective_height_def)
  moreover have "sorted (chain_tip_height # map (\<lambda>s. h (row_stage_index s)) (remaining_stages db run_id))"
    using h(2) by (simp add: comp_def)
  ultimately show ?thesis using n by blast
qed

lemma sample_catch_up:
  "\<exists>db'. rerandomize_remaining_preparation_broadcast_heights half_source plain_arith Zip318Spaced Standard ''run'' Net_Main
      500 sample_db 0 = Some ((Inr 1, db'), 1)"
proof -
  obtain row where row: "stage_rows sample_db = [row]" "row_run_id row = ''run''" "row_stage_index row = 3"
      "row_status row = ''pending''" "row_scheduled_height row = 110" "row_broadcast_not_before_height row = None"
    using sample_row_facts by blast
  have "store_ok sample_db" using sample_ok by (simp add: stages_ok_def)
  then have "stage_row_checks row" by (simp add: store_ok_def row(1))
  then have "stage_row_checks (row\<lparr>row_broadcast_not_before_height := Some 508\<rparr>)" by (simp add: stage_row_checks_def)
  then have update: "update_stages (\<lambda>s. row_run_id s = ''run'' \<and> row_stage_index s = 3
        \<and> row_status s \<in> {''awaiting_inputs'', ''pending''})
      (\<lambda>s. s\<lparr>row_broadcast_not_before_height := Some 508\<rparr>) sample_db
    = (Inr 1, sample_db\<lparr>stage_rows := [row\<lparr>row_broadcast_not_before_height := Some 508\<rparr>]\<rparr>)"
    by (simp add: update_stages_def row)
  have delay: "preparation_delay_with_rng half_source plain_arith Net_Main Standard 1 0 = Some (8, 1)"
    by (simp add: preparation_delay_with_rng_def
        preparation_schedule_parameters_for_transaction_count_def preparation_schedule_parameters_def delay_tables
        DENSE_PREPARATION_TRANSACTION_THRESHOLD_def half_source_delay[of 16 8 96])
  have remaining: "remaining_stages sample_db ''run'' = [row]" by (simp add: remaining_stages_def unsubmitted_def row)
  have count: "count_stages_for_run sample_db ''run'' = Inr 1" by (simp add: count_stages_for_run_def row)
  have eff: "max (max (500 + 8) 110) (case None of None \<Rightarrow> 0 | Some h \<Rightarrow> h) = (508 :: nat)" by simp
  have "catch_up_loop (preparation_delay_with_rng half_source plain_arith Net_Main Standard 1) ''run'' [(3, 110, None)] 500
      sample_db 0 = Some ((Inr (), sample_db\<lparr>stage_rows := [row\<lparr>row_broadcast_not_before_height := Some 508\<rparr>]\<rparr>), 1)"
    by (simp add: delay[unfolded One_nat_def] checked_add_def update[simplified] st_context_def)
  then show ?thesis
    by (simp add: rerandomize_remaining_preparation_broadcast_heights_def count remaining row del: One_nat_def catch_up_loop.simps cong: if_cong)
qed

theorem catch_up_keeps_order_witness:
  "\<exists>db' h. rerandomize_remaining_preparation_broadcast_heights half_source plain_arith Zip318Spaced Standard ''run''
      Net_Main 500 sample_db 0 = Some ((Inr 1, db'), 1)
    \<and> db' = sample_db\<lparr>stage_rows := map (\<lambda>s. if unsubmitted ''run'' s
          then s\<lparr>row_broadcast_not_before_height := Some (h (row_stage_index s))\<rparr> else s) (stage_rows sample_db)\<rparr>"
proof -
  obtain db' where run: "rerandomize_remaining_preparation_broadcast_heights half_source plain_arith Zip318Spaced Standard
      ''run'' Net_Main 500 sample_db 0 = Some ((Inr 1, db'), 1)" using sample_catch_up by blast
  have "store_ok sample_db" using sample_ok by (simp add: stages_ok_def)
  from catch_up_keeps_order[OF this run] run show ?thesis by blast
qed

end
