(* ===== verification/Run_Store.thy ===== *)
theory Run_Store
  imports Stage_Catchup Denominations Anchors
begin

text \<open>
  The migration runs of wallet/sync/migration.rs: their phases, the tables beside the stages (runs,
  prepared notes, pending transactions, signed children) with the statements the code runs on them,
  and the reads of the wallet's own tables. A JSON column is the value it decodes to, \<open>None\<close> for a
  text the decoder rejects. Failures of SQLite, the upgrade of older databases and the column
  conversions of integers that fit their type are not modelled. Timestamps are arguments.
\<close>

section \<open>Phases of a run\<close>

definition PHASE_NO_ORCHARD_FUNDS :: string where "PHASE_NO_ORCHARD_FUNDS = ''no_orchard_funds''"
definition PHASE_AWAITING_PREPARATION :: string where "PHASE_AWAITING_PREPARATION = ''awaiting_preparation''"
definition PHASE_AWAITING_DENOMINATION_SIGNATURE :: string where
  "PHASE_AWAITING_DENOMINATION_SIGNATURE = ''awaiting_denomination_signature''"
definition PHASE_WAITING_DENOM_CONFIRMATIONS :: string where
  "PHASE_WAITING_DENOM_CONFIRMATIONS = ''waiting_denom_confirmations''"
definition PHASE_READY_TO_MIGRATE :: string where "PHASE_READY_TO_MIGRATE = ''ready_to_migrate''"
definition PHASE_BROADCAST_SCHEDULED :: string where "PHASE_BROADCAST_SCHEDULED = ''broadcast_scheduled''"
definition PHASE_BROADCASTING :: string where "PHASE_BROADCASTING = ''broadcasting''"
definition PHASE_WAITING_MIGRATION_CONFIRMATIONS :: string where
  "PHASE_WAITING_MIGRATION_CONFIRMATIONS = ''waiting_migration_confirmations''"
definition PHASE_COMPLETE :: string where "PHASE_COMPLETE = ''complete''"
definition PHASE_FAILED_TERMINAL :: string where "PHASE_FAILED_TERMINAL = ''failed_terminal''"
definition PHASE_ABANDONED :: string where "PHASE_ABANDONED = ''abandoned''"

lemmas phase_defs = PHASE_NO_ORCHARD_FUNDS_def PHASE_AWAITING_PREPARATION_def
  PHASE_AWAITING_DENOMINATION_SIGNATURE_def PHASE_WAITING_DENOM_CONFIRMATIONS_def PHASE_READY_TO_MIGRATE_def
  PHASE_BROADCAST_SCHEDULED_def PHASE_BROADCASTING_def PHASE_WAITING_MIGRATION_CONFIRMATIONS_def
  PHASE_COMPLETE_def PHASE_FAILED_TERMINAL_def PHASE_ABANDONED_def

definition migration_phase_releases_wallet_locks :: "string \<Rightarrow> bool" where
  "migration_phase_releases_wallet_locks phase \<longleftrightarrow>
     phase = PHASE_COMPLETE \<or> phase = PHASE_FAILED_TERMINAL \<or> phase = PHASE_ABANDONED"

definition is_private_migration_draft_phase :: "string \<Rightarrow> bool" where
  "is_private_migration_draft_phase phase \<longleftrightarrow>
     phase = PHASE_AWAITING_PREPARATION \<or> phase = PHASE_AWAITING_DENOMINATION_SIGNATURE"

definition network_name :: "wallet_network \<Rightarrow> string" where
  "network_name network = (case network of
       Net_Main \<Rightarrow> ''main'' | Net_Test \<Rightarrow> ''test'' | Net_Regtest \<Rightarrow> ''regtest'')"

section \<open>Values of the interface\<close>

record prepared_note_ref =
  pn_txid_hex :: string
  pn_output_index :: nat
  pn_value_zatoshi :: zatoshi
  pn_note_version :: nat
  pn_nullifier_hex :: "string option"

record pending_metadata =
  md_tx_kind :: string
  md_funding_account_uuid :: string
  md_selected_note :: prepared_note_ref

record pending_insert =
  pi_part_index :: nat
  pi_txid_hex :: string
  pi_raw_tx :: "byte list"
  pi_target_height :: height
  pi_anchor_boundary_height :: "height option"
  pi_expiry_height :: height
  pi_scheduled_height :: height
  pi_value_zatoshi :: zatoshi
  pi_fee_zatoshi :: zatoshi
  pi_selected_note :: prepared_note_ref
  pi_metadata :: pending_metadata

record signed_child_insert =
  si_message_id :: string
  si_child_index :: nat
  si_base_pczt :: "byte list"
  si_sigs :: "spend_auth_signature list"
  si_target_height :: height
  si_anchor_boundary_height :: "height option"
  si_expiry_height :: height
  si_scheduled_height :: height
  si_value_zatoshi :: zatoshi
  si_fee_zatoshi :: zatoshi
  si_selected_note :: prepared_note_ref
  si_metadata :: pending_metadata

record due_pending_tx =
  due_txid_hex :: string
  due_raw_tx :: "byte list"

record part_recovery =
  rec_part_index :: nat
  rec_old_txid_hex :: string
  rec_value_zatoshi :: zatoshi
  rec_fee_zatoshi :: zatoshi
  rec_selected_note :: prepared_note_ref

record active_run_info =
  ar_run_id :: string
  ar_phase :: string
  ar_target_values_zatoshi :: "zatoshi list"
  ar_last_error :: "string option"

section \<open>Tables\<close>

type_synonym 'a json = "'a option"

record run_row =
  mr_run_id :: string
  mr_account_uuid :: string
  mr_network :: string
  mr_db_fingerprint :: string
  mr_phase :: string
  mr_created_at_ms :: int
  mr_updated_at_ms :: int
  mr_target_values :: "zatoshi list json"
  mr_schedule :: "migration_schedule_entry list json"
  mr_timing_policy :: string
  mr_preparation_timing_policy :: string
  mr_proof_retry_height :: "height option"
  mr_signed_schedule_origin_height :: "height option"
  mr_initial_schedule_rebased_origin_height :: "height option"
  mr_recovery_schedule_origin_height :: "height option"
  mr_recovery_schedule_max_block_offset :: "nat option"
  mr_last_error :: "string option"

record note_row =
  nr_run_id :: string
  nr_txid_hex :: string
  nr_output_index :: nat
  nr_value_zatoshi :: zatoshi
  nr_note_version :: nat
  nr_nullifier_hex :: "string option"
  nr_lock_state :: string

record 't pending_row =
  pd_run_id :: string
  pd_txid_hex :: string
  pd_part_index :: "nat option"
  pd_encrypted_raw_tx :: 't
  pd_target_height :: height
  pd_anchor_boundary_height :: "height option"
  pd_expiry_height :: height
  pd_value_zatoshi :: zatoshi
  pd_fee_zatoshi :: zatoshi
  pd_selected_note_txid :: string
  pd_selected_note_output_index :: nat
  pd_selected_note_value :: zatoshi
  pd_scheduled_at_ms :: int
  pd_schedule_start_height :: "height option"
  pd_scheduled_height :: height
  pd_original_scheduled_height :: "height option"
  pd_rebuild_block_offset :: "nat option"
  pd_broadcast_attempted :: nat
  pd_status :: string
  pd_metadata :: "pending_metadata json"

record 't child_row =
  ch_run_id :: string
  ch_message_id :: string
  ch_child_index :: nat
  ch_encrypted_base_pczt :: 't
  ch_encrypted_compact_sigs :: 't
  ch_target_height :: height
  ch_anchor_boundary_height :: "height option"
  ch_expiry_height :: height
  ch_scheduled_height :: "height option"
  ch_value_zatoshi :: zatoshi
  ch_fee_zatoshi :: zatoshi
  ch_selected_note :: "prepared_note_ref json"
  ch_metadata :: "pending_metadata json"

record 't migration_db =
  db_stages :: "'t stage_db"
  db_runs :: "run_row list"
  db_notes :: "note_row list"
  db_pending :: "'t pending_row list"
  db_children :: "'t child_row list"

section \<open>Statements\<close>

text \<open>\<open>UPDATE ... SET f WHERE p\<close> returns the number of rows that met \<open>p\<close>; \<open>DELETE\<close> drops them.\<close>

definition update_where :: "('r \<Rightarrow> bool) \<Rightarrow> ('r \<Rightarrow> 'r) \<Rightarrow> 'r list \<Rightarrow> 'r list" where
  "update_where p f rows = map (\<lambda>r. if p r then f r else r) rows"

definition update_runs :: "(run_row \<Rightarrow> bool) \<Rightarrow> (run_row \<Rightarrow> run_row) \<Rightarrow> ('t migration_db, nat) store_op" where
  "update_runs p f db =
     (Inr (length (filter p (db_runs db))), db\<lparr>db_runs := update_where p f (db_runs db)\<rparr>)"

definition update_pending ::
    "('t pending_row \<Rightarrow> bool) \<Rightarrow> ('t pending_row \<Rightarrow> 't pending_row) \<Rightarrow> ('t migration_db, nat) store_op" where
  "update_pending p f db =
     (Inr (length (filter p (db_pending db))), db\<lparr>db_pending := update_where p f (db_pending db)\<rparr>)"

definition update_notes :: "(note_row \<Rightarrow> bool) \<Rightarrow> (note_row \<Rightarrow> note_row) \<Rightarrow> ('t migration_db, nat) store_op" where
  "update_notes p f db =
     (Inr (length (filter p (db_notes db))), db\<lparr>db_notes := update_where p f (db_notes db)\<rparr>)"

definition update_children ::
    "('t child_row \<Rightarrow> bool) \<Rightarrow> ('t child_row \<Rightarrow> 't child_row) \<Rightarrow> ('t migration_db, nat) store_op" where
  "update_children p f db =
     (Inr (length (filter p (db_children db))), db\<lparr>db_children := update_where p f (db_children db)\<rparr>)"

definition delete_pending :: "('t pending_row \<Rightarrow> bool) \<Rightarrow> ('t migration_db, unit) store_op" where
  "delete_pending p db = (Inr (), db\<lparr>db_pending := filter (\<lambda>r. \<not> p r) (db_pending db)\<rparr>)"

definition delete_children :: "('t child_row \<Rightarrow> bool) \<Rightarrow> ('t migration_db, unit) store_op" where
  "delete_children p db = (Inr (), db\<lparr>db_children := filter (\<lambda>r. \<not> p r) (db_children db)\<rparr>)"

text \<open>Inserts under the keys of the schema; \<open>INSERT OR REPLACE\<close> first drops the row with the same key.\<close>

definition insert_run_row :: "run_row \<Rightarrow> ('t migration_db, unit) store_op" where
  "insert_run_row row db =
     (if mr_run_id row \<in> mr_run_id ` set (db_runs db) then (Inl (Msg ''UNIQUE constraint failed''), db)
      else (Inr (), db\<lparr>db_runs := db_runs db @ [row]\<rparr>))"

definition pending_part_key :: "'t pending_row \<Rightarrow> (string \<times> nat) option" where
  "pending_part_key r = map_option (Pair (pd_run_id r)) (pd_part_index r)"

definition insert_pending_row :: "'t pending_row \<Rightarrow> ('t migration_db, unit) store_op" where
  "insert_pending_row row db =
     (if pd_txid_hex row \<in> pd_txid_hex ` set (db_pending db)
         \<or> (pending_part_key row \<noteq> None \<and> pending_part_key row \<in> pending_part_key ` set (db_pending db))
      then (Inl (Msg ''UNIQUE constraint failed''), db)
      else (Inr (), db\<lparr>db_pending := db_pending db @ [row]\<rparr>))"

definition replace_note_row :: "note_row \<Rightarrow> ('t migration_db, unit) store_op" where
  "replace_note_row row db =
     (Inr (), db\<lparr>db_notes := filter (\<lambda>r. \<not> (nr_run_id r = nr_run_id row \<and> nr_txid_hex r = nr_txid_hex row
         \<and> nr_output_index r = nr_output_index row)) (db_notes db) @ [row]\<rparr>)"

definition replace_child_row :: "'t child_row \<Rightarrow> ('t migration_db, unit) store_op" where
  "replace_child_row row db =
     (Inr (), db\<lparr>db_children := filter (\<lambda>r. \<not> (ch_run_id r = ch_run_id row \<and> ch_message_id r = ch_message_id row))
        (db_children db) @ [row]\<rparr>)"

text \<open>An operation of the stage tables, a read, and a transaction that rolls back on failure.\<close>

definition on_stages :: "('t stage_db, 'a) store_op \<Rightarrow> ('t migration_db, 'a) store_op" where
  "on_stages m db = (case m (db_stages db) of (result, stages) \<Rightarrow> (result, db\<lparr>db_stages := stages\<rparr>))"

definition st_read :: "('s \<Rightarrow> 'a outcome) \<Rightarrow> ('s, 'a) store_op" where
  "st_read f s = (f s, s)"

abbreviation transaction :: "('s, 'a) store_op \<Rightarrow> ('s, 'a) store_op" where
  "transaction \<equiv> savepoint"

lemma st_read_eq [simp]: "st_read f s = (f s, s)"
  by (simp add: st_read_def)

text \<open>
  Computations that also draw random numbers thread the state of the generator; \<open>None\<close> is a draw
  that never ends.
\<close>

type_synonym ('s, 'r, 'a) draw_op = "'s \<Rightarrow> 'r \<Rightarrow> (('a outcome \<times> 's) \<times> 'r) option"

definition dr_store :: "('s, 'a) store_op \<Rightarrow> ('s, 'r, 'a) draw_op" where
  "dr_store m s r = Some (m s, r)"

definition dr_draw :: "('r \<Rightarrow> ('a \<times> 'r) option) \<Rightarrow> ('s, 'r, 'a) draw_op" where
  "dr_draw f s r = map_option (\<lambda>(x, r). ((Inr x, s), r)) (f r)"

definition dr_bind :: "('s, 'r, 'a) draw_op \<Rightarrow> ('a \<Rightarrow> ('s, 'r, 'b) draw_op) \<Rightarrow> ('s, 'r, 'b) draw_op" where
  "dr_bind m f s r =
     (case m s r of
        None \<Rightarrow> None
      | Some ((Inl e, s), r) \<Rightarrow> Some ((Inl e, s), r)
      | Some ((Inr x, s), r) \<Rightarrow> f x s r)"

definition dr_transaction :: "('s, 'r, 'a) draw_op \<Rightarrow> ('s, 'r, 'a) draw_op" where
  "dr_transaction m s r =
     map_option (\<lambda>((result, s'), r). ((result, case result of Inl e \<Rightarrow> s | Inr _ \<Rightarrow> s'), r)) (m s r)"

text \<open>\<open>start + blocks * 1000\<close> milliseconds as \<open>i64\<close>.\<close>

definition checked_time :: "int \<Rightarrow> nat \<Rightarrow> string \<Rightarrow> int outcome" where
  "checked_time start blocks label =
     (if start + int blocks * 1000 < 2 ^ 63 then Inr (start + int blocks * 1000) else Inl (Msg label))"

section \<open>Reading runs\<close>

definition NO_ROWS :: message where
  "NO_ROWS = Msg ''Query returned no rows''"

definition find_run :: "'t migration_db \<Rightarrow> string \<Rightarrow> run_row option" where
  "find_run db run_id = find (\<lambda>r. mr_run_id r = run_id) (db_runs db)"

definition run_column :: "string \<Rightarrow> (run_row \<Rightarrow> 'a) \<Rightarrow> string \<Rightarrow> 't migration_db \<Rightarrow> 'a outcome" where
  "run_column label column run_id db =
     res_bind (ok_or (find_run db run_id) (Message label [AMsg NO_ROWS])) (\<lambda>run. Inr (column run))"

definition from_json :: "string \<Rightarrow> 'a json \<Rightarrow> 'a outcome" where
  "from_json label column = ok_or column (Message label [AMsg (Msg ''invalid JSON'')])"

definition timing_policy_for_run_with_conn :: "string \<Rightarrow> 't migration_db \<Rightarrow> migration_timing_policy outcome" where
  "timing_policy_for_run_with_conn run_id db =
     res_bind (run_column ''Read migration timing policy: {e}'' mr_timing_policy run_id db) timing_policy_from_str"

definition preparation_timing_policy_for_run_with_conn ::
    "string \<Rightarrow> 't migration_db \<Rightarrow> preparation_timing_policy outcome" where
  "preparation_timing_policy_for_run_with_conn run_id db =
     res_bind (run_column ''Read migration preparation timing policy: {e}'' mr_preparation_timing_policy run_id db)
       preparation_policy_from_str"

definition run_phase :: "string \<Rightarrow> 't migration_db \<Rightarrow> string outcome" where
  "run_phase run_id db = run_column ''Read migration run phase: {e}'' mr_phase run_id db"

definition mark_run_phase :: "int \<Rightarrow> string \<Rightarrow> string \<Rightarrow> string option \<Rightarrow> ('t migration_db, unit) store_op" where
  "mark_run_phase now run_id phase msg =
     st_bind (update_runs (\<lambda>r. mr_run_id r = run_id)
       (\<lambda>r. r\<lparr>mr_phase := phase, mr_updated_at_ms := now, mr_last_error := msg\<rparr>)) (\<lambda>_. st_return ())"

definition active_run :: "string \<Rightarrow> wallet_network \<Rightarrow> 't migration_db \<Rightarrow> active_run_info option" where
  "active_run account_uuid network db =
     (case sort_key (\<lambda>r. - mr_created_at_ms r) (filter (\<lambda>r. mr_account_uuid r = account_uuid
             \<and> mr_network r = network_name network
             \<and> mr_phase r \<notin> {PHASE_NO_ORCHARD_FUNDS, PHASE_COMPLETE, PHASE_FAILED_TERMINAL, PHASE_ABANDONED})
           (db_runs db)) of
        [] \<Rightarrow> None
      | run # _ \<Rightarrow> Some \<lparr>ar_run_id = mr_run_id run, ar_phase = mr_phase run,
          ar_target_values_zatoshi = (case mr_target_values run of None \<Rightarrow> [] | Some vs \<Rightarrow> vs),
          ar_last_error = mr_last_error run\<rparr>)"

definition latest_completed_run :: "string \<Rightarrow> wallet_network \<Rightarrow> 't migration_db \<Rightarrow> active_run_info option" where
  "latest_completed_run account_uuid network db =
     (case sort_key (\<lambda>r. (- mr_updated_at_ms r, - mr_created_at_ms r)) (filter (\<lambda>r. mr_account_uuid r = account_uuid
             \<and> mr_network r = network_name network \<and> mr_phase r = PHASE_COMPLETE) (db_runs db)) of
        [] \<Rightarrow> None
      | run # _ \<Rightarrow> Some \<lparr>ar_run_id = mr_run_id run, ar_phase = mr_phase run,
          ar_target_values_zatoshi = (case mr_target_values run of None \<Rightarrow> [] | Some vs \<Rightarrow> vs),
          ar_last_error = mr_last_error run\<rparr>)"

section \<open>Counts\<close>

definition count_u32 :: "nat \<Rightarrow> nat outcome" where
  "count_u32 n = (if n < 2 ^ 32 then Inr n else Inl (Msg ''Migration count overflow''))"

definition pending_of_run :: "string \<Rightarrow> 't migration_db \<Rightarrow> 't pending_row list" where
  "pending_of_run run_id db = filter (\<lambda>r. pd_run_id r = run_id) (db_pending db)"

definition children_of_run :: "string \<Rightarrow> 't migration_db \<Rightarrow> 't child_row list" where
  "children_of_run run_id db = filter (\<lambda>r. ch_run_id r = run_id) (db_children db)"

definition count_pending_for_run :: "string \<Rightarrow> 't migration_db \<Rightarrow> nat outcome" where
  "count_pending_for_run run_id db = count_u32 (length (pending_of_run run_id db))"

definition count_pending_with_status :: "string \<Rightarrow> string \<Rightarrow> 't migration_db \<Rightarrow> nat outcome" where
  "count_pending_with_status run_id status db =
     count_u32 (length (filter (\<lambda>r. pd_status r = status) (pending_of_run run_id db)))"

definition planned_part_count_with_conn :: "string \<Rightarrow> 't migration_db \<Rightarrow> nat outcome" where
  "planned_part_count_with_conn run_id db =
     res_bind (run_column ''Read migration planned part count: {e}'' mr_target_values run_id db) (\<lambda>column.
     res_bind (from_json ''Decode migration planned part count: {e}'' column) (\<lambda>target_values.
     if length target_values < 2 ^ 32 then Inr (length target_values)
     else Inl (Msg ''Migration part count overflow'')))"

definition pending_migration_note_outpoints_with_conn :: "string \<Rightarrow> 't migration_db \<Rightarrow> (string \<times> nat) set" where
  "pending_migration_note_outpoints_with_conn run_id db =
     (\<lambda>r. (to_ascii_lowercase (pd_selected_note_txid r), pd_selected_note_output_index r)) ` set (pending_of_run run_id db)"

definition unpromoted_signed_child_note_outpoints_with_conn ::
    "string \<Rightarrow> 't migration_db \<Rightarrow> (string \<times> nat) list outcome" where
  "unpromoted_signed_child_note_outpoints_with_conn run_id db =
     res_bind (res_map (\<lambda>c. res_bind
         (from_json ''Decode unpromoted signed migration PCZT note: {e}'' (ch_selected_note c)) (\<lambda>note.
         Inr (to_ascii_lowercase (pn_txid_hex note), pn_output_index note))) (children_of_run run_id db)) (\<lambda>outpoints.
     Inr (filter (\<lambda>outpoint. outpoint \<notin> pending_migration_note_outpoints_with_conn run_id db) outpoints))"

definition unpromoted_signed_child_pczt_count_with_conn :: "string \<Rightarrow> 't migration_db \<Rightarrow> nat outcome" where
  "unpromoted_signed_child_pczt_count_with_conn run_id db =
     res_bind (unpromoted_signed_child_note_outpoints_with_conn run_id db) (\<lambda>outpoints.
     if length outpoints < 2 ^ 32 then Inr (length outpoints)
     else Inl (Msg ''Signed migration PCZT count overflow''))"

definition migration_part_assignment_complete_with_conn :: "string \<Rightarrow> 't migration_db \<Rightarrow> bool outcome" where
  "migration_part_assignment_complete_with_conn run_id db =
     res_bind (planned_part_count_with_conn run_id db) (\<lambda>planned_count.
     res_bind (count_pending_for_run run_id db) (\<lambda>pending_count.
     res_bind (unpromoted_signed_child_pczt_count_with_conn run_id db) (\<lambda>signed_count.
     res_bind (ok_or (checked_add 32 pending_count signed_count)
        (Msg ''Migration assigned part count overflow'')) (\<lambda>assigned_count.
     Inr (0 < planned_count \<and> assigned_count = planned_count)))))"

definition migration_child_materialization_exists_with_conn :: "string \<Rightarrow> 't migration_db \<Rightarrow> bool" where
  "migration_child_materialization_exists_with_conn run_id db \<longleftrightarrow>
     children_of_run run_id db \<noteq> [] \<or> pending_of_run run_id db \<noteq> []"

section \<open>The wallet's own tables\<close>

record wallet_tx =
  wt_txid :: "byte list"
  wt_block :: "height option"
  wt_mined_height :: "height option"
  wt_raw :: "byte list option"

record received_note =
  rn_txid :: "byte list"
  rn_action_index :: nat
  rn_value :: zatoshi
  rn_note_version :: nat
  rn_nf :: "byte list option"
  rn_commitment_tree_position :: "nat option"

text \<open>
  The tables of the wallet library, read only here, and what the code takes from other crates: the
  hexadecimal codec and the trusted depth of the default confirmations policy.
\<close>

record wallet_view =
  wv_transactions :: "wallet_tx list"
  wv_blocks :: "(height \<times> byte list) list"
  wv_scanned_ranges :: "(height \<times> height) list"
  wv_received_notes :: "received_note list"
  wv_hex_decode :: "string \<Rightarrow> byte list outcome"
  wv_hex_encode :: "byte list \<Rightarrow> string"
  wv_trusted_confirmations :: nat

definition txid_blob_variants :: "wallet_view \<Rightarrow> string \<Rightarrow> byte list list outcome" where
  "txid_blob_variants wv txid_hex =
     (case wv_hex_decode wv txid_hex of
        Inl e \<Rightarrow> Inl (Message ''Bad migration txid hex: {e}'' [AMsg e])
      | Inr bytes \<Rightarrow>
          if length bytes \<noteq> 32 then Inl (Msg ''Migration txid must be 32 bytes'')
          else Inr (if rev bytes \<noteq> bytes then [bytes, rev bytes] else [bytes]))"

definition block_inclusion :: "wallet_view \<Rightarrow> byte list \<Rightarrow> (height \<times> byte list) option" where
  "block_inclusion wv txid_blob =
     (case List.map_filter (\<lambda>t. if wt_txid t = txid_blob
              then Option.bind (wt_block t) (\<lambda>h. map_option (Pair h) (map_of (wv_blocks wv) h)) else None)
            (wv_transactions wv) of
        [] \<Rightarrow> None | found # _ \<Rightarrow> Some found)"

fun first_inclusion :: "wallet_view \<Rightarrow> byte list list \<Rightarrow> (height \<times> byte list) option outcome" where
  "first_inclusion wv [] = Inr None"
| "first_inclusion wv (txid_blob # rest) =
     (case block_inclusion wv txid_blob of
        None \<Rightarrow> first_inclusion wv rest
      | Some (mined_height, block_hash) \<Rightarrow>
          if length block_hash = 32 then Inr (Some (mined_height, block_hash))
          else Inl (Msg ''Migration denomination block hash must be 32 bytes''))"

definition local_denomination_chain_identity ::
    "wallet_view \<Rightarrow> string \<Rightarrow> (height \<times> byte list) option outcome" where
  "local_denomination_chain_identity wv txid_hex = res_bind (txid_blob_variants wv txid_hex) (first_inclusion wv)"

fun first_raw :: "wallet_view \<Rightarrow> byte list list \<Rightarrow> byte list option" where
  "first_raw wv [] = None"
| "first_raw wv (txid_blob # rest) =
     (case find (\<lambda>t. wt_txid t = txid_blob \<and> wt_raw t \<noteq> None) (wv_transactions wv) of
        None \<Rightarrow> first_raw wv rest | Some t \<Rightarrow> wt_raw t)"

definition local_transaction_raw :: "wallet_view \<Rightarrow> string \<Rightarrow> byte list option outcome" where
  "local_transaction_raw wv txid_hex =
     res_bind (txid_blob_variants wv txid_hex) (\<lambda>variants. Inr (first_raw wv variants))"

definition synced_orchard_confirmation_count :: "wallet_view \<Rightarrow> height \<Rightarrow> nat" where
  "synced_orchard_confirmation_count wv h =
     (case sort_key (\<lambda>(a, b). - int b) (filter (\<lambda>(a, b). a \<le> h \<and> h < b) (wv_scanned_ranges wv)) of
        [] \<Rightarrow> 0
      | (range_start, range_end) # _ \<Rightarrow>
          if h < range_start \<or> range_end \<le> h then 0
          else
            let scanned_through_height = range_end - 1 in
            if map_of (wv_blocks wv) scanned_through_height = None then 0
            else min (case checked_sub scanned_through_height h of
                        None \<Rightarrow> 0 | Some depth \<Rightarrow> saturating_add 32 depth 1)
                   (wv_trusted_confirmations wv))"

definition note_spend_metadata :: "wallet_view \<Rightarrow> note_row \<Rightarrow> byte list \<Rightarrow> (string \<times> height) option" where
  "note_spend_metadata wv note txid_blob =
     (case List.map_filter (\<lambda>(n, t). if rn_txid n = txid_blob \<and> wt_txid t = txid_blob
              \<and> rn_action_index n = nr_output_index note \<and> rn_value n = nr_value_zatoshi note
              \<and> rn_note_version n = nr_note_version note \<and> rn_commitment_tree_position n \<noteq> None
            then Option.bind (wt_mined_height t) (\<lambda>h. map_option (\<lambda>nf. (wv_hex_encode wv nf, h)) (rn_nf n)) else None)
           (List.product (wv_received_notes wv) (wv_transactions wv)) of
        [] \<Rightarrow> None | found # _ \<Rightarrow> Some found)"

fun first_spend_metadata :: "wallet_view \<Rightarrow> note_row \<Rightarrow> byte list list \<Rightarrow> (string \<times> height) option" where
  "first_spend_metadata wv note [] = None"
| "first_spend_metadata wv note (txid_blob # rest) =
     (case note_spend_metadata wv note txid_blob of
        None \<Rightarrow> first_spend_metadata wv note rest | Some found \<Rightarrow> Some found)"

text \<open>The confirmed notes, with nullifier and mined height; \<open>None\<close> as soon as one is missing.\<close>

fun confirmed_notes_loop ::
    "wallet_view \<Rightarrow> note_row list \<Rightarrow> (string \<times> nat \<times> string \<times> height) list option outcome" where
  "confirmed_notes_loop wv [] = Inr (Some [])"
| "confirmed_notes_loop wv (note # rest) =
     res_bind (txid_blob_variants wv (nr_txid_hex note)) (\<lambda>variants.
     case first_spend_metadata wv note variants of
       None \<Rightarrow> Inr None
     | Some (nf_hex, mined_height) \<Rightarrow>
         res_bind (confirmed_notes_loop wv rest) (\<lambda>confirmed.
         Inr (map_option (\<lambda>ns. (nr_txid_hex note, nr_output_index note, nf_hex, mined_height) # ns) confirmed)))"

definition confirmed_prepared_denomination_notes ::
    "wallet_view \<Rightarrow> string \<Rightarrow> 't migration_db \<Rightarrow> (string \<times> nat \<times> string \<times> height) list option outcome" where
  "confirmed_prepared_denomination_notes wv run_id db =
     confirmed_notes_loop wv (filter (\<lambda>r. nr_run_id r = run_id) (db_notes db))"

end
