(* ===== verification/Run_Confirm.thy ===== *)
theory Run_Confirm
  imports "HOL-Library.List_Lexorder" "HOL-Library.Char_ord" Run_Store
begin

text \<open>
  Pending migration transactions after they were scheduled: the reconciliation with the wallet's
  chain, the selection of the next transaction to broadcast, the checks that send a part back for
  fresh signatures, and the updates after a broadcast. Operations of wallet/sync/migration.rs.
\<close>

section \<open>Reconciliation with the chain\<close>

definition run_is_live :: "string \<Rightarrow> 't migration_db \<Rightarrow> bool" where
  "run_is_live run_id db \<longleftrightarrow>
     (\<exists>r \<in> set (db_runs db). mr_run_id r = run_id
        \<and> mr_phase r \<notin> {PHASE_COMPLETE, PHASE_FAILED_TERMINAL, PHASE_ABANDONED})"

text \<open>The two updates of one row; both change nothing in a run that has ended.\<close>

definition confirm_row :: "string \<Rightarrow> string \<Rightarrow> ('t migration_db, nat) store_op" where
  "confirm_row run_id txid_hex db =
     update_pending (\<lambda>r. pd_run_id r = run_id \<and> pd_txid_hex r = txid_hex \<and> run_is_live run_id db)
       (\<lambda>r. r\<lparr>pd_status := ''confirmed''\<rparr>) db"

definition requeue_row :: "int \<Rightarrow> string \<Rightarrow> string \<Rightarrow> ('t migration_db, nat) store_op" where
  "requeue_row now run_id txid_hex db =
     update_pending (\<lambda>r. pd_run_id r = run_id \<and> pd_txid_hex r = txid_hex \<and> run_is_live run_id db)
       (\<lambda>r. r\<lparr>pd_status := ''scheduled'', pd_scheduled_at_ms := now,
              pd_schedule_start_height := Some (pd_target_height r), pd_scheduled_height := pd_target_height r\<rparr>) db"

fun confirm_loop ::
    "wallet_view \<Rightarrow> int \<Rightarrow> string \<Rightarrow> (string \<times> string) list \<Rightarrow> bool \<Rightarrow> ('t migration_db, bool) store_op" where
  "confirm_loop wv now run_id [] requeued = st_return requeued"
| "confirm_loop wv now run_id ((txid_hex, status) # rest) requeued =
     st_bind (st_lift (local_denomination_chain_identity wv txid_hex)) (\<lambda>identity.
     if identity \<noteq> None \<and> status \<noteq> ''confirmed'' then
       st_bind (confirm_row run_id txid_hex) (\<lambda>_. confirm_loop wv now run_id rest requeued)
     else if identity = None \<and> status = ''confirmed'' then
       st_bind (requeue_row now run_id txid_hex) (\<lambda>_. confirm_loop wv now run_id rest True)
     else confirm_loop wv now run_id rest requeued)"

text \<open>\<open>UPDATE ... SET phase, updated_at_ms, last_error = NULL\<close> under the condition \<open>p\<close> on the old phase.\<close>

definition move_run :: "int \<Rightarrow> string \<Rightarrow> string \<Rightarrow> (string \<Rightarrow> bool) \<Rightarrow> ('t migration_db, nat) store_op" where
  "move_run now run_id phase p =
     update_runs (\<lambda>r. mr_run_id r = run_id \<and> p (mr_phase r))
       (\<lambda>r. r\<lparr>mr_phase := phase, mr_updated_at_ms := now, mr_last_error := None\<rparr>)"

definition phase_is_live :: "string \<Rightarrow> bool" where
  "phase_is_live phase \<longleftrightarrow> phase \<notin> {PHASE_COMPLETE, PHASE_FAILED_TERMINAL, PHASE_ABANDONED}"

fun all_trusted :: "wallet_view \<Rightarrow> string list \<Rightarrow> bool outcome" where
  "all_trusted wv [] = Inr True"
| "all_trusted wv (txid_hex # rest) =
     res_bind (local_denomination_chain_identity wv txid_hex) (\<lambda>identity.
     case identity of
       None \<Rightarrow> Inr False
     | Some (mined_height, _) \<Rightarrow>
         if synced_orchard_confirmation_count wv mined_height < wv_trusted_confirmations wv then Inr False
         else all_trusted wv rest)"

definition set_lock_state :: "string \<Rightarrow> string \<Rightarrow> ('t migration_db, nat) store_op" where
  "set_lock_state run_id lock_state =
     update_notes (\<lambda>n. nr_run_id n = run_id) (\<lambda>n. n\<lparr>nr_lock_state := lock_state\<rparr>)"

definition complete_run :: "int \<Rightarrow> string \<Rightarrow> ('t migration_db, unit) store_op" where
  "complete_run now run_id =
     st_bind (move_run now run_id PHASE_COMPLETE phase_is_live) (\<lambda>completed.
     if completed \<noteq> 1 then st_return ()
     else st_bind (set_lock_state run_id ''unlocked'') (\<lambda>_.
          delete_children (\<lambda>c. ch_run_id c = run_id)))"

definition finish_when_confirmed ::
    "wallet_view \<Rightarrow> int \<Rightarrow> string \<Rightarrow> string \<Rightarrow> nat \<Rightarrow> ('t migration_db, unit) store_op" where
  "finish_when_confirmed wv now run_id current_phase unpromoted_count =
     st_bind (st_read (count_pending_for_run run_id)) (\<lambda>total_count.
     st_bind (st_read (count_pending_with_status run_id ''confirmed'')) (\<lambda>confirmed_count.
     if \<not> (0 < total_count \<and> total_count \<le> confirmed_count) then st_return ()
     else st_bind (st_read (planned_part_count_with_conn run_id)) (\<lambda>planned_count.
       if planned_count = 0 \<or> total_count \<noteq> planned_count \<or> 0 < unpromoted_count then
         if current_phase = PHASE_WAITING_MIGRATION_CONFIRMATIONS then
           st_bind (move_run now run_id PHASE_BROADCAST_SCHEDULED
             (\<lambda>phase. phase = PHASE_WAITING_MIGRATION_CONFIRMATIONS)) (\<lambda>_. st_return ())
         else st_return ()
       else st_bind (st_read (\<lambda>db. all_trusted wv
                (sort (map pd_txid_hex (pending_of_run run_id db))))) (\<lambda>trusted.
         if trusted then complete_run now run_id else st_return ()))))"

definition reconcile_run_confirmations :: "wallet_view \<Rightarrow> int \<Rightarrow> string \<Rightarrow> ('t migration_db, unit) store_op" where
  "reconcile_run_confirmations wv now run_id =
     st_bind (st_read (\<lambda>db. Inr (map (\<lambda>r. (pd_txid_hex r, pd_status r))
         (filter (\<lambda>r. pd_status r \<in> {''scheduled'', ''broadcasted'', ''confirmed''}) (pending_of_run run_id db))))) (\<lambda>pending.
     st_bind (confirm_loop wv now run_id pending False) (\<lambda>requeued.
     st_bind (if requeued then move_run now run_id PHASE_BROADCAST_SCHEDULED phase_is_live else st_return 0) (\<lambda>_.
     st_bind (st_read (run_column ''Read migration phase during confirmation reconciliation: {e}'' mr_phase run_id))
       (\<lambda>current_phase.
     st_bind (st_read (unpromoted_signed_child_pczt_count_with_conn run_id)) (\<lambda>unpromoted_count.
     st_bind (if current_phase = PHASE_WAITING_MIGRATION_CONFIRMATIONS \<and> 0 < unpromoted_count
              then move_run now run_id PHASE_BROADCAST_SCHEDULED
                     (\<lambda>phase. phase = PHASE_WAITING_MIGRATION_CONFIRMATIONS)
              else st_return 0) (\<lambda>_.
     finish_when_confirmed wv now run_id current_phase unpromoted_count))))))"

section \<open>Selecting what to broadcast\<close>

definition by_schedule :: "'t pending_row list \<Rightarrow> 't pending_row list" where
  "by_schedule rows = sort_key (\<lambda>r. (pd_scheduled_height r, pd_txid_hex r)) rows"

definition due_rows :: "string \<Rightarrow> height \<Rightarrow> 't migration_db \<Rightarrow> 't pending_row list" where
  "due_rows run_id chain_tip_height db =
     filter (\<lambda>r. pd_status r = ''scheduled'' \<and> pd_scheduled_height r \<le> chain_tip_height) (pending_of_run run_id db)"

fun first_due ::
    "'t crypto_library \<Rightarrow> byte list \<Rightarrow> byte list \<Rightarrow> wallet_view \<Rightarrow> 't pending_row list \<Rightarrow> due_pending_tx list outcome" where
  "first_due lib password salt wv [] = Inr []"
| "first_due lib password salt wv (row # rest) =
     res_bind (local_denomination_chain_identity wv (pd_txid_hex row)) (\<lambda>identity.
     if identity \<noteq> None then first_due lib password salt wv rest
     else res_bind (zip318_canonical_migration_expiry_height (pd_scheduled_height row)) (\<lambda>canonical_expiry.
       if pd_expiry_height row \<noteq> canonical_expiry
       then Inl (Message ''Due migration transaction {txid_hex} expiry is not canonical for scheduled height {scheduled_height}''
              [AStr (pd_txid_hex row), ANat (pd_scheduled_height row)])
       else res_bind (decrypt_payload lib (pd_encrypted_raw_tx row) password salt) (\<lambda>raw_tx.
         Inr [\<lparr>due_txid_hex = pd_txid_hex row, due_raw_tx = raw_tx\<rparr>])))"

definition due_pending_txs ::
    "'t crypto_library \<Rightarrow> byte list \<Rightarrow> string \<Rightarrow> wallet_view \<Rightarrow> int \<Rightarrow> string \<Rightarrow> height
      \<Rightarrow> ('t migration_db, due_pending_tx list) store_op" where
  "due_pending_txs lib password salt_base64 wv now run_id chain_tip_height =
     st_bind (st_lift (decode_base64 lib salt_base64 ''migration pending salt'')) (\<lambda>salt.
     st_bind (reconcile_run_confirmations wv now run_id) (\<lambda>_.
     st_read (\<lambda>db. first_due lib password salt wv (by_schedule (due_rows run_id chain_tip_height db)))))"

definition next_scheduled_height :: "string \<Rightarrow> 't migration_db \<Rightarrow> height option" where
  "next_scheduled_height run_id db =
     (case map pd_scheduled_height (filter (\<lambda>r. pd_status r = ''scheduled'') (pending_of_run run_id db)) of
        [] \<Rightarrow> None | h # hs \<Rightarrow> Some (Min (set (h # hs))))"

definition due_scheduled_pending_count ::
    "wallet_view \<Rightarrow> int \<Rightarrow> string \<Rightarrow> height \<Rightarrow> ('t migration_db, nat) store_op" where
  "due_scheduled_pending_count wv now run_id chain_tip_height =
     st_bind (reconcile_run_confirmations wv now run_id) (\<lambda>_.
     st_read (\<lambda>db. Inr (length (due_rows run_id chain_tip_height db))))"

definition proof_retry_height :: "string \<Rightarrow> 't migration_db \<Rightarrow> height option outcome" where
  "proof_retry_height run_id db = run_column ''Read migration proof retry height: {e}'' mr_proof_retry_height run_id db"

definition set_proof_retry_height :: "int \<Rightarrow> string \<Rightarrow> height \<Rightarrow> ('t migration_db, unit) store_op" where
  "set_proof_retry_height now run_id retry_height =
     st_bind (update_runs (\<lambda>r. mr_run_id r = run_id)
       (\<lambda>r. r\<lparr>mr_proof_retry_height := Some retry_height, mr_updated_at_ms := now\<rparr>)) (\<lambda>_. st_return ())"

section \<open>Parts that need fresh signatures\<close>

text \<open>The run goes back to its owner: \<open>phase = READY_TO_MIGRATE\<close> with the reason, whatever phase it had.\<close>

definition ready_for_resign :: "int \<Rightarrow> string \<Rightarrow> string \<Rightarrow> ('t migration_db, nat) store_op" where
  "ready_for_resign now run_id reason =
     update_runs (\<lambda>r. mr_run_id r = run_id)
       (\<lambda>r. r\<lparr>mr_phase := PHASE_READY_TO_MIGRATE, mr_updated_at_ms := now, mr_last_error := Some reason\<rparr>)"

definition mark_due_parts_with_noncanonical_broadcast_height_for_resign ::
    "wallet_view \<Rightarrow> int \<Rightarrow> string \<Rightarrow> height \<Rightarrow> ('t migration_db, nat) store_op" where
  "mark_due_parts_with_noncanonical_broadcast_height_for_resign wv now run_id chain_tip_height =
     st_bind (st_lift (zip318_canonical_migration_expiry_height chain_tip_height)) (\<lambda>canonical_expiry.
     st_bind (transaction (
       st_bind (reconcile_run_confirmations wv now run_id) (\<lambda>_.
       st_bind (update_pending (\<lambda>r. pd_run_id r = run_id \<and> pd_status r = ''scheduled''
                  \<and> pd_scheduled_height r \<le> chain_tip_height \<and> pd_expiry_height r \<noteq> canonical_expiry)
                (\<lambda>r. r\<lparr>pd_status := ''needs_resign''\<rparr>)) (\<lambda>affected.
       st_bind (if 0 < affected
                then ready_for_resign now run_id ''Migration broadcast height crossed a ZIP 318 expiry boundary''
                else st_return 0) (\<lambda>_.
       st_return affected))))) (\<lambda>affected.
     if affected < 2 ^ 32 then st_return affected
     else st_fail (Msg ''Migration recovery count exceeds u32'')))"

definition pending_row_is_expired_for_resign :: "wallet_view \<Rightarrow> string \<Rightarrow> height \<Rightarrow> height \<Rightarrow> string \<Rightarrow> bool outcome" where
  "pending_row_is_expired_for_resign wv status expiry_height chain_tip_height txid_hex =
     (if expiry_height = 0 \<or> chain_tip_height < expiry_height then Inr False
      else if status = ''scheduled'' then Inr True
      else if status = ''broadcasted''
        then res_bind (local_transaction_raw wv txid_hex) (\<lambda>raw. Inr (raw \<noteq> None))
      else Inr False)"

fun expired_loop :: "wallet_view \<Rightarrow> height \<Rightarrow> 't pending_row list \<Rightarrow> string list outcome" where
  "expired_loop wv chain_tip_height [] = Inr []"
| "expired_loop wv chain_tip_height (row # rest) =
     res_bind (pending_row_is_expired_for_resign wv (pd_status row) (pd_expiry_height row) chain_tip_height
       (pd_txid_hex row)) (\<lambda>expired.
     res_bind (expired_loop wv chain_tip_height rest) (\<lambda>txids.
     Inr (if expired then pd_txid_hex row # txids else txids)))"

definition expired_unconfirmed_pending_txids :: "wallet_view \<Rightarrow> string \<Rightarrow> height \<Rightarrow> 't migration_db \<Rightarrow> string list outcome" where
  "expired_unconfirmed_pending_txids wv run_id chain_tip_height db =
     expired_loop wv chain_tip_height (filter (\<lambda>r. pd_status r \<in> {''scheduled'', ''broadcasted''}
       \<and> 0 < pd_expiry_height r \<and> pd_expiry_height r \<le> chain_tip_height) (pending_of_run run_id db))"

definition expired_unconfirmed_pending_count ::
    "wallet_view \<Rightarrow> int \<Rightarrow> string \<Rightarrow> height \<Rightarrow> ('t migration_db, nat) store_op" where
  "expired_unconfirmed_pending_count wv now run_id chain_tip_height =
     st_bind (reconcile_run_confirmations wv now run_id) (\<lambda>_.
     st_bind (st_read (expired_unconfirmed_pending_txids wv run_id chain_tip_height)) (\<lambda>expired.
     if length expired < 2 ^ 32 then st_return (length expired)
     else st_fail (Msg ''Expired migration count exceeds u32'')))"

fun resign_loop :: "string \<Rightarrow> string list \<Rightarrow> nat \<Rightarrow> ('t migration_db, nat) store_op" where
  "resign_loop run_id [] updated = st_return updated"
| "resign_loop run_id (txid_hex # rest) updated =
     st_bind (update_pending (\<lambda>r. pd_run_id r = run_id \<and> pd_txid_hex r = txid_hex
                \<and> pd_status r \<in> {''scheduled'', ''broadcasted''})
              (\<lambda>r. r\<lparr>pd_status := ''needs_resign''\<rparr>)) (\<lambda>n. resign_loop run_id rest (updated + n))"

definition mark_expired_pending_parts_for_resign ::
    "wallet_view \<Rightarrow> int \<Rightarrow> string \<Rightarrow> height \<Rightarrow> ('t migration_db, nat) store_op" where
  "mark_expired_pending_parts_for_resign wv now run_id chain_tip_height =
     st_bind (transaction (
       st_bind (reconcile_run_confirmations wv now run_id) (\<lambda>_.
       st_bind (st_read (expired_unconfirmed_pending_txids wv run_id chain_tip_height)) (\<lambda>expired.
       st_bind (resign_loop run_id expired 0) (\<lambda>updated.
       st_bind (if 0 < updated then ready_for_resign now run_id
                  ''Expired migration parts must be re-signed with fresh anchors and expiry heights.''
                else st_return 0) (\<lambda>_.
       st_return updated)))))) (\<lambda>updated.
     if updated < 2 ^ 32 then st_return updated
     else st_fail (Msg ''Expired migration part count exceeds u32''))"

definition pending_parts_needing_resign :: "string \<Rightarrow> 't migration_db \<Rightarrow> part_recovery list outcome" where
  "pending_parts_needing_resign run_id db =
     res_map (\<lambda>r. res_bind (ok_or (pd_part_index r) (Msg ''Read migration part needing re-sign: {e}'')) (\<lambda>part.
         res_bind (from_json ''Decode migration recovery metadata: {e}'' (pd_metadata r)) (\<lambda>metadata.
         Inr \<lparr>rec_part_index = part, rec_old_txid_hex = pd_txid_hex r, rec_value_zatoshi = pd_value_zatoshi r,
              rec_fee_zatoshi = pd_fee_zatoshi r, rec_selected_note = md_selected_note metadata\<rparr>)))
       (by_schedule (filter (\<lambda>r. pd_status r = ''needs_resign'') (pending_of_run run_id db)))"

definition noncanonical_unconfirmed_fee_count :: "string \<Rightarrow> zatoshi \<Rightarrow> 't migration_db \<Rightarrow> nat" where
  "noncanonical_unconfirmed_fee_count run_id canonical_fee_zatoshi db =
     length (filter (\<lambda>r. pd_status r \<in> {''scheduled'', ''broadcasted'', ''needs_resign''}
       \<and> pd_fee_zatoshi r \<noteq> canonical_fee_zatoshi) (pending_of_run run_id db))"

section \<open>After a broadcast\<close>

definition mark_pending_broadcast_attempted :: "string \<Rightarrow> string \<Rightarrow> ('t migration_db, unit) store_op" where
  "mark_pending_broadcast_attempted run_id txid_hex =
     st_bind (update_pending (\<lambda>r. pd_run_id r = run_id \<and> pd_txid_hex r = txid_hex \<and> pd_status r = ''scheduled'')
       (\<lambda>r. r\<lparr>pd_broadcast_attempted := 1\<rparr>)) (\<lambda>updated.
     if updated = 1 then st_return ()
     else st_fail (Message ''Migration transaction {txid_hex} is no longer scheduled'' [AStr txid_hex]))"

definition update_run_after_pending_broadcast :: "int \<Rightarrow> string \<Rightarrow> ('t migration_db, unit) store_op" where
  "update_run_after_pending_broadcast now run_id =
     st_bind (st_read (count_pending_with_status run_id ''needs_resign'')) (\<lambda>needs_resign_remaining.
     st_bind (st_read (count_pending_with_status run_id ''scheduled'')) (\<lambda>scheduled_remaining.
     st_bind (st_read (count_pending_for_run run_id)) (\<lambda>pending_count.
     st_bind (st_read (planned_part_count_with_conn run_id)) (\<lambda>planned_count.
     st_bind (st_read (unpromoted_signed_child_pczt_count_with_conn run_id)) (\<lambda>unpromoted_count.
     let fully_materialized = (0 < planned_count \<and> pending_count = planned_count \<and> unpromoted_count = 0);
         next_phase =
           (if 0 < needs_resign_remaining then PHASE_READY_TO_MIGRATE
            else if 0 < scheduled_remaining \<or> \<not> fully_materialized then PHASE_BROADCAST_SCHEDULED
            else PHASE_WAITING_MIGRATION_CONFIRMATIONS)
     in st_bind (update_runs (\<lambda>r. mr_run_id r = run_id)
          (if 0 < needs_resign_remaining
           then (\<lambda>r. r\<lparr>mr_phase := next_phase, mr_updated_at_ms := now\<rparr>)
           else (\<lambda>r. r\<lparr>mr_phase := next_phase, mr_updated_at_ms := now, mr_last_error := None\<rparr>))) (\<lambda>_.
        st_return ()))))))"

definition mark_pending_broadcasted :: "int \<Rightarrow> string \<Rightarrow> string \<Rightarrow> ('t migration_db, unit) store_op" where
  "mark_pending_broadcasted now run_id txid_hex =
     transaction (
       st_bind (update_pending (\<lambda>r. pd_run_id r = run_id \<and> pd_txid_hex r = txid_hex)
         (\<lambda>r. r\<lparr>pd_status := ''broadcasted''\<rparr>)) (\<lambda>_.
       update_run_after_pending_broadcast now run_id))"

fun missing_raw_loop ::
    "'t crypto_library \<Rightarrow> byte list \<Rightarrow> wallet_view \<Rightarrow> 't pending_row list \<Rightarrow> due_pending_tx list outcome" where
  "missing_raw_loop lib key wv [] = Inr []"
| "missing_raw_loop lib key wv (row # rest) =
     res_bind (local_transaction_raw wv (pd_txid_hex row)) (\<lambda>raw.
     if raw \<noteq> None then missing_raw_loop lib key wv rest
     else res_bind (decrypt_with_cipher lib key (pd_encrypted_raw_tx row)) (\<lambda>raw_tx.
       res_bind (missing_raw_loop lib key wv rest) (\<lambda>missing.
       Inr (\<lparr>due_txid_hex = pd_txid_hex row, due_raw_tx = raw_tx\<rparr> # missing))))"

definition broadcasted_pending_txs_missing_local_identity ::
    "'t crypto_library \<Rightarrow> byte list \<Rightarrow> string \<Rightarrow> wallet_view \<Rightarrow> string \<Rightarrow> 't migration_db \<Rightarrow> due_pending_tx list outcome" where
  "broadcasted_pending_txs_missing_local_identity lib password salt_base64 wv run_id db =
     res_bind (decode_base64 lib salt_base64 ''migration pending salt'') (\<lambda>salt.
     missing_raw_loop lib (derive_key lib password salt) wv
       (by_schedule (filter (\<lambda>r. pd_status r = ''broadcasted'') (pending_of_run run_id db))))"

end
