(* ===== verification/Run_Insert.thy ===== *)
theory Run_Insert
  imports Run_Confirm Stage_Ops
begin

text \<open>
  How migration parts enter the store: prepared notes, signed children, pending transactions built
  from them, the one-time shift of a signed schedule to the height where proofs are ready, and the
  replacement of parts that were signed again. Operations of wallet/sync/migration.rs.
  \<open>nonce i c\<close> is the nonce of column \<open>c\<close> of the \<open>i\<close>-th row of a batch.
\<close>

section \<open>Prepared notes\<close>

definition insert_prepared_notes_with_tx ::
    "string \<Rightarrow> bool \<Rightarrow> prepared_note_ref list \<Rightarrow> ('t migration_db, unit) store_op" where
  "insert_prepared_notes_with_tx run_id locked notes =
     st_each (\<lambda>note. replace_note_row
       \<lparr>nr_run_id = run_id, nr_txid_hex = pn_txid_hex note, nr_output_index = pn_output_index note,
        nr_value_zatoshi = pn_value_zatoshi note, nr_note_version = pn_note_version note,
        nr_nullifier_hex = pn_nullifier_hex note,
        nr_lock_state = (if locked then ''locked'' else ''unlocked'')\<rparr>) notes"

definition prepared_notes_for_run :: "string \<Rightarrow> 't migration_db \<Rightarrow> prepared_note_ref list" where
  "prepared_notes_for_run run_id db =
     map (\<lambda>n. \<lparr>pn_txid_hex = nr_txid_hex n, pn_output_index = nr_output_index n, pn_value_zatoshi = nr_value_zatoshi n,
          pn_note_version = nr_note_version n, pn_nullifier_hex = nr_nullifier_hex n\<rparr>)
       (sort_key (\<lambda>n. (- int (nr_value_zatoshi n), nr_txid_hex n, nr_output_index n))
         (filter (\<lambda>n. nr_run_id n = run_id) (db_notes db)))"

section \<open>Signed children\<close>

datatype signed_child_insert_mode = Initial | Replacement

text \<open>The checks on one child; the origin of the schedule is threaded through the batch.\<close>

definition check_signed_child ::
    "signed_child_insert_mode \<Rightarrow> migration_schedule_entry list \<Rightarrow> zatoshi list \<Rightarrow> height option
      \<Rightarrow> signed_child_insert \<Rightarrow> height option \<Rightarrow> height option outcome" where
  "check_signed_child mode schedule target_values recovery_origin child origin =
     res_bind (zip318_canonical_migration_expiry_height (si_scheduled_height child)) (\<lambda>canonical_expiry.
     if si_expiry_height child \<noteq> canonical_expiry
     then Inl (Message ''Signed migration child {} expiry {} is not canonical for scheduled height {}''
            [AStr (si_message_id child), ANat (si_expiry_height child), ANat (si_scheduled_height child)])
     else res_bind
       (if schedule = [] then Inr origin
        else res_bind (ok_or (schedule_block_offset_for_part schedule target_values (si_child_index child)
                                (si_value_zatoshi child))
               (Msg ''Approved migration schedule is missing a signed child'')) (\<lambda>offset.
          if mode = Initial then
            res_bind (ok_or (checked_sub (si_scheduled_height child) offset)
               (Msg ''Signed migration schedule starts below zero'')) (\<lambda>child_origin.
            case origin of
              None \<Rightarrow> Inr (Some child_origin)
            | Some shared \<Rightarrow>
                if shared \<noteq> child_origin
                then Inl (Msg ''Signed migration children do not share one absolute schedule origin'')
                else Inr origin)
          else Inr origin)) (\<lambda>origin.
       if mode = Replacement then
         res_bind (ok_or recovery_origin (Msg ''Migration recovery schedule origin is missing'')) (\<lambda>recovery_origin.
         res_bind (ok_or (checked_sub (si_scheduled_height child) recovery_origin)
            (Msg ''Signed migration schedule starts below zero'')) (\<lambda>_. Inr origin))
       else Inr origin))"

definition child_row_of :: "string \<Rightarrow> 't \<Rightarrow> 't \<Rightarrow> signed_child_insert \<Rightarrow> 't child_row" where
  "child_row_of run_id encrypted_base_pczt encrypted_compact_sigs child =
     \<lparr>ch_run_id = run_id, ch_message_id = si_message_id child, ch_child_index = si_child_index child,
      ch_encrypted_base_pczt = encrypted_base_pczt, ch_encrypted_compact_sigs = encrypted_compact_sigs,
      ch_target_height = si_target_height child, ch_anchor_boundary_height = si_anchor_boundary_height child,
      ch_expiry_height = si_expiry_height child, ch_scheduled_height = Some (si_scheduled_height child),
      ch_value_zatoshi = si_value_zatoshi child, ch_fee_zatoshi = si_fee_zatoshi child,
      ch_selected_note = Some (si_selected_note child), ch_metadata = Some (si_metadata child)\<rparr>"

fun signed_children_loop ::
    "'t crypto_library \<Rightarrow> (nat \<Rightarrow> nat \<Rightarrow> byte list) \<Rightarrow> byte list \<Rightarrow> byte list \<Rightarrow> string
      \<Rightarrow> (signed_child_insert \<Rightarrow> height option \<Rightarrow> height option outcome) \<Rightarrow> nat \<Rightarrow> signed_child_insert list
      \<Rightarrow> height option \<Rightarrow> ('t migration_db, height option) store_op" where
  "signed_children_loop lib nonce password salt run_id check i [] origin = st_return origin"
| "signed_children_loop lib nonce password salt run_id check i (child # rest) origin =
     st_bind (st_lift (check child origin)) (\<lambda>origin.
     st_bind (st_lift (encrypt_payload lib (nonce i 0) (si_base_pczt child) password salt)) (\<lambda>encrypted_base_pczt.
     st_bind (st_lift (encode_compact_action_sigs (si_sigs child))) (\<lambda>sigs_blob.
     st_bind (st_lift (encrypt_payload lib (nonce i 1) sigs_blob password salt)) (\<lambda>encrypted_compact_sigs.
     st_bind (replace_child_row (child_row_of run_id encrypted_base_pczt encrypted_compact_sigs child)) (\<lambda>_.
     signed_children_loop lib nonce password salt run_id check (Suc i) rest origin)))))"

definition save_schedule_origin :: "string \<Rightarrow> height \<Rightarrow> ('t migration_db, nat) store_op" where
  "save_schedule_origin run_id origin =
     update_runs (\<lambda>r. mr_run_id r = run_id \<and> mr_signed_schedule_origin_height r = None)
       (\<lambda>r. r\<lparr>mr_signed_schedule_origin_height := Some origin\<rparr>)"

definition insert_signed_child_pczts_with_tx ::
    "'t crypto_library \<Rightarrow> (nat \<Rightarrow> nat \<Rightarrow> byte list) \<Rightarrow> string \<Rightarrow> signed_child_insert list \<Rightarrow> byte list \<Rightarrow> string
      \<Rightarrow> signed_child_insert_mode \<Rightarrow> ('t migration_db, unit) store_op" where
  "insert_signed_child_pczts_with_tx lib nonce run_id signed_children password salt_base64 mode =
     (if signed_children = [] then st_return ()
      else
        st_bind (st_read (run_column ''Read signed migration schedule: {e}'' id run_id)) (\<lambda>run.
        st_bind (st_lift (from_json ''Decode signed migration schedule: {e}'' (mr_schedule run))) (\<lambda>schedule.
        st_bind (st_lift (from_json ''Decode signed migration target values: {e}'' (mr_target_values run))) (\<lambda>target_values.
        st_bind (st_lift (decode_base64 lib salt_base64 ''migration PCZT salt'')) (\<lambda>salt.
        st_bind (signed_children_loop lib nonce password salt run_id
                  (check_signed_child mode schedule target_values (mr_recovery_schedule_origin_height run)) 0 signed_children
                  (if mode = Initial then mr_signed_schedule_origin_height run else None)) (\<lambda>origin.
        if mode = Initial \<and> mr_signed_schedule_origin_height run = None then
          (case origin of None \<Rightarrow> st_return ()
           | Some origin \<Rightarrow> st_bind (save_schedule_origin run_id origin) (\<lambda>_. st_return ()))
        else st_return ()))))))"

definition persist_signed_child_pczts_for_run ::
    "'t crypto_library \<Rightarrow> (nat \<Rightarrow> nat \<Rightarrow> byte list) \<Rightarrow> int \<Rightarrow> string \<Rightarrow> signed_child_insert list \<Rightarrow> byte list
      \<Rightarrow> string \<Rightarrow> ('t migration_db, unit) store_op" where
  "persist_signed_child_pczts_for_run lib nonce now run_id signed_children password salt_base64 =
     (if signed_children = [] then st_fail (Msg ''Keystone migration returned no signed children'')
      else transaction (
        st_bind (insert_signed_child_pczts_with_tx lib nonce run_id signed_children password salt_base64 Initial) (\<lambda>_.
        st_bind (update_runs (\<lambda>r. mr_run_id r = run_id \<and> mr_phase r = PHASE_READY_TO_MIGRATE)
                  (\<lambda>r. r\<lparr>mr_updated_at_ms := now, mr_last_error := None\<rparr>)) (\<lambda>updated.
        if updated \<noteq> 1 then st_fail (Msg ''Migration run is no longer ready for Keystone signatures'')
        else st_return ()))))"

text \<open>The children without a pending transaction, in the order of their parts.\<close>

definition unpromoted_children :: "string \<Rightarrow> 't migration_db \<Rightarrow> 't child_row list" where
  "unpromoted_children run_id db =
     sort_key (\<lambda>c. (ch_child_index c, ch_message_id c))
       (filter (\<lambda>c. Some (ch_child_index c) \<notin> pd_part_index ` set (pending_of_run run_id db)) (children_of_run run_id db))"

record signed_child =
  sg_child_index :: nat
  sg_base_pczt :: "byte list"
  sg_sigs :: "spend_auth_signature list"
  sg_target_height :: height
  sg_anchor_boundary_height :: "height option"
  sg_expiry_height :: height
  sg_scheduled_height :: height
  sg_value_zatoshi :: zatoshi
  sg_fee_zatoshi :: zatoshi
  sg_selected_note :: prepared_note_ref
  sg_metadata :: pending_metadata

definition read_signed_child :: "'t crypto_library \<Rightarrow> byte list \<Rightarrow> 't child_row \<Rightarrow> signed_child outcome" where
  "read_signed_child lib key c =
     res_bind (ok_or (ch_scheduled_height c) (Message ''Signed migration child {message_id} requires fresh signatures''
        [AStr (ch_message_id c)])) (\<lambda>scheduled_height.
     res_bind (zip318_canonical_migration_expiry_height scheduled_height) (\<lambda>canonical_expiry.
     if ch_expiry_height c \<noteq> canonical_expiry
     then Inl (Message ''Signed migration child {message_id} expiry is not canonical for scheduled height {scheduled_height}''
            [AStr (ch_message_id c), ANat scheduled_height])
     else
       res_bind (decrypt_with_cipher lib key (ch_encrypted_base_pczt c)) (\<lambda>base_pczt.
       res_bind (decrypt_with_cipher lib key (ch_encrypted_compact_sigs c)) (\<lambda>sigs_blob.
       res_bind (decode_compact_action_sigs sigs_blob) (\<lambda>sigs.
       res_bind (from_json ''Decode signed migration PCZT note: {e}'' (ch_selected_note c)) (\<lambda>selected_note.
       res_bind (from_json ''Decode signed migration PCZT metadata: {e}'' (ch_metadata c)) (\<lambda>metadata.
       Inr \<lparr>sg_child_index = ch_child_index c, sg_base_pczt = base_pczt, sg_sigs = sigs,
            sg_target_height = ch_target_height c, sg_anchor_boundary_height = ch_anchor_boundary_height c,
            sg_expiry_height = ch_expiry_height c, sg_scheduled_height = scheduled_height,
            sg_value_zatoshi = ch_value_zatoshi c, sg_fee_zatoshi = ch_fee_zatoshi c,
            sg_selected_note = selected_note, sg_metadata = metadata\<rparr>)))))))"

definition signed_child_pczts_for_run ::
    "'t crypto_library \<Rightarrow> byte list \<Rightarrow> string \<Rightarrow> string \<Rightarrow> 't migration_db \<Rightarrow> signed_child list outcome" where
  "signed_child_pczts_for_run lib password salt_base64 run_id db =
     res_bind (decode_base64 lib salt_base64 ''migration PCZT salt'') (\<lambda>salt.
     res_map (read_signed_child lib (derive_key lib password salt)) (unpromoted_children run_id db))"

definition signed_child_proof_candidates_for_run ::
    "string \<Rightarrow> 't migration_db \<Rightarrow> (prepared_note_ref \<times> height option) list outcome" where
  "signed_child_proof_candidates_for_run run_id db =
     res_map (\<lambda>c. res_bind (from_json ''Decode signed migration proof candidate note: {e}'' (ch_selected_note c)) (\<lambda>note.
        Inr (note, ch_anchor_boundary_height c))) (unpromoted_children run_id db)"

fun message_ids_loop :: "'t child_row list \<Rightarrow> (nat \<times> string) list \<Rightarrow> (nat \<times> string) list outcome" where
  "message_ids_loop [] identities = Inr identities"
| "message_ids_loop (c # rest) identities =
     (if map_of identities (ch_child_index c) \<noteq> None
      then Inl (Message ''Migration part {part_index} has duplicate retained signature records'' [ANat (ch_child_index c)])
      else message_ids_loop rest (identities @ [(ch_child_index c, ch_message_id c)]))"

definition signed_child_message_ids_by_part :: "string \<Rightarrow> 't migration_db \<Rightarrow> (nat \<times> string) list outcome" where
  "signed_child_message_ids_by_part run_id db =
     message_ids_loop (sort_key (\<lambda>c. (ch_child_index c, ch_message_id c)) (children_of_run run_id db)) []"

section \<open>Pending transactions\<close>

definition schedule_entry_for_pending ::
    "migration_schedule_entry list \<Rightarrow> zatoshi list \<Rightarrow> pending_insert \<Rightarrow> migration_schedule_entry option" where
  "schedule_entry_for_pending schedule target_values pending =
     (if \<forall>entry \<in> set schedule. part_index entry \<noteq> None
      then find (\<lambda>entry. part_index entry = Some (pi_part_index pending) \<and> value_zatoshi entry = pi_value_zatoshi pending) schedule
      else if list_get target_values (pi_part_index pending) \<noteq> Some (pi_value_zatoshi pending) then None
      else
        let equal_value_rank = length (filter (\<lambda>v. v = pi_value_zatoshi pending) (take (pi_part_index pending) target_values))
        in list_get (filter (\<lambda>entry. value_zatoshi entry = pi_value_zatoshi pending) schedule) equal_value_rank)"

text \<open>
  Rows of older versions carry \<open>target_height\<close> as a marker; their height is recovered from the
  offset when that keeps the signed expiry.
\<close>

definition recover_legacy_height :: "nat \<Rightarrow> pending_insert \<Rightarrow> pending_insert outcome" where
  "recover_legacy_height offset pending =
     (if pi_scheduled_height pending \<noteq> pi_target_height pending then Inr pending
      else res_bind (zip318_canonical_migration_expiry_height (pi_target_height pending)) (\<lambda>target_expiry.
        if pi_expiry_height pending \<noteq> target_expiry then Inr pending
        else
          res_bind (ok_or (checked_add 32 (pi_target_height pending - 1) offset)
             (Msg ''Legacy migration scheduled height overflow'')) (\<lambda>legacy_scheduled_height.
          res_bind (zip318_canonical_migration_expiry_height legacy_scheduled_height) (\<lambda>legacy_expiry.
          Inr (if pi_expiry_height pending = legacy_expiry
               then pending\<lparr>pi_scheduled_height := legacy_scheduled_height\<rparr> else pending)))))"

definition retained_replacement :: "string \<Rightarrow> pending_insert \<Rightarrow> 't migration_db \<Rightarrow> bool" where
  "retained_replacement run_id pending db \<longleftrightarrow>
     (\<exists>c \<in> set (children_of_run run_id db). ch_child_index c = pi_part_index pending
        \<and> ch_scheduled_height c = Some (pi_scheduled_height pending)
        \<and> ch_expiry_height c = pi_expiry_height pending \<and> ch_value_zatoshi c = pi_value_zatoshi pending)"

text \<open>The origin a batch shares: the persisted one, or the first one seen in the batch.\<close>

definition check_origin ::
    "height option \<Rightarrow> bool \<Rightarrow> height \<Rightarrow> height option \<Rightarrow> height option outcome" where
  "check_origin persisted retained schedule_origin incoming =
     (case persisted of
        Some persisted_origin \<Rightarrow>
          if schedule_origin \<noteq> persisted_origin \<and> \<not> retained
          then Inl (Msg ''Signed migration child no longer matches the immutable signed schedule origin'')
          else Inr incoming
      | None \<Rightarrow>
          (case incoming of
             Some incoming_origin \<Rightarrow>
               if schedule_origin \<noteq> incoming_origin
               then Inl (Msg ''Initial signed migration children do not share one absolute schedule origin'')
               else Inr incoming
           | None \<Rightarrow> Inr (Some schedule_origin)))"

definition check_pending ::
    "(pending_insert \<Rightarrow> bool) \<Rightarrow> migration_schedule_entry list \<Rightarrow> zatoshi list \<Rightarrow> height option \<Rightarrow> pending_insert
      \<Rightarrow> nat set \<times> height option \<Rightarrow> ((pending_insert \<times> nat \<times> height) \<times> nat set \<times> height option) outcome" where
  "check_pending retained schedule target_values persisted pending state =
     (case state of (seen, incoming) \<Rightarrow>
      if pi_part_index pending \<in> seen then Inl (Msg ''Migration pending part index is duplicated'')
      else
        res_bind (ok_or (schedule_entry_for_pending schedule target_values pending)
           (Msg ''Approved migration schedule no longer matches prepared values'')) (\<lambda>entry.
        res_bind (recover_legacy_height (block_offset entry) pending) (\<lambda>pending.
        res_bind (ok_or (checked_sub (pi_scheduled_height pending) (block_offset entry))
           (Msg ''Migration signed schedule starts below zero'')) (\<lambda>schedule_origin.
        res_bind (check_origin persisted (retained pending) schedule_origin incoming) (\<lambda>incoming.
        res_bind (zip318_canonical_migration_expiry_height (pi_scheduled_height pending)) (\<lambda>canonical_expiry.
        if pi_expiry_height pending \<noteq> canonical_expiry
        then Inl (Message ''Migration transaction {} expiry is not canonical for scheduled height {}''
               [AStr (pi_txid_hex pending), ANat (pi_scheduled_height pending)])
        else Inr ((pending, block_offset entry, schedule_origin), insert (pi_part_index pending) seen, incoming)))))))"

fun check_all_pending ::
    "(pending_insert \<Rightarrow> bool) \<Rightarrow> migration_schedule_entry list \<Rightarrow> zatoshi list \<Rightarrow> height option \<Rightarrow> pending_insert list
      \<Rightarrow> nat set \<times> height option \<Rightarrow> ((pending_insert \<times> nat \<times> height) list \<times> height option) outcome" where
  "check_all_pending retained schedule target_values persisted [] state = Inr ([], snd state)"
| "check_all_pending retained schedule target_values persisted (pending # rest) state =
     res_bind (check_pending retained schedule target_values persisted pending state) (\<lambda>(checked, state).
     res_bind (check_all_pending retained schedule target_values persisted rest state) (\<lambda>(all, incoming).
     Inr (checked # all, incoming)))"

definition pending_row_of :: "string \<Rightarrow> 't \<Rightarrow> int \<Rightarrow> height \<Rightarrow> height option \<Rightarrow> pending_insert \<Rightarrow> 't pending_row" where
  "pending_row_of run_id encrypted_raw_tx scheduled_at_ms schedule_start_height original_scheduled_height pending =
     \<lparr>pd_run_id = run_id, pd_txid_hex = pi_txid_hex pending, pd_part_index = Some (pi_part_index pending),
      pd_encrypted_raw_tx = encrypted_raw_tx, pd_target_height = pi_target_height pending,
      pd_anchor_boundary_height = pi_anchor_boundary_height pending, pd_expiry_height = pi_expiry_height pending,
      pd_value_zatoshi = pi_value_zatoshi pending, pd_fee_zatoshi = pi_fee_zatoshi pending,
      pd_selected_note_txid = pn_txid_hex (pi_selected_note pending),
      pd_selected_note_output_index = pn_output_index (pi_selected_note pending),
      pd_selected_note_value = pn_value_zatoshi (pi_selected_note pending),
      pd_scheduled_at_ms = scheduled_at_ms, pd_schedule_start_height = Some schedule_start_height,
      pd_scheduled_height = pi_scheduled_height pending, pd_original_scheduled_height = original_scheduled_height,
      pd_rebuild_block_offset = None, pd_broadcast_attempted = 0, pd_status = ''scheduled'',
      pd_metadata = Some (pi_metadata pending)\<rparr>"

definition insert_checked_pending ::
    "'t crypto_library \<Rightarrow> (nat \<Rightarrow> byte list) \<Rightarrow> byte list \<Rightarrow> byte list \<Rightarrow> int \<Rightarrow> string
      \<Rightarrow> nat \<times> pending_insert \<times> nat \<times> height \<Rightarrow> ('t migration_db, unit) store_op" where
  "insert_checked_pending lib nonce password salt now run_id checked =
     (case checked of (i, pending, offset, schedule_origin) \<Rightarrow>
      st_bind (st_lift (encrypt_payload lib (nonce i) (pi_raw_tx pending) password salt)) (\<lambda>encrypted_raw_tx.
      st_bind (st_lift (checked_time now offset ''Migration scheduled time overflow'')) (\<lambda>scheduled_at_ms.
      st_context ''Insert pending migration tx: {e}'' (insert_pending_row
        (pending_row_of run_id encrypted_raw_tx scheduled_at_ms schedule_origin (Some (pi_scheduled_height pending)) pending)))))"

definition insert_under_schedule ::
    "'t crypto_library \<Rightarrow> (nat \<Rightarrow> byte list) \<Rightarrow> int \<Rightarrow> string \<Rightarrow> pending_insert list \<Rightarrow> byte list \<Rightarrow> string
      \<Rightarrow> wallet_network \<Rightarrow> migration_timing_policy \<Rightarrow> zatoshi list \<Rightarrow> migration_schedule_entry list
      \<Rightarrow> ('t migration_db, unit) store_op" where
  "insert_under_schedule lib nonce now run_id pending_txs password salt_base64 network timing_policy target_values schedule =
     st_bind (st_lift (validate_schedule_with_policy schedule target_values network timing_policy)) (\<lambda>_.
     st_bind (st_read (run_column ''Read signed migration schedule origin: {e}'' mr_signed_schedule_origin_height run_id))
       (\<lambda>persisted.
     st_bind (st_read (\<lambda>db. check_all_pending (\<lambda>p. retained_replacement run_id p db) schedule target_values persisted
         pending_txs ({}, None))) (\<lambda>(scheduled_pending, incoming).
     st_bind (case (persisted, incoming) of (None, Some origin) \<Rightarrow> save_schedule_origin run_id origin | _ \<Rightarrow> st_return 0) (\<lambda>_.
     st_bind (st_lift (decode_base64 lib salt_base64 ''migration pending salt'')) (\<lambda>salt.
     st_bind (st_each (insert_checked_pending lib nonce password salt now run_id) (enumerate 0 scheduled_pending)) (\<lambda>_.
     st_bind (move_run now run_id PHASE_BROADCAST_SCHEDULED (\<lambda>_. True)) (\<lambda>_. st_return ())))))))"

text \<open>A missing schedule is drawn and saved first; that draw is the only use of randomness.\<close>

definition insert_pending_txs_with_tx ::
    "'t crypto_library \<Rightarrow> (nat \<Rightarrow> byte list) \<Rightarrow> 'r random_source \<Rightarrow> f64_arith \<Rightarrow> int \<Rightarrow> string \<Rightarrow> pending_insert list
      \<Rightarrow> byte list \<Rightarrow> string \<Rightarrow> ('t migration_db, 'r, unit) draw_op" where
  "insert_pending_txs_with_tx lib nonce rng fp now run_id pending_txs password salt_base64 =
     dr_bind (dr_store (st_read (run_column ''Read migration run policy: {e}'' id run_id))) (\<lambda>run.
     dr_bind (dr_store (st_lift (
        res_bind (ok_or (wallet_network_from_str (mr_network run))
          (Message ''Unsupported migration run network: {network}'' [AStr (mr_network run)])) (\<lambda>network.
        res_bind (timing_policy_from_str (mr_timing_policy run)) (\<lambda>timing_policy.
        res_bind (from_json ''Decode migration run target values: {e}'' (mr_target_values run)) (\<lambda>target_values.
        res_bind (from_json ''Decode approved migration schedule: {e}'' (mr_schedule run)) (\<lambda>schedule.
        Inr (network, timing_policy, target_values, schedule)))))))) (\<lambda>(network, timing_policy, target_values, schedule).
     dr_bind
       (if schedule = []
        then dr_bind (dr_draw (planned_transfer_schedule_with_policy rng fp network timing_policy target_values)) (\<lambda>schedule.
          dr_store (st_bind (update_runs (\<lambda>r. mr_run_id r = run_id) (\<lambda>r. r\<lparr>mr_schedule := Some schedule\<rparr>))
            (\<lambda>_. st_return schedule)))
        else dr_store (st_return schedule)) (\<lambda>schedule.
     dr_store (insert_under_schedule lib nonce now run_id pending_txs password salt_base64 network timing_policy
       target_values schedule))))"

definition insert_pending_txs ::
    "'t crypto_library \<Rightarrow> (nat \<Rightarrow> byte list) \<Rightarrow> 'r random_source \<Rightarrow> f64_arith \<Rightarrow> int \<Rightarrow> string \<Rightarrow> pending_insert list
      \<Rightarrow> byte list \<Rightarrow> string \<Rightarrow> ('t migration_db, 'r, unit) draw_op" where
  "insert_pending_txs lib nonce rng fp now run_id pending_txs password salt_base64 =
     (if pending_txs = [] then dr_store (st_return ())
      else dr_transaction (insert_pending_txs_with_tx lib nonce rng fp now run_id pending_txs password salt_base64))"

end
