(* ===== verification/Run_Promote.thy ===== *)
theory Run_Promote
  imports Run_Insert
begin

text \<open>
  The one-time shift of a signed schedule to the height where its proofs are ready, the promotion of
  signed children to pending transactions, and the replacement of parts that were signed again.
  Operations of wallet/sync/migration.rs.
\<close>

section \<open>Shifting the signed schedule\<close>

text \<open>What the loop over the children decides: freeze the attempt, leave everything, or the new heights.\<close>

datatype rebase_plan = Freeze | Keep_Schedule | Shift "(string \<times> height) list"

fun rebase_updates ::
    "migration_schedule_entry list \<Rightarrow> zatoshi list \<Rightarrow> height \<Rightarrow> height
      \<Rightarrow> (string \<times> nat \<times> zatoshi \<times> height \<times> height) list \<Rightarrow> rebase_plan outcome" where
  "rebase_updates schedule target_values signed_schedule_origin new_origin [] = Inr (Shift [])"
| "rebase_updates schedule target_values signed_schedule_origin new_origin
     ((message_id, child_index, v, scheduled_height, expiry_height) # rest) =
     (case schedule_block_offset_for_part schedule target_values child_index v of
        None \<Rightarrow> Inr Freeze
      | Some offset \<Rightarrow>
          (case checked_sub scheduled_height offset of
             None \<Rightarrow> Inr Freeze
           | Some expected_origin \<Rightarrow>
               if expected_origin \<noteq> signed_schedule_origin then Inr Freeze
               else
                 (case checked_add 32 new_origin offset of
                    None \<Rightarrow> Inr Freeze
                  | Some new_scheduled_height \<Rightarrow>
                      res_bind (zip318_canonical_migration_expiry_height new_scheduled_height) (\<lambda>new_expiry.
                      if new_expiry \<noteq> expiry_height then Inr Keep_Schedule
                      else res_bind (rebase_updates schedule target_values signed_schedule_origin new_origin rest) (\<lambda>plan.
                        Inr (case plan of Shift updates \<Rightarrow> Shift ((message_id, new_scheduled_height) # updates)
                             | _ \<Rightarrow> plan))))))"

definition mark_initial_schedule_rebased_with_tx :: "int \<Rightarrow> string \<Rightarrow> height \<Rightarrow> ('t migration_db, unit) store_op" where
  "mark_initial_schedule_rebased_with_tx now run_id old_origin =
     st_bind (update_runs (\<lambda>r. mr_run_id r = run_id \<and> mr_initial_schedule_rebased_origin_height r = None)
       (\<lambda>r. r\<lparr>mr_initial_schedule_rebased_origin_height := Some old_origin, mr_updated_at_ms := now\<rparr>)) (\<lambda>_. st_return ())"

definition rebase_child :: "string \<Rightarrow> string \<times> height \<Rightarrow> ('t migration_db, unit) store_op" where
  "rebase_child run_id u = (case u of (message_id, new_scheduled_height) \<Rightarrow>
     st_bind (update_children (\<lambda>c. ch_run_id c = run_id \<and> ch_message_id c = message_id)
       (\<lambda>c. c\<lparr>ch_scheduled_height := Some new_scheduled_height\<rparr>)) (\<lambda>updated.
     if updated \<noteq> 1 then st_fail (Msg ''Failed to rebase exactly one signed migration child'') else st_return ()))"

definition read_rebase_children :: "string \<Rightarrow> 't migration_db \<Rightarrow> (string \<times> nat \<times> zatoshi \<times> height \<times> height) list outcome" where
  "read_rebase_children run_id db =
     res_map (\<lambda>c. res_bind (ok_or (ch_scheduled_height c) (Msg ''Read signed child for initial rebase: {e}''))
         (\<lambda>scheduled_height. Inr (ch_message_id c, ch_child_index c, ch_value_zatoshi c, scheduled_height, ch_expiry_height c)))
       (sort_key (\<lambda>c. (ch_child_index c, ch_message_id c)) (children_of_run run_id db))"

definition rebase_initial_signed_schedule_for_anchor_readiness_with_tx ::
    "int \<Rightarrow> string \<Rightarrow> height \<Rightarrow> ('t migration_db, bool) store_op" where
  "rebase_initial_signed_schedule_for_anchor_readiness_with_tx now run_id current_scanned_height =
     st_bind (st_read (run_column ''Read migration schedule for initial rebase: {e}'' id run_id)) (\<lambda>run.
     if mr_initial_schedule_rebased_origin_height run \<noteq> None then st_return False
     else case mr_proof_retry_height run of None \<Rightarrow> st_return False
     | Some retry_height \<Rightarrow>
     if current_scanned_height < retry_height then st_return False
     else case mr_signed_schedule_origin_height run of None \<Rightarrow> st_return False
     | Some signed_schedule_origin \<Rightarrow>
       st_bind (st_read (count_pending_for_run run_id)) (\<lambda>pending_count.
       if 0 < pending_count then st_return False
       else
         st_bind (st_lift (from_json ''Decode migration schedule for initial rebase: {e}'' (mr_schedule run))) (\<lambda>schedule.
         if schedule = [] then st_return False
         else
           st_bind (st_lift (from_json ''Decode migration targets for initial rebase: {e}'' (mr_target_values run)))
             (\<lambda>target_values.
           st_bind (st_read (read_rebase_children run_id)) (\<lambda>children.
           if children = [] then st_return False
           else if 2 ^ 32 \<le> length target_values
             then st_fail (Msg ''Migration target count exceeds u32 during initial rebase'')
           else if set (map (\<lambda>(_, child_index, _). child_index) children) \<noteq> {0..<length target_values} then st_return False
           else
             let new_origin = max signed_schedule_origin current_scanned_height in
             if new_origin = signed_schedule_origin then
               st_bind (mark_initial_schedule_rebased_with_tx now run_id signed_schedule_origin) (\<lambda>_. st_return False)
             else
               st_bind (st_lift (rebase_updates schedule target_values signed_schedule_origin new_origin children)) (\<lambda>plan.
               case plan of
                 Freeze \<Rightarrow>
                   st_bind (mark_initial_schedule_rebased_with_tx now run_id signed_schedule_origin) (\<lambda>_. st_return False)
               | Keep_Schedule \<Rightarrow> st_return False
               | Shift updates \<Rightarrow>
                   st_bind (st_each (rebase_child run_id) updates) (\<lambda>_.
                   st_bind (update_runs
                     (\<lambda>r. mr_run_id r = run_id \<and> mr_initial_schedule_rebased_origin_height r = None)
                     (\<lambda>r. r\<lparr>mr_signed_schedule_origin_height := Some new_origin,
                            mr_initial_schedule_rebased_origin_height := Some new_origin, mr_updated_at_ms := now\<rparr>)) (\<lambda>_.
                   st_return True))))))))"

section \<open>Promotion\<close>

definition refreshed_height :: "string \<Rightarrow> 't migration_db \<Rightarrow> pending_insert \<Rightarrow> pending_insert outcome" where
  "refreshed_height run_id db pending =
     res_bind (ok_or (Option.bind (find (\<lambda>c. ch_child_index c = pi_part_index pending) (children_of_run run_id db))
                 ch_scheduled_height)
        (Msg ''Read current signed migration child schedule: {e}'')) (\<lambda>scheduled_height.
     Inr (pending\<lparr>pi_scheduled_height := scheduled_height\<rparr>))"

definition settle_proof_retry :: "int \<Rightarrow> string \<Rightarrow> height \<Rightarrow> ('t migration_db, unit) store_op" where
  "settle_proof_retry now run_id remaining_child_retry_height =
     (\<lambda>db. st_bind (update_runs (\<lambda>r. mr_run_id r = run_id)
       (\<lambda>r. r\<lparr>mr_proof_retry_height :=
                (if \<exists>c \<in> set (children_of_run run_id db). Some (ch_child_index c) \<notin> pd_part_index ` set (pending_of_run run_id db)
                 then Some remaining_child_retry_height else None),
              mr_updated_at_ms := now\<rparr>)) (\<lambda>_. st_return ()) db)"

definition promote_signed_child_pczts_to_pending_txs ::
    "'t crypto_library \<Rightarrow> (nat \<Rightarrow> byte list) \<Rightarrow> 'r random_source \<Rightarrow> f64_arith \<Rightarrow> int \<Rightarrow> string \<Rightarrow> pending_insert list
      \<Rightarrow> height \<Rightarrow> height \<Rightarrow> byte list \<Rightarrow> string \<Rightarrow> ('t migration_db, 'r, unit) draw_op" where
  "promote_signed_child_pczts_to_pending_txs lib nonce rng fp now run_id pending_txs current_scanned_height
      remaining_child_retry_height password salt_base64 =
     (if pending_txs = [] then dr_store (st_return ())
      else dr_transaction (
        dr_bind (dr_store (st_read (migration_part_assignment_complete_with_conn run_id))) (\<lambda>assigned.
        if \<not> assigned
        then dr_store (st_fail (Msg ''Migration signing batches are incomplete before proof promotion''))
        else
          dr_bind (dr_store (rebase_initial_signed_schedule_for_anchor_readiness_with_tx now run_id current_scanned_height)) (\<lambda>_.
          dr_bind (dr_store (st_read (\<lambda>db. res_map (refreshed_height run_id db) pending_txs))) (\<lambda>pending_txs.
          dr_bind (insert_pending_txs_with_tx lib nonce rng fp now run_id pending_txs password salt_base64) (\<lambda>_.
          dr_store (settle_proof_retry now run_id remaining_child_retry_height)))))))"

section \<open>Replacing parts that were signed again\<close>

text \<open>\<open>Vec::swap_remove\<close>: the last element takes the place of the removed one.\<close>

definition swap_remove :: "'a list \<Rightarrow> nat \<Rightarrow> 'a list" where
  "swap_remove xs i = butlast (xs[i := last xs])"

definition find_position :: "('a \<Rightarrow> bool) \<Rightarrow> 'a list \<Rightarrow> nat option" where
  "find_position p xs = find (\<lambda>i. p (xs ! i)) [0..<length xs]"

fun match_replacements ::
    "migration_schedule_entry list \<Rightarrow> (string \<times> pending_insert) list
      \<Rightarrow> (string \<times> pending_insert) list \<times> (string \<times> pending_insert) list" where
  "match_replacements [] replacements = ([], replacements)"
| "match_replacements (entry # schedule) replacements =
     (case find_position (\<lambda>(_, p). (case part_index entry of
                Some part \<Rightarrow> pi_part_index p = part \<and> pi_value_zatoshi p = value_zatoshi entry
              | None \<Rightarrow> pi_value_zatoshi p = value_zatoshi entry)) replacements of
        None \<Rightarrow> match_replacements schedule replacements
      | Some i \<Rightarrow> (case match_replacements schedule (swap_remove replacements i) of
            (matched, unmatched) \<Rightarrow> (replacements ! i # matched, unmatched)))"

definition replacement_origin :: "height option \<Rightarrow> nat option \<Rightarrow> pending_insert \<Rightarrow> height outcome" where
  "replacement_origin recovery_origin rebuild_offset pending =
     (case (recovery_origin, rebuild_offset) of
        (Some origin, Some persisted_offset) \<Rightarrow>
          res_bind (ok_or (checked_add 32 origin persisted_offset)
             (Msg ''Persisted migration recovery schedule overflow'')) (\<lambda>persisted_scheduled_height.
          if pi_scheduled_height pending \<noteq> persisted_scheduled_height
          then Inl (Msg ''Replacement migration schedule does not match its persisted recovery offset'')
          else Inr origin)
      | (None, None) \<Rightarrow> Inr (pi_target_height pending - 1)
      | _ \<Rightarrow> Inl (Msg ''Migration recovery schedule metadata is incomplete''))"

definition replace_one ::
    "'t crypto_library \<Rightarrow> (nat \<Rightarrow> byte list) \<Rightarrow> byte list \<Rightarrow> byte list \<Rightarrow> int \<Rightarrow> string \<Rightarrow> height option \<Rightarrow> height
      \<Rightarrow> nat \<times> string \<times> pending_insert \<Rightarrow> ('t migration_db, unit) store_op" where
  "replace_one lib nonce password salt now run_id recovery_origin chain_tip_height replacement =
     (case replacement of (i, old_txid_hex, pending) \<Rightarrow>
      st_bind (st_read (\<lambda>db. ok_or (find (\<lambda>r. pd_txid_hex r = old_txid_hex \<and> pd_status r = ''needs_resign'')
                 (pending_of_run run_id db)) (Msg ''Expired migration part disappeared before replacement''))) (\<lambda>original.
      if pd_value_zatoshi original \<noteq> pi_value_zatoshi pending
      then st_fail (Msg ''Expired migration denomination changed during recovery'')
      else if to_ascii_lowercase (pd_selected_note_txid original) \<noteq> to_ascii_lowercase (pn_txid_hex (pi_selected_note pending))
           \<or> pd_selected_note_output_index original \<noteq> pn_output_index (pi_selected_note pending)
        then st_fail (Msg ''Expired migration funding note changed during recovery'')
      else
        st_bind (st_lift (zip318_canonical_migration_expiry_height (pi_scheduled_height pending))) (\<lambda>canonical_expiry.
        if pi_expiry_height pending \<noteq> canonical_expiry
        then st_fail (Msg ''Replacement migration expiry is not canonical for its scheduled height'')
        else
          st_bind (st_lift (replacement_origin recovery_origin (pd_rebuild_block_offset original) pending))
            (\<lambda>schedule_start_height.
          st_bind (st_lift (ok_or (checked_sub (pi_scheduled_height pending) schedule_start_height)
             (Msg ''Replacement migration schedule starts below zero''))) (\<lambda>_.
          st_bind (st_lift (encrypt_payload lib (nonce i) (pi_raw_tx pending) password salt)) (\<lambda>encrypted_raw_tx.
          st_bind (st_lift (checked_time now (pi_scheduled_height pending - chain_tip_height)
             ''Replacement migration time overflow'')) (\<lambda>scheduled_at_ms.
          st_bind (delete_pending (\<lambda>r. pd_run_id r = run_id \<and> pd_txid_hex r = old_txid_hex)) (\<lambda>_.
          st_context ''Insert replacement migration part: {e}'' (insert_pending_row
            (pending_row_of run_id encrypted_raw_tx scheduled_at_ms schedule_start_height
              (pd_original_scheduled_height original) pending))))))))))"

definition replace_resigned_pending_parts ::
    "'t crypto_library \<Rightarrow> (nat \<Rightarrow> byte list) \<Rightarrow> (nat \<Rightarrow> nat \<Rightarrow> byte list) \<Rightarrow> int \<Rightarrow> string \<Rightarrow> height
      \<Rightarrow> (string \<times> pending_insert) list \<Rightarrow> signed_child_insert list \<Rightarrow> byte list \<Rightarrow> string
      \<Rightarrow> ('t migration_db, unit) store_op" where
  "replace_resigned_pending_parts lib nonce child_nonce now run_id chain_tip_height replacements signed_children
      password salt_base64 =
     (if replacements = [] then st_return ()
      else
        st_bind (st_read (run_column ''Read replacement migration schedule: {e}'' id run_id)) (\<lambda>run.
        st_bind (st_lift (from_json ''Decode replacement migration schedule: {e}'' (mr_schedule run))) (\<lambda>schedule.
        st_bind (st_lift (decode_base64 lib salt_base64 ''migration pending salt'')) (\<lambda>salt.
        transaction (
          case match_replacements schedule replacements of
            (scheduled_replacements, unmatched) \<Rightarrow>
              if unmatched \<noteq> []
              then st_fail (Msg ''Replacement migration schedule does not match its denominations'')
              else
                st_bind (st_each (replace_one lib nonce password salt now run_id
                    (mr_recovery_schedule_origin_height run) chain_tip_height) (enumerate 0 scheduled_replacements)) (\<lambda>_.
                st_bind (insert_signed_child_pczts_with_tx lib child_nonce run_id signed_children password salt_base64
                    Replacement) (\<lambda>_.
                st_bind (move_run now run_id PHASE_BROADCAST_SCHEDULED (\<lambda>_. True)) (\<lambda>_. st_return ()))))))))"

end
