(* ===== verification/Run_Reschedule.thy ===== *)
theory Run_Reschedule
  imports Run_Confirm
begin

text \<open>
  New heights for pending parts: the shared recovery schedule of parts that are signed again, the
  redraw of overdue parts, and the receipt of the background sender. Operations of
  wallet/sync/migration.rs.
\<close>

section \<open>The recovery schedule\<close>

record rebuild_generation =
  rg_origin_height :: height
  rg_offsets_by_txid :: "string \<rightharpoonup> nat"

type_synonym rebuild_part = "string \<times> nat \<times> zatoshi \<times> nat option"

text \<open>The parts that keep their offset, those that get a new one, and the largest offset seen.\<close>

record rebuild_state =
  rb_kept :: "string \<rightharpoonup> nat"
  rb_to_assign :: "rebuild_part list"
  rb_observed_max :: nat
  rb_any_persisted :: bool

definition classify_part :: "nat \<Rightarrow> 't pending_row \<Rightarrow> rebuild_state \<Rightarrow> rebuild_state outcome" where
  "classify_part elapsed_cursor row st =
     res_bind (ok_or (pd_part_index row) (Msg ''Migration part waiting for re-sign is missing its part index'')) (\<lambda>part.
     Inr (case pd_rebuild_block_offset row of
        Some offset \<Rightarrow>
          let st = st\<lparr>rb_any_persisted := True, rb_observed_max := max (rb_observed_max st) offset\<rparr> in
          if offset < elapsed_cursor
          then st\<lparr>rb_to_assign := rb_to_assign st @ [(pd_txid_hex row, part, pd_value_zatoshi row, Some offset)]\<rparr>
          else st\<lparr>rb_kept := (rb_kept st)(to_ascii_lowercase (pd_txid_hex row) \<mapsto> offset)\<rparr>
      | None \<Rightarrow> st\<lparr>rb_to_assign := rb_to_assign st @ [(pd_txid_hex row, part, pd_value_zatoshi row, None)]\<rparr>))"

definition base_offset_of :: "height option \<Rightarrow> nat option \<Rightarrow> nat \<Rightarrow> rebuild_state \<Rightarrow> nat outcome" where
  "base_offset_of persisted_origin persisted_max_offset elapsed_cursor st =
     (if persisted_origin = None \<and> (persisted_max_offset \<noteq> None \<or> rb_any_persisted st)
      then Inl (Msg ''Migration recovery schedule metadata is incomplete'')
      else res_bind (case persisted_max_offset of
             Some max_offset \<Rightarrow>
               if rb_observed_max st \<le> max_offset then Inr max_offset
               else Inl (Msg ''Migration recovery schedule maximum is below a persisted part offset'')
           | None \<Rightarrow> Inr (rb_observed_max st)) (\<lambda>persisted_base_offset.
        Inr (max persisted_base_offset elapsed_cursor)))"

fun assign_offsets ::
    "string \<Rightarrow> nat \<Rightarrow> (rebuild_part \<times> nat) list \<Rightarrow> nat \<Rightarrow> (string \<rightharpoonup> nat)
      \<Rightarrow> ('t migration_db, nat \<times> (string \<rightharpoonup> nat)) store_op" where
  "assign_offsets run_id base_offset [] generation_max offsets = st_return (generation_max, offsets)"
| "assign_offsets run_id base_offset (((txid_hex, _, _, previous_offset), fresh_offset) # rest) generation_max offsets =
     st_bind (st_lift (ok_or (checked_add 32 base_offset fresh_offset)
        (Msg ''Migration rebuild schedule offset overflow''))) (\<lambda>assigned.
     st_bind (update_pending (\<lambda>r. pd_run_id r = run_id \<and> pd_txid_hex r = txid_hex \<and> pd_status r = ''needs_resign''
                \<and> pd_rebuild_block_offset r = previous_offset)
              (\<lambda>r. r\<lparr>pd_rebuild_block_offset := Some assigned\<rparr>)) (\<lambda>updated.
     if updated \<noteq> 1 then st_fail (Msg ''Migration recovery part changed while scheduling'')
     else assign_offsets run_id base_offset rest (max generation_max assigned)
            (offsets(to_ascii_lowercase txid_hex \<mapsto> assigned))))"

definition save_generation ::
    "string \<Rightarrow> height \<Rightarrow> nat \<times> (string \<rightharpoonup> nat) \<Rightarrow> ('t migration_db, rebuild_generation option) store_op" where
  "save_generation run_id origin_height generation =
     st_bind (update_runs (\<lambda>r. mr_run_id r = run_id)
       (\<lambda>r. r\<lparr>mr_recovery_schedule_origin_height := Some origin_height,
              mr_recovery_schedule_max_block_offset := Some (fst generation)\<rparr>)) (\<lambda>updated.
     if updated \<noteq> 1 then st_fail (Msg ''Migration run changed while scheduling recovery'')
     else st_return (Some \<lparr>rg_origin_height = origin_height, rg_offsets_by_txid = snd generation\<rparr>))"

definition fresh_offsets_for ::
    "'r random_source \<Rightarrow> f64_arith \<Rightarrow> run_row \<Rightarrow> wallet_network \<Rightarrow> migration_timing_policy \<Rightarrow> rebuild_part list
      \<Rightarrow> ('t migration_db, 'r, nat list) draw_op" where
  "fresh_offsets_for rng fp run network timing_policy to_assign =
     (if to_assign = [] then dr_store (st_return [])
      else
        dr_bind (dr_store (st_lift (from_json ''Decode migration rebuild schedule: {e}'' (mr_schedule run)))) (\<lambda>schedule.
        dr_bind (dr_store (st_lift (from_json ''Decode migration rebuild target values: {e}'' (mr_target_values run))))
          (\<lambda>target_values.
        dr_bind (dr_draw (rebuild_schedule_block_offsets rng fp schedule target_values
             (map (\<lambda>(_, part, v, _). (part, v)) to_assign) network timing_policy)) (\<lambda>fresh.
        dr_store (st_lift fresh)))))"

definition ensure_rebuild_schedule_generation ::
    "'r random_source \<Rightarrow> f64_arith \<Rightarrow> string \<Rightarrow> wallet_network \<Rightarrow> height
      \<Rightarrow> ('t migration_db, 'r, rebuild_generation option) draw_op" where
  "ensure_rebuild_schedule_generation rng fp run_id network origin_candidate_height =
     dr_transaction (
       dr_bind (dr_store (st_read (\<lambda>db.
         Inr (by_schedule (filter (\<lambda>r. pd_status r = ''needs_resign'') (pending_of_run run_id db)))))) (\<lambda>rows.
       if rows = [] then dr_store (st_return None)
       else
         dr_bind (dr_store (st_read (timing_policy_for_run_with_conn run_id))) (\<lambda>timing_policy.
         dr_bind (dr_store (st_read (run_column ''Read migration rebuild schedule origin: {e}'' id run_id))) (\<lambda>run.
         let origin_height = (case mr_recovery_schedule_origin_height run of
               Some origin \<Rightarrow> origin | None \<Rightarrow> origin_candidate_height);
             elapsed_cursor = origin_candidate_height - origin_height in
         dr_bind (dr_store (st_lift (res_fold (classify_part elapsed_cursor) rows
             \<lparr>rb_kept = Map.empty, rb_to_assign = [], rb_observed_max = 0, rb_any_persisted = False\<rparr>))) (\<lambda>st.
         dr_bind (dr_store (st_lift (base_offset_of (mr_recovery_schedule_origin_height run)
             (mr_recovery_schedule_max_block_offset run) elapsed_cursor st))) (\<lambda>base_offset.
         dr_bind (fresh_offsets_for rng fp run network timing_policy (rb_to_assign st)) (\<lambda>fresh_offsets.
         dr_store (
           st_bind (assign_offsets run_id base_offset (zip (rb_to_assign st) fresh_offsets) base_offset (rb_kept st))
             (save_generation run_id origin_height)))))))))"

section \<open>Redrawing overdue parts\<close>

fun redraw_loop ::
    "int \<Rightarrow> string \<Rightarrow> height \<Rightarrow> nat \<Rightarrow> ((string \<times> height) \<times> nat) list \<Rightarrow> bool \<Rightarrow> ('t migration_db, bool) store_op" where
  "redraw_loop now run_id chain_tip_height minimum_delay_blocks [] needs_resign = st_return needs_resign"
| "redraw_loop now run_id chain_tip_height minimum_delay_blocks (((txid_hex, expiry_height), offset) # rest) needs_resign =
     (let effective_offset = max offset minimum_delay_blocks in
      st_bind (st_lift (ok_or (checked_add 32 chain_tip_height effective_offset)
         (Msg ''Migration rescheduled height overflow''))) (\<lambda>scheduled_height.
      st_bind (st_lift (zip318_canonical_migration_expiry_height scheduled_height)) (\<lambda>canonical_expiry.
      if canonical_expiry \<noteq> expiry_height then
        st_bind (update_pending (\<lambda>r. pd_run_id r = run_id \<and> pd_txid_hex r = txid_hex \<and> pd_status r = ''scheduled'')
          (\<lambda>r. r\<lparr>pd_status := ''needs_resign''\<rparr>)) (\<lambda>_.
        redraw_loop now run_id chain_tip_height minimum_delay_blocks rest True)
      else
        st_bind (st_lift (checked_time now effective_offset ''Migration rescheduled time overflow'')) (\<lambda>scheduled_at_ms.
        st_bind (update_pending (\<lambda>r. pd_run_id r = run_id \<and> pd_txid_hex r = txid_hex \<and> pd_status r = ''scheduled'')
          (\<lambda>r. r\<lparr>pd_scheduled_height := scheduled_height, pd_schedule_start_height := Some chain_tip_height,
                 pd_scheduled_at_ms := scheduled_at_ms\<rparr>)) (\<lambda>_.
        redraw_loop now run_id chain_tip_height minimum_delay_blocks rest needs_resign)))))"

definition reschedule_overdue_pending_txs_with_options ::
    "'r random_source \<Rightarrow> f64_arith \<Rightarrow> int \<Rightarrow> string \<Rightarrow> wallet_network \<Rightarrow> height \<Rightarrow> nat \<Rightarrow> string option
      \<Rightarrow> ('t migration_db, 'r, unit) draw_op" where
  "reschedule_overdue_pending_txs_with_options rng fp now run_id network chain_tip_height minimum_delay_blocks excluded_txid =
     dr_bind (dr_store (st_read (\<lambda>db. Inr (filter (\<lambda>(txid, _). Some txid \<noteq> excluded_txid)
         (map (\<lambda>r. (pd_txid_hex r, pd_expiry_height r)) (due_rows run_id chain_tip_height db)))))) (\<lambda>txids.
     if txids = [] then dr_store (st_return ())
     else
       dr_bind (dr_draw (\<lambda>r. Some (shuffle rng txids r))) (\<lambda>txids.
       dr_bind (dr_store (st_read (timing_policy_for_run_with_conn run_id))) (\<lambda>timing_policy.
       dr_bind (dr_store (st_read (planned_part_count_with_conn run_id))) (\<lambda>planned_part_count.
       case schedule_parameters_with_policy_for_part_count network timing_policy planned_part_count of
         (mean_delay_blocks, max_delay_blocks) \<Rightarrow>
       dr_bind (dr_draw (random_schedule_block_offsets_with_rng rng fp (length txids) mean_delay_blocks max_delay_blocks))
         (\<lambda>offsets.
       dr_store (transaction (
         st_bind (redraw_loop now run_id chain_tip_height minimum_delay_blocks (zip txids offsets) False) (\<lambda>needs_resign.
         if needs_resign
         then st_bind (ready_for_resign now run_id ''Migration schedule crossed a ZIP 318 expiry boundary'') (\<lambda>_. st_return ())
         else st_return ()))))))))"

definition reschedule_overdue_pending_txs ::
    "'r random_source \<Rightarrow> f64_arith \<Rightarrow> int \<Rightarrow> string \<Rightarrow> wallet_network \<Rightarrow> height \<Rightarrow> ('t migration_db, 'r, unit) draw_op" where
  "reschedule_overdue_pending_txs rng fp now run_id network chain_tip_height =
     reschedule_overdue_pending_txs_with_options rng fp now run_id network chain_tip_height 0 None"

text \<open>The runs of the wallet with an overdue part, each rescheduled on its own; the first error stops.\<close>

definition overdue_runs :: "wallet_network \<Rightarrow> height \<Rightarrow> 't migration_db \<Rightarrow> string list" where
  "overdue_runs network chain_tip_height db =
     sort (remdups (map pd_run_id (filter (\<lambda>p. pd_status p = ''scheduled'' \<and> pd_scheduled_height p \<le> chain_tip_height
        \<and> (\<exists>r \<in> set (db_runs db). mr_run_id r = pd_run_id p \<and> mr_network r = network_name network)) (db_pending db))))"

fun dr_each :: "('x \<Rightarrow> ('s, 'r, unit) draw_op) \<Rightarrow> 'x list \<Rightarrow> ('s, 'r, unit) draw_op" where
  "dr_each f [] = dr_store (st_return ())"
| "dr_each f (x # xs) = dr_bind (f x) (\<lambda>_. dr_each f xs)"

definition reschedule_wallet_overdue_pending_txs_with_exclusion ::
    "'r random_source \<Rightarrow> f64_arith \<Rightarrow> int \<Rightarrow> wallet_network \<Rightarrow> height \<Rightarrow> (string \<times> string) option
      \<Rightarrow> ('t migration_db, 'r, unit) draw_op" where
  "reschedule_wallet_overdue_pending_txs_with_exclusion rng fp now network chain_tip_height excluded =
     dr_bind (dr_store (st_read (\<lambda>db. Inr (overdue_runs network chain_tip_height db)))) (\<lambda>run_ids.
     dr_each (\<lambda>run_id. reschedule_overdue_pending_txs_with_options rng fp now run_id network chain_tip_height 1
         (case excluded of None \<Rightarrow> None
          | Some (excluded_run_id, excluded_txid) \<Rightarrow> if run_id = excluded_run_id then Some excluded_txid else None)) run_ids)"

definition reschedule_wallet_overdue_pending_txs ::
    "'r random_source \<Rightarrow> f64_arith \<Rightarrow> int \<Rightarrow> wallet_network \<Rightarrow> height \<Rightarrow> ('t migration_db, 'r, unit) draw_op" where
  "reschedule_wallet_overdue_pending_txs rng fp now network chain_tip_height =
     reschedule_wallet_overdue_pending_txs_with_exclusion rng fp now network chain_tip_height None"

definition reschedule_wallet_overdue_pending_txs_after_accepted ::
    "'r random_source \<Rightarrow> f64_arith \<Rightarrow> int \<Rightarrow> wallet_network \<Rightarrow> height \<Rightarrow> string \<Rightarrow> string
      \<Rightarrow> ('t migration_db, 'r, unit) draw_op" where
  "reschedule_wallet_overdue_pending_txs_after_accepted rng fp now network chain_tip_height accepted_run_id accepted_txid =
     reschedule_wallet_overdue_pending_txs_with_exclusion rng fp now network chain_tip_height
       (Some (accepted_run_id, accepted_txid))"

section \<open>The receipt of an accepted transaction\<close>

record outbox_schedule_update =
  ou_item_id :: string
  ou_scheduled_height :: height
  ou_schedule_start_height :: height

record outbox_tx_state =
  ot_run_phase :: string
  ot_status :: string
  ot_expiry_height :: height

definition migration_outbox_run_phase_with_conn ::
    "string \<Rightarrow> wallet_network \<Rightarrow> string \<Rightarrow> 't migration_db \<Rightarrow> string outcome" where
  "migration_outbox_run_phase_with_conn account_uuid network run_id db =
     res_bind (ok_or (find (\<lambda>r. mr_run_id r = run_id \<and> mr_account_uuid r = account_uuid
          \<and> mr_network r = network_name network) (db_runs db))
        (Msg ''Migration outbox receipt does not match this account and run'')) (\<lambda>run. Inr (mr_phase run))"

definition find_outbox_row :: "string \<Rightarrow> string \<Rightarrow> 't migration_db \<Rightarrow> 't pending_row option" where
  "find_outbox_row run_id txid_lower db =
     find (\<lambda>r. to_ascii_lowercase (pd_txid_hex r) = txid_lower) (pending_of_run run_id db)"

definition migration_outbox_tx_state ::
    "string \<Rightarrow> wallet_network \<Rightarrow> string \<Rightarrow> string \<Rightarrow> 't migration_db \<Rightarrow> outbox_tx_state outcome" where
  "migration_outbox_tx_state account_uuid network run_id txid_hex db =
     res_bind (migration_outbox_run_phase_with_conn account_uuid network run_id db) (\<lambda>phase.
     res_bind (ok_or (find_outbox_row run_id (to_ascii_lowercase txid_hex) db)
        (Msg ''Migration outbox receipt transaction was not found in this run'')) (\<lambda>row.
     Inr \<lparr>ot_run_phase = phase, ot_status = pd_status row, ot_expiry_height = pd_expiry_height row\<rparr>))"

fun check_schedule_updates ::
    "string \<Rightarrow> height \<Rightarrow> nat \<Rightarrow> outbox_schedule_update list \<Rightarrow> string set \<Rightarrow> height \<Rightarrow> unit outcome" where
  "check_schedule_updates accepted_txid remote_height timing_max_blocks [] seen previous = Inr ()"
| "check_schedule_updates accepted_txid remote_height timing_max_blocks (update # rest) seen previous =
     (let item_id = to_ascii_lowercase (ou_item_id update) in
      if item_id = accepted_txid then Inl (Msg ''Accepted migration outbox item cannot reschedule itself'')
      else if item_id \<in> seen
        then Inl (Message ''Migration outbox schedule update {item_id} is duplicated'' [AStr item_id])
      else if ou_schedule_start_height update \<noteq> remote_height
        then Inl (Message ''Migration outbox schedule update {item_id} does not start at the receipt height'' [AStr item_id])
      else
        res_bind (ok_or (checked_sub (ou_scheduled_height update) previous)
           (Message ''Migration outbox schedule update {item_id} moves backward'' [AStr item_id])) (\<lambda>incremental_delay.
        if incremental_delay = 0 \<or> timing_max_blocks < incremental_delay
        then Inl (Message ''Migration outbox schedule update {item_id} is outside the timing window'' [AStr item_id])
        else check_schedule_updates accepted_txid remote_height timing_max_blocks rest (insert item_id seen)
               (ou_scheduled_height update)))"

fun apply_schedule_updates ::
    "string \<Rightarrow> (string \<times> outbox_schedule_update) list \<Rightarrow> bool \<Rightarrow> ('t migration_db, bool) store_op" where
  "apply_schedule_updates run_id [] crossed = st_return crossed"
| "apply_schedule_updates run_id ((item_id, update) # rest) crossed =
     st_bind (st_read (\<lambda>db. ok_or (find_outbox_row run_id item_id db)
        (Message ''Migration outbox schedule item {item_id} was not found'' [AStr item_id]))) (\<lambda>row.
     st_bind (st_lift (zip318_canonical_migration_expiry_height (ou_scheduled_height update))) (\<lambda>canonical_expiry.
     if pd_status row = ''scheduled'' then
       if canonical_expiry \<noteq> pd_expiry_height row then
         st_bind (update_pending (\<lambda>r. pd_run_id r = run_id \<and> to_ascii_lowercase (pd_txid_hex r) = item_id
                    \<and> pd_status r = ''scheduled'') (\<lambda>r. r\<lparr>pd_status := ''needs_resign''\<rparr>)) (\<lambda>_.
         apply_schedule_updates run_id rest True)
       else
         st_bind (update_pending (\<lambda>r. pd_run_id r = run_id \<and> to_ascii_lowercase (pd_txid_hex r) = item_id
                    \<and> pd_status r = ''scheduled'')
                  (\<lambda>r. r\<lparr>pd_scheduled_height := ou_scheduled_height update,
                         pd_schedule_start_height := Some (ou_schedule_start_height update)\<rparr>)) (\<lambda>_.
         apply_schedule_updates run_id rest crossed)
     else if pd_scheduled_height row \<noteq> ou_scheduled_height update
          \<or> pd_schedule_start_height row \<noteq> Some (ou_schedule_start_height update)
       then st_fail (Message ''Migration outbox schedule item {item_id} is no longer scheduled'' [AStr item_id])
     else apply_schedule_updates run_id rest crossed))"

definition overdue_peers :: "string \<Rightarrow> string \<Rightarrow> height \<Rightarrow> 't migration_db \<Rightarrow> string set" where
  "overdue_peers run_id accepted_txid remote_height db =
     (\<lambda>r. to_ascii_lowercase (pd_txid_hex r)) ` set (filter (\<lambda>r. pd_status r = ''scheduled''
        \<and> pd_scheduled_height r \<le> remote_height \<and> remote_height < pd_expiry_height r
        \<and> to_ascii_lowercase (pd_txid_hex r) \<noteq> accepted_txid) (pending_of_run run_id db))"

definition accept_row :: "string \<Rightarrow> string \<Rightarrow> ('t migration_db, nat) store_op" where
  "accept_row run_id accepted_txid =
     update_pending (\<lambda>r. pd_run_id r = run_id \<and> to_ascii_lowercase (pd_txid_hex r) = accepted_txid
         \<and> pd_status r \<in> {''scheduled'', ''needs_resign''}) (\<lambda>r. r\<lparr>pd_status := ''broadcasted''\<rparr>)"

definition apply_accepted_migration_outbox_receipt ::
    "int \<Rightarrow> string \<Rightarrow> wallet_network \<Rightarrow> string \<Rightarrow> string \<Rightarrow> height \<Rightarrow> outbox_schedule_update list
      \<Rightarrow> ('t migration_db, unit) store_op" where
  "apply_accepted_migration_outbox_receipt now account_uuid network run_id txid_hex remote_height schedule_updates =
     (let accepted_txid = to_ascii_lowercase txid_hex;
          supplied = sort_key fst (map (\<lambda>u. (to_ascii_lowercase (ou_item_id u), u)) schedule_updates) in
      transaction (
        st_bind (st_read (migration_outbox_run_phase_with_conn account_uuid network run_id)) (\<lambda>_.
        st_bind (st_read (\<lambda>db. ok_or (find_outbox_row run_id accepted_txid db)
           (Msg ''Migration outbox receipt transaction was not found in this run''))) (\<lambda>row.
        let accepted_status = pd_status row in
        if accepted_status \<notin> {''scheduled'', ''broadcasted'', ''confirmed'', ''needs_resign''}
        then st_fail (Message ''Migration outbox receipt cannot accept a transaction in status {accepted_status}''
               [AStr accepted_status])
        else
          st_bind (st_read (timing_policy_for_run_with_conn run_id)) (\<lambda>timing_policy.
          st_bind (st_lift (check_schedule_updates accepted_txid remote_height
                     (snd (schedule_parameters_with_policy network timing_policy)) schedule_updates {} remote_height)) (\<lambda>_.
          st_bind (st_read (\<lambda>db.
             if accepted_status = ''scheduled'' \<and> set (map fst supplied) \<noteq> overdue_peers run_id accepted_txid remote_height db
             then Inl (Msg ''Migration outbox receipt must reschedule exactly the remaining overdue items'')
             else Inr ())) (\<lambda>_.
          st_bind (apply_schedule_updates run_id supplied False) (\<lambda>crossed.
          st_bind (if crossed
                   then ready_for_resign now run_id ''Migration schedule crossed a ZIP 318 expiry boundary''
                   else st_return 0) (\<lambda>_.
          if accepted_status \<in> {''scheduled'', ''needs_resign''} then
            st_bind (accept_row run_id accepted_txid) (\<lambda>_. update_run_after_pending_broadcast now run_id)
          else st_return ())))))))))"

end
