(* ===== verification/Run_Chain.thy ===== *)
theory Run_Chain
  imports Run_Confirm
begin

text \<open>
  The denomination stages against the wallet's scanned chain: which stages the chain no longer
  carries, which descendants must be prepared again, the reset of the migration children they fund,
  and the step from confirmed denominations to a run that is ready to migrate. Operations of
  wallet/sync/migration.rs.
\<close>

section \<open>Children of a denomination that left the chain\<close>

fun reset_children_loop ::
    "wallet_view \<Rightarrow> string \<Rightarrow> (string \<times> nat) list \<Rightarrow> nat set \<times> bool \<Rightarrow> ('t migration_db, nat set \<times> bool) store_op" where
  "reset_children_loop wv run_id [] st = st_return st"
| "reset_children_loop wv run_id ((child_txid, output_index) # rest) (included_outputs, reset_any) =
     st_bind (st_lift (local_denomination_chain_identity wv child_txid)) (\<lambda>identity.
     if identity \<noteq> None
     then reset_children_loop wv run_id rest (insert output_index included_outputs, reset_any)
     else st_bind (delete_pending (\<lambda>r. pd_run_id r = run_id \<and> pd_txid_hex r = child_txid)) (\<lambda>_.
       reset_children_loop wv run_id rest (included_outputs, True)))"

definition reset_note :: "string \<Rightarrow> string \<Rightarrow> nat \<Rightarrow> ('t migration_db, nat) store_op" where
  "reset_note run_id denomination_txid output_index =
     update_notes (\<lambda>n. nr_run_id n = run_id \<and> to_ascii_lowercase (nr_txid_hex n) = denomination_txid
         \<and> nr_output_index n = output_index)
       (\<lambda>n. n\<lparr>nr_nullifier_hex := None, nr_lock_state := ''locked''\<rparr>)"

fun reset_notes_loop :: "string \<Rightarrow> string \<Rightarrow> nat set \<Rightarrow> nat list \<Rightarrow> bool \<Rightarrow> ('t migration_db, bool) store_op" where
  "reset_notes_loop run_id denomination_txid included_outputs [] reset_any = st_return reset_any"
| "reset_notes_loop run_id denomination_txid included_outputs (output_index # rest) reset_any =
     (if output_index \<in> included_outputs
      then reset_notes_loop run_id denomination_txid included_outputs rest reset_any
      else st_bind (reset_note run_id denomination_txid output_index) (\<lambda>_.
        reset_notes_loop run_id denomination_txid included_outputs rest True))"

definition children_funded_by :: "string \<Rightarrow> string \<Rightarrow> 't migration_db \<Rightarrow> (string \<times> nat) list" where
  "children_funded_by run_id denomination_txid db =
     map (\<lambda>r. (pd_txid_hex r, pd_selected_note_output_index r))
       (filter (\<lambda>r. to_ascii_lowercase (pd_selected_note_txid r) = denomination_txid) (pending_of_run run_id db))"

definition outputs_of_denomination :: "string \<Rightarrow> string \<Rightarrow> 't migration_db \<Rightarrow> nat list" where
  "outputs_of_denomination run_id denomination_txid db =
     map nr_output_index (filter (\<lambda>n. nr_run_id n = run_id
       \<and> to_ascii_lowercase (nr_txid_hex n) = denomination_txid) (db_notes db))"

fun reset_denominations_loop :: "wallet_view \<Rightarrow> string \<Rightarrow> string list \<Rightarrow> bool \<Rightarrow> ('t migration_db, bool) store_op" where
  "reset_denominations_loop wv run_id [] reset_any = st_return reset_any"
| "reset_denominations_loop wv run_id (txid # rest) reset_any =
     (let denomination_txid = to_ascii_lowercase txid in
      st_bind (st_read (\<lambda>db. Inr (children_funded_by run_id denomination_txid db))) (\<lambda>child_rows.
      st_bind (reset_children_loop wv run_id child_rows ({}, reset_any)) (\<lambda>(included_outputs, reset_any).
      st_bind (st_read (\<lambda>db. Inr (outputs_of_denomination run_id denomination_txid db))) (\<lambda>output_indices.
      st_bind (reset_notes_loop run_id denomination_txid included_outputs output_indices reset_any) (\<lambda>reset_any.
      reset_denominations_loop wv run_id rest reset_any)))))"

definition wait_for_denominations :: "int \<Rightarrow> string \<Rightarrow> ('t migration_db, nat) store_op" where
  "wait_for_denominations now run_id =
     update_runs (\<lambda>r. mr_run_id r = run_id \<and> phase_is_live (mr_phase r))
       (\<lambda>r. r\<lparr>mr_phase := PHASE_WAITING_DENOM_CONFIRMATIONS, mr_updated_at_ms := now, mr_last_error := None,
              mr_proof_retry_height := None\<rparr>)"

definition reset_migration_children_for_reorged_denominations ::
    "wallet_view \<Rightarrow> int \<Rightarrow> string \<Rightarrow> string set \<Rightarrow> ('t migration_db, bool) store_op" where
  "reset_migration_children_for_reorged_denominations wv now run_id denomination_txids =
     (if denomination_txids = {} then st_return False
      else transaction (
        st_bind (st_read (run_column ''Read migration phase before denomination reorg reset: {e}'' mr_phase run_id)) (\<lambda>phase.
        if migration_phase_releases_wallet_locks phase then st_return False
        else
          st_bind (reset_denominations_loop wv run_id (sorted_list_of_set denomination_txids) False) (\<lambda>reset_any.
          st_bind (if reset_any then wait_for_denominations now run_id else st_return 0) (\<lambda>_.
          st_return reset_any)))))"

section \<open>What changed on the chain\<close>

type_synonym inclusion = "height \<times> byte list"

record chain_changes =
  cc_affected :: "string set"
  cc_invalid :: "string set"
  cc_identities :: "string \<rightharpoonup> inclusion"
  cc_recovered :: "string set"

definition record_txid :: "stage_chain_record \<Rightarrow> string" where
  "record_txid record = to_ascii_lowercase (cr_expected_txid_hex record)"

fun current_identities :: "wallet_view \<Rightarrow> stage_chain_record list \<Rightarrow> (string \<rightharpoonup> inclusion) outcome" where
  "current_identities wv [] = Inr Map.empty"
| "current_identities wv (record # rest) =
     res_bind (local_denomination_chain_identity wv (cr_expected_txid_hex record)) (\<lambda>identity.
     res_bind (current_identities wv rest) (\<lambda>current.
     Inr (if record_txid record \<in> record_txid ` set rest then current
          else current(record_txid record := identity))))"

definition stored_matches :: "stage_chain_record \<Rightarrow> inclusion \<Rightarrow> bool" where
  "stored_matches record identity \<longleftrightarrow>
     cr_confirmed_mined_height record = Some (fst identity) \<and> cr_confirmed_block_hash record = Some (snd identity)"

definition classify_record :: "(string \<rightharpoonup> inclusion) \<Rightarrow> chain_changes \<Rightarrow> stage_chain_record \<Rightarrow> chain_changes" where
  "classify_record current changes record =
     (let txid = record_txid record in
      case (cr_status record, current txid) of
        (AwaitingInputs, Some identity) \<Rightarrow> changes\<lparr>cc_identities := (cc_identities changes)(txid \<mapsto> identity)\<rparr>
      | (Pending, Some identity) \<Rightarrow>
          changes\<lparr>cc_recovered := insert txid (cc_recovered changes),
                  cc_identities := (cc_identities changes)(txid \<mapsto> identity)\<rparr>
      | (Broadcasted, Some identity) \<Rightarrow> changes\<lparr>cc_identities := (cc_identities changes)(txid \<mapsto> identity)\<rparr>
      | (Confirmed, None) \<Rightarrow>
          changes\<lparr>cc_affected := insert txid (cc_affected changes), cc_invalid := insert txid (cc_invalid changes)\<rparr>
      | (Confirmed, Some identity) \<Rightarrow>
          if stored_matches record identity then changes
          else changes\<lparr>cc_affected := insert txid (cc_affected changes),
                       cc_identities := (cc_identities changes)(txid \<mapsto> identity)\<rparr>
      | _ \<Rightarrow> changes)"

text \<open>One pass over the records: a stage with an affected parent is affected, off the chain also invalid.\<close>

definition propagate_record :: "(string \<rightharpoonup> inclusion) \<Rightarrow> chain_changes \<Rightarrow> stage_chain_record \<Rightarrow> chain_changes" where
  "propagate_record current changes record =
     (if \<exists>parent \<in> set (cr_parent_txids record). parent \<in> cc_affected changes
      then changes\<lparr>cc_affected := insert (record_txid record) (cc_affected changes),
                   cc_invalid := (if current (record_txid record) = None
                                  then insert (record_txid record) (cc_invalid changes) else cc_invalid changes)\<rparr>
      else changes)"

definition propagate_pass ::
    "(string \<rightharpoonup> inclusion) \<Rightarrow> stage_chain_record list \<Rightarrow> chain_changes \<Rightarrow> chain_changes" where
  "propagate_pass current records changes = foldl (propagate_record current) changes records"

lemma propagate_record_affected:
  "cc_affected changes \<subseteq> cc_affected (propagate_record current changes rc)"
  "cc_affected (propagate_record current changes rc) \<subseteq> insert (record_txid rc) (cc_affected changes)"
  by (auto simp: propagate_record_def)

lemma propagate_pass_mono: "cc_affected changes \<subseteq> cc_affected (propagate_pass current records changes)"
proof (induction records arbitrary: changes)
  case (Cons rc rcs)
  show ?case
    using Cons[of "propagate_record current changes rc"] propagate_record_affected(1)[of changes current rc]
    by (auto simp: propagate_pass_def)
qed (simp add: propagate_pass_def)

lemma propagate_pass_bound:
  "cc_affected (propagate_pass current records changes) \<subseteq> record_txid ` set records \<union> cc_affected changes"
proof (induction records arbitrary: changes)
  case (Cons rc rcs)
  show ?case
    using Cons[of "propagate_record current changes rc"] propagate_record_affected(2)[of current changes rc]
    by (auto simp: propagate_pass_def)
qed (simp add: propagate_pass_def)

text \<open>The loop repeats the pass until the number of affected stages stays the same.\<close>

function propagate_changes ::
    "(string \<rightharpoonup> inclusion) \<Rightarrow> stage_chain_record list \<Rightarrow> chain_changes \<Rightarrow> chain_changes" where
  "propagate_changes current records changes =
     (let after = propagate_pass current records changes in
      if card (cc_affected after) = card (cc_affected changes) then after
      else propagate_changes current records after)"
  by auto

termination
proof (relation "measure (\<lambda>(current, records, changes). card (record_txid ` set records - cc_affected changes))")
  fix current records changes after
  assume after: "after = propagate_pass current records changes"
    and grew: "card (cc_affected after) \<noteq> card (cc_affected changes)"
  have le: "cc_affected changes \<subseteq> cc_affected after" and
    ge: "cc_affected after \<subseteq> record_txid ` set records \<union> cc_affected changes"
    using propagate_pass_mono propagate_pass_bound by (simp_all add: after)
  from grew have "cc_affected after \<noteq> cc_affected changes" by auto
  with le obtain t where t: "t \<in> cc_affected after" "t \<notin> cc_affected changes" by blast
  with ge have "t \<in> record_txid ` set records - cc_affected changes" by blast
  with le t(1) have "record_txid ` set records - cc_affected after \<subset> record_txid ` set records - cc_affected changes" by blast
  then show "((current, records, after), current, records, changes)
      \<in> measure (\<lambda>(current, records, changes). card (record_txid ` set records - cc_affected changes))"
    by (simp add: psubset_card_mono)
qed simp

declare propagate_changes.simps [simp del]

definition changes_on_chain :: "(string \<rightharpoonup> inclusion) \<Rightarrow> stage_chain_record list \<Rightarrow> chain_changes" where
  "changes_on_chain current records =
     propagate_changes current records (foldl (classify_record current)
       \<lparr>cc_affected = {}, cc_invalid = {}, cc_identities = Map.empty, cc_recovered = {}\<rparr> records)"

section \<open>Reconciliation\<close>

definition recovery_context ::
    "string \<Rightarrow> height outcome \<Rightarrow> chain_changes \<Rightarrow> 't migration_db \<Rightarrow> (wallet_network \<times> height) option outcome" where
  "recovery_context run_id chain_tip changes db =
     (if cc_recovered changes = {} then Inr None
      else res_bind (preparation_timing_policy_for_run_with_conn run_id db) (\<lambda>policy.
        if policy = Immediate then Inr None
        else res_bind (run_column ''Read recovered denomination run network: {e}'' mr_network run_id db) (\<lambda>name.
          res_bind (ok_or (wallet_network_from_str name)
             (Message ''Unsupported migration run network: {network}'' [AStr name])) (\<lambda>network.
          res_bind chain_tip (\<lambda>chain_tip_height. Inr (Some (network, chain_tip_height)))))))"

definition still_pending :: "string \<Rightarrow> string \<Rightarrow> 't migration_db \<Rightarrow> bool outcome" where
  "still_pending run_id txid db =
     res_bind (ok_or (find_stage (db_stages db) run_id txid)
        (Message ''Check recovered denomination stage state: {e}'' [AMsg NO_ROWS])) (\<lambda>row. Inr (row_status row = ''pending''))"

text \<open>The catch-up draws of \<open>Stage_Catchup\<close> with the policies of the run.\<close>

definition rerandomize_for_run ::
    "'r random_source \<Rightarrow> f64_arith \<Rightarrow> string \<Rightarrow> wallet_network \<Rightarrow> height \<Rightarrow> ('t migration_db, 'r, nat) draw_op" where
  "rerandomize_for_run rng fp run_id network chain_tip_height =
     dr_bind (dr_store (st_read (preparation_timing_policy_for_run_with_conn run_id))) (\<lambda>preparation_policy.
     if preparation_policy = Immediate then dr_store (st_return 0)
     else
       dr_bind (dr_store (st_read (timing_policy_for_run_with_conn run_id))) (\<lambda>timing_policy.
       (\<lambda>db r. map_option (\<lambda>((result, stages), r). ((result, db\<lparr>db_stages := stages\<rparr>), r))
          (rerandomize_remaining_preparation_broadcast_heights rng fp preparation_policy timing_policy run_id network
            chain_tip_height (db_stages db) r))))"

text \<open>The updates of one transaction; the result is whether the run had ended meanwhile.\<close>

definition record_stage_changes ::
    "string \<Rightarrow> chain_changes \<Rightarrow> ('t migration_db, bool option) store_op" where
  "record_stage_changes run_id changes =
     st_bind (st_read (run_column ''Read migration phase before chain-state reconciliation: {e}'' mr_phase run_id)) (\<lambda>phase.
     if migration_phase_releases_wallet_locks phase then st_return None
     else
       st_bind (st_read (\<lambda>db. res_map (\<lambda>txid. still_pending run_id txid db) (sorted_list_of_set (cc_recovered changes))))
         (\<lambda>recovered.
       st_bind (on_stages (st_each (reset_denomination_stage_exact run_id) (sorted_list_of_set (cc_invalid changes)))) (\<lambda>_.
       st_bind (on_stages (st_each (\<lambda>(txid, mined_height, block_hash).
            replace_denomination_stage_confirmation_identity run_id txid mined_height block_hash)
          (map (\<lambda>txid. (txid, the (cc_identities changes txid)))
            (sorted_list_of_set (dom (cc_identities changes) - cc_invalid changes))))) (\<lambda>_.
       st_return (Some (\<exists>b \<in> set recovered. b))))))"

definition commit_stage_changes ::
    "'r random_source \<Rightarrow> f64_arith \<Rightarrow> string \<Rightarrow> chain_changes \<Rightarrow> (wallet_network \<times> height) option
      \<Rightarrow> ('t migration_db, 'r, bool) draw_op" where
  "commit_stage_changes rng fp run_id changes context =
     (if cc_invalid changes = {} \<and> dom (cc_identities changes) = {} then dr_store (st_return False)
      else dr_transaction (
        dr_bind (dr_store (record_stage_changes run_id changes)) (\<lambda>recorded.
        case (recorded, context) of
          (None, _) \<Rightarrow> dr_store (st_return True)
        | (Some True, Some (network, chain_tip_height)) \<Rightarrow>
            dr_bind (rerandomize_for_run rng fp run_id network chain_tip_height) (\<lambda>_. dr_store (st_return False))
        | _ \<Rightarrow> dr_store (st_return False))))"

definition mark_waiting_for_denominations :: "int \<Rightarrow> string \<Rightarrow> chain_changes \<Rightarrow> ('t migration_db, unit) store_op" where
  "mark_waiting_for_denominations now run_id changes =
     (if cc_affected changes = {} then st_return ()
      else st_bind (move_run now run_id PHASE_WAITING_DENOM_CONFIRMATIONS phase_is_live) (\<lambda>_. st_return ()))"

definition reconcile_denomination_stage_chain_state_with_rng ::
    "'r random_source \<Rightarrow> f64_arith \<Rightarrow> wallet_view \<Rightarrow> int \<Rightarrow> string \<Rightarrow> height outcome
      \<Rightarrow> ('t migration_db, 'r, unit) draw_op" where
  "reconcile_denomination_stage_chain_state_with_rng rng fp wv now run_id chain_tip =
     dr_bind (dr_store (st_read (\<lambda>db. denomination_stage_chain_records (db_stages db) run_id))) (\<lambda>records.
     if records = [] then dr_store (st_return ())
     else
       dr_bind (dr_store (st_lift (current_identities wv records))) (\<lambda>current.
       let changes = changes_on_chain current records in
       dr_bind (dr_store (st_read (recovery_context run_id chain_tip changes))) (\<lambda>context.
       dr_bind (dr_store (reset_migration_children_for_reorged_denominations wv now run_id (cc_affected changes))) (\<lambda>_.
       dr_bind (commit_stage_changes rng fp run_id changes context) (\<lambda>ended.
       if ended then dr_store (st_return ())
       else dr_store (mark_waiting_for_denominations now run_id changes))))))"

section \<open>Confirmed denominations\<close>

fun trusted_stages_loop :: "wallet_view \<Rightarrow> string list \<Rightarrow> (string \<times> inclusion) list option outcome" where
  "trusted_stages_loop wv [] = Inr (Some [])"
| "trusted_stages_loop wv (txid_hex # rest) =
     res_bind (local_denomination_chain_identity wv txid_hex) (\<lambda>identity.
     case identity of
       None \<Rightarrow> Inr None
     | Some found \<Rightarrow>
         if synced_orchard_confirmation_count wv (fst found) < wv_trusted_confirmations wv then Inr None
         else res_bind (trusted_stages_loop wv rest) (\<lambda>stages. Inr (map_option ((#) (txid_hex, found)) stages)))"

fun record_nullifiers :: "string \<Rightarrow> (string \<times> nat \<times> string \<times> height) list \<Rightarrow> ('t migration_db, unit) store_op" where
  "record_nullifiers run_id [] = st_return ()"
| "record_nullifiers run_id ((txid_hex, output_index, nf_hex, _) # rest) =
     st_bind (update_notes (\<lambda>n. nr_run_id n = run_id \<and> nr_txid_hex n = txid_hex \<and> nr_output_index n = output_index)
       (\<lambda>n. n\<lparr>nr_nullifier_hex := Some nf_hex\<rparr>)) (\<lambda>_. record_nullifiers run_id rest)"

text \<open>\<open>error.contains(...)\<close>: the only error with that text is the one of a moved inclusion.\<close>

definition is_moved_error :: "message \<Rightarrow> bool" where
  "is_moved_error e = (case e of Message template _ \<Rightarrow>
     template = ''Migration denomination stage {expected_txid_hex} moved to a different chain inclusion'')"

fun confirm_stages_loop :: "string \<Rightarrow> (string \<times> inclusion) list \<Rightarrow> ('t migration_db, bool) store_op" where
  "confirm_stages_loop run_id [] = st_return True"
| "confirm_stages_loop run_id ((txid_hex, mined_height, block_hash) # rest) =
     (\<lambda>db. case on_stages (mark_denomination_stage_confirmed_at run_id txid_hex mined_height block_hash) db of
        (Inl e, db) \<Rightarrow> if is_moved_error e then (Inr False, db) else (Inl e, db)
      | (Inr _, db) \<Rightarrow> confirm_stages_loop run_id rest db)"

definition reconcile_denomination_confirmations ::
    "wallet_view \<Rightarrow> int \<Rightarrow> active_run_info \<Rightarrow> ('t migration_db, unit) store_op" where
  "reconcile_denomination_confirmations wv now run =
     (if ar_phase run \<noteq> PHASE_WAITING_DENOM_CONFIRMATIONS then st_return ()
      else st_bind (st_read (confirmed_prepared_denomination_notes wv (ar_run_id run))) (\<lambda>confirmed.
        case confirmed of None \<Rightarrow> st_return ()
        | Some [] \<Rightarrow> st_return ()
        | Some (note # notes) \<Rightarrow>
          let max_mined_height = Max (set (map (\<lambda>(_, _, _, h). h) (note # notes))) in
          if synced_orchard_confirmation_count wv max_mined_height < wv_trusted_confirmations wv then st_return ()
          else
            st_bind (st_read (\<lambda>db. trusted_stages_loop wv
               (denomination_stage_expected_txids (db_stages db) (ar_run_id run)))) (\<lambda>stage_identities.
            case stage_identities of None \<Rightarrow> st_return ()
            | Some stage_identities \<Rightarrow>
              st_bind (st_read (run_column ''Read denomination run network: {e}'' mr_network (ar_run_id run))) (\<lambda>name.
              st_bind (st_lift (ok_or (wallet_network_from_str name)
                 (Message ''Unsupported migration run network: {network}'' [AStr name]))) (\<lambda>network.
              st_bind (st_read (timing_policy_for_run_with_conn (ar_run_id run))) (\<lambda>timing_policy.
              st_bind (st_lift (res_fold (\<lambda>(_, _, _, mined_height) ready_height.
                  res_bind (proof_ready_height_for_note_mined_height (wv_trusted_confirmations wv) network timing_policy
                     mined_height) (\<lambda>h. Inr (max ready_height h))) (note # notes) 0)) (\<lambda>proof_ready_height.
              st_bind (record_nullifiers (ar_run_id run) (note # notes)) (\<lambda>_.
              st_bind (confirm_stages_loop (ar_run_id run) stage_identities) (\<lambda>confirmed_all.
              if \<not> confirmed_all then st_return ()
              else st_bind (update_runs (\<lambda>r. mr_run_id r = ar_run_id run \<and> mr_phase r = PHASE_WAITING_DENOM_CONFIRMATIONS)
                  (\<lambda>r. r\<lparr>mr_phase := PHASE_READY_TO_MIGRATE, mr_proof_retry_height := Some proof_ready_height,
                         mr_updated_at_ms := now, mr_last_error := None\<rparr>)) (\<lambda>_. st_return ()))))))))))"

section \<open>Progress reads\<close>

record split_progress =
  sp_frontier_confirmation_count :: nat
  sp_completed_count :: nat
  sp_total_count :: nat

fun stage_confirmations :: "wallet_view \<Rightarrow> string list \<Rightarrow> (string \<times> nat) list outcome" where
  "stage_confirmations wv [] = Inr []"
| "stage_confirmations wv (txid # rest) =
     res_bind (local_denomination_chain_identity wv txid) (\<lambda>identity.
     res_bind (stage_confirmations wv rest) (\<lambda>counts.
     Inr ((txid, case identity of Some (mined_height, _) \<Rightarrow> synced_orchard_confirmation_count wv mined_height | None \<Rightarrow> 0) # counts)))"

definition denomination_split_progress_for_run :: "wallet_view \<Rightarrow> string \<Rightarrow> 't migration_db \<Rightarrow> split_progress outcome" where
  "denomination_split_progress_for_run wv run_id db =
     res_bind (denomination_stage_chain_records (db_stages db) run_id) (\<lambda>stages.
     if stages = [] then Inr \<lparr>sp_frontier_confirmation_count = 0, sp_completed_count = 0, sp_total_count = 0\<rparr>
     else if 2 ^ 32 \<le> length stages then Inl (Msg ''Denomination split stage count exceeds u32'')
     else
       let planned_txids = set (map record_txid stages) in
       res_bind (stage_confirmations wv (map record_txid stages)) (\<lambda>counts.
       let trusted = set (map fst (filter (\<lambda>(_, n). wv_trusted_confirmations wv \<le> n) counts));
           completed_count = card trusted;
           frontier = filter (\<lambda>stage. record_txid stage \<notin> trusted
               \<and> (\<forall>parent \<in> set (cr_parent_txids stage).
                    to_ascii_lowercase parent \<in> planned_txids \<longrightarrow> to_ascii_lowercase parent \<in> trusted)) stages
       in Inr \<lparr>sp_frontier_confirmation_count =
                 (if completed_count = length stages then wv_trusted_confirmations wv
                  else case map (\<lambda>stage. the (map_of (rev counts) (record_txid stage))) frontier of
                         [] \<Rightarrow> 0 | n # ns \<Rightarrow> Min (set (n # ns))),
               sp_completed_count = completed_count, sp_total_count = length stages\<rparr>))"

definition pending_split_stage_count_for_run :: "string \<Rightarrow> 't migration_db \<Rightarrow> nat outcome" where
  "pending_split_stage_count_for_run run_id db =
     res_bind (denomination_stage_status_counts (db_stages db) run_id) (\<lambda>staged.
     if (case find_run db run_id of None \<Rightarrow> False | Some run \<Rightarrow> mr_phase run = PHASE_WAITING_DENOM_CONFIRMATIONS)
     then Inr (cnt_total staged)
     else ok_or (checked_add 32 (cnt_pending staged) (cnt_awaiting_inputs staged))
            (Msg ''Pending denomination stage count overflow''))"

datatype part_state = Part_Preparing | Part_Scheduled | Part_Migrating | Part_Confirming | Part_Completed | Part_Needs_Input

definition denomination_stage_confirmation_count :: "wallet_view \<Rightarrow> string \<Rightarrow> nat outcome" where
  "denomination_stage_confirmation_count wv txid_hex =
     res_bind (local_denomination_chain_identity wv txid_hex) (\<lambda>identity.
     Inr (case identity of Some (mined_height, _) \<Rightarrow> synced_orchard_confirmation_count wv mined_height | None \<Rightarrow> 0))"

definition denomination_stage_part_state ::
    "wallet_view \<Rightarrow> stage_chain_record \<Rightarrow> nat \<Rightarrow> (part_state \<times> nat) outcome" where
  "denomination_stage_part_state wv stage confirmation_target =
     (case cr_status stage of
        AwaitingInputs \<Rightarrow> Inr (Part_Preparing, 0)
      | Pending \<Rightarrow> Inr (Part_Preparing, 0)
      | Broadcasted \<Rightarrow>
          res_bind (denomination_stage_confirmation_count wv (cr_expected_txid_hex stage)) (\<lambda>confirmation_count.
          Inr (if confirmation_count = 0 then Part_Migrating
               else if confirmation_target \<le> confirmation_count then Part_Completed else Part_Confirming,
               confirmation_count))
      | Confirmed \<Rightarrow>
          res_bind (case cr_confirmed_mined_height stage of
                      Some mined_height \<Rightarrow> Inr (synced_orchard_confirmation_count wv mined_height)
                    | None \<Rightarrow> denomination_stage_confirmation_count wv (cr_expected_txid_hex stage)) (\<lambda>confirmation_count.
          Inr (if confirmation_target \<le> confirmation_count then Part_Completed else Part_Confirming, confirmation_count)))"

end
