(* ===== verification/Run_Lifecycle.thy ===== *)
theory Run_Lifecycle
  imports Run_Promote Run_Reschedule Run_Chain
begin

text \<open>
  The life of a migration run: its creation, the draft that precedes it, its end, and the locks that
  the wallet library holds for it. Operations of wallet/sync/migration.rs and
  \<open>send_rejection_is_already_accepted\<close> of wallet/sync/broadcast.rs. The lock table of the wallet
  library is the state \<open>'w\<close> behind a \<open>lock_library\<close>; other threads that change the migration tables
  between the two sides of a reconciliation are the argument \<open>others\<close>.
\<close>

section \<open>Migration tables and wallet locks\<close>

record ('t, 'w) wallet_state =
  ws_migration :: "'t migration_db"
  ws_locks :: 'w

record 'w lock_library =
  unlock_outputs :: "string \<Rightarrow> (string \<times> nat) list \<Rightarrow> 'w \<Rightarrow> unit outcome \<times> 'w"
  ensure_locks :: "string \<Rightarrow> (string \<times> nat) list \<Rightarrow> 'w \<Rightarrow> bool outcome \<times> 'w"

definition on_db :: "('t migration_db, 'a) store_op \<Rightarrow> (('t, 'w) wallet_state, 'a) store_op" where
  "on_db m ws = (case m (ws_migration ws) of (result, db) \<Rightarrow> (result, ws\<lparr>ws_migration := db\<rparr>))"

definition on_locks :: "('w \<Rightarrow> 'a outcome \<times> 'w) \<Rightarrow> (('t, 'w) wallet_state, 'a) store_op" where
  "on_locks m ws = (case m (ws_locks ws) of (result, locks) \<Rightarrow> (result, ws\<lparr>ws_locks := locks\<rparr>))"

definition wallet_lock_candidates_with_conn :: "string \<Rightarrow> 't migration_db \<Rightarrow> (string \<times> nat) list" where
  "wallet_lock_candidates_with_conn run_id db =
     sorted_list_of_set (
       set (map (\<lambda>n. (nr_txid_hex n, nr_output_index n)) (filter (\<lambda>n. nr_run_id n = run_id) (db_notes db)))
       \<union> set (map (\<lambda>i. (sir_txid_hex (inr_input i), sir_output_index (inr_input i)))
           (filter (\<lambda>i. inr_run_id i = run_id) (input_rows (db_stages db)))))"

definition wallet_lock_reconciliation_snapshot ::
    "string \<Rightarrow> 't migration_db \<Rightarrow> (bool \<times> (string \<times> nat) list) option" where
  "wallet_lock_reconciliation_snapshot run_id db =
     map_option (\<lambda>run. (migration_phase_releases_wallet_locks (mr_phase run), wallet_lock_candidates_with_conn run_id db))
       (find_run db run_id)"

definition wallet_lock_reconciliation_is_stable :: "bool \<Rightarrow> bool \<Rightarrow> bool" where
  "wallet_lock_reconciliation_is_stable applied_release current_release \<longleftrightarrow> applied_release = current_release"

text \<open>The passes of the loop; \<open>others n\<close> is what happens while \<open>n\<close> passes remain.\<close>

fun reconcile_locks_loop ::
    "'w lock_library \<Rightarrow> (nat \<Rightarrow> 't migration_db \<Rightarrow> 't migration_db) \<Rightarrow> string \<Rightarrow> nat
      \<Rightarrow> (('t, 'w) wallet_state, bool) store_op" where
  "reconcile_locks_loop lib others run_id 0 =
     st_fail (Msg ''Migration phase changed repeatedly during wallet-lock reconciliation'')"
| "reconcile_locks_loop lib others run_id (Suc n) =
     st_bind (st_read (\<lambda>ws. Inr (wallet_lock_reconciliation_snapshot run_id (ws_migration ws)))) (\<lambda>snapshot.
     case snapshot of None \<Rightarrow> st_return True
     | Some (release_locks, candidates) \<Rightarrow>
       st_bind (if release_locks
                then st_bind (on_locks (unlock_outputs lib run_id candidates)) (\<lambda>_. st_return True)
                else on_locks (ensure_locks lib run_id candidates)) (\<lambda>completed.
       st_bind (\<lambda>ws. (Inr (), ws\<lparr>ws_migration := others n (ws_migration ws)\<rparr>)) (\<lambda>_.
       st_bind (st_read (\<lambda>ws. Inr (wallet_lock_reconciliation_snapshot run_id (ws_migration ws)))) (\<lambda>current.
       case current of
         None \<Rightarrow> st_bind (on_locks (unlock_outputs lib run_id candidates)) (\<lambda>_. st_return True)
       | Some (current_release_locks, _) \<Rightarrow>
           if wallet_lock_reconciliation_is_stable release_locks current_release_locks then st_return completed
           else reconcile_locks_loop lib others run_id n))))"

definition reconcile_wallet_locks_for_run_inner ::
    "'w lock_library \<Rightarrow> (nat \<Rightarrow> 't migration_db \<Rightarrow> 't migration_db) \<Rightarrow> string
      \<Rightarrow> (('t, 'w) wallet_state, bool) store_op" where
  "reconcile_wallet_locks_for_run_inner lib others run_id = reconcile_locks_loop lib others run_id 8"

definition reconcile_wallet_locks_for_run ::
    "'w lock_library \<Rightarrow> (nat \<Rightarrow> 't migration_db \<Rightarrow> 't migration_db) \<Rightarrow> string
      \<Rightarrow> (('t, 'w) wallet_state, unit) store_op" where
  "reconcile_wallet_locks_for_run lib others run_id =
     st_bind (reconcile_wallet_locks_for_run_inner lib others run_id) (\<lambda>_. st_return ())"

section \<open>A failed broadcast that had succeeded\<close>

definition contains_text :: "string \<Rightarrow> string \<Rightarrow> bool" where
  "contains_text needle hay \<longleftrightarrow> (\<exists>i \<in> set [0..<Suc (length hay)]. take (length needle) (drop i hay) = needle)"

definition send_rejection_is_already_accepted :: "string \<Rightarrow> bool" where
  "send_rejection_is_already_accepted msg =
     (let msg = to_ascii_lowercase msg in
      contains_text ''transaction was committed to the best chain'' msg
      \<or> contains_text ''already in mempool'' msg
      \<or> contains_text ''already have transaction'' msg
      \<or> contains_text ''transaction already in block chain'' msg
      \<or> contains_text ''transaction is already in state'' msg
      \<or> contains_text ''transaction already exists'' msg
      \<or> contains_text ''txn-already-known'' msg
      \<or> contains_text ''txn-already-in-mempool'' msg
      \<or> contains_text ''already known'' msg)"

definition latest_idempotent_broadcast_failure ::
    "string \<Rightarrow> wallet_network \<Rightarrow> 't migration_db \<Rightarrow> (string \<times> string) option outcome" where
  "latest_idempotent_broadcast_failure account_uuid network db =
     (case sort_key (\<lambda>r. - mr_created_at_ms r) (filter (\<lambda>r. mr_account_uuid r = account_uuid
             \<and> mr_network r = network_name network) (db_runs db)) of
        [] \<Rightarrow> Inr None
      | run # _ \<Rightarrow>
          (case mr_last_error run of
             None \<Rightarrow> Inr None
           | Some last_error \<Rightarrow>
               if mr_phase run \<noteq> PHASE_FAILED_TERMINAL \<or> \<not> send_rejection_is_already_accepted last_error then Inr None
               else res_bind (count_pending_with_status (mr_run_id run) ''scheduled'' db) (\<lambda>scheduled_count.
                 Inr (if scheduled_count = 0 then None else Some (mr_run_id run, last_error)))))"

definition recover_latest_idempotent_broadcast_failure ::
    "int \<Rightarrow> string \<Rightarrow> wallet_network \<Rightarrow> ('t migration_db, unit) store_op" where
  "recover_latest_idempotent_broadcast_failure now account_uuid network =
     st_bind (st_read (latest_idempotent_broadcast_failure account_uuid network)) (\<lambda>found.
     case found of None \<Rightarrow> st_return ()
     | Some (run_id, last_error) \<Rightarrow>
         transaction (
           st_bind (update_runs (\<lambda>r. mr_run_id r = run_id \<and> mr_phase r = PHASE_FAILED_TERMINAL
                      \<and> mr_last_error r = Some last_error)
                    (\<lambda>r. r\<lparr>mr_phase := PHASE_BROADCAST_SCHEDULED, mr_updated_at_ms := now, mr_last_error := None\<rparr>))
             (\<lambda>recovered.
           if recovered = 0 then st_return ()
           else st_bind (set_lock_state run_id ''locked'') (\<lambda>_. st_return ()))))"

definition migration_reserves_orchard_inputs_in_snapshot :: "string \<Rightarrow> wallet_network \<Rightarrow> 't migration_db \<Rightarrow> bool outcome" where
  "migration_reserves_orchard_inputs_in_snapshot account_uuid network db =
     (if active_run account_uuid network db \<noteq> None then Inr True
      else res_bind (latest_idempotent_broadcast_failure account_uuid network db) (\<lambda>found. Inr (found \<noteq> None)))"

section \<open>Creating a run\<close>

definition new_run_row ::
    "string \<Rightarrow> string \<Rightarrow> wallet_network \<Rightarrow> string \<Rightarrow> string \<Rightarrow> int \<Rightarrow> zatoshi list \<Rightarrow> migration_timing_policy
      \<Rightarrow> migration_schedule_entry list \<Rightarrow> preparation_timing_policy \<Rightarrow> run_row" where
  "new_run_row run_id account_uuid network db_path phase now target_values timing_policy schedule preparation_policy =
     \<lparr>mr_run_id = run_id, mr_account_uuid = account_uuid, mr_network = network_name network,
      mr_db_fingerprint = db_path, mr_phase = phase, mr_created_at_ms = now, mr_updated_at_ms = now,
      mr_target_values = Some target_values, mr_schedule = Some schedule,
      mr_timing_policy = timing_policy_as_str timing_policy,
      mr_preparation_timing_policy = preparation_policy_as_str preparation_policy,
      mr_proof_retry_height = None, mr_signed_schedule_origin_height = None,
      mr_initial_schedule_rebased_origin_height = None, mr_recovery_schedule_origin_height = None,
      mr_recovery_schedule_max_block_offset = None, mr_last_error = None\<rparr>"

definition initial_phase_of :: "stage_insert list \<Rightarrow> string" where
  "initial_phase_of stages = (if stages = [] then PHASE_READY_TO_MIGRATE else PHASE_WAITING_DENOM_CONFIRMATIONS)"

definition cleanup_failed_created_run ::
    "message \<Rightarrow> ('s, unit) store_op \<Rightarrow> ('s, unit) store_op \<Rightarrow> ('s, message) store_op" where
  "cleanup_failed_created_run reconciliation_error unlock delete_run ws =
     (case unlock ws of
        (Inl unlock_error, ws) \<Rightarrow>
          (Inr (Message (''{reconciliation_error}; additionally failed to release migration wallet locks; ''
                 @ ''the durable run was preserved for recovery: {unlock_error}'')
             [AMsg reconciliation_error, AMsg unlock_error]), ws)
      | (Inr _, ws) \<Rightarrow>
          (case delete_run ws of
             (Inr _, ws) \<Rightarrow> (Inr reconciliation_error, ws)
           | (Inl delete_error, ws) \<Rightarrow>
               (Inr (Message (''{reconciliation_error}; wallet locks were released but the migration run could not ''
                      @ ''be removed and was preserved for reconciliation: {delete_error}'')
                  [AMsg reconciliation_error, AMsg delete_error]), ws)))"

definition insert_run_parts ::
    "'t crypto_library \<Rightarrow> (nat \<Rightarrow> nat \<Rightarrow> byte list) \<Rightarrow> (nat \<Rightarrow> nat \<Rightarrow> byte list) \<Rightarrow> string \<Rightarrow> prepared_note_ref list
      \<Rightarrow> signed_child_insert list \<Rightarrow> stage_insert list \<Rightarrow> byte list \<Rightarrow> string \<Rightarrow> ('t migration_db, unit) store_op" where
  "insert_run_parts lib stage_nonce child_nonce run_id prepared_notes signed_children stages password salt_base64 =
     st_bind (insert_prepared_notes_with_tx run_id True prepared_notes) (\<lambda>_.
     st_bind (on_stages (insert_denomination_stages_with_tx lib stage_nonce run_id stages password salt_base64)) (\<lambda>_.
     insert_signed_child_pczts_with_tx lib child_nonce run_id signed_children password salt_base64 Initial))"

definition create_run_with_staged_denominations_and_signed_children ::
    "'t crypto_library \<Rightarrow> (nat \<Rightarrow> nat \<Rightarrow> byte list) \<Rightarrow> (nat \<Rightarrow> nat \<Rightarrow> byte list) \<Rightarrow> 'w lock_library
      \<Rightarrow> (nat \<Rightarrow> 't migration_db \<Rightarrow> 't migration_db) \<Rightarrow> bool \<Rightarrow> string \<Rightarrow> int \<Rightarrow> string \<Rightarrow> string \<Rightarrow> wallet_network
      \<Rightarrow> denomination_plan \<Rightarrow> prepared_note_ref list \<Rightarrow> signed_child_insert list \<Rightarrow> stage_insert list
      \<Rightarrow> migration_schedule_entry list option \<Rightarrow> preparation_timing_policy \<Rightarrow> byte list \<Rightarrow> string
      \<Rightarrow> (('t, 'w) wallet_state, string) store_op" where
  "create_run_with_staged_denominations_and_signed_children lib stage_nonce child_nonce locks others fast run_id now
      db_path account_uuid network plan prepared_notes signed_children stages approved_schedule
      preparation_policy password salt_base64 =
     (if stages = [] \<and> prepared_notes = [] then st_fail (Msg ''Migration run has no prepared funding notes'')
      else
        let initial_candidates = sorted_list_of_set (
              set (map (\<lambda>n. (pn_txid_hex n, pn_output_index n)) prepared_notes)
              \<union> set (concat (map (\<lambda>s. map (\<lambda>i. (sir_txid_hex i, sir_output_index i)) (ins_inputs s)) stages)));
            timing_policy = configured_timing_policy fast network in
        st_bind (on_db (st_read (\<lambda>db. Inr (active_run account_uuid network db)))) (\<lambda>active.
        case active of
          Some run \<Rightarrow> st_fail (Message ''Migration already active: {}'' [AStr (ar_run_id run)])
        | None \<Rightarrow>
          st_bind (st_lift (case approved_schedule of
                      Some schedule \<Rightarrow> validate_schedule_with_policy schedule (migration_outputs plan) network timing_policy
                    | None \<Rightarrow> Inr ())) (\<lambda>_.
          st_bind (on_db (transaction (
             st_bind (insert_run_row (new_run_row run_id account_uuid network db_path (initial_phase_of stages) now
                (migration_outputs plan) timing_policy (case approved_schedule of Some schedule \<Rightarrow> schedule | None \<Rightarrow> [])
                preparation_policy)) (\<lambda>_.
             insert_run_parts lib stage_nonce child_nonce run_id prepared_notes signed_children stages password salt_base64))))
            (\<lambda>_ ws.
          case reconcile_wallet_locks_for_run locks others run_id ws of
            (Inr _, ws) \<Rightarrow> (Inr run_id, ws)
          | (Inl error, ws) \<Rightarrow>
              st_bind (cleanup_failed_created_run error
                  (on_locks (unlock_outputs locks run_id initial_candidates))
                  (on_db (\<lambda>db. (Inr (), db\<lparr>db_runs := filter (\<lambda>r. mr_run_id r \<noteq> run_id) (db_runs db)\<rparr>))))
                st_fail ws))))"

definition create_or_resume_private_migration_draft ::
    "bool \<Rightarrow> string \<Rightarrow> int \<Rightarrow> string \<Rightarrow> string \<Rightarrow> wallet_network \<Rightarrow> zatoshi list \<Rightarrow> migration_schedule_entry list
      \<Rightarrow> preparation_timing_policy \<Rightarrow> ('t migration_db, string) store_op" where
  "create_or_resume_private_migration_draft fast run_id now db_path account_uuid network target_values approved_schedule
      preparation_policy =
     transaction (
       st_bind (st_read (\<lambda>db. Inr (active_run account_uuid network db))) (\<lambda>active.
       case active of
         Some run \<Rightarrow>
           if is_private_migration_draft_phase (ar_phase run) then
             if ar_target_values_zatoshi run \<noteq> target_values
             then st_fail (Msg ''Saved private migration plan no longer matches this balance'')
             else st_return (ar_run_id run)
           else st_fail (Message ''Migration already active: {}'' [AStr (ar_run_id run)])
       | None \<Rightarrow>
           st_bind (st_read (latest_idempotent_broadcast_failure account_uuid network)) (\<lambda>failure.
           if failure \<noteq> None then st_fail (Msg ''Migration recovery must complete before creating another run'')
           else
             let timing_policy = configured_timing_policy fast network in
             st_bind (st_lift (validate_schedule_with_policy approved_schedule target_values network timing_policy)) (\<lambda>_.
             st_bind (insert_run_row (new_run_row run_id account_uuid network db_path PHASE_AWAITING_PREPARATION now
                target_values timing_policy approved_schedule preparation_policy)) (\<lambda>_.
             st_return run_id)))))"

definition finalize_private_migration_draft ::
    "'t crypto_library \<Rightarrow> (nat \<Rightarrow> nat \<Rightarrow> byte list) \<Rightarrow> (nat \<Rightarrow> nat \<Rightarrow> byte list) \<Rightarrow> 'w lock_library
      \<Rightarrow> (nat \<Rightarrow> 't migration_db \<Rightarrow> 't migration_db) \<Rightarrow> int \<Rightarrow> string \<Rightarrow> string \<Rightarrow> wallet_network
      \<Rightarrow> denomination_plan \<Rightarrow> prepared_note_ref list \<Rightarrow> signed_child_insert list \<Rightarrow> stage_insert list \<Rightarrow> byte list \<Rightarrow> string
      \<Rightarrow> (('t, 'w) wallet_state, unit) store_op" where
  "finalize_private_migration_draft lib stage_nonce child_nonce locks others now run_id account_uuid network
      plan prepared_notes signed_children stages password salt_base64 =
     (if stages = [] \<and> prepared_notes = [] then st_fail (Msg ''Migration run has no prepared funding notes'')
      else
        st_bind (on_db (st_read (\<lambda>db. ok_or (active_run account_uuid network db)
           (Msg ''Saved private migration draft was not found'')))) (\<lambda>run.
        if ar_run_id run \<noteq> run_id \<or> \<not> is_private_migration_draft_phase (ar_phase run)
        then st_fail (Msg ''Saved private migration draft is no longer awaiting preparation'')
        else if ar_target_values_zatoshi run \<noteq> migration_outputs plan
          then st_fail (Msg ''Prepared transactions do not match the saved migration plan'')
        else
          st_bind (on_db (transaction (
            st_bind (insert_run_parts lib stage_nonce child_nonce run_id prepared_notes signed_children stages
               password salt_base64) (\<lambda>_.
            st_bind (move_run now run_id (initial_phase_of stages) is_private_migration_draft_phase) (\<lambda>_. st_return ())))))
            (\<lambda>_. reconcile_wallet_locks_for_run locks others run_id)))"

section \<open>Ending a run\<close>

definition retire_run_for_rebuild ::
    "'w lock_library \<Rightarrow> (nat \<Rightarrow> 't migration_db \<Rightarrow> 't migration_db) \<Rightarrow> int \<Rightarrow> string \<Rightarrow> string
      \<Rightarrow> (('t, 'w) wallet_state, unit) store_op" where
  "retire_run_for_rebuild locks others now run_id reason =
     st_bind (on_db (transaction (
       st_bind (update_runs (\<lambda>r. mr_run_id r = run_id)
         (\<lambda>r. r\<lparr>mr_phase := PHASE_FAILED_TERMINAL, mr_updated_at_ms := now, mr_last_error := Some reason\<rparr>)) (\<lambda>_.
       set_lock_state run_id ''unlocked'')))) (\<lambda>_.
     reconcile_wallet_locks_for_run locks others run_id)"

definition discard_unsubmitted_preparation_stages :: "string \<Rightarrow> ('t migration_db, unit) store_op" where
  "discard_unsubmitted_preparation_stages run_id db =
     (let stages = db_stages db;
          dropped = row_stage_index ` set (filter (unsubmitted run_id) (stage_rows stages)) in
      (Inr (), db\<lparr>db_stages := stages\<lparr>
         input_rows := filter (\<lambda>i. \<not> (inr_run_id i = run_id \<and> inr_stage_index i \<in> dropped)) (input_rows stages),
         output_rows := filter (\<lambda>out. \<not> (our_run_id out = run_id \<and> our_stage_index out \<in> dropped)) (output_rows stages),
         stage_rows := filter (\<lambda>s. \<not> unsubmitted run_id s) (stage_rows stages)\<rparr>\<rparr>))"

definition stop_run :: "int \<Rightarrow> string \<Rightarrow> string \<Rightarrow> ('t migration_db, unit) store_op" where
  "stop_run now run_id phase =
     transaction (
       st_bind (update_runs (\<lambda>r. mr_run_id r = run_id \<and> mr_phase r = phase)
         (\<lambda>r. r\<lparr>mr_phase := PHASE_ABANDONED, mr_updated_at_ms := now,
                mr_last_error := Some ''Migration stopped by the user.''\<rparr>)) (\<lambda>transitioned.
       if transitioned \<noteq> 1 then st_fail (Msg ''Migration phase changed while stopping; retry.'')
       else
         st_bind (delete_children (\<lambda>c. ch_run_id c = run_id)) (\<lambda>_.
         st_bind (delete_pending (\<lambda>r. pd_run_id r = run_id \<and> pd_status r \<in> {''scheduled'', ''needs_resign''})) (\<lambda>_.
         st_bind (set_lock_state run_id ''unlocked'') (\<lambda>_.
         st_bind (update_runs (\<lambda>r. mr_run_id r = run_id)
           (\<lambda>r. r\<lparr>mr_recovery_schedule_origin_height := None, mr_recovery_schedule_max_block_offset := None\<rparr>)) (\<lambda>_.
         st_return ()))))))"

definition abandon_run ::
    "'w lock_library \<Rightarrow> (nat \<Rightarrow> 't migration_db \<Rightarrow> 't migration_db) \<Rightarrow> int \<Rightarrow> string \<Rightarrow> wallet_network \<Rightarrow> string
      \<Rightarrow> (('t, 'w) wallet_state, unit) store_op" where
  "abandon_run locks others now account_uuid network run_id =
     st_bind (on_db (st_read (\<lambda>db. ok_or (find_run db run_id)
        (Message ''Migration run {expected_run_id} was not found'' [AStr run_id])))) (\<lambda>run.
     if mr_account_uuid run \<noteq> account_uuid \<or> mr_network run \<noteq> network_name network
     then st_fail (Msg ''Migration run does not belong to this wallet account'')
     else if mr_phase run = PHASE_ABANDONED then
       st_bind (reconcile_wallet_locks_for_run locks others run_id) (\<lambda>_.
       on_db (discard_unsubmitted_preparation_stages run_id))
     else if mr_phase run = PHASE_COMPLETE \<or> mr_phase run = PHASE_FAILED_TERMINAL
       then st_fail (Message ''Migration run is already terminal ({})'' [AStr (mr_phase run)])
     else
       st_bind (on_db (stop_run now run_id (mr_phase run))) (\<lambda>_.
       st_bind (reconcile_wallet_locks_for_run locks others run_id) (\<lambda>_.
       on_db (discard_unsubmitted_preparation_stages run_id))))"

definition delete_account_migration_rows_with_tx :: "string \<Rightarrow> ('t migration_db, unit) store_op" where
  "delete_account_migration_rows_with_tx account_uuid db =
     (let ids = mr_run_id ` set (filter (\<lambda>r. mr_account_uuid r = account_uuid) (db_runs db)) in
      (Inr (), db\<lparr>
         db_stages := \<lparr>stage_rows = filter (\<lambda>s. row_run_id s \<notin> ids) (stage_rows (db_stages db)),
                       input_rows = filter (\<lambda>i. inr_run_id i \<notin> ids) (input_rows (db_stages db)),
                       output_rows = filter (\<lambda>out. our_run_id out \<notin> ids) (output_rows (db_stages db))\<rparr>,
         db_notes := filter (\<lambda>n. nr_run_id n \<notin> ids) (db_notes db),
         db_pending := filter (\<lambda>r. pd_run_id r \<notin> ids) (db_pending db),
         db_children := filter (\<lambda>c. ch_run_id c \<notin> ids) (db_children db),
         db_runs := filter (\<lambda>r. mr_account_uuid r \<noteq> account_uuid) (db_runs db)\<rparr>))"

section \<open>Before a run is stopped\<close>

datatype stop_candidate_kind = DenominationStage | MigrationTransaction
datatype broadcast_attempt_state = NotAttempted | Attempted | UnknownLegacy

definition attempt_from_db :: "nat \<Rightarrow> broadcast_attempt_state outcome" where
  "attempt_from_db v =
     (if v = 0 then Inr NotAttempted
      else if v = 1 then Inr Attempted
      else if v = 2 then Inr UnknownLegacy
      else Inl (Message ''Invalid migration broadcast attempt state {value}'' [ANat v]))"

record stop_candidate =
  sc_kind :: stop_candidate_kind
  sc_txid_hex :: string
  sc_broadcast_height :: height
  sc_expiry_height :: height
  sc_attempt_state :: broadcast_attempt_state

fun stop_pending_loop :: "wallet_view \<Rightarrow> 't pending_row list \<Rightarrow> stop_candidate list outcome" where
  "stop_pending_loop wv [] = Inr []"
| "stop_pending_loop wv (row # rest) =
     res_bind (if pd_status row = ''broadcasted''
               then res_bind (local_transaction_raw wv (pd_txid_hex row)) (\<lambda>raw.
                 Inr (if raw \<noteq> None then None else Some Attempted))
               else res_bind (attempt_from_db (pd_broadcast_attempted row)) (\<lambda>a. Inr (Some a))) (\<lambda>attempt.
     res_bind (stop_pending_loop wv rest) (\<lambda>candidates.
     Inr (case attempt of
            None \<Rightarrow> candidates
          | Some a \<Rightarrow> \<lparr>sc_kind = MigrationTransaction, sc_txid_hex = pd_txid_hex row,
              sc_broadcast_height = pd_scheduled_height row, sc_expiry_height = pd_expiry_height row,
              sc_attempt_state = a\<rparr> # candidates)))"

definition scheduled_migration_stop_candidates ::
    "wallet_view \<Rightarrow> string \<Rightarrow> wallet_network \<Rightarrow> string \<Rightarrow> 't migration_db \<Rightarrow> stop_candidate list outcome" where
  "scheduled_migration_stop_candidates wv account_uuid network run_id db =
     res_bind (ok_or (find_run db run_id)
        (Message ''Migration run {expected_run_id} was not found'' [AStr run_id])) (\<lambda>run.
     if mr_account_uuid run \<noteq> account_uuid \<or> mr_network run \<noteq> network_name network
     then Inl (Msg ''Migration run does not belong to this wallet account'')
     else if mr_phase run = PHASE_ABANDONED then Inr []
     else if mr_phase run = PHASE_COMPLETE \<or> mr_phase run = PHASE_FAILED_TERMINAL
       then Inl (Message ''Migration run is already terminal ({phase})'' [AStr (mr_phase run)])
     else
       res_bind (stop_pending_loop wv (sort_key (\<lambda>r. (case pd_part_index r of None \<Rightarrow> (0, 0) | Some part \<Rightarrow> (1 :: nat, part),
             pd_scheduled_height r, pd_txid_hex r))
           (filter (\<lambda>r. pd_status r \<in> {''scheduled'', ''broadcasted''}) (pending_of_run run_id db)))) (\<lambda>pending.
       res_bind (res_map (\<lambda>s. res_bind (attempt_from_db (row_broadcast_attempted s)) (\<lambda>a.
           Inr \<lparr>sc_kind = DenominationStage, sc_txid_hex = row_expected_txid_hex s,
                sc_broadcast_height = row_effective_height s, sc_expiry_height = row_expiry_height s,
                sc_attempt_state = a\<rparr>))
           (filter (\<lambda>s. row_status s = ''pending'') (run_rows (db_stages db) run_id))) (\<lambda>stages.
       Inr (pending @ stages))))"

text \<open>The marker of a stage's broadcast attempt.\<close>

definition mark_denomination_broadcast_attempted :: "string \<Rightarrow> string \<Rightarrow> ('t migration_db, unit) store_op" where
  "mark_denomination_broadcast_attempted run_id txid_hex =
     st_bind (st_context ''Record denomination broadcast attempt: {e}'' (on_stages (update_stages
         (\<lambda>s. row_run_id s = run_id \<and> row_expected_txid_hex s = txid_hex \<and> row_status s = ''pending'')
         (\<lambda>s. s\<lparr>row_broadcast_attempted := 1\<rparr>)))) (\<lambda>updated.
     if updated = 1 then st_return ()
     else st_fail (Message ''Denomination transaction {txid_hex} is no longer pending'' [AStr txid_hex]))"

definition clear_denomination_broadcast_attempted :: "string \<Rightarrow> string \<Rightarrow> ('t migration_db, unit) store_op" where
  "clear_denomination_broadcast_attempted run_id txid_hex =
     st_bind (st_context ''Clear rejected denomination broadcast attempt: {e}'' (on_stages (update_stages
         (\<lambda>s. row_run_id s = run_id \<and> row_expected_txid_hex s = txid_hex \<and> row_status s = ''pending'')
         (\<lambda>s. s\<lparr>row_broadcast_attempted := 0\<rparr>)))) (\<lambda>_. st_return ())"

end
