(* ===== verification/Run_Keys.thy ===== *)
theory Run_Keys
  imports Run_Lifecycle
begin

text \<open>
  What the operations keep of the migration tables (\<open>tables_ok\<close>): the keys that the schema
  declares, the four states of a pending transaction and the two of a prepared note. The rules of \<open>keeps_rules\<close> follow the
  operators of the store monads, so that an operation keeps a property of the tables when the
  statements it runs do.
\<close>

named_theorems keeps_rules "introduction rules for properties that operations keep"

definition dr_keeps :: "('s \<Rightarrow> bool) \<Rightarrow> ('s, 'r, 'a) draw_op \<Rightarrow> bool" where
  "dr_keeps P m \<longleftrightarrow> (\<forall>s r x s' r'. P s \<longrightarrow> m s r = Some ((x, s'), r') \<longrightarrow> P s')"

section \<open>Rules for the operators\<close>

lemma keeps_plain [keeps_rules]:
  "keeps P (st_return x)" "keeps P (st_fail e)" "keeps P (st_lift r)" "keeps P (st_read g)"
  by (simp_all add: keeps_def)

lemma keeps_composed [keeps_rules]:
  "keeps P m \<Longrightarrow> (\<And>x. keeps P (f x)) \<Longrightarrow> keeps P (st_bind m f)"
  "keeps P m \<Longrightarrow> keeps P (st_context label m)"
  "keeps P m \<Longrightarrow> keeps P (savepoint m)"
  by (blast intro: keeps_bind keeps_context keeps_savepoint)+

lemma keeps_choice [keeps_rules]:
  "(c \<Longrightarrow> keeps P m) \<Longrightarrow> (\<not> c \<Longrightarrow> keeps P m') \<Longrightarrow> keeps P (if c then m else m')"
  "keeps P m0 \<Longrightarrow> (\<And>x. keeps P (m1 x)) \<Longrightarrow> keeps P (case_option m0 m1 o')"
  "keeps P n0 \<Longrightarrow> (\<And>x xs. keeps P (n1 x xs)) \<Longrightarrow> keeps P (case_list n0 n1 l)"
  "(\<And>x y. keeps P (m2 x y)) \<Longrightarrow> keeps P (case_prod m2 p)"
  "(\<And>x. keeps P (m3 x)) \<Longrightarrow> keeps P (Let v m3)"
  by (auto split: option.split list.split prod.split)

lemma keeps_st_each [keeps_rules]: "(\<And>x. keeps P (f x)) \<Longrightarrow> keeps P (st_each f xs)"
  by (rule keeps_each)

lemma keeps_caught:
  assumes "keeps P m" and "keeps P a"
  shows "keeps P (\<lambda>s. case m s of (Inl e, s) \<Rightarrow> if c e then (Inr x, s) else (Inl e, s) | (Inr _, s) \<Rightarrow> a s)"
proof -
  have "P (snd (case m s of (Inl e, s) \<Rightarrow> if c e then (Inr x, s) else (Inl e, s) | (Inr _, s) \<Rightarrow> a s))" if "P s" for s
  proof -
    have "P (snd (m s))" using assms(1) that unfolding keeps_def by blast
    then show ?thesis using assms(2) unfolding keeps_def by (cases "m s"; cases "fst (m s)") auto
  qed
  then show ?thesis unfolding keeps_def by blast
qed

lemma dr_keeps_store [keeps_rules]: "keeps P m \<Longrightarrow> dr_keeps P (dr_store m)"
  by (auto simp: dr_keeps_def keeps_def dr_store_def)

lemma dr_keeps_draw [keeps_rules]: "dr_keeps P (dr_draw f)"
  by (auto simp: dr_keeps_def dr_draw_def)

lemma dr_keeps_bind [keeps_rules]:
  assumes "dr_keeps P m" and "\<And>x. dr_keeps P (f x)"
  shows "dr_keeps P (dr_bind m f)"
  unfolding dr_keeps_def
proof (intro allI impI)
  fix s r y s' r'
  assume s: "P s" and run: "dr_bind m f s r = Some ((y, s'), r')"
  then obtain x s1 r1 where m: "m s r = Some ((x, s1), r1)"
    by (auto simp: dr_bind_def split: option.splits)
  with assms(1) s have "P s1" unfolding dr_keeps_def by blast
  show "P s'"
  proof (cases x)
    case (Inr v)
    with run m have "f v s1 r1 = Some ((y, s'), r')" by (simp add: dr_bind_def)
    with assms(2)[of v] \<open>P s1\<close> show ?thesis unfolding dr_keeps_def by blast
  qed (use run m \<open>P s1\<close> in \<open>auto simp: dr_bind_def\<close>)
qed

lemma dr_keeps_transaction [keeps_rules]: "dr_keeps P m \<Longrightarrow> dr_keeps P (dr_transaction m)"
  unfolding dr_keeps_def dr_transaction_def by (fastforce split: sum.splits)

lemma dr_keeps_choice [keeps_rules]:
  "(c \<Longrightarrow> dr_keeps P m) \<Longrightarrow> (\<not> c \<Longrightarrow> dr_keeps P m') \<Longrightarrow> dr_keeps P (if c then m else m')"
  "dr_keeps P m0 \<Longrightarrow> (\<And>x. dr_keeps P (m1 x)) \<Longrightarrow> dr_keeps P (case_option m0 m1 o')"
  "(\<And>x y. dr_keeps P (m2 x y)) \<Longrightarrow> dr_keeps P (case_prod m2 p)"
  "(\<And>x. dr_keeps P (m3 x)) \<Longrightarrow> dr_keeps P (Let v m3)"
  "dr_keeps P m \<Longrightarrow> dr_keeps P m' \<Longrightarrow> dr_keeps P (case_bool m m' b)"
  by (auto split: option.split prod.split bool.split)

lemma dr_keeps_each [keeps_rules]: "(\<And>x. dr_keeps P (f x)) \<Longrightarrow> dr_keeps P (dr_each f xs)"
  by (induction xs) (auto intro!: keeps_rules)

section \<open>Keys and statuses\<close>

definition pending_statuses :: "string set" where
  "pending_statuses = {''scheduled'', ''broadcasted'', ''confirmed'', ''needs_resign''}"

definition note_key :: "note_row \<Rightarrow> string \<times> string \<times> nat" where
  "note_key n = (nr_run_id n, nr_txid_hex n, nr_output_index n)"

definition child_key :: "'t child_row \<Rightarrow> string \<times> string" where
  "child_key c = (ch_run_id c, ch_message_id c)"

definition part_keys :: "'t pending_row list \<Rightarrow> (string \<times> nat) option list" where
  "part_keys rows = map pending_part_key (filter (\<lambda>r. pd_part_index r \<noteq> None) rows)"

text \<open>The keys of the schema, the four states of a pending transaction and the two of a note lock.\<close>

definition tables_ok :: "'t migration_db \<Rightarrow> bool" where
  "tables_ok db \<longleftrightarrow>
     distinct (map mr_run_id (db_runs db))
     \<and> distinct (map pd_txid_hex (db_pending db))
     \<and> distinct (part_keys (db_pending db))
     \<and> distinct (map note_key (db_notes db))
     \<and> distinct (map child_key (db_children db))
     \<and> (\<forall>r \<in> set (db_pending db). pd_status r \<in> pending_statuses)
     \<and> (\<forall>n \<in> set (db_notes db). nr_lock_state n \<in> {''locked'', ''unlocked''})"

lemma map_update_where:
  assumes "\<And>r. g (f r) = g r"
  shows "map g (update_where p f rows) = map g rows"
  by (simp add: update_where_def comp_def assms if_distrib cong: map_cong)

lemma set_update_where: "r \<in> set (update_where p f rows) \<Longrightarrow> \<exists>q \<in> set rows. r = q \<or> (r = f q \<and> p q)"
  by (auto simp: update_where_def split: if_splits)

lemma filter_update_where:
  assumes "\<And>r. c (f r) = c r"
  shows "filter c (update_where p f rows) = update_where p f (filter c rows)"
proof -
  have "c (if p r then f r else r) = c r" for r using assms by simp
  then show ?thesis by (simp add: update_where_def filter_map comp_def)
qed

lemma tables_update_runs [keeps_rules]:
  "(\<And>r. mr_run_id (f r) = mr_run_id r) \<Longrightarrow> keeps tables_ok (update_runs p f)"
  by (simp add: keeps_def update_runs_def tables_ok_def map_update_where)

text \<open>An update of the pending rows that leaves their identity alone and sets a known status.\<close>

definition keeps_pending_key :: "('t pending_row \<Rightarrow> 't pending_row) \<Rightarrow> bool" where
  "keeps_pending_key f \<longleftrightarrow> (\<forall>r. pd_txid_hex (f r) = pd_txid_hex r \<and> pd_run_id (f r) = pd_run_id r
     \<and> pd_part_index (f r) = pd_part_index r \<and> (pd_status r \<in> pending_statuses \<longrightarrow> pd_status (f r) \<in> pending_statuses))"

lemma tables_update_pending [keeps_rules]:
  assumes "keeps_pending_key f"
  shows "keeps tables_ok (update_pending p f)"
proof -
  have f: "pd_txid_hex (f r) = pd_txid_hex r" "pending_part_key (f r) = pending_part_key r"
    "(pd_part_index (f r) \<noteq> None) = (pd_part_index r \<noteq> None)"
    "pd_status r \<in> pending_statuses \<Longrightarrow> pd_status (f r) \<in> pending_statuses" for r
    using assms by (simp_all add: keeps_pending_key_def pending_part_key_def)
  show ?thesis
    unfolding keeps_def
  proof (intro allI impI)
    fix db :: "'a migration_db"
    assume ok: "tables_ok db"
    have "\<forall>r \<in> set (update_where p f (db_pending db)). pd_status r \<in> pending_statuses"
      using ok f(4) by (auto dest!: set_update_where simp: tables_ok_def)
    moreover have "part_keys (update_where p f (db_pending db)) = part_keys (db_pending db)"
      unfolding part_keys_def filter_update_where[where c = "\<lambda>r. pd_part_index r \<noteq> None" and f = f, OF f(3)]
      by (simp add: map_update_where f(2))
    ultimately show "tables_ok (snd (update_pending p f db))"
      using ok by (simp add: update_pending_def tables_ok_def map_update_where f(1))
  qed
qed

lemma tables_update_notes [keeps_rules]:
  assumes "\<And>n. note_key (f n) = note_key n"
    and "\<And>n. nr_lock_state n \<in> {''locked'', ''unlocked''} \<Longrightarrow> nr_lock_state (f n) \<in> {''locked'', ''unlocked''}"
  shows "keeps tables_ok (update_notes p f)"
  unfolding keeps_def
proof (intro allI impI)
  fix db :: "'a migration_db"
  assume ok: "tables_ok db"
  have "\<forall>n \<in> set (update_where p f (db_notes db)). nr_lock_state n \<in> {''locked'', ''unlocked''}"
    using ok assms(2) by (fastforce dest!: set_update_where simp: tables_ok_def)
  with ok show "tables_ok (snd (update_notes p f db))"
    by (simp add: update_notes_def tables_ok_def map_update_where assms(1))
qed

lemma tables_update_children [keeps_rules]:
  "(\<And>c. child_key (f c) = child_key c) \<Longrightarrow> keeps tables_ok (update_children p f)"
  by (simp add: keeps_def update_children_def tables_ok_def map_update_where)

lemma distinct_filtered: "distinct (map g (filter c xs)) \<Longrightarrow> distinct (map g (filter c (filter d xs)))"
  by (induction xs) auto

lemma tables_delete [keeps_rules]: "keeps tables_ok (delete_pending q)" "keeps tables_ok (delete_children q')"
  by (auto simp: keeps_def delete_pending_def delete_children_def tables_ok_def distinct_map_filter
      part_keys_def simp del: filter_filter intro: distinct_filtered)

lemma tables_insert_run [keeps_rules]: "keeps tables_ok (insert_run_row row)"
  by (auto simp: keeps_def insert_run_row_def tables_ok_def)

lemma tables_insert_pending [keeps_rules]:
  assumes "pd_status row \<in> pending_statuses"
  shows "keeps tables_ok (insert_pending_row row)"
  unfolding keeps_def
proof (intro allI impI)
  fix db :: "'a migration_db"
  assume ok: "tables_ok db"
  have key: "pd_part_index row \<noteq> None \<Longrightarrow> pending_part_key row \<noteq> None" by (simp add: pending_part_key_def)
  show "tables_ok (snd (insert_pending_row row db))"
    using ok assms key by (auto simp: insert_pending_row_def tables_ok_def part_keys_def)
qed

lemma tables_replace [keeps_rules]:
  assumes "nr_lock_state note \<in> {''locked'', ''unlocked''}"
  shows "keeps tables_ok (replace_note_row note)"
  using assms by (auto simp: keeps_def replace_note_row_def tables_ok_def distinct_map_filter note_key_def)

lemma tables_replace_child [keeps_rules]: "keeps tables_ok (replace_child_row child)"
  by (auto simp: keeps_def replace_child_row_def tables_ok_def distinct_map_filter child_key_def)

lemma tables_on_stages [keeps_rules]: "keeps tables_ok (on_stages m)"
  by (auto simp: keeps_def on_stages_def tables_ok_def split: prod.splits)


section \<open>Operations\<close>

text \<open>
  The rules for a property \<open>P\<close> of the tables that the statements keep: the operations are unfolded
  down to their statements. A property is given by the five facts assumed of it.
\<close>

lemma keeps_diagonal: "(\<And>s. keeps P (m s)) \<Longrightarrow> keeps P (\<lambda>s. m s s)"
  by (simp add: keeps_def)

lemma pending_keys [simp]:
  "keeps_pending_key (\<lambda>r. r\<lparr>pd_status := ''confirmed''\<rparr>)"
  "keeps_pending_key (\<lambda>r. r\<lparr>pd_status := ''broadcasted''\<rparr>)"
  "keeps_pending_key (\<lambda>r. r\<lparr>pd_status := ''needs_resign''\<rparr>)"
  "keeps_pending_key (\<lambda>r. r\<lparr>pd_status := ''scheduled'', pd_scheduled_at_ms := now,
     pd_schedule_start_height := Some (pd_target_height r), pd_scheduled_height := pd_target_height r\<rparr>)"
  "keeps_pending_key (\<lambda>r. r\<lparr>pd_broadcast_attempted := n\<rparr>)"
  "keeps_pending_key (\<lambda>r. r\<lparr>pd_rebuild_block_offset := x\<rparr>)"
  "keeps_pending_key (\<lambda>r. r\<lparr>pd_scheduled_height := h, pd_schedule_start_height := h'\<rparr>)"
  "keeps_pending_key (\<lambda>r. r\<lparr>pd_scheduled_height := h, pd_schedule_start_height := h', pd_scheduled_at_ms := now\<rparr>)"
  by (simp_all add: keeps_pending_key_def pending_statuses_def)

lemma tables_rows [keeps_rules]:
  "keeps tables_ok (confirm_row run_id txid)" "keeps tables_ok (requeue_row now run_id txid)"
  unfolding confirm_row_def[abs_def] requeue_row_def[abs_def]
  by (rule keeps_diagonal, rule tables_update_pending, simp)+

lemma tables_confirm_loop [keeps_rules]: "keeps tables_ok (confirm_loop wv now run_id rows b)"
  by (induction rows arbitrary: b) (auto intro!: keeps_rules)

lemma tables_moves [keeps_rules]:
  "keeps tables_ok (move_run now run_id phase p)" "keeps tables_ok (set_lock_state run_id ''locked'')"
  "keeps tables_ok (set_lock_state run_id ''unlocked'')" "keeps tables_ok (ready_for_resign now run_id reason)"
  "keeps tables_ok (save_schedule_origin run_id origin)" "keeps tables_ok (wait_for_denominations now run_id)"
  "keeps tables_ok (reset_note run_id txid i)" "keeps tables_ok (accept_row run_id txid)"
  "keeps tables_ok (mark_run_phase now run_id phase why)"
  unfolding move_run_def set_lock_state_def ready_for_resign_def save_schedule_origin_def wait_for_denominations_def
    reset_note_def accept_row_def mark_run_phase_def
  by (intro keeps_rules; simp add: note_key_def)+

lemma tables_reconcile_run [keeps_rules]: "keeps tables_ok (reconcile_run_confirmations wv now run_id)"
  unfolding reconcile_run_confirmations_def finish_when_confirmed_def complete_run_def
  by (intro keeps_rules)

lemma tables_resign_loop [keeps_rules]: "keeps tables_ok (resign_loop run_id txids n)"
  by (induction txids arbitrary: n) (auto intro!: keeps_rules)

lemma tables_after_broadcast [keeps_rules]: "keeps tables_ok (update_run_after_pending_broadcast now run_id)"
  unfolding update_run_after_pending_broadcast_def by (intro keeps_rules) (simp split: if_splits)

lemma tables_pending_ops [keeps_rules]:
  "keeps tables_ok (mark_due_parts_with_noncanonical_broadcast_height_for_resign wv now run_id tip)"
  "keeps tables_ok (mark_expired_pending_parts_for_resign wv now run_id tip)"
  "keeps tables_ok (mark_pending_broadcast_attempted run_id txid)"
  "keeps tables_ok (mark_pending_broadcasted now run_id txid)"
  "keeps tables_ok (due_pending_txs lib password salt wv now run_id tip)"
  unfolding mark_due_parts_with_noncanonical_broadcast_height_for_resign_def due_pending_txs_def
    mark_expired_pending_parts_for_resign_def mark_pending_broadcast_attempted_def mark_pending_broadcasted_def
  by (intro keeps_rules; simp)+

lemma tables_signed_children [keeps_rules]:
  "keeps tables_ok (signed_children_loop lib nonce password salt run_id check i children origin)"
  by (induction children arbitrary: i origin) (auto intro!: keeps_rules)

lemma tables_insert_children [keeps_rules]:
  "keeps tables_ok (insert_signed_child_pczts_with_tx lib nonce run_id children password salt mode)"
  "keeps tables_ok (persist_signed_child_pczts_for_run lib nonce now run_id children password salt)"
proof -
  show insert: "keeps tables_ok (insert_signed_child_pczts_with_tx lib nonce run_id children password salt mode)" for mode
    unfolding insert_signed_child_pczts_with_tx_def by (intro keeps_rules)
  show "keeps tables_ok (persist_signed_child_pczts_for_run lib nonce now run_id children password salt)"
    unfolding persist_signed_child_pczts_for_run_def by (intro insert keeps_rules; simp)
qed

lemma tables_insert_notes [keeps_rules]: "keeps tables_ok (insert_prepared_notes_with_tx run_id locked notes)"
  unfolding insert_prepared_notes_with_tx_def by (intro keeps_rules) simp

lemma pending_row_status [simp]: "pd_status (pending_row_of run_id raw ms start original pending) = ''scheduled''"
  by (simp add: pending_row_of_def)

lemma scheduled_is_status [simp]: "''scheduled'' \<in> pending_statuses"
  by (simp add: pending_statuses_def)

lemma tables_insert_pending_txs [keeps_rules]:
  "dr_keeps tables_ok (insert_pending_txs_with_tx lib nonce rng fp now run_id pending password salt)"
  unfolding insert_pending_txs_with_tx_def insert_under_schedule_def insert_checked_pending_def
  by (intro keeps_rules; simp)


lemma tables_insert_pending_batch [keeps_rules]:
  "dr_keeps tables_ok (insert_pending_txs lib nonce rng fp now run_id pending password salt)"
  unfolding insert_pending_txs_def by (intro keeps_rules)

lemma tables_rebase [keeps_rules]:
  "keeps tables_ok (rebase_initial_signed_schedule_for_anchor_readiness_with_tx now run_id h)"
proof -
  have freeze: "keeps tables_ok (mark_initial_schedule_rebased_with_tx now run_id origin)" for origin
    unfolding mark_initial_schedule_rebased_with_tx_def by (intro keeps_rules) simp
  have child: "keeps tables_ok (rebase_child run_id u)" for u
    unfolding rebase_child_def by (intro keeps_rules) (simp add: child_key_def)
  have plan: "keeps P (case plan of Freeze \<Rightarrow> a | Keep_Schedule \<Rightarrow> b | Shift us \<Rightarrow> c us)"
    if "keeps P a" "keeps P b" "\<And>us. keeps P (c us)" for P :: "'s \<Rightarrow> bool" and a b c plan
    using that by (simp split: rebase_plan.split)
  show ?thesis
    unfolding rebase_initial_signed_schedule_for_anchor_readiness_with_tx_def
    by (intro keeps_rules freeze child plan; simp)
qed

lemma tables_promote [keeps_rules]:
  "dr_keeps tables_ok (promote_signed_child_pczts_to_pending_txs lib nonce rng fp now run_id pending h retry password salt)"
proof -
  have "keeps tables_ok (settle_proof_retry now run_id retry)"
    unfolding settle_proof_retry_def by (rule keeps_diagonal, intro keeps_rules) simp
  then show ?thesis
    unfolding promote_signed_child_pczts_to_pending_txs_def by (intro keeps_rules)
qed

lemma tables_replace_parts [keeps_rules]:
  "keeps tables_ok (replace_resigned_pending_parts lib nonce child_nonce now run_id tip replacements children password salt)"
  unfolding replace_resigned_pending_parts_def replace_one_def by (intro keeps_rules; simp)

lemma tables_assign_offsets [keeps_rules]: "keeps tables_ok (assign_offsets run_id base parts m offsets)"
proof (induction parts arbitrary: m offsets)
  case Nil
  show ?case unfolding assign_offsets.simps by (rule keeps_plain)
next
  case (Cons part parts)
  obtain txid a b previous fresh where part: "part = ((txid, a, b, previous), fresh)" by (cases part) auto
  show ?case
    unfolding part assign_offsets.simps by (intro keeps_rules Cons) simp
qed

lemma tables_redraw_loop [keeps_rules]: "keeps tables_ok (redraw_loop now run_id tip least rows b)"
  by (induction rows arbitrary: b) (auto intro!: keeps_rules simp: Let_def)

lemma tables_schedule_updates [keeps_rules]: "keeps tables_ok (apply_schedule_updates run_id updates b)"
  by (induction updates arbitrary: b) (auto intro!: keeps_rules)

lemma tables_reschedule [keeps_rules]:
  "dr_keeps tables_ok (ensure_rebuild_schedule_generation rng fp run_id network h)"
  "dr_keeps tables_ok (reschedule_overdue_pending_txs_with_options rng fp now run_id network tip least excluded)"
  "dr_keeps tables_ok (reschedule_wallet_overdue_pending_txs_with_exclusion rng fp now network tip skipped)"
  "keeps tables_ok (apply_accepted_migration_outbox_receipt now account network run_id txid h updates)"
proof -
  show "dr_keeps tables_ok (ensure_rebuild_schedule_generation rng fp run_id network h)"
    unfolding ensure_rebuild_schedule_generation_def fresh_offsets_for_def save_generation_def
    by (intro keeps_rules; simp)
  show overdue: "dr_keeps tables_ok (reschedule_overdue_pending_txs_with_options rng fp now run_id network tip least excluded)"
    for run_id least excluded
    unfolding reschedule_overdue_pending_txs_with_options_def by (intro keeps_rules)
  show "dr_keeps tables_ok (reschedule_wallet_overdue_pending_txs_with_exclusion rng fp now network tip skipped)"
    unfolding reschedule_wallet_overdue_pending_txs_with_exclusion_def by (intro overdue keeps_rules)
  show "keeps tables_ok (apply_accepted_migration_outbox_receipt now account network run_id txid h updates)"
    unfolding apply_accepted_migration_outbox_receipt_def by (intro keeps_rules)
qed

section \<open>Reorganisations\<close>

lemma tables_reset_loops [keeps_rules]:
  "keeps tables_ok (reset_children_loop wv run_id rows st)"
  "keeps tables_ok (reset_notes_loop run_id txid included outputs b)"
  "keeps tables_ok (reset_denominations_loop wv run_id txids b)"
  "keeps tables_ok (record_nullifiers run_id confirmed)"
  "keeps tables_ok (confirm_stages_loop run_id identities)"
proof -
  show children: "keeps tables_ok (reset_children_loop wv run_id rows st)" for rows st
    by (induction rows arbitrary: st) (auto intro!: keeps_rules)
  show outputs: "keeps tables_ok (reset_notes_loop run_id txid included outputs b)" for txid included outputs b
    by (induction outputs arbitrary: b) (auto intro!: keeps_rules)
  show "keeps tables_ok (reset_denominations_loop wv run_id txids b)"
    by (induction txids arbitrary: b) (auto intro!: keeps_rules children outputs simp: Let_def)
  show "keeps tables_ok (record_nullifiers run_id confirmed)"
  proof (induction confirmed)
    case (Cons c confirmed)
    then show ?case by (cases c) (auto intro!: keeps_rules simp: note_key_def)
  qed (unfold record_nullifiers.simps, rule keeps_plain)
  show "keeps tables_ok (confirm_stages_loop run_id identities)"
  proof (induction identities)
    case (Cons i identities)
    then show ?case by (cases i) (simp only: confirm_stages_loop.simps, intro keeps_caught keeps_rules)
  qed (unfold confirm_stages_loop.simps, rule keeps_plain)
qed

lemma tables_chain [keeps_rules]:
  "keeps tables_ok (reset_migration_children_for_reorged_denominations wv now run_id txids)"
  "dr_keeps tables_ok (reconcile_denomination_stage_chain_state_with_rng rng fp wv now run_id tip)"
  "keeps tables_ok (reconcile_denomination_confirmations wv now run)"
proof -
  show reset: "keeps tables_ok (reset_migration_children_for_reorged_denominations wv now run_id txids)" for txids
    unfolding reset_migration_children_for_reorged_denominations_def by (intro keeps_rules)
  have draw: "dr_keeps tables_ok (rerandomize_for_run rng fp run_id network h)" for network h
  proof -
    have "dr_keeps tables_ok (\<lambda>db r. map_option (\<lambda>((result, stages), r). ((result, db\<lparr>db_stages := stages\<rparr>), r)) (g db r))"
      for g :: "'t migration_db \<Rightarrow> 'r \<Rightarrow> ((nat outcome \<times> 't stage_db) \<times> 'r) option"
      by (auto simp: dr_keeps_def tables_ok_def)
    then show ?thesis unfolding rerandomize_for_run_def by (intro keeps_rules)
  qed
  have recorded: "dr_keeps P (case x of (None, y) \<Rightarrow> a | (Some True, Some (n, h)) \<Rightarrow> b n h | _ \<Rightarrow> c)"
    if "dr_keeps P a" "\<And>n h. dr_keeps P (b n h)" "dr_keeps P c" for P :: "'s \<Rightarrow> bool" and a b c and x :: "bool option \<times> (nat \<times> nat) option"
    using that by (auto split: option.split bool.split prod.split)
  have commit: "dr_keeps tables_ok (commit_stage_changes rng fp run_id changes context)" for changes "context"
    unfolding commit_stage_changes_def record_stage_changes_def by (intro recorded draw keeps_rules)
  have mark: "keeps tables_ok (mark_waiting_for_denominations now run_id changes)" for changes
    unfolding mark_waiting_for_denominations_def by (intro keeps_rules)
  show "dr_keeps tables_ok (reconcile_denomination_stage_chain_state_with_rng rng fp wv now run_id tip)"
    unfolding reconcile_denomination_stage_chain_state_with_rng_def by (intro keeps_rules reset commit mark)
  show "keeps tables_ok (reconcile_denomination_confirmations wv now run)"
    unfolding reconcile_denomination_confirmations_def by (intro keeps_rules; simp)
qed

section \<open>The life of a run\<close>

lemma tables_lifecycle [keeps_rules]:
  "keeps tables_ok (recover_latest_idempotent_broadcast_failure now account network)"
  "keeps tables_ok (insert_run_parts lib n1 n2 run_id prepared children stages password salt)"
  "keeps tables_ok (create_or_resume_private_migration_draft fast run_id now path account network values schedule policy)"
  "keeps tables_ok (stop_run now run_id phase)"
  "keeps tables_ok (mark_denomination_broadcast_attempted run_id txid)"
  "keeps tables_ok (clear_denomination_broadcast_attempted run_id txid)"
  unfolding recover_latest_idempotent_broadcast_failure_def insert_run_parts_def stop_run_def
    create_or_resume_private_migration_draft_def mark_denomination_broadcast_attempted_def
    clear_denomination_broadcast_attempted_def
  by (intro keeps_rules; simp)+

lemma tables_removed_rows [keeps_rules]:
  "keeps tables_ok (discard_unsubmitted_preparation_stages run_id)"
  "keeps tables_ok (delete_account_migration_rows_with_tx account)"
  by (auto simp: keeps_def discard_unsubmitted_preparation_stages_def delete_account_migration_rows_with_tx_def
      tables_ok_def Let_def distinct_map_filter part_keys_def simp del: filter_filter intro: distinct_filtered)

end
