(* ===== verification/Run_Settle.thy ===== *)
theory Run_Settle
  imports Run_Keys
begin

text \<open>
  The reconciliation of a run with the chain: what it does to the pending transactions, and when it
  completes the run.
\<close>

section \<open>The loop over the pending transactions\<close>

definition follow_chain :: "wallet_view \<Rightarrow> int \<Rightarrow> 't pending_row \<Rightarrow> 't pending_row" where
  "follow_chain wv now r =
     (case local_denomination_chain_identity wv (pd_txid_hex r) of
        Inr (Some _) \<Rightarrow> r\<lparr>pd_status := ''confirmed''\<rparr>
      | Inr None \<Rightarrow>
          if pd_status r = ''confirmed''
          then r\<lparr>pd_status := ''scheduled'', pd_scheduled_at_ms := now,
                 pd_schedule_start_height := Some (pd_target_height r), pd_scheduled_height := pd_target_height r\<rparr>
          else r
      | Inl _ \<Rightarrow> r)"

text \<open>The transactions that the chain decides: those of the run that do not wait for signatures.\<close>

definition reconciled_pending ::
    "wallet_view \<Rightarrow> int \<Rightarrow> string \<Rightarrow> 't pending_row list \<Rightarrow> 't pending_row list" where
  "reconciled_pending wv now run_id rows =
     update_where (\<lambda>r. pd_run_id r = run_id \<and> pd_status r \<noteq> ''needs_resign'') (follow_chain wv now) rows"

lemma follow_chain_key [simp]:
  "pd_run_id (follow_chain wv now r) = pd_run_id r" "pd_txid_hex (follow_chain wv now r) = pd_txid_hex r"
  "pd_selected_note_txid (follow_chain wv now r) = pd_selected_note_txid r"
  "pd_selected_note_output_index (follow_chain wv now r) = pd_selected_note_output_index r"
  by (simp_all add: follow_chain_def split: sum.splits option.splits)

lemma confirmed_again [simp]: "pd_status r = ''confirmed'' \<Longrightarrow> r\<lparr>pd_status := ''confirmed''\<rparr> = r"
  by (cases r) simp

lemma run_is_live_pending [simp]: "run_is_live run_id (db\<lparr>db_pending := rows\<rparr>) = run_is_live run_id db"
  by (simp add: run_is_live_def)

lemma update_where_id: "(\<And>r. r \<in> set rows \<Longrightarrow> p r \<Longrightarrow> f r = r) \<Longrightarrow> update_where p f rows = rows"
  unfolding update_where_def by (rule map_idI) simp

lemma update_where_cong:
  "(\<And>r. r \<in> set rows \<Longrightarrow> (if p r then f r else r) = (if q r then g r else r))
    \<Longrightarrow> update_where p f rows = update_where q g rows"
  unfolding update_where_def by (rule map_cong) auto

lemma update_where_twice:
  "update_where q g (update_where p f rows)
    = map (\<lambda>r. let r' = (if p r then f r else r) in if q r' then g r' else r') rows"
  by (simp add: update_where_def Let_def)

text \<open>One round of the loop, then all rounds.\<close>

lemma confirm_row_live:
  "run_is_live run_id db \<Longrightarrow> confirm_row run_id txid db
    = (Inr (length (filter (\<lambda>r. pd_run_id r = run_id \<and> pd_txid_hex r = txid) (db_pending db))),
       db\<lparr>db_pending := update_where (\<lambda>r. pd_run_id r = run_id \<and> pd_txid_hex r = txid)
            (\<lambda>r. r\<lparr>pd_status := ''confirmed''\<rparr>) (db_pending db)\<rparr>)"
  by (simp add: confirm_row_def update_pending_def)

lemma requeue_row_live:
  "run_is_live run_id db \<Longrightarrow> requeue_row now run_id txid db
    = (Inr (length (filter (\<lambda>r. pd_run_id r = run_id \<and> pd_txid_hex r = txid) (db_pending db))),
       db\<lparr>db_pending := update_where (\<lambda>r. pd_run_id r = run_id \<and> pd_txid_hex r = txid)
            (\<lambda>r. r\<lparr>pd_status := ''scheduled'', pd_scheduled_at_ms := now,
              pd_schedule_start_height := Some (pd_target_height r), pd_scheduled_height := pd_target_height r\<rparr>)
            (db_pending db)\<rparr>)"
  by (simp add: requeue_row_def update_pending_def)

definition listed :: "string \<Rightarrow> (string \<times> string) list \<Rightarrow> 't pending_row \<Rightarrow> bool" where
  "listed run_id rows r \<longleftrightarrow> pd_run_id r = run_id \<and> (pd_txid_hex r, pd_status r) \<in> set rows"

lemma confirm_loop_live:
  assumes "run_is_live run_id db" and "distinct (map fst rows)"
    and "\<And>r. r \<in> set (db_pending db) \<Longrightarrow> pd_run_id r = run_id \<Longrightarrow> pd_txid_hex r \<in> fst ` set rows
      \<Longrightarrow> (pd_txid_hex r, pd_status r) \<in> set rows"
    and "confirm_loop wv now run_id rows b db = (Inr b', db')"
  shows "db' = db\<lparr>db_pending := update_where (listed run_id rows) (follow_chain wv now) (db_pending db)\<rparr>"
  using assms
proof (induction rows arbitrary: db b)
  case Nil
  have "update_where (listed run_id []) (follow_chain wv now) (db_pending db) = db_pending db"
    by (rule update_where_id) (simp add: listed_def)
  with Nil show ?case by simp
next
  case (Cons row rows)
  obtain txid status where row: "row = (txid, status)" by (cases row)
  from Cons.prems(4)[unfolded row] obtain identity
    where id: "local_denomination_chain_identity wv txid = Inr identity"
    by (auto simp: st_bind_def split: sum.splits)
  let ?at = "\<lambda>r. pd_run_id r = run_id \<and> pd_txid_hex r = txid"
  define db1 where "db1 = db\<lparr>db_pending := update_where ?at (follow_chain wv now) (db_pending db)\<rparr>"
  have status: "pd_status r = status" if "r \<in> set (db_pending db)" "?at r" for r
    using Cons.prems(2,3) that unfolding row by force
  have step: "\<exists>b1. confirm_loop wv now run_id rows b1 db1 = (Inr b', db')"
  proof (cases "(identity \<noteq> None \<and> status \<noteq> ''confirmed'') \<or> (identity = None \<and> status = ''confirmed'')")
    case True
    have "db1 = snd (if identity \<noteq> None then confirm_row run_id txid db else requeue_row now run_id txid db)"
      using True id status Cons.prems(1)
      by (auto simp: confirm_row_live requeue_row_live db1_def follow_chain_def intro!: arg_cong[where f = "\<lambda>p. db\<lparr>db_pending := p\<rparr>"]
          update_where_cong)
    with True Cons.prems(1,4) show ?thesis
      by (auto simp: row id st_bind_def confirm_row_live requeue_row_live split: if_splits)
  next
    case False
    have "update_where ?at (follow_chain wv now) (db_pending db) = db_pending db"
      using False id status by (intro update_where_id) (auto simp: follow_chain_def split: option.splits)
    with False Cons.prems(4) show ?thesis by (auto simp: row id st_bind_def db1_def split: if_splits)
  qed
  then obtain b1 where step: "confirm_loop wv now run_id rows b1 db1 = (Inr b', db')" ..
  have other: "pd_txid_hex r \<noteq> txid" if "pd_txid_hex r \<in> fst ` set rows" for r :: "'a pending_row"
    using Cons.prems(2) that unfolding row by force
  have "db' = db1\<lparr>db_pending := update_where (listed run_id rows) (follow_chain wv now) (db_pending db1)\<rparr>"
  proof (rule Cons.IH[OF _ _ _ step])
    show "(pd_txid_hex r, pd_status r) \<in> set rows"
      if member: "r \<in> set (db_pending db1)" and row_at: "pd_run_id r = run_id" "pd_txid_hex r \<in> fst ` set rows" for r
    proof -
      obtain q where q: "q \<in> set (db_pending db)" "r = q \<or> (r = follow_chain wv now q \<and> ?at q)"
        using set_update_where[of r ?at "follow_chain wv now" "db_pending db"] member by (auto simp: db1_def)
      with other[OF row_at(2)] have "r = q" by auto
      with q(1) Cons.prems(3)[of r] row_at other[OF row_at(2)] show ?thesis by (simp add: row)
    qed
  qed (use Cons.prems(1,2) in \<open>simp_all add: db1_def row\<close>)
  also have "\<dots> = db\<lparr>db_pending := update_where (listed run_id (row # rows)) (follow_chain wv now) (db_pending db)\<rparr>"
  proof -
    have now: "\<not> listed run_id rows (follow_chain wv now r) \<and> listed run_id (row # rows) r"
      if "r \<in> set (db_pending db)" "?at r" for r
      using status[OF that] other[of "follow_chain wv now r"] that(2) by (force simp: listed_def row)
    have later: "listed run_id rows r = listed run_id (row # rows) r" if "\<not> ?at r" for r :: "'a pending_row"
      using that by (auto simp: listed_def row)
    have "update_where (listed run_id rows) (follow_chain wv now) (update_where ?at (follow_chain wv now) (db_pending db))
      = update_where (listed run_id (row # rows)) (follow_chain wv now) (db_pending db)"
      unfolding update_where_twice unfolding update_where_def
      by (rule map_cong) (use now later in \<open>simp_all add: Let_def\<close>)
    then show ?thesis by (simp add: db1_def)
  qed
  finally show ?case .
qed

lemma confirm_loop_ended: "\<not> run_is_live run_id db \<Longrightarrow> snd (confirm_loop wv now run_id rows b db) = db"
proof (induction rows arbitrary: b)
  case (Cons row rows)
  have idle: "confirm_row run_id t db = (Inr 0, db)" "requeue_row now run_id t db = (Inr 0, db)" for t
    using Cons.prems by (simp_all add: confirm_row_def requeue_row_def update_pending_def update_where_id)
  show ?case
    using Cons by (cases row) (auto simp: st_bind_def idle split: sum.splits prod.splits)
qed simp

text \<open>The transactions that the reconciliation starts from.\<close>

definition snapshot_of :: "string \<Rightarrow> 't migration_db \<Rightarrow> (string \<times> string) list" where
  "snapshot_of run_id db = map (\<lambda>r. (pd_txid_hex r, pd_status r))
     (filter (\<lambda>r. pd_status r \<in> {''scheduled'', ''broadcasted'', ''confirmed''}) (pending_of_run run_id db))"

lemma snapshot_row:
  assumes "tables_ok db" and "r \<in> set (db_pending db)"
  shows "listed run_id (snapshot_of run_id db) r \<longleftrightarrow> pd_run_id r = run_id \<and> pd_status r \<noteq> ''needs_resign''"
  using assms by (auto simp: listed_def snapshot_of_def pending_of_run_def tables_ok_def pending_statuses_def)

lemma snapshot_keys:
  assumes "tables_ok db"
  shows "distinct (map fst (snapshot_of run_id db))"
    and "r \<in> set (db_pending db) \<Longrightarrow> pd_txid_hex r \<in> fst ` set (snapshot_of run_id db)
      \<Longrightarrow> (pd_txid_hex r, pd_status r) \<in> set (snapshot_of run_id db)"
proof -
  have keys: "distinct (map pd_txid_hex (db_pending db))" using assms by (simp add: tables_ok_def)
  then show "distinct (map fst (snapshot_of run_id db))"
    by (simp add: snapshot_of_def pending_of_run_def comp_def distinct_map_filter)
  have same: "q = r" if "q \<in> set (db_pending db)" "r \<in> set (db_pending db)" "pd_txid_hex q = pd_txid_hex r" for q r
    using keys that by (auto simp: distinct_map inj_on_def)
  show "(pd_txid_hex r, pd_status r) \<in> set (snapshot_of run_id db)"
    if member: "r \<in> set (db_pending db)" and key: "pd_txid_hex r \<in> fst ` set (snapshot_of run_id db)"
  proof -
    obtain q where q: "q \<in> set (filter (\<lambda>r. pd_status r \<in> {''scheduled'', ''broadcasted'', ''confirmed''})
        (pending_of_run run_id db))" and at: "pd_txid_hex q = pd_txid_hex r"
      using key by (auto simp: snapshot_of_def simp del: set_filter)
    have "q \<in> set (db_pending db)" using q by (simp add: pending_of_run_def)
    with same member at have "q = r" by blast
    with q show ?thesis unfolding snapshot_of_def by auto
  qed
qed

lemma confirm_all:
  assumes "tables_ok db" and "confirm_loop wv now run_id (snapshot_of run_id db) b db = (Inr b', db')"
  shows "db' = (if run_is_live run_id db then db\<lparr>db_pending := reconciled_pending wv now run_id (db_pending db)\<rparr> else db)"
proof (cases "run_is_live run_id db")
  case True
  have "db' = db\<lparr>db_pending := update_where (listed run_id (snapshot_of run_id db)) (follow_chain wv now) (db_pending db)\<rparr>"
    using snapshot_keys[OF assms(1)] by (intro confirm_loop_live[OF True _ _ assms(2)]) blast+
  moreover have "update_where (listed run_id (snapshot_of run_id db)) (follow_chain wv now) (db_pending db)
      = reconciled_pending wv now run_id (db_pending db)"
    unfolding reconciled_pending_def by (rule update_where_cong) (simp add: snapshot_row[OF assms(1)])
  ultimately show ?thesis using True by simp
qed (use confirm_loop_ended[of run_id db wv now _ b] assms(2) in \<open>metis snd_conv\<close>)

section \<open>The phase of a run\<close>

lemma find_updated_run:
  assumes "\<And>r. mr_run_id (f r) = mr_run_id r"
  shows "find (\<lambda>r. mr_run_id r = run_id) (update_where p f rows)
    = map_option (\<lambda>r. if p r then f r else r) (find (\<lambda>r. mr_run_id r = run_id) rows)"
  by (induction rows) (auto simp: update_where_def assms)

lemma run_moved:
  "find_run (snd (move_run now run_id phase p db)) run_id
    = map_option (\<lambda>r. if p (mr_phase r) then r\<lparr>mr_phase := phase, mr_updated_at_ms := now, mr_last_error := None\<rparr> else r)
        (find_run db run_id)"
proof -
  have found: "mr_run_id r = run_id" if "find_run db run_id = Some r" for r
    using that by (auto simp: find_run_def find_Some_iff)
  show ?thesis
    using found by (cases "find_run db run_id")
      (auto simp: move_run_def update_runs_def find_run_def find_updated_run)
qed

lemma move_run_succeeds: "\<exists>n. move_run now run_id phase p db = (Inr n, db\<lparr>db_runs := db_runs (snd (move_run now run_id phase p db))\<rparr>)"
  by (simp add: move_run_def update_runs_def)

section \<open>After the loop\<close>

definition after_loop :: "wallet_view \<Rightarrow> int \<Rightarrow> string \<Rightarrow> bool \<Rightarrow> ('t migration_db, unit) store_op" where
  "after_loop wv now run_id requeued =
     st_bind (if requeued then move_run now run_id PHASE_BROADCAST_SCHEDULED phase_is_live else st_return 0) (\<lambda>_.
     st_bind (st_read (run_column ''Read migration phase during confirmation reconciliation: {e}'' mr_phase run_id))
       (\<lambda>current_phase.
     st_bind (st_read (unpromoted_signed_child_pczt_count_with_conn run_id)) (\<lambda>unpromoted_count.
     st_bind (if current_phase = PHASE_WAITING_MIGRATION_CONFIRMATIONS \<and> 0 < unpromoted_count
              then move_run now run_id PHASE_BROADCAST_SCHEDULED
                     (\<lambda>phase. phase = PHASE_WAITING_MIGRATION_CONFIRMATIONS)
              else st_return 0) (\<lambda>_.
     finish_when_confirmed wv now run_id current_phase unpromoted_count))))"

lemma reconcile_split:
  "reconcile_run_confirmations wv now run_id db
    = st_bind (confirm_loop wv now run_id (snapshot_of run_id db) False) (after_loop wv now run_id) db"
  by (simp add: reconcile_run_confirmations_def snapshot_of_def st_bind_def after_loop_def[abs_def])

lemma reconcile_Inr:
  assumes "tables_ok db" and "reconcile_run_confirmations wv now run_id db = (Inr (), db')"
  obtains requeued where "after_loop wv now run_id requeued
      (if run_is_live run_id db then db\<lparr>db_pending := reconciled_pending wv now run_id (db_pending db)\<rparr> else db)
    = (Inr (), db')"
  using assms(2) confirm_all[OF assms(1)] unfolding reconcile_split by (auto simp: res_simps)

lemma after_loop_rows [keeps_rules]:
  "keeps (\<lambda>d. db_pending d = rows) (update_runs p f)" "keeps (\<lambda>d. db_pending d = rows) (update_notes q g)"
  "keeps (\<lambda>d. db_pending d = rows) (delete_children c)"
  by (simp_all add: keeps_def update_runs_def update_notes_def delete_children_def)

lemma after_loop_pending: "keeps (\<lambda>d. db_pending d = rows) (after_loop wv now run_id requeued)"
  unfolding after_loop_def finish_when_confirmed_def complete_run_def move_run_def set_lock_state_def
  by (intro keeps_rules)

text \<open>
  C3: One reconciliation makes the pending transactions of a live run follow the chain, as if the
  wallet's view had been applied to all of them at once: a transaction that is in a block becomes
  confirmed, a confirmed one that no longer is goes back to scheduled at its target height, all others
  stay, those that wait for signatures and those of other runs too. The transactions of a run that has
  ended do not change.
\<close>

theorem reconciliation_follows_the_chain:
  assumes "tables_ok db" and "reconcile_run_confirmations wv now run_id db = (Inr (), db')"
  shows "db_pending db' = (if run_is_live run_id db
      then map (\<lambda>r. if pd_run_id r = run_id \<and> pd_status r \<noteq> ''needs_resign'' then follow_chain wv now r else r) (db_pending db)
      else db_pending db)"
proof -
  obtain requeued where tail: "after_loop wv now run_id requeued
      (if run_is_live run_id db then db\<lparr>db_pending := reconciled_pending wv now run_id (db_pending db)\<rparr> else db)
    = (Inr (), db')"
    using reconcile_Inr[OF assms] .
  have "db_pending (snd (after_loop wv now run_id requeued d)) = db_pending d" for d
    using after_loop_pending unfolding keeps_def by blast
  from this[of "if run_is_live run_id db then db\<lparr>db_pending := reconciled_pending wv now run_id (db_pending db)\<rparr> else db"]
  show ?thesis by (simp add: tail reconciled_pending_def update_where_def)
qed

lemma ended_runs: "\<not> run_is_live run_id db \<Longrightarrow> r \<in> set (db_runs db) \<Longrightarrow> mr_run_id r = run_id \<Longrightarrow> \<not> phase_is_live (mr_phase r)"
  by (auto simp: run_is_live_def phase_is_live_def)

lemma ended_move:
  assumes "\<not> run_is_live run_id db" and "\<And>phase. p phase \<Longrightarrow> phase_is_live phase"
  shows "move_run now run_id phase p db = (Inr 0, db)"
proof -
  have "\<not> (mr_run_id r = run_id \<and> p (mr_phase r))" if "r \<in> set (db_runs db)" for r
    using ended_runs[OF assms(1) that] assms(2) by blast
  then have none: "\<forall>r \<in> set (db_runs db). \<not> (mr_run_id r = run_id \<and> p (mr_phase r))" by blast
  then have "update_where (\<lambda>r. mr_run_id r = run_id \<and> p (mr_phase r)) f (db_runs db) = db_runs db" for f
    by (intro update_where_id) blast
  with none show ?thesis by (simp add: move_run_def update_runs_def filter_empty_conv)
qed

lemma waiting_is_live: "phase = PHASE_WAITING_MIGRATION_CONFIRMATIONS \<Longrightarrow> phase_is_live phase"
  by (simp add: phase_is_live_def phase_defs)

lemma ended_after_loop:
  assumes "\<not> run_is_live run_id db"
  shows "snd (after_loop wv now run_id requeued db) = db"
proof -
  have live: "keeps (\<lambda>d. d = db) (move_run now run_id phase phase_is_live)"
      "keeps (\<lambda>d. d = db) (complete_run now run_id)" for phase
    using ended_move[OF assms, of phase_is_live] by (simp_all add: keeps_def complete_run_def st_bind_def)
  have waiting: "keeps (\<lambda>d. d = db) (move_run now run_id phase (\<lambda>phase. phase = PHASE_WAITING_MIGRATION_CONFIRMATIONS))" for phase
    using ended_move[OF assms waiting_is_live] by (simp add: keeps_def)
  note moves = live waiting
  have "keeps (\<lambda>d. d = db) (after_loop wv now run_id requeued)"
    unfolding after_loop_def finish_when_confirmed_def by (intro moves keeps_rules)
  then show ?thesis by (simp add: keeps_def)
qed

text \<open>
  A reconciliation does nothing to a run that is complete, failed or abandoned, nor to a run that
  does not exist: every table is what it was, whether the call succeeds or fails.
\<close>

theorem ended_run_is_left_alone:
  assumes "\<not> run_is_live run_id db"
  shows "snd (reconcile_run_confirmations wv now run_id db) = db"
proof -
  have "snd (confirm_loop wv now run_id (snapshot_of run_id db) False db) = db"
    by (rule confirm_loop_ended[OF assms])
  then show ?thesis
    unfolding reconcile_split st_bind_def using ended_after_loop[OF assms]
    by (auto split: prod.splits sum.splits)
qed

section \<open>Completion\<close>

definition trusted_inclusion :: "wallet_view \<Rightarrow> string \<Rightarrow> bool" where
  "trusted_inclusion wv txid \<longleftrightarrow>
     (case local_denomination_chain_identity wv txid of
        Inr (Some (mined_height, _)) \<Rightarrow> wv_trusted_confirmations wv \<le> synced_orchard_confirmation_count wv mined_height
      | _ \<Rightarrow> False)"

lemma all_trusted_iff: "all_trusted wv txids = Inr True \<longleftrightarrow> (\<forall>txid \<in> set txids. trusted_inclusion wv txid)"
proof (induction txids)
  case (Cons txid txids)
  then show ?case
    by (cases "local_denomination_chain_identity wv txid")
      (auto simp: trusted_inclusion_def not_less split: option.splits)
qed simp

text \<open>What the moves of a run leave alone, and the run they leave.\<close>

definition same_but_phase :: "string \<Rightarrow> 't migration_db \<Rightarrow> 't migration_db \<Rightarrow> bool" where
  "same_but_phase run_id db db' \<longleftrightarrow>
     (\<exists>runs. db' = db\<lparr>db_runs := runs\<rparr>)
     \<and> map_option mr_target_values (find_run db' run_id) = map_option mr_target_values (find_run db run_id)
     \<and> (tables_ok db \<longrightarrow> tables_ok db')"

lemma same_but_phase_trans: "same_but_phase i a b \<Longrightarrow> same_but_phase i b c \<Longrightarrow> same_but_phase i a c"
  by (auto simp: same_but_phase_def)

lemma same_but_phase_refl [simp]: "same_but_phase i a a"
  by (auto simp: same_but_phase_def intro: exI[of _ "db_runs a"])

lemma move_run_same: "move_run now run_id phase p db = (Inr n, db') \<Longrightarrow> same_but_phase run_id db db'"
proof -
  assume run: "move_run now run_id phase p db = (Inr n, db')"
  have "keeps tables_ok (move_run now run_id phase p :: ('a migration_db, nat) store_op)" by (rule keeps_rules)
  then have "tables_ok db \<longrightarrow> tables_ok db'" using run unfolding keeps_def by (metis snd_conv)
  moreover have "map_option mr_target_values (find_run db' run_id) = map_option mr_target_values (find_run db run_id)"
    using run_moved[of now run_id phase p db] by (simp add: run option.map_comp comp_def if_distrib cong: if_cong)
  ultimately show ?thesis
    using move_run_succeeds[of now run_id phase p db] by (auto simp: same_but_phase_def run)
qed

lemma same_but_phase_reads:
  assumes "same_but_phase run_id db db'"
  shows "pending_of_run run_id db' = pending_of_run run_id db" "db_children db' = db_children db" "db_notes db' = db_notes db"
    "planned_part_count_with_conn run_id db' = planned_part_count_with_conn run_id db"
    "unpromoted_signed_child_pczt_count_with_conn run_id db' = unpromoted_signed_child_pczt_count_with_conn run_id db"
    "count_pending_with_status run_id status db' = count_pending_with_status run_id status db"
    "count_pending_for_run run_id db' = count_pending_for_run run_id db"
proof -
  obtain runs where db': "db' = db\<lparr>db_runs := runs\<rparr>" using assms by (auto simp: same_but_phase_def)
  then show pending: "pending_of_run run_id db' = pending_of_run run_id db" and "db_children db' = db_children db"
      "db_notes db' = db_notes db"
    by (simp_all add: pending_of_run_def)
  have found: "map_option mr_target_values (find_run db' run_id) = map_option mr_target_values (find_run db run_id)"
    using assms by (simp add: same_but_phase_def)
  show "planned_part_count_with_conn run_id db' = planned_part_count_with_conn run_id db"
    using found by (cases "find_run db run_id"; cases "find_run db' run_id")
      (auto simp: planned_part_count_with_conn_def run_column_def)
  show "unpromoted_signed_child_pczt_count_with_conn run_id db' = unpromoted_signed_child_pczt_count_with_conn run_id db"
    "count_pending_with_status run_id status db' = count_pending_with_status run_id status db"
    "count_pending_for_run run_id db' = count_pending_for_run run_id db"
    by (simp_all add: unpromoted_signed_child_pczt_count_with_conn_def unpromoted_signed_child_note_outpoints_with_conn_def
        children_of_run_def pending_migration_note_outpoints_with_conn_def pending count_pending_with_status_def
        count_pending_for_run_def, simp_all add: db')
qed

lemma unpromoted_reconciled:
  "unpromoted_signed_child_pczt_count_with_conn run_id (db\<lparr>db_pending := reconciled_pending wv now run_id (db_pending db)\<rparr>)
    = unpromoted_signed_child_pczt_count_with_conn run_id db"
proof -
  have "pending_migration_note_outpoints_with_conn run_id
      (db\<lparr>db_pending := reconciled_pending wv now run_id (db_pending db)\<rparr>)
    = pending_migration_note_outpoints_with_conn run_id db"
  proof -
    have same: "f ` set (filter c (update_where p g rows)) = f ` set (filter c rows)"
      if "\<And>r. f (g r) = f r" "\<And>r. c (g r) = c r" for f c p g and rows :: "'a pending_row list"
      unfolding filter_update_where[where c = c, OF that(2)] using map_update_where[of f g p "filter c rows", OF that(1)]
      by (metis set_map)
    have set_rows: "db_pending (db\<lparr>db_pending := rows\<rparr>) = rows" for rows by simp
    show ?thesis
      unfolding pending_migration_note_outpoints_with_conn_def pending_of_run_def reconciled_pending_def set_rows
      by (rule same; simp)
  qed
  then show ?thesis
    by (simp add: unpromoted_signed_child_pczt_count_with_conn_def unpromoted_signed_child_note_outpoints_with_conn_def
        children_of_run_def)
qed

lemma one_run:
  assumes "tables_ok db" and "find_run db run_id = Some run"
  shows "length (filter (\<lambda>r. mr_run_id r = run_id \<and> p (mr_phase r)) (db_runs db)) = (if p (mr_phase run) then 1 else 0)"
proof -
  have "length (filter (\<lambda>r. mr_run_id r = i \<and> p (mr_phase r)) rows) = (if p (mr_phase run) then 1 else 0)"
    if "distinct (map mr_run_id rows)" "find (\<lambda>r. mr_run_id r = i) rows = Some run" for rows i
    using that
  proof (induction rows)
    case (Cons row rows)
    show ?case
    proof (cases "mr_run_id row = i")
      case True
      with Cons.prems(1) have "i \<notin> mr_run_id ` set rows" by auto
      then have "\<forall>r \<in> set rows. \<not> (mr_run_id r = i \<and> p (mr_phase r))" by blast
      then have "filter (\<lambda>r. mr_run_id r = i \<and> p (mr_phase r)) rows = []" by (simp add: filter_empty_conv)
      with True Cons.prems show ?thesis by simp
    qed (use Cons in simp)
  qed simp
  with assms show ?thesis by (simp add: tables_ok_def find_run_def)
qed

lemma live_run:
  assumes "tables_ok db"
  shows "run_is_live run_id db \<longleftrightarrow> (\<exists>run. find_run db run_id = Some run \<and> phase_is_live (mr_phase run))"
proof -
  have "run = r" if "find_run db run_id = Some run" "r \<in> set (db_runs db)" "mr_run_id r = run_id" for run r
  proof -
    from that(1) have "run \<in> set (db_runs db)" "mr_run_id run = run_id" by (auto simp: find_run_def find_Some_iff)
    with assms that(2,3) show ?thesis by (auto simp: tables_ok_def distinct_map inj_on_def)
  qed
  moreover have "\<exists>run. find_run db run_id = Some run" if "r \<in> set (db_runs db)" "mr_run_id r = run_id" for r
    using that by (cases "find_run db run_id") (auto simp: find_run_def find_None_iff)
  moreover have "run \<in> set (db_runs db) \<and> mr_run_id run = run_id" if "find_run db run_id = Some run" for run
    using that by (auto simp: find_run_def find_Some_iff)
  ultimately show ?thesis unfolding run_is_live_def phase_is_live_def by blast
qed

text \<open>What the completion of a run needs, in the tables after the loop.\<close>

definition ready_to_complete :: "wallet_view \<Rightarrow> string \<Rightarrow> 't migration_db \<Rightarrow> bool" where
  "ready_to_complete wv run_id db \<longleftrightarrow>
     pending_of_run run_id db \<noteq> []
     \<and> planned_part_count_with_conn run_id db = Inr (length (pending_of_run run_id db))
     \<and> unpromoted_signed_child_pczt_count_with_conn run_id db = Inr 0
     \<and> (\<forall>r \<in> set (pending_of_run run_id db). pd_status r = ''confirmed'' \<and> trusted_inclusion wv (pd_txid_hex r))"

lemma same_but_phase_ready:
  assumes "same_but_phase run_id db db'"
  shows "ready_to_complete wv run_id db' = ready_to_complete wv run_id db"
  unfolding ready_to_complete_def by (simp only: same_but_phase_reads(1,4,5)[OF assms])

lemma all_of_filter: "length xs \<le> length (filter p xs) \<longleftrightarrow> (\<forall>x \<in> set xs. p x)"
  by (metis filter_True length_filter_less linorder_not_less order_refl)

lemma st_bind_values:
  "st_bind (st_read g) f s = (case g s of Inl e \<Rightarrow> (Inl e, s) | Inr x \<Rightarrow> f x s)"
  "st_bind (st_lift r) f s = (case r of Inl e \<Rightarrow> (Inl e, s) | Inr x \<Rightarrow> f x s)"
  "(if c then m else m') s = (if c then m s else m' s)"
  by (simp_all add: st_bind_def split: sum.splits)

lemma notes_unlocked:
  "\<forall>n \<in> set (update_where (\<lambda>n. nr_run_id n = i) (\<lambda>n. n\<lparr>nr_lock_state := s\<rparr>) rows). nr_run_id n = i \<longrightarrow> nr_lock_state n = s"
proof (intro ballI impI)
  fix n
  assume "n \<in> set (update_where (\<lambda>n. nr_run_id n = i) (\<lambda>n. n\<lparr>nr_lock_state := s\<rparr>) rows)" and n: "nr_run_id n = i"
  then obtain q where "n = (if nr_run_id q = i then q\<lparr>nr_lock_state := s\<rparr> else q)"
    unfolding update_where_def set_map by blast
  with n show "nr_lock_state n = s" by (simp split: if_splits)
qed

lemma complete_run_Inr:
  assumes "tables_ok db" and "find_run db run_id = Some run" and "mr_phase run \<noteq> PHASE_COMPLETE"
    and "complete_run now run_id db = (Inr (), db')" and "run_phase run_id db' = Inr PHASE_COMPLETE"
  shows "(\<forall>n \<in> set (db_notes db'). nr_run_id n = run_id \<longrightarrow> nr_lock_state n = ''unlocked'')
    \<and> children_of_run run_id db' = [] \<and> db_pending db' = db_pending db"
proof -
  obtain d n where moved: "move_run now run_id PHASE_COMPLETE phase_is_live db = (Inr n, d)"
    and n: "n = (if phase_is_live (mr_phase run) then 1 else 0)" and d: "\<exists>runs. d = db\<lparr>db_runs := runs\<rparr>"
    using one_run[OF assms(1,2), of phase_is_live] by (auto simp: move_run_def update_runs_def simp del: One_nat_def)
  have run: "(if n \<noteq> 1 then st_return () else st_bind (set_lock_state run_id ''unlocked'')
      (\<lambda>_. delete_children (\<lambda>c. ch_run_id c = run_id))) d = (Inr (), db')"
    using assms(4) moved unfolding complete_run_def by (simp add: st_bind_eq(1)[where m = "move_run _ _ _ _"])
  have "n = 1"
  proof (rule ccontr)
    assume "n \<noteq> 1"
    with n have "\<not> phase_is_live (mr_phase run)" by (auto split: if_splits)
    moreover from \<open>n \<noteq> 1\<close> run have "db' = d" by simp
    ultimately show False
      using run_moved[of now run_id PHASE_COMPLETE phase_is_live db] assms(2,3,5)
      by (simp add: run_phase_def run_column_def moved)
  qed
  with run have db': "db' = d\<lparr>db_notes := update_where (\<lambda>n. nr_run_id n = run_id) (\<lambda>n. n\<lparr>nr_lock_state := ''unlocked''\<rparr>) (db_notes d),
      db_children := filter (\<lambda>c. ch_run_id c \<noteq> run_id) (db_children d)\<rparr>"
    by (simp add: st_bind_def set_lock_state_def update_notes_def delete_children_def)
  have "db_pending db' = db_pending db" using d unfolding db' by (elim exE) simp
  moreover have "children_of_run run_id db' = []" unfolding db' by (simp add: children_of_run_def filter_empty_conv)
  moreover have "\<forall>n \<in> set (db_notes db'). nr_run_id n = run_id \<longrightarrow> nr_lock_state n = ''unlocked''"
    unfolding db' by (simp add: notes_unlocked)
  ultimately show ?thesis by blast
qed

lemma finish_Inr:
  assumes "tables_ok db" and "find_run db run_id = Some run" and "mr_phase run \<noteq> PHASE_COMPLETE"
    and "unpromoted_signed_child_pczt_count_with_conn run_id db = Inr unpromoted"
    and "finish_when_confirmed wv now run_id current unpromoted db = (Inr (), db')"
    and "run_phase run_id db' = Inr PHASE_COMPLETE"
  shows "ready_to_complete wv run_id db \<and> complete_run now run_id db = (Inr (), db')"
proof -
  have stay: "run_phase run_id (snd (move_run now run_id PHASE_BROADCAST_SCHEDULED p db)) \<noteq> Inr PHASE_COMPLETE"
      "run_phase run_id db \<noteq> Inr PHASE_COMPLETE" for p
    using run_moved[of now run_id PHASE_BROADCAST_SCHEDULED p db] assms(2,3)
    by (auto simp: run_phase_def run_column_def phase_defs)
  obtain total where total_count: "count_pending_for_run run_id db = Inr total"
    using assms(5) unfolding finish_when_confirmed_def by (auto simp: res_simps)
  obtain confirmed where confirmed_count: "count_pending_with_status run_id ''confirmed'' db = Inr confirmed"
    using assms(5) unfolding finish_when_confirmed_def by (auto simp: res_simps)
  have some: "0 < total \<and> total \<le> confirmed"
    using assms(5,6) stay(2) unfolding finish_when_confirmed_def
    by (auto simp: st_bind_def total_count confirmed_count split: if_splits)
  obtain planned where planned_count: "planned_part_count_with_conn run_id db = Inr planned"
    using assms(5) some unfolding finish_when_confirmed_def
    by (auto simp: st_bind_def total_count confirmed_count split: if_splits sum.splits)
  note counts = total_count confirmed_count planned_count
  let ?trusted = "all_trusted wv (sort (map pd_txid_hex (pending_of_run run_id db)))"
  have rest: "(if planned = 0 \<or> total \<noteq> planned \<or> 0 < unpromoted then
         if current = PHASE_WAITING_MIGRATION_CONFIRMATIONS then
           st_bind (move_run now run_id PHASE_BROADCAST_SCHEDULED
             (\<lambda>phase. phase = PHASE_WAITING_MIGRATION_CONFIRMATIONS)) (\<lambda>_. st_return ())
         else st_return ()
       else st_bind (st_lift ?trusted) (\<lambda>trusted. if trusted then complete_run now run_id else st_return ())) db = (Inr (), db')"
    using assms(5) some unfolding finish_when_confirmed_def st_bind_values by (simp add: counts)
  have all_done: "planned \<noteq> 0 \<and> total = planned \<and> unpromoted = 0"
  proof (rule ccontr)
    assume "\<not> ?thesis"
    then have "db' = db \<or> db' = snd (move_run now run_id PHASE_BROADCAST_SCHEDULED
        (\<lambda>phase. phase = PHASE_WAITING_MIGRATION_CONFIRMATIONS) db)"
      using rest by (auto simp: res_simps split: if_splits)
    with stay assms(6) show False by auto
  qed
  then have "st_bind (st_lift ?trusted) (\<lambda>trusted. if trusted then complete_run now run_id else st_return ()) db = (Inr (), db')"
    using rest by simp
  then have done': "?trusted = Inr True" "complete_run now run_id db = (Inr (), db')"
    using stay(2) assms(6) unfolding st_bind_values by (cases ?trusted; simp split: if_splits; blast)+
  have total: "total = length (pending_of_run run_id db)"
    using total_count by (simp add: count_pending_for_run_def count_u32_def split: if_splits)
  have "confirmed = length (filter (\<lambda>r. pd_status r = ''confirmed'') (pending_of_run run_id db))"
    using confirmed_count by (simp add: count_pending_with_status_def count_u32_def split: if_splits)
  with some total have all: "\<forall>r \<in> set (pending_of_run run_id db). pd_status r = ''confirmed''"
    using all_of_filter[of "pending_of_run run_id db" "\<lambda>r. pd_status r = ''confirmed''"] by simp
  have "\<forall>r \<in> set (pending_of_run run_id db). trusted_inclusion wv (pd_txid_hex r)"
    using done'(1) unfolding all_trusted_iff by simp
  with all total some planned_count all_done done'(2) assms(4) show ?thesis
    unfolding ready_to_complete_def by fastforce
qed

lemma follow_chain_part: "pd_part_index (follow_chain wv now r) = pd_part_index r"
  by (simp add: follow_chain_def split: sum.split option.split)

lemma follow_chain_status:
  assumes "pd_status r \<in> pending_statuses"
  shows "pd_status (follow_chain wv now r) \<in> pending_statuses"
proof -
  have "pd_status (follow_chain wv now r) = ''confirmed'' \<or> pd_status (follow_chain wv now r) = ''scheduled''
      \<or> pd_status (follow_chain wv now r) = pd_status r"
    unfolding follow_chain_def by (simp split: sum.split option.split)
  with assms show ?thesis by (elim disjE) (simp_all add: pending_statuses_def)
qed

lemma reconciled_tables:
  assumes "tables_ok db"
  shows "tables_ok (db\<lparr>db_pending := reconciled_pending wv now run_id (db_pending db)\<rparr>)"
proof -
  have "keeps_pending_key (follow_chain wv now)"
    unfolding keeps_pending_key_def by (simp add: follow_chain_part follow_chain_status)
  from tables_update_pending[OF this, of "\<lambda>r. pd_run_id r = run_id \<and> pd_status r \<noteq> ''needs_resign''"]
  have "tables_ok (snd (update_pending (\<lambda>r. pd_run_id r = run_id \<and> pd_status r \<noteq> ''needs_resign'') (follow_chain wv now) db))"
    using assms unfolding keeps_def by blast
  then show ?thesis by (simp add: update_pending_def reconciled_pending_def)
qed

lemma rescheduled_move:
  assumes "(if c then move_run now run_id PHASE_BROADCAST_SCHEDULED p else st_return 0) db = (Inr n, db')"
    and "find_run db run_id = Some run" and "mr_phase run \<noteq> PHASE_COMPLETE"
  shows "same_but_phase run_id db db' \<and> (\<exists>run. find_run db' run_id = Some run \<and> mr_phase run \<noteq> PHASE_COMPLETE)"
proof (cases c)
  case True
  with assms(1) have run: "move_run now run_id PHASE_BROADCAST_SCHEDULED p db = (Inr n, db')" by simp
  have "find_run db' run_id = map_option (\<lambda>r. if p (mr_phase r) then r\<lparr>mr_phase := PHASE_BROADCAST_SCHEDULED,
      mr_updated_at_ms := now, mr_last_error := None\<rparr> else r) (find_run db run_id)"
    using run_moved[of now run_id PHASE_BROADCAST_SCHEDULED p db] by (simp add: run)
  with assms(2,3) move_run_same[OF run] show ?thesis by (auto simp: phase_defs)
qed (use assms in simp)

lemma after_loop_completes:
  assumes "tables_ok db" and "find_run db run_id = Some run" and "mr_phase run \<noteq> PHASE_COMPLETE"
    and "after_loop wv now run_id requeued db = (Inr (), db')" and "run_phase run_id db' = Inr PHASE_COMPLETE"
  obtains d run' where "same_but_phase run_id db d" and "find_run d run_id = Some run'" and "mr_phase run' \<noteq> PHASE_COMPLETE"
    and "ready_to_complete wv run_id d" and "complete_run now run_id d = (Inr (), db')"
proof -
  let ?move = "\<lambda>c p. if c then move_run now run_id PHASE_BROADCAST_SCHEDULED p else st_return 0"
  obtain n1 d1 where first: "?move requeued phase_is_live db = (Inr n1, d1)"
    using assms(4) unfolding after_loop_def st_bind_Inr by (elim exE conjE)
  note step = st_bind_eq(1)[where m = "?move requeued phase_is_live", OF first]
  obtain phase where phase: "run_column ''Read migration phase during confirmation reconciliation: {e}'' mr_phase run_id d1 = Inr phase"
    using assms(4) unfolding after_loop_def step st_bind_values(1) by (auto split: sum.splits)
  obtain unpromoted where count: "unpromoted_signed_child_pczt_count_with_conn run_id d1 = Inr unpromoted"
    using assms(4) unfolding after_loop_def step st_bind_values(1) phase by (auto split: sum.splits)
  have rest: "st_bind (?move (phase = PHASE_WAITING_MIGRATION_CONFIRMATIONS \<and> 0 < unpromoted)
        (\<lambda>phase. phase = PHASE_WAITING_MIGRATION_CONFIRMATIONS))
      (\<lambda>_. finish_when_confirmed wv now run_id phase unpromoted) d1 = (Inr (), db')"
    using assms(4) unfolding after_loop_def step st_bind_values(1) phase count by simp
  then obtain n2 d2 where
    second: "?move (phase = PHASE_WAITING_MIGRATION_CONFIRMATIONS \<and> 0 < unpromoted)
        (\<lambda>phase. phase = PHASE_WAITING_MIGRATION_CONFIRMATIONS) d1 = (Inr n2, d2)"
    and finish: "finish_when_confirmed wv now run_id phase unpromoted d2 = (Inr (), db')"
    unfolding st_bind_Inr by (elim exE conjE)
  obtain run1 where d1: "same_but_phase run_id db d1" "find_run d1 run_id = Some run1" "mr_phase run1 \<noteq> PHASE_COMPLETE"
    using rescheduled_move[OF first assms(2,3)] by blast
  obtain run2 where d2: "same_but_phase run_id d1 d2" "find_run d2 run_id = Some run2" "mr_phase run2 \<noteq> PHASE_COMPLETE"
    using rescheduled_move[OF second d1(2,3)] by blast
  have same: "same_but_phase run_id db d2" using same_but_phase_trans d1(1) d2(1) by blast
  with assms(1) have "tables_ok d2" by (simp add: same_but_phase_def)
  moreover have "unpromoted_signed_child_pczt_count_with_conn run_id d2 = Inr unpromoted"
    using count by (simp add: same_but_phase_reads(5)[OF d2(1)])
  ultimately have "ready_to_complete wv run_id d2 \<and> complete_run now run_id d2 = (Inr (), db')"
    using finish_Inr[OF _ d2(2,3) _ finish assms(5)] by blast
  with that same d2(2,3) show ?thesis by blast
qed

lemma completion_facts:
  assumes "tables_ok db" and "run_phase run_id db \<noteq> Inr PHASE_COMPLETE"
    and "reconcile_run_confirmations wv now run_id db = (Inr (), db')" and "run_phase run_id db' = Inr PHASE_COMPLETE"
  shows "pending_of_run run_id db' \<noteq> []
    \<and> planned_part_count_with_conn run_id db = Inr (length (pending_of_run run_id db'))
    \<and> unpromoted_signed_child_pczt_count_with_conn run_id db = Inr 0
    \<and> (\<forall>r \<in> set (pending_of_run run_id db'). pd_status r = ''confirmed'' \<and> trusted_inclusion wv (pd_txid_hex r))
    \<and> (\<forall>n \<in> set (db_notes db'). nr_run_id n = run_id \<longrightarrow> nr_lock_state n = ''unlocked'')
    \<and> children_of_run run_id db' = []
    \<and> pending_of_run run_id db' = pending_of_run run_id (db\<lparr>db_pending := reconciled_pending wv now run_id (db_pending db)\<rparr>)"
proof -
  have live: "run_is_live run_id db"
  proof (rule ccontr)
    assume ended: "\<not> run_is_live run_id db"
    then have "snd (after_loop wv now run_id r db) = db" for r by (rule ended_after_loop)
    moreover obtain r where "after_loop wv now run_id r db = (Inr (), db')"
      using reconcile_Inr[OF assms(1,3)] ended by auto
    ultimately show False using assms(2,4) by (metis snd_conv)
  qed
  define d0 where "d0 = db\<lparr>db_pending := reconciled_pending wv now run_id (db_pending db)\<rparr>"
  obtain requeued where tail: "after_loop wv now run_id requeued d0 = (Inr (), db')"
    using reconcile_Inr[OF assms(1,3)] live by (auto simp: d0_def)
  have d0: "tables_ok d0" unfolding d0_def by (rule reconciled_tables[OF assms(1)])
  obtain run where "find_run db run_id = Some run" "mr_phase run \<noteq> PHASE_COMPLETE"
    using live assms(2) by (auto simp: live_run[OF assms(1)] run_phase_def run_column_def)
  then have run: "find_run d0 run_id = Some run" "mr_phase run \<noteq> PHASE_COMPLETE" by (simp_all add: d0_def find_run_def)
  obtain d run' where d: "same_but_phase run_id d0 d" "find_run d run_id = Some run'" "mr_phase run' \<noteq> PHASE_COMPLETE"
    and ready: "ready_to_complete wv run_id d" and complete: "complete_run now run_id d = (Inr (), db')"
    using after_loop_completes[OF d0 run tail assms(4)] .
  have "tables_ok d" using d(1) d0 by (simp add: same_but_phase_def)
  from complete_run_Inr[OF this d(2,3) complete assms(4)]
  have final: "(\<forall>n \<in> set (db_notes db'). nr_run_id n = run_id \<longrightarrow> nr_lock_state n = ''unlocked'')"
      "children_of_run run_id db' = []" "pending_of_run run_id db' = pending_of_run run_id d"
    by (simp_all add: pending_of_run_def)
  have "planned_part_count_with_conn run_id d0 = planned_part_count_with_conn run_id db"
    by (simp add: d0_def planned_part_count_with_conn_def run_column_def find_run_def)
  with ready final unpromoted_reconciled[of run_id wv now db] show ?thesis
    unfolding ready_to_complete_def same_but_phase_reads(4,5)[OF d(1)] same_but_phase_reads(1)[OF d(1)]
    by (simp add: d0_def[symmetric])
qed

text \<open>
  C2: A run becomes complete only when nothing of it is left to do: the reconciliation that moves a run
  to the complete phase found as many pending transactions as the run has planned parts, at least one,
  no signed child without its transaction, and every transaction confirmed in a block at the trusted
  depth; it leaves the run's prepared notes unlocked and none of its signed children.
\<close>

theorem completion_is_sound:
  assumes "tables_ok db" and "run_phase run_id db \<noteq> Inr PHASE_COMPLETE"
    and "reconcile_run_confirmations wv now run_id db = (Inr (), db')" and "run_phase run_id db' = Inr PHASE_COMPLETE"
  shows "pending_of_run run_id db' \<noteq> []
    \<and> planned_part_count_with_conn run_id db = Inr (length (pending_of_run run_id db'))
    \<and> unpromoted_signed_child_pczt_count_with_conn run_id db = Inr 0
    \<and> (\<forall>r \<in> set (pending_of_run run_id db'). pd_status r = ''confirmed'' \<and> trusted_inclusion wv (pd_txid_hex r))
    \<and> (\<forall>n \<in> set (db_notes db'). nr_run_id n = run_id \<longrightarrow> nr_lock_state n = ''unlocked'')
    \<and> children_of_run run_id db' = []"
  using completion_facts[OF assms] by blast

section \<open>Completion is reached\<close>

lemma trusted_identity:
  "trusted_inclusion wv txid \<Longrightarrow> \<exists>mined_height block_hash. local_denomination_chain_identity wv txid = Inr (Some (mined_height, block_hash))"
  by (auto simp: trusted_inclusion_def split: sum.splits option.splits prod.splits)

lemma confirm_loop_succeeds:
  assumes "\<And>txid status. (txid, status) \<in> set rows \<Longrightarrow> trusted_inclusion wv txid"
  shows "\<exists>b' db'. confirm_loop wv now run_id rows b db = (Inr b', db')"
  using assms
proof (induction rows arbitrary: b db)
  case (Cons row rows)
  obtain txid status where row: "row = (txid, status)" by (cases row)
  with Cons.prems obtain h hash where id: "local_denomination_chain_identity wv txid = Inr (Some (h, hash))"
    using trusted_identity by (metis list.set_intros(1))
  have "trusted_inclusion wv txid" if "(txid, status) \<in> set rows" for txid status
    using Cons.prems[of txid status] that by simp
  note rest = Cons.IH[OF this]
  show ?case
    using rest by (simp add: row st_bind_values id) (simp add: st_bind_def confirm_row_def update_pending_def)
qed simp

lemma move_run_Inr: "\<exists>n. move_run now run_id phase p db = (Inr n, snd (move_run now run_id phase p db))"
  by (simp add: move_run_def update_runs_def)

lemma live_after_move:
  assumes "find_run db run_id = Some run" and "phase_is_live (mr_phase run)"
  shows "\<exists>n d run'. (if c then move_run now run_id PHASE_BROADCAST_SCHEDULED p else st_return 0) db = (Inr n, d)
    \<and> same_but_phase run_id db d \<and> find_run d run_id = Some run' \<and> phase_is_live (mr_phase run')"
proof (cases c)
  case True
  obtain n where moved: "move_run now run_id PHASE_BROADCAST_SCHEDULED p db
      = (Inr n, snd (move_run now run_id PHASE_BROADCAST_SCHEDULED p db))"
    using move_run_Inr[of now run_id PHASE_BROADCAST_SCHEDULED p db] ..
  have "phase_is_live PHASE_BROADCAST_SCHEDULED" by (simp add: phase_is_live_def phase_defs)
  with run_moved[of now run_id PHASE_BROADCAST_SCHEDULED p db] assms
  have "\<exists>run'. find_run (snd (move_run now run_id PHASE_BROADCAST_SCHEDULED p db)) run_id = Some run' \<and> phase_is_live (mr_phase run')"
    by (cases "p (mr_phase run)") auto
  with True moved move_run_same[OF moved] show ?thesis by (simp only: if_True) blast
qed (use assms in simp)

lemma complete_run_completes:
  assumes "tables_ok db" and "find_run db run_id = Some run" and "phase_is_live (mr_phase run)"
  shows "\<exists>db'. complete_run now run_id db = (Inr (), db') \<and> run_phase run_id db' = Inr PHASE_COMPLETE"
proof -
  define d where "d = snd (move_run now run_id PHASE_COMPLETE phase_is_live db)"
  have moved: "move_run now run_id PHASE_COMPLETE phase_is_live db = (Inr 1, d)"
    using one_run[OF assms(1,2), of phase_is_live] assms(3)
    by (simp add: d_def move_run_def update_runs_def)
  have "run_phase run_id d = Inr PHASE_COMPLETE"
    using run_moved[of now run_id PHASE_COMPLETE phase_is_live db] assms(2,3)
    by (simp add: run_phase_def run_column_def d_def)
  moreover have "run_phase run_id (d\<lparr>db_notes := notes', db_children := children\<rparr>) = run_phase run_id d" for notes' children
    by (simp add: run_phase_def run_column_def find_run_def)
  ultimately show ?thesis
    unfolding complete_run_def st_bind_eq(1)[where m = "move_run now run_id PHASE_COMPLETE phase_is_live", OF moved]
    by (simp add: st_bind_def set_lock_state_def update_notes_def delete_children_def)
qed

lemma finish_completes:
  assumes "tables_ok db" and "find_run db run_id = Some run" and "phase_is_live (mr_phase run)"
    and ready: "ready_to_complete wv run_id db"
  shows "\<exists>db'. finish_when_confirmed wv now run_id current 0 db = (Inr (), db') \<and> run_phase run_id db' = Inr PHASE_COMPLETE"
proof -
  let ?n = "length (pending_of_run run_id db)"
  have planned: "planned_part_count_with_conn run_id db = Inr ?n" and some: "0 < ?n"
    using ready by (auto simp: ready_to_complete_def)
  then have fits: "?n < 2 ^ 32"
    by (auto simp: planned_part_count_with_conn_def res_simps split: if_splits)
  have "filter (\<lambda>r. pd_status r = ''confirmed'') (pending_of_run run_id db) = pending_of_run run_id db"
    using ready by (simp add: ready_to_complete_def filter_id_conv)
  then have counts: "count_pending_for_run run_id db = Inr ?n" "count_pending_with_status run_id ''confirmed'' db = Inr ?n"
    using fits by (simp_all add: count_pending_for_run_def count_pending_with_status_def count_u32_def)
  have trusted: "all_trusted wv (sort (map pd_txid_hex (pending_of_run run_id db))) = Inr True"
    unfolding all_trusted_iff using ready by (simp add: ready_to_complete_def)
  have "finish_when_confirmed wv now run_id current 0 db = complete_run now run_id db"
    unfolding finish_when_confirmed_def st_bind_values using some by (simp add: counts planned trusted st_bind_values)
  with complete_run_completes[OF assms(1-3)] show ?thesis by simp
qed

lemma after_loop_reaches:
  assumes "tables_ok db" and "find_run db run_id = Some run" and "phase_is_live (mr_phase run)"
    and ready: "ready_to_complete wv run_id db"
  shows "\<exists>db'. after_loop wv now run_id requeued db = (Inr (), db') \<and> run_phase run_id db' = Inr PHASE_COMPLETE"
proof -
  let ?move = "if requeued then move_run now run_id PHASE_BROADCAST_SCHEDULED phase_is_live else st_return 0"
  obtain n d run' where first: "?move db = (Inr n, d)" and same: "same_but_phase run_id db d"
    and run': "find_run d run_id = Some run'" "phase_is_live (mr_phase run')"
    using live_after_move[OF assms(2,3)] by blast
  have d: "tables_ok d" "ready_to_complete wv run_id d"
    using same assms(1) ready same_but_phase_ready[OF same] by (simp_all add: same_but_phase_def)
  then have "unpromoted_signed_child_pczt_count_with_conn run_id d = Inr 0" by (simp add: ready_to_complete_def)
  with finish_completes[OF d(1) run' d(2)] show ?thesis
    unfolding after_loop_def st_bind_eq(1)[where m = ?move, OF first] st_bind_values
    by (simp add: run_column_def run' st_bind_def)
qed

lemma done_run_completes:
  assumes "tables_ok db" and "run_is_live run_id db"
    and "pending_of_run run_id db \<noteq> []"
    and "planned_part_count_with_conn run_id db = Inr (length (pending_of_run run_id db))"
    and "unpromoted_signed_child_pczt_count_with_conn run_id db = Inr 0"
    and all: "\<forall>r \<in> set (pending_of_run run_id db). pd_status r \<noteq> ''needs_resign'' \<and> trusted_inclusion wv (pd_txid_hex r)"
  shows "\<exists>db'. reconcile_run_confirmations wv now run_id db = (Inr (), db') \<and> run_phase run_id db' = Inr PHASE_COMPLETE"
proof -
  define d where "d = db\<lparr>db_pending := reconciled_pending wv now run_id (db_pending db)\<rparr>"
  have "trusted_inclusion wv txid" if "(txid, status) \<in> set (snapshot_of run_id db)" for txid status
    using that all by (auto simp: snapshot_of_def)
  then obtain requeued db1 where loop: "confirm_loop wv now run_id (snapshot_of run_id db) False db = (Inr requeued, db1)"
    using confirm_loop_succeeds by meson
  with confirm_all[OF assms(1) loop] assms(2) have db1: "db1 = d" by (simp add: d_def)
  have "pending_of_run run_id d = update_where (\<lambda>r. pd_run_id r = run_id \<and> pd_status r \<noteq> ''needs_resign'') (follow_chain wv now)
      (pending_of_run run_id db)"
    by (simp add: d_def pending_of_run_def reconciled_pending_def filter_update_where)
  also have "\<dots> = map (follow_chain wv now) (pending_of_run run_id db)"
    unfolding update_where_def by (rule map_cong) (use all in \<open>simp_all add: pending_of_run_def\<close>)
  finally have rows: "pending_of_run run_id d = map (follow_chain wv now) (pending_of_run run_id db)" .
  have confirmed: "pd_status (follow_chain wv now r) = ''confirmed'' \<and> trusted_inclusion wv (pd_txid_hex r)"
    if "r \<in> set (pending_of_run run_id db)" for r
    using all that trusted_identity[of wv "pd_txid_hex r"] by (auto simp: follow_chain_def)
  have "planned_part_count_with_conn run_id d = planned_part_count_with_conn run_id db"
    by (simp add: d_def planned_part_count_with_conn_def run_column_def find_run_def)
  moreover have "unpromoted_signed_child_pczt_count_with_conn run_id d = Inr 0"
    unfolding d_def unpromoted_reconciled by (rule assms(5))
  ultimately have "ready_to_complete wv run_id d"
    using assms(3,4) confirmed by (simp add: ready_to_complete_def rows)
  moreover obtain run where "find_run d run_id = Some run" "phase_is_live (mr_phase run)"
    using assms(2) by (auto simp: live_run[OF assms(1)] d_def find_run_def)
  moreover have "tables_ok d" unfolding d_def by (rule reconciled_tables[OF assms(1)])
  ultimately show ?thesis
    unfolding reconcile_split st_bind_eq(1)[where m = "confirm_loop wv now run_id (snapshot_of run_id db) False", OF loop] db1 using after_loop_reaches by blast
qed

section \<open>A run to settle\<close>

text \<open>A wallet that has one transaction, in block 100, and has scanned up to block 109.\<close>

definition settle_view :: wallet_view where
  "settle_view = \<lparr>
     wv_transactions = [\<lparr>wt_txid = replicate 32 1, wt_block = Some 100, wt_mined_height = Some 100, wt_raw = None\<rparr>],
     wv_blocks = [(100, replicate 32 7), (109, replicate 32 8)],
     wv_scanned_ranges = [(50, 110)],
     wv_received_notes = [],
     wv_hex_decode = (\<lambda>txid. Inr (replicate 32 (if txid = ''01'' then 1 else 2))),
     wv_hex_encode = (\<lambda>_. []),
     wv_trusted_confirmations = 3\<rparr>"

definition settle_run :: "string \<Rightarrow> run_row" where
  "settle_run phase = \<lparr>mr_run_id = ''run'', mr_account_uuid = ''acc'', mr_network = ''main'', mr_db_fingerprint = ''db'',
     mr_phase = phase, mr_created_at_ms = 1, mr_updated_at_ms = 1, mr_target_values = Some [5],
     mr_schedule = Some [], mr_timing_policy = ''standard'', mr_preparation_timing_policy = ''standard'',
     mr_proof_retry_height = None, mr_signed_schedule_origin_height = None,
     mr_initial_schedule_rebased_origin_height = None, mr_recovery_schedule_origin_height = None,
     mr_recovery_schedule_max_block_offset = None, mr_last_error = None\<rparr>"

definition settle_row :: "string \<Rightarrow> nat \<Rightarrow> string \<Rightarrow> encrypted_payload pending_row" where
  "settle_row txid part status = \<lparr>pd_run_id = ''run'', pd_txid_hex = txid, pd_part_index = Some part,
     pd_encrypted_raw_tx = \<lparr>ep_version = 1, ep_nonce = [], ep_cipher_text = [], ep_mac = []\<rparr>, pd_target_height = 90, pd_anchor_boundary_height = None, pd_expiry_height = 200,
     pd_value_zatoshi = 5, pd_fee_zatoshi = 1, pd_selected_note_txid = ''0a'', pd_selected_note_output_index = part,
     pd_selected_note_value = 6, pd_scheduled_at_ms = 1, pd_schedule_start_height = Some 90, pd_scheduled_height = 95,
     pd_original_scheduled_height = Some 95, pd_rebuild_block_offset = None, pd_broadcast_attempted = 1,
     pd_status = status, pd_metadata = None\<rparr>"

definition settle_db :: "string \<Rightarrow> encrypted_payload pending_row list \<Rightarrow> encrypted_payload migration_db" where
  "settle_db phase rows = \<lparr>db_stages = \<lparr>stage_rows = [], input_rows = [], output_rows = []\<rparr>,
     db_runs = [settle_run phase],
     db_notes = [\<lparr>nr_run_id = ''run'', nr_txid_hex = ''0a'', nr_output_index = 0, nr_value_zatoshi = 6,
        nr_note_version = 2, nr_nullifier_hex = None, nr_lock_state = ''locked''\<rparr>],
     db_pending = rows, db_children = []\<rparr>"

lemmas settle_defs = settle_db_def settle_row_def settle_run_def

lemma settle_tables: "tables_ok (settle_db phase [settle_row ''01'' 0 ''broadcasted''])"
  by (simp add: tables_ok_def settle_defs part_keys_def pending_part_key_def pending_statuses_def)

lemma settle_two_tables: "tables_ok (settle_db phase [settle_row ''01'' 0 ''broadcasted'', settle_row ''02'' 1 ''confirmed''])"
  by (simp add: tables_ok_def settle_defs part_keys_def pending_part_key_def pending_statuses_def)

lemma settle_identity:
  "local_denomination_chain_identity settle_view ''01'' = Inr (Some (100, replicate 32 7))"
  "local_denomination_chain_identity settle_view ''02'' = Inr None"
  by (simp_all add: local_denomination_chain_identity_def txid_blob_variants_def settle_view_def block_inclusion_def
      map_filter_simps)

lemma settle_depth: "synced_orchard_confirmation_count settle_view 100 = 3"
  by (simp add: synced_orchard_confirmation_count_def settle_view_def checked_sub_def saturating_add_def)

lemma settle_trusted: "trusted_inclusion settle_view ''01''"
  by (simp add: trusted_inclusion_def settle_identity settle_depth) (simp add: settle_view_def)

lemma settle_counts:
  "run_is_live ''run'' (settle_db PHASE_WAITING_MIGRATION_CONFIRMATIONS rows)"
  "planned_part_count_with_conn ''run'' (settle_db phase rows) = Inr 1"
  "unpromoted_signed_child_pczt_count_with_conn ''run'' (settle_db phase rows) = Inr 0"
  "pending_of_run ''run'' (settle_db phase [settle_row ''01'' 0 status]) = [settle_row ''01'' 0 status]"
  by (simp_all add: settle_defs run_is_live_def phase_defs planned_part_count_with_conn_def run_column_def find_run_def
      from_json_def unpromoted_signed_child_pczt_count_with_conn_def pending_of_run_def children_of_run_def
      unpromoted_signed_child_note_outpoints_with_conn_def)

lemma settle_two_rows:
  "fst (reconcile_run_confirmations settle_view 7 ''run'' (settle_db PHASE_WAITING_MIGRATION_CONFIRMATIONS
     [settle_row ''01'' 0 ''broadcasted'', settle_row ''02'' 1 ''confirmed''])) = Inr ()"
  by (simp add: reconcile_run_confirmations_def st_bind_def pending_of_run_def settle_defs settle_identity
      confirm_row_def requeue_row_def update_pending_def update_where_def run_is_live_def phase_defs
      move_run_def update_runs_def phase_is_live_def run_column_def find_run_def
      unpromoted_signed_child_pczt_count_with_conn_def unpromoted_signed_child_note_outpoints_with_conn_def
      children_of_run_def finish_when_confirmed_def count_pending_for_run_def count_pending_with_status_def count_u32_def)

section \<open>Properties of the completion\<close>

lemma waiting_for_signatures_stays:
  assumes "r \<in> set (pending_of_run run_id db)" and "pd_status r = ''needs_resign''"
  shows "r \<in> set (pending_of_run run_id (db\<lparr>db_pending := reconciled_pending wv now run_id (db_pending db)\<rparr>))"
  using assms by (auto simp: pending_of_run_def reconciled_pending_def filter_update_where update_where_def image_iff)

text \<open>
  C19: When a live run is completed: suppose that it has as many pending transactions as planned parts, at
  least one, no signed child without its transaction, and that every transaction is included at the
  trusted depth. The next reconciliation then succeeds and leaves the run complete exactly when no
  transaction of the run waits for new signatures. One that does is skipped, although the chain has it,
  and keeps the run open.
\<close>

theorem completion_is_reached:
  assumes "tables_ok db" and "run_is_live run_id db"
    and "pending_of_run run_id db \<noteq> []"
    and "planned_part_count_with_conn run_id db = Inr (length (pending_of_run run_id db))"
    and "unpromoted_signed_child_pczt_count_with_conn run_id db = Inr 0"
    and "\<forall>r \<in> set (pending_of_run run_id db). trusted_inclusion wv (pd_txid_hex r)"
  shows "(\<exists>db'. reconcile_run_confirmations wv now run_id db = (Inr (), db') \<and> run_phase run_id db' = Inr PHASE_COMPLETE)
    \<longleftrightarrow> (\<forall>r \<in> set (pending_of_run run_id db). pd_status r \<noteq> ''needs_resign'')"
    (is "?done \<longleftrightarrow> ?signed")
proof
  assume ?done
  then obtain db' where run: "reconcile_run_confirmations wv now run_id db = (Inr (), db')"
    and complete: "run_phase run_id db' = Inr PHASE_COMPLETE" by blast
  have "run_phase run_id db \<noteq> Inr PHASE_COMPLETE"
    using assms(2) by (auto simp: live_run[OF assms(1)] run_phase_def run_column_def phase_is_live_def)
  from completion_facts[OF assms(1) this run complete]
  have all: "pd_status r = ''confirmed''"
    if "r \<in> set (pending_of_run run_id (db\<lparr>db_pending := reconciled_pending wv now run_id (db_pending db)\<rparr>))" for r
    using that by (elim conjE) simp
  show ?signed
  proof (intro ballI notI)
    fix r assume "r \<in> set (pending_of_run run_id db)" and waits: "pd_status r = ''needs_resign''"
    from all[OF waiting_for_signatures_stays[OF this]] waits show False by simp
  qed
next
  assume ?signed
  with assms(6) have "\<forall>r \<in> set (pending_of_run run_id db). pd_status r \<noteq> ''needs_resign'' \<and> trusted_inclusion wv (pd_txid_hex r)"
    by blast
  from done_run_completes[OF assms(1-5) this] show ?done .
qed

lemma settle_done:
  "\<forall>r \<in> set (pending_of_run ''run'' (settle_db phase [settle_row ''01'' 0 ''broadcasted''])).
     pd_status r \<noteq> ''needs_resign'' \<and> trusted_inclusion settle_view (pd_txid_hex r)"
  by (simp add: settle_counts) (simp add: settle_row_def settle_trusted)

theorem completion_is_reached_witness:
  "(\<exists>db'. reconcile_run_confirmations settle_view 7 ''run''
       (settle_db PHASE_WAITING_MIGRATION_CONFIRMATIONS [settle_row ''01'' 0 ''broadcasted'']) = (Inr (), db')
     \<and> run_phase ''run'' db' = Inr PHASE_COMPLETE)
   \<and> \<not> (\<exists>db'. reconcile_run_confirmations settle_view 7 ''run''
       (settle_db PHASE_WAITING_MIGRATION_CONFIRMATIONS [settle_row ''01'' 0 ''needs_resign'']) = (Inr (), db')
     \<and> run_phase ''run'' db' = Inr PHASE_COMPLETE)"
proof -
  have tables: "tables_ok (settle_db phase [settle_row ''01'' 0 status])" if "status \<in> pending_statuses" for phase status
    using that by (simp add: tables_ok_def settle_defs part_keys_def pending_part_key_def)
  have "(\<exists>db'. reconcile_run_confirmations settle_view 7 ''run''
       (settle_db PHASE_WAITING_MIGRATION_CONFIRMATIONS [settle_row ''01'' 0 status]) = (Inr (), db')
     \<and> run_phase ''run'' db' = Inr PHASE_COMPLETE) \<longleftrightarrow> status \<noteq> ''needs_resign''" if "status \<in> pending_statuses" for status
    using completion_is_reached[OF tables[OF that] settle_counts(1) _ _ settle_counts(3), where wv = settle_view and now = 7]
    by (simp add: settle_counts) (simp add: settle_row_def settle_trusted)
  from this[of "''broadcasted''"] this[of "''needs_resign''"] show ?thesis by (simp add: pending_statuses_def)
qed

theorem completion_is_sound_witness:
  "\<exists>db'. reconcile_run_confirmations settle_view 7 ''run''
       (settle_db PHASE_WAITING_MIGRATION_CONFIRMATIONS [settle_row ''01'' 0 ''broadcasted'']) = (Inr (), db')
     \<and> run_phase ''run'' db' = Inr PHASE_COMPLETE \<and> pending_of_run ''run'' db' \<noteq> [] \<and> children_of_run ''run'' db' = []"
proof -
  let ?db = "settle_db PHASE_WAITING_MIGRATION_CONFIRMATIONS [settle_row ''01'' 0 ''broadcasted'']"
  obtain db' where run: "reconcile_run_confirmations settle_view 7 ''run'' ?db = (Inr (), db')"
    and complete: "run_phase ''run'' db' = Inr PHASE_COMPLETE"
    using done_run_completes[OF settle_tables settle_counts(1) _ _ settle_counts(3) settle_done] by (auto simp: settle_counts)
  have "run_phase ''run'' ?db \<noteq> Inr PHASE_COMPLETE"
    by (simp add: run_phase_def run_column_def find_run_def settle_defs phase_defs)
  from completion_is_sound[OF settle_tables this run complete] run complete show ?thesis by blast
qed

theorem reconciliation_follows_the_chain_witness:
  "map (\<lambda>r. (pd_status r, pd_scheduled_height r)) (db_pending (snd (reconcile_run_confirmations settle_view 7 ''run''
     (settle_db PHASE_WAITING_MIGRATION_CONFIRMATIONS
       [settle_row ''01'' 0 ''broadcasted'', settle_row ''02'' 1 ''confirmed''])))) = [(''confirmed'', 95), (''scheduled'', 90)]"
proof -
  let ?db = "settle_db PHASE_WAITING_MIGRATION_CONFIRMATIONS [settle_row ''01'' 0 ''broadcasted'', settle_row ''02'' 1 ''confirmed'']"
  have "reconcile_run_confirmations settle_view 7 ''run'' ?db = (Inr (), snd (reconcile_run_confirmations settle_view 7 ''run'' ?db))"
    using settle_two_rows by (metis prod.collapse)
  from reconciliation_follows_the_chain[OF settle_two_tables this] show ?thesis
    by (simp add: settle_counts) (simp add: settle_defs follow_chain_def settle_identity)
qed

theorem ended_run_is_left_alone_witness:
  "snd (reconcile_run_confirmations settle_view 7 ''run''
     (settle_db PHASE_ABANDONED [settle_row ''01'' 0 ''broadcasted''])) = settle_db PHASE_ABANDONED [settle_row ''01'' 0 ''broadcasted'']"
  by (rule ended_run_is_left_alone) (simp add: run_is_live_def settle_defs)

end
