(* ===== verification/Run_Expiry.thy ===== *)
theory Run_Expiry
  imports Run_Settle Schedule_Props
begin

text \<open>
  The expiry of pending transactions: a scheduled transaction carries the expiry that ZIP 318
  prescribes for the height it is scheduled at. The operations that schedule keep this; the
  reconciliation with the chain, which schedules a transaction again after a reorganisation, does not.
\<close>

definition canonical_row :: "'t pending_row \<Rightarrow> bool" where
  "canonical_row r \<longleftrightarrow> (pd_status r = ''scheduled''
     \<longrightarrow> zip318_canonical_migration_expiry_height (pd_scheduled_height r) = Inr (pd_expiry_height r))"

definition expiry_ok :: "'t migration_db \<Rightarrow> bool" where
  "expiry_ok db \<longleftrightarrow> (\<forall>r \<in> set (db_pending db). canonical_row r)"

section \<open>Statements\<close>

named_theorems expiry_rules "introduction rules for the canonical expiry"

lemma expiry_other_tables [expiry_rules]:
  "keeps expiry_ok (update_runs p f)" "keeps expiry_ok (update_notes q g)" "keeps expiry_ok (update_children c h)"
  "keeps expiry_ok (delete_pending d)" "keeps expiry_ok (delete_children e)" "keeps expiry_ok (insert_run_row run)"
  "keeps expiry_ok (replace_note_row n)" "keeps expiry_ok (replace_child_row child)"
  by (simp_all add: keeps_def expiry_ok_def update_runs_def update_notes_def update_children_def delete_pending_def
      delete_children_def insert_run_row_def replace_note_row_def replace_child_row_def)

lemma expiry_stages [expiry_rules]: "keeps expiry_ok (on_stages m)"
  by (simp add: keeps_def expiry_ok_def on_stages_def split: prod.splits)

lemma expiry_update [expiry_rules]:
  assumes "\<And>r. canonical_row r \<Longrightarrow> p r \<Longrightarrow> canonical_row (f r)"
  shows "keeps expiry_ok (update_pending p f)"
  unfolding keeps_def expiry_ok_def update_pending_def snd_conv
proof (intro allI impI ballI)
  fix db :: "'a migration_db" and r
  assume ok: "\<forall>r \<in> set (db_pending db). canonical_row r"
    and "r \<in> set (db_pending (db\<lparr>db_pending := update_where p f (db_pending db)\<rparr>))"
  then have "r \<in> set (update_where p f (db_pending db))" by simp
  from set_update_where[OF this] ok assms show "canonical_row r" by blast
qed

lemma expiry_insert [expiry_rules]: "canonical_row row \<Longrightarrow> keeps expiry_ok (insert_pending_row row)"
  by (simp add: keeps_def expiry_ok_def insert_pending_row_def)

lemma canonical_status [simp]:
  "s \<noteq> ''scheduled'' \<Longrightarrow> canonical_row (r\<lparr>pd_status := s\<rparr>)"
  "canonical_row (r\<lparr>pd_rebuild_block_offset := x\<rparr>) = canonical_row r"
  "canonical_row (r\<lparr>pd_broadcast_attempted := n\<rparr>) = canonical_row r"
  by (simp_all add: canonical_row_def)

text \<open>What a read or a failing check tells the rest of an operation.\<close>

lemma keeps_after_lift:
  "(\<And>x. r = Inr x \<Longrightarrow> keeps P (f x)) \<Longrightarrow> keeps P (st_bind (st_lift r) f)"
  by (cases r) (auto simp: keeps_def st_bind_def)

lemma keeps_after_read:
  "(\<And>s x. P s \<Longrightarrow> g s = Inr x \<Longrightarrow> keeps P (f x)) \<Longrightarrow> keeps P (st_bind (st_read g) f)"
  unfolding keeps_def st_bind_values by (auto split: sum.splits)

lemma keeps_after_pair:
  "(\<And>x y. p = (x, y) \<Longrightarrow> keeps P (f x y)) \<Longrightarrow> keeps P (case_prod f p)"
  by (cases p) simp

section \<open>Inserting\<close>

lemma check_pending_canonical:
  assumes "check_pending retained schedule target_values persisted pending state = Inr ((checked, offset, origin), state')"
  shows "zip318_canonical_migration_expiry_height (pi_scheduled_height checked) = Inr (pi_expiry_height checked)"
  using assms by (auto simp: check_pending_def res_simps split: prod.splits if_splits)

lemma check_all_pending_canonical:
  assumes "check_all_pending retained schedule target_values persisted pending state = Inr (all, incoming)"
    and "(checked, offset, origin) \<in> set all"
  shows "zip318_canonical_migration_expiry_height (pi_scheduled_height checked) = Inr (pi_expiry_height checked)"
  using assms
proof (induction pending arbitrary: state all)
  case (Cons p pending)
  from Cons.prems(1) obtain c state' rest where
    first: "check_pending retained schedule target_values persisted p state = Inr (c, state')"
    and rest: "check_all_pending retained schedule target_values persisted pending state' = Inr (rest, incoming)"
    and all: "all = c # rest"
    by (auto simp: res_simps split: prod.splits)
  show ?case
  proof (cases "(checked, offset, origin) = c")
    case True
    with first check_pending_canonical show ?thesis by metis
  qed (use Cons.IH[OF rest] Cons.prems(2) all in auto)
qed simp

lemma pending_row_canonical:
  "canonical_row (pending_row_of run_id raw ms start original pending)
    \<longleftrightarrow> zip318_canonical_migration_expiry_height (pi_scheduled_height pending) = Inr (pi_expiry_height pending)"
  by (simp add: canonical_row_def pending_row_of_def)

lemma expiry_under_schedule:
  "keeps expiry_ok (insert_under_schedule lib nonce now run_id pending password salt network policy values schedule)"
proof -
  have insert: "keeps expiry_ok (st_each (insert_checked_pending lib nonce password raw_salt now run_id) (enumerate 0 all))"
    if "check_all_pending retained schedule values persisted pending ({}, None) = Inr (all, incoming)"
    for all incoming retained persisted raw_salt
    unfolding insert_checked_pending_def using check_all_pending_canonical[OF that]
    by (intro Store_Monad.keeps_each) (auto simp: pending_row_canonical in_set_enumerate_eq dest!: nth_mem
        intro!: keeps_rules expiry_rules)
  show ?thesis
    unfolding insert_under_schedule_def save_schedule_origin_def move_run_def
    by (rule keeps_composed(1)[OF keeps_plain(3)], rule keeps_composed(1)[OF keeps_plain(4)], rule keeps_after_read,
        rule keeps_after_pair, intro keeps_rules expiry_rules insert) simp
qed

lemma expiry_insert_txs [expiry_rules]:
  "dr_keeps expiry_ok (insert_pending_txs_with_tx lib nonce rng fp now run_id pending password salt)"
  "dr_keeps expiry_ok (insert_pending_txs lib nonce rng fp now run_id pending password salt)"
proof -
  show tx: "dr_keeps expiry_ok (insert_pending_txs_with_tx lib nonce rng fp now run_id pending password salt)"
    unfolding insert_pending_txs_with_tx_def by (intro keeps_rules expiry_rules expiry_under_schedule)
  show "dr_keeps expiry_ok (insert_pending_txs lib nonce rng fp now run_id pending password salt)"
    unfolding insert_pending_txs_def by (intro keeps_rules expiry_rules tx)
qed

lemma expiry_moves [expiry_rules]:
  "keeps expiry_ok (move_run now run_id phase p)" "keeps expiry_ok (set_lock_state run_id state)"
  "keeps expiry_ok (ready_for_resign now run_id reason)" "keeps expiry_ok (save_schedule_origin run_id origin)"
  unfolding move_run_def set_lock_state_def ready_for_resign_def save_schedule_origin_def
  by (intro keeps_rules expiry_rules)+

lemma expiry_signed_children [expiry_rules]:
  "keeps expiry_ok (insert_signed_child_pczts_with_tx lib nonce run_id children password salt mode)"
proof -
  have loop: "keeps expiry_ok (signed_children_loop lib nonce password raw_salt run_id check i children origin)"
    for raw_salt check i children origin
    by (induction children arbitrary: i origin) (auto intro!: keeps_rules expiry_rules)
  show ?thesis
    unfolding insert_signed_child_pczts_with_tx_def by (intro keeps_rules expiry_rules loop)
qed

lemma expiry_promote [expiry_rules]:
  "dr_keeps expiry_ok (promote_signed_child_pczts_to_pending_txs lib nonce rng fp now run_id pending h retry password salt)"
proof -
  have retry: "keeps expiry_ok (settle_proof_retry now run_id retry)"
    unfolding settle_proof_retry_def by (rule keeps_diagonal, intro keeps_rules expiry_rules)
  have plan: "keeps P (case plan of Freeze \<Rightarrow> a | Keep_Schedule \<Rightarrow> b | Shift us \<Rightarrow> c us)"
    if "keeps P a" "keeps P b" "\<And>us. keeps P (c us)" for P :: "'s \<Rightarrow> bool" and a b c plan
    using that by (simp split: rebase_plan.split)
  have rebase: "keeps expiry_ok (rebase_initial_signed_schedule_for_anchor_readiness_with_tx now run_id h)"
    unfolding rebase_initial_signed_schedule_for_anchor_readiness_with_tx_def
      mark_initial_schedule_rebased_with_tx_def rebase_child_def
    by (intro keeps_rules expiry_rules plan)
  show ?thesis
    unfolding promote_signed_child_pczts_to_pending_txs_def by (intro keeps_rules expiry_rules rebase retry)
qed

lemma expiry_replace_one:
  "keeps expiry_ok (replace_one lib nonce password raw_salt now run_id origin tip replacement)"
proof -
  have insert: "keeps expiry_ok (insert_pending_row (pending_row_of run_id raw ms start original pending))"
    if "zip318_canonical_migration_expiry_height (pi_scheduled_height pending) = Inr canonical"
      "\<not> pi_expiry_height pending \<noteq> canonical" for raw ms start original pending canonical
    using that by (intro expiry_insert) (simp add: pending_row_canonical)
  show ?thesis
    unfolding replace_one_def
    by (intro keeps_after_pair keeps_after_read keeps_after_lift keeps_choice(1) keeps_plain keeps_composed(2)
        keeps_bind[OF expiry_other_tables(4)] insert)
qed

lemma expiry_replace_parts [expiry_rules]:
  "keeps expiry_ok (replace_resigned_pending_parts lib nonce child_nonce now run_id tip replacements children password salt)"
  unfolding replace_resigned_pending_parts_def by (intro keeps_rules expiry_rules expiry_replace_one)

lemma expiry_broadcast [expiry_rules]:
  "keeps expiry_ok (update_run_after_pending_broadcast now run_id)"
  "keeps expiry_ok (mark_pending_broadcasted now run_id txid)"
  "keeps expiry_ok (mark_pending_broadcast_attempted run_id txid)"
  "keeps expiry_ok (stop_run now run_id phase)"
  unfolding update_run_after_pending_broadcast_def mark_pending_broadcasted_def mark_pending_broadcast_attempted_def stop_run_def
  by (intro keeps_rules expiry_rules; simp)+

section \<open>New heights\<close>

lemma expiry_generation [expiry_rules]: "dr_keeps expiry_ok (ensure_rebuild_schedule_generation rng fp run_id network h)"
proof -
  have assign: "keeps expiry_ok (assign_offsets run_id base parts m offsets)" for base parts m offsets
  proof (induction parts arbitrary: m offsets)
    case Nil
    show ?case unfolding assign_offsets.simps by (rule keeps_plain)
  next
    case (Cons part parts)
    obtain txid a b previous fresh where part: "part = ((txid, a, b, previous), fresh)" by (cases part) auto
    show ?case unfolding part assign_offsets.simps by (intro keeps_rules expiry_rules Cons) simp
  qed
  show ?thesis
    unfolding ensure_rebuild_schedule_generation_def fresh_offsets_for_def save_generation_def
    by (intro keeps_rules expiry_rules assign)
qed

text \<open>
  A new height is written by transaction id, so the ids must determine the rows: \<open>expires_at e\<close> is
  the map from ids, in lower case, to expiries.
\<close>

definition txids_ok :: "'t migration_db \<Rightarrow> bool" where
  "txids_ok db \<longleftrightarrow> distinct (map (\<lambda>r. to_ascii_lowercase (pd_txid_hex r)) (db_pending db))"

definition expires_at :: "(string \<Rightarrow> height) \<Rightarrow> 't migration_db \<Rightarrow> bool" where
  "expires_at e db \<longleftrightarrow> expiry_ok db \<and> txids_ok db
     \<and> (\<forall>r \<in> set (db_pending db). pd_expiry_height r = e (to_ascii_lowercase (pd_txid_hex r)))"

lemma expires_at_exists:
  assumes "expiry_ok db" and "txids_ok db"
  shows "\<exists>e. expires_at e db"
proof -
  have "\<exists>e. \<forall>r \<in> set rows. pd_expiry_height r = e (to_ascii_lowercase (pd_txid_hex r))"
    if "distinct (map (\<lambda>r. to_ascii_lowercase (pd_txid_hex r)) rows)" for rows :: "'a pending_row list"
    using that
  proof (induction rows)
    case (Cons row rows)
    then obtain e where "\<forall>r \<in> set rows. pd_expiry_height r = e (to_ascii_lowercase (pd_txid_hex r))" by auto
    with Cons.prems show ?case
      by (intro exI[of _ "e(to_ascii_lowercase (pd_txid_hex row) := pd_expiry_height row)"]) (auto simp: rev_image_eqI)
  qed simp
  with assms show ?thesis unfolding expires_at_def txids_ok_def by blast
qed

lemma expires_at_update:
  assumes "\<And>r. canonical_row r \<Longrightarrow> pd_expiry_height r = e (to_ascii_lowercase (pd_txid_hex r)) \<Longrightarrow> p r \<Longrightarrow> canonical_row (f r)"
    and "\<And>r. pd_txid_hex (f r) = pd_txid_hex r" and "\<And>r. pd_expiry_height (f r) = pd_expiry_height r"
  shows "keeps (expires_at e) (update_pending p f)"
  unfolding keeps_def
proof (intro allI impI)
  fix db :: "'a migration_db"
  assume ok: "expires_at e db"
  have "canonical_row r \<and> pd_expiry_height r = e (to_ascii_lowercase (pd_txid_hex r))"
    if member: "r \<in> set (update_where p f (db_pending db))" for r
  proof -
    obtain q where "q \<in> set (db_pending db)" "r = q \<or> (r = f q \<and> p q)" using set_update_where[OF member] by blast
    then show ?thesis using ok assms by (auto simp: expires_at_def expiry_ok_def)
  qed
  then show "expires_at e (snd (update_pending p f db))" 
    using ok by (simp add: update_pending_def expires_at_def expiry_ok_def txids_ok_def map_update_where assms(2))
qed

lemma expires_at_runs: "keeps (expires_at e) (update_runs p f)"
  by (simp add: keeps_def expires_at_def expiry_ok_def txids_ok_def update_runs_def)

lemma expires_at_moves:
  "keeps (expires_at e) (ready_for_resign now run_id reason)"
  "keeps (expires_at e) (update_run_after_pending_broadcast now run_id)"
  unfolding ready_for_resign_def update_run_after_pending_broadcast_def
  by (intro keeps_rules expires_at_runs)+

lemma expires_at_status: "s \<noteq> ''scheduled'' \<Longrightarrow> keeps (expires_at e) (update_pending p (\<lambda>r. r\<lparr>pd_status := s\<rparr>))"
  by (rule expires_at_update) simp_all

lemma redraw_keeps_expiry:
  "\<forall>((txid, expiry), _) \<in> set rows. expiry = e (to_ascii_lowercase txid)
    \<Longrightarrow> keeps (expires_at e) (redraw_loop now run_id tip least rows b)"
proof (induction rows arbitrary: b)
  case Nil
  show ?case unfolding redraw_loop.simps by (rule keeps_plain)
next
  case (Cons row rows)
  obtain txid expiry offset where row: "row = ((txid, expiry), offset)" by (cases row) auto
  with Cons.prems have e: "expiry = e (to_ascii_lowercase txid)" by simp
  from Cons.prems have "\<forall>((txid, expiry), _) \<in> set rows. expiry = e (to_ascii_lowercase txid)" by simp
  note rest = Cons.IH[OF this]
  have move: "keeps (expires_at e) (update_pending (\<lambda>r. pd_run_id r = run_id \<and> pd_txid_hex r = txid \<and> pd_status r = ''scheduled'')
      (\<lambda>r. r\<lparr>pd_scheduled_height := h, pd_schedule_start_height := start, pd_scheduled_at_ms := ms\<rparr>))"
    if "zip318_canonical_migration_expiry_height h = Inr canonical" "\<not> canonical \<noteq> expiry" for h start ms canonical
    by (rule expires_at_update) (use that e in \<open>simp_all add: canonical_row_def\<close>)
  show ?case
    unfolding row redraw_loop.simps Let_def
    by (intro keeps_after_lift keeps_choice(1) keeps_bind[OF expires_at_status] keeps_bind[OF move] rest) simp_all
qed

lemma found_member: "find p xs = Some x \<Longrightarrow> x \<in> set xs \<and> p x"
  by (induction xs) (auto split: if_splits)

lemma receipt_keeps_expiry: "keeps (expires_at e) (apply_schedule_updates run_id updates b)"
proof (induction updates arbitrary: b)
  case Nil
  show ?case unfolding apply_schedule_updates.simps by (rule keeps_plain)
next
  case (Cons u updates)
  obtain item update' where u: "u = (item, update')" by (cases u)
  have found: "pd_expiry_height row = e item" if "expires_at e db" "ok_or (find_outbox_row run_id item db) err = Inr row" for db row err
  proof -
    have "find_outbox_row run_id item db = Some row" using that(2) by (cases "find_outbox_row run_id item db") simp_all
    from found_member[OF this[unfolded find_outbox_row_def]] that(1) show ?thesis
      by (auto simp: expires_at_def pending_of_run_def)
  qed
  have move: "keeps (expires_at e) (update_pending (\<lambda>r. pd_run_id r = run_id \<and> to_ascii_lowercase (pd_txid_hex r) = item
        \<and> pd_status r = ''scheduled'') (\<lambda>r. r\<lparr>pd_scheduled_height := h, pd_schedule_start_height := start\<rparr>))"
    if "zip318_canonical_migration_expiry_height h = Inr canonical" "\<not> canonical \<noteq> e item" for h start canonical
    by (rule expires_at_update) (use that in \<open>simp_all add: canonical_row_def\<close>)
  show ?case
    unfolding u apply_schedule_updates.simps
    by (rule keeps_after_read, drule (1) found, simp only:,
        intro keeps_after_lift keeps_choice(1) keeps_bind[OF expires_at_status] keeps_bind[OF move] keeps_plain Cons) simp_all
qed

lemma dr_keeps_after_read:
  assumes "\<And>s x. P s \<Longrightarrow> g s = Inr x \<Longrightarrow> dr_keeps P (f x)"
  shows "dr_keeps P (dr_bind (dr_store (st_read g)) f)"
  unfolding dr_keeps_def
proof (intro allI impI)
  fix s r x s' r'
  assume s: "P s" and run: "dr_bind (dr_store (st_read g)) f s r = Some ((x, s'), r')"
  show "P s'"
  proof (cases "g s")
    case (Inr y)
    with run have "f y s r = Some ((x, s'), r')" by (simp add: dr_bind_def dr_store_def)
    with assms[OF s Inr] s show ?thesis unfolding dr_keeps_def by blast
  qed (use run s in \<open>simp add: dr_bind_def dr_store_def\<close>)
qed

lemma dr_keeps_after_draw:
  assumes "\<And>r x r'. g r = Some (x, r') \<Longrightarrow> dr_keeps P (f x)"
  shows "dr_keeps P (dr_bind (dr_draw g) f)"
  unfolding dr_keeps_def
proof (intro allI impI)
  fix s r x s' r'
  assume s: "P s" and run: "dr_bind (dr_draw g) f s r = Some ((x, s'), r')"
  then obtain y r1 where "g r = Some (y, r1)" and "f y s r1 = Some ((x, s'), r')"
    by (cases "g r") (auto simp: dr_bind_def dr_draw_def)
  with assms s show "P s'" unfolding dr_keeps_def by blast
qed

lemma redraw_run_keeps_expiry:
  assumes "shuffles rng"
  shows "dr_keeps (expires_at e) (reschedule_overdue_pending_txs_with_options rng fp now run_id network tip least excluded)"
proof -
  have snapshot: "\<forall>(txid, expiry) \<in> set txids. expiry = e (to_ascii_lowercase txid)"
    if "expires_at e db" and "Inr (filter (\<lambda>(txid, _). Some txid \<noteq> excluded)
        (map (\<lambda>r. (pd_txid_hex r, pd_expiry_height r)) (due_rows run_id tip db))) = Inr txids" for db :: "'t migration_db" and txids
    using that by (auto simp: expires_at_def due_rows_def pending_of_run_def)
  have shuffled: "set txids' = set txids" if "Some (shuffle rng txids r) = Some (txids', r')" for txids txids' r r'
    using shuffle_perm[OF assms, of txids r txids' r'] that by (metis option.inject set_mset_mset)
  have zipped: "\<forall>((txid, expiry), _) \<in> set (zip txids' offsets). expiry = e (to_ascii_lowercase txid)"
    if "\<forall>(txid, expiry) \<in> set txids'. expiry = e (to_ascii_lowercase txid)" for txids' and offsets :: "nat list"
    using that by (auto dest!: set_zip_leftD)
  show ?thesis
    unfolding reschedule_overdue_pending_txs_with_options_def
    by (rule dr_keeps_after_read, drule (1) snapshot, rule dr_keeps_choice(1), intro keeps_rules,
        rule dr_keeps_after_draw, drule shuffled, intro keeps_rules redraw_keeps_expiry zipped expires_at_moves) simp
qed

lemma new_heights_keep_expiry:
  "shuffles rng \<Longrightarrow> dr_keeps (\<lambda>db. expiry_ok db \<and> txids_ok db)
     (reschedule_wallet_overdue_pending_txs_with_exclusion rng fp now network tip skipped)"
  "keeps (\<lambda>db. expiry_ok db \<and> txids_ok db) (apply_accepted_migration_outbox_receipt now account network run_id txid h updates)"
proof -
  have both: "\<exists>e. expires_at e db" if "expiry_ok db \<and> txids_ok db" for db :: "'t migration_db"
    using that expires_at_exists by blast
  have only: "expires_at e db \<Longrightarrow> expiry_ok db \<and> txids_ok db" for e and db :: "'t migration_db"
    by (simp add: expires_at_def)
  have "dr_keeps (expires_at e) (reschedule_wallet_overdue_pending_txs_with_exclusion rng fp now network tip skipped)"
    if "shuffles rng" for e
    unfolding reschedule_wallet_overdue_pending_txs_with_exclusion_def
    by (intro keeps_rules redraw_run_keeps_expiry that)
  then show "dr_keeps (\<lambda>db. expiry_ok db \<and> txids_ok db)
     (reschedule_wallet_overdue_pending_txs_with_exclusion rng fp now network tip skipped)" if "shuffles rng"
    using that both only unfolding dr_keeps_def by meson
  have "keeps (expires_at e) (apply_accepted_migration_outbox_receipt now account network run_id txid h updates)" for e
    unfolding apply_accepted_migration_outbox_receipt_def Let_def accept_row_def
    by (intro keeps_rules receipt_keeps_expiry expires_at_moves expires_at_status) simp
  then show "keeps (\<lambda>db. expiry_ok db \<and> txids_ok db) (apply_accepted_migration_outbox_receipt now account network run_id txid h updates)"
    using both only unfolding keeps_def by meson
qed

section \<open>A part that a reorganisation takes out of its block\<close>

lemma requeued_alone:
  assumes ok: "tables_ok db" and live: "run_is_live run_id db" and row: "pending_of_run run_id db = [r]"
    and confirmed: "pd_status r = ''confirmed''" and gone: "local_denomination_chain_identity wv (pd_txid_hex r) = Inr None"
    and signed: "unpromoted_signed_child_pczt_count_with_conn run_id db = Inr n"
  shows "\<exists>db'. reconcile_run_confirmations wv now run_id db = (Inr (), db') \<and> pending_of_run run_id db' = [follow_chain wv now r]"
proof -
  define d where "d = db\<lparr>db_pending := reconciled_pending wv now run_id (db_pending db)\<rparr>"
  have snapshot: "snapshot_of run_id db = [(pd_txid_hex r, ''confirmed'')]" by (simp add: snapshot_of_def row confirmed)
  obtain db1 where loop: "confirm_loop wv now run_id (snapshot_of run_id db) False db = (Inr True, db1)"
    by (simp add: snapshot gone st_bind_def requeue_row_def update_pending_def)
  with confirm_all[OF ok loop] live have d: "db1 = d" by (simp add: d_def)
  have "pending_of_run run_id d = update_where (\<lambda>r. pd_run_id r = run_id \<and> pd_status r \<noteq> ''needs_resign'')
      (follow_chain wv now) (pending_of_run run_id db)"
    by (simp add: d_def pending_of_run_def reconciled_pending_def filter_update_where)
  moreover have "pd_run_id r = run_id"
  proof -
    have "r \<in> set (pending_of_run run_id db)" by (simp add: row)
    then show ?thesis by (simp add: pending_of_run_def)
  qed
  ultimately have pending: "pending_of_run run_id d = [follow_chain wv now r]"
    by (simp add: row update_where_def confirmed)
  have requeued: "pd_status (follow_chain wv now r) = ''scheduled''" by (simp add: follow_chain_def gone confirmed)
  obtain run where run: "find_run d run_id = Some run" "phase_is_live (mr_phase run)"
    using live by (auto simp: live_run[OF ok] d_def find_run_def)
  let ?move = "if True then move_run now run_id PHASE_BROADCAST_SCHEDULED phase_is_live else st_return 0"
  obtain k d1 run1 where first: "?move d = (Inr k, d1)" and same: "same_but_phase run_id d d1"
    and run1: "find_run d1 run_id = Some run1"
    using live_after_move[OF run, of True] by blast
  have read: "unpromoted_signed_child_pczt_count_with_conn run_id d1 = Inr n"
    unfolding same_but_phase_reads(5)[OF same] d_def unpromoted_reconciled by (rule signed)
  let ?again = "if mr_phase run1 = PHASE_WAITING_MIGRATION_CONFIRMATIONS \<and> 0 < n
      then move_run now run_id PHASE_BROADCAST_SCHEDULED (\<lambda>phase. phase = PHASE_WAITING_MIGRATION_CONFIRMATIONS)
      else st_return 0"
  obtain m d2 where second: "?again d1 = (Inr m, d2)" and same2: "same_but_phase run_id d1 d2"
    using move_run_Inr[of now run_id PHASE_BROADCAST_SCHEDULED "\<lambda>phase. phase = PHASE_WAITING_MIGRATION_CONFIRMATIONS" d1]
      move_run_same[of now run_id PHASE_BROADCAST_SCHEDULED "\<lambda>phase. phase = PHASE_WAITING_MIGRATION_CONFIRMATIONS" d1]
    by (cases "mr_phase run1 = PHASE_WAITING_MIGRATION_CONFIRMATIONS \<and> 0 < n") auto
  have rows: "pending_of_run run_id d2 = [follow_chain wv now r]"
    using same_but_phase_reads(1)[OF same2] same_but_phase_reads(1)[OF same] pending by simp
  have "finish_when_confirmed wv now run_id phase unpromoted d2 = (Inr (), d2)" for phase unpromoted
    unfolding finish_when_confirmed_def st_bind_values
    by (simp add: count_pending_for_run_def count_pending_with_status_def count_u32_def rows requeued)
  then have "after_loop wv now run_id True d = (Inr (), d2)"
    unfolding after_loop_def st_bind_eq(1)[where m = ?move, OF first] st_bind_values(1) run_column_def run1
    by (simp add: read st_bind_eq(1)[where m = ?again, OF second])
  then have "reconcile_run_confirmations wv now run_id db = (Inr (), d2)"
    unfolding reconcile_split st_bind_eq(1)[where m = "confirm_loop wv now run_id (snapshot_of run_id db) False", OF loop] d .
  with rows show ?thesis by blast
qed

text \<open>
  The reconciliation puts a transaction that left its block back at its target height, with the expiry
  it had: a row it touches is canonical or scheduled there.
\<close>

definition requeued_or_canonical :: "'t pending_row \<Rightarrow> bool" where
  "requeued_or_canonical r \<longleftrightarrow> canonical_row r \<or> pd_scheduled_height r = pd_target_height r"

definition requeued_ok :: "'t migration_db \<Rightarrow> bool" where
  "requeued_ok db \<longleftrightarrow> (\<forall>r \<in> set (db_pending db). requeued_or_canonical r)"

lemma requeued_other_tables:
  "keeps requeued_ok (update_runs p f)" "keeps requeued_ok (update_notes q g)" "keeps requeued_ok (delete_children e)"
  by (simp_all add: keeps_def requeued_ok_def update_runs_def update_notes_def delete_children_def)

lemma requeued_update:
  assumes "\<And>r. requeued_or_canonical r \<Longrightarrow> requeued_or_canonical (f r)"
  shows "keeps requeued_ok (\<lambda>db. update_pending (p db) f db)"
  unfolding keeps_def requeued_ok_def update_pending_def snd_conv
proof (intro allI impI ballI)
  fix db :: "'a migration_db" and r
  assume ok: "\<forall>r \<in> set (db_pending db). requeued_or_canonical r"
    and "r \<in> set (db_pending (db\<lparr>db_pending := update_where (p db) f (db_pending db)\<rparr>))"
  then have "r \<in> set (update_where (p db) f (db_pending db))" by simp
  from set_update_where[OF this] ok assms show "requeued_or_canonical r" by blast
qed

lemma reconciliation_keeps_requeued: "keeps requeued_ok (reconcile_run_confirmations wv now run_id)"
proof -
  have confirm: "keeps requeued_ok (confirm_row run_id txid)" for txid
    unfolding confirm_row_def by (rule requeued_update) (simp add: requeued_or_canonical_def canonical_row_def)
  have requeue: "keeps requeued_ok (requeue_row now run_id txid)" for txid
    unfolding requeue_row_def by (rule requeued_update) (simp add: requeued_or_canonical_def)
  have loop: "keeps requeued_ok (confirm_loop wv now run_id rows b)" for rows b
    by (induction rows arbitrary: b) (auto intro!: keeps_rules confirm requeue)
  show ?thesis
    unfolding reconcile_run_confirmations_def finish_when_confirmed_def complete_run_def move_run_def set_lock_state_def
    by (intro keeps_rules loop requeued_other_tables)
qed

lemma reconciled_rows:
  assumes "expiry_ok db" and "r \<in> set (db_pending (snd (reconcile_run_confirmations wv now run_id db)))"
  shows "canonical_row r \<or> pd_scheduled_height r = pd_target_height r"
proof -
  have "requeued_ok db" using assms(1) by (simp add: requeued_ok_def expiry_ok_def requeued_or_canonical_def)
  then have "requeued_ok (snd (reconcile_run_confirmations wv now run_id db))"
    using reconciliation_keeps_requeued[of wv now run_id] unfolding keeps_def by blast
  with assms(2) show ?thesis by (simp add: requeued_ok_def requeued_or_canonical_def)
qed

section \<open>Properties\<close>

text \<open>
  C20: What the operations that write a scheduled height do to the expiry that ZIP 318 prescribes for it.
  Inserting and promoting transactions, replacing re-signed ones, redrawing overdue ones and accepting a
  receipt of the background sender keep it, and so do a draw of rebuild offsets, the record of a broadcast
  and the end of a run, which change these rows otherwise: if every scheduled transaction has the
  prescribed expiry before one of them, every scheduled transaction has it afterwards. The redraw, with
  any fair shuffle, and the receipt write by transaction id, and keep it when the ids differ in lower
  case. The reconciliation with the chain does not keep it: after it, a scheduled transaction has the
  prescribed expiry or is scheduled at its target height, where one that left its block is put back.
\<close>

theorem scheduling_keeps_canonical_expiry:
  assumes "shuffles rng"
  shows "dr_keeps expiry_ok (insert_pending_txs lib nonce rng fp now run_id pending password salt)
    \<and> dr_keeps expiry_ok (promote_signed_child_pczts_to_pending_txs lib nonce rng fp now run_id pending tip retry password salt)
    \<and> keeps expiry_ok (replace_resigned_pending_parts lib nonce child_nonce now run_id tip replacements children password salt)
    \<and> dr_keeps expiry_ok (ensure_rebuild_schedule_generation rng fp run_id network tip)
    \<and> keeps expiry_ok (mark_pending_broadcasted now run_id txid)
    \<and> keeps expiry_ok (stop_run now run_id phase)
    \<and> dr_keeps (\<lambda>db. expiry_ok db \<and> txids_ok db)
         (reschedule_wallet_overdue_pending_txs_with_exclusion rng fp now network tip skipped)
    \<and> keeps (\<lambda>db. expiry_ok db \<and> txids_ok db)
         (apply_accepted_migration_outbox_receipt now account network run_id txid tip updates)
    \<and> (\<forall>db. expiry_ok db \<longrightarrow> (\<forall>r \<in> set (db_pending (snd (reconcile_run_confirmations wv now run_id db))).
         canonical_row r \<or> pd_scheduled_height r = pd_target_height r))"
  using assms reconciled_rows by (intro conjI expiry_rules new_heights_keep_expiry) blast+

theorem scheduling_keeps_canonical_expiry_witness:
  "dr_keeps (\<lambda>db :: nat migration_db. expiry_ok db \<and> txids_ok db)
     (reschedule_wallet_overdue_pending_txs_with_exclusion half_source plain_arith 7 Net_Main 100 None)"
  using scheduling_keeps_canonical_expiry[of half_source] half_source_shuffles by blast

text \<open>
  C30: A part that a reorganisation takes out of its block is scheduled again at the height its proof was
  built for, with the expiry of the height it had been scheduled at. Take a live run whose only pending
  transaction is a confirmed one that the wallet's chain no longer has, and a chain tip at or above its
  target height whose window prescribes the expiry the transaction has, while the window of the target
  height prescribes another. At that tip the transaction is due again, but the selection of due
  transactions fails on its expiry, and the check that sends due parts back for new signatures leaves it
  alone, because its expiry is the prescribed one for the current height.
\<close>

theorem requeued_part_blocks_broadcasts:
  assumes "tables_ok db" and "run_is_live run_id db" and "pending_of_run run_id db = [r]"
    and "pd_status r = ''confirmed''" and "local_denomination_chain_identity wv (pd_txid_hex r) = Inr None"
    and "unpromoted_signed_child_pczt_count_with_conn run_id db = Inr n"
    and "decode_base64 lib salt ''migration pending salt'' = Inr raw_salt"
    and "pd_target_height r \<le> tip"
    and "zip318_canonical_migration_expiry_height (pd_target_height r) = Inr old_expiry" and "old_expiry \<noteq> pd_expiry_height r"
    and "zip318_canonical_migration_expiry_height tip = Inr (pd_expiry_height r)"
  shows "fst (due_pending_txs lib password salt wv now run_id tip db)
      = Inl (Message ''Due migration transaction {txid_hex} expiry is not canonical for scheduled height {scheduled_height}''
          [AStr (pd_txid_hex r), ANat (pd_target_height r)])
    \<and> fst (mark_due_parts_with_noncanonical_broadcast_height_for_resign wv now run_id tip db) = Inr 0"
proof -
  define q where "q = follow_chain wv now r"
  obtain db' where run: "reconcile_run_confirmations wv now run_id db = (Inr (), db')" and rows: "pending_of_run run_id db' = [q]"
    using requeued_alone[OF assms(1-6)] unfolding q_def by blast
  have q: "pd_status q = ''scheduled''" "pd_scheduled_height q = pd_target_height r" "pd_txid_hex q = pd_txid_hex r"
    "pd_expiry_height q = pd_expiry_height r"
    by (simp_all add: q_def follow_chain_def assms(4,5))
  have "due_rows run_id tip db' = [q]" using assms(8) by (simp add: due_rows_def rows q)
  then have "fst (due_pending_txs lib password salt wv now run_id tip db)
      = fst (first_due lib password raw_salt wv (by_schedule [q]), db')"
    unfolding due_pending_txs_def st_bind_values
    by (simp add: assms(7) st_bind_eq(1)[where m = "reconcile_run_confirmations wv now run_id", OF run])
  then have due: "fst (due_pending_txs lib password salt wv now run_id tip db)
      = Inl (Message ''Due migration transaction {txid_hex} expiry is not canonical for scheduled height {scheduled_height}''
          [AStr (pd_txid_hex r), ANat (pd_target_height r)])"
    using assms(5,9,10) by (simp add: by_schedule_def q)
  let ?late = "\<lambda>p. pd_run_id p = run_id \<and> pd_status p = ''scheduled'' \<and> pd_scheduled_height p \<le> tip
    \<and> pd_expiry_height p \<noteq> pd_expiry_height r"
  have "\<not> ?late p" if "p \<in> set (db_pending db')" for p
  proof (cases "pd_run_id p = run_id")
    case True
    with that have "p \<in> set (pending_of_run run_id db')" by (simp add: pending_of_run_def)
    then show ?thesis using rows q by simp
  qed simp
  then have "filter ?late (db_pending db') = []" unfolding filter_empty_conv by blast
  then have "fst (mark_due_parts_with_noncanonical_broadcast_height_for_resign wv now run_id tip db) = Inr 0"
    unfolding mark_due_parts_with_noncanonical_broadcast_height_for_resign_def st_bind_values assms(11)
    by (simp add: savepoint_def st_bind_def run update_pending_def)
  with due show ?thesis ..
qed

definition moved_row :: "encrypted_payload pending_row" where
  "moved_row = (settle_row ''02'' 1 ''confirmed'')\<lparr>pd_scheduled_height := 34570, pd_expiry_height := 103680\<rparr>"

theorem requeued_part_blocks_broadcasts_witness:
  "fst (due_pending_txs plain_crypto [] [] settle_view 7 ''run'' 34600
      (settle_db PHASE_WAITING_MIGRATION_CONFIRMATIONS [moved_row]))
     = Inl (Message ''Due migration transaction {txid_hex} expiry is not canonical for scheduled height {scheduled_height}''
         [AStr ''02'', ANat 90])"
proof -
  let ?db = "settle_db PHASE_WAITING_MIGRATION_CONFIRMATIONS [moved_row]"
  have row: "pending_of_run ''run'' ?db = [moved_row]"
    by (simp add: pending_of_run_def settle_defs moved_row_def)
  have fields: "pd_status moved_row = ''confirmed''" "pd_txid_hex moved_row = ''02''" "pd_target_height moved_row = 90"
    "pd_expiry_height moved_row = 103680"
    by (simp_all add: moved_row_def settle_row_def)
  have tables: "tables_ok ?db"
    by (simp add: tables_ok_def settle_defs moved_row_def part_keys_def pending_part_key_def pending_statuses_def)
  have expiry: "zip318_canonical_migration_expiry_height 90 = Inr 69120" "zip318_canonical_migration_expiry_height 34600 = Inr 103680"
    by (simp_all add: zip318_canonical_migration_expiry_height_def ZIP318_EXPIRY_MODULUS_def checked_mul_def checked_add_def)
  have salt: "decode_base64 plain_crypto [] ''migration pending salt'' = Inr []"
    by (simp add: decode_base64_def plain_crypto_def)
  show ?thesis
    using requeued_part_blocks_broadcasts[OF tables settle_counts(1) row fields(1) _ settle_counts(3) salt, where tip = 34600]
    by (simp add: fields settle_identity expiry)
qed

end
