(* ===== verification/Run_Stop.thy ===== *)
theory Run_Stop
  imports Run_Settle
begin

text \<open>
  The end of a run and the locks of the wallet library: what a stop discards, and what a
  reconciliation of the locks guarantees while other threads change the run.
\<close>

section \<open>The loop over the locks\<close>

lemma on_locks_Inr:
  "on_locks m ws = (Inr x, ws') \<longleftrightarrow> (\<exists>locks. m (ws_locks ws) = (Inr x, locks) \<and> ws' = ws\<lparr>ws_locks := locks\<rparr>)"
  by (auto simp: on_locks_def split: prod.splits)

lemma snapshot_Some:
  "wallet_lock_reconciliation_snapshot run_id db = Some (released, candidates) \<longleftrightarrow>
     (\<exists>run. find_run db run_id = Some run \<and> released = migration_phase_releases_wallet_locks (mr_phase run)
        \<and> candidates = wallet_lock_candidates_with_conn run_id db)"
  by (auto simp: wallet_lock_reconciliation_snapshot_def)

text \<open>What one pass does, by the phase it finds.\<close>

lemma lock_step:
  assumes run: "find_run (ws_migration ws) run_id = Some run"
    and loop: "reconcile_locks_loop lib others run_id (Suc n) ws = (Inr completed, ws')"
  shows "\<exists>done' locks.
     (if migration_phase_releases_wallet_locks (mr_phase run)
      then unlock_outputs lib run_id (wallet_lock_candidates_with_conn run_id (ws_migration ws)) (ws_locks ws) = (Inr (), locks) \<and> done'
      else ensure_locks lib run_id (wallet_lock_candidates_with_conn run_id (ws_migration ws)) (ws_locks ws) = (Inr done', locks))
     \<and> (case find_run (others n (ws_migration ws)) run_id of
        None \<Rightarrow> ws_migration ws' = others n (ws_migration ws)
      | Some run' \<Rightarrow>
          if migration_phase_releases_wallet_locks (mr_phase run') = migration_phase_releases_wallet_locks (mr_phase run)
          then completed = done' \<and> ws' = ws\<lparr>ws_locks := locks, ws_migration := others n (ws_migration ws)\<rparr>
          else reconcile_locks_loop lib others run_id n (ws\<lparr>ws_locks := locks, ws_migration := others n (ws_migration ws)\<rparr>)
                = (Inr completed, ws'))"
proof -
  define candidates where "candidates = wallet_lock_candidates_with_conn run_id (ws_migration ws)"
  define released where "released = migration_phase_releases_wallet_locks (mr_phase run)"
  have snapshot: "wallet_lock_reconciliation_snapshot run_id (ws_migration ws) = Some (released, candidates)"
    using run by (simp add: snapshot_Some released_def candidates_def)
  let ?act = "if released then st_bind (on_locks (unlock_outputs lib run_id candidates)) (\<lambda>_. st_return True)
    else on_locks (ensure_locks lib run_id candidates)"
  obtain done' ws1 where act: "?act ws = (Inr done', ws1)"
    using loop by (auto simp: st_bind_values(1) snapshot st_bind_Inr split: option.splits)
  obtain locks where locks: "if released then unlock_outputs lib run_id candidates (ws_locks ws) = (Inr (), locks) \<and> done'
      else ensure_locks lib run_id candidates (ws_locks ws) = (Inr done', locks)"
    and ws1: "ws1 = ws\<lparr>ws_locks := locks\<rparr>"
    using act by (auto simp: st_bind_Inr on_locks_Inr split: if_splits)
  define ws2 where "ws2 = ws\<lparr>ws_locks := locks, ws_migration := others n (ws_migration ws)\<rparr>"
  have rest: "(case wallet_lock_reconciliation_snapshot run_id (ws_migration ws2) of
         None \<Rightarrow> st_bind (on_locks (unlock_outputs lib run_id candidates)) (\<lambda>_. st_return True)
       | Some (current, _) \<Rightarrow> if wallet_lock_reconciliation_is_stable released current then st_return done'
           else reconcile_locks_loop lib others run_id n) ws2 = (Inr completed, ws')"
    using loop by (simp add: st_bind_values(1) snapshot st_bind_eq(1)[where m = ?act, OF act] ws1 ws2_def)
      (simp add: st_bind_def)
  have "case find_run (others n (ws_migration ws)) run_id of
        None \<Rightarrow> ws_migration ws' = others n (ws_migration ws)
      | Some run' \<Rightarrow>
          if migration_phase_releases_wallet_locks (mr_phase run') = released
          then completed = done' \<and> ws' = ws2 else reconcile_locks_loop lib others run_id n ws2 = (Inr completed, ws')"
  proof (cases "find_run (others n (ws_migration ws)) run_id")
    case None
    then have "wallet_lock_reconciliation_snapshot run_id (ws_migration ws2) = None"
      by (simp add: wallet_lock_reconciliation_snapshot_def ws2_def)
    with rest None show ?thesis by (auto simp: st_bind_Inr on_locks_Inr ws2_def)
  next
    case (Some run')
    then have "wallet_lock_reconciliation_snapshot run_id (ws_migration ws2)
        = Some (migration_phase_releases_wallet_locks (mr_phase run'), wallet_lock_candidates_with_conn run_id (ws_migration ws2))"
      by (simp add: wallet_lock_reconciliation_snapshot_def ws2_def)
    with rest Some show ?thesis by (auto simp: wallet_lock_reconciliation_is_stable_def split: if_splits)
  qed
  with locks show ?thesis unfolding released_def candidates_def ws2_def by blast
qed

lemma lock_loop:
  assumes "reconcile_locks_loop lib others run_id n ws = (Inr completed, ws')"
    and "find_run (ws_migration ws') run_id = Some run"
  shows "\<exists>k db locks. k < n \<and> ws_migration ws' = others k db
    \<and> (if migration_phase_releases_wallet_locks (mr_phase run)
       then unlock_outputs lib run_id (wallet_lock_candidates_with_conn run_id db) locks = (Inr (), ws_locks ws')
       else ensure_locks lib run_id (wallet_lock_candidates_with_conn run_id db) locks = (Inr completed, ws_locks ws'))"
  using assms(1)
proof (induction n arbitrary: ws)
  case (Suc n)
  show ?case
  proof (cases "find_run (ws_migration ws) run_id")
    case None
    with Suc.prems have "ws' = ws"
      by (simp add: st_bind_values(1) wallet_lock_reconciliation_snapshot_def)
    with None assms(2) show ?thesis by simp
  next
    case (Some first)
    from lock_step[OF Some Suc.prems] obtain done' locks where
      act: "if migration_phase_releases_wallet_locks (mr_phase first)
        then unlock_outputs lib run_id (wallet_lock_candidates_with_conn run_id (ws_migration ws)) (ws_locks ws) = (Inr (), locks) \<and> done'
        else ensure_locks lib run_id (wallet_lock_candidates_with_conn run_id (ws_migration ws)) (ws_locks ws) = (Inr done', locks)"
      and next': "case find_run (others n (ws_migration ws)) run_id of
          None \<Rightarrow> ws_migration ws' = others n (ws_migration ws)
        | Some run' \<Rightarrow>
            if migration_phase_releases_wallet_locks (mr_phase run') = migration_phase_releases_wallet_locks (mr_phase first)
            then completed = done' \<and> ws' = ws\<lparr>ws_locks := locks, ws_migration := others n (ws_migration ws)\<rparr>
            else reconcile_locks_loop lib others run_id n (ws\<lparr>ws_locks := locks, ws_migration := others n (ws_migration ws)\<rparr>)
                  = (Inr completed, ws')"
      by blast
    show ?thesis
    proof (cases "find_run (others n (ws_migration ws)) run_id")
      case None
      with next' assms(2) show ?thesis by simp
    next
      case (Some run')
      show ?thesis
      proof (cases "migration_phase_releases_wallet_locks (mr_phase run') = migration_phase_releases_wallet_locks (mr_phase first)")
        case True
        with next' Some have ws': "completed = done'" "ws' = ws\<lparr>ws_locks := locks, ws_migration := others n (ws_migration ws)\<rparr>" by auto
        with Some assms(2) have "run = run'" by simp
        with act True ws' show ?thesis by (intro exI[of _ n] exI[of _ "ws_migration ws"] exI[of _ "ws_locks ws"]) (simp split: if_splits)
      next
        case False
        with next' Some have "reconcile_locks_loop lib others run_id n
            (ws\<lparr>ws_locks := locks, ws_migration := others n (ws_migration ws)\<rparr>) = (Inr completed, ws')" by simp
        from Suc.IH[OF this] show ?thesis using less_SucI by blast
      qed
    qed
  qed
qed simp

section \<open>Stopping\<close>

lemma found_run: "find_run db run_id = Some run \<Longrightarrow> mr_run_id run = run_id"
  by (auto simp: find_run_def find_Some_iff)

lemma stop_run_Inr:
  assumes "stop_run now run_id phase db = (Inr (), db')" and "find_run db run_id = Some run" and "mr_phase run = phase"
  shows "run_phase run_id db' = Inr PHASE_ABANDONED"
    and "db_children db' = filter (\<lambda>c. ch_run_id c \<noteq> run_id) (db_children db)"
    and "db_pending db' = filter (\<lambda>r. \<not> (pd_run_id r = run_id \<and> pd_status r \<in> {''scheduled'', ''needs_resign''})) (db_pending db)"
    and "db_notes db' = update_where (\<lambda>n. nr_run_id n = run_id) (\<lambda>n. n\<lparr>nr_lock_state := ''unlocked''\<rparr>) (db_notes db)"
    and "db_stages db' = db_stages db"
    and "filter (\<lambda>r. mr_run_id r \<noteq> run_id) (db_runs db') = filter (\<lambda>r. mr_run_id r \<noteq> run_id) (db_runs db)"
proof -
  define rows where "rows = update_where (\<lambda>r. mr_run_id r = run_id)
      (\<lambda>r. r\<lparr>mr_recovery_schedule_origin_height := None, mr_recovery_schedule_max_block_offset := None\<rparr>)
    (update_where (\<lambda>r. mr_run_id r = run_id \<and> mr_phase r = phase)
      (\<lambda>r. r\<lparr>mr_phase := PHASE_ABANDONED, mr_updated_at_ms := now,
             mr_last_error := Some ''Migration stopped by the user.''\<rparr>) (db_runs db))"
  have db': "db' = db\<lparr>db_children := filter (\<lambda>c. ch_run_id c \<noteq> run_id) (db_children db),
      db_pending := filter (\<lambda>r. \<not> (pd_run_id r = run_id \<and> pd_status r \<in> {''scheduled'', ''needs_resign''})) (db_pending db),
      db_notes := update_where (\<lambda>n. nr_run_id n = run_id) (\<lambda>n. n\<lparr>nr_lock_state := ''unlocked''\<rparr>) (db_notes db),
      db_runs := rows\<rparr>"
    using assms(1) unfolding stop_run_def savepoint_Inr
    by (simp add: st_bind_def update_runs_def set_lock_state_def update_notes_def delete_children_def delete_pending_def
        rows_def del: de_Morgan_conj split: if_splits)
  show "db_children db' = filter (\<lambda>c. ch_run_id c \<noteq> run_id) (db_children db)"
    "db_pending db' = filter (\<lambda>r. \<not> (pd_run_id r = run_id \<and> pd_status r \<in> {''scheduled'', ''needs_resign''})) (db_pending db)"
    "db_notes db' = update_where (\<lambda>n. nr_run_id n = run_id) (\<lambda>n. n\<lparr>nr_lock_state := ''unlocked''\<rparr>) (db_notes db)"
    "db_stages db' = db_stages db"
    unfolding db' by simp_all
  have "mr_run_id run = run_id" using assms(2) found_run by metis
  with assms(2,3) show "run_phase run_id db' = Inr PHASE_ABANDONED"
    unfolding db' rows_def by (simp add: run_phase_def run_column_def find_run_def find_updated_run)
  show "filter (\<lambda>r. mr_run_id r \<noteq> run_id) (db_runs db') = filter (\<lambda>r. mr_run_id r \<noteq> run_id) (db_runs db)"
  proof -
    have others: "filter (\<lambda>r. mr_run_id r \<noteq> run_id) (update_where p f xs) = filter (\<lambda>r. mr_run_id r \<noteq> run_id) xs"
      if "\<And>r. p r \<Longrightarrow> mr_run_id r = run_id" "\<And>r. mr_run_id (f r) = mr_run_id r" for p f xs
      using that by (induction xs) (auto simp: update_where_def)
    show ?thesis unfolding db' rows_def by (simp, subst others, simp_all, subst others, simp_all)
  qed
qed

lemma on_db_Inr:
  "on_db m ws = (Inr x, ws') \<longleftrightarrow> (\<exists>db. m (ws_migration ws) = (Inr x, db) \<and> ws' = ws\<lparr>ws_migration := db\<rparr>)"
  by (auto simp: on_db_def split: prod.splits)

text \<open>Nobody else changes the tables: the locks are those of the phase found.\<close>

lemma undisturbed_release:
  assumes "reconcile_wallet_locks_for_run lib (\<lambda>_ db. db) run_id ws = (Inr (), ws')"
    and "run_phase run_id (ws_migration ws) = Inr PHASE_ABANDONED"
  shows "unlock_outputs lib run_id (wallet_lock_candidates_with_conn run_id (ws_migration ws)) (ws_locks ws) = (Inr (), ws_locks ws')
    \<and> ws_migration ws' = ws_migration ws"
proof -
  obtain completed where loop: "reconcile_locks_loop lib (\<lambda>_ db. db) run_id (Suc 7) ws = (Inr completed, ws')"
    using assms(1) by (auto simp: reconcile_wallet_locks_for_run_def reconcile_wallet_locks_for_run_inner_def st_bind_Inr
        eval_nat_numeral simp del: reconcile_locks_loop.simps)
  obtain run where run: "find_run (ws_migration ws) run_id = Some run" "mr_phase run = PHASE_ABANDONED"
    using assms(2) by (auto simp: run_phase_def run_column_def res_simps split: option.splits)
  from lock_step[OF run(1) loop] run show ?thesis
    by (auto simp: migration_phase_releases_wallet_locks_def)
qed

lemma candidates_after_stop:
  assumes "db_notes db' = update_where (\<lambda>n. nr_run_id n = run_id) (\<lambda>n. n\<lparr>nr_lock_state := ''unlocked''\<rparr>) (db_notes db)"
    and "db_stages db' = db_stages db"
  shows "wallet_lock_candidates_with_conn run_id db' = wallet_lock_candidates_with_conn run_id db"
proof -
  have "map (\<lambda>n. (nr_txid_hex n, nr_output_index n)) (filter (\<lambda>n. nr_run_id n = run_id) (db_notes db'))
      = map (\<lambda>n. (nr_txid_hex n, nr_output_index n)) (filter (\<lambda>n. nr_run_id n = run_id) (db_notes db))"
    unfolding assms(1) by (subst filter_update_where) (simp_all add: map_update_where)
  then show ?thesis by (simp only: wallet_lock_candidates_with_conn_def assms(2))
qed

text \<open>
  C7: A stop that succeeds, with no other writer, discards everything of the run that was not sent and
  gives its inputs back: the run is abandoned, it has no signed children, no transaction that is
  scheduled or waits for signatures and no preparation stage that was never submitted, its prepared
  notes are unlocked, and the wallet library released every prepared note and every stage input that
  the run had before the stop. The other runs and the transactions already sent stay.
\<close>

theorem abandoned_run_is_released:
  assumes "find_run (ws_migration ws) run_id = Some run" and "mr_phase run \<noteq> PHASE_ABANDONED"
    and "abandon_run locks (\<lambda>_ db. db) now account network run_id ws = (Inr (), ws')"
  shows "run_phase run_id (ws_migration ws') = Inr PHASE_ABANDONED
    \<and> children_of_run run_id (ws_migration ws') = []
    \<and> pending_of_run run_id (ws_migration ws') = filter (\<lambda>r. pd_status r \<notin> {''scheduled'', ''needs_resign''})
        (pending_of_run run_id (ws_migration ws))
    \<and> filter (unsubmitted run_id) (stage_rows (db_stages (ws_migration ws'))) = []
    \<and> (\<forall>n \<in> set (db_notes (ws_migration ws')). nr_run_id n = run_id \<longrightarrow> nr_lock_state n = ''unlocked'')
    \<and> filter (\<lambda>r. mr_run_id r \<noteq> run_id) (db_runs (ws_migration ws')) = filter (\<lambda>r. mr_run_id r \<noteq> run_id) (db_runs (ws_migration ws))
    \<and> unlock_outputs locks run_id (wallet_lock_candidates_with_conn run_id (ws_migration ws)) (ws_locks ws) = (Inr (), ws_locks ws')"
proof -
  have "mr_account_uuid run = account \<and> mr_network run = network_name network
      \<and> mr_phase run \<noteq> PHASE_COMPLETE \<and> mr_phase run \<noteq> PHASE_FAILED_TERMINAL"
    using assms by (auto simp: abandon_run_def st_bind_def on_db_def split: if_splits)
  then have steps: "st_bind (on_db (stop_run now run_id (mr_phase run))) (\<lambda>_.
       st_bind (reconcile_wallet_locks_for_run locks (\<lambda>_ db. db) run_id) (\<lambda>_.
       on_db (discard_unsubmitted_preparation_stages run_id))) ws = (Inr (), ws')"
    using assms by (simp add: abandon_run_def st_bind_def[of "on_db (st_read _)"] on_db_def[of "st_read _"])
  then obtain db1 ws2 where stop: "stop_run now run_id (mr_phase run) (ws_migration ws) = (Inr (), db1)"
    and locks: "reconcile_wallet_locks_for_run locks (\<lambda>_ db. db) run_id (ws\<lparr>ws_migration := db1\<rparr>) = (Inr (), ws2)"
    and discard: "on_db (discard_unsubmitted_preparation_stages run_id) ws2 = (Inr (), ws')"
    by (auto simp: st_bind_Inr on_db_Inr[of "stop_run _ _ _"])
  note stopped = stop_run_Inr[OF stop assms(1) refl]
  have released: "unlock_outputs locks run_id (wallet_lock_candidates_with_conn run_id (ws_migration ws)) (ws_locks ws)
      = (Inr (), ws_locks ws2)" "ws_migration ws2 = db1"
    using undisturbed_release[OF locks] stopped(1) candidates_after_stop[OF stopped(4,5)] by simp_all
  have final: "ws_locks ws' = ws_locks ws2"
    "db_runs (ws_migration ws') = db_runs db1" "db_children (ws_migration ws') = db_children db1"
    "db_pending (ws_migration ws') = db_pending db1" "db_notes (ws_migration ws') = db_notes db1"
    "stage_rows (db_stages (ws_migration ws')) = filter (\<lambda>s. \<not> unsubmitted run_id s) (stage_rows (db_stages db1))"
    using discard by (auto simp: on_db_Inr discard_unsubmitted_preparation_stages_def Let_def released(2))
  have "run_phase run_id (ws_migration ws') = run_phase run_id db1" by (simp add: run_phase_def run_column_def find_run_def final)
  moreover have "pending_of_run run_id (ws_migration ws')
      = filter (\<lambda>r. pd_status r \<notin> {''scheduled'', ''needs_resign''}) (pending_of_run run_id (ws_migration ws))"
    unfolding pending_of_run_def final stopped(3) filter_filter by (rule filter_cong) auto
  ultimately show ?thesis
    using stopped released notes_unlocked[of run_id "''unlocked''" "db_notes (ws_migration ws)"]
    by (simp add: final children_of_run_def filter_empty_conv)
qed

text \<open>
  C18: Whatever other threads do to the run while its locks are reconciled, a reconciliation that
  succeeds leaves the locks the way the run's final phase wants them: its last action, on the outputs
  the run had in the tables just before the last interference, was to release them when the phase has
  ended the run, and to take them when it has not. The loop needs at most eight passes.
\<close>

theorem locks_follow_the_final_phase:
  assumes "reconcile_wallet_locks_for_run_inner lib others run_id ws = (Inr completed, ws')"
    and "find_run (ws_migration ws') run_id = Some run"
  shows "\<exists>k db locks. k < 8 \<and> ws_migration ws' = others k db
    \<and> (if migration_phase_releases_wallet_locks (mr_phase run)
       then unlock_outputs lib run_id (wallet_lock_candidates_with_conn run_id db) locks = (Inr (), ws_locks ws')
       else ensure_locks lib run_id (wallet_lock_candidates_with_conn run_id db) locks = (Inr completed, ws_locks ws'))"
  using lock_loop[OF assms(1)[unfolded reconcile_wallet_locks_for_run_inner_def] assms(2)] .

section \<open>A run to stop\<close>

text \<open>A lock table that is the list of the locked outputs.\<close>

definition list_locks :: "(string \<times> nat) list lock_library" where
  "list_locks = \<lparr>unlock_outputs = \<lambda>_ outputs locks. (Inr (), filter (\<lambda>out. out \<notin> set outputs) locks),
     ensure_locks = \<lambda>_ outputs locks. (Inr True, outputs @ filter (\<lambda>out. out \<notin> set outputs) locks)\<rparr>"

definition stop_wallet :: "(encrypted_payload, (string \<times> nat) list) wallet_state" where
  "stop_wallet = \<lparr>ws_migration = settle_db PHASE_BROADCAST_SCHEDULED [settle_row ''01'' 0 ''broadcasted'', settle_row ''02'' 1 ''scheduled''],
     ws_locks = [(''0a'', 0), (''ff'', 3)]\<rparr>"

lemma stop_wallet_run: "find_run (ws_migration stop_wallet) ''run'' = Some (settle_run PHASE_BROADCAST_SCHEDULED)"
  by (simp add: stop_wallet_def settle_defs find_run_def)

lemma stop_wallet_candidates:
  "wallet_lock_candidates_with_conn ''run'' (ws_migration stop_wallet) = [(''0a'', 0)]"
  by (simp add: stop_wallet_def settle_defs wallet_lock_candidates_with_conn_def)

lemmas locks_passes = reconcile_locks_loop.simps(2)[where n = 7, unfolded Suc_numeral add_num_simps]
  reconcile_locks_loop.simps(2)[where n = 6, unfolded Suc_numeral add_num_simps]

lemmas run_passes = reconcile_wallet_locks_for_run_inner_def locks_passes st_bind_def
  wallet_lock_reconciliation_snapshot_def list_locks_def on_locks_def migration_phase_releases_wallet_locks_def
  wallet_lock_reconciliation_is_stable_def wallet_lock_candidates_with_conn_def

lemma stop_wallet_stops: "fst (abandon_run list_locks (\<lambda>_ db. db) 7 ''acc'' Net_Main ''run'' stop_wallet) = Inr ()"
  by (simp add: abandon_run_def st_bind_def on_db_def stop_wallet_def settle_defs find_run_def network_name_def
      phase_defs stop_run_def savepoint_def update_runs_def update_where_def delete_children_def delete_pending_def
      set_lock_state_def update_notes_def reconcile_wallet_locks_for_run_def run_passes
      discard_unsubmitted_preparation_stages_def Let_def)

theorem abandoned_run_is_released_witness:
  "run_phase ''run'' (ws_migration (snd (abandon_run list_locks (\<lambda>_ db. db) 7 ''acc'' Net_Main ''run'' stop_wallet))) = Inr PHASE_ABANDONED
   \<and> map pd_txid_hex (pending_of_run ''run'' (ws_migration (snd (abandon_run list_locks (\<lambda>_ db. db) 7 ''acc'' Net_Main ''run'' stop_wallet)))) = [''01'']
   \<and> ws_locks (snd (abandon_run list_locks (\<lambda>_ db. db) 7 ''acc'' Net_Main ''run'' stop_wallet)) = [(''ff'', 3)]"
proof -
  let ?run = "abandon_run list_locks (\<lambda>_ db. db) 7 ''acc'' Net_Main ''run'' stop_wallet"
  have "?run = (Inr (), snd ?run)" using stop_wallet_stops by (metis prod.collapse)
  from abandoned_run_is_released[OF stop_wallet_run _ this]
  have "run_phase ''run'' (ws_migration (snd ?run)) = Inr PHASE_ABANDONED"
    and rows: "pending_of_run ''run'' (ws_migration (snd ?run)) = filter (\<lambda>r. pd_status r \<notin> {''scheduled'', ''needs_resign''})
        (pending_of_run ''run'' (ws_migration stop_wallet))"
    and locks: "unlock_outputs list_locks ''run'' [(''0a'', 0)] (ws_locks stop_wallet) = (Inr (), ws_locks (snd ?run))"
    by (simp_all add: stop_wallet_candidates settle_run_def phase_defs)
  moreover have "map pd_txid_hex (pending_of_run ''run'' (ws_migration (snd ?run))) = [''01'']"
    unfolding rows by (simp add: stop_wallet_def settle_defs pending_of_run_def)
  moreover have "ws_locks (snd ?run) = [(''ff'', 3)]"
    using locks by (simp add: list_locks_def stop_wallet_def)
  ultimately show ?thesis by blast
qed

text \<open>Another thread abandons the run during the first pass: the locks taken are given back in the second.\<close>

definition abandoning :: "nat \<Rightarrow> encrypted_payload migration_db \<Rightarrow> encrypted_payload migration_db" where
  "abandoning k db = (if k = 7 then db\<lparr>db_runs := [settle_run PHASE_ABANDONED]\<rparr> else db)"

lemma abandoning_result:
  "reconcile_wallet_locks_for_run_inner list_locks abandoning ''run'' stop_wallet
    = (Inr True, \<lparr>ws_migration = abandoning 7 (ws_migration stop_wallet), ws_locks = [(''ff'', 3)]\<rparr>)"
  by (simp add: run_passes stop_wallet_def settle_defs find_run_def phase_defs abandoning_def) auto

theorem locks_follow_the_final_phase_witness:
  "\<exists>k db locks. k < 8 \<and> abandoning 7 (ws_migration stop_wallet) = abandoning k db
    \<and> unlock_outputs list_locks ''run'' (wallet_lock_candidates_with_conn ''run'' db) locks = (Inr (), [(''ff'', 3)])"
proof -
  have run: "find_run (ws_migration \<lparr>ws_migration = abandoning 7 (ws_migration stop_wallet), ws_locks = [(''ff'', 3)]\<rparr>) ''run''
      = Some (settle_run PHASE_ABANDONED)"
    by (simp add: abandoning_def find_run_def settle_run_def)
  from locks_follow_the_final_phase[OF abandoning_result run] show ?thesis
    by (simp add: settle_run_def migration_phase_releases_wallet_locks_def)
qed

end
