(* ===== verification/Run_Reconcile.thy ===== *)
theory Run_Reconcile
  imports Run_Settle Stage_Props
begin

text \<open>
  What the reconciliation of the denomination stages achieves: it brings the stages of a run in line
  with the wallet's chain, and doing it again changes nothing.
\<close>

section \<open>The chain records\<close>

definition shown :: "'t stage_row \<Rightarrow> stage_chain_record \<Rightarrow> bool" where
  "shown row rc \<longleftrightarrow> cr_expected_txid_hex rc = row_expected_txid_hex row
     \<and> status_parse (row_status row) = Inr (cr_status rc)
     \<and> cr_confirmed_mined_height rc = row_confirmed_mined_height row
     \<and> cr_confirmed_block_hash rc = row_confirmed_block_hash row"

lemma list_all2_members:
  "list_all2 P xs ys \<Longrightarrow> x \<in> set xs \<Longrightarrow> \<exists>y \<in> set ys. P x y"
  "list_all2 P xs ys \<Longrightarrow> y \<in> set ys \<Longrightarrow> \<exists>x \<in> set xs. P x y"
  by (induction rule: list_all2_induct) auto

lemma records_shown:
  assumes "denomination_stage_chain_records db run_id = Inr records"
  shows "row \<in> set (run_rows db run_id) \<Longrightarrow> \<exists>rc \<in> set records. shown row rc"
    and "rc \<in> set records \<Longrightarrow> \<exists>row \<in> set (run_rows db run_id). shown row rc"
proof -
  have rel: "list_all2 shown (run_rows db run_id) records"
    using assms unfolding denomination_stage_chain_records_def res_map_Inr_iff
    by (rule list_all2_mono) (auto simp: res_simps shown_def)
  show "row \<in> set (run_rows db run_id) \<Longrightarrow> \<exists>rc \<in> set records. shown row rc"
    "rc \<in> set records \<Longrightarrow> \<exists>row \<in> set (run_rows db run_id). shown row rc"
    using list_all2_members[OF rel] by blast+
qed

text \<open>A record shows the phase of its stage.\<close>

definition shows_phase :: "stage_chain_record \<Rightarrow> stage_phase \<Rightarrow> bool" where
  "shows_phase rc p \<longleftrightarrow>
     (case p of
        Included h b \<Rightarrow> cr_status rc = Confirmed \<and> cr_confirmed_mined_height rc = Some h
          \<and> cr_confirmed_block_hash rc = Some b
      | _ \<Rightarrow> cr_status rc \<noteq> Confirmed)"

lemma record_phase:
  assumes ok: "stages_ok db" and records: "denomination_stage_chain_records db run_id = Inr records"
    and "rc \<in> set records"
  shows "\<exists>p. phases db (run_id, record_txid rc) = Some p \<and> shows_phase rc p"
    and "record_txid rc = cr_expected_txid_hex rc"
proof -
  obtain row where row: "row \<in> set (run_rows db run_id)" "cr_expected_txid_hex rc = row_expected_txid_hex row"
    and fields: "status_parse (row_status row) = Inr (cr_status rc)"
      "cr_confirmed_mined_height rc = row_confirmed_mined_height row"
      "cr_confirmed_block_hash rc = row_confirmed_block_hash row"
    using records_shown(2)[OF records assms(3)] by (auto simp: shown_def)
  have member: "row \<in> set (stage_rows db)" "row_run_id row = run_id" using row(1) by (simp_all add: run_rows_def)
  with ok have canonical: "to_ascii_lowercase (row_expected_txid_hex row) = row_expected_txid_hex row"
    by (auto simp: stages_ok_def ids_ok_def canonical_txid_def)
  then show txid: "record_txid rc = cr_expected_txid_hex rc" by (simp add: record_txid_def row(2))
  have found: "find_stage db run_id (row_expected_txid_hex row) = Some row"
    using find_stage_unique[of db run_id] member ok by (simp add: stages_ok_def)
  have checks: "stage_row_checks row" using found_row(1)[OF _ found] ok by (simp add: stages_ok_def)
  have "phases db (run_id, record_txid rc) = Some (row_phase row)" by (simp add: phases_def txid row(2) found)
  moreover have "shows_phase rc (row_phase row)"
    using checks by (cases rule: phase_cases) (use fields in \<open>auto simp: shows_phase_def status_parses\<close>)
  ultimately show "\<exists>p. phases db (run_id, record_txid rc) = Some p \<and> shows_phase rc p" by blast
qed

section \<open>The current inclusions\<close>

lemma first_inclusion_length: "first_inclusion wv variants = Inr (Some (h, b)) \<Longrightarrow> length b = 32"
  by (induction variants) (auto split: option.splits if_splits)

lemma identity_length: "local_denomination_chain_identity wv txid = Inr (Some (h, b)) \<Longrightarrow> length b = 32"
  by (auto simp: local_denomination_chain_identity_def res_simps dest: first_inclusion_length)

lemma current_identities_spec:
  assumes "current_identities wv records = Inr current"
    and "\<And>r. r \<in> set records \<Longrightarrow> record_txid r = cr_expected_txid_hex r"
  shows "\<forall>rc \<in> set records. local_denomination_chain_identity wv (cr_expected_txid_hex rc) = Inr (current (record_txid rc))"
  using assms
proof (induction records arbitrary: current)
  case (Cons r records)
  obtain identity rest where id: "local_denomination_chain_identity wv (cr_expected_txid_hex r) = Inr identity"
    and rest: "current_identities wv records = Inr rest"
    and current: "current = (if record_txid r \<in> record_txid ` set records then rest else rest(record_txid r := identity))"
    using Cons.prems(1) by (auto simp: res_simps)
  have IH: "\<forall>q \<in> set records. local_denomination_chain_identity wv (cr_expected_txid_hex q) = Inr (rest (record_txid q))"
    using Cons.IH[OF rest] Cons.prems(2) by simp
  have "local_denomination_chain_identity wv (cr_expected_txid_hex rc) = Inr (current (record_txid rc))"
    if "rc \<in> set (r # records)" for rc
  proof (cases "record_txid rc \<in> record_txid ` set records")
    case True
    then obtain q where q: "q \<in> set records" "record_txid q = record_txid rc" by force
    then have "cr_expected_txid_hex q = cr_expected_txid_hex rc" using Cons.prems(2)[of q] Cons.prems(2)[OF that] by simp
    with IH q True show ?thesis by (auto simp: current)
  next
    case False
    with that have "rc = r" by auto
    with False id show ?thesis by (simp add: current)
  qed
  then show ?case by blast
qed simp

section \<open>The changes\<close>

text \<open>What a record asks for, and what the collected changes hold.\<close>

definition outdated :: "(string \<rightharpoonup> inclusion) \<Rightarrow> stage_chain_record \<Rightarrow> inclusion \<Rightarrow> bool" where
  "outdated current rc identity \<longleftrightarrow> current (record_txid rc) = Some identity
     \<and> \<not> (cr_status rc = Confirmed \<and> stored_matches rc identity)"

definition changes_hold :: "(string \<rightharpoonup> inclusion) \<Rightarrow> stage_chain_record list \<Rightarrow> chain_changes \<Rightarrow> bool" where
  "changes_hold current records changes \<longleftrightarrow>
     (\<forall>t identity. cc_identities changes t = Some identity \<longrightarrow> current t = Some identity \<and> t \<in> record_txid ` set records)
     \<and> (\<forall>rc \<in> set records. \<forall>identity. outdated current rc identity \<longrightarrow> cc_identities changes (record_txid rc) = Some identity)
     \<and> (\<forall>t \<in> cc_invalid changes. current t = None \<and> t \<in> record_txid ` set records)
     \<and> (\<forall>rc \<in> set records. cr_status rc = Confirmed \<and> current (record_txid rc) = None
          \<longrightarrow> record_txid rc \<in> cc_invalid changes)"

lemma classify_step:
  "cc_identities (classify_record current changes rc) t
    = (if t = record_txid rc \<and> (\<exists>identity. outdated current rc identity) then current t else cc_identities changes t)"
  "cc_invalid (classify_record current changes rc)
    = (if cr_status rc = Confirmed \<and> current (record_txid rc) = None then insert (record_txid rc) (cc_invalid changes)
       else cc_invalid changes)"
  by (cases "cr_status rc"; cases "current (record_txid rc)"; simp add: classify_record_def Let_def outdated_def)+

lemma classify_holds:
  assumes "changes_hold current seen changes"
  shows "changes_hold current (seen @ [rc]) (classify_record current changes rc)"
proof -
  let ?new = "classify_record current changes rc"
  have identities: "current t = Some identity \<and> t \<in> record_txid ` set (seen @ [rc])" if new: "cc_identities ?new t = Some identity" for t identity
  proof (cases "t = record_txid rc \<and> (\<exists>identity. outdated current rc identity)")
    case True
    with new show ?thesis by (auto simp: classify_step(1))
  next
    case False
    with new have "cc_identities changes t = Some identity" by (simp only: classify_step(1) if_False)
    then have "current t = Some identity \<and> t \<in> record_txid ` set seen" using assms unfolding changes_hold_def by blast
    then show ?thesis by simp
  qed
  have outdated: "cc_identities ?new (record_txid q) = Some identity" if "q \<in> set (seen @ [rc])" "outdated current q identity" for q identity
  proof (cases "record_txid q = record_txid rc \<and> (\<exists>identity. outdated current rc identity)")
    case True
    have "current (record_txid q) = Some identity" using that(2) by (simp add: outdated_def)
    moreover have "cc_identities ?new (record_txid q) = current (record_txid q)"
      unfolding classify_step(1) by (rule if_P[OF True])
    ultimately show ?thesis by simp
  next
    case False
    then have "q \<noteq> rc" using that(2) by blast
    with that(1) have "q \<in> set seen" by simp
    with that(2) assms have "cc_identities changes (record_txid q) = Some identity" unfolding changes_hold_def by blast
    with False show ?thesis by (simp only: classify_step(1) if_False)
  qed
  have invalid: "current t = None \<and> t \<in> record_txid ` set (seen @ [rc])" if "t \<in> cc_invalid ?new" for t
  proof (cases "t \<in> cc_invalid changes")
    case True
    with assms show ?thesis unfolding changes_hold_def by auto
  next
    case False
    with that show ?thesis by (simp add: classify_step(2) split: if_splits)
  qed
  have gone: "record_txid q \<in> cc_invalid ?new"
    if "q \<in> set (seen @ [rc])" "cr_status q = Confirmed \<and> current (record_txid q) = None" for q
  proof (cases "q = rc")
    case True
    with that show ?thesis by (simp add: classify_step(2))
  next
    case False
    with that(1) have "q \<in> set seen" by simp
    with that(2) assms have "record_txid q \<in> cc_invalid changes" unfolding changes_hold_def by blast
    then show ?thesis by (simp add: classify_step(2))
  qed
  show ?thesis unfolding changes_hold_def using identities outdated invalid gone by blast
qed

lemma classify_all:
  "changes_hold current seen changes
    \<Longrightarrow> changes_hold current (seen @ records) (foldl (classify_record current) changes records)"
proof (induction records arbitrary: seen changes)
  case (Cons rc records)
  from Cons.IH[OF classify_holds[OF Cons.prems]] show ?case by simp
qed simp

lemma propagate_step:
  "cc_identities (propagate_record current changes rc) = cc_identities changes"
  "cc_invalid (propagate_record current changes rc) \<subseteq> insert (record_txid rc) (cc_invalid changes)"
  "cc_invalid changes \<subseteq> cc_invalid (propagate_record current changes rc)"
  "t \<in> cc_invalid (propagate_record current changes rc) \<Longrightarrow> t \<in> cc_invalid changes \<or> current t = None"
  by (auto simp: propagate_record_def split: if_splits)

lemma propagate_holds:
  assumes "changes_hold current records changes" and "rc \<in> set records"
  shows "changes_hold current records (propagate_record current changes rc)"
  unfolding changes_hold_def propagate_step(1)
proof (intro conjI)
  show "\<forall>t \<in> cc_invalid (propagate_record current changes rc). current t = None \<and> t \<in> record_txid ` set records"
  proof
    fix t assume t: "t \<in> cc_invalid (propagate_record current changes rc)"
    have "t \<in> insert (record_txid rc) (cc_invalid changes)" using propagate_step(2) t by blast
    with propagate_step(4)[OF t] assms show "current t = None \<and> t \<in> record_txid ` set records"
      by (auto simp: changes_hold_def)
  qed
  show "\<forall>rc' \<in> set records. cr_status rc' = Confirmed \<and> current (record_txid rc') = None
      \<longrightarrow> record_txid rc' \<in> cc_invalid (propagate_record current changes rc)"
    using assms(1) propagate_step(3)[of changes current rc] by (auto simp: changes_hold_def)
qed (use assms(1)[unfolded changes_hold_def] in blast)+

lemma propagate_pass_holds:
  "set rows \<subseteq> set records \<Longrightarrow> changes_hold current records changes
    \<Longrightarrow> changes_hold current records (propagate_pass current rows changes)"
  unfolding propagate_pass_def
  by (induction rows arbitrary: changes) (simp_all add: propagate_holds)

lemma propagate_changes_holds:
  "changes_hold current records changes \<Longrightarrow> changes_hold current records (propagate_changes current records changes)"
proof (induction current records changes rule: propagate_changes.induct)
  case (1 current records changes)
  have pass: "changes_hold current records (propagate_pass current records changes)"
    using propagate_pass_holds[OF _ "1.prems"] by simp
  show ?case
    by (subst propagate_changes.simps) (use pass "1.IH" in \<open>simp add: Let_def\<close>)
qed

lemma changes_on_chain_hold: "changes_hold current records (changes_on_chain current records)"
  unfolding changes_on_chain_def
  by (rule propagate_changes_holds, rule classify_all[where seen = "[]", simplified]) (simp add: changes_hold_def)

section \<open>Recording the changes\<close>

definition in_line :: "wallet_view \<Rightarrow> string \<Rightarrow> 't stage_db \<Rightarrow> bool" where
  "in_line wv run_id db \<longleftrightarrow> (\<forall>t p h b. phases db (run_id, t) = Some p
     \<longrightarrow> (p = Included h b \<longleftrightarrow> local_denomination_chain_identity wv t = Inr (Some (h, b))))"

text \<open>The phases after the resets and the inclusions of a set of changes.\<close>

definition changed_phases :: "string \<Rightarrow> chain_changes \<Rightarrow> (stage_id \<rightharpoonup> stage_phase) \<Rightarrow> (stage_id \<rightharpoonup> stage_phase)" where
  "changed_phases run_id changes ph = (\<lambda>k.
     if fst k \<noteq> run_id then ph k
     else if snd k \<in> cc_invalid changes then Some Waiting
     else case cc_identities changes (snd k) of Some (h, b) \<Rightarrow> Some (Included h b) | None \<Rightarrow> ph k)"

lemma recorded_phases:
  assumes ok: "stages_ok (db_stages db)" and known: "\<forall>t \<in> cc_invalid changes \<union> dom (cc_identities changes). phases (db_stages db) (run_id, t) \<noteq> None"
    and finite: "finite (cc_invalid changes)" "finite (dom (cc_identities changes))"
    and lengths: "\<And>t h b. cc_identities changes t = Some (h, b) \<Longrightarrow> length b = 32"
    and live: "run_phase run_id db = Inr phase" "\<not> migration_phase_releases_wallet_locks phase"
    and run: "record_stage_changes run_id changes db = (Inr result, db')"
  shows "result \<noteq> None \<and> stages_ok (db_stages db')
    \<and> phases (db_stages db') = changed_phases run_id changes (phases (db_stages db)) \<and> db_runs db' = db_runs db"
proof -
  let ?ids = "map (\<lambda>txid. (txid, the (cc_identities changes txid))) (sorted_list_of_set (dom (cc_identities changes) - cc_invalid changes))"
  have phase: "run_column ''Read migration phase before chain-state reconciliation: {e}'' mr_phase run_id db = Inr phase"
    using live(1) by (cases "find_run db run_id") (simp_all add: run_phase_def run_column_def)
  obtain s1 where resets: "st_each (reset_denomination_stage_exact run_id) (sorted_list_of_set (cc_invalid changes)) (db_stages db) = (Inr (), s1)"
    and s1: "stages_ok s1" "phases s1 = (\<lambda>k. if fst k = run_id \<and> snd k \<in> cc_invalid changes then Some Waiting else phases (db_stages db) k)"
    using stages.reset_each[OF ok, of "sorted_list_of_set (cc_invalid changes)" run_id] known finite by auto
  have "\<forall>(t, h, b) \<in> set ?ids. phases s1 (run_id, t) \<noteq> None \<and> length b = 32"
    using known lengths finite by (auto simp: s1(2))
  moreover have "distinct (map fst ?ids)" by (simp add: comp_def)
  ultimately obtain s2 where incls: "st_each (\<lambda>(t, h, b). replace_denomination_stage_confirmation_identity run_id t h b) ?ids s1 = (Inr (), s2)"
    and s2: "stages_ok s2" "phases s2 = (\<lambda>k. case (if fst k = run_id then map_of ?ids (snd k) else None) of
          Some (h, b) \<Rightarrow> Some (Included h b) | None \<Rightarrow> phases s1 k)"
    using stages.incl_each[OF s1(1), of ?ids run_id] by blast
  have ids: "map_of ?ids t = (if t \<in> cc_invalid changes then None else cc_identities changes t)" for t
    using finite by (cases "cc_identities changes t") (auto simp: map_of_map_restrict restrict_map_def)
  have "phases s2 = changed_phases run_id changes (phases (db_stages db))"
    by (rule ext) (auto simp: s2(2) ids s1(2) changed_phases_def split: option.splits)
  moreover have "result \<noteq> None \<and> db' = db\<lparr>db_stages := s2\<rparr>"
  proof -
    let ?resets = "st_each (reset_denomination_stage_exact run_id) (sorted_list_of_set (cc_invalid changes))"
    let ?incls = "st_each (\<lambda>(txid, mined_height, block_hash).
      replace_denomination_stage_confirmation_identity run_id txid mined_height block_hash) ?ids"
    obtain recovered where recovered: "res_map (\<lambda>txid. still_pending run_id txid db) (sorted_list_of_set (cc_recovered changes)) = Inr recovered"
      using run unfolding record_stage_changes_def st_bind_values(1) phase
      by (cases "res_map (\<lambda>txid. still_pending run_id txid db) (sorted_list_of_set (cc_recovered changes))")
        (simp_all add: live(2) st_bind_values(1))
    have first: "on_stages ?resets db = (Inr (), db\<lparr>db_stages := s1\<rparr>)" by (simp only: on_stages_def resets prod.case)
    have second: "on_stages ?incls (db\<lparr>db_stages := s1\<rparr>) = (Inr (), db\<lparr>db_stages := s2\<rparr>)"
    proof -
      have "db_stages (db\<lparr>db_stages := s1\<rparr>) = s1" by simp
      then show ?thesis by (simp only: on_stages_def incls prod.case) simp
    qed
    have "record_stage_changes run_id changes db = (Inr (Some (\<exists>b \<in> set recovered. b)), db\<lparr>db_stages := s2\<rparr>)"
      unfolding record_stage_changes_def st_bind_values(1) phase sum.case
      by (simp only: live(2) if_False st_bind_values(1) recovered sum.case st_bind_eq(1)[where m = "on_stages ?resets", OF first]
          st_bind_eq(1)[where m = "on_stages ?incls", OF second] st_simps)
    with run show ?thesis by auto
  qed
  ultimately show ?thesis using s2(1) by simp
qed

section \<open>In line with the chain\<close>

lemma known_record:
  assumes ok: "stages_ok db" and records: "denomination_stage_chain_records db run_id = Inr records"
    and "phases db (run_id, t) = Some p"
  obtains rc where "rc \<in> set records" and "record_txid rc = t" and "cr_expected_txid_hex rc = t" and "shows_phase rc p"
proof -
  obtain row where found: "find_stage db run_id t = Some row" using assms(3) by (auto simp: phases_def)
  with ok have "row \<in> set (run_rows db run_id)" "row_expected_txid_hex row = t"
    using find_stage_unique[of db run_id t row] by (auto simp: stages_ok_def run_rows_def)
  with records_shown(1)[OF records] obtain rc where rc: "rc \<in> set records" "cr_expected_txid_hex rc = t" by (auto simp: shown_def)
  with record_phase[OF ok records rc(1)] assms(3) that show thesis by auto
qed

lemma changes_known:
  assumes ok: "stages_ok db" and records: "denomination_stage_chain_records db run_id = Inr records"
    and hold: "changes_hold current records changes"
  shows "\<forall>t \<in> cc_invalid changes \<union> dom (cc_identities changes). phases db (run_id, t) \<noteq> None"
    and "finite (cc_invalid changes)" and "finite (dom (cc_identities changes))"
proof -
  have sub: "cc_invalid changes \<union> dom (cc_identities changes) \<subseteq> record_txid ` set records"
    using hold unfolding changes_hold_def by auto
  have fin: "finite (record_txid ` set records)" by simp
  from sub have parts: "cc_invalid changes \<subseteq> record_txid ` set records" "dom (cc_identities changes) \<subseteq> record_txid ` set records"
    by (simp_all only: Un_subset_iff)
  show "finite (cc_invalid changes)" "finite (dom (cc_identities changes))"
    by (rule finite_subset[OF parts(1) fin], rule finite_subset[OF parts(2) fin])
  show "\<forall>t \<in> cc_invalid changes \<union> dom (cc_identities changes). phases db (run_id, t) \<noteq> None"
  proof
    fix t assume "t \<in> cc_invalid changes \<union> dom (cc_identities changes)"
    with sub obtain rc where "rc \<in> set records" "t = record_txid rc" by blast
    with record_phase(1)[OF ok records] show "phases db (run_id, t) \<noteq> None" by auto
  qed
qed

lemma changed_in_line:
  assumes ok: "stages_ok db" and records: "denomination_stage_chain_records db run_id = Inr records"
    and current: "current_identities wv records = Inr current" and hold: "changes_hold current records changes"
    and ph: "phases db' = changed_phases run_id changes (phases db)"
  shows "in_line wv run_id db'"
  unfolding in_line_def
proof (intro allI impI)
  fix t p h b
  assume p: "phases db' (run_id, t) = Some p"
  have "phases db (run_id, t) \<noteq> None"
  proof
    assume none: "phases db (run_id, t) = None"
    with changes_known(1)[OF ok records hold] have "t \<notin> cc_invalid changes \<union> dom (cc_identities changes)" by blast
    then have "t \<notin> cc_invalid changes" "cc_identities changes t = None" by auto
    with p none show False by (simp add: ph changed_phases_def)
  qed
  then obtain p0 where p0: "phases db (run_id, t) = Some p0" by blast
  obtain rc where rc: "rc \<in> set records" "record_txid rc = t" "cr_expected_txid_hex rc = t" "shows_phase rc p0"
    using known_record[OF ok records p0] .
  have id: "local_denomination_chain_identity wv t = Inr (current t)"
    using current_identities_spec[OF current record_phase(2)[OF ok records]] rc by auto
  show "p = Included h b \<longleftrightarrow> local_denomination_chain_identity wv t = Inr (Some (h, b))"
  proof (cases "current t")
    case None
    have "cc_identities changes t = None" using hold None unfolding changes_hold_def by (metis not_Some_eq)
    with p p0 have "p = (if t \<in> cc_invalid changes then Waiting else p0)" by (simp add: ph changed_phases_def split: if_splits)
    moreover have "cr_status rc = Confirmed \<Longrightarrow> t \<in> cc_invalid changes" using hold None rc unfolding changes_hold_def by blast
    ultimately have "p \<noteq> Included h b" using rc(4) by (auto simp: shows_phase_def split: if_splits)
    with None id show ?thesis by simp
  next
    case (Some identity)
    obtain h0 b0 where identity: "identity = (h0, b0)" by (cases identity)
    have valid: "t \<notin> cc_invalid changes" using hold Some unfolding changes_hold_def by auto
    have same: "cc_identities changes t = Some identity \<or> cc_identities changes t = None"
      using hold Some unfolding changes_hold_def by (metis not_Some_eq option.inject)
    have "p = Included h0 b0"
    proof (cases "cc_identities changes t")
      case None
      then have "\<not> outdated current rc identity" using hold rc(1,2) unfolding changes_hold_def by force
      then have "cr_status rc = Confirmed" "stored_matches rc identity" using Some rc(2) by (auto simp: outdated_def)
      then have "p0 = Included h0 b0" using rc(4) by (cases p0) (auto simp: shows_phase_def stored_matches_def identity)
      with p p0 valid None show ?thesis by (simp add: ph changed_phases_def)
    next
      case (Some i)
      with same p valid show ?thesis by (auto simp: ph changed_phases_def identity)
    qed
    with Some id identity show ?thesis by auto
  qed
qed

text \<open>Stages that are in line ask for no change.\<close>

definition no_changes :: chain_changes where
  "no_changes = \<lparr>cc_affected = {}, cc_invalid = {}, cc_identities = Map.empty, cc_recovered = {}\<rparr>"

lemma in_line_unchanged:
  assumes ok: "stages_ok db" and records: "denomination_stage_chain_records db run_id = Inr records"
    and current: "current_identities wv records = Inr current" and line: "in_line wv run_id db"
  shows "changes_on_chain current records = no_changes"
proof -
  have still: "classify_record current no_changes rc = no_changes" if rc: "rc \<in> set records" for rc
  proof -
    obtain p where p: "phases db (run_id, record_txid rc) = Some p" "shows_phase rc p"
      using record_phase(1)[OF ok records rc] by blast
    have txid: "record_txid rc = cr_expected_txid_hex rc" by (rule record_phase(2)[OF ok records rc])
    have id: "local_denomination_chain_identity wv (record_txid rc) = Inr (current (record_txid rc))"
      using current_identities_spec[OF current record_phase(2)[OF ok records]] rc txid by auto
    have agree: "p = Included h b \<longleftrightarrow> current (record_txid rc) = Some (h, b)" for h b
      using line p(1) id unfolding in_line_def by simp
    show ?thesis
    proof (cases p)
      case (Included h b)
      then have "current (record_txid rc) = Some (h, b)" using agree by blast
      with Included p(2) show ?thesis
        by (simp add: classify_record_def Let_def shows_phase_def stored_matches_def)
    qed (use agree p(2) in \<open>cases "current (record_txid rc)"; auto simp: classify_record_def Let_def shows_phase_def
        split: denomination_stage_status.splits\<close>)+
  qed
  have "foldl (classify_record current) no_changes rcs = no_changes" if "set rcs \<subseteq> set records" for rcs
    using that still by (induction rcs) auto
  moreover have pass: "propagate_pass current rcs no_changes = no_changes" for rcs
    by (induction rcs) (simp_all add: propagate_pass_def propagate_record_def no_changes_def)
  ultimately show ?thesis
    unfolding changes_on_chain_def no_changes_def[symmetric]
    by (subst propagate_changes.simps) simp
qed

section \<open>What the chain displaces\<close>

text \<open>
  The stages that the chain displaces: those whose recorded inclusion is not the wallet's, and, along
  the inputs, those that spend an output of a displaced stage.
\<close>

definition spends :: "'t stage_db \<Rightarrow> string \<Rightarrow> string \<Rightarrow> string \<Rightarrow> bool" where
  "spends db run_id txid parent \<longleftrightarrow> (\<exists>row. find_stage db run_id txid = Some row
     \<and> (\<exists>i \<in> set (stage_inputs db run_id (row_stage_index row)). to_ascii_lowercase (sir_txid_hex i) = parent))"

inductive displaced :: "wallet_view \<Rightarrow> string \<Rightarrow> 't stage_db \<Rightarrow> string \<Rightarrow> bool" for wv run_id db where
  moved: "phases db (run_id, txid) = Some (Included h b)
    \<Longrightarrow> local_denomination_chain_identity wv txid \<noteq> Inr (Some (h, b)) \<Longrightarrow> displaced wv run_id db txid"
| descends: "displaced wv run_id db parent \<Longrightarrow> spends db run_id txid parent \<Longrightarrow> displaced wv run_id db txid"

definition settled_phase :: "wallet_view \<Rightarrow> string \<Rightarrow> 't stage_db \<Rightarrow> string \<Rightarrow> stage_phase \<Rightarrow> stage_phase" where
  "settled_phase wv run_id db txid p =
     (case local_denomination_chain_identity wv txid of
        Inr (Some (h, b)) \<Rightarrow> Included h b
      | _ \<Rightarrow> if displaced wv run_id db txid then Waiting else p)"

text \<open>The same on the records, and the changes that are collected from them.\<close>

definition misplaced :: "(string \<rightharpoonup> inclusion) \<Rightarrow> stage_chain_record \<Rightarrow> bool" where
  "misplaced current rc \<longleftrightarrow> cr_status rc = Confirmed
     \<and> (\<forall>identity. current (record_txid rc) = Some identity \<longrightarrow> \<not> stored_matches rc identity)"

inductive affected_by :: "(string \<rightharpoonup> inclusion) \<Rightarrow> stage_chain_record list \<Rightarrow> string \<Rightarrow> bool" for current records where
  misplaced: "rc \<in> set records \<Longrightarrow> misplaced current rc \<Longrightarrow> affected_by current records (record_txid rc)"
| child: "affected_by current records parent \<Longrightarrow> rc \<in> set records \<Longrightarrow> parent \<in> set (cr_parent_txids rc)
    \<Longrightarrow> affected_by current records (record_txid rc)"

text \<open>Changes that hold so far: nothing but affected stages, all misplaced records seen, invalid those off the chain.\<close>

definition affected_so_far ::
    "(string \<rightharpoonup> inclusion) \<Rightarrow> stage_chain_record list \<Rightarrow> stage_chain_record list \<Rightarrow> chain_changes \<Rightarrow> bool" where
  "affected_so_far current records seen changes \<longleftrightarrow>
     (\<forall>t \<in> cc_affected changes. affected_by current records t)
     \<and> (\<forall>rc \<in> set seen. misplaced current rc \<longrightarrow> record_txid rc \<in> cc_affected changes)
     \<and> cc_invalid changes = {t \<in> cc_affected changes. current t = None}"

lemma classify_affected:
  "cc_affected (classify_record current changes rc)
    = (if misplaced current rc then insert (record_txid rc) (cc_affected changes) else cc_affected changes)"
  by (cases "cr_status rc"; cases "current (record_txid rc)"; simp add: classify_record_def Let_def misplaced_def)

lemma classify_so_far:
  assumes "affected_so_far current records seen changes" and "rc \<in> set records"
  shows "affected_so_far current records (seen @ [rc]) (classify_record current changes rc)"
proof -
  have "affected_by current records (record_txid rc)" if "misplaced current rc"
    using assms(2) that by (rule affected_by.misplaced)
  moreover have "misplaced current rc" if "cr_status rc = Confirmed" "current (record_txid rc) = None"
    using that by (simp add: misplaced_def)
  ultimately show ?thesis
    using assms(1) unfolding affected_so_far_def classify_affected classify_step(2) by (auto simp: misplaced_def)
qed

lemma classify_all_so_far:
  "set rows \<subseteq> set records \<Longrightarrow> affected_so_far current records seen changes
    \<Longrightarrow> affected_so_far current records (seen @ rows) (foldl (classify_record current) changes rows)"
proof (induction rows arbitrary: seen changes)
  case (Cons rc rows)
  with Cons.IH[OF _ classify_so_far[of current records seen changes rc]] show ?case by simp
qed simp

lemma propagate_so_far:
  assumes "affected_so_far current records seen changes" and "rc \<in> set records"
  shows "affected_so_far current records seen (propagate_record current changes rc)"
  using assms affected_by.child[of current records _ rc]
  unfolding affected_so_far_def propagate_record_def by auto

lemma propagate_pass_so_far:
  "set rows \<subseteq> set records \<Longrightarrow> affected_so_far current records seen changes
    \<Longrightarrow> affected_so_far current records seen (propagate_pass current rows changes)"
  unfolding propagate_pass_def
  by (induction rows arbitrary: changes) (simp_all add: propagate_so_far)

lemma propagate_changes_so_far:
  "affected_so_far current records seen changes
    \<Longrightarrow> affected_so_far current records seen (propagate_changes current records changes)"
proof (induction current records changes rule: propagate_changes.induct)
  case (1 current records changes)
  have pass: "affected_so_far current records seen (propagate_pass current records changes)"
    using propagate_pass_so_far[OF _ "1.prems"] by simp
  show ?case
    by (subst propagate_changes.simps) (use pass "1.IH" in \<open>simp add: Let_def\<close>)
qed

text \<open>A pass that adds nothing has no child of an affected stage left to add.\<close>

lemma propagate_pass_closed:
  assumes "cc_affected (propagate_pass current rows changes) = cc_affected changes"
    and "rc \<in> set rows" and "parent \<in> set (cr_parent_txids rc)" and "parent \<in> cc_affected changes"
  shows "record_txid rc \<in> cc_affected changes"
  using assms
proof (induction rows arbitrary: changes)
  case (Cons row rows)
  let ?next = "propagate_record current changes row"
  have pass: "propagate_pass current (row # rows) changes = propagate_pass current rows ?next" by (simp add: propagate_pass_def)
  have same: "cc_affected ?next = cc_affected changes"
    using Cons.prems(1) propagate_pass_mono[of ?next current rows] propagate_record_affected(1)[of changes current row]
    unfolding pass by blast
  show ?case
  proof (cases "rc = row")
    case True
    with Cons.prems(3,4) have "record_txid rc \<in> cc_affected ?next" by (auto simp: propagate_record_def)
    then show ?thesis by (simp only: same)
  next
    case False
    with Cons.prems(2) have "rc \<in> set rows" by simp
    with Cons.IH[of ?next] Cons.prems(1,3,4) show ?thesis unfolding pass same by blast
  qed
qed simp

lemma propagate_changes_closed:
  assumes "finite (cc_affected changes)" and "rc \<in> set records" and "parent \<in> set (cr_parent_txids rc)"
    and "parent \<in> cc_affected (propagate_changes current records changes)"
  shows "record_txid rc \<in> cc_affected (propagate_changes current records changes)"
  using assms
proof (induction current records changes rule: propagate_changes.induct)
  case (1 current records changes)
  let ?after = "propagate_pass current records changes"
  have finite: "finite (cc_affected ?after)"
    by (rule finite_subset[OF propagate_pass_bound]) (simp add: "1.prems"(1))
  show ?case
  proof (cases "card (cc_affected ?after) = card (cc_affected changes)")
    case True
    then have same: "cc_affected ?after = cc_affected changes"
      using card_subset_eq[OF finite propagate_pass_mono] by simp
    have stop: "propagate_changes current records changes = ?after"
      by (subst propagate_changes.simps) (simp add: Let_def True)
    show ?thesis
      using propagate_pass_closed[OF same "1.prems"(2,3)] "1.prems"(4) unfolding stop same .
  next
    case False
    then have go: "propagate_changes current records changes = propagate_changes current records ?after"
      by (subst propagate_changes.simps) (simp add: Let_def)
    show ?thesis
      using "1.IH"[OF refl False finite "1.prems"(2,3)] "1.prems"(4) unfolding go .
  qed
qed

lemma changes_affected:
  "cc_affected (changes_on_chain current records) = {t. affected_by current records t}"
  "cc_invalid (changes_on_chain current records) = {t. affected_by current records t \<and> current t = None}"
proof -
  let ?start = "foldl (classify_record current)
       \<lparr>cc_affected = {}, cc_invalid = {}, cc_identities = Map.empty, cc_recovered = {}\<rparr> records"
  have start: "affected_so_far current records records ?start"
    by (rule classify_all_so_far[where seen = "[]", simplified]) (simp_all add: affected_so_far_def)
  then have sound: "affected_so_far current records records (changes_on_chain current records)"
    unfolding changes_on_chain_def by (rule propagate_changes_so_far)
  have sub: "cc_affected ?start \<subseteq> record_txid ` set records"
  proof -
    have "t \<in> record_txid ` set records" if "affected_by current records t" for t
      using that by cases simp_all
    with start show ?thesis unfolding affected_so_far_def by blast
  qed
  have "t \<in> cc_affected (changes_on_chain current records)" if "affected_by current records t" for t
    using that
  proof induction
    case (misplaced rc)
    with sound show ?case unfolding affected_so_far_def by blast
  next
    case (child parent rc)
    then show ?case
      using propagate_changes_closed[OF finite_subset[OF sub]] unfolding changes_on_chain_def by simp
  qed
  with sound show "cc_affected (changes_on_chain current records) = {t. affected_by current records t}"
    "cc_invalid (changes_on_chain current records) = {t. affected_by current records t \<and> current t = None}"
    unfolding affected_so_far_def by auto
qed

text \<open>The affected records are the displaced stages.\<close>

lemma records_parents:
  assumes ok: "stages_ok db" and records: "denomination_stage_chain_records db run_id = Inr records"
  shows "rc \<in> set records \<Longrightarrow> spends db run_id (record_txid rc) parent \<longleftrightarrow> parent \<in> set (cr_parent_txids rc)"
    and "spends db run_id t parent \<Longrightarrow> \<exists>rc \<in> set records. record_txid rc = t \<and> parent \<in> set (cr_parent_txids rc)"
proof -
  let ?parents = "\<lambda>row. map (\<lambda>i. to_ascii_lowercase (sir_txid_hex i)) (stage_inputs db run_id (row_stage_index row))"
  have rel: "list_all2 (\<lambda>row rc. cr_expected_txid_hex rc = row_expected_txid_hex row \<and> cr_parent_txids rc = ?parents row)
      (run_rows db run_id) records"
    using records unfolding denomination_stage_chain_records_def res_map_Inr_iff
    by (rule list_all2_mono) (auto simp: res_simps)
  have found: "find_stage db run_id (row_expected_txid_hex row) = Some row" if "row \<in> set (run_rows db run_id)" for row
    using that find_stage_unique[of db run_id] ok by (simp add: stages_ok_def run_rows_def)
  show one: "spends db run_id (record_txid rc) parent \<longleftrightarrow> parent \<in> set (cr_parent_txids rc)" if rc: "rc \<in> set records" for rc
  proof -
    obtain row where row: "row \<in> set (run_rows db run_id)" "cr_expected_txid_hex rc = row_expected_txid_hex row"
        "cr_parent_txids rc = ?parents row"
      using list_all2_members(2)[OF rel rc] by blast
    then show ?thesis
      using found[OF row(1)] record_phase(2)[OF ok records rc] by (auto simp: spends_def)
  qed
  assume spends: "spends db run_id t parent"
  then have "phases db (run_id, t) \<noteq> None" by (auto simp: spends_def phases_def)
  then obtain p where "phases db (run_id, t) = Some p" by blast
  from known_record[OF ok records this] obtain rc where "rc \<in> set records" "record_txid rc = t" by blast
  with one spends show "\<exists>rc \<in> set records. record_txid rc = t \<and> parent \<in> set (cr_parent_txids rc)" by blast
qed

lemma misplaced_iff:
  assumes ok: "stages_ok db" and records: "denomination_stage_chain_records db run_id = Inr records"
    and current: "current_identities wv records = Inr current" and rc: "rc \<in> set records"
  shows "misplaced current rc \<longleftrightarrow> (\<exists>h b. phases db (run_id, record_txid rc) = Some (Included h b)
    \<and> local_denomination_chain_identity wv (record_txid rc) \<noteq> Inr (Some (h, b)))"
proof -
  obtain p where p: "phases db (run_id, record_txid rc) = Some p" "shows_phase rc p"
    using record_phase(1)[OF ok records rc] by blast
  have id: "local_denomination_chain_identity wv (record_txid rc) = Inr (current (record_txid rc))"
    using current_identities_spec[OF current record_phase(2)[OF ok records]] rc record_phase(2)[OF ok records rc] by simp
  show ?thesis
    using p(2) by (cases p; cases "current (record_txid rc)")
      (auto simp: p(1) id misplaced_def shows_phase_def stored_matches_def)
qed

lemma affected_iff_displaced:
  assumes ok: "stages_ok db" and records: "denomination_stage_chain_records db run_id = Inr records"
    and current: "current_identities wv records = Inr current"
  shows "affected_by current records t \<longleftrightarrow> displaced wv run_id db t"
proof
  assume "affected_by current records t"
  then show "displaced wv run_id db t"
  proof induction
    case (misplaced rc)
    then show ?case using misplaced_iff[OF ok records current] displaced.moved by blast
  next
    case (child parent rc)
    then show ?case using records_parents(1)[OF ok records] displaced.descends by blast
  qed
next
  assume "displaced wv run_id db t"
  then show "affected_by current records t"
  proof induction
    case (moved t h b)
    obtain rc where "rc \<in> set records" "record_txid rc = t" using known_record[OF ok records moved(1)] by blast
    with moved misplaced_iff[OF ok records current] affected_by.misplaced show ?case by blast
  next
    case (descends parent t)
    then show ?case using records_parents(2)[OF ok records] affected_by.child by blast
  qed
qed

lemma changed_phases_settle:
  assumes ok: "stages_ok db" and records: "denomination_stage_chain_records db run_id = Inr records"
    and current: "current_identities wv records = Inr current"
  shows "changed_phases run_id (changes_on_chain current records) (phases db) (k, t)
    = (if k = run_id then map_option (settled_phase wv run_id db t) (phases db (k, t)) else phases db (k, t))"
proof (cases "k = run_id")
  case run: True
  let ?changes = "changes_on_chain current records"
  have hold: "changes_hold current records ?changes" by (rule changes_on_chain_hold)
  have invalid: "t \<in> cc_invalid ?changes \<longleftrightarrow> displaced wv run_id db t \<and> current t = None"
    by (simp add: changes_affected affected_iff_displaced[OF assms])
  show ?thesis
  proof (cases "phases db (run_id, t)")
    case None
    with changes_known(1)[OF ok records hold] have "t \<notin> cc_invalid ?changes \<union> dom (cc_identities ?changes)" by blast
    then have "t \<notin> cc_invalid ?changes" "cc_identities ?changes t = None" by auto
    with None run show ?thesis by (simp add: changed_phases_def)
  next
    case (Some p)
    obtain rc where rc: "rc \<in> set records" "record_txid rc = t" "cr_expected_txid_hex rc = t" "shows_phase rc p"
      using known_record[OF ok records Some] .
    have id: "local_denomination_chain_identity wv t = Inr (current t)"
      using current_identities_spec[OF current record_phase(2)[OF ok records]] rc by auto
    show ?thesis
    proof (cases "current t")
      case None
      have "cc_identities ?changes t = None" using hold None unfolding changes_hold_def by (metis not_Some_eq)
      with run Some None id invalid show ?thesis by (simp add: changed_phases_def settled_phase_def)
    next
      case found: (Some identity)
      obtain h b where identity: "identity = (h, b)" by (cases identity)
      have "cc_identities ?changes t = Some identity \<or> p = Included h b"
      proof (cases "outdated current rc identity")
        case True
        with hold rc(1,2) show ?thesis unfolding changes_hold_def by blast
      next
        case False
        with found rc(2) have "cr_status rc = Confirmed" "stored_matches rc identity" by (auto simp: outdated_def)
        with rc(4) show ?thesis by (cases p) (auto simp: shows_phase_def stored_matches_def identity)
      qed
      moreover have "cc_identities ?changes t = Some identity \<or> cc_identities ?changes t = None"
        using hold found unfolding changes_hold_def by (metis not_Some_eq option.inject)
      moreover have "t \<notin> cc_invalid ?changes" using invalid found by simp
      ultimately show ?thesis using run Some id found identity
        by (auto simp: changed_phases_def settled_phase_def)
    qed
  qed
qed (simp add: changed_phases_def)

section \<open>The operation\<close>

lemma catch_up_same_phases:
  assumes "rescheduled run_id ks h db db'" and "stages_ok db"
  shows "phases db' = phases db \<and> stages_ok db'"
proof -
  let ?g = "\<lambda>s. if unsubmitted run_id s \<and> row_stage_index s \<in> ks
      then s\<lparr>row_broadcast_not_before_height := Some (h (row_stage_index s))\<rparr> else s"
  have g: "row_run_id (?g s) = row_run_id s" "row_expected_txid_hex (?g s) = row_expected_txid_hex s"
      "row_phase (?g s) = row_phase s" "stage_row_checks (?g s) = stage_row_checks s"
      "stage_key (?g s) = stage_key s" "stage_txid (?g s) = stage_txid s" for s :: "'a stage_row"
    by (simp_all add: row_phase_def stage_row_checks_def stage_key_def stage_txid_def)
  have found: "map_option row_phase (find p (map ?g rows)) = map_option row_phase (find p rows)"
    if "\<And>s. p (?g s) = p s" for p and rows :: "'a stage_row list"
    using that g(3) by (induction rows) simp_all
  have db': "db' = db\<lparr>stage_rows := map ?g (stage_rows db)\<rparr>" using assms(1) by (simp only: rescheduled_def)
  have "phases db' = phases db"
  proof -
    have rows: "stage_rows db' = map ?g (stage_rows db)" by (simp add: db')
    show ?thesis unfolding phases_def find_stage_def rows by (rule ext, rule found) simp
  qed
  moreover have "map stage_key (map ?g (stage_rows db)) = map stage_key (stage_rows db)"
      "map stage_txid (map ?g (stage_rows db)) = map stage_txid (stage_rows db)"
    by (simp_all only: map_map comp_def g)
  moreover have "\<forall>s \<in> set (map ?g (stage_rows db)). stage_row_checks s"
  proof
    fix s assume "s \<in> set (map ?g (stage_rows db))"
    then obtain q where q: "q \<in> set (stage_rows db)" "s = ?g q" unfolding set_map by blast
    then have "stage_row_checks q" using assms(2) by (simp add: stages_ok_def store_ok_def)
    then show "stage_row_checks s" unfolding q(2) g(4) .
  qed
  moreover have "\<forall>s \<in> set (map ?g (stage_rows db)). canonical_txid (row_expected_txid_hex s)"
  proof
    fix s assume "s \<in> set (map ?g (stage_rows db))"
    then obtain q where q: "q \<in> set (stage_rows db)" "s = ?g q" unfolding set_map by blast
    then have "canonical_txid (row_expected_txid_hex q)" using assms(2) by (simp add: stages_ok_def ids_ok_def)
    then show "canonical_txid (row_expected_txid_hex s)" unfolding q(2) g(2) .
  qed
  ultimately show ?thesis
    using assms(2) unfolding db' stages_ok_def by (intro conjI store_ok_rows) (simp_all add: ids_ok_def del: map_map)
qed

lemma dr_bind_Inr:
  "dr_bind m f s r = Some ((Inr y, s'), r') \<longleftrightarrow>
    (\<exists>x t q. m s r = Some ((Inr x, t), q) \<and> f x t q = Some ((Inr y, s'), r'))"
  by (auto simp: dr_bind_def split: option.splits sum.splits)

lemma dr_store_Inr: "dr_store m s r = Some ((Inr x, s'), r') \<longleftrightarrow> m s = (Inr x, s') \<and> r' = r"
  by (auto simp: dr_store_def)

lemma dr_transaction_Inr: "dr_transaction m s r = Some ((Inr x, s'), r') \<longleftrightarrow> m s r = Some ((Inr x, s'), r')"
  by (auto simp: dr_transaction_def split: sum.splits)

lemma rerandomize_same_phases:
  assumes "rerandomize_for_run rng fp run_id network tip db r = Some ((Inr n, db'), r')" and ok: "stages_ok (db_stages db)"
  shows "phases (db_stages db') = phases (db_stages db) \<and> stages_ok (db_stages db')"
proof -
  obtain policy where "preparation_timing_policy_for_run_with_conn run_id db = Inr policy"
    using assms(1) by (auto simp: rerandomize_for_run_def dr_bind_Inr dr_store_Inr)
  show ?thesis
  proof (cases "db' = db")
    case False
    then obtain timing stages where
      run: "rerandomize_remaining_preparation_broadcast_heights rng fp policy timing run_id network tip (db_stages db) r
        = Some ((Inr n, stages), r')" and db': "db' = db\<lparr>db_stages := stages\<rparr>" and "policy \<noteq> Immediate"
      using assms(1) \<open>preparation_timing_policy_for_run_with_conn run_id db = Inr policy\<close>
      by (auto simp: rerandomize_for_run_def dr_bind_Inr dr_store_Inr split: if_splits)
    let ?rows = "map (\<lambda>s. (row_stage_index s, row_scheduled_height s, row_broadcast_not_before_height s)) (remaining_stages (db_stages db) run_id)"
    obtain delay where loop: "catch_up_loop delay run_id ?rows tip (db_stages db) r = Some ((Inr (), stages), r')"
      using run \<open>policy \<noteq> Immediate\<close>
      by (auto simp: rerandomize_remaining_preparation_broadcast_heights_def Let_def res_simps split: sum.splits Option.bind_splits)
    have "distinct (map fst ?rows)"
      using remaining_distinct[of "db_stages db" run_id] ok by (simp add: stages_ok_def comp_def)
    from catch_up_loop_spec[OF loop this] obtain ks h where "rescheduled run_id ks h (db_stages db) stages"
      by blast
    from catch_up_same_phases[OF this ok] show ?thesis by (simp add: db')
  qed (use ok in simp)
qed

text \<open>What the reset of the children and the marks leave alone.\<close>

definition live_stages :: "'t stage_db \<Rightarrow> string \<Rightarrow> 't migration_db \<Rightarrow> bool" where
  "live_stages stages run_id db \<longleftrightarrow> db_stages db = stages
     \<and> (\<exists>run. find_run db run_id = Some run \<and> \<not> migration_phase_releases_wallet_locks (mr_phase run))"

lemma live_stages_other [keeps_rules]:
  "keeps (live_stages stages run_id) (delete_pending p)" "keeps (live_stages stages run_id) (update_notes q f)"
  by (simp_all add: keeps_def live_stages_def delete_pending_def update_notes_def find_run_def)

lemma live_stages_runs:
  assumes "\<And>r. mr_run_id (f r) = mr_run_id r" and "\<And>r. \<not> migration_phase_releases_wallet_locks (mr_phase (f r))"
  shows "keeps (live_stages stages run_id) (update_runs p f)"
  unfolding keeps_def
proof (intro allI impI)
  fix db :: "'a migration_db"
  assume live: "live_stages stages run_id db"
  then obtain run where run: "find_run db run_id = Some run" "\<not> migration_phase_releases_wallet_locks (mr_phase run)"
    by (auto simp: live_stages_def)
  have "find_run (snd (update_runs p f db)) run_id = Some (if p run then f run else run)"
    using run(1) by (simp add: find_run_def update_runs_def find_updated_run[OF assms(1)])
  with run(2) assms(2) live show "live_stages stages run_id (snd (update_runs p f db))"
    by (simp add: live_stages_def update_runs_def)
qed

lemma live_stages_reset:
  "keeps (live_stages stages run_id) (reset_migration_children_for_reorged_denominations wv now run_id txids)"
proof -
  have children: "keeps (live_stages stages run_id) (reset_children_loop wv run_id rows st)" for rows st
    by (induction rows arbitrary: st) (auto intro!: keeps_rules)
  have outputs: "keeps (live_stages stages run_id) (reset_notes_loop run_id txid included outs b)" for txid included outs b
    by (induction outs arbitrary: b) (auto intro!: keeps_rules simp: reset_note_def)
  have loop: "keeps (live_stages stages run_id) (reset_denominations_loop wv run_id ts b)" for ts b
    by (induction ts arbitrary: b) (auto intro!: keeps_rules children outputs simp: Let_def)
  show ?thesis
    unfolding reset_migration_children_for_reorged_denominations_def wait_for_denominations_def
    by (intro keeps_rules loop live_stages_runs)
      (simp_all add: migration_phase_releases_wallet_locks_def phase_defs)
qed

lemma commit_changes:
  assumes ok: "stages_ok (db_stages db)" and records: "denomination_stage_chain_records (db_stages db) run_id = Inr records"
    and current: "current_identities wv records = Inr current" and hold: "changes_hold current records changes"
    and live: "live_stages (db_stages db) run_id db"
    and run: "commit_stage_changes rng fp run_id changes ctx db r = Some ((Inr ended, db'), r')"
  shows "\<not> ended \<and> phases (db_stages db') = changed_phases run_id changes (phases (db_stages db)) \<and> stages_ok (db_stages db')"
proof (cases "cc_invalid changes = {} \<and> dom (cc_identities changes) = {}")
  case True
  then have "phases (db_stages db) = changed_phases run_id changes (phases (db_stages db))"
    by (auto simp: changed_phases_def fun_eq_iff)
  with True run ok show ?thesis by (auto simp: commit_stage_changes_def dr_store_def)
next
  case False
  obtain phase where phase: "run_phase run_id db = Inr phase" "\<not> migration_phase_releases_wallet_locks phase"
    using live by (auto simp: live_stages_def run_phase_def run_column_def)
  have lengths: "length b = 32" if "cc_identities changes t = Some (h, b)" for t h b
  proof -
    obtain rc where rc: "rc \<in> set records" "t = record_txid rc" and "current t = Some (h, b)"
      using hold \<open>cc_identities changes t = Some (h, b)\<close> unfolding changes_hold_def by blast
    with current_identities_spec[OF current record_phase(2)[OF ok records]] show ?thesis
      using identity_length[of wv "cr_expected_txid_hex rc" h b] by auto
  qed
  obtain recorded d q where recorded: "record_stage_changes run_id changes db = (Inr recorded, d)"
    and rest: "(case (recorded, ctx) of
          (None, _) \<Rightarrow> dr_store (st_return True)
        | (Some True, Some (network, chain_tip_height)) \<Rightarrow>
            dr_bind (rerandomize_for_run rng fp run_id network chain_tip_height) (\<lambda>_. dr_store (st_return False))
        | _ \<Rightarrow> dr_store (st_return False)) d q = Some ((Inr ended, db'), r')"
    using run unfolding commit_stage_changes_def if_not_P[OF False] dr_transaction_Inr dr_bind_Inr dr_store_Inr by blast
  have d: "recorded \<noteq> None \<and> stages_ok (db_stages d)
      \<and> phases (db_stages d) = changed_phases run_id changes (phases (db_stages db)) \<and> db_runs d = db_runs db"
    by (rule recorded_phases[OF ok changes_known[OF ok records hold] _ phase recorded]) (rule lengths)
  have "\<not> ended \<and> phases (db_stages db') = phases (db_stages d) \<and> stages_ok (db_stages db')"
    using rest d rerandomize_same_phases[of rng fp run_id _ _ d q _ db' r']
    by (auto simp: dr_store_Inr dr_bind_Inr split: option.splits bool.splits)
  with d show ?thesis by simp
qed

lemma reconciled_stages:
  assumes ok: "stages_ok (db_stages db)" and live: "run_phase run_id db = Inr phase" "\<not> migration_phase_releases_wallet_locks phase"
    and run: "reconcile_denomination_stage_chain_state_with_rng rng fp wv now run_id tip db r = Some ((Inr (), db'), r')"
  shows "in_line wv run_id (db_stages db')" and "stages_ok (db_stages db')"
    and "phases (db_stages db') (k, txid) = (if k = run_id
      then map_option (settled_phase wv run_id (db_stages db) txid) (phases (db_stages db) (k, txid)) else phases (db_stages db) (k, txid))"
proof -
  obtain records where records: "denomination_stage_chain_records (db_stages db) run_id = Inr records"
    using run by (auto simp: reconcile_denomination_stage_chain_state_with_rng_def dr_bind_Inr dr_store_Inr)
  have "\<exists>current. current_identities wv records = Inr current \<and> stages_ok (db_stages db')
    \<and> phases (db_stages db') = changed_phases run_id (changes_on_chain current records) (phases (db_stages db))"
  proof (cases "records = []")
    case True
    have "changed_phases run_id (changes_on_chain Map.empty []) ph = ph" for ph
      unfolding changes_on_chain_def
      by (subst propagate_changes.simps) (simp add: propagate_pass_def changed_phases_def fun_eq_iff)
    moreover from True run records have "db' = db"
      by (auto simp: reconcile_denomination_stage_chain_state_with_rng_def dr_bind_Inr dr_store_Inr)
    ultimately show ?thesis using True ok by simp
  next
    case False
    from run records False obtain current ctx b d1 ended d2 r2 where current: "current_identities wv records = Inr current"
      and reset: "reset_migration_children_for_reorged_denominations wv now run_id (cc_affected (changes_on_chain current records)) db = (Inr b, d1)"
      and commit: "commit_stage_changes rng fp run_id (changes_on_chain current records) ctx d1 r = Some ((Inr ended, d2), r2)"
      and mark: "(if ended then dr_store (st_return ())
          else dr_store (mark_waiting_for_denominations now run_id (changes_on_chain current records))) d2 r2 = Some ((Inr (), db'), r')"
      by (simp add: reconcile_denomination_stage_chain_state_with_rng_def dr_bind_Inr dr_store_Inr Let_def) blast
    have "live_stages (db_stages db) run_id db"
      using live by (auto simp: live_stages_def run_phase_def run_column_def res_simps)
    with reset live_stages_reset have d1: "live_stages (db_stages db) run_id d1" unfolding keeps_def by (metis snd_conv)
    then have stages: "db_stages d1 = db_stages db" by (simp add: live_stages_def)
    have "phases (db_stages d2) = changed_phases run_id (changes_on_chain current records) (phases (db_stages db)) \<and> stages_ok (db_stages d2)"
      using commit_changes[of d1, unfolded stages, OF ok records current changes_on_chain_hold d1 commit] by blast
    moreover have "db_stages db' = db_stages d2"
      using mark by (auto simp: mark_waiting_for_denominations_def move_run_def update_runs_def st_bind_def dr_store_Inr split: if_splits)
    ultimately show ?thesis using current by simp
  qed
  then obtain current where current: "current_identities wv records = Inr current" and ok': "stages_ok (db_stages db')"
    and ph: "phases (db_stages db') = changed_phases run_id (changes_on_chain current records) (phases (db_stages db))" by blast
  show "in_line wv run_id (db_stages db')" by (rule changed_in_line[OF ok records current changes_on_chain_hold ph])
  show "stages_ok (db_stages db')" by (rule ok')
  show "phases (db_stages db') (k, txid) = (if k = run_id
      then map_option (settled_phase wv run_id (db_stages db) txid) (phases (db_stages db) (k, txid)) else phases (db_stages db) (k, txid))"
    unfolding ph by (rule changed_phases_settle[OF ok records current])
qed

lemma in_line_settles:
  assumes ok: "stages_ok (db_stages db)" and line: "in_line wv run_id (db_stages db)"
  shows "\<exists>result. reconcile_denomination_stage_chain_state_with_rng rng fp wv now run_id tip db r = Some ((result, db), r)"
proof (cases "denomination_stage_chain_records (db_stages db) run_id")
  case (Inl e)
  then show ?thesis by (simp add: reconcile_denomination_stage_chain_state_with_rng_def dr_bind_def dr_store_def)
next
  case (Inr records)
  show ?thesis
  proof (cases "current_identities wv records")
    case (Inl e)
    with Inr show ?thesis
      by (simp add: reconcile_denomination_stage_chain_state_with_rng_def dr_bind_def dr_store_def)
  next
    case current: (Inr current)
    note none = in_line_unchanged[OF ok Inr current line]
    show ?thesis
      using Inr current
      by (simp add: reconcile_denomination_stage_chain_state_with_rng_def dr_bind_def dr_store_def none no_changes_def
          recovery_context_def reset_migration_children_for_reorged_denominations_def commit_stage_changes_def
          mark_waiting_for_denominations_def Let_def)
  qed
qed

section \<open>Properties\<close>

text \<open>
  C6: When the reconciliation of a live run succeeds, the stages of the run agree with the wallet's
  chain, and it is determined what became of each. A stage is included at a height in a block exactly
  when the wallet has its transaction there, whatever state it was in. A stage is displaced when it was
  recorded in an inclusion the wallet does not have (it left the chain, or moved), or spends an output of
  a displaced stage, at any distance: a displaced stage whose transaction is not on the chain is prepared
  again. Every other stage that is not on the chain keeps its state, and so do the stages of other runs;
  the catch-up draws that may follow change no state.
\<close>

theorem stages_follow_the_chain:
  assumes "stages_ok (db_stages db)" and "run_phase run_id db = Inr phase" and "\<not> migration_phase_releases_wallet_locks phase"
    and "reconcile_denomination_stage_chain_state_with_rng rng fp wv now run_id tip db r = Some ((Inr (), db'), r')"
  shows "(\<forall>p h b. phases (db_stages db') (run_id, txid) = Some p
      \<longrightarrow> (p = Included h b \<longleftrightarrow> local_denomination_chain_identity wv txid = Inr (Some (h, b))))
    \<and> phases (db_stages db') (k, txid) = (if k = run_id
        then map_option (settled_phase wv run_id (db_stages db) txid) (phases (db_stages db) (k, txid))
        else phases (db_stages db) (k, txid))"
  using reconciled_stages[OF assms] unfolding in_line_def by blast

text \<open>
  C21: Reconciling again with the same chain changes nothing: after a reconciliation of a live run that
  succeeded, another one with the same view of the chain, at any later time and with any observed tip,
  returns, leaves every table as it is and draws no random number.
\<close>

theorem reconciliation_settles:
  assumes "stages_ok (db_stages db)" and "run_phase run_id db = Inr phase" and "\<not> migration_phase_releases_wallet_locks phase"
    and "reconcile_denomination_stage_chain_state_with_rng rng fp wv now run_id tip db r = Some ((Inr (), db'), r')"
  shows "\<exists>result. reconcile_denomination_stage_chain_state_with_rng rng fp wv later run_id tip' db' r' = Some ((result, db'), r')"
  using reconciled_stages(1,2)[OF assms] by (intro in_line_settles)

section \<open>A stage that moved, and its child\<close>

text \<open>
  The first stage of the run was confirmed in block 90; the wallet now has it in block 100. The second
  spends an output of it and is ready to be sent; the wallet does not have its transaction.
\<close>

definition child_txid :: string where
  "child_txid = replicate 64 CHR ''b''"

definition moved_stage :: "encrypted_payload stage_row" where
  "moved_stage = \<lparr>row_run_id = ''run'', row_stage_index = 0,
     row_encrypted_base_pczt = \<lparr>ep_version = 1, ep_nonce = [], ep_cipher_text = [], ep_mac = []\<rparr>,
     row_encrypted_compact_sigs = \<lparr>ep_version = 1, ep_nonce = [], ep_cipher_text = [], ep_mac = []\<rparr>,
     row_encrypted_raw_tx = None, row_expected_txid_hex = sample_txid, row_target_height = 80, row_scheduled_height = 85,
     row_broadcast_not_before_height = None, row_broadcast_attempted = 1, row_expiry_height = 200,
     row_fee_zatoshi = 80000, row_confirmed_mined_height = Some 90, row_confirmed_block_hash = Some (replicate 32 5),
     row_status = ''confirmed''\<rparr>"

definition child_stage :: "encrypted_payload stage_row" where
  "child_stage = moved_stage\<lparr>row_stage_index := 1, row_expected_txid_hex := child_txid,
     row_encrypted_raw_tx := Some \<lparr>ep_version = 1, ep_nonce = [], ep_cipher_text = [], ep_mac = []\<rparr>,
     row_confirmed_mined_height := None, row_confirmed_block_hash := None, row_status := ''pending''\<rparr>"

definition child_input :: input_row where
  "child_input = \<lparr>inr_run_id = ''run'', inr_stage_index = 1, inr_input_order = 0,
     inr_input = \<lparr>sir_txid_hex = sample_txid, sir_output_index = 0, sir_value_zatoshi = 420000, sir_note_version = 2,
                  sir_nullifier_hex = None\<rparr>\<rparr>"

definition moved_db :: "encrypted_payload migration_db" where
  "moved_db = (settle_db PHASE_READY_TO_MIGRATE [])\<lparr>db_notes := [],
     db_stages := \<lparr>stage_rows = [moved_stage, child_stage], input_rows = [child_input], output_rows = []\<rparr>\<rparr>"

definition moved_view :: wallet_view where
  "moved_view = settle_view\<lparr>wv_hex_decode := \<lambda>t. Inr (replicate 32 (if t = sample_txid then 1 else 2))\<rparr>"

lemmas moved_defs = moved_db_def moved_stage_def child_stage_def child_input_def

lemma child_txids:
  "valid_txid child_txid" "to_ascii_lowercase child_txid = child_txid" "child_txid \<noteq> sample_txid" "sample_txid \<noteq> child_txid"
  unfolding valid_txid_def child_txid_def sample_txid_def repeated_digit digits by (rule TrueI refl digits | simp)+

lemma moved_ok: "stages_ok (db_stages moved_db)"
  using sample_txids(1,2) child_txids
  by (simp add: stages_ok_def store_ok_def ids_ok_def moved_defs stage_row_checks_def canonical_txid_def stage_key_def stage_txid_def)

lemma moved_identity:
  "local_denomination_chain_identity moved_view sample_txid = Inr (Some (100, replicate 32 7))"
  "local_denomination_chain_identity moved_view child_txid = Inr None"
  using child_txids(3)
  by (simp_all add: local_denomination_chain_identity_def txid_blob_variants_def moved_view_def settle_view_def
      block_inclusion_def map_filter_simps)

lemma moved_phase: "run_phase ''run'' moved_db = Inr PHASE_READY_TO_MIGRATE"
  by (simp add: run_phase_def run_column_def find_run_def moved_db_def settle_defs)

lemma ready_is_live: "\<not> migration_phase_releases_wallet_locks PHASE_READY_TO_MIGRATE"
  by (simp add: migration_phase_releases_wallet_locks_def phase_defs)

definition moved_record :: stage_chain_record where
  "moved_record = \<lparr>cr_stage_index = 0, cr_expected_txid_hex = sample_txid, cr_status = Confirmed,
     cr_confirmed_mined_height = Some 90, cr_confirmed_block_hash = Some (replicate 32 5), cr_parent_txids = [], cr_outputs = []\<rparr>"

definition child_record :: stage_chain_record where
  "child_record = \<lparr>cr_stage_index = 1, cr_expected_txid_hex = child_txid, cr_status = Pending,
     cr_confirmed_mined_height = None, cr_confirmed_block_hash = None, cr_parent_txids = [sample_txid], cr_outputs = []\<rparr>"

lemma moved_record_txids: "record_txid moved_record = sample_txid" "record_txid child_record = child_txid"
  by (simp_all add: record_txid_def moved_record_def child_record_def sample_txids(2) child_txids(2))

lemma moved_records: "denomination_stage_chain_records (db_stages moved_db) ''run'' = Inr [moved_record, child_record]"
  by (simp add: denomination_stage_chain_records_def run_rows_def moved_defs status_parses
      stage_outputs_def stage_inputs_def moved_record_def child_record_def sample_txids(2))

definition moved_changes :: chain_changes where
  "moved_changes = \<lparr>cc_affected = {sample_txid, child_txid}, cc_invalid = {child_txid},
     cc_identities = [sample_txid \<mapsto> (100, replicate 32 7)], cc_recovered = {}\<rparr>"

lemma moved_changes:
  assumes "current sample_txid = Some (100, replicate 32 7)" and "current child_txid = None"
  shows "changes_on_chain current [moved_record, child_record] = moved_changes"
proof -
  let ?collected = "\<lparr>cc_affected = {sample_txid}, cc_invalid = {}, cc_identities = [sample_txid \<mapsto> (100, replicate 32 7)],
      cc_recovered = {}\<rparr>"
  have collect: "foldl (classify_record current) \<lparr>cc_affected = {}, cc_invalid = {}, cc_identities = Map.empty, cc_recovered = {}\<rparr>
      [moved_record, child_record] = ?collected"
    by (simp add: classify_record_def moved_record_txids assms)
      (simp add: moved_record_def child_record_def stored_matches_def assms)
  have pass: "propagate_pass current [moved_record, child_record] ?collected = moved_changes"
    "propagate_pass current [moved_record, child_record] moved_changes = moved_changes"
    by (simp_all add: propagate_pass_def propagate_record_def moved_record_txids assms(2))
      (simp_all add: moved_record_def child_record_def moved_changes_def insert_commute)
  have "propagate_changes current [moved_record, child_record] moved_changes = moved_changes"
    by (subst propagate_changes.simps) (simp add: pass Let_def)
  moreover have "card (cc_affected moved_changes) \<noteq> card (cc_affected ?collected)"
    using child_txids(4) by (simp add: moved_changes_def)
  ultimately show ?thesis
    unfolding changes_on_chain_def collect by (subst propagate_changes.simps) (simp add: pass Let_def)
qed

lemma moved_reset:
  "reset_migration_children_for_reorged_denominations moved_view 7 ''run'' txids moved_db = (Inr False, moved_db)"
proof -
  have none: "children_funded_by ''run'' txid moved_db = []" "outputs_of_denomination ''run'' txid moved_db = []" for txid
    by (simp_all add: children_funded_by_def pending_of_run_def outputs_of_denomination_def moved_db_def settle_defs)
  have "run_column label mr_phase ''run'' moved_db = Inr PHASE_READY_TO_MIGRATE" for label
    by (simp add: run_column_def find_run_def moved_db_def settle_defs)
  moreover have "reset_denominations_loop moved_view ''run'' ts False moved_db = (Inr False, moved_db)" for ts
    by (induction ts) (simp_all add: none st_bind_def Let_def)
  ultimately show ?thesis
    by (simp add: reset_migration_children_for_reorged_denominations_def savepoint_def st_bind_def ready_is_live)
qed

lemma moved_reconciles:
  "\<exists>db'. reconcile_denomination_stage_chain_state_with_rng half_source plain_arith moved_view 7 ''run'' (Inr 200) moved_db 0
    = Some ((Inr (), db'), 0)"
proof -
  obtain current where current: "current_identities moved_view [moved_record, child_record] = Inr current"
    and vals: "current sample_txid = Some (100, replicate 32 7)" "current child_txid = None"
    using child_txids(3,4)
    by (simp add: moved_record_txids) (simp add: moved_record_def child_record_def moved_identity)
  have known: "phases (db_stages moved_db) (''run'', sample_txid) \<noteq> None" "phases (db_stages moved_db) (''run'', child_txid) \<noteq> None"
    using child_txids(4) by (simp_all add: phases_def find_stage_def moved_defs)
  obtain s1 where reset: "reset_denomination_stage_exact ''run'' child_txid (db_stages moved_db) = (Inr (), s1)"
    and s1: "stages_ok s1" "phases s1 = (phases (db_stages moved_db))((''run'', child_txid) \<mapsto> Waiting)"
    using stages.reset_law[OF moved_ok known(2)] by blast
  have "phases s1 (''run'', sample_txid) \<noteq> None" using known(1) by (simp add: s1(2))
  then obtain s where incl: "replace_denomination_stage_confirmation_identity ''run'' sample_txid 100 (replicate 32 7) s1 = (Inr (), s)"
    using stages.incl_law[OF s1(1), of "''run''" sample_txid "replicate 32 7" 100] by auto
  have "dom [sample_txid \<mapsto> (100 :: nat, replicate 32 (7 :: byte))] - {child_txid} = {sample_txid}" using child_txids(4) by auto
  moreover have "run_column label mr_phase ''run'' moved_db = Inr PHASE_READY_TO_MIGRATE" for label
    by (simp add: run_column_def find_run_def moved_db_def settle_defs)
  ultimately have recorded: "record_stage_changes ''run'' moved_changes moved_db = (Inr (Some False), moved_db\<lparr>db_stages := s\<rparr>)"
    by (simp add: record_stage_changes_def st_bind_def ready_is_live on_stages_def incl reset moved_changes_def)
  show ?thesis
    unfolding reconcile_denomination_stage_chain_state_with_rng_def dr_bind_Inr dr_store_Inr
    by (simp add: moved_records current Let_def moved_changes[OF vals] recovery_context_def moved_reset dr_bind_def dr_store_def
        commit_stage_changes_def dr_transaction_def recorded mark_waiting_for_denominations_def move_run_def
        update_runs_def st_bind_def del: current_identities.simps) (simp add: moved_changes_def)
qed

theorem stages_follow_the_chain_witness:
  "\<exists>db'. reconcile_denomination_stage_chain_state_with_rng half_source plain_arith moved_view 7 ''run'' (Inr 200) moved_db 0
       = Some ((Inr (), db'), 0)
     \<and> phases (db_stages moved_db) (''run'', child_txid) = Some Ready
     \<and> phases (db_stages db') (''run'', child_txid) = Some Waiting
     \<and> phases (db_stages db') (''run'', sample_txid) = Some (Included 100 (replicate 32 7))"
proof -
  obtain db' where run: "reconcile_denomination_stage_chain_state_with_rng half_source plain_arith moved_view 7 ''run'' (Inr 200) moved_db 0
      = Some ((Inr (), db'), 0)" using moved_reconciles by blast
  have before: "phases (db_stages moved_db) (''run'', sample_txid) = Some (Included 90 (replicate 32 5))"
    "phases (db_stages moved_db) (''run'', child_txid) = Some Ready"
    using child_txids(3,4) by (simp_all add: phases_def find_stage_def moved_defs row_phase_def)
  have "displaced moved_view ''run'' (db_stages moved_db) sample_txid"
    by (rule displaced.moved[OF before(1)]) (simp add: moved_identity)
  moreover have "spends (db_stages moved_db) ''run'' child_txid sample_txid"
    using child_txids(3,4) sample_txids(2) by (simp add: spends_def find_stage_def moved_defs stage_inputs_def)
  ultimately have "displaced moved_view ''run'' (db_stages moved_db) child_txid" by (rule displaced.descends)
  then have "settled_phase moved_view ''run'' (db_stages moved_db) child_txid Ready = Waiting"
    by (simp add: settled_phase_def moved_identity)
  moreover have "settled_phase moved_view ''run'' (db_stages moved_db) sample_txid p = Included 100 (replicate 32 7)" for p
    by (simp add: settled_phase_def moved_identity)
  moreover have "phases (db_stages db') (''run'', t)
      = map_option (settled_phase moved_view ''run'' (db_stages moved_db) t) (phases (db_stages moved_db) (''run'', t))" for t
    using stages_follow_the_chain[OF moved_ok moved_phase ready_is_live run, of t "''run''"] by simp
  ultimately show ?thesis using run before by simp
qed

theorem reconciliation_settles_witness:
  "\<exists>db' result. reconcile_denomination_stage_chain_state_with_rng half_source plain_arith moved_view 7 ''run'' (Inr 200) moved_db 0
       = Some ((Inr (), db'), 0)
     \<and> reconcile_denomination_stage_chain_state_with_rng half_source plain_arith moved_view 9 ''run'' (Inr 201) db' 0
       = Some ((result, db'), 0)"
proof -
  obtain db' where run: "reconcile_denomination_stage_chain_state_with_rng half_source plain_arith moved_view 7 ''run'' (Inr 200) moved_db 0
      = Some ((Inr (), db'), 0)" using moved_reconciles by blast
  from reconciliation_settles[OF moved_ok moved_phase ready_is_live run] run show ?thesis by blast
qed

end
