(* ===== verification/Byte_Codec.thy ===== *)
theory Byte_Codec
  imports Compact_Sigs
begin

text \<open>
  Byte sequences shared by the wire formats of the hardware wallets: integers of a given width in
  both byte orders, Bitcoin's CompactSize, the chunks of a slice, and the contract of an encoding
  that is self-delimiting, which lists and records of such encodings inherit.
\<close>

section \<open>Integers\<close>

text \<open>\<open>to_le_bytes\<close>, \<open>to_be_bytes\<close> and \<open>from_be_bytes\<close> of an unsigned integer of \<open>k\<close> bytes.\<close>

fun le :: "nat \<Rightarrow> nat \<Rightarrow> byte list" where
  "le 0 n = []"
| "le (Suc k) n = word_of_nat n # le k (n div 256)"

definition be :: "nat \<Rightarrow> nat \<Rightarrow> byte list" where
  "be k n = rev (le k n)"

fun le_nat :: "byte list \<Rightarrow> nat" where
  "le_nat [] = 0"
| "le_nat (b # bs) = unat b + 256 * le_nat bs"

definition be_nat :: "byte list \<Rightarrow> nat" where
  "be_nat bs = le_nat (rev bs)"

lemma length_le [simp]: "length (le k n) = k"
  by (induction k arbitrary: n) simp_all

lemma length_be [simp]: "length (be k n) = k"
  by (simp add: be_def)

lemma le_numeral: "le (numeral k) n = word_of_nat n # le (pred_numeral k) (n div 256)"
  by (simp only: numeral_eq_Suc[of k] le.simps)

lemma le_nat_le: "n < 256 ^ k \<Longrightarrow> le_nat (le k n) = n"
proof (induction k arbitrary: n)
  case (Suc k)
  then have "n div 256 < 256 ^ k" by (simp add: less_mult_imp_div_less mult.commute)
  then show ?case using Suc.IH by (simp add: unat_byte_of_nat)
qed simp

lemma be_nat_be: "n < 256 ^ k \<Longrightarrow> be_nat (be k n) = n"
  by (simp add: be_nat_def be_def le_nat_le)

lemma le_inject: "n < 256 ^ k \<Longrightarrow> m < 256 ^ k \<Longrightarrow> le k n = le k m \<longleftrightarrow> n = m"
  by (metis le_nat_le)

lemma be_inject: "n < 256 ^ k \<Longrightarrow> m < 256 ^ k \<Longrightarrow> be k n = be k m \<longleftrightarrow> n = m"
  by (metis be_nat_be)

lemma low_byte: "word_of_nat (unat b + 256 * n) = (b :: byte)"
  using unat_byte_less[of b] by (simp only: word_unat_eq_iff unat_byte_of_nat) simp

lemma le_le: "le (length bs) (le_nat bs) = bs"
proof (induction bs)
  case (Cons b bs)
  then show ?case
    using unat_byte_less[of b] by (simp del: of_nat_add of_nat_mult of_nat_numeral add: low_byte)
qed simp

lemma be_be: "be (length bs) (be_nat bs) = bs"
  using le_le[of "rev bs"] by (simp add: be_def be_nat_def)

lemma le_nat_less: "le_nat bs < 256 ^ length bs"
proof (induction bs)
  case (Cons b bs)
  then have "le_nat bs + 1 \<le> 256 ^ length bs" by simp
  then have "256 * (le_nat bs + 1) \<le> 256 * 256 ^ length bs" by (rule mult_le_mono2)
  then show ?case using unat_byte_less[of b] by simp
qed simp

lemma be_nat_less: "be_nat bs < 256 ^ length bs"
  using le_nat_less[of "rev bs"] by (simp add: be_nat_def)

section \<open>Chunks of a slice\<close>

fun chunks :: "nat \<Rightarrow> 'a list \<Rightarrow> 'a list list" where
  "chunks n xs = (if n = 0 \<or> xs = [] then [] else take n xs # chunks n (drop n xs))"

declare chunks.simps [simp del]

lemma chunks_Nil [simp]: "chunks n [] = []"
  by (simp add: chunks.simps)

lemma chunks_step: "0 < n \<Longrightarrow> xs \<noteq> [] \<Longrightarrow> chunks n xs = take n xs # chunks n (drop n xs)"
  by (simp add: chunks.simps)

lemma concat_chunks [simp]: "0 < n \<Longrightarrow> concat (chunks n xs) = xs"
  by (induction n xs rule: chunks.induct) (subst chunks.simps, simp)

lemma chunk_length: "c \<in> set (chunks n xs) \<Longrightarrow> 0 < length c \<and> length c \<le> n"
proof (induction n xs rule: chunks.induct)
  case (1 n xs)
  from 1(2) show ?case by (subst (asm) chunks.simps) (use 1(1) in \<open>auto split: if_splits\<close>)
qed

lemma length_chunks_cong: "length xs = length ys \<Longrightarrow> length (chunks n xs) = length (chunks n ys)"
proof (induction n xs arbitrary: ys rule: chunks.induct)
  case (1 n xs)
  show ?case
  proof (cases "n = 0 \<or> xs = []")
    case True
    then show ?thesis using 1(2) by (auto simp: chunks.simps)
  next
    case False
    then have "ys \<noteq> []" using 1(2) by auto
    moreover have "length (chunks n (drop n xs)) = length (chunks n (drop n ys))"
      using False 1(2) by (intro 1(1)) auto
    ultimately show ?thesis using False by (simp add: chunks_step)
  qed
qed

lemma chunks_inject:
  assumes "0 < n" and "length xs = length ys" and "chunks n xs @ r = chunks n ys @ s"
  shows "xs = ys \<and> r = s"
proof -
  have "chunks n xs = chunks n ys \<and> r = s" using assms(3) length_chunks_cong[OF assms(2)] by simp
  then show ?thesis by (metis assms(1) concat_chunks)
qed

section \<open>Self-delimiting encodings\<close>

text \<open>
  The contract of a wire format: what follows the encoding of one item cannot be mistaken for a part
  of it. The elements of a stream are bytes, or the packets that carry them. A sequence of encodings,
  whose length is known, inherits the contract.
\<close>

locale self_delimiting =
  fixes encode :: "'a \<Rightarrow> 'e + 'b list" and typed :: "'a \<Rightarrow> bool"
  assumes unique: "\<lbrakk>encode x = Inr bs; encode y = Inr cs; typed x; typed y; bs @ r = cs @ s\<rbrakk> \<Longrightarrow> x = y \<and> r = s"
begin

lemma inject: "\<lbrakk>encode x = Inr bs; encode y = Inr bs; typed x; typed y\<rbrakk> \<Longrightarrow> x = y"
  using unique by blast

lemma unique_sequence:
  assumes "res_map encode xs = Inr bss" and "res_map encode ys = Inr css"
    and "\<forall>x \<in> set xs. typed x" and "\<forall>y \<in> set ys. typed y"
    and "length xs = length ys" and "concat bss @ r = concat css @ s"
  shows "xs = ys \<and> r = s"
  using assms
proof (induction xs arbitrary: ys bss css)
  case (Cons x xs)
  obtain y ys' where ys: "ys = y # ys'" using Cons.prems(5) by (cases ys) auto
  obtain bs bss' where x: "encode x = Inr bs" "res_map encode xs = Inr bss'" "bss = bs # bss'"
    using Cons.prems(1) by (auto simp: res_simps)
  obtain cs css' where y: "encode y = Inr cs" "res_map encode ys' = Inr css'" "css = cs # css'"
    using Cons.prems(2) unfolding ys by (auto simp: res_simps)
  have split: "bs @ (concat bss' @ r) = cs @ (concat css' @ s)" using Cons.prems(6) by (simp add: x(3) y(3))
  have "x = y \<and> concat bss' @ r = concat css' @ s"
    using Cons.prems(3,4) by (intro unique[OF x(1) y(1) _ _ split]) (simp_all add: ys)
  then show ?case using Cons.IH[OF x(2) y(2)] Cons.prems(3-5) by (simp add: ys)
qed simp

end

section \<open>CompactSize\<close>

definition compact_size :: "nat \<Rightarrow> byte list outcome" where
  "compact_size v =
     (if v < 253 then Inr [word_of_nat v]
      else if v \<le> 65535 then Inr (253 # le 2 v)
      else if v \<le> 4294967295 then Inr (254 # le 4 v)
      else if v < 2 ^ 64 then Inr (255 # le 8 v)
      else Inl (Msg ''Length exceeds CompactSize range''))"

definition in_usize :: "nat \<Rightarrow> bool" where
  "in_usize v \<longleftrightarrow> v < 2 ^ 64"

lemma compact_size_total: "in_usize v \<Longrightarrow> \<exists>bs. compact_size v = Inr bs \<and> bs \<noteq> [] \<and> length bs \<le> 9"
  by (simp add: compact_size_def in_usize_def)

text \<open>What the first byte says of the value.\<close>

lemma compact_size_cases:
  assumes "compact_size v = Inr bs"
  obtains (one) "v < 253" "bs = [word_of_nat v]" "unat (hd bs) = v"
    | (two) "253 \<le> v" "v < 256 ^ 2" "bs = 253 # le 2 v"
    | (four) "65535 < v" "v < 256 ^ 4" "bs = 254 # le 4 v"
    | (eight) "4294967295 < v" "v < 256 ^ 8" "bs = 255 # le 8 v"
  using assms by (auto simp: compact_size_def unat_byte_of_nat split: if_splits)

interpretation compact_size: self_delimiting compact_size in_usize
proof
  fix v w bs cs and r s :: "byte list"
  assume v: "compact_size v = Inr bs" and w: "compact_size w = Inr cs" and eq: "bs @ r = cs @ s"
  from v show "v = w \<and> r = s"
  proof (cases rule: compact_size_cases)
    case one
    have "hd bs = hd cs" using arg_cong[OF eq, of hd] v w by (auto simp: compact_size_def split: if_splits)
    with one have "unat (hd cs) < 253" "unat (hd cs) = v" by simp_all
    with w eq one show ?thesis by (cases rule: compact_size_cases) simp_all
  next
    case two
    then have "hd cs = 253" using eq w by (auto simp: compact_size_def split: if_splits)
    with w eq two show ?thesis by (cases rule: compact_size_cases) (auto simp: le_inject)
  next
    case four
    then have "hd cs = 254" using eq w by (auto simp: compact_size_def split: if_splits)
    with w eq four show ?thesis by (cases rule: compact_size_cases) (auto simp: le_inject)
  next
    case eight
    then have "hd cs = 255" using eq w by (auto simp: compact_size_def split: if_splits)
    with w eq eight show ?thesis by (cases rule: compact_size_cases) (auto simp: le_inject)
  qed
qed

end
