(* ===== verification/Ledger_Packets.thy ===== *)
theory Ledger_Packets
  imports Byte_Codec
begin

text \<open>
  The serializer of the Ledger Zcash application (wallet/ledger/serializer.rs) and the fields it
  consumes (parse.rs): a partially created transaction becomes a sequence of commands, each with the
  packets of its payload. Integers are natural numbers below the width of their Rust type, arrays are
  byte lists of their length; \<open>pczt_typed\<close> says so, and what \<open>parse_pczt\<close> never builds.
\<close>

section \<open>The fields of a transaction\<close>

record bip32_derivation =
  bd_signing_path :: "nat list"
  bd_pubkey :: "byte list"
  bd_seed_fingerprint :: "byte list"

record pczt_global =
  gl_tx_version :: nat
  gl_version_group_id :: nat
  gl_consensus_branch_id :: nat
  gl_fallback_lock_time :: "nat option"
  gl_expiry_height :: nat
  gl_coin_type :: nat
  gl_tx_modifiable :: byte

record transparent_output =
  to_value :: nat
  to_script_pubkey :: "byte list"
  to_derivation :: "bip32_derivation option"

record transparent_input =
  ti_prevout_txid :: "byte list"
  ti_prevout_index :: nat
  ti_sequence :: "nat option"
  ti_value :: nat
  ti_script_pubkey :: "byte list"
  ti_sighash_type :: byte
  ti_derivation :: bip32_derivation

record shielded_action =
  sa_cv_net :: "byte list"
  sa_nullifier :: "byte list"
  sa_rk :: "byte list"
  sa_spend_recipient :: "byte list"
  sa_spend_value :: nat
  sa_spend_rho :: "byte list"
  sa_spend_rseed :: "byte list"
  sa_alpha :: "byte list"
  sa_signing_path :: "nat list"
  sa_seed_fingerprint :: "byte list"
  sa_cmx :: "byte list"
  sa_ephemeral_key :: "byte list"
  sa_enc_ciphertext :: "byte list"
  sa_out_ciphertext :: "byte list"
  sa_recipient :: "byte list"
  sa_value :: nat
  sa_rseed :: "byte list"
  sa_rcv :: "byte list"

record shielded_bundle =
  sb_actions :: "shielded_action list"
  sb_flags :: byte
  sb_value_balance :: int
  sb_anchor :: "byte list"

record ironwood_action =
  ia_action :: shielded_action
  ia_note_plaintext_version :: byte

record ironwood_bundle =
  ib_actions :: "ironwood_action list"
  ib_flags :: byte
  ib_value_balance :: int
  ib_anchor :: "byte list"

record parsed_pczt =
  pz_global :: pczt_global
  pz_transparent_inputs :: "transparent_input list"
  pz_transparent_outputs :: "transparent_output list"
  pz_orchard_bundle :: "shielded_bundle option"
  pz_ironwood_bundle :: "ironwood_bundle option"
  pz_memo_reaches_hash_path :: bool

record command_packets =
  cp_instruction :: byte
  cp_packets :: "byte list list"
  cp_finishes_pczt :: bool

definition MAX_PACKET_SIZE :: nat where
  "MAX_PACKET_SIZE = 255"

definition MAX_TRANSPARENT_INPUTS :: nat where
  "MAX_TRANSPARENT_INPUTS = 32"

definition MAX_TRANSPARENT_OUTPUTS :: nat where
  "MAX_TRANSPARENT_OUTPUTS = 10"

definition MAX_SHIELDED_ACTIONS :: nat where
  "MAX_SHIELDED_ACTIONS = 32"

definition LEDGER_MEMO_HASH_UNSUPPORTED :: string where
  "LEDGER_MEMO_HASH_UNSUPPORTED = ''Update the Ledger Zcash app to sign non-English memos''"

section \<open>Fields and packets\<close>

definition ensure_count :: "string \<Rightarrow> nat \<Rightarrow> nat \<Rightarrow> unit outcome" where
  "ensure_count label found maximum =
     (if maximum < found
      then Inl (Message ''ledger_capacity: Ledger supports at most {maximum} {label}; found {count}''
                 [ANat maximum, AStr label, ANat found])
      else Inr ())"

definition ensure_packet_size :: "byte list \<Rightarrow> unit outcome" where
  "ensure_packet_size packet =
     (if MAX_PACKET_SIZE < length packet
      then Inl (Message ''Ledger APDU payload exceeds {MAX_PACKET_SIZE} bytes: {}'' [ANat MAX_PACKET_SIZE, ANat (length packet)])
      else Inr ())"

definition field_packets :: "byte list \<Rightarrow> byte list list outcome" where
  "field_packets field =
     res_bind (compact_size (length field)) (\<lambda>bytes. Inr (chunks MAX_PACKET_SIZE (bytes @ field)))"

definition pack_derivation_path :: "nat list \<Rightarrow> byte list outcome" where
  "pack_derivation_path path =
     (if 256 \<le> length path then Inl (Msg ''Ledger derivation path is too long'')
      else let bytes = word_of_nat (length path) # concat (map (be 4) path) in
        res_bind (ensure_packet_size bytes) (\<lambda>_. Inr bytes))"

definition serialize_bip32_derivation :: "bip32_derivation option \<Rightarrow> byte list outcome" where
  "serialize_bip32_derivation derivation =
     (case derivation of None \<Rightarrow> Inr [0]
      | Some derivation \<Rightarrow>
          res_bind (pack_derivation_path (bd_signing_path derivation)) (\<lambda>path.
          let bytes = 1 # bd_pubkey derivation @ bd_seed_fingerprint derivation @ path in
          res_bind (ensure_packet_size bytes) (\<lambda>_. Inr bytes)))"

definition push_optional_u32_le :: "nat option \<Rightarrow> byte list" where
  "push_optional_u32_le v = (case v of Some v \<Rightarrow> 1 # le 4 v | None \<Rightarrow> [0])"

definition serialize_header :: "pczt_global \<Rightarrow> byte list" where
  "serialize_header global =
     [0x50, 0x43, 0x5a, 0x54] @ le 4 (if 6 \<le> gl_tx_version global then 2 else 1) @ le 4 (gl_tx_version global)
     @ le 4 (gl_version_group_id global) @ le 4 (gl_consensus_branch_id global)
     @ push_optional_u32_le (gl_fallback_lock_time global) @ le 4 (gl_expiry_height global)
     @ le 4 (gl_coin_type global) @ [gl_tx_modifiable global]"

section \<open>Inputs, outputs and bundles\<close>

text \<open>The packets of one input, one output and one action: the bodies of the loops.\<close>

definition input_packets :: "transparent_input \<Rightarrow> byte list list outcome" where
  "input_packets inp =
     (let small_fields = ti_prevout_txid inp @ le 4 (ti_prevout_index inp) @ push_optional_u32_le (ti_sequence inp)
        @ le 8 (ti_value inp) in
      res_bind (field_packets (ti_script_pubkey inp)) (\<lambda>script.
      res_bind (serialize_bip32_derivation (Some (ti_derivation inp))) (\<lambda>derivation.
      let signing_fields = ti_sighash_type inp # derivation in
      res_bind (ensure_packet_size signing_fields) (\<lambda>_.
      Inr (small_fields # script @ [signing_fields])))))"

definition serialize_transparent_inputs :: "transparent_input list \<Rightarrow> byte list list outcome" where
  "serialize_transparent_inputs inputs =
     res_bind (ensure_count ''transparent inputs'' (length inputs) MAX_TRANSPARENT_INPUTS) (\<lambda>_.
     res_bind (compact_size (length inputs)) (\<lambda>count.
     res_bind (res_map input_packets inputs) (\<lambda>packets. Inr (count # concat packets))))"

definition output_packets :: "transparent_output \<Rightarrow> byte list list outcome" where
  "output_packets out =
     res_bind (field_packets (to_script_pubkey out)) (\<lambda>script.
     res_bind (serialize_bip32_derivation (to_derivation out)) (\<lambda>derivation.
     Inr (le 8 (to_value out) # script @ [derivation])))"

definition serialize_transparent_outputs :: "transparent_output list \<Rightarrow> byte list list outcome" where
  "serialize_transparent_outputs outputs =
     res_bind (ensure_count ''transparent outputs'' (length outputs) MAX_TRANSPARENT_OUTPUTS) (\<lambda>_.
     res_bind (compact_size (length outputs)) (\<lambda>count.
     res_bind (res_map output_packets outputs) (\<lambda>packets. Inr (count # concat packets))))"

definition serialize_shielded_action :: "shielded_action \<Rightarrow> byte option \<Rightarrow> byte list list outcome" where
  "serialize_shielded_action action note_plaintext_version =
     (let spend = sa_cv_net action @ sa_nullifier action @ sa_rk action @ sa_spend_recipient action
        @ le 8 (sa_spend_value action) @ sa_spend_rho action @ sa_spend_rseed action @ sa_alpha action in
      res_bind (pack_derivation_path (sa_signing_path action)) (\<lambda>path.
      let derivation = sa_seed_fingerprint action @ path;
          output = sa_cmx action @ sa_ephemeral_key action in
      res_bind (field_packets (sa_enc_ciphertext action)) (\<lambda>enc.
      res_bind (field_packets (sa_out_ciphertext action)) (\<lambda>out.
      let metadata = sa_recipient action @ le 8 (sa_value action) @ sa_rseed action @ sa_rcv action
            @ (case note_plaintext_version of Some version \<Rightarrow> [version] | None \<Rightarrow> []) in
      Inr (spend # derivation # output # enc @ out @ [metadata])))))"

definition serialize_shielded_bundle ::
    "shielded_action list \<Rightarrow> byte \<Rightarrow> int \<Rightarrow> byte list \<Rightarrow> (nat \<Rightarrow> byte option) \<Rightarrow> byte list list outcome" where
  "serialize_shielded_bundle actions flags value_balance anchor note_version =
     res_bind (ensure_count ''shielded actions'' (length actions) MAX_SHIELDED_ACTIONS) (\<lambda>_.
     res_bind (compact_size (length actions)) (\<lambda>count.
     if actions = [] then Inr [count]
     else res_bind (res_map (\<lambda>(index, action). serialize_shielded_action action (note_version index))
                     (List.enumerate 0 actions)) (\<lambda>packets.
       if 2 ^ 64 \<le> nat \<bar>value_balance\<bar> then Inl (Msg ''Shielded value balance exceeds Ledger's u64 range'')
       else Inr (count # concat packets
         @ [flags # le 8 (nat \<bar>value_balance\<bar>) @ [if value_balance < 0 then 1 else 0] @ anchor]))))"

definition serialize_orchard_bundle :: "shielded_bundle option \<Rightarrow> byte list list outcome" where
  "serialize_orchard_bundle bundle =
     (case bundle of None \<Rightarrow> Inr [[0]]
      | Some bundle \<Rightarrow> serialize_shielded_bundle (sb_actions bundle) (sb_flags bundle) (sb_value_balance bundle)
          (sb_anchor bundle) (\<lambda>_. None))"

definition serialize_ironwood_bundle :: "ironwood_bundle option \<Rightarrow> byte list list outcome" where
  "serialize_ironwood_bundle bundle =
     (case bundle of None \<Rightarrow> Inr [[0]]
      | Some bundle \<Rightarrow> serialize_shielded_bundle (map ia_action (ib_actions bundle)) (ib_flags bundle)
          (ib_value_balance bundle) (ib_anchor bundle)
          (\<lambda>index. Some (ia_note_plaintext_version (ib_actions bundle ! index))))"

definition serialize_pczt :: "parsed_pczt \<Rightarrow> bool \<Rightarrow> command_packets list outcome" where
  "serialize_pczt pczt memo_hash_supported =
     (if \<not> memo_hash_supported \<and> pz_memo_reaches_hash_path pczt then Inl (Msg LEDGER_MEMO_HASH_UNSUPPORTED)
      else
        let is_v6 = 6 \<le> gl_tx_version (pz_global pczt) in
        res_bind (serialize_transparent_inputs (pz_transparent_inputs pczt)) (\<lambda>inputs.
        res_bind (serialize_transparent_outputs (pz_transparent_outputs pczt)) (\<lambda>outputs.
        res_bind (serialize_orchard_bundle (pz_orchard_bundle pczt)) (\<lambda>orchard.
        let commands =
          [\<lparr>cp_instruction = 0x52, cp_packets = [serialize_header (pz_global pczt)], cp_finishes_pczt = False\<rparr>,
           \<lparr>cp_instruction = 0x53, cp_packets = inputs, cp_finishes_pczt = False\<rparr>,
           \<lparr>cp_instruction = 0x54, cp_packets = outputs, cp_finishes_pczt = False\<rparr>,
           \<lparr>cp_instruction = 0x56, cp_packets = orchard, cp_finishes_pczt = \<not> is_v6\<rparr>] in
        if is_v6
        then res_bind (serialize_ironwood_bundle (pz_ironwood_bundle pczt)) (\<lambda>ironwood.
          Inr (commands @ [\<lparr>cp_instruction = 0x58, cp_packets = ironwood, cp_finishes_pczt = True\<rparr>]))
        else Inr commands))))"

section \<open>Values of the Rust types\<close>

definition u32 :: "nat \<Rightarrow> bool" where
  "u32 v \<longleftrightarrow> v < 256 ^ 4"

definition u64 :: "nat \<Rightarrow> bool" where
  "u64 v \<longleftrightarrow> v < 256 ^ 8"

definition derivation_typed :: "bip32_derivation \<Rightarrow> bool" where
  "derivation_typed d \<longleftrightarrow> (\<forall>c \<in> set (bd_signing_path d). u32 c) \<and> length (bd_pubkey d) = 33
     \<and> length (bd_seed_fingerprint d) = 32"

definition global_typed :: "pczt_global \<Rightarrow> bool" where
  "global_typed g \<longleftrightarrow> u32 (gl_tx_version g) \<and> u32 (gl_version_group_id g) \<and> u32 (gl_consensus_branch_id g)
     \<and> pred_option u32 (gl_fallback_lock_time g) \<and> u32 (gl_expiry_height g) \<and> u32 (gl_coin_type g)"

definition output_typed :: "transparent_output \<Rightarrow> bool" where
  "output_typed t \<longleftrightarrow> u64 (to_value t) \<and> in_usize (length (to_script_pubkey t)) \<and> pred_option derivation_typed (to_derivation t)"

definition input_typed :: "transparent_input \<Rightarrow> bool" where
  "input_typed t \<longleftrightarrow> length (ti_prevout_txid t) = 32 \<and> u32 (ti_prevout_index t) \<and> pred_option u32 (ti_sequence t)
     \<and> u64 (ti_value t) \<and> in_usize (length (ti_script_pubkey t)) \<and> derivation_typed (ti_derivation t)"

definition action_typed :: "shielded_action \<Rightarrow> bool" where
  "action_typed a \<longleftrightarrow>
     length (sa_cv_net a) = 32 \<and> length (sa_nullifier a) = 32 \<and> length (sa_rk a) = 32 \<and> length (sa_spend_recipient a) = 43
     \<and> u64 (sa_spend_value a) \<and> length (sa_spend_rho a) = 32 \<and> length (sa_spend_rseed a) = 32 \<and> length (sa_alpha a) = 32
     \<and> (\<forall>c \<in> set (sa_signing_path a). u32 c) \<and> length (sa_seed_fingerprint a) = 32
     \<and> length (sa_cmx a) = 32 \<and> length (sa_ephemeral_key a) = 32
     \<and> in_usize (length (sa_enc_ciphertext a)) \<and> in_usize (length (sa_out_ciphertext a))
     \<and> length (sa_recipient a) = 43 \<and> u64 (sa_value a) \<and> length (sa_rseed a) = 32 \<and> length (sa_rcv a) = 32"

text \<open>
  A transaction as \<open>parse_pczt\<close> returns it: a pool without actions has no bundle, and before
  version 6 there is no Ironwood bundle.
\<close>

definition pczt_typed :: "parsed_pczt \<Rightarrow> bool" where
  "pczt_typed p \<longleftrightarrow>
     global_typed (pz_global p) \<and> (\<forall>t \<in> set (pz_transparent_inputs p). input_typed t)
     \<and> (\<forall>t \<in> set (pz_transparent_outputs p). output_typed t)
     \<and> (\<forall>b. pz_orchard_bundle p = Some b \<longrightarrow> sb_actions b \<noteq> [] \<and> (\<forall>a \<in> set (sb_actions b). action_typed a) \<and> length (sb_anchor b) = 32)
     \<and> (\<forall>b. pz_ironwood_bundle p = Some b \<longrightarrow> ib_actions b \<noteq> [] \<and> (\<forall>a \<in> set (ib_actions b). action_typed (ia_action a))
          \<and> length (ib_anchor b) = 32)
     \<and> (gl_tx_version (pz_global p) < 6 \<longrightarrow> pz_ironwood_bundle p = None)"

section \<open>The bytes of a packet\<close>

text \<open>
  Within a packet the fields have fixed lengths, or a length in front: equal packets have equal
  fields.
\<close>

named_theorems packet_inject "equal encodings have equal fields"

lemma fields_inject [packet_inject]:
  "length xs = length ys \<Longrightarrow> xs @ r = ys @ s \<longleftrightarrow> xs = ys \<and> r = s"
  by (rule append_eq_append_conv) simp

lemma le_fields_inject:
  "u32 n \<Longrightarrow> u32 m \<Longrightarrow> le 4 n @ r = le 4 m @ s \<longleftrightarrow> n = m \<and> r = s"
  "u64 n \<Longrightarrow> u64 m \<Longrightarrow> le 8 n @ r = le 8 m @ s \<longleftrightarrow> n = m \<and> r = s"
  "u64 n \<Longrightarrow> u64 m \<Longrightarrow> le 8 n = le 8 m \<longleftrightarrow> n = m"
  "u32 n \<Longrightarrow> u32 m \<Longrightarrow> le 4 n = le 4 m \<longleftrightarrow> n = m"
  by (simp_all add: fields_inject le_inject u32_def u64_def)

lemma optional_inject:
  "pred_option u32 v \<Longrightarrow> pred_option u32 w \<Longrightarrow> push_optional_u32_le v @ r = push_optional_u32_le w @ s \<longleftrightarrow> v = w \<and> r = s"
  by (cases v; cases w) (auto simp: push_optional_u32_le_def le_fields_inject)

lemma optional_same:
  "pred_option u32 v \<Longrightarrow> pred_option u32 w \<Longrightarrow> push_optional_u32_le v = push_optional_u32_le w \<longleftrightarrow> v = w"
  using optional_inject[of v w "[]" "[]"] by simp

lemma components_inject:
  "\<forall>c \<in> set p. u32 c \<Longrightarrow> \<forall>c \<in> set q. u32 c \<Longrightarrow> length p = length q
    \<Longrightarrow> concat (map (be 4) p) = concat (map (be 4) q) \<Longrightarrow> p = q"
proof (induction p arbitrary: q)
  case (Cons c p)
  obtain d q' where q: "q = d # q'" using Cons.prems(3) by (cases q) auto
  have "be 4 c = be 4 d \<and> concat (map (be 4) p) = concat (map (be 4) q')"
    using Cons.prems(4) unfolding q by (simp add: fields_inject)
  moreover have "p = q'" using Cons.prems calculation by (intro Cons.IH) (simp_all add: q)
  ultimately show ?case using Cons.prems(1,2) by (simp add: q be_inject u32_def)
qed simp

lemma path_bytes:
  assumes "pack_derivation_path p = Inr bs"
  shows "bs = word_of_nat (length p) # concat (map (be 4) p)" and "length p \<le> 63" and "length bs = 1 + 4 * length p"
proof -
  have len: "length (concat (map (be 4) p)) = 4 * length p" by (induction p) simp_all
  show "bs = word_of_nat (length p) # concat (map (be 4) p)" "length p \<le> 63" "length bs = 1 + 4 * length p"
    using assms by (auto simp: pack_derivation_path_def ensure_packet_size_def MAX_PACKET_SIZE_def Let_def len res_simps split: if_splits)
qed

lemma path_inject:
  assumes "pack_derivation_path p = Inr bs" and "pack_derivation_path q = Inr bs"
    and "\<forall>c \<in> set p. u32 c" and "\<forall>c \<in> set q. u32 c"
  shows "p = q"
  using components_inject[OF assms(3,4)] path_bytes(1,3)[OF assms(1)] path_bytes(1,3)[OF assms(2)] by simp

lemma derivation_bytes:
  assumes "serialize_bip32_derivation (Some d) = Inr bs"
  obtains path where "pack_derivation_path (bd_signing_path d) = Inr path" "bs = 1 # bd_pubkey d @ bd_seed_fingerprint d @ path"
    "length bs \<le> MAX_PACKET_SIZE"
  using assms by (auto simp: serialize_bip32_derivation_def ensure_packet_size_def Let_def res_simps split: if_splits)

lemma derivation_some: "serialize_bip32_derivation (Some d) = Inr bs \<Longrightarrow> hd bs = 1"
  by (erule derivation_bytes) simp

lemma derivation_inject:
  assumes "serialize_bip32_derivation d = Inr bs" and "serialize_bip32_derivation e = Inr bs"
    and "pred_option derivation_typed d" and "pred_option derivation_typed e"
  shows "d = e"
proof (cases d; cases e)
  fix d' e' assume some: "d = Some d'" "e = Some e'"
  obtain p where p: "pack_derivation_path (bd_signing_path d') = Inr p" "bs = 1 # bd_pubkey d' @ bd_seed_fingerprint d' @ p"
    by (rule derivation_bytes[OF assms(1)[unfolded some(1)]])
  obtain q where q: "pack_derivation_path (bd_signing_path e') = Inr q" "bs = 1 # bd_pubkey e' @ bd_seed_fingerprint e' @ q"
    by (rule derivation_bytes[OF assms(2)[unfolded some(2)]])
  have same: "bd_pubkey d' = bd_pubkey e'" "bd_seed_fingerprint d' = bd_seed_fingerprint e'" "p = q"
    using p(2) q(2) assms(3,4) by (simp_all add: some derivation_typed_def fields_inject)
  have "bd_signing_path d' = bd_signing_path e'"
    using assms(3,4) by (intro path_inject[OF p(1)[unfolded same(3)] q(1)]) (simp_all add: some derivation_typed_def)
  with same show ?thesis by (simp add: some)
next
  fix d' assume "d = Some d'" "e = None"
  then show ?thesis using derivation_some[of d' bs] assms(1,2) by (auto simp: serialize_bip32_derivation_def[of None])
next
  fix e' assume "d = None" "e = Some e'"
  then show ?thesis using derivation_some[of e' bs] assms(1,2) by (auto simp: serialize_bip32_derivation_def[of None])
qed simp

lemma header_inject:
  assumes "serialize_header g = serialize_header h" and "global_typed g" and "global_typed h"
  shows "g = h"
proof -
  have tail: "le 4 (gl_tx_version g) @ le 4 (gl_version_group_id g) @ le 4 (gl_consensus_branch_id g)
      @ push_optional_u32_le (gl_fallback_lock_time g) @ le 4 (gl_expiry_height g) @ le 4 (gl_coin_type g) @ [gl_tx_modifiable g]
    = le 4 (gl_tx_version h) @ le 4 (gl_version_group_id h) @ le 4 (gl_consensus_branch_id h)
      @ push_optional_u32_le (gl_fallback_lock_time h) @ le 4 (gl_expiry_height h) @ le 4 (gl_coin_type h) @ [gl_tx_modifiable h]"
    using assms(1) unfolding serialize_header_def by (simp add: fields_inject)
  show ?thesis
    using tail assms(2,3) by (simp add: global_typed_def le_fields_inject optional_same)
qed

section \<open>Packets delimit themselves\<close>

lemma field_bytes:
  assumes "field_packets f = Inr ps"
  obtains bs where "compact_size (length f) = Inr bs" "ps = chunks 255 (bs @ f)"
  using assms by (auto simp: field_packets_def MAX_PACKET_SIZE_def res_simps)

interpretation field: self_delimiting field_packets "\<lambda>f. in_usize (length f)"
proof
  fix f g :: "byte list" and ps qs r s
  assume f: "field_packets f = Inr ps" and g: "field_packets g = Inr qs"
    and typed: "in_usize (length f)" "in_usize (length g)" and eq: "ps @ r = qs @ s"
  obtain bs where bs: "compact_size (length f) = Inr bs" "ps = chunks 255 (bs @ f)" using field_bytes[OF f] .
  obtain cs where cs: "compact_size (length g) = Inr cs" "qs = chunks 255 (cs @ g)" using field_bytes[OF g] .
  have short: "bs \<noteq> []" "length bs \<le> 9" "cs \<noteq> []" "length cs \<le> 9"
    using compact_size_total[OF typed(1)] compact_size_total[OF typed(2)] bs(1) cs(1) by auto
  have "take 255 (bs @ f) = take 255 (cs @ g)"
    using arg_cong[OF eq, of hd] short by (simp add: bs(2) cs(2) chunks_step)
  then have "bs @ take (255 - length bs) f = cs @ take (255 - length cs) g" using short by simp
  from compact_size.unique[OF bs(1) cs(1) typed this] have len: "length f = length g" by blast
  then have "bs = cs" using bs(1) cs(1) by simp
  then show "f = g \<and> r = s"
    using chunks_inject[of 255 "bs @ f" "cs @ g" r s] eq len by (simp add: bs(2) cs(2))
qed

interpretation outputs: self_delimiting output_packets output_typed
proof
  fix x y ps qs and r s :: "byte list list"
  assume x: "output_packets x = Inr ps" and y: "output_packets y = Inr qs"
    and typed: "output_typed x" "output_typed y" and eq: "ps @ r = qs @ s"
  obtain f d where x': "field_packets (to_script_pubkey x) = Inr f" "serialize_bip32_derivation (to_derivation x) = Inr d"
      "ps = le 8 (to_value x) # f @ [d]"
    using x by (auto simp: output_packets_def res_simps)
  obtain g e where y': "field_packets (to_script_pubkey y) = Inr g" "serialize_bip32_derivation (to_derivation y) = Inr e"
      "qs = le 8 (to_value y) # g @ [e]"
    using y by (auto simp: output_packets_def res_simps)
  have scripts: "f @ (d # r) = g @ (e # s)" and amount: "le 8 (to_value x) = le 8 (to_value y)"
    using eq by (simp_all add: x'(3) y'(3))
  have tail: "to_script_pubkey x = to_script_pubkey y \<and> d # r = e # s"
    using typed by (intro field.unique[OF x'(1) y'(1) _ _ scripts]) (simp_all add: output_typed_def)
  then have "to_derivation x = to_derivation y"
    using derivation_inject x'(2) y'(2) typed by (simp add: output_typed_def)
  then show "x = y \<and> r = s" using tail amount typed by (simp add: output_typed_def le_fields_inject)
qed

interpretation inputs: self_delimiting input_packets input_typed
proof
  fix x y ps qs and r s :: "byte list list"
  assume x: "input_packets x = Inr ps" and y: "input_packets y = Inr qs"
    and typed: "input_typed x" "input_typed y" and eq: "ps @ r = qs @ s"
  define small where "small x = ti_prevout_txid x @ le 4 (ti_prevout_index x) @ push_optional_u32_le (ti_sequence x)
        @ le 8 (ti_value x)" for x :: transparent_input
  obtain f d where x': "field_packets (ti_script_pubkey x) = Inr f" "serialize_bip32_derivation (Some (ti_derivation x)) = Inr d"
      "ps = small x # f @ [ti_sighash_type x # d]"
    using x by (auto simp: input_packets_def small_def Let_def res_simps)
  obtain g e where y': "field_packets (ti_script_pubkey y) = Inr g" "serialize_bip32_derivation (Some (ti_derivation y)) = Inr e"
      "qs = small y # g @ [ti_sighash_type y # e]"
    using y by (auto simp: input_packets_def small_def Let_def res_simps)
  have scripts: "f @ ((ti_sighash_type x # d) # r) = g @ ((ti_sighash_type y # e) # s)" and fields: "small x = small y"
    using eq by (simp_all add: x'(3) y'(3))
  have tail: "ti_script_pubkey x = ti_script_pubkey y \<and> (ti_sighash_type x # d) # r = (ti_sighash_type y # e) # s"
    using typed by (intro field.unique[OF x'(1) y'(1) _ _ scripts]) (simp_all add: input_typed_def)
  then have "Some (ti_derivation x) = Some (ti_derivation y)"
    using x'(2) y'(2) typed by (intro derivation_inject) (simp_all add: input_typed_def)
  moreover have "ti_prevout_txid x = ti_prevout_txid y \<and> ti_prevout_index x = ti_prevout_index y
      \<and> ti_sequence x = ti_sequence y \<and> ti_value x = ti_value y"
    using fields typed by (simp add: small_def input_typed_def fields_inject le_fields_inject optional_same)
  ultimately show "x = y \<and> r = s" using tail by simp
qed

definition versioned_packets :: "shielded_action \<times> byte option \<Rightarrow> byte list list outcome" where
  "versioned_packets = (\<lambda>(action, version). serialize_shielded_action action version)"

text \<open>The fixed fields of the three packets of an action, and its metadata.\<close>

lemma action_packets:
  assumes "serialize_shielded_action a v = Inr ps"
  obtains path enc out where "pack_derivation_path (sa_signing_path a) = Inr path"
    "field_packets (sa_enc_ciphertext a) = Inr enc" "field_packets (sa_out_ciphertext a) = Inr out"
    "ps = (sa_cv_net a @ sa_nullifier a @ sa_rk a @ sa_spend_recipient a @ le 8 (sa_spend_value a) @ sa_spend_rho a
            @ sa_spend_rseed a @ sa_alpha a)
       # (sa_seed_fingerprint a @ path) # (sa_cmx a @ sa_ephemeral_key a)
       # enc @ out @ [sa_recipient a @ le 8 (sa_value a) @ sa_rseed a @ sa_rcv a
           @ (case v of Some version \<Rightarrow> [version] | None \<Rightarrow> [])]"
  using assms by (auto simp: serialize_shielded_action_def Let_def res_simps)

lemma version_inject:
  "(case v of Some version \<Rightarrow> [version] | None \<Rightarrow> []) = (case w of Some version \<Rightarrow> [version] | None \<Rightarrow> []) \<longleftrightarrow> v = w"
  for v w :: "byte option"
  by (cases v; cases w) simp_all

interpretation actions: self_delimiting versioned_packets "\<lambda>(action, _). action_typed action"
proof
  fix x y :: "shielded_action \<times> byte option" and ps qs r s
  assume x: "versioned_packets x = Inr ps" and y: "versioned_packets y = Inr qs"
    and typed: "case x of (action, _) \<Rightarrow> action_typed action" "case y of (action, _) \<Rightarrow> action_typed action"
    and eq: "ps @ r = qs @ s"
  obtain a v b w where xy: "x = (a, v)" "y = (b, w)" by (cases x; cases y)
  have ta: "action_typed a" and tb: "action_typed b" using typed by (simp_all add: xy)
  have ser: "serialize_shielded_action a v = Inr ps" "serialize_shielded_action b w = Inr qs"
    using x y by (simp_all add: xy versioned_packets_def)
  obtain p enc out where a: "pack_derivation_path (sa_signing_path a) = Inr p"
    "field_packets (sa_enc_ciphertext a) = Inr enc" "field_packets (sa_out_ciphertext a) = Inr out"
    "ps = (sa_cv_net a @ sa_nullifier a @ sa_rk a @ sa_spend_recipient a @ le 8 (sa_spend_value a) @ sa_spend_rho a
            @ sa_spend_rseed a @ sa_alpha a)
       # (sa_seed_fingerprint a @ p) # (sa_cmx a @ sa_ephemeral_key a)
       # enc @ out @ [sa_recipient a @ le 8 (sa_value a) @ sa_rseed a @ sa_rcv a
           @ (case v of Some version \<Rightarrow> [version] | None \<Rightarrow> [])]"
    by (rule action_packets[OF ser(1)])
  obtain q enc' out' where b: "pack_derivation_path (sa_signing_path b) = Inr q"
    "field_packets (sa_enc_ciphertext b) = Inr enc'" "field_packets (sa_out_ciphertext b) = Inr out'"
    "qs = (sa_cv_net b @ sa_nullifier b @ sa_rk b @ sa_spend_recipient b @ le 8 (sa_spend_value b) @ sa_spend_rho b
            @ sa_spend_rseed b @ sa_alpha b)
       # (sa_seed_fingerprint b @ q) # (sa_cmx b @ sa_ephemeral_key b)
       # enc' @ out' @ [sa_recipient b @ le 8 (sa_value b) @ sa_rseed b @ sa_rcv b
           @ (case w of Some version \<Rightarrow> [version] | None \<Rightarrow> [])]"
    by (rule action_packets[OF ser(2)])
  define meta where "meta a v = sa_recipient a @ le 8 (sa_value a) @ sa_rseed a @ sa_rcv a
      @ (case v of Some version \<Rightarrow> [version] | None \<Rightarrow> [])" for a :: shielded_action and v :: "byte option"
  have packets: "sa_cv_net a @ sa_nullifier a @ sa_rk a @ sa_spend_recipient a @ le 8 (sa_spend_value a) @ sa_spend_rho a
        @ sa_spend_rseed a @ sa_alpha a
      = sa_cv_net b @ sa_nullifier b @ sa_rk b @ sa_spend_recipient b @ le 8 (sa_spend_value b) @ sa_spend_rho b
        @ sa_spend_rseed b @ sa_alpha b"
    "sa_seed_fingerprint a @ p = sa_seed_fingerprint b @ q" "sa_cmx a @ sa_ephemeral_key a = sa_cmx b @ sa_ephemeral_key b"
    "enc @ (out @ meta a v # r) = enc' @ (out' @ meta b w # s)"
    using eq by (simp_all add: a(4) b(4) meta_def)
  have enc: "sa_enc_ciphertext a = sa_enc_ciphertext b \<and> out @ meta a v # r = out' @ meta b w # s"
    using ta tb by (intro field.unique[OF a(2) b(2) _ _ packets(4)]) (simp_all add: action_typed_def)
  have out: "sa_out_ciphertext a = sa_out_ciphertext b \<and> meta a v # r = meta b w # s"
    using ta tb enc by (intro field.unique[OF a(3) b(3)]) (simp_all add: action_typed_def)
  have path: "sa_seed_fingerprint a = sa_seed_fingerprint b" "p = q"
    using packets(2) ta tb by (simp_all add: action_typed_def fields_inject)
  have "sa_signing_path a = sa_signing_path b"
    using ta tb by (intro path_inject[OF a(1)[unfolded path(2)] b(1)]) (simp_all add: action_typed_def)
  moreover have "sa_cv_net a = sa_cv_net b \<and> sa_nullifier a = sa_nullifier b \<and> sa_rk a = sa_rk b
      \<and> sa_spend_recipient a = sa_spend_recipient b \<and> sa_spend_value a = sa_spend_value b \<and> sa_spend_rho a = sa_spend_rho b
      \<and> sa_spend_rseed a = sa_spend_rseed b \<and> sa_alpha a = sa_alpha b"
    using packets(1) ta tb by (simp add: action_typed_def fields_inject le_fields_inject)
  moreover have "sa_cmx a = sa_cmx b \<and> sa_ephemeral_key a = sa_ephemeral_key b"
    using packets(3) ta tb by (simp add: action_typed_def fields_inject)
  moreover have "sa_recipient a = sa_recipient b \<and> sa_value a = sa_value b \<and> sa_rseed a = sa_rseed b \<and> sa_rcv a = sa_rcv b \<and> v = w"
    using out ta tb by (simp add: meta_def action_typed_def fields_inject le_fields_inject version_inject)
  ultimately show "x = y \<and> r = s" using enc out path by (simp add: xy)
qed

section \<open>Bundles and commands\<close>

lemma res_map_map: "res_map f (map g xs) = res_map (\<lambda>x. f (g x)) xs"
  by (induction xs) simp_all

lemma bundle_packets:
  assumes "serialize_shielded_bundle acts flags balance anchor nv = Inr ps" and "acts \<noteq> []"
  obtains n bss where "compact_size (length acts) = Inr n"
    "res_map versioned_packets (map (\<lambda>(i, a). (a, nv i)) (List.enumerate 0 acts)) = Inr bss"
    "nat \<bar>balance\<bar> < 2 ^ 64"
    "ps = n # concat bss @ [flags # le 8 (nat \<bar>balance\<bar>) @ [if balance < 0 then 1 else 0] @ anchor]"
  using assms by (auto simp: serialize_shielded_bundle_def res_simps res_map_map versioned_packets_def split_def split: if_splits)

lemma bundle_inject:
  assumes "serialize_shielded_bundle acts flags balance anchor nv = Inr ps" and "acts \<noteq> []"
    and "serialize_shielded_bundle acts' flags' balance' anchor' nv' = Inr ps" and "acts' \<noteq> []"
    and "\<forall>a \<in> set acts. action_typed a" and "\<forall>a \<in> set acts'. action_typed a"
    and "in_usize (length acts)" and "in_usize (length acts')"
  shows "acts = acts' \<and> flags = flags' \<and> balance = balance' \<and> anchor = anchor' \<and> (\<forall>i < length acts. nv i = nv' i)"
proof -
  define xs where "xs = map (\<lambda>(i, a). (a, nv i)) (List.enumerate 0 acts)"
  define ys where "ys = map (\<lambda>(i, a). (a, nv' i)) (List.enumerate 0 acts')"
  define trailer where "trailer flags balance anchor = flags # le 8 (nat \<bar>balance\<bar>) @ [if balance < 0 then 1 else 0] @ anchor"
    for flags :: byte and balance :: int and anchor :: "byte list"
  obtain n bss where p: "compact_size (length acts) = Inr n" "res_map versioned_packets xs = Inr bss" "nat \<bar>balance\<bar> < 2 ^ 64"
    "ps = n # concat bss @ [trailer flags balance anchor]"
    unfolding xs_def trailer_def by (rule bundle_packets[OF assms(1,2)])
  obtain m css where q: "compact_size (length acts') = Inr m" "res_map versioned_packets ys = Inr css" "nat \<bar>balance'\<bar> < 2 ^ 64"
    "ps = m # concat css @ [trailer flags' balance' anchor']"
    unfolding ys_def trailer_def by (rule bundle_packets[OF assms(3,4)])
  have "n = m" and rest: "concat bss @ [trailer flags balance anchor] = concat css @ [trailer flags' balance' anchor']"
    using p(4) q(4) by simp_all
  then have len: "length acts = length acts'"
    using compact_size.inject[OF p(1) _ assms(7,8)] q(1) by simp
  have "xs = ys \<and> [trailer flags balance anchor] = [trailer flags' balance' anchor']"
  proof (rule actions.unique_sequence[OF p(2) q(2) _ _ _ rest])
    show "\<forall>x \<in> set xs. case x of (action, _) \<Rightarrow> action_typed action"
      using assms(5) by (auto simp: xs_def in_set_enumerate_eq)
    show "\<forall>y \<in> set ys. case y of (action, _) \<Rightarrow> action_typed action"
      using assms(6) by (auto simp: ys_def in_set_enumerate_eq)
  qed (simp add: xs_def ys_def len)
  then have same: "xs = ys" and t: "trailer flags balance anchor = trailer flags' balance' anchor'" by simp_all
  have fst: "map fst xs = acts" "map fst ys = acts'"
    by (simp_all add: xs_def ys_def split_def comp_def)
  have "nv i = nv' i" if "i < length acts" for i
    using arg_cong[OF same, of "\<lambda>zs. snd (zs ! i)"] that len by (simp add: xs_def ys_def nth_enumerate_eq)
  moreover have "nat \<bar>balance\<bar> = nat \<bar>balance'\<bar>" "balance < 0 \<longleftrightarrow> balance' < 0" "flags = flags'" "anchor = anchor'"
    using t p(3) q(3) by (auto simp: trailer_def fields_inject le_inject split: if_splits)
  moreover from this(1,2) have "balance = balance'" by linarith
  ultimately show ?thesis using fst same by metis
qed

end
