(* ===== verification/Ledger_Plan.thy ===== *)
theory Ledger_Plan
  imports Ledger_Packets Store_Monad
begin

text \<open>
  Signing with the Ledger Zcash application: wallet/ledger/mod.rs with the command frames of apdu.rs
  and the USB session of transport.rs. The check that a transaction belongs to the expected account,
  the sequence of commands that the mobile transports replay, the reading of the responses, and the
  USB session that exchanges the same commands one by one. \<open>parse_pczt\<close> rests on the PCZT library and
  is an argument; a session is code against the state of the device.
\<close>

section \<open>Command frames\<close>

record apdu_command =
  ac_cla :: byte
  ac_ins :: byte
  ac_p1 :: byte
  ac_p2 :: byte
  ac_data :: "byte list"

definition ZCASH_CLA :: byte where
  "ZCASH_CLA = 0xe0"

definition RESPONSE_OK :: nat where
  "RESPONSE_OK = 0x9000"

definition packet_p1 :: "nat \<Rightarrow> nat \<Rightarrow> byte" where
  "packet_p1 index packets = (if index = 0 then 0 else if index = packets - 1 then 1 else 0x80)"

definition packet_p2 :: "nat \<Rightarrow> nat \<Rightarrow> bool \<Rightarrow> byte" where
  "packet_p2 index packets finishes_pczt = (if finishes_pczt \<and> index = packets - 1 then 1 else 0)"

subsection \<open>Status words\<close>

definition STATUS_PREFIX :: string where
  "STATUS_PREFIX = ''ledger_status_''"

definition hex_digit :: "nat \<Rightarrow> char" where
  "hex_digit d = ''0123456789abcdef'' ! d"

text \<open>\<open>{:04x}\<close> of a 16-bit value.\<close>

definition hex4 :: "nat \<Rightarrow> string" where
  "hex4 v = [hex_digit (v div 4096 mod 16), hex_digit (v div 256 mod 16), hex_digit (v div 16 mod 16), hex_digit (v mod 16)]"

definition status_word_text :: "nat \<Rightarrow> string" where
  "status_word_text status =
     (if status = 0x5515 \<or> status = 0x6982 \<or> status = 0x5303 then ''Ledger device is locked; unlock it and reopen the Zcash app''
      else if status = 0x63c0 then ''A wrong Ledger PIN was entered; unlock your Ledger''
      else if status = 0x5501 then ''Ledger request was rejected on the device''
      else if status = 0x6985 then ''Ledger request was rejected or the PCZT was not finalized''
      else if status = 0x5502 then ''Ledger device PIN is not set''
      else if status = 0x5223 then ''Ledger device returned an internal error''
      else if status = 0x6601 then ''Ledger device is busy switching apps; retry shortly''
      else if status = 0x6700 then ''Ledger Zcash app rejected the command length''
      else if status = 0x670a then ''Ledger app-open request did not include an app name''
      else if status = 0x6807 then ''The Zcash app is not installed on this Ledger''
      else if status = 0x6901 then ''Ledger display is busy starting a review; retry shortly''
      else if status = 0x6a80 then ''Ledger rejected the PCZT data or key path''
      else if status = 0x6a84 then ''Ledger ran out of memory for this transaction; try a smaller amount''
      else if status = 0x6b00 then ''Ledger Zcash app rejected the command parameters''
      else if status = 0x6e00 then ''Ledger device does not support this command class''
      else if status = 0x6d00 then ''The running Ledger app does not support this command''
      else if status = 0x6f00 then ''Ledger Zcash app reported a technical problem''
      else if status = 0x6f01 then ''Ledger Zcash app could not parse the transaction version''
      else if status = 0x6f02 then ''Ledger Zcash app could not parse the transaction''
      else if status = 0x6f03 then ''Ledger random number generator failed''
      else if status = 0x6faa then ''Ledger Zcash app halted; close and reopen the app''
      else if status = 0xb007 then ''Ledger Zcash app is in the wrong state; close and reopen the app''
      else ''Ledger Zcash app returned status 0x'' @ hex4 status)"

definition map_status_word :: "nat \<Rightarrow> string" where
  "map_status_word status = STATUS_PREFIX @ hex4 status @ '': '' @ status_word_text status"

text \<open>\<open>str::split_once\<close>: the text before and after the first occurrence.\<close>

fun split_once :: "string \<Rightarrow> string \<Rightarrow> (string \<times> string) option" where
  "split_once pat [] = (if pat = [] then Some ([], []) else None)"
| "split_once pat (c # cs) =
     (if take (length pat) (c # cs) = pat then Some ([], drop (length pat) (c # cs))
      else map_option (\<lambda>(before, after). (c # before, after)) (split_once pat cs))"

definition hex_value :: "char \<Rightarrow> nat option" where
  "hex_value c = map_of (zip ''0123456789abcdef'' [0..<16]) c"

definition ledger_status_word :: "string \<Rightarrow> nat option" where
  "ledger_status_word err =
     Option.bind (split_once STATUS_PREFIX err) (\<lambda>(_, rest).
     Option.bind (split_once '':'' rest) (\<lambda>(code, _).
     if length code \<noteq> 4 \<or> \<not> list_all (\<lambda>c. hex_value c \<noteq> None) code then None
     else Some (foldl (\<lambda>v c. 16 * v + the (hex_value c)) 0 code)))"

definition decode_raw_response :: "byte list \<Rightarrow> byte list outcome" where
  "decode_raw_response response =
     (if length response < 2 then Inl (Msg ''Ledger APDU response was too short to contain a status word'')
      else
        let status = be_nat (drop (length response - 2) response) in
        if status \<noteq> RESPONSE_OK then Inl (Msg (map_status_word status))
        else Inr (take (length response - 2) response))"

section \<open>The expected account\<close>

record expected_account =
  ea_account_index :: nat
  ea_coin_type :: nat
  ea_seed_fingerprint :: "byte list"

text \<open>\<open>HARDENED | component\<close> on \<open>u32\<close>.\<close>

definition hardened :: "nat \<Rightarrow> nat" where
  "hardened component = (if component < 2 ^ 31 then 2 ^ 31 + component else component)"

definition validate_fingerprint :: "byte list \<Rightarrow> expected_account \<Rightarrow> message \<Rightarrow> unit outcome" where
  "validate_fingerprint fingerprint expected label =
     (if fingerprint \<noteq> ea_seed_fingerprint expected
      then Inl (Message ''Ledger {label} seed fingerprint does not match the selected account'' [AMsg label])
      else Inr ())"

definition validate_transparent_derivation ::
    "bip32_derivation \<Rightarrow> expected_account \<Rightarrow> message \<Rightarrow> bool \<Rightarrow> unit outcome" where
  "validate_transparent_derivation derivation expected label allow_ephemeral_scope =
     (let expected_path = [hardened 44, hardened (ea_coin_type expected), hardened (ea_account_index expected)];
          path = bd_signing_path derivation;
          valid_scope = (case list_get path 3 of Some scope \<Rightarrow> scope = 0 \<or> scope = 1 \<or> allow_ephemeral_scope \<and> scope = 2
            | None \<Rightarrow> False);
          valid_suffix = (length path = 5 \<and> valid_scope \<and> path ! 4 < 2 ^ 31) in
      if length path < 3 \<or> take 3 path \<noteq> expected_path \<or> \<not> valid_suffix
      then Inl (Message ''Ledger {label} derivation path does not belong to account {}'' [AMsg label, ANat (ea_account_index expected)])
      else validate_fingerprint (bd_seed_fingerprint derivation) expected label)"

definition validate_shielded_derivation ::
    "nat list \<Rightarrow> byte list \<Rightarrow> expected_account \<Rightarrow> message \<Rightarrow> unit outcome" where
  "validate_shielded_derivation path fingerprint expected label =
     (if path \<noteq> [hardened 32, hardened (ea_coin_type expected), hardened (ea_account_index expected)]
      then Inl (Message ''Ledger {label} derivation path does not belong to account {}'' [AMsg label, ANat (ea_account_index expected)])
      else validate_fingerprint fingerprint expected label)"

text \<open>A loop that validates every item under its index.\<close>

definition validate_each :: "(nat \<Rightarrow> 'a \<Rightarrow> unit outcome) \<Rightarrow> 'a list \<Rightarrow> unit outcome" where
  "validate_each validate items =
     res_fold (\<lambda>(index, item) _. validate index item) (List.enumerate 0 items) ()"

definition validate_pczt_account ::
    "(byte list \<Rightarrow> parsed_pczt outcome) \<Rightarrow> byte list \<Rightarrow> expected_account \<Rightarrow> unit outcome" where
  "validate_pczt_account parse_pczt pczt_bytes expected =
     res_bind (parse_pczt pczt_bytes) (\<lambda>parsed.
     if gl_coin_type (pz_global parsed) \<noteq> ea_coin_type expected
     then Inl (Message ''Ledger PCZT coin type {} does not match expected coin type {}''
            [ANat (gl_coin_type (pz_global parsed)), ANat (ea_coin_type expected)])
     else
       res_bind (validate_each (\<lambda>index inp. validate_transparent_derivation (ti_derivation inp) expected
          (Message ''transparent input {index}'' [ANat index]) True) (pz_transparent_inputs parsed)) (\<lambda>_.
       res_bind (validate_each (\<lambda>index out. case to_derivation out of None \<Rightarrow> Inr ()
          | Some derivation \<Rightarrow> validate_transparent_derivation derivation expected
              (Message ''transparent output {index}'' [ANat index]) False) (pz_transparent_outputs parsed)) (\<lambda>_.
       res_bind (case pz_orchard_bundle parsed of None \<Rightarrow> Inr ()
          | Some bundle \<Rightarrow> validate_each (\<lambda>index action. validate_shielded_derivation (sa_signing_path action)
              (sa_seed_fingerprint action) expected (Message ''Orchard action {index}'' [ANat index])) (sb_actions bundle)) (\<lambda>_.
       case pz_ironwood_bundle parsed of None \<Rightarrow> Inr ()
          | Some bundle \<Rightarrow> validate_each (\<lambda>index item. validate_shielded_derivation (sa_signing_path (ia_action item))
              (sa_seed_fingerprint (ia_action item)) expected (Message ''Ironwood action {index}'' [ANat index]))
              (ib_actions bundle)))))"

section \<open>The sequence of commands\<close>

datatype signature_request =
    Transparent_Request nat
  | Shielded_Request value_pool nat byte

definition real_spends :: "value_pool \<Rightarrow> byte \<Rightarrow> shielded_action list \<Rightarrow> signature_request list" where
  "real_spends pool instruction acts =
     map (\<lambda>(action_index, _). Shielded_Request pool action_index instruction)
       (filter (\<lambda>(_, action). sa_spend_value action \<noteq> 0) (List.enumerate 0 acts))"

definition signature_requests :: "bool \<Rightarrow> parsed_pczt \<Rightarrow> signature_request list" where
  "signature_requests include_transparent parsed =
     (if include_transparent then map Transparent_Request [0..<length (pz_transparent_inputs parsed)] else [])
     @ (case pz_orchard_bundle parsed of None \<Rightarrow> [] | Some bundle \<Rightarrow> real_spends Orchard 0x57 (sb_actions bundle))
     @ (case pz_ironwood_bundle parsed of None \<Rightarrow> [] | Some bundle \<Rightarrow> real_spends Ironwood 0x59 (map ia_action (ib_actions bundle)))"

definition packet_commands :: "command_packets \<Rightarrow> apdu_command list outcome" where
  "packet_commands command =
     (if cp_packets command = [] then Inl (Msg ''Ledger PCZT command has no packets'')
      else Inr (map (\<lambda>(index, data).
             \<lparr>ac_cla = ZCASH_CLA, ac_ins = cp_instruction command,
              ac_p1 = packet_p1 index (length (cp_packets command)),
              ac_p2 = packet_p2 index (length (cp_packets command)) (cp_finishes_pczt command),
              ac_data = data\<rparr>) (List.enumerate 0 (cp_packets command))))"

definition request_command :: "signature_request \<Rightarrow> apdu_command outcome" where
  "request_command request =
     (let (ins, p2) = (case request of Transparent_Request input_index \<Rightarrow> (0x55, input_index)
        | Shielded_Request _ action_index instruction \<Rightarrow> (instruction, action_index)) in
      if 256 \<le> p2 then Inl (Msg ''Ledger signing index exceeds the APDU range'')
      else Inr \<lparr>ac_cla = ZCASH_CLA, ac_ins = ins, ac_p1 = 0, ac_p2 = word_of_nat p2, ac_data = []\<rparr>)"

definition build_signing_plan ::
    "(byte list \<Rightarrow> parsed_pczt outcome) \<Rightarrow> byte list \<Rightarrow> bool \<Rightarrow> bool
      \<Rightarrow> (apdu_command list \<times> signature_request list) outcome" where
  "build_signing_plan parse_pczt pczt_bytes include_transparent memo_hash_supported =
     res_bind (parse_pczt pczt_bytes) (\<lambda>parsed.
     if \<not> include_transparent \<and> pz_transparent_inputs parsed \<noteq> []
     then Inl (Msg ''PCZT has transparent inputs; use sign_pczt_full so Ledger produces every signature after one review'')
     else res_bind (serialize_pczt parsed memo_hash_supported) (\<lambda>serialized.
       res_bind (res_map packet_commands serialized) (\<lambda>packets.
       let requests = signature_requests include_transparent parsed in
       if requests = []
       then Inl (Msg (if include_transparent
              then ''PCZT has no real transparent, Orchard, or Ironwood spends for Ledger to sign''
              else ''PCZT has no real Orchard or Ironwood spends for Ledger to sign''))
       else res_bind (res_map request_command requests) (\<lambda>signing. Inr (concat packets @ signing, requests)))))"

definition build_pczt_signing_plan ::
    "(byte list \<Rightarrow> parsed_pczt outcome) \<Rightarrow> byte list \<Rightarrow> bool \<Rightarrow> apdu_command list outcome" where
  "build_pczt_signing_plan parse_pczt pczt_bytes memo_hash_supported =
     res_bind (build_signing_plan parse_pczt pczt_bytes False memo_hash_supported) (\<lambda>(commands, _). Inr commands)"

definition build_pczt_full_signing_plan ::
    "(byte list \<Rightarrow> parsed_pczt outcome) \<Rightarrow> byte list \<Rightarrow> bool \<Rightarrow> apdu_command list outcome" where
  "build_pczt_full_signing_plan parse_pczt pczt_bytes memo_hash_supported =
     res_bind (build_signing_plan parse_pczt pczt_bytes True memo_hash_supported) (\<lambda>(commands, _). Inr commands)"

definition LEGACY_ORCHARD_RECOVERY_UNSUPPORTED :: string where
  "LEGACY_ORCHARD_RECOVERY_UNSUPPORTED =
     ''ledger_legacy_orchard_recovery_unsupported: The current Ledger Zcash app cannot sign a transaction that spends legacy Orchard funds into Ironwood.''"

definition require_legacy_orchard_recovery_support :: "bool \<Rightarrow> bool \<Rightarrow> unit outcome" where
  "require_legacy_orchard_recovery_support has_orchard_spend has_ironwood_output =
     (if has_orchard_spend \<and> has_ironwood_output then Inl (Msg LEGACY_ORCHARD_RECOVERY_UNSUPPORTED) else Inr ())"

definition validate_pczt_release_support :: "(byte list \<Rightarrow> parsed_pczt outcome) \<Rightarrow> byte list \<Rightarrow> unit outcome" where
  "validate_pczt_release_support parse_pczt pczt_bytes =
     res_bind (parse_pczt pczt_bytes) (\<lambda>parsed.
     require_legacy_orchard_recovery_support
       (case pz_orchard_bundle parsed of None \<Rightarrow> False | Some bundle \<Rightarrow> list_ex (\<lambda>a. sa_spend_value a \<noteq> 0) (sb_actions bundle))
       (case pz_ironwood_bundle parsed of None \<Rightarrow> False
        | Some bundle \<Rightarrow> list_ex (\<lambda>a. sa_value (ia_action a) \<noteq> 0) (ib_actions bundle)))"

section \<open>Reading the responses\<close>

record transparent_signature =
  ts_signature :: "byte list"
  ts_sighash_type :: byte

definition decode_transparent_signature :: "byte list \<Rightarrow> transparent_signature outcome" where
  "decode_transparent_signature response =
     (if length response < 9 \<or> 73 < length response
      then Inl (Message ''returned {} bytes; expected DER plus sighash type'' [ANat (length response)])
      else
        let signature = butlast response; sighash_type = last response in
        if unat (signature ! 0) div 2 \<noteq> 24 then Inl (Msg ''invalid DER sequence tag'')
        else if unat (signature ! 1) + 2 \<noteq> length signature then Inl (Msg ''invalid DER length'')
        else Inr \<lparr>ts_signature = signature, ts_sighash_type = sighash_type\<rparr>)"

definition spend_signature :: "byte list \<Rightarrow> byte list outcome" where
  "spend_signature payload =
     (if length payload \<noteq> 64
      then Inl (Message ''Ledger returned a {}-byte spend authorization signature; expected 64'' [ANat (length payload)])
      else if list_all (\<lambda>b. b = 0) payload then Inl (Msg ''Ledger returned an all-zero spend authorization signature'')
      else Inr payload)"

text \<open>The signature loop: transparent and shielded signatures are collected apart.\<close>

fun decode_signatures ::
    "(signature_request \<times> byte list) list \<Rightarrow> (transparent_signature list \<times> spend_auth_signature list) outcome" where
  "decode_signatures [] = Inr ([], [])"
| "decode_signatures ((Transparent_Request input_index, payload) # rest) =
     (case decode_transparent_signature payload of
        Inl e \<Rightarrow> Inl (Message ''Ledger transparent signature {input_index} is invalid: {error}'' [ANat input_index, AMsg e])
      | Inr signature \<Rightarrow> res_bind (decode_signatures rest) (\<lambda>(transparent, shielded). Inr (signature # transparent, shielded)))"
| "decode_signatures ((Shielded_Request pool action_index _, payload) # rest) =
     res_bind (spend_signature payload) (\<lambda>signature.
     res_bind (decode_signatures rest) (\<lambda>(transparent, shielded).
     Inr (transparent, \<lparr>sig_value_pool = pool, sig_action_index = action_index, sig_signature = signature\<rparr> # shielded)))"

definition response_count_error :: "nat \<Rightarrow> nat \<Rightarrow> message" where
  "response_count_error responses commands =
     Message ''Ledger returned {} APDU response(s); expected {}'' [ANat responses, ANat commands]"

definition decode_signing_responses ::
    "apdu_command list \<Rightarrow> signature_request list \<Rightarrow> byte list list
      \<Rightarrow> (transparent_signature list \<times> spend_auth_signature list) outcome" where
  "decode_signing_responses commands requests responses =
     res_bind (res_map (\<lambda>(index, response).
         if length commands \<le> index then Inl (response_count_error (length responses) (length commands))
         else decode_raw_response response) (List.enumerate 0 responses)) (\<lambda>payloads.
     if length responses \<noteq> length commands then Inl (response_count_error (length responses) (length commands))
     else
       let packet_count = length commands - length requests in
       res_bind (res_fold (\<lambda>(index, payload) _.
           if payload \<noteq> []
           then Inl (Message ''Ledger PCZT APDU {} returned unexpected response data'' [ANat (index + 1)])
           else Inr ()) (List.enumerate 0 (take packet_count payloads)) ()) (\<lambda>_.
       decode_signatures (zip requests (drop packet_count payloads))))"

definition finalize_pczt_signing ::
    "(byte list \<Rightarrow> parsed_pczt outcome) \<Rightarrow> (byte list \<Rightarrow> spend_auth_signature list \<Rightarrow> unit outcome)
      \<Rightarrow> byte list \<Rightarrow> byte list list \<Rightarrow> spend_auth_signature list outcome" where
  "finalize_pczt_signing parse_pczt preflight_device_signatures pczt_bytes responses =
     res_bind (build_signing_plan parse_pczt pczt_bytes False True) (\<lambda>(commands, requests).
     res_bind (decode_signing_responses commands requests responses) (\<lambda>(_, shielded).
     res_bind (preflight_device_signatures pczt_bytes shielded) (\<lambda>_. Inr shielded)))"

section \<open>The USB session\<close>

text \<open>\<open>map_err\<close>, and a loop that collects its results.\<close>

definition st_map_err :: "(message \<Rightarrow> message) \<Rightarrow> ('s, 'a) store_op \<Rightarrow> ('s, 'a) store_op" where
  "st_map_err f m s = (case m s of (Inl e, s) \<Rightarrow> (Inl (f e), s) | (Inr x, s) \<Rightarrow> (Inr x, s))"

fun st_map :: "('x \<Rightarrow> ('s, 'a) store_op) \<Rightarrow> 'x list \<Rightarrow> ('s, 'a list) store_op" where
  "st_map f [] = st_return []"
| "st_map f (x # xs) = st_bind (f x) (\<lambda>y. st_bind (st_map f xs) (\<lambda>ys. st_return (y # ys)))"

lemma st_map_err_Inr [res_simps]: "st_map_err f m s = (Inr y, s') \<longleftrightarrow> m s = (Inr y, s')"
  by (cases "m s"; cases "fst (m s)") (auto simp: st_map_err_def)

definition send_packets :: "(apdu_command \<Rightarrow> ('s, byte list) store_op) \<Rightarrow> byte \<Rightarrow> apdu_command list \<Rightarrow> ('s, unit) store_op" where
  "send_packets exchange instruction commands =
     st_each (\<lambda>(index, command).
       st_map_err (\<lambda>e. Message ''Ledger PCZT APDU {:#04x} packet {}/{} failed: {error}''
                        [ANat (unat instruction), ANat (index + 1), ANat (length commands), AMsg e])
         (st_bind (exchange command) (\<lambda>_. st_return ())))
       (List.enumerate 0 commands)"

text \<open>The progress callbacks of the user interface are left out.\<close>

definition send_pczt_with_progress ::
    "(apdu_command \<Rightarrow> ('s, byte list) store_op) \<Rightarrow> command_packets list \<Rightarrow> ('s, unit) store_op" where
  "send_pczt_with_progress exchange commands =
     st_each (\<lambda>command. st_bind (st_lift (packet_commands command)) (send_packets exchange (cp_instruction command))) commands"

definition sign_action ::
    "(apdu_command \<Rightarrow> ('s, byte list) store_op) \<Rightarrow> byte \<Rightarrow> nat \<Rightarrow> ('s, byte list) store_op" where
  "sign_action exchange instruction action_index =
     (if 256 \<le> action_index then st_fail (Msg ''Ledger action index exceeds the APDU range'')
      else st_bind (exchange \<lparr>ac_cla = ZCASH_CLA, ac_ins = instruction, ac_p1 = 0, ac_p2 = word_of_nat action_index, ac_data = []\<rparr>)
             (\<lambda>response. st_lift (spend_signature response)))"

definition decode_transparent_signature_response :: "byte list \<Rightarrow> transparent_signature outcome" where
  "decode_transparent_signature_response response =
     (if length response < 9 \<or> 73 < length response
      then Inl (Message ''Ledger returned a {}-byte transparent signature; expected DER plus sighash type'' [ANat (length response)])
      else
        let signature = butlast response; sighash_type = last response in
        if unat (signature ! 0) div 2 \<noteq> 24 then Inl (Msg ''Ledger transparent signature has an invalid DER sequence tag'')
        else if unat (signature ! 1) + 2 \<noteq> length signature then Inl (Msg ''Ledger transparent signature has an invalid DER length'')
        else Inr \<lparr>ts_signature = signature, ts_sighash_type = sighash_type\<rparr>)"

definition sign_transparent_input ::
    "(apdu_command \<Rightarrow> ('s, byte list) store_op) \<Rightarrow> nat \<Rightarrow> ('s, transparent_signature) store_op" where
  "sign_transparent_input exchange input_index =
     (if 256 \<le> input_index then st_fail (Msg ''Ledger input index exceeds the APDU range'')
      else st_bind (exchange \<lparr>ac_cla = ZCASH_CLA, ac_ins = 0x55, ac_p1 = 0, ac_p2 = word_of_nat input_index, ac_data = []\<rparr>)
             (\<lambda>response. st_lift (decode_transparent_signature_response response)))"

text \<open>The real spends of both pools, with the instruction that signs each.\<close>

definition shielded_requests :: "parsed_pczt \<Rightarrow> (value_pool \<times> nat \<times> byte) list" where
  "shielded_requests parsed =
     (case pz_orchard_bundle parsed of None \<Rightarrow> []
      | Some bundle \<Rightarrow> map (\<lambda>(index, _). (Orchard, index, 0x57))
          (filter (\<lambda>(_, action). sa_spend_value action \<noteq> 0) (List.enumerate 0 (sb_actions bundle))))
     @ (case pz_ironwood_bundle parsed of None \<Rightarrow> []
      | Some bundle \<Rightarrow> map (\<lambda>(index, _). (Ironwood, index, 0x59))
          (filter (\<lambda>(_, item). sa_spend_value (ia_action item) \<noteq> 0) (List.enumerate 0 (ib_actions bundle))))"

text \<open>What goes over the wire once the device is connected: the packets, then one command per signature.\<close>

definition exchange_signatures ::
    "(apdu_command \<Rightarrow> ('s, byte list) store_op) \<Rightarrow> command_packets list \<Rightarrow> nat \<Rightarrow> (value_pool \<times> nat \<times> byte) list
      \<Rightarrow> ('s, transparent_signature list \<times> spend_auth_signature list) store_op" where
  "exchange_signatures exchange commands inputs requests =
     st_bind (send_pczt_with_progress exchange commands) (\<lambda>_.
     st_bind (st_map (sign_transparent_input exchange) [0..<inputs]) (\<lambda>transparent.
     st_bind (st_map (\<lambda>(pool, action_index, instruction).
         st_bind (sign_action exchange instruction action_index) (\<lambda>signature.
         st_return \<lparr>sig_value_pool = pool, sig_action_index = action_index, sig_signature = signature\<rparr>)) requests) (\<lambda>shielded.
     st_return (transparent, shielded))))"

record device_app =
  da_name :: string
  da_version :: string

definition require_readiness_app :: "device_app \<Rightarrow> string \<Rightarrow> unit outcome" where
  "require_readiness_app app expected_version =
     (if da_name app = ''Zcash'' \<and> da_version app = expected_version then Inr ()
      else Inl (Msg ''Your Ledger changed. Keep one Ledger connected and try again.''))"

text \<open>
  A device: opening a session (the operation lock, the cooldown and the connection), the application
  it runs, and the exchange of one command.
\<close>

record 's device =
  dv_connect_signing :: "('s, unit) store_op"
  dv_current_app :: "('s, device_app) store_op"
  dv_exchange :: "apdu_command \<Rightarrow> ('s, byte list) store_op"

definition open_session :: "'s device \<Rightarrow> string option \<Rightarrow> ('s, unit) store_op" where
  "open_session device expected_app_version =
     st_bind (dv_connect_signing device) (\<lambda>_.
     case expected_app_version of None \<Rightarrow> st_return ()
     | Some version \<Rightarrow> st_bind (dv_current_app device) (\<lambda>app. st_lift (require_readiness_app app version)))"

definition sign_pczt_with_progress ::
    "(byte list \<Rightarrow> parsed_pczt outcome) \<Rightarrow> (byte list \<Rightarrow> spend_auth_signature list \<Rightarrow> unit outcome) \<Rightarrow> 's device
      \<Rightarrow> byte list \<Rightarrow> bool \<Rightarrow> string option \<Rightarrow> ('s, spend_auth_signature list) store_op" where
  "sign_pczt_with_progress parse_pczt preflight_device_signatures device pczt_bytes memo_hash_supported expected_app_version =
     st_bind (st_lift (parse_pczt pczt_bytes)) (\<lambda>parsed.
     if pz_transparent_inputs parsed \<noteq> []
     then st_fail (Msg ''PCZT has transparent inputs; use sign_pczt_full so Ledger produces every signature after one review'')
     else
       st_bind (st_lift (serialize_pczt parsed memo_hash_supported)) (\<lambda>commands.
       let requests = shielded_requests parsed in
       if requests = [] then st_fail (Msg ''PCZT has no real Orchard or Ironwood spends for Ledger to sign'')
       else
         st_bind (open_session device expected_app_version) (\<lambda>_.
         st_bind (exchange_signatures (dv_exchange device) commands 0 requests) (\<lambda>(_, signatures).
         st_bind (st_lift (preflight_device_signatures pczt_bytes signatures)) (\<lambda>_. st_return signatures)))))"

definition sign_pczt_full_with_progress ::
    "(byte list \<Rightarrow> parsed_pczt outcome)
      \<Rightarrow> (byte list \<Rightarrow> parsed_pczt \<Rightarrow> transparent_signature list \<Rightarrow> spend_auth_signature list \<Rightarrow> byte list outcome) \<Rightarrow> 's device
      \<Rightarrow> byte list \<Rightarrow> bool \<Rightarrow> string option \<Rightarrow> ('s, byte list) store_op" where
  "sign_pczt_full_with_progress parse_pczt apply_signatures device pczt_bytes memo_hash_supported expected_app_version =
     st_bind (st_lift (parse_pczt pczt_bytes)) (\<lambda>parsed.
     st_bind (st_lift (serialize_pczt parsed memo_hash_supported)) (\<lambda>commands.
     let inputs = length (pz_transparent_inputs parsed); requests = shielded_requests parsed in
     if inputs = 0 \<and> requests = []
     then st_fail (Msg ''PCZT has no real transparent, Orchard, or Ironwood spends for Ledger to sign'')
     else
       st_bind (open_session device expected_app_version) (\<lambda>_.
       st_bind (exchange_signatures (dv_exchange device) commands inputs requests) (\<lambda>(transparent, shielded).
       st_lift (apply_signatures pczt_bytes parsed transparent shielded)))))"

end
