(* ===== verification/Ledger_Props.thy ===== *)
theory Ledger_Props
  imports Ledger_Plan
begin

text \<open>
  What signing with a Ledger device guarantees. The commands determine the transaction that the device
  reviews; the packets of a transaction of the expected account fit their frames; the signatures that
  come back are those that were asked for; the USB session exchanges the commands of the plan.
\<close>

section \<open>The commands determine the transaction\<close>

lemma compact_count_inject:
  assumes "compact_size n = Inr bs" and "compact_size m = Inr bs"
  shows "n = m"
proof -
  have typed: "in_usize k" if "compact_size k = Inr bs" for k bs
    using that by (auto simp: compact_size_def in_usize_def split: if_splits)
  show ?thesis using compact_size.inject[OF assms typed[OF assms(1)] typed[OF assms(2)]] .
qed

lemma inputs_inject:
  assumes "serialize_transparent_inputs xs = Inr ps" and "serialize_transparent_inputs ys = Inr ps"
    and "\<forall>x \<in> set xs. input_typed x" and "\<forall>y \<in> set ys. input_typed y"
  shows "xs = ys"
proof -
  obtain n bss where x: "compact_size (length xs) = Inr n" "res_map input_packets xs = Inr bss" "ps = n # concat bss"
    using assms(1) by (auto simp: serialize_transparent_inputs_def res_simps)
  obtain m css where y: "compact_size (length ys) = Inr m" "res_map input_packets ys = Inr css" "ps = m # concat css"
    using assms(2) by (auto simp: serialize_transparent_inputs_def res_simps)
  have "length xs = length ys" using compact_count_inject x(1,3) y(1,3) by simp
  then show ?thesis
    using inputs.unique_sequence[OF x(2) y(2) assms(3,4), of "[]" "[]"] x(3) y(3) by simp
qed

lemma outputs_inject:
  assumes "serialize_transparent_outputs xs = Inr ps" and "serialize_transparent_outputs ys = Inr ps"
    and "\<forall>x \<in> set xs. output_typed x" and "\<forall>y \<in> set ys. output_typed y"
  shows "xs = ys"
proof -
  obtain n bss where x: "compact_size (length xs) = Inr n" "res_map output_packets xs = Inr bss" "ps = n # concat bss"
    using assms(1) by (auto simp: serialize_transparent_outputs_def res_simps)
  obtain m css where y: "compact_size (length ys) = Inr m" "res_map output_packets ys = Inr css" "ps = m # concat css"
    using assms(2) by (auto simp: serialize_transparent_outputs_def res_simps)
  have "length xs = length ys" using compact_count_inject x(1,3) y(1,3) by simp
  then show ?thesis
    using outputs.unique_sequence[OF x(2) y(2) assms(3,4), of "[]" "[]"] x(3) y(3) by simp
qed

lemma shielded_count:
  assumes "serialize_shielded_bundle acts flags balance anchor nv = Inr ps"
  shows "compact_size (length acts) = Inr (hd ps)" and "length acts \<le> MAX_SHIELDED_ACTIONS"
  using assms by (auto simp: serialize_shielded_bundle_def ensure_count_def res_simps split: if_splits)

lemma empty_bundle: "serialize_shielded_bundle acts flags balance anchor nv = Inr [[0]] \<Longrightarrow> acts = []"
  using compact_count_inject[of "length acts" "[0]" 0] shielded_count(1)[of acts flags balance anchor nv "[[0]]"]
  by (simp add: compact_size_def[of 0])

definition bundle_typed :: "shielded_bundle \<Rightarrow> bool" where
  "bundle_typed b \<longleftrightarrow> sb_actions b \<noteq> [] \<and> (\<forall>a \<in> set (sb_actions b). action_typed a) \<and> length (sb_anchor b) = 32"

lemma in_usize_small: "n \<le> MAX_SHIELDED_ACTIONS \<Longrightarrow> in_usize n"
  by (simp add: in_usize_def MAX_SHIELDED_ACTIONS_def)

lemma orchard_inject:
  assumes "serialize_orchard_bundle x = Inr ps" and "serialize_orchard_bundle y = Inr ps"
    and "pred_option bundle_typed x" and "pred_option bundle_typed y"
  shows "x = y"
proof (cases x; cases y)
  fix a b assume xy: "x = Some a" "y = Some b"
  have a: "serialize_shielded_bundle (sb_actions a) (sb_flags a) (sb_value_balance a) (sb_anchor a) (\<lambda>_. None) = Inr ps"
    and b: "serialize_shielded_bundle (sb_actions b) (sb_flags b) (sb_value_balance b) (sb_anchor b) (\<lambda>_. None) = Inr ps"
    using assms(1,2) by (simp_all add: xy serialize_orchard_bundle_def)
  show ?thesis
    using bundle_inject[OF a _ b] assms(3,4) in_usize_small shielded_count(2)[OF a] shielded_count(2)[OF b]
    by (simp add: xy bundle_typed_def)
next
  fix a assume "x = Some a" "y = None"
  then show ?thesis
    using assms empty_bundle by (auto simp: serialize_orchard_bundle_def bundle_typed_def)
next
  fix b assume "x = None" "y = Some b"
  then show ?thesis
    using assms empty_bundle by (auto simp: serialize_orchard_bundle_def bundle_typed_def)
qed simp

definition ironwood_typed :: "ironwood_bundle \<Rightarrow> bool" where
  "ironwood_typed b \<longleftrightarrow> ib_actions b \<noteq> [] \<and> (\<forall>a \<in> set (ib_actions b). action_typed (ia_action a)) \<and> length (ib_anchor b) = 32"

lemma versioned_actions:
  fixes xs ys :: "ironwood_action list"
  assumes "map ia_action xs = map ia_action ys"
    and "\<forall>i < length xs. ia_note_plaintext_version (xs ! i) = ia_note_plaintext_version (ys ! i)"
  shows "xs = ys"
proof (rule nth_equalityI)
  show len: "length xs = length ys" using map_eq_imp_length_eq[OF assms(1)] .
  fix i assume i: "i < length xs"
  then have "ia_action (xs ! i) = ia_action (ys ! i)"
    using arg_cong[OF assms(1), of "\<lambda>zs. zs ! i"] len by simp
  then show "xs ! i = ys ! i" using assms(2) i by (intro ironwood_action.equality) simp_all
qed

lemma ironwood_inject:
  assumes "serialize_ironwood_bundle x = Inr ps" and "serialize_ironwood_bundle y = Inr ps"
    and "pred_option ironwood_typed x" and "pred_option ironwood_typed y"
  shows "x = y"
proof (cases x; cases y)
  fix a b assume xy: "x = Some a" "y = Some b"
  have a: "serialize_shielded_bundle (map ia_action (ib_actions a)) (ib_flags a) (ib_value_balance a) (ib_anchor a)
      (\<lambda>i. Some (ia_note_plaintext_version (ib_actions a ! i))) = Inr ps"
    and b: "serialize_shielded_bundle (map ia_action (ib_actions b)) (ib_flags b) (ib_value_balance b) (ib_anchor b)
      (\<lambda>i. Some (ia_note_plaintext_version (ib_actions b ! i))) = Inr ps"
    using assms(1,2) by (simp_all add: xy serialize_ironwood_bundle_def)
  have "map ia_action (ib_actions a) = map ia_action (ib_actions b) \<and> ib_flags a = ib_flags b
      \<and> ib_value_balance a = ib_value_balance b \<and> ib_anchor a = ib_anchor b
      \<and> (\<forall>i < length (map ia_action (ib_actions a)). Some (ia_note_plaintext_version (ib_actions a ! i)) = Some (ia_note_plaintext_version (ib_actions b ! i)))"
    using assms(3,4) shielded_count(2)[OF a] shielded_count(2)[OF b]
    by (intro bundle_inject[OF a _ b]) (auto simp: xy ironwood_typed_def in_usize_small)
  moreover from this have "ib_actions a = ib_actions b" by (intro versioned_actions) auto
  ultimately show ?thesis by (simp add: xy)
next
  fix a assume "x = Some a" "y = None"
  then show ?thesis
    using assms empty_bundle
    by (fastforce simp: serialize_ironwood_bundle_def ironwood_typed_def)
next
  fix b assume "x = None" "y = Some b"
  then show ?thesis
    using assms empty_bundle
    by (fastforce simp: serialize_ironwood_bundle_def ironwood_typed_def)
qed simp

text \<open>The payloads that the commands of a sequence carry for one instruction.\<close>

definition payloads_of :: "byte \<Rightarrow> apdu_command list \<Rightarrow> byte list list" where
  "payloads_of instruction commands = map ac_data (filter (\<lambda>c. ac_ins c = instruction) commands)"

lemma payloads_of_append: "payloads_of i (xs @ ys) = payloads_of i xs @ payloads_of i ys"
  by (simp add: payloads_of_def)

lemma payloads_of_packets:
  assumes "packet_commands command = Inr cs"
  shows "payloads_of i cs = (if cp_instruction command = i then cp_packets command else [])"
  using assms
  by (auto simp: packet_commands_def payloads_of_def filter_map comp_def split_def split: if_splits)

lemma payloads_of_all:
  "res_map packet_commands cmds = Inr css
    \<Longrightarrow> payloads_of i (concat css) = concat (map cp_packets (filter (\<lambda>c. cp_instruction c = i) cmds))"
  by (induction cmds arbitrary: css) (auto simp: res_simps payloads_of_packets payloads_of_append payloads_of_def[of _ "[]"])

lemma request_instruction: "request_command r = Inr c \<Longrightarrow> r \<in> set (signature_requests include_transparent p) \<Longrightarrow> ac_ins c \<in> {0x55, 0x57, 0x59}"
  by (auto simp: request_command_def signature_requests_def real_spends_def Let_def split: if_splits option.splits)

lemma res_map_member: "res_map f xs = Inr ys \<Longrightarrow> y \<in> set ys \<Longrightarrow> \<exists>x \<in> set xs. f x = Inr y"
  by (induction xs arbitrary: ys) (auto simp: res_simps)

lemma signing_instructions:
  assumes "res_map request_command (signature_requests include_transparent p) = Inr signing" and "c \<in> set signing"
  shows "ac_ins c \<in> {0x55, 0x57, 0x59}"
  using res_map_member[OF assms] request_instruction by blast

lemma plan_Inr:
  assumes "build_signing_plan parse bytes include_transparent memo = Inr (commands, requests)"
  obtains parsed serialized css signing where "parse bytes = Inr parsed" "serialize_pczt parsed memo = Inr serialized"
    "res_map packet_commands serialized = Inr css" "requests = signature_requests include_transparent parsed" "requests \<noteq> []"
    "res_map request_command requests = Inr signing" "commands = concat css @ signing"
  using assms by (auto simp: build_signing_plan_def Let_def res_simps split: if_splits)

lemma plan_payloads:
  assumes "serialize_pczt p memo = Inr serialized" and "res_map packet_commands serialized = Inr css"
    and "res_map request_command (signature_requests include_transparent p) = Inr signing"
  shows "payloads_of 0x52 (concat css @ signing) = [serialize_header (pz_global p)]"
    and "serialize_transparent_inputs (pz_transparent_inputs p) = Inr (payloads_of 0x53 (concat css @ signing))"
    and "serialize_transparent_outputs (pz_transparent_outputs p) = Inr (payloads_of 0x54 (concat css @ signing))"
    and "serialize_orchard_bundle (pz_orchard_bundle p) = Inr (payloads_of 0x56 (concat css @ signing))"
    and "6 \<le> gl_tx_version (pz_global p) \<Longrightarrow> serialize_ironwood_bundle (pz_ironwood_bundle p) = Inr (payloads_of 0x58 (concat css @ signing))"
proof -
  have none: "payloads_of i signing = []" if "i \<notin> {0x55, 0x57, 0x59}" for i
    using signing_instructions[OF assms(3)] that unfolding payloads_of_def by (fastforce simp: filter_empty_conv)
  have "payloads_of i (concat css @ signing) = concat (map cp_packets (filter (\<lambda>c. cp_instruction c = i) serialized))"
    if "i \<notin> {0x55, 0x57, 0x59}" for i
    using none[OF that] payloads_of_all[OF assms(2)] by (simp add: payloads_of_append)
  note all = this[of "0x52"] this[of "0x53"] this[of "0x54"] this[of "0x56"] this[of "0x58"]
  note shape = assms(1)[unfolded serialize_pczt_def Let_def]
  show "payloads_of 0x52 (concat css @ signing) = [serialize_header (pz_global p)]"
    using shape by (auto simp: all res_simps split: if_splits)
  show "serialize_transparent_inputs (pz_transparent_inputs p) = Inr (payloads_of 0x53 (concat css @ signing))"
    using shape by (auto simp: all res_simps split: if_splits)
  show "serialize_transparent_outputs (pz_transparent_outputs p) = Inr (payloads_of 0x54 (concat css @ signing))"
    using shape by (auto simp: all res_simps split: if_splits)
  show "serialize_orchard_bundle (pz_orchard_bundle p) = Inr (payloads_of 0x56 (concat css @ signing))"
    using shape by (auto simp: all res_simps split: if_splits)
  show "serialize_ironwood_bundle (pz_ironwood_bundle p) = Inr (payloads_of 0x58 (concat css @ signing))"
    if "6 \<le> gl_tx_version (pz_global p)"
    using shape that by (auto simp: all res_simps split: if_splits)
qed

lemma typed_bundles:
  assumes "pczt_typed p"
  shows "pred_option bundle_typed (pz_orchard_bundle p)" and "pred_option ironwood_typed (pz_ironwood_bundle p)"
  using assms by (auto simp: pczt_typed_def bundle_typed_def ironwood_typed_def pred_option_def)

text \<open>
  C11: The commands sent to a Ledger device determine the transaction: two transactions with the same
  sequence of commands have the same header fields, inputs, outputs and actions of both pools, with
  every amount, script, derivation path and ciphertext. What the device reviews and signs can only be
  the transaction that the wallet prepared.
\<close>

theorem commands_determine_the_transaction:
  assumes "build_signing_plan parse x full memo = Inr (commands, requests)" and "parse x = Inr p" and "pczt_typed p"
    and "build_signing_plan parse y full' memo' = Inr (commands, requests')" and "parse y = Inr q" and "pczt_typed q"
  shows "p\<lparr>pz_memo_reaches_hash_path := False\<rparr> = q\<lparr>pz_memo_reaches_hash_path := False\<rparr>"
proof -
  obtain sp cp gp where p: "serialize_pczt p memo = Inr sp" "res_map packet_commands sp = Inr cp"
    "res_map request_command (signature_requests full p) = Inr gp" "commands = concat cp @ gp"
    using plan_Inr[OF assms(1)] assms(2) by (metis sum.inject(2))
  obtain sq cq gq where q: "serialize_pczt q memo' = Inr sq" "res_map packet_commands sq = Inr cq"
    "res_map request_command (signature_requests full' q) = Inr gq" "commands = concat cq @ gq"
    using plan_Inr[OF assms(4)] assms(5) by (metis sum.inject(2))
  note pp = plan_payloads[OF p(1-3), folded p(4)] and qq = plan_payloads[OF q(1-3), folded q(4)]
  have g: "pz_global p = pz_global q"
    using pp(1) qq(1) assms(3,6) header_inject by (simp add: pczt_typed_def)
  moreover have "pz_transparent_inputs p = pz_transparent_inputs q"
    using inputs_inject[OF pp(2) qq(2)] assms(3,6) by (simp add: pczt_typed_def)
  moreover have "pz_transparent_outputs p = pz_transparent_outputs q"
    using outputs_inject[OF pp(3) qq(3)] assms(3,6) by (simp add: pczt_typed_def)
  moreover have "pz_orchard_bundle p = pz_orchard_bundle q"
    by (rule orchard_inject[OF pp(4) qq(4) typed_bundles(1)[OF assms(3)] typed_bundles(1)[OF assms(6)]])
  moreover have "pz_ironwood_bundle p = pz_ironwood_bundle q"
  proof (cases "6 \<le> gl_tx_version (pz_global p)")
    case True
    then show ?thesis
      using ironwood_inject[OF pp(5) qq(5) typed_bundles(2)[OF assms(3)] typed_bundles(2)[OF assms(6)]] g by simp
  next
    case False
    then show ?thesis using assms(3,6) g by (simp add: pczt_typed_def)
  qed
  ultimately show ?thesis by simp
qed

section \<open>The packets fit their frames\<close>

lemma validate_each_from:
  "res_fold (\<lambda>(index, item) _. validate index item) (List.enumerate n items) () = Inr ()
    \<longleftrightarrow> (\<forall>i < length items. validate (n + i) (items ! i) = Inr ())"
proof (induction items arbitrary: n)
  case (Cons x xs)
  have "(\<forall>i < Suc (length xs). validate (n + i) ((x # xs) ! i) = Inr ())
      \<longleftrightarrow> validate n x = Inr () \<and> (\<forall>i < length xs. validate (Suc n + i) (xs ! i) = Inr ())"
    by (auto simp: All_less_Suc2)
  then show ?case using Cons.IH[of "Suc n"] by (cases "validate n x") auto
qed simp

lemma validate_each_iff: "validate_each validate items = Inr () \<longleftrightarrow> (\<forall>i < length items. validate i (items ! i) = Inr ())"
  using validate_each_from[of validate 0 items] by (simp add: validate_each_def)

lemma validate_each_member:
  "validate_each validate items = Inr () \<Longrightarrow> x \<in> set items \<Longrightarrow> \<exists>i. validate i x = Inr ()"
  by (auto simp: validate_each_iff in_set_conv_nth)

lemma shielded_path: "validate_shielded_derivation path fp expected label = Inr () \<Longrightarrow> length path = 3"
  by (auto simp: validate_shielded_derivation_def split: if_splits)

lemma account_paths:
  assumes "validate_pczt_account parse bytes expected = Inr ()" and "parse bytes = Inr p"
  shows "pz_orchard_bundle p = Some b \<Longrightarrow> a \<in> set (sb_actions b) \<Longrightarrow> length (sa_signing_path a) = 3"
    and "pz_ironwood_bundle p = Some i \<Longrightarrow> x \<in> set (ib_actions i) \<Longrightarrow> length (sa_signing_path (ia_action x)) = 3"
proof -
  have orchard: "validate_each (\<lambda>index action. validate_shielded_derivation (sa_signing_path action)
        (sa_seed_fingerprint action) expected (Message ''Orchard action {index}'' [ANat index])) (sb_actions b) = Inr ()"
    if "pz_orchard_bundle p = Some b"
    using assms that by (auto simp: validate_pczt_account_def res_simps split: if_splits)
  have ironwood: "validate_each (\<lambda>index item. validate_shielded_derivation (sa_signing_path (ia_action item))
        (sa_seed_fingerprint (ia_action item)) expected (Message ''Ironwood action {index}'' [ANat index])) (ib_actions i) = Inr ()"
    if "pz_ironwood_bundle p = Some i"
    using assms that by (auto simp: validate_pczt_account_def res_simps split: if_splits option.splits)
  show "length (sa_signing_path a) = 3" if "pz_orchard_bundle p = Some b" "a \<in> set (sb_actions b)"
    using validate_each_member[OF orchard[OF that(1)] that(2)] shielded_path by blast
  show "length (sa_signing_path (ia_action x)) = 3" if "pz_ironwood_bundle p = Some i" "x \<in> set (ib_actions i)"
    using validate_each_member[OF ironwood[OF that(1)] that(2)] shielded_path by blast
qed

definition fits :: "byte list list \<Rightarrow> bool" where
  "fits packets \<longleftrightarrow> (\<forall>packet \<in> set packets. length packet \<le> MAX_PACKET_SIZE)"

lemma fits_simps [simp]:
  "fits []" "fits (p # ps) \<longleftrightarrow> length p \<le> MAX_PACKET_SIZE \<and> fits ps" "fits (ps @ qs) \<longleftrightarrow> fits ps \<and> fits qs"
  "fits (concat pss) \<longleftrightarrow> (\<forall>ps \<in> set pss. fits ps)"
  by (auto simp: fits_def)

lemma field_fits: "field_packets f = Inr ps \<Longrightarrow> fits ps"
  using chunk_length by (fastforce simp: fits_def MAX_PACKET_SIZE_def elim!: field_bytes)

lemma optional_length: "length (push_optional_u32_le v) \<le> 5"
  by (simp add: push_optional_u32_le_def split: option.splits)

lemma derivation_fits: "serialize_bip32_derivation d = Inr bs \<Longrightarrow> length bs \<le> MAX_PACKET_SIZE"
  by (cases d) (auto simp: serialize_bip32_derivation_def[of None] MAX_PACKET_SIZE_def elim: derivation_bytes)

lemma compact_fits: "compact_size n = Inr bs \<Longrightarrow> length bs \<le> MAX_PACKET_SIZE"
  by (auto simp: compact_size_def MAX_PACKET_SIZE_def split: if_splits)

lemma input_fits: "input_packets t = Inr ps \<Longrightarrow> input_typed t \<Longrightarrow> fits ps"
  using optional_length[of "ti_sequence t"]
  by (auto simp: input_packets_def input_typed_def Let_def res_simps field_fits ensure_packet_size_def
      MAX_PACKET_SIZE_def split: if_splits)

lemma output_fits: "output_packets t = Inr ps \<Longrightarrow> fits ps"
  using derivation_fits by (auto simp: output_packets_def res_simps field_fits MAX_PACKET_SIZE_def)

lemma action_fits:
  assumes "serialize_shielded_action a v = Inr ps" and "action_typed a" and "length (sa_signing_path a) = 3"
  shows "fits ps"
  using assms(1)
proof (rule action_packets)
  fix path enc out
  assume parts: "pack_derivation_path (sa_signing_path a) = Inr path"
    "field_packets (sa_enc_ciphertext a) = Inr enc" "field_packets (sa_out_ciphertext a) = Inr out"
    and ps: "ps = (sa_cv_net a @ sa_nullifier a @ sa_rk a @ sa_spend_recipient a @ le 8 (sa_spend_value a) @ sa_spend_rho a
            @ sa_spend_rseed a @ sa_alpha a)
       # (sa_seed_fingerprint a @ path) # (sa_cmx a @ sa_ephemeral_key a)
       # enc @ out @ [sa_recipient a @ le 8 (sa_value a) @ sa_rseed a @ sa_rcv a
           @ (case v of Some version \<Rightarrow> [version] | None \<Rightarrow> [])]"
  have "length path = 13" using path_bytes(3)[OF parts(1)] assms(3) by simp
  then show ?thesis
    using assms(2) field_fits[OF parts(2)] field_fits[OF parts(3)]
    by (simp add: ps action_typed_def MAX_PACKET_SIZE_def split: option.splits)
qed

lemma bundle_fits:
  assumes "serialize_shielded_bundle acts flags balance anchor nv = Inr ps"
    and "\<And>a. a \<in> set acts \<Longrightarrow> action_typed a \<and> length (sa_signing_path a) = 3" and "length anchor = 32"
  shows "fits ps"
proof (cases "acts = []")
  case True
  then show ?thesis using assms(1) compact_fits by (auto simp: serialize_shielded_bundle_def res_simps)
next
  case False
  obtain n bss where p: "compact_size (length acts) = Inr n"
    "res_map versioned_packets (map (\<lambda>(i, a). (a, nv i)) (List.enumerate 0 acts)) = Inr bss"
    "ps = n # concat bss @ [flags # le 8 (nat \<bar>balance\<bar>) @ [if balance < 0 then 1 else 0] @ anchor]"
    by (rule bundle_packets[OF assms(1) False])
  have "fits bs" if bs: "bs \<in> set bss" for bs
  proof -
    obtain a v where a: "(a, v) \<in> set (map (\<lambda>(i, a). (a, nv i)) (List.enumerate 0 acts))" "versioned_packets (a, v) = Inr bs"
      using res_map_member[OF p(2) bs] by (metis surj_pair)
    then have "a \<in> set acts" by (auto simp: in_set_enumerate_eq)
    then show ?thesis using a(2) action_fits assms(2) by (auto simp: versioned_packets_def)
  qed
  then show ?thesis using compact_fits[OF p(1)] assms(3) by (simp add: p(3) MAX_PACKET_SIZE_def)
qed

lemma transaction_fits:
  assumes "serialize_pczt p memo = Inr commands" and "pczt_typed p" and "command \<in> set commands"
    and "\<And>b a. pz_orchard_bundle p = Some b \<Longrightarrow> a \<in> set (sb_actions b) \<Longrightarrow> length (sa_signing_path a) = 3"
    and "\<And>b x. pz_ironwood_bundle p = Some b \<Longrightarrow> x \<in> set (ib_actions b) \<Longrightarrow> length (sa_signing_path (ia_action x)) = 3"
  shows "fits (cp_packets command)"
proof -
  have header: "fits [serialize_header (pz_global p)]"
    using optional_length[of "gl_fallback_lock_time (pz_global p)"] by (simp add: serialize_header_def MAX_PACKET_SIZE_def)
  have inputs: "fits ps" if ps: "serialize_transparent_inputs (pz_transparent_inputs p) = Inr ps" for ps
  proof -
    obtain n bss where x: "compact_size (length (pz_transparent_inputs p)) = Inr n"
        "res_map input_packets (pz_transparent_inputs p) = Inr bss" "ps = n # concat bss"
      using ps by (auto simp: serialize_transparent_inputs_def res_simps)
    show ?thesis
      using compact_fits[OF x(1)] res_map_member[OF x(2)] input_fits assms(2) by (fastforce simp: x(3) pczt_typed_def)
  qed
  have outputs: "fits ps" if ps: "serialize_transparent_outputs (pz_transparent_outputs p) = Inr ps" for ps
  proof -
    obtain n bss where x: "compact_size (length (pz_transparent_outputs p)) = Inr n"
        "res_map output_packets (pz_transparent_outputs p) = Inr bss" "ps = n # concat bss"
      using ps by (auto simp: serialize_transparent_outputs_def res_simps)
    show ?thesis using compact_fits[OF x(1)] res_map_member[OF x(2)] output_fits by (fastforce simp: x(3))
  qed
  have empty: "fits [[0]]" by (simp add: MAX_PACKET_SIZE_def)
  have orchard: "fits ps" if ps: "serialize_orchard_bundle (pz_orchard_bundle p) = Inr ps" for ps
  proof (cases "pz_orchard_bundle p")
    case (Some b)
    then show ?thesis
      using ps assms(2,4) by (intro bundle_fits[of "sb_actions b" "sb_flags b" "sb_value_balance b" "sb_anchor b" "\<lambda>_. None"])
        (auto simp: serialize_orchard_bundle_def pczt_typed_def)
  qed (use ps empty in \<open>simp add: serialize_orchard_bundle_def\<close>)
  have ironwood: "fits ps" if ps: "serialize_ironwood_bundle (pz_ironwood_bundle p) = Inr ps" for ps
  proof (cases "pz_ironwood_bundle p")
    case (Some b)
    then show ?thesis
      using ps assms(2,5)
      by (intro bundle_fits[of "map ia_action (ib_actions b)" "ib_flags b" "ib_value_balance b" "ib_anchor b"
            "\<lambda>index. Some (ia_note_plaintext_version (ib_actions b ! index))"])
        (auto simp: serialize_ironwood_bundle_def pczt_typed_def)
  qed (use ps empty in \<open>simp add: serialize_ironwood_bundle_def\<close>)
  show ?thesis
    using assms(1,3) header inputs outputs orchard ironwood
    by (auto simp: serialize_pczt_def Let_def res_simps split: if_splits)
qed

text \<open>
  C24: Every command of a plan for a transaction of the expected account fits one frame: its payload has
  at most 255 bytes. The account check is what bounds the derivation packet of an action, whose length
  the serializer itself does not check.
\<close>

theorem commands_fit_their_frames:
  assumes "validate_pczt_account parse bytes expected = Inr ()" and "parse bytes = Inr p" and "pczt_typed p"
    and "build_signing_plan parse bytes full memo = Inr (commands, requests)" and "c \<in> set commands"
  shows "length (ac_data c) \<le> MAX_PACKET_SIZE"
proof -
  obtain sp cp gp where p: "serialize_pczt p memo = Inr sp" "res_map packet_commands sp = Inr cp"
    "res_map request_command requests = Inr gp" "commands = concat cp @ gp"
    using plan_Inr[OF assms(4)] assms(2) by (metis sum.inject(2))
  consider cs where "cs \<in> set cp" "c \<in> set cs" | "c \<in> set gp" using assms(5) p(4) by auto
  then show ?thesis
  proof cases
    case 1
    then obtain command where "command \<in> set sp" "packet_commands command = Inr cs" using res_map_member[OF p(2)] by blast
    moreover from this have "ac_data c \<in> set (cp_packets command)"
      using 1(2) by (auto simp: packet_commands_def in_set_enumerate_eq split: if_splits)
    ultimately show ?thesis
      using transaction_fits[OF p(1) assms(3)] account_paths[OF assms(1,2)] by (auto simp: fits_def)
  next
    case 2
    then obtain r where "request_command r = Inr c" using res_map_member[OF p(3)] by blast
    then show ?thesis by (auto simp: request_command_def Let_def split: prod.splits if_splits)
  qed
qed

lemma status_ok: "decode_raw_response (reply @ [0x90, 0]) = Inr reply"
  by (simp add: decode_raw_response_def RESPONSE_OK_def be_nat_def)

lemma decode_ok_responses:
  assumes "k + length replies \<le> n"
  shows "res_map (\<lambda>(index, response). if n \<le> index then Inl e else decode_raw_response response)
      (List.enumerate k (map (\<lambda>reply. reply @ [0x90, 0]) replies)) = Inr replies"
  using assms by (induction replies arbitrary: k) (simp_all add: status_ok)

lemma no_payloads:
  "(\<forall>reply \<in> set replies. reply = []) \<Longrightarrow> res_fold (\<lambda>(index, payload) _. if payload \<noteq> [] then Inl (e index) else Inr ())
      (List.enumerate k replies) () = Inr ()"
  by (induction replies arbitrary: k) simp_all

section \<open>Signatures answer requests\<close>

text \<open>The pool and the index of a shielded request, and the input of a transparent one.\<close>

fun shielded_target :: "signature_request \<Rightarrow> (value_pool \<times> nat) option" where
  "shielded_target (Shielded_Request pool action_index _) = Some (pool, action_index)"
| "shielded_target (Transparent_Request _) = None"

definition shielded_targets :: "signature_request list \<Rightarrow> (value_pool \<times> nat) list" where
  "shielded_targets requests = List.map_filter shielded_target requests"

definition spend_signature_ok :: "spend_auth_signature \<Rightarrow> bool" where
  "spend_signature_ok s \<longleftrightarrow> length (sig_signature s) = 64 \<and> sig_signature s \<noteq> replicate 64 0"

lemma spend_signature_Inr: "spend_signature payload = Inr s \<longleftrightarrow> s = payload \<and> length payload = 64 \<and> payload \<noteq> replicate 64 0"
  by (auto simp: spend_signature_def list_all_iff replicate_eqI dest: replicate_eqI[where x = 0] split: if_splits)

lemma decoded_signatures:
  assumes "decode_signatures (zip requests payloads) = Inr (transparent, shielded)" and "length payloads = length requests"
  shows "map (\<lambda>s. (sig_value_pool s, sig_action_index s)) shielded = shielded_targets requests"
    and "length transparent = length (filter (\<lambda>r. shielded_target r = None) requests)"
    and "\<forall>s \<in> set shielded. spend_signature_ok s"
proof -
  have "map (\<lambda>s. (sig_value_pool s, sig_action_index s)) shielded = shielded_targets requests
    \<and> length transparent = length (filter (\<lambda>r. shielded_target r = None) requests) \<and> (\<forall>s \<in> set shielded. spend_signature_ok s)"
    using assms
  proof (induction requests arbitrary: payloads transparent shielded)
    case Nil
    then show ?case by (simp add: shielded_targets_def map_filter_def)
  next
    case (Cons r requests)
    obtain p ps where ps: "payloads = p # ps" "length ps = length requests" using Cons.prems(2) by (cases payloads) auto
    note IH = Cons.IH[OF _ ps(2)]
    show ?case
    proof (cases r)
      case (Transparent_Request i)
      then obtain t ts where "decode_signatures (zip requests ps) = Inr (ts, shielded)" "transparent = t # ts"
        using Cons.prems(1) by (auto simp: ps(1) res_simps split: sum.splits)
      with IH show ?thesis by (simp add: Transparent_Request shielded_targets_def map_filter_simps)
    next
      case (Shielded_Request pool j ins)
      then obtain s ss where rest: "spend_signature p = Inr s" "decode_signatures (zip requests ps) = Inr (transparent, ss)"
          "shielded = \<lparr>sig_value_pool = pool, sig_action_index = j, sig_signature = s\<rparr> # ss"
        using Cons.prems(1) by (auto simp: ps(1) res_simps)
      then show ?thesis
        using IH[OF rest(2)] rest(1)
        by (simp add: Shielded_Request shielded_targets_def map_filter_simps spend_signature_ok_def spend_signature_Inr)
    qed
  qed
  then show "map (\<lambda>s. (sig_value_pool s, sig_action_index s)) shielded = shielded_targets requests"
    "length transparent = length (filter (\<lambda>r. shielded_target r = None) requests)" "\<forall>s \<in> set shielded. spend_signature_ok s"
    by simp_all
qed

lemma requested_targets:
  "shielded_targets (signature_requests full p)
    = (case pz_orchard_bundle p of None \<Rightarrow> []
       | Some b \<Rightarrow> map (\<lambda>i. (Orchard, i)) (filter (\<lambda>i. sa_spend_value (sb_actions b ! i) \<noteq> 0) [0..<length (sb_actions b)]))
    @ (case pz_ironwood_bundle p of None \<Rightarrow> []
       | Some b \<Rightarrow> map (\<lambda>i. (Ironwood, i)) (filter (\<lambda>i. sa_spend_value (ia_action (ib_actions b ! i)) \<noteq> 0) [0..<length (ib_actions b)]))"
proof -
  have spends: "shielded_targets (real_spends pool ins acts)
      = map (\<lambda>i. (pool, i)) (filter (\<lambda>i. sa_spend_value (acts ! i) \<noteq> 0) [0..<length acts])" for pool ins acts
  proof -
    have "List.enumerate 0 acts = map (\<lambda>i. (i, acts ! i)) [0..<length acts]"
      by (rule nth_equalityI) (simp_all add: nth_enumerate_eq)
    moreover have "shielded_targets (map (\<lambda>i. Shielded_Request pool i ins) zs) = map (Pair pool) zs" for zs
      by (induction zs) (auto simp: shielded_targets_def map_filter_simps)
    ultimately show ?thesis by (simp add: real_spends_def filter_map comp_def)
  qed
  have none: "shielded_targets (map Transparent_Request is) = []" for "is"
    by (induction "is") (simp_all add: shielded_targets_def map_filter_simps)
  have app: "shielded_targets (xs @ ys) = shielded_targets xs @ shielded_targets ys" for xs ys
    by (simp add: shielded_targets_def map_filter_def)
  have nil: "shielded_targets [] = []" by (simp add: shielded_targets_def map_filter_simps)
  have ironwood: "shielded_targets (real_spends Ironwood ins (map ia_action xs))
      = map (\<lambda>i. (Ironwood, i)) (filter (\<lambda>i. sa_spend_value (ia_action (xs ! i)) \<noteq> 0) [0..<length xs])" for ins xs
    unfolding spends by (intro arg_cong[of _ _ "map (\<lambda>i. (Ironwood, i))"] filter_cong) simp_all
  show ?thesis
    unfolding signature_requests_def app
    by (cases full; cases "pz_orchard_bundle p"; cases "pz_ironwood_bundle p")
      (simp_all only: none nil spends[of Orchard] ironwood option.case if_True if_False append.left_neutral append_Nil2)
qed

lemma requested_inputs: "length (filter (\<lambda>r. shielded_target r = None) (signature_requests full p))
    = (if full then length (pz_transparent_inputs p) else 0)"
proof -
  have spends: "filter (\<lambda>r. shielded_target r = None) (real_spends pool ins acts) = []" for pool ins acts
    by (auto simp: real_spends_def filter_empty_conv)
  have inputs: "filter (\<lambda>r. shielded_target r = None) (map Transparent_Request is) = map Transparent_Request is" for "is"
    by (induction "is") simp_all
  show ?thesis by (simp add: signature_requests_def spends inputs split: option.splits)
qed

lemma responses_decoded:
  assumes "decode_signing_responses commands requests responses = Inr (transparent, shielded)" and "length requests \<le> length commands"
  obtains payloads where "length payloads = length requests"
    "decode_signatures (zip requests payloads) = Inr (transparent, shielded)" "length responses = length commands"
proof -
  obtain payloads where p: "res_map (\<lambda>(index, response).
         if length commands \<le> index then Inl (response_count_error (length responses) (length commands))
         else decode_raw_response response) (List.enumerate 0 responses) = Inr payloads" "length responses = length commands"
      "decode_signatures (zip requests (drop (length commands - length requests) payloads)) = Inr (transparent, shielded)"
    using assms(1) by (auto simp: decode_signing_responses_def Let_def res_simps split: if_splits)
  have "length payloads = length commands" using res_map_length[OF p(1)] p(2) by simp
  then show ?thesis using that[OF _ p(3,2)] assms(2) by simp
qed

lemma plan_lengths:
  assumes "build_signing_plan parse bytes full memo = Inr (commands, requests)"
  shows "length requests \<le> length commands"
  using plan_Inr[OF assms] res_map_length by (metis le_add2 length_append)

text \<open>
  C12: The signatures that a finished mobile exchange yields are those that the transaction needs: one
  for each action with a real spend, in the order of the actions and tagged with its pool and index,
  64 bytes long and not all zero; one for each transparent input when they are signed too; and the
  device answered every command.
\<close>

theorem signatures_answer_the_spends:
  assumes "parse bytes = Inr p" and "build_signing_plan parse bytes full memo = Inr (commands, requests)"
    and "decode_signing_responses commands requests responses = Inr (transparent, shielded)"
  shows "length responses = length commands
    \<and> map (\<lambda>s. (sig_value_pool s, sig_action_index s)) shielded
      = (case pz_orchard_bundle p of None \<Rightarrow> []
         | Some b \<Rightarrow> map (\<lambda>i. (Orchard, i)) (filter (\<lambda>i. sa_spend_value (sb_actions b ! i) \<noteq> 0) [0..<length (sb_actions b)]))
      @ (case pz_ironwood_bundle p of None \<Rightarrow> []
         | Some b \<Rightarrow> map (\<lambda>i. (Ironwood, i)) (filter (\<lambda>i. sa_spend_value (ia_action (ib_actions b ! i)) \<noteq> 0) [0..<length (ib_actions b)]))
    \<and> (\<forall>s \<in> set shielded. length (sig_signature s) = 64 \<and> sig_signature s \<noteq> replicate 64 0)
    \<and> length transparent = (if full then length (pz_transparent_inputs p) else 0)"
proof -
  have requests: "requests = signature_requests full p"
    using plan_Inr[OF assms(2)] assms(1) by (metis sum.inject(2))
  obtain payloads where len: "length payloads = length requests" and all: "length responses = length commands"
    and sigs: "decode_signatures (zip requests payloads) = Inr (transparent, shielded)"
    using responses_decoded[OF assms(3) plan_lengths[OF assms(2)]] .
  show ?thesis
    using decoded_signatures[OF sigs len] all
    by (simp add: requests requested_targets requested_inputs spend_signature_ok_def)
qed

section \<open>A transaction with one transparent input\<close>

definition sample_derivation :: bip32_derivation where
  "sample_derivation = \<lparr>bd_signing_path = [2147483692, 2147483781, 2147483648, 0, 2], bd_pubkey = replicate 33 2,
     bd_seed_fingerprint = replicate 32 17\<rparr>"

definition sample_input :: transparent_input where
  "sample_input = \<lparr>ti_prevout_txid = replicate 32 88, ti_prevout_index = 7, ti_sequence = Some 0, ti_value = 81630485,
     ti_script_pubkey = [], ti_sighash_type = 1, ti_derivation = sample_derivation\<rparr>"

definition sample_pczt :: "bool \<Rightarrow> parsed_pczt" where
  "sample_pczt memo = \<lparr>pz_global = \<lparr>gl_tx_version = 5, gl_version_group_id = 648488714, gl_consensus_branch_id = 3268858036,
       gl_fallback_lock_time = None, gl_expiry_height = 0, gl_coin_type = 133, gl_tx_modifiable = 0\<rparr>,
     pz_transparent_inputs = [sample_input], pz_transparent_outputs = [], pz_orchard_bundle = None, pz_ironwood_bundle = None,
     pz_memo_reaches_hash_path = memo\<rparr>"

definition sample_parse :: "byte list \<Rightarrow> parsed_pczt outcome" where
  "sample_parse bytes = Inr (sample_pczt (bytes = [1]))"

definition sample_account :: expected_account where
  "sample_account = \<lparr>ea_account_index = 0, ea_coin_type = 133, ea_seed_fingerprint = replicate 32 17\<rparr>"

definition sample_packets :: "byte list list" where
  "sample_packets =
     (let derivation = 1 # replicate 33 2 @ replicate 32 17 @ [5, 128, 0, 0, 44, 128, 0, 0, 133, 128, 0, 0, 0, 0, 0, 0, 0, 0, 0, 0, 2]
      in [[1], replicate 32 88 @ [7, 0, 0, 0, 1, 0, 0, 0, 0, 21, 149, 221, 4, 0, 0, 0, 0], [0], 1 # derivation])"

definition sample_serialized :: "command_packets list" where
  "sample_serialized =
     [\<lparr>cp_instruction = 0x52, cp_packets = [serialize_header (pz_global (sample_pczt True))], cp_finishes_pczt = False\<rparr>,
      \<lparr>cp_instruction = 0x53, cp_packets = sample_packets, cp_finishes_pczt = False\<rparr>,
      \<lparr>cp_instruction = 0x54, cp_packets = [[0]], cp_finishes_pczt = False\<rparr>,
      \<lparr>cp_instruction = 0x56, cp_packets = [[0]], cp_finishes_pczt = True\<rparr>]"

definition sample_command :: "byte \<Rightarrow> byte \<Rightarrow> byte \<Rightarrow> byte list \<Rightarrow> apdu_command" where
  "sample_command ins p1 p2 data = \<lparr>ac_cla = 0xe0, ac_ins = ins, ac_p1 = p1, ac_p2 = p2, ac_data = data\<rparr>"

definition sample_commands :: "apdu_command list" where
  "sample_commands = sample_command 0x52 0 0 (serialize_header (pz_global (sample_pczt True)))
     # map (\<lambda>(p1, data). sample_command 0x53 p1 0 data) (zip [0, 0x80, 0x80, 1] sample_packets)
     @ [sample_command 0x54 0 0 [0], sample_command 0x56 0 1 [0], sample_command 0x55 0 0 []]"

lemmas sample_defs = sample_derivation_def sample_input_def sample_pczt_def sample_parse_def sample_account_def

lemma sample_serializes: "serialize_pczt (sample_pczt memo) True = Inr sample_serialized"
proof -
  have inputs: "serialize_transparent_inputs [sample_input] = Inr sample_packets"
    by (simp add: serialize_transparent_inputs_def ensure_count_def MAX_TRANSPARENT_INPUTS_def compact_size_def input_packets_def
        sample_input_def sample_derivation_def sample_packets_def field_packets_def MAX_PACKET_SIZE_def chunks_step
        serialize_bip32_derivation_def pack_derivation_path_def ensure_packet_size_def be_def le_numeral push_optional_u32_le_def)
  show ?thesis
    by (simp add: serialize_pczt_def inputs sample_serialized_def sample_pczt_def serialize_transparent_outputs_def ensure_count_def
        compact_size_def serialize_orchard_bundle_def)
qed

lemma sample_plan:
  "build_signing_plan sample_parse bytes True True = Inr (sample_commands, [Transparent_Request 0])"
  by (simp add: build_signing_plan_def sample_parse_def sample_serializes)
    (simp add: sample_serialized_def packet_commands_def sample_packets_def packet_p1_def packet_p2_def ZCASH_CLA_def
      signature_requests_def sample_pczt_def request_command_def sample_commands_def sample_command_def)

lemma sample_typed: "pczt_typed (sample_pczt memo)"
  by (simp add: pczt_typed_def global_typed_def sample_pczt_def sample_input_def sample_derivation_def input_typed_def
      derivation_typed_def u32_def u64_def in_usize_def)

theorem commands_determine_the_transaction_witness:
  "sample_pczt True\<lparr>pz_memo_reaches_hash_path := False\<rparr> = sample_pczt False\<lparr>pz_memo_reaches_hash_path := False\<rparr>"
  by (rule commands_determine_the_transaction[OF sample_plan[of "[1]"] _ sample_typed sample_plan[of "[]"] _ sample_typed])
    (simp_all add: sample_parse_def)

theorem commands_fit_their_frames_witness: "length (ac_data (sample_commands ! 4)) \<le> MAX_PACKET_SIZE"
proof (rule commands_fit_their_frames[OF _ _ sample_typed sample_plan])
  show "validate_pczt_account sample_parse [] sample_account = Inr ()"
    by (simp add: validate_pczt_account_def sample_defs validate_each_def validate_transparent_derivation_def hardened_def
        list_get_def validate_fingerprint_def)
  show "sample_commands ! 4 \<in> set sample_commands" by (rule nth_mem) (simp add: sample_commands_def sample_packets_def)
qed (simp add: sample_parse_def)

definition sample_replies :: "byte list list" where
  "sample_replies = [[], [], [], [], [], [], [], [0x30, 6, 2, 1, 1, 2, 1, 1, 1]]"

theorem signatures_answer_the_spends_witness:
  "\<exists>signature. decode_signing_responses sample_commands [Transparent_Request 0] (map (\<lambda>reply. reply @ [0x90, 0]) sample_replies)
       = Inr ([signature], []) \<and> length sample_replies = length sample_commands"
proof -
  have len: "length sample_commands = 8" by (simp add: sample_commands_def sample_packets_def)
  have all: "0 + length sample_replies \<le> 8" by (simp add: sample_replies_def)
  have decoded: "decode_signing_responses sample_commands [Transparent_Request 0] (map (\<lambda>reply. reply @ [0x90, 0]) sample_replies)
      = Inr ([\<lparr>ts_signature = [0x30, 6, 2, 1, 1, 2, 1, 1], ts_sighash_type = 1\<rparr>], [])"
    unfolding decode_signing_responses_def len decode_ok_responses[OF all] res_bind_simps
    by (simp add: sample_replies_def decode_transparent_signature_def)
  show ?thesis
    using signatures_answer_the_spends[OF sample_parse_def sample_plan decoded] decoded by simp
qed

end
