(* ===== verification/Ledger_Session.thy ===== *)
theory Ledger_Session
  imports Ledger_Props
begin

text \<open>
  The USB session and the mobile exchange agree: the session sends the commands of the plan, in the
  order of the plan, and what it returns is what the plan's reader makes of the same responses.
\<close>

section \<open>The log of a session\<close>

text \<open>A device that keeps the commands it was sent, with its replies.\<close>

definition logged :: "(apdu_command \<Rightarrow> ('s, byte list) store_op)
    \<Rightarrow> apdu_command \<Rightarrow> ((apdu_command \<times> byte list outcome) list \<times> 's, byte list) store_op" where
  "logged exchange command = (\<lambda>(log, s). let (r, s') = exchange command s in (r, (log @ [(command, r)], s')))"

definition extends_log :: "('a \<Rightarrow> apdu_command list \<Rightarrow> byte list list \<Rightarrow> bool)
    \<Rightarrow> ((apdu_command \<times> byte list outcome) list \<times> 's, 'a) store_op \<Rightarrow> bool" where
  "extends_log P m \<longleftrightarrow> (\<forall>log s x log' s'. m (log, s) = (Inr x, (log', s'))
     \<longrightarrow> (\<exists>commands replies. length commands = length replies \<and> log' = log @ zip commands (map Inr replies)
            \<and> P x commands replies))"

lemma extends_logI:
  assumes "\<And>log s x log' s'. m (log, s) = (Inr x, (log', s'))
     \<Longrightarrow> \<exists>commands replies. length commands = length replies \<and> log' = log @ zip commands (map Inr replies) \<and> P x commands replies"
  shows "extends_log P m"
  using assms unfolding extends_log_def by blast

lemma extends_logD:
  assumes "extends_log P m" and "m (log, s) = (Inr x, (log', s'))"
  obtains commands replies where "length commands = length replies" "log' = log @ zip commands (map Inr replies)" "P x commands replies"
  using assms unfolding extends_log_def by blast

lemma extends_log_mono: "extends_log P m \<Longrightarrow> (\<And>x c r. P x c r \<Longrightarrow> Q x c r) \<Longrightarrow> extends_log Q m"
  unfolding extends_log_def by blast

lemma extends_log_exchange: "extends_log (\<lambda>x c r. c = [command] \<and> r = [x]) (logged exchange command)"
proof (rule extends_logI)
  fix log s x log' s'
  assume "logged exchange command (log, s) = (Inr x, (log', s'))"
  then have "log' = log @ zip [command] (map Inr [x])" by (auto simp: logged_def Let_def split: prod.splits)
  then show "\<exists>c r. length c = length r \<and> log' = log @ zip c (map Inr r) \<and> c = [command] \<and> r = [x]"
    by (intro exI[of _ "[command]"] exI[of _ "[x]"]) simp
qed

lemma extends_log_return: "extends_log (\<lambda>y c r. y = x \<and> c = [] \<and> r = []) (st_return x)"
  by (rule extends_logI) simp

lemma extends_log_lift: "extends_log (\<lambda>y c r. v = Inr y \<and> c = [] \<and> r = []) (st_lift v)"
  by (rule extends_logI) simp

lemma extends_log_fail: "extends_log P (st_fail e)"
  by (rule extends_logI) simp

lemma extends_log_map_err: "extends_log P m \<Longrightarrow> extends_log P (st_map_err f m)"
  unfolding extends_log_def by (simp add: res_simps)

lemma extends_log_bind:
  assumes "extends_log P m" and "\<And>x. extends_log (Q x) (f x)"
  shows "extends_log (\<lambda>y c r. \<exists>x c1 r1 c2 r2. P x c1 r1 \<and> Q x y c2 r2 \<and> length c1 = length r1 \<and> length c2 = length r2
           \<and> c = c1 @ c2 \<and> r = r1 @ r2) (st_bind m f)"
proof (rule extends_logI)
  fix log s y log' s'
  assume "st_bind m f (log, s) = (Inr y, (log', s'))"
  then obtain x t where mid: "m (log, s) = (Inr x, t)" "f x t = (Inr y, (log', s'))" by (auto simp: res_simps)
  obtain log1 s1 where t: "t = (log1, s1)" by (cases t)
  obtain c1 r1 where 1: "length c1 = length r1" "log1 = log @ zip c1 (map Inr r1)" "P x c1 r1"
    using extends_logD[OF assms(1)] mid(1) t by metis
  obtain c2 r2 where 2: "length c2 = length r2" "log' = log1 @ zip c2 (map Inr r2)" "Q x y c2 r2"
    using extends_logD[OF assms(2)] mid(2) t by metis
  have "log' = log @ zip (c1 @ c2) (map Inr (r1 @ r2))" using 1(1,2) 2(2) by simp
  moreover have "length (c1 @ c2) = length (r1 @ r2)" using 1(1) 2(1) by simp
  ultimately show "\<exists>c r. length c = length r \<and> log' = log @ zip c (map Inr r)
      \<and> (\<exists>x c1 r1 c2 r2. P x c1 r1 \<and> Q x y c2 r2 \<and> length c1 = length r1 \<and> length c2 = length r2 \<and> c = c1 @ c2 \<and> r = r1 @ r2)"
    using 1(1,3) 2(1,3) by blast
qed

section \<open>What each part of the session sends\<close>

lemma sends_packets:
  "extends_log (\<lambda>_ c r. c = commands) (send_packets (logged exchange) ins commands)"
proof -
  have "extends_log (\<lambda>_ c r. c = cmds) (st_each (\<lambda>(index, command).
       st_map_err (\<lambda>e. Message label [ANat (unat ins), ANat (index + 1), ANat total, AMsg e])
         (st_bind (logged exchange command) (\<lambda>_. st_return ()))) (List.enumerate n cmds))" for n cmds label total
  proof (induction cmds arbitrary: n)
    case Nil
    show ?case unfolding enumerate_simps st_each.simps by (rule extends_log_mono[OF extends_log_return]) simp
  next
    case (Cons command cmds)
    have one: "extends_log (\<lambda>_ c r. c = [command]) (st_map_err (\<lambda>e. Message label [ANat (unat ins), ANat (n + 1), ANat total, AMsg e])
         (st_bind (logged exchange command) (\<lambda>_. st_return ())))"
      by (rule extends_log_map_err, rule extends_log_mono[OF extends_log_bind[OF extends_log_exchange extends_log_return]]) auto
    show ?case
      unfolding enumerate_simps st_each.simps case_prod_conv
      by (rule extends_log_mono[OF extends_log_bind[OF one Cons.IH[of "Suc n"]]]) auto
  qed
  then show ?thesis by (simp add: send_packets_def)
qed

lemma sends_transaction:
  "extends_log (\<lambda>_ c r. \<exists>css. res_map packet_commands commands = Inr css \<and> c = concat css)
     (send_pczt_with_progress (logged exchange) commands)"
  unfolding send_pczt_with_progress_def
proof (induction commands)
  case Nil
  show ?case unfolding st_each.simps by (rule extends_log_mono[OF extends_log_return]) simp
next
  case (Cons command commands)
  have one: "extends_log (\<lambda>_ c r. packet_commands command = Inr c)
      (st_bind (st_lift (packet_commands command)) (send_packets (logged exchange) (cp_instruction command)))"
    by (rule extends_log_mono[OF extends_log_bind[OF extends_log_lift sends_packets]]) auto
  show ?case
    unfolding st_each.simps by (rule extends_log_mono[OF extends_log_bind[OF one Cons.IH]]) auto
qed

lemma sends_input:
  "extends_log (\<lambda>x c r. \<exists>reply. request_command (Transparent_Request i) = Inr (hd c) \<and> length c = 1 \<and> r = [reply]
      \<and> decode_transparent_signature reply = Inr x)
     (sign_transparent_input (logged exchange) i)"
proof -
  have same: "decode_transparent_signature_response reply = Inr x \<Longrightarrow> decode_transparent_signature reply = Inr x" for reply x
    by (auto simp: decode_transparent_signature_response_def decode_transparent_signature_def Let_def split: if_splits)
  show ?thesis
  proof (cases "256 \<le> i")
    case True
    then show ?thesis by (simp add: sign_transparent_input_def extends_log_fail)
  next
    case False
    then show ?thesis
      unfolding sign_transparent_input_def if_not_P[OF False]
      by (intro extends_log_mono[OF extends_log_bind[OF extends_log_exchange extends_log_lift]])
        (auto simp: request_command_def same)
  qed
qed

lemma sends_action:
  "extends_log (\<lambda>x c r. \<exists>reply. request_command (Shielded_Request pool i ins) = Inr (hd c) \<and> length c = 1 \<and> r = [reply]
      \<and> spend_signature reply = Inr x)
     (sign_action (logged exchange) ins i)"
proof (cases "256 \<le> i")
  case True
  then show ?thesis by (simp add: sign_action_def extends_log_fail)
next
  case False
  then show ?thesis
    unfolding sign_action_def if_not_P[OF False]
    by (intro extends_log_mono[OF extends_log_bind[OF extends_log_exchange extends_log_lift]])
      (auto simp: request_command_def)
qed

lemma sends_each:
  assumes "\<And>x. extends_log (\<lambda>y c r. \<exists>reply. request_command (req x) = Inr (hd c) \<and> length c = 1 \<and> r = [reply] \<and> dec x reply = Inr y) (f x)"
  shows "extends_log (\<lambda>ys c r. res_map request_command (map req xs) = Inr c \<and> length r = length xs
      \<and> res_map (\<lambda>(x, reply). dec x reply) (zip xs r) = Inr ys) (st_map f xs)"
proof (induction xs)
  case Nil
  show ?case unfolding st_map.simps by (rule extends_log_mono[OF extends_log_return]) simp
next
  case (Cons x xs)
  have tail: "extends_log (\<lambda>zs c r. \<exists>ys. zs = y # ys \<and> res_map request_command (map req xs) = Inr c \<and> length r = length xs
      \<and> res_map (\<lambda>(x, reply). dec x reply) (zip xs r) = Inr ys) (st_bind (st_map f xs) (\<lambda>ys. st_return (y # ys)))" for y
    by (rule extends_log_mono[OF extends_log_bind[OF Cons.IH extends_log_return]]) auto
  have single: "c = [hd c]" if "length c = 1" for c :: "apdu_command list" using that by (cases c) auto
  show ?case
    unfolding st_map.simps
    by (rule extends_log_mono[OF extends_log_bind[OF assms tail]]) (use single in \<open>fastforce simp: length_Suc_conv\<close>)
qed

lemma enumerate_map: "List.enumerate n (map f xs) = map (\<lambda>(i, x). (i, f x)) (List.enumerate n xs)"
  by (rule nth_equalityI) (simp_all add: nth_enumerate_eq)

definition shielded_request :: "value_pool \<times> nat \<times> byte \<Rightarrow> signature_request" where
  "shielded_request = (\<lambda>(pool, action_index, instruction). Shielded_Request pool action_index instruction)"

lemma same_requests:
  "signature_requests full p = (if full then map Transparent_Request [0..<length (pz_transparent_inputs p)] else [])
     @ map shielded_request (shielded_requests p)"
  by (simp add: signature_requests_def shielded_requests_def real_spends_def shielded_request_def enumerate_map filter_map
      comp_def split_def split: option.splits)

lemma decode_transparent_first:
  assumes "res_map (\<lambda>(i, reply). decode_transparent_signature reply) (zip is r) = Inr ts" and "length r = length is"
    and "decode_signatures (zip requests r') = Inr ([], shielded)"
  shows "decode_signatures (zip (map Transparent_Request is @ requests) (r @ r')) = Inr (ts, shielded)"
  using assms
proof (induction "is" arbitrary: r ts)
  case (Cons i "is")
  obtain p ps where r: "r = p # ps" using Cons.prems(2) by (cases r) auto
  obtain t ts' where t: "decode_transparent_signature p = Inr t" "ts = t # ts'"
      "res_map (\<lambda>(i, reply). decode_transparent_signature reply) (zip is ps) = Inr ts'"
    using Cons.prems(1) by (auto simp: r res_simps)
  have "decode_signatures (zip (map Transparent_Request is @ requests) (ps @ r')) = Inr (ts', shielded)"
    using Cons.prems(2,3) by (intro Cons.IH[OF t(3)]) (simp_all add: r)
  then show ?case using t(1,2) by (simp add: r)
qed simp

lemma decode_shielded_only:
  assumes "res_map (\<lambda>((pool, i, ins), reply). res_bind (spend_signature reply) (\<lambda>s.
      Inr \<lparr>sig_value_pool = pool, sig_action_index = i, sig_signature = s\<rparr>)) (zip rs r) = Inr shielded" and "length r = length rs"
  shows "decode_signatures (zip (map shielded_request rs) r) = Inr ([], shielded)"
  using assms
proof (induction rs arbitrary: r shielded)
  case (Cons q rs)
  obtain pool j ins where q: "q = (pool, j, ins)" by (cases q)
  obtain p ps where r: "r = p # ps" using Cons.prems(2) by (cases r) auto
  obtain s ss where t: "spend_signature p = Inr s" "shielded = \<lparr>sig_value_pool = pool, sig_action_index = j, sig_signature = s\<rparr> # ss"
      "res_map (\<lambda>((pool, i, ins), reply). res_bind (spend_signature reply) (\<lambda>s.
      Inr \<lparr>sig_value_pool = pool, sig_action_index = i, sig_signature = s\<rparr>)) (zip rs ps) = Inr ss"
    using Cons.prems(1) by (auto simp: r q res_simps)
  have "decode_signatures (zip (map shielded_request rs) ps) = Inr ([], ss)"
    using Cons.prems(2) by (intro Cons.IH[OF t(3)]) (simp add: r)
  then show ?case using t(1,2) by (simp add: r q shielded_request_def)
qed simp

lemma sends_shielded:
  "extends_log (\<lambda>x c r. \<exists>reply. request_command (shielded_request q) = Inr (hd c) \<and> length c = 1 \<and> r = [reply]
      \<and> (case q of (pool, i, ins) \<Rightarrow> res_bind (spend_signature reply) (\<lambda>s.
           Inr \<lparr>sig_value_pool = pool, sig_action_index = i, sig_signature = s\<rparr>)) = Inr x)
     (case q of (pool, action_index, instruction) \<Rightarrow>
         st_bind (sign_action (logged exchange) instruction action_index) (\<lambda>signature.
         st_return \<lparr>sig_value_pool = pool, sig_action_index = action_index, sig_signature = signature\<rparr>))"
proof -
  obtain pool j ins where q: "q = (pool, j, ins)" by (cases q)
  show ?thesis
    unfolding q case_prod_conv
    by (rule extends_log_mono[OF extends_log_bind[OF sends_action[where pool = pool] extends_log_return]])
      (auto simp: shielded_request_def)
qed

section \<open>The session and the plan\<close>

definition shielded_reply :: "(value_pool \<times> nat \<times> byte) \<times> byte list \<Rightarrow> spend_auth_signature outcome" where
  "shielded_reply = (\<lambda>((pool, i, ins), reply). res_bind (spend_signature reply) (\<lambda>s.
      Inr \<lparr>sig_value_pool = pool, sig_action_index = i, sig_signature = s\<rparr>))"

lemma sends_signatures:
  "extends_log (\<lambda>(transparent, shielded) c r. \<exists>css signing packets r3 r4.
       res_map packet_commands serialized = Inr css \<and> c = concat css @ signing
     \<and> res_map request_command (map Transparent_Request [0..<n] @ map shielded_request rs) = Inr signing
     \<and> r = packets @ r3 @ r4 \<and> length packets = length (concat css)
     \<and> length r3 = n \<and> res_map (\<lambda>(i, reply). decode_transparent_signature reply) (zip [0..<n] r3) = Inr transparent
     \<and> length r4 = length rs \<and> res_map shielded_reply (zip rs r4) = Inr shielded)
   (exchange_signatures (logged exchange) serialized n rs)"
proof -
  have append: "res_map f (xs @ ys) = Inr (us @ vs)" if "res_map f xs = Inr us" "res_map f ys = Inr vs"
    for f :: "signature_request \<Rightarrow> apdu_command outcome" and xs ys us vs
    using that by (induction xs arbitrary: us) (auto simp: res_simps)
  have shielded: "extends_log (\<lambda>ss c r. res_map request_command (map shielded_request rs) = Inr c \<and> length r = length rs
      \<and> res_map shielded_reply (zip rs r) = Inr ss) (st_map (\<lambda>(pool, action_index, instruction).
         st_bind (sign_action (logged exchange) instruction action_index) (\<lambda>signature.
         st_return \<lparr>sig_value_pool = pool, sig_action_index = action_index, sig_signature = signature\<rparr>)) rs)"
    using sends_each[where req = shielded_request, OF sends_shielded] unfolding shielded_reply_def
    by (rule extends_log_mono) (simp add: split_def)
  note inputs = sends_each[where req = Transparent_Request, OF sends_input]
  show ?thesis
    unfolding exchange_signatures_def
    by (rule extends_log_mono[OF extends_log_bind[OF sends_transaction
          extends_log_bind[OF inputs extends_log_bind[OF shielded extends_log_return]]]])
      (use append in fastforce)
qed

text \<open>
  C13: The USB session is a run of the plan. A session that returns signatures sent exactly the commands
  of the plan for the transaction, in its order, and got a reply to each; and when the replies to the
  packets carried no data, as the protocol has it, the reader of the mobile exchange makes the same
  signatures of the same replies.
\<close>

theorem usb_session_follows_the_plan:
  assumes "parse bytes = Inr p" and "build_signing_plan parse bytes full memo = Inr (commands, requests)"
    and "serialize_pczt p memo = Inr serialized"
    and "exchange_signatures (logged exchange) serialized (if full then length (pz_transparent_inputs p) else 0)
           (shielded_requests p) ([], s) = (Inr (transparent, shielded), (log, s'))"
  shows "map fst log = commands
    \<and> (\<exists>replies. map snd log = map Inr replies
        \<and> ((\<forall>reply \<in> set (take (length commands - length requests) replies). reply = [])
           \<longrightarrow> decode_signing_responses commands requests (map (\<lambda>reply. reply @ [0x90, 0]) replies) = Inr (transparent, shielded)))"
proof -
  define n where "n = (if full then length (pz_transparent_inputs p) else 0)"
  obtain css signing where plan: "res_map packet_commands serialized = Inr css" "requests = signature_requests full p"
      "res_map request_command requests = Inr signing" "commands = concat css @ signing"
    using plan_Inr[OF assms(2)] assms(1,3) by (metis sum.inject(2))
  have requests: "requests = map Transparent_Request [0..<n] @ map shielded_request (shielded_requests p)"
    using plan(2) by (simp add: same_requests n_def)
  from extends_logD[OF sends_signatures assms(4)[folded n_def]]
  obtain c r css signing' packets r3 r4 where log: "length c = length r" "log = zip c (map Inr r)"
    and c: "res_map packet_commands serialized = Inr css" "c = concat css @ signing'"
      "res_map request_command requests = Inr signing'"
    and r: "r = packets @ r3 @ r4" "length packets = length (concat css)"
    and r3: "length r3 = n" "res_map (\<lambda>(i, reply). decode_transparent_signature reply) (zip [0..<n] r3) = Inr transparent"
    and r4: "length r4 = length (shielded_requests p)" "res_map shielded_reply (zip (shielded_requests p) r4) = Inr shielded"
    unfolding case_prod_conv requests by (metis append_Nil)
  have commands: "commands = c" using plan(1,3,4) c by simp
  have split: "length commands - length requests = length packets"
    using res_map_length[OF c(3)] r(2) by (simp add: commands c(2))
  have sigs: "decode_signatures (zip requests (r3 @ r4)) = Inr (transparent, shielded)"
    unfolding requests
    using r3 r4 by (intro decode_transparent_first decode_shielded_only) (simp_all add: shielded_reply_def)
  have decode: "decode_signing_responses commands requests (map (\<lambda>reply. reply @ [0x90, 0]) r) = Inr (transparent, shielded)"
    if "\<forall>reply \<in> set (take (length commands - length requests) r). reply = []"
  proof -
    have parts: "take (length commands - length requests) r = packets" "drop (length commands - length requests) r = r3 @ r4"
      unfolding split by (simp_all add: r(1))
    have payloads: "res_map (\<lambda>(index, response). if length commands \<le> index then Inl e else decode_raw_response response)
        (List.enumerate 0 (map (\<lambda>reply. reply @ [0x90, 0]) r)) = Inr r" for e
      using log(1) by (intro decode_ok_responses) (simp add: commands)
    show ?thesis
      unfolding decode_signing_responses_def payloads res_bind_simps Let_def parts
      using no_payloads[OF that[unfolded parts], where e = "\<lambda>index. Message ''Ledger PCZT APDU {} returned unexpected response data'' [ANat (index + 1)]"] log(1) sigs by (simp add: commands)
  qed
  show ?thesis
    using log decode by (intro conjI exI[of _ r]) (simp_all add: commands)
qed

definition sample_device :: "apdu_command \<Rightarrow> (unit, byte list) store_op" where
  "sample_device command s = (Inr (if ac_ins command = 0x55 then [0x30, 6, 2, 1, 1, 2, 1, 1, 1] else []), s)"

lemma sample_session:
  "exchange_signatures (logged sample_device) sample_serialized 1 [] ([], ())
    = (Inr ([\<lparr>ts_signature = [0x30, 6, 2, 1, 1, 2, 1, 1], ts_sighash_type = 1\<rparr>], []),
       (zip sample_commands (map Inr sample_replies), ()))"
proof -
  have reply: "logged sample_device command (log, s)
      = (Inr (if ac_ins command = 0x55 then [0x30, 6, 2, 1, 1, 2, 1, 1, 1] else []),
         (log @ [(command, Inr (if ac_ins command = 0x55 then [0x30, 6, 2, 1, 1, 2, 1, 1, 1] else []))], s))" for command log s
    by (simp add: logged_def sample_device_def)
  show ?thesis
    by (simp add: exchange_signatures_def send_pczt_with_progress_def sample_serialized_def sample_packets_def packet_commands_def
        packet_p1_def packet_p2_def ZCASH_CLA_def send_packets_def st_bind_def st_map_err_def reply sign_transparent_input_def
        decode_transparent_signature_response_def sample_commands_def sample_command_def sample_replies_def)
qed

theorem usb_session_follows_the_plan_witness:
  "map fst (zip sample_commands (map (Inr :: byte list \<Rightarrow> byte list outcome) sample_replies)) = sample_commands"
proof -
  have requests: "shielded_requests (sample_pczt False) = []" by (simp add: shielded_requests_def sample_pczt_def)
  have parse: "sample_parse [] = Inr (sample_pczt False)" by (simp add: sample_parse_def)
  have inputs: "(if True then length (pz_transparent_inputs (sample_pczt False)) else 0) = 1" by (simp add: sample_pczt_def)
  show ?thesis
    using usb_session_follows_the_plan[OF parse sample_plan sample_serializes sample_session[folded inputs requests]] by blast
qed

end
