(* ===== verification/Ledger_Transport.thy ===== *)
theory Ledger_Transport
  imports Ledger_Plan
begin

text \<open>
  The wire to a Ledger device: the HID frames and the retry of transport.rs, the export of the viewing
  key of apdu.rs, and the memo check of parse.rs. A session that waits for the device is a function of
  what the device sent so far; \<open>None\<close> is a session that still waits.
\<close>

section \<open>Text\<close>

text \<open>\<open>std::str::from_utf8\<close> accepts the well-formed sequences; a \<open>String\<close> is its bytes.\<close>

definition continuation :: "byte \<Rightarrow> bool" where
  "continuation b \<longleftrightarrow> 0x80 \<le> b \<and> b \<le> 0xbf"

fun utf8 :: "byte list \<Rightarrow> bool" where
  "utf8 [] = True"
| "utf8 (b # bs) =
     (if b < 0x80 then utf8 bs
      else case bs of [] \<Rightarrow> False
      | c # cs \<Rightarrow>
        if 0xc2 \<le> b \<and> b \<le> 0xdf then continuation c \<and> utf8 cs
        else case cs of [] \<Rightarrow> False
        | d # ds \<Rightarrow>
          if 0xe0 \<le> b \<and> b \<le> 0xef
          then (if b = 0xe0 then 0xa0 \<le> c \<and> c \<le> 0xbf else if b = 0xed then 0x80 \<le> c \<and> c \<le> 0x9f else continuation c)
               \<and> continuation d \<and> utf8 ds
          else case ds of [] \<Rightarrow> False
          | e # es \<Rightarrow>
            0xf0 \<le> b \<and> b \<le> 0xf4
            \<and> (if b = 0xf0 then 0x90 \<le> c \<and> c \<le> 0xbf else if b = 0xf4 then 0x80 \<le> c \<and> c \<le> 0x8f else continuation c)
            \<and> continuation d \<and> continuation e \<and> utf8 es)"

definition printable :: "byte \<Rightarrow> bool" where
  "printable b \<longleftrightarrow> 0x20 \<le> b \<and> b \<le> 0x7e"

text \<open>\<open>rposition\<close>: what remains when the zero bytes at the end are cut off.\<close>

definition trim_zeros :: "byte list \<Rightarrow> byte list" where
  "trim_zeros bs = rev (dropWhile (\<lambda>b. b = 0) (rev bs))"

definition memo_reaches_ledger_hash_path :: "byte list \<Rightarrow> bool" where
  "memo_reaches_ledger_hash_path memo =
     (if hd memo = 0xf6 \<and> list_all (\<lambda>b. b = 0) (tl memo) then False
      else if trim_zeros memo = [] then False
      else if 0xf4 < hd memo then True
      else if utf8 (trim_zeros memo) then \<not> list_all printable (trim_zeros memo) else True)"

section \<open>Frames\<close>

definition LEDGER_CHANNEL :: nat where
  "LEDGER_CHANNEL = 0x0101"

definition LEDGER_TAG :: byte where
  "LEDGER_TAG = 5"

definition HID_WRITE_SIZE :: nat where
  "HID_WRITE_SIZE = 65"

definition HID_READ_SIZE :: nat where
  "HID_READ_SIZE = 64"

text \<open>A report of 65 bytes: report id, channel, tag, sequence number and a chunk, padded with zeros.\<close>

definition hid_report :: "nat \<Rightarrow> byte list \<Rightarrow> byte list" where
  "hid_report seq chunk =
     0 # be 2 LEDGER_CHANNEL @ [LEDGER_TAG] @ be 2 seq @ chunk @ replicate (HID_WRITE_SIZE - 6 - length chunk) 0"

text \<open>
  \<open>write_apdu\<close>: the length of the command, truncated to 16 bits, and the command, in chunks. The device
  handle and the cancellation check are computations against the state of the session.
\<close>

record 's hid =
  hid_check :: "('s, unit) store_op"
  hid_write :: "byte list \<Rightarrow> ('s, nat) store_op"

definition framed :: "byte list \<Rightarrow> byte list list" where
  "framed command = chunks (HID_WRITE_SIZE - 6) (be 2 (length command) @ command)"

definition write_apdu :: "'s hid \<Rightarrow> byte list \<Rightarrow> ('s, unit) store_op" where
  "write_apdu hid command =
     st_each (\<lambda>(sequence, chunk).
       st_bind (hid_check hid) (\<lambda>_.
       if 65536 \<le> sequence then st_fail (Msg ''Ledger HID request requires too many packets'')
       else
         let packet = hid_report sequence chunk in
         st_bind (st_context ''ledger_transport: Write Ledger HID packet: {e}'' (hid_write hid packet)) (\<lambda>written.
         if written \<noteq> length packet
         then st_fail (Msg ''Ledger HID request was only partially written; reconnect and retry'')
         else st_return ())))
       (List.enumerate 0 (framed command))"

text \<open>
  What one turn of \<open>read_apdu\<close> meets: the operation was cancelled or timed out, the read failed, or
  it returned some bytes, none when the poll interval passed.
\<close>

datatype hid_event = Check_Failed message | Read_Failed message | Received "byte list"

text \<open>
  One frame: the answer so far, the expected length, which the first frame sets, and whether the answer
  is complete.
\<close>

definition read_packet :: "byte list \<Rightarrow> byte list \<Rightarrow> nat \<Rightarrow> nat \<Rightarrow> (byte list \<times> nat \<times> bool) outcome" where
  "read_packet packet answer expected_len expected_sequence =
     (if length packet < 5 \<or> (expected_sequence = 0 \<and> length packet < 7)
      then Inl (Msg ''Ledger HID response had an incomplete header'')
      else if be_nat (take 2 packet) \<noteq> LEDGER_CHANNEL then Inl (Msg ''Ledger HID response used an unexpected channel'')
      else if packet ! 2 \<noteq> LEDGER_TAG then Inl (Msg ''Ledger HID response used an unexpected tag'')
      else if be_nat (take 2 (drop 3 packet)) \<noteq> expected_sequence
      then Inl (Msg ''Ledger HID response packets arrived out of sequence'')
      else
        let expected_len = (if expected_sequence = 0 then be_nat (take 2 (drop 5 packet)) else expected_len);
            payload_start = (if expected_sequence = 0 then 7 else 5);
            missing = expected_len - length answer;
            available = length packet - payload_start;
            taken = min missing available;
            answer = answer @ take taken (drop payload_start packet) in
        if length answer = expected_len then Inr (answer, expected_len, True)
        else if taken = 0 then Inl (Msg ''Ledger HID response packet contained no payload'')
        else if expected_sequence = 65535 then Inl (Msg ''Ledger HID response requires too many packets'')
        else Inr (answer, expected_len, False))"

fun read_loop :: "hid_event list \<Rightarrow> byte list \<Rightarrow> nat \<Rightarrow> nat \<Rightarrow> byte list outcome option" where
  "read_loop [] answer expected_len expected_sequence = None"
| "read_loop (Check_Failed e # events) answer expected_len expected_sequence = Some (Inl e)"
| "read_loop (Read_Failed e # events) answer expected_len expected_sequence =
     Some (Inl (Message ''ledger_transport: Read Ledger HID packet: {e}'' [AMsg e]))"
| "read_loop (Received packet # events) answer expected_len expected_sequence =
     (if packet = [] then read_loop events answer expected_len expected_sequence
      else case read_packet packet answer expected_len expected_sequence of
          Inl e \<Rightarrow> Some (Inl e)
        | Inr (answer, expected_len, complete) \<Rightarrow>
            if complete then Some (Inr answer) else read_loop events answer expected_len (expected_sequence + 1))"

definition read_apdu :: "hid_event list \<Rightarrow> byte list outcome option" where
  "read_apdu events = read_loop events [] 0 0"

section \<open>Exchanges\<close>

definition build_command :: "byte \<Rightarrow> byte \<Rightarrow> byte \<Rightarrow> byte \<Rightarrow> byte list \<Rightarrow> apdu_command outcome" where
  "build_command cla ins p1 p2 data =
     (if 255 < length data then Inl (Message ''Ledger APDU payload exceeds 255 bytes: {}'' [ANat (length data)])
      else Inr \<lparr>ac_cla = cla, ac_ins = ins, ac_p1 = p1, ac_p2 = p2, ac_data = data\<rparr>)"

definition REVIEW_BUSY_STATUS :: nat where
  "REVIEW_BUSY_STATUS = 0x6901"

definition REVIEW_BUSY_MAX_ATTEMPTS :: nat where
  "REVIEW_BUSY_MAX_ATTEMPTS = 3"

text \<open>\<open>retry_review_busy\<close>, with the number of attempts that remain.\<close>

fun retry_review_busy :: "nat \<Rightarrow> ('s, nat \<times> byte list) store_op \<Rightarrow> ('s, unit) store_op \<Rightarrow> ('s, nat \<times> byte list) store_op" where
  "retry_review_busy 0 exchange wait = exchange"
| "retry_review_busy (Suc attempts) exchange wait =
     st_bind exchange (\<lambda>(retcode, data).
     if retcode \<noteq> REVIEW_BUSY_STATUS \<or> attempts = 0 then st_return (retcode, data)
     else st_bind wait (\<lambda>_. retry_review_busy attempts exchange wait))"

definition exchange_with_cla ::
    "(apdu_command \<Rightarrow> ('s, nat \<times> byte list) store_op) \<Rightarrow> ('s, unit) store_op
      \<Rightarrow> byte \<Rightarrow> byte \<Rightarrow> byte \<Rightarrow> byte \<Rightarrow> byte list \<Rightarrow> ('s, byte list) store_op" where
  "exchange_with_cla exchange_hid wait cla ins p1 p2 data =
     st_bind (st_lift (build_command cla ins p1 p2 data)) (\<lambda>command.
     st_bind (retry_review_busy REVIEW_BUSY_MAX_ATTEMPTS (exchange_hid command) wait) (\<lambda>(retcode, data).
     if retcode \<noteq> RESPONSE_OK then st_fail (Msg (map_status_word retcode)) else st_return data))"

section \<open>The viewing key\<close>

definition UFVK_RESPONSE_LIMIT :: nat where
  "UFVK_RESPONSE_LIMIT = 8 * 1024"

definition ufvk_commands :: "nat \<Rightarrow> (apdu_command \<times> apdu_command) outcome" where
  "ufvk_commands account_index =
     (if 2 ^ 31 \<le> account_index then Inl (Msg ''Ledger account index must be below 2^31'')
      else
        let account = hardened account_index in
        res_bind (pack_derivation_path [0x80000020, 0x80000085, account]) (\<lambda>shielded.
        res_bind (pack_derivation_path [0x8000002c, 0x80000085, account]) (\<lambda>transparent.
        Inr (\<lparr>ac_cla = ZCASH_CLA, ac_ins = 0x50, ac_p1 = 0, ac_p2 = 0, ac_data = shielded @ transparent\<rparr>,
             \<lparr>ac_cla = ZCASH_CLA, ac_ins = 0x50, ac_p1 = 0x80, ac_p2 = 0, ac_data = []\<rparr>))))"

definition extend_response :: "nat \<Rightarrow> byte list \<Rightarrow> byte list \<Rightarrow> byte list outcome" where
  "extend_response expected_len chunk response =
     (if expected_len \<le> length response then Inl (Msg ''Ledger UFVK response contains trailing chunks'')
      else if chunk = [] then Inl (Msg ''Ledger UFVK response ended before the declared length'')
      else Inr (response @ chunk))"

definition decode_ufvk_chunks :: "byte list list \<Rightarrow> byte list outcome" where
  "decode_ufvk_chunks received =
     (let response = (case received of [] \<Rightarrow> [] | chunk # _ \<Rightarrow> chunk) in
      if length response < 2 then Inl (Msg ''Ledger UFVK response is missing its length prefix'')
      else
        let key_len = be_nat (take 2 response); expected_len = 2 + key_len in
        if UFVK_RESPONSE_LIMIT < expected_len
        then Inl (Message ''Ledger UFVK response declares an unreasonable length: {key_len} bytes'' [ANat key_len])
        else res_bind (res_fold (extend_response expected_len) (tl received) response) (\<lambda>response.
          if length response < expected_len then Inl (Msg ''Ledger UFVK response ended before the declared length'')
          else if length response \<noteq> expected_len then Inl (Msg ''Ledger UFVK response contains trailing bytes'')
          else if utf8 (drop 2 response) then Inr (drop 2 response)
          else Inl (Msg ''Ledger UFVK response is not valid UTF-8'')))"

definition decode_raw_ufvk_responses :: "byte list list \<Rightarrow> byte list outcome" where
  "decode_raw_ufvk_responses responses =
     (if responses = [] then Inl (Msg ''Ledger UFVK response is missing'')
      else res_bind (res_map decode_raw_response responses) decode_ufvk_chunks)"

text \<open>
  The loop of \<open>ufvk\<close> on the replies of the device to the continuation command, an error among them
  ending it: the chunks it collects, or \<open>None\<close> while it asks for more.
\<close>

fun collect_chunks :: "nat \<Rightarrow> byte list outcome list \<Rightarrow> byte list list \<Rightarrow> byte list list outcome option" where
  "collect_chunks expected_len replies received =
     (if expected_len \<le> sum_list (map length received) then Some (Inr received)
      else case replies of [] \<Rightarrow> None
        | Inl e # _ \<Rightarrow> Some (Inl e)
        | Inr chunk # replies \<Rightarrow> collect_chunks expected_len replies (received @ [chunk]))"

definition ufvk :: "nat \<Rightarrow> byte list outcome list \<Rightarrow> byte list outcome option" where
  "ufvk account_index replies =
     (case ufvk_commands account_index of Inl e \<Rightarrow> Some (Inl e)
      | Inr _ \<Rightarrow>
        case replies of [] \<Rightarrow> None
        | Inl e # _ \<Rightarrow> Some (Inl e)
        | Inr first # replies \<Rightarrow>
          if length first < 2 then Some (Inl (Msg ''Ledger UFVK response is missing its length prefix''))
          else map_option (\<lambda>received. res_bind received decode_ufvk_chunks)
            (collect_chunks (2 + be_nat (take 2 first)) replies [first]))"

section \<open>Application info\<close>

definition take_byte :: "byte list \<Rightarrow> nat \<Rightarrow> message \<Rightarrow> (byte \<times> nat) outcome" where
  "take_byte response cursor field =
     res_bind (ok_or (list_get response cursor) (Message ''Ledger app-info response is missing {field}'' [AMsg field]))
       (\<lambda>v. Inr (v, cursor + 1))"

definition take_length_prefixed_string :: "byte list \<Rightarrow> nat \<Rightarrow> message \<Rightarrow> (byte list \<times> nat) outcome" where
  "take_length_prefixed_string response cursor field =
     res_bind (take_byte response cursor (Message ''{field} length'' [AMsg field])) (\<lambda>(len, cursor).
     res_bind (ok_or (checked_add 64 cursor (unat len)) (Message ''Ledger {field} length overflowed'' [AMsg field])) (\<lambda>end_pos.
     if length response < end_pos then Inl (Message ''Ledger app-info response truncated {field}'' [AMsg field])
     else
       let bytes = take (end_pos - cursor) (drop cursor response) in
       if utf8 bytes then Inr (bytes, end_pos) else Inl (Message ''Ledger {field} is not valid UTF-8'' [AMsg field])))"

definition decode_app_and_version_response :: "byte list \<Rightarrow> (byte list \<times> byte list) outcome" where
  "decode_app_and_version_response response =
     res_bind (take_byte response 0 (Msg ''format'')) (\<lambda>(format, cursor).
     if format \<noteq> 1 then Inl (Message ''Ledger returned unsupported app-info format {format}'' [ANat (unat format)])
     else
       res_bind (take_length_prefixed_string response cursor (Msg ''app name'')) (\<lambda>(name, cursor).
       res_bind (take_length_prefixed_string response cursor (Msg ''app version'')) (\<lambda>(version, cursor).
       if cursor < length response
       then res_bind (take_byte response cursor (Msg ''flags length'')) (\<lambda>(flags_len, cursor).
         res_bind (ok_or (checked_add 64 cursor (unat flags_len)) (Msg ''Ledger app-info flags length overflowed'')) (\<lambda>flags_end.
         if flags_end \<noteq> length response then Inl (Msg ''Ledger app-info response has malformed flags'')
         else Inr (name, version)))
       else Inr (name, version))))"

end
