(* ===== verification/Ledger_Wire.thy ===== *)
theory Ledger_Wire
  imports Ledger_Transport
begin

text \<open>
  What the wire to a Ledger device guarantees: the frames of a message carry it whatever the timing,
  a viewing key is reassembled from every split into chunks, and the memo check refuses exactly the
  memos that the device does not show as text.
\<close>

section \<open>Frames carry their message\<close>

lemma length_chunks_bound: "0 < n \<Longrightarrow> length (chunks n xs) * n < length xs + n"
proof (induction n xs rule: chunks.induct)
  case (1 n xs)
  show ?case
  proof (cases "xs = []")
    case False
    have "length (chunks n xs) * n = length (chunks n (drop n xs)) * n + n"
      using 1(2) False by (simp add: chunks_step)
    moreover have "length (chunks n (drop n xs)) * n < length (drop n xs) + n \<or> length xs < n"
      using 1 False by simp
    moreover have "length (chunks n (drop n xs)) = 0" if "length xs < n" using that by simp
    ultimately show ?thesis using 1 False by (cases "length xs < n") auto
  qed (use 1 in simp)
qed

text \<open>What the device receives of a report, and the host of an answer: the report without its id.\<close>

definition frame :: "nat \<Rightarrow> byte list \<Rightarrow> byte list" where
  "frame seq chunk = tl (hid_report seq chunk)"

lemma frame_fields:
  assumes "length chunk \<le> 59" and "seq < 65536"
  shows "length (frame seq chunk) = 64" and "be_nat (take 2 (frame seq chunk)) = LEDGER_CHANNEL"
    and "frame seq chunk ! 2 = LEDGER_TAG" and "be_nat (take 2 (drop 3 (frame seq chunk))) = seq"
    and "drop 5 (frame seq chunk) = chunk @ replicate (59 - length chunk) 0"
  using assms
  by (simp_all add: frame_def hid_report_def HID_WRITE_SIZE_def be_nat_be LEDGER_CHANNEL_def nth_append)

lemma skip_timeouts: "read_loop events answer n seq = read_loop (filter (\<lambda>e. e \<noteq> Received []) events) answer n seq"
  by (induction events answer n seq rule: read_loop.induct) (auto split: sum.splits)

definition frames_from :: "nat \<Rightarrow> byte list list \<Rightarrow> hid_event list" where
  "frames_from seq cs = map (\<lambda>(seq, chunk). Received (frame seq chunk)) (List.enumerate seq cs)"

lemma read_next:
  assumes "0 < seq" and "seq < 65535" and "chunk \<noteq> []" and "length chunk \<le> 59" and "length chunk = min 59 (n - length answer)"
  shows "read_packet (frame seq chunk) answer n seq = Inr (answer @ chunk, n, length answer + length chunk = n)"
proof -
  have seq: "seq < 65536" using assms(2) by simp
  note fields = frame_fields[OF assms(4) seq]
  have taken: "min (n - length answer) (length (frame seq chunk) - 5) = length chunk"
    using assms(5) by (simp add: fields(1) min.commute)
  have bytes: "take (length chunk) (drop 5 (frame seq chunk)) = chunk" by (simp add: fields(5))
  have later: "seq \<noteq> 0" using assms(1) by simp
  show ?thesis
    unfolding read_packet_def Let_def if_not_P[OF later] taken bytes
    using assms(1-3) by (simp add: fields(1-4))
qed

lemma read_rest:
  assumes "0 < seq" and "d \<noteq> []" and "seq + length (chunks 59 d) \<le> 65535"
  shows "read_loop (frames_from seq (chunks 59 d) @ rest) answer (length answer + length d) seq = Some (Inr (answer @ d))"
  using assms
proof (induction "59 :: nat" d arbitrary: answer seq rule: chunks.induct)
  case (1 d)
  define chunk where "chunk = take 59 d"
  have cs: "chunks 59 d = chunk # chunks 59 (drop 59 d)" using 1(3) by (simp add: chunk_def chunks_step)
  have step: "read_packet (frame seq chunk) answer (length answer + length d) seq
      = Inr (answer @ chunk, length answer + length d, length answer + length chunk = length answer + length d)"
    using 1(2-4) by (intro read_next) (auto simp: chunk_def cs)
  have nonempty: "frame seq chunk \<noteq> []" by (simp add: frame_def hid_report_def)
  show ?case
  proof (cases "length d \<le> 59")
    case True
    then show ?thesis by (simp add: cs frames_from_def nonempty step) (simp add: chunk_def)
  next
    case False
    have d: "d = chunk @ drop 59 d" by (simp add: chunk_def)
    have eqs: "length (answer @ chunk) + length (drop 59 d) = length answer + length d" "(answer @ chunk) @ drop 59 d = answer @ d"
      "length answer + length chunk \<noteq> length answer + length d"
      using False by (simp_all add: chunk_def)
    have "read_loop (frames_from (Suc seq) (chunks 59 (drop 59 d)) @ rest) (answer @ chunk)
        (length (answer @ chunk) + length (drop 59 d)) (Suc seq) = Some (Inr ((answer @ chunk) @ drop 59 d))"
      using 1 False by (intro 1(1)) (simp_all add: cs)
    from this[unfolded eqs(1,2)] show ?thesis
      using eqs(3) by (simp add: cs frames_from_def nonempty step)
  qed
qed

lemma framed_step:
  "framed command = (be 2 (length command) @ take 57 command) # chunks 59 (drop 57 command)"
proof -
  have "be 2 (length command) @ command \<noteq> []" using length_be[of 2 "length command"] by (metis append_is_Nil_conv list.size(3) zero_neq_numeral)
  then show ?thesis by (simp add: framed_def HID_WRITE_SIZE_def chunks_step)
qed

lemma read_framed:
  assumes "length command < 65536"
  shows "read_apdu (frames_from 0 (framed command) @ rest) = Some (Inr command)"
proof -
  define chunk where "chunk = be 2 (length command) @ take 57 command"
  have len: "length chunk \<le> 59" by (simp add: chunk_def)
  have zero: "(0 :: nat) < 65536" by simp
  note fields = frame_fields[OF len zero]
  have declared: "be_nat (take 2 (drop 5 (frame 0 chunk))) = length command"
    unfolding fields(5) using assms by (simp add: chunk_def be_nat_be)
  have payload: "take (min (length command) 57) (drop 7 (frame 0 chunk)) = take 57 command"
  proof -
    have "drop 7 (frame 0 chunk) = drop 2 (drop 5 (frame 0 chunk))" by simp
    also have "\<dots> = take 57 command @ replicate (57 - length (take 57 command)) 0"
      unfolding fields(5) by (simp add: chunk_def)
    finally have bytes: "drop 7 (frame 0 chunk) = take 57 command @ replicate (57 - length (take 57 command)) 0" .
    show ?thesis unfolding bytes by (cases "length command \<le> 57") simp_all
  qed
  have first: "read_packet (frame 0 chunk) [] 0 0
      = (if length command \<le> 57 then Inr (take 57 command, length command, True) else Inr (take 57 command, length command, False))"
    unfolding read_packet_def Let_def
    using payload by (cases "length command \<le> 57") (simp_all add: fields(1-4) declared)
  have nonempty: "frame 0 chunk \<noteq> []" by (simp add: frame_def hid_report_def)
  have "read_loop (frames_from 0 (chunk # chunks 59 (drop 57 command)) @ rest) [] 0 0 = Some (Inr command)"
  proof (cases "length command \<le> 57")
    case True
    then show ?thesis by (simp add: frames_from_def nonempty first)
  next
    case False
    have "length (chunks 59 (drop 57 command)) * 59 < length (drop 57 command) + 59" by (rule length_chunks_bound) simp
    then have "read_loop (frames_from 1 (chunks 59 (drop 57 command)) @ rest) (take 57 command)
        (length (take 57 command) + length (drop 57 command)) 1 = Some (Inr (take 57 command @ drop 57 command))"
      using False assms by (intro read_rest) simp_all
    then show ?thesis using False by (simp add: frames_from_def nonempty first)
  qed
  then show ?thesis by (simp add: read_apdu_def framed_step chunk_def)
qed

text \<open>A device handle that keeps what is written to it, in an operation that nobody cancels.\<close>

definition recorder :: "byte list list hid" where
  "recorder = \<lparr>hid_check = st_return (), hid_write = \<lambda>packet written. (Inr (length packet), written @ [packet])\<rparr>"

lemma recorded:
  assumes "k + length cs \<le> 65536"
  shows "st_each (\<lambda>(sequence, chunk).
       st_bind (hid_check recorder) (\<lambda>_.
       if 65536 \<le> sequence then st_fail (Msg ''Ledger HID request requires too many packets'')
       else
         let packet = hid_report sequence chunk in
         st_bind (st_context ''ledger_transport: Write Ledger HID packet: {e}'' (hid_write recorder packet)) (\<lambda>written.
         if written \<noteq> length packet
         then st_fail (Msg ''Ledger HID request was only partially written; reconnect and retry'')
         else st_return ())))
       (List.enumerate k cs) written = (Inr (), written @ map (\<lambda>(seq, chunk). hid_report seq chunk) (List.enumerate k cs))"
  using assms
  by (induction cs arbitrary: k written) (simp_all add: st_bind_def st_context_def recorder_def Let_def)

text \<open>
  C25: The HID frames carry a message of up to 65,535 bytes unchanged. The reports that writing it puts
  on the wire, received as frames without their report id, give the message back, whatever timeouts
  lie between them and whatever follows.
\<close>

theorem frames_carry_their_message:
  assumes "length message < 65536"
  shows "\<exists>reports. write_apdu recorder message [] = (Inr (), reports)
    \<and> (\<forall>events rest. filter (\<lambda>e. e \<noteq> Received []) events = map (\<lambda>report. Received (tl report)) reports @ rest
         \<longrightarrow> read_apdu events = Some (Inr message))"
proof -
  have "length (framed message) * 59 < length (be 2 (length message) @ message) + 59"
    using length_chunks_bound[of 59 "be 2 (length message) @ message"] by (simp add: framed_def HID_WRITE_SIZE_def)
  then have "0 + length (framed message) \<le> 65536" using assms by simp
  note written = recorded[OF this, of "[]"]
  define reports where "reports = map (\<lambda>(seq, chunk). hid_report seq chunk) (List.enumerate 0 (framed message))"
  have "read_apdu events = Some (Inr message)"
    if "filter (\<lambda>e. e \<noteq> Received []) events = map (\<lambda>report. Received (tl report)) reports @ rest" for events rest
  proof -
    have "map (\<lambda>report. Received (tl report)) reports = frames_from 0 (framed message)"
      by (simp add: reports_def frames_from_def frame_def split_def comp_def)
    then show ?thesis
      using skip_timeouts[of events "[]" 0 0] read_framed[OF assms, of rest] that by (simp add: read_apdu_def)
  qed
  then show ?thesis
    using written unfolding write_apdu_def reports_def[symmetric] append_Nil by blast
qed

theorem frames_carry_their_message_witness:
  "\<exists>reports. write_apdu recorder [0xe0, 0x53, 0, 0, 0] [] = (Inr (), reports)"
  using frames_carry_their_message[of "[0xe0, 0x53, 0, 0, 0]"] by auto

section \<open>The viewing key\<close>

text \<open>Every further chunk is needed and brings something.\<close>

fun needed :: "nat \<Rightarrow> byte list list \<Rightarrow> bool" where
  "needed missing [] = True"
| "needed missing (chunk # received) \<longleftrightarrow> 0 < missing \<and> chunk \<noteq> [] \<and> needed (missing - length chunk) received"

lemma extend_responses:
  "res_fold (extend_response n) received response = Inr r
    \<longleftrightarrow> r = response @ concat received \<and> needed (n - length response) received"
proof (induction received arbitrary: response)
  case (Cons chunk received)
  show ?case
    using Cons.IH[of "response @ chunk"] by (auto simp: extend_response_def)
qed auto

lemma announced:
  assumes "n < 65536"
  shows "n \<le> 8190 \<and> P n \<and> length (be 2 n @ body) = 2 + n \<and> utf8 (drop 2 (be 2 n @ body)) \<and> key = drop 2 (be 2 n @ body)
    \<longleftrightarrow> be 2 n @ body = be 2 (length key) @ key \<and> utf8 key \<and> length key \<le> 8190 \<and> P (length key)"
proof -
  have "be 2 n @ body = be 2 (length key) @ key \<longleftrightarrow> n = length key \<and> body = key" if "length key \<le> 8190"
    using that assms by (simp add: be_inject)
  then show ?thesis by auto
qed

text \<open>
  C39: The viewing key that is reassembled from the chunks of a Ledger device is the text the device
  announced: a sequence of chunks decodes to a text exactly when their bytes are the length of the
  text, in two bytes, and the text itself, well-formed UTF-8 of at most 8,190 bytes; the first chunk
  holds the length, and every further one is needed and brings something.
\<close>

theorem viewing_key_is_the_announced_text:
  "decode_ufvk_chunks received = Inr key
    \<longleftrightarrow> concat received = be 2 (length key) @ key \<and> utf8 key \<and> length key \<le> 8190
      \<and> received \<noteq> [] \<and> 2 \<le> length (hd received) \<and> needed (2 + length key - length (hd received)) (tl received)"
proof (cases received)
  case (Cons first rest)
  show ?thesis
  proof (cases "2 \<le> length first")
    case True
    define n where "n = be_nat (take 2 first)"
    have two: "length (take 2 first) = 2" using True by simp
    have prefix: "be 2 n = take 2 first" using be_be[of "take 2 first"] unfolding two n_def .
    have small: "n < 65536" using be_nat_less[of "take 2 first"] unfolding two n_def by simp
    have split: "first @ concat rest = be 2 n @ drop 2 first @ concat rest" by (simp add: prefix flip: append_assoc)
    have "decode_ufvk_chunks received = Inr key
      \<longleftrightarrow> n \<le> 8190 \<and> needed (2 + n - length first) rest \<and> length (first @ concat rest) = 2 + n
        \<and> utf8 (drop 2 (first @ concat rest)) \<and> key = drop 2 (first @ concat rest)"
      using True
      by (auto simp: decode_ufvk_chunks_def Cons Let_def n_def[symmetric] UFVK_RESPONSE_LIMIT_def res_simps extend_responses
          split: if_splits)
    also have "\<dots> \<longleftrightarrow> concat received = be 2 (length key) @ key \<and> utf8 key \<and> length key \<le> 8190
        \<and> needed (2 + length key - length first) rest"
      unfolding Cons concat.simps split by (rule announced[OF small, where P = "\<lambda>k. needed (2 + k - length first) rest"])
    finally show ?thesis using True by (simp add: Cons)
  next
    case False
    then show ?thesis by (simp add: decode_ufvk_chunks_def Cons)
  qed
qed (simp add: decode_ufvk_chunks_def)

text \<open>
  The reader of the mobile exchange refuses an empty chunk; the USB loop asks on.
\<close>

lemma empty_chunks_are_refused: "decode_ufvk_chunks [[0, 5], []] = Inl (Msg ''Ledger UFVK response ended before the declared length'')"
  by (simp add: decode_ufvk_chunks_def be_nat_def UFVK_RESPONSE_LIMIT_def extend_response_def)

text \<open>
  C40: Over USB a device that answers the continuation command with empty chunks keeps the export of the
  viewing key waiting: whatever the number of such answers, the session has not returned, although the
  same chunks are an error for the decoder, so only the five-minute deadline ends it.
\<close>

theorem empty_chunks_keep_usb_waiting:
  assumes "account_index < 2 ^ 31" and "2 \<le> length first" and "length first < 2 + be_nat (take 2 first)"
  shows "ufvk account_index (Inr first # replicate n (Inr [])) = None"
proof -
  have "collect_chunks (2 + be_nat (take 2 first)) (replicate n (Inr [])) (first # replicate k []) = None" for k
  proof (induction n arbitrary: k)
    case (Suc n)
    have "(first # replicate k []) @ [[]] = first # replicate (Suc k) []" by (simp flip: replicate_append_same)
    then show ?case using Suc[of "Suc k"] assms(3) by (simp add: sum_list_replicate)
  qed (use assms(3) in \<open>simp add: sum_list_replicate\<close>)
  note waiting = this[of 0, unfolded replicate_0]
  have "\<exists>c. ufvk_commands account_index = Inr c"
    using assms(1) by (simp add: ufvk_commands_def pack_derivation_path_def ensure_packet_size_def MAX_PACKET_SIZE_def Let_def)
  then show ?thesis using assms(2) waiting by (auto simp: ufvk_def simp del: collect_chunks.simps)
qed

theorem empty_chunks_keep_usb_waiting_witness: "ufvk 7 (Inr [0, 5] # replicate 100 (Inr [])) = None"
  by (rule empty_chunks_keep_usb_waiting) (simp_all add: be_nat_def)

section \<open>The memo check\<close>

lemma trim_zeros_split: "\<exists>k. memo = trim_zeros memo @ replicate k 0"
proof -
  have "rev memo = takeWhile (\<lambda>b. b = 0) (rev memo) @ dropWhile (\<lambda>b. b = 0) (rev memo)" by simp
  moreover have "takeWhile (\<lambda>b. b = 0) xs = replicate (length (takeWhile (\<lambda>b. b = 0) xs)) 0" for xs :: "byte list"
    by (rule replicate_eqI) (auto dest: set_takeWhileD)
  ultimately have "rev memo = replicate (length (takeWhile (\<lambda>b. b = 0) (rev memo))) 0 @ dropWhile (\<lambda>b. b = 0) (rev memo)"
    by metis
  then show ?thesis unfolding trim_zeros_def by (metis rev_append rev_replicate rev_rev_ident)
qed

lemma trim_zeros_text:
  assumes "\<forall>b \<in> set body. b \<noteq> 0"
  shows "trim_zeros (body @ replicate k 0) = body"
proof -
  have "dropWhile (\<lambda>b. b = 0) (rev body) = rev body" using assms by (cases "rev body") (auto simp: dropWhile_eq_self_iff dest: arg_cong[of _ _ set])
  moreover have "dropWhile (\<lambda>b. b = 0) (replicate k 0 @ ys) = dropWhile (\<lambda>b. b = 0) ys" for ys :: "byte list"
    by (induction k) simp_all
  ultimately show ?thesis by (simp add: trim_zeros_def)
qed

lemma printable_utf8: "list_all printable bs \<Longrightarrow> utf8 bs"
  by (induction bs) (auto simp: printable_def intro: order.strict_trans1)

text \<open>
  The memo check lets a memo through exactly when the device shows it as it is: the empty memo of
  ZIP 302, or printable ASCII padded with zeros. Every other memo, valid UTF-8 or not, counts as one
  that the device would show as a hash.
\<close>

theorem only_displayable_memos_pass:
  assumes "memo \<noteq> []"
  shows "\<not> memo_reaches_ledger_hash_path memo
    \<longleftrightarrow> memo = 0xf6 # replicate (length memo - 1) 0
      \<or> (\<exists>body k. memo = body @ replicate k 0 \<and> list_all printable body)"
proof -
  have nonzero: "\<forall>b \<in> set body. b \<noteq> 0" if "list_all printable body" for body
    using that by (auto simp: list_all_iff printable_def)
  have low: "\<not> 0xf4 < b" if "printable b" for b
    using that by (auto simp: printable_def not_less intro: order.trans)
  have none: "hd memo = 0xf6 \<and> list_all (\<lambda>b. b = 0) (tl memo) \<longleftrightarrow> memo = 0xf6 # replicate (length memo - 1) 0"
  proof -
    have "list_all (\<lambda>b. b = 0) bs \<longleftrightarrow> bs = replicate (length bs) 0" for bs :: "byte list"
      by (induction bs) auto
    then show ?thesis using assms by (cases memo) auto
  qed
  have shown: "(\<exists>body k. memo = body @ replicate k 0 \<and> list_all printable body) \<longleftrightarrow> list_all printable (trim_zeros memo)"
    using trim_zeros_split[of memo] trim_zeros_text nonzero by metis
  have first: "hd memo = hd (trim_zeros memo)" if "trim_zeros memo \<noteq> []"
    using trim_zeros_split[of memo] that by (metis hd_append2)
  have "\<not> memo_reaches_ledger_hash_path memo
      \<longleftrightarrow> memo = 0xf6 # replicate (length memo - 1) 0 \<or> list_all printable (trim_zeros memo)"
    unfolding memo_reaches_ledger_hash_path_def none
    using first low printable_utf8[of "trim_zeros memo"] by (cases "trim_zeros memo") (auto simp del: utf8.simps)
  then show ?thesis by (simp only: shown)
qed

theorem only_displayable_memos_pass_witness:
  "\<not> memo_reaches_ledger_hash_path ([72, 105] @ replicate 510 0)"
proof -
  have "list_all printable [72, 105]" by (simp add: printable_def)
  then have "\<exists>body k. [72, 105] @ replicate 510 0 = body @ replicate k 0 \<and> list_all printable body" by blast
  then show ?thesis using only_displayable_memos_pass[of "[72, 105] @ replicate 510 0"] by blast
qed

end
