(* ===== verification/Send_Locks.thy ===== *)
theory Send_Locks
  imports "HOL-Library.AList" Run_Lifecycle
begin

text \<open>
  The reservations of send proposals: the table of wallet/sync/proposal_locks.rs, the proposal store of
  wallet/sync/mod.rs and their use in send.rs and pczt.rs. The state is one wallet database (the
  reservation rows and the output locks \<open>'w\<close> of the wallet library) and the memory of the process (its
  session, the shutdown flag and the proposal store). An operation that holds the wallet write lock or
  the mutex of the store is one step; where the code lets go of both in between, the steps of other
  threads are the argument \<open>others\<close>. A proposal \<open>'p\<close> is a value of the wallet library. The path of the
  database, and the timeouts of SQLite, are left out.
\<close>

section \<open>State\<close>

datatype pool_type = Transparent_Pool | Sapling_Pool | Orchard_Pool | Ironwood_Pool

definition pool_code :: "pool_type \<Rightarrow> int" where
  "pool_code pool = (case pool of Transparent_Pool \<Rightarrow> 0 | Sapling_Pool \<Rightarrow> 2 | Orchard_Pool \<Rightarrow> 3 | Ironwood_Pool \<Rightarrow> 4)"

definition pool_from_code :: "int \<Rightarrow> pool_type outcome" where
  "pool_from_code code =
     (if code = 0 then Inr Transparent_Pool else if code = 2 then Inr Sapling_Pool
      else if code = 3 then Inr Orchard_Pool else if code = 4 then Inr Ironwood_Pool
      else Inl (Message ''Unknown persisted send lock pool code {code}'' [AInt code]))"

record output_ref =
  or_txid :: "byte list"
  or_pool :: pool_type
  or_output_index :: nat

type_synonym lock_owner = "byte list"

record lock_row =
  lr_owner :: lock_owner
  lr_session_id :: "byte list"
  lr_txid :: "byte list"
  lr_pool :: int
  lr_output_index :: nat
  lr_expiry_height :: nat
  lr_retain_until_expiry :: bool
  lr_phase :: string
  lr_operation_id :: "string option"

record 'p stored_proposal =
  sp_proposal :: 'p
  sp_network :: wallet_network
  sp_account_id :: string
  sp_send_flow_id :: string

record 'p stored_lock =
  spl_proposal :: 'p
  spl_network :: wallet_network
  spl_owner :: lock_owner
  spl_send_flow_id :: string

record ('w, 'p) send_state =
  ss_rows :: "lock_row list"
  ss_wallet :: 'w
  ss_session_id :: "byte list"
  ss_shutting_down :: bool
  ss_proposals :: "(nat \<times> 'p stored_proposal) list"
  ss_locks :: "(nat \<times> 'p stored_lock) list"
  ss_next_id :: nat

text \<open>The output locks of the wallet library, its target height and the inputs of a proposal.\<close>

record ('w, 'p) wallet_library =
  wl_lock_outputs :: "output_ref list \<Rightarrow> lock_owner \<Rightarrow> height \<Rightarrow> ('w, unit) store_op"
  wl_unlock_output :: "output_ref \<Rightarrow> lock_owner \<Rightarrow> ('w, unit) store_op"
  wl_unlock_proposal_inputs :: "'p \<Rightarrow> lock_owner \<Rightarrow> ('w, unit) store_op"
  wl_target_height :: "'w \<Rightarrow> height option outcome"
  wl_input_refs :: "'p \<Rightarrow> output_ref list"

definition on_wallet :: "('w, 'a) store_op \<Rightarrow> (('w, 'p, 'z) send_state_scheme, 'a) store_op" where
  "on_wallet m s = (case m (ss_wallet s) of (result, w) \<Rightarrow> (result, s\<lparr>ss_wallet := w\<rparr>))"

definition interleave :: "('s \<Rightarrow> 's) \<Rightarrow> ('s, unit) store_op" where
  "interleave others s = (Inr (), others s)"

section \<open>Reservation rows\<close>

definition update_locks :: "(lock_row \<Rightarrow> bool) \<Rightarrow> (lock_row \<Rightarrow> lock_row) \<Rightarrow> (('w, 'p, 'z) send_state_scheme, nat) store_op" where
  "update_locks P f s = (Inr (length (filter P (ss_rows s))), s\<lparr>ss_rows := map (\<lambda>r. if P r then f r else r) (ss_rows s)\<rparr>)"

definition delete_locks :: "(lock_row \<Rightarrow> bool) \<Rightarrow> (('w, 'p, 'z) send_state_scheme, nat) store_op" where
  "delete_locks P s = (Inr (length (filter P (ss_rows s))), s\<lparr>ss_rows := filter (\<lambda>r. \<not> P r) (ss_rows s)\<rparr>)"

definition require_active_session :: "(('w, 'p, 'z) send_state_scheme, unit) store_op" where
  "require_active_session = st_read (\<lambda>s. if ss_shutting_down s
     then Inl (Msg ''Wallet is shutting down; signing request was cancelled'') else Inr ())"

definition begin_shutdown :: "(('w, 'p, 'z) send_state_scheme, unit) store_op" where
  "begin_shutdown s = (Inr (), s\<lparr>ss_shutting_down := True\<rparr>)"

definition lock_key :: "lock_row \<Rightarrow> lock_owner \<times> byte list \<times> int \<times> nat" where
  "lock_key r = (lr_owner r, lr_txid r, lr_pool r, lr_output_index r)"

definition session_row :: "byte list \<Rightarrow> lock_owner \<Rightarrow> output_ref \<Rightarrow> height \<Rightarrow> lock_row" where
  "session_row session owner output expiry_height =
     \<lparr>lr_owner = owner, lr_session_id = session, lr_txid = or_txid output, lr_pool = pool_code (or_pool output),
      lr_output_index = or_output_index output, lr_expiry_height = expiry_height, lr_retain_until_expiry = False,
      lr_phase = ''session'', lr_operation_id = None\<rparr>"

text \<open>\<open>INSERT OR REPLACE\<close>.\<close>

definition insert_or_replace :: "lock_row \<Rightarrow> lock_row list \<Rightarrow> lock_row list" where
  "insert_or_replace row rows = filter (\<lambda>r. lock_key r \<noteq> lock_key row) rows @ [row]"

definition persist :: "lock_owner \<Rightarrow> output_ref list \<Rightarrow> height \<Rightarrow> (('w, 'p, 'z) send_state_scheme, unit) store_op" where
  "persist owner outputs expiry_height s =
     (Inr (), s\<lparr>ss_rows := fold (\<lambda>output. insert_or_replace (session_row (ss_session_id s) owner output expiry_height))
        outputs (ss_rows s)\<rparr>)"

definition remove_reservation :: "lock_owner \<Rightarrow> (('w, 'p, 'z) send_state_scheme, unit) store_op" where
  "remove_reservation owner = st_bind (delete_locks (\<lambda>r. lr_owner r = owner)) (\<lambda>_. st_return ())"

definition mark_retain_until_expiry :: "lock_owner \<Rightarrow> (('w, 'p, 'z) send_state_scheme, unit) store_op" where
  "mark_retain_until_expiry owner =
     st_bind (update_locks (\<lambda>r. lr_owner r = owner)
       (\<lambda>r. r\<lparr>lr_retain_until_expiry := True,
             lr_phase := if lr_phase r = ''signed'' then lr_phase r else ''broadcast''\<rparr>)) (\<lambda>updated.
     if updated = 0 then st_fail (Msg ''Send proposal lock recovery row no longer exists'') else st_return ())"

definition checkpoint_owner :: "lock_owner \<Rightarrow> string \<Rightarrow> (('w, 'p, 'z) send_state_scheme, unit) store_op" where
  "checkpoint_owner owner operation_id =
     st_bind require_active_session (\<lambda>_.
     st_bind (st_read (\<lambda>s. Inr (ss_session_id s))) (\<lambda>session.
     st_bind (update_locks (\<lambda>r. lr_owner r = owner \<and> lr_session_id r = session \<and> lr_phase r = ''session'')
       (\<lambda>r. r\<lparr>lr_retain_until_expiry := True, lr_phase := ''signed'', lr_operation_id := Some operation_id\<rparr>)) (\<lambda>updated.
     if updated = 0 then st_fail (Msg ''Signing reservation was cancelled or already transferred'') else st_return ())))"

definition release_operation :: "string \<Rightarrow> (('w, 'p, 'z) send_state_scheme, unit) store_op" where
  "release_operation operation_id =
     st_bind (update_locks (\<lambda>r. lr_operation_id r = Some operation_id)
       (\<lambda>r. r\<lparr>lr_retain_until_expiry := False, lr_phase := ''release''\<rparr>)) (\<lambda>_. st_return ())"

definition is_durable :: "lock_owner \<Rightarrow> ('w, 'p, 'z) send_state_scheme \<Rightarrow> bool" where
  "is_durable owner s \<longleftrightarrow> list_ex (\<lambda>r. lr_owner r = owner \<and> lr_phase r \<in> {''signed'', ''broadcast''}) (ss_rows s)"

definition update_expiry :: "lock_owner \<Rightarrow> height \<Rightarrow> (('w, 'p, 'z) send_state_scheme, unit) store_op" where
  "update_expiry owner expiry_height =
     st_bind (update_locks (\<lambda>r. lr_owner r = owner) (\<lambda>r. r\<lparr>lr_expiry_height := expiry_height\<rparr>)) (\<lambda>updated.
     if updated = 0 then st_fail (Msg ''Send proposal lock recovery row no longer exists'') else st_return ())"

section \<open>Recovery after a restart\<close>

type_synonym orphan_locks = "(lock_owner \<times> height \<times> bool \<times> output_ref list) list"

text \<open>One row of the query: the entry of its owner is created or must agree with it.\<close>

definition collect_lock :: "lock_row \<Rightarrow> orphan_locks \<Rightarrow> orphan_locks outcome" where
  "collect_lock r locks =
     (if length (lr_owner r) \<noteq> 32 then Inl (Msg ''Persisted send lock owner is not 32 bytes'')
      else if length (lr_txid r) \<noteq> 32 then Inl (Msg ''Persisted send lock txid is not 32 bytes'')
      else
        let (expiry, retain, outputs) = (case map_of locks (lr_owner r) of Some entry \<Rightarrow> entry
              | None \<Rightarrow> (lr_expiry_height r, lr_retain_until_expiry r, [])) in
        if expiry \<noteq> lr_expiry_height r \<or> retain \<noteq> lr_retain_until_expiry r
        then Inl (Msg ''Persisted send lock owner has inconsistent metadata'')
        else res_bind (pool_from_code (lr_pool r)) (\<lambda>pool.
          Inr (AList.update (lr_owner r) (expiry, retain,
            outputs @ [\<lparr>or_txid = lr_txid r, or_pool = pool, or_output_index = lr_output_index r\<rparr>]) locks)))"

definition read_previous_session_locks :: "('w, 'p, 'z) send_state_scheme \<Rightarrow> orphan_locks outcome" where
  "read_previous_session_locks s =
     res_fold collect_lock
       (sort_key lock_key (filter (\<lambda>r. lr_session_id r \<noteq> ss_session_id s \<or> lr_phase r = ''release'') (ss_rows s))) []"

definition should_release_after_restart :: "bool \<Rightarrow> height option \<Rightarrow> height \<Rightarrow> bool" where
  "should_release_after_restart retain_until_expiry target_height expiry_height \<longleftrightarrow>
     \<not> retain_until_expiry \<or> (case target_height of None \<Rightarrow> False | Some h \<Rightarrow> expiry_height \<le> h)"

definition unlock_orphans :: "('w, 'p) wallet_library \<Rightarrow> orphan_locks \<Rightarrow> (('w, 'p, 'z) send_state_scheme, unit) store_op" where
  "unlock_orphans lib released =
     st_each (\<lambda>(owner, _, _, outputs). st_each (\<lambda>output.
       st_context ''Release orphan send proposal input: {e}'' (on_wallet (wl_unlock_output lib output owner))) outputs) released"

definition recover :: "('w, 'p) wallet_library \<Rightarrow> bool \<Rightarrow> (('w, 'p, 'z) send_state_scheme, unit) store_op" where
  "recover lib check_expiry =
     st_bind (st_read read_previous_session_locks) (\<lambda>locks.
     if locks = [] then st_return ()
     else st_bind (if check_expiry
         then st_context ''Read target height for send lock recovery: {e}'' (st_read (\<lambda>s. wl_target_height lib (ss_wallet s)))
         else st_return None) (\<lambda>target_height.
       let released = filter (\<lambda>(_, expiry, retain, _). should_release_after_restart retain target_height expiry) locks in
       st_bind (unlock_orphans lib released) (\<lambda>_.
       transaction (st_each remove_reservation (map fst released)))))"

definition recover_previous_process :: "('w, 'p) wallet_library \<Rightarrow> (('w, 'p, 'z) send_state_scheme, unit) store_op" where
  "recover_previous_process lib = recover lib True"

definition recover_before_balance :: "('w, 'p) wallet_library \<Rightarrow> (('w, 'p, 'z) send_state_scheme, unit) store_op" where
  "recover_before_balance lib = recover lib False"

section \<open>The proposal store\<close>

definition find_lock :: "nat \<Rightarrow> ('w, 'p, 'z) send_state_scheme \<Rightarrow> 'p stored_lock option" where
  "find_lock proposal_id s = map_of (ss_locks s) proposal_id"

definition forget_lock :: "nat \<Rightarrow> (('w, 'p, 'z) send_state_scheme, unit) store_op" where
  "forget_lock proposal_id s = (Inr (), s\<lparr>ss_locks := AList.delete proposal_id (ss_locks s)\<rparr>)"

definition forget_proposal :: "nat \<Rightarrow> (('w, 'p, 'z) send_state_scheme, unit) store_op" where
  "forget_proposal proposal_id s = (Inr (), s\<lparr>ss_proposals := AList.delete proposal_id (ss_proposals s)\<rparr>)"

definition consume_stored_proposal ::
    "nat \<Rightarrow> string \<Rightarrow> string \<Rightarrow> (('w, 'p, 'z) send_state_scheme, 'p stored_proposal) store_op" where
  "consume_stored_proposal proposal_id send_flow_id not_found_message =
     st_bind require_active_session (\<lambda>_.
     st_bind (st_read (\<lambda>s. case map_of (ss_proposals s) proposal_id of
         Some stored \<Rightarrow> if sp_send_flow_id stored = send_flow_id then Inr stored else Inl (Msg ''Send flow mismatch'')
       | None \<Rightarrow> Inl (Msg not_found_message))) (\<lambda>stored.
     st_bind (forget_proposal proposal_id) (\<lambda>_. st_return stored)))"

definition stored_proposal_lock :: "nat \<Rightarrow> string \<Rightarrow> (('w, 'p, 'z) send_state_scheme, 'p stored_lock) store_op" where
  "stored_proposal_lock proposal_id send_flow_id =
     st_bind require_active_session (\<lambda>_.
     st_read (\<lambda>s. case find_lock proposal_id s of
         Some lock \<Rightarrow> if spl_send_flow_id lock = send_flow_id then Inr lock else Inl (Msg ''Send flow mismatch'')
       | None \<Rightarrow> Inl (Msg ''Proposal input lock not found'')))"

definition unlock_stored_proposal_locked ::
    "('w, 'p) wallet_library \<Rightarrow> nat \<Rightarrow> string \<Rightarrow> bool \<Rightarrow> (('w, 'p, 'z) send_state_scheme, unit) store_op" where
  "unlock_stored_proposal_locked lib proposal_id send_flow_id allow_durable =
     st_bind (st_read (\<lambda>s. Inr (find_lock proposal_id s))) (\<lambda>current.
     case current of None \<Rightarrow> st_return ()
     | Some current \<Rightarrow>
       if spl_send_flow_id current \<noteq> send_flow_id then st_fail (Msg ''Send flow mismatch before DB unlock'')
       else st_bind (st_read (\<lambda>s. Inr (\<not> allow_durable \<and> is_durable (spl_owner current) s))) (\<lambda>durable.
         if durable then st_return ()
         else st_bind (st_context ''Unlock abandoned send proposal inputs: {e}''
                (on_wallet (wl_unlock_proposal_inputs lib (spl_proposal current) (spl_owner current)))) (\<lambda>_.
           st_bind (remove_reservation (spl_owner current)) (\<lambda>_. forget_lock proposal_id))))"

definition finish_stored_proposal_inner ::
    "('w, 'p) wallet_library \<Rightarrow> (('w, 'p, 'z) send_state_scheme \<Rightarrow> ('w, 'p, 'z) send_state_scheme)
      \<Rightarrow> nat \<Rightarrow> string \<Rightarrow> bool \<Rightarrow> bool \<Rightarrow> (('w, 'p, 'z) send_state_scheme, unit) store_op" where
  "finish_stored_proposal_inner lib others proposal_id send_flow_id release_inputs allow_durable =
     st_bind (st_read (\<lambda>s. Inr (find_lock proposal_id s))) (\<lambda>lock.
     case lock of None \<Rightarrow> st_return ()
     | Some lock \<Rightarrow>
       if spl_send_flow_id lock \<noteq> send_flow_id then st_fail (Msg ''Send flow mismatch'')
       else if \<not> release_inputs
       then st_bind (forget_lock proposal_id) (\<lambda>_. st_bind (interleave others) (\<lambda>_. remove_reservation (spl_owner lock)))
       else st_bind (interleave others) (\<lambda>_. unlock_stored_proposal_locked lib proposal_id send_flow_id allow_durable))"

definition finish_stored_proposal ::
    "('w, 'p) wallet_library \<Rightarrow> (('w, 'p, 'z) send_state_scheme \<Rightarrow> ('w, 'p, 'z) send_state_scheme)
      \<Rightarrow> nat \<Rightarrow> string \<Rightarrow> bool \<Rightarrow> (('w, 'p, 'z) send_state_scheme, unit) store_op" where
  "finish_stored_proposal lib others proposal_id send_flow_id release_inputs =
     finish_stored_proposal_inner lib others proposal_id send_flow_id release_inputs True"

text \<open>The first part of \<open>discard_stored_proposal\<close>, under the mutex of the store.\<close>

definition discard_begin :: "nat \<Rightarrow> string \<Rightarrow> (('w, 'p, 'z) send_state_scheme, bool) store_op" where
  "discard_begin proposal_id send_flow_id =
     st_bind (st_read (\<lambda>s. Inr (map_of (ss_proposals s) proposal_id, find_lock proposal_id s))) (\<lambda>(stored, lock).
     case stored of
       Some stored \<Rightarrow>
         if sp_send_flow_id stored = send_flow_id then st_bind (forget_proposal proposal_id) (\<lambda>_. st_return True)
         else st_fail (Msg ''Send flow mismatch'')
     | None \<Rightarrow> (case lock of None \<Rightarrow> st_return False
         | Some lock \<Rightarrow> if spl_send_flow_id lock = send_flow_id then st_return True else st_fail (Msg ''Send flow mismatch'')))"

definition discard_stored_proposal ::
    "('w, 'p) wallet_library \<Rightarrow> (nat \<Rightarrow> ('w, 'p, 'z) send_state_scheme \<Rightarrow> ('w, 'p, 'z) send_state_scheme)
      \<Rightarrow> nat \<Rightarrow> string \<Rightarrow> (('w, 'p, 'z) send_state_scheme, unit) store_op" where
  "discard_stored_proposal lib others proposal_id send_flow_id =
     st_bind (discard_begin proposal_id send_flow_id) (\<lambda>should_release.
     st_bind (interleave (others 0)) (\<lambda>_.
     if should_release then finish_stored_proposal_inner lib (others 1) proposal_id send_flow_id True False
     else st_return ()))"

text \<open>The second part of \<open>retain_stored_proposal_lock_until_expiry\<close>, under the wallet write lock.\<close>

definition retain_locked :: "nat \<Rightarrow> string \<Rightarrow> lock_owner \<Rightarrow> (('w, 'p, 'z) send_state_scheme, unit) store_op" where
  "retain_locked proposal_id send_flow_id owner =
     st_bind (st_read (\<lambda>s. Inr (find_lock proposal_id s))) (\<lambda>current.
     case current of None \<Rightarrow> st_return ()
     | Some current \<Rightarrow>
       if spl_send_flow_id current \<noteq> send_flow_id \<or> spl_owner current \<noteq> owner
       then st_fail (Msg ''Send flow changed before retaining DB lock'')
       else st_bind (mark_retain_until_expiry owner) (\<lambda>_.
         st_bind (st_read (\<lambda>s. Inr (map_of (ss_proposals s) proposal_id))) (\<lambda>stored.
         case stored of None \<Rightarrow> forget_lock proposal_id
         | Some stored \<Rightarrow>
           if sp_send_flow_id stored \<noteq> send_flow_id then st_fail (Msg ''Send flow mismatch'')
           else st_bind (forget_proposal proposal_id) (\<lambda>_. forget_lock proposal_id))))"

definition retain_stored_proposal_lock_until_expiry ::
    "(('w, 'p, 'z) send_state_scheme \<Rightarrow> ('w, 'p, 'z) send_state_scheme)
      \<Rightarrow> nat \<Rightarrow> string \<Rightarrow> (('w, 'p, 'z) send_state_scheme, unit) store_op" where
  "retain_stored_proposal_lock_until_expiry others proposal_id send_flow_id =
     st_bind (st_read (\<lambda>s. Inr (find_lock proposal_id s))) (\<lambda>lock.
     case lock of None \<Rightarrow> st_return ()
     | Some lock \<Rightarrow>
       if spl_send_flow_id lock \<noteq> send_flow_id then st_fail (Msg ''Send flow mismatch'')
       else st_bind (interleave others) (\<lambda>_. retain_locked proposal_id send_flow_id (spl_owner lock)))"

definition mark_proposal_broadcast_started :: "nat \<Rightarrow> string \<Rightarrow> (('w, 'p, 'z) send_state_scheme, unit) store_op" where
  "mark_proposal_broadcast_started proposal_id send_flow_id =
     st_bind (stored_proposal_lock proposal_id send_flow_id) (\<lambda>lock. mark_retain_until_expiry (spl_owner lock))"

section \<open>Shutdown\<close>

text \<open>
  The cleanup loop: \<open>started\<close> is the number of proposals whose cleanup starts before the deadline. The
  errors are collected and joined.
\<close>

fun shutdown_loop ::
    "('w, 'p) wallet_library \<Rightarrow> nat \<Rightarrow> (nat \<times> 'p stored_lock) list \<Rightarrow> (('w, 'p, 'z) send_state_scheme, message list) store_op" where
  "shutdown_loop lib started [] s = (Inr [], s)"
| "shutdown_loop lib 0 ((proposal_id, lock) # locks) s =
     (Inr [Msg ''Remaining shutdown cleanup deferred to startup recovery''], s)"
| "shutdown_loop lib (Suc started) ((proposal_id, lock) # locks) s =
     (case unlock_stored_proposal_locked lib proposal_id (spl_send_flow_id lock) False s of
        (Inr _, s) \<Rightarrow> shutdown_loop lib started locks s
      | (Inl e, s) \<Rightarrow> (case shutdown_loop lib started locks s of (r, s) \<Rightarrow> (res_bind r (\<lambda>errors. Inr (e # errors)), s)))"

text \<open>\<open>write_lock\<close> is absent when the wallet write lock is not obtained before the deadline.\<close>

definition shutdown_signing_reservations ::
    "('w, 'p) wallet_library \<Rightarrow> nat option \<Rightarrow> (('w, 'p, 'z) send_state_scheme, unit) store_op" where
  "shutdown_signing_reservations lib write_lock =
     st_bind begin_shutdown (\<lambda>_.
     case write_lock of None \<Rightarrow> st_fail (Msg ''Shutdown DB cleanup deferred to startup recovery'')
     | Some started \<Rightarrow>
       st_bind (st_read (\<lambda>s. Inr (ss_locks s))) (\<lambda>proposals.
       st_bind (shutdown_loop lib started proposals) (\<lambda>errors.
       if errors = [] then st_return () else st_fail (Message ''{}; {}'' (map AMsg errors)))))"

end
