(* ===== verification/Send_Flow.thy ===== *)
theory Send_Flow
  imports Send_Locks
begin

text \<open>
  Where send proposals take and give back their reservation: creating a proposal and executing it
  (wallet/sync/send.rs), turning it into a PCZT for a hardware signer (pczt.rs), and the input lock of an
  immediate migration (send.rs). Selecting notes, proving and signing are computations of the wallet
  library, and the chain tip, the seed and the network are what the call observes.
\<close>

section \<open>Expiry of a proposal\<close>

definition SEND_PROPOSAL_LOCK_BLOCKS :: nat where
  "SEND_PROPOSAL_LOCK_BLOCKS = 40"

definition send_proposal_lock_expiry :: "height \<Rightarrow> height" where
  "send_proposal_lock_expiry min_target_height = min_target_height + SEND_PROPOSAL_LOCK_BLOCKS"

definition send_proposal_is_expired :: "height \<Rightarrow> height \<Rightarrow> bool" where
  "send_proposal_is_expired min_target_height current_target_height \<longleftrightarrow>
     send_proposal_lock_expiry min_target_height \<le> current_target_height"

definition send_expiry_height_for_live_tip :: "height \<Rightarrow> height \<Rightarrow> height outcome" where
  "send_expiry_height_for_live_tip min_target_height live_tip =
     res_bind (ok_or (checked_add 32 live_tip 1) (Msg ''Live transaction target height overflow'')) (\<lambda>live_target.
     if send_proposal_lock_expiry min_target_height \<le> live_target
     then Inl (Msg ''Send proposal expired against the live chain tip; review the payment and create a new proposal'')
     else ok_or (checked_add 32 (max live_target min_target_height) SEND_PROPOSAL_LOCK_BLOCKS)
            (Msg ''Live transaction expiry height overflow''))"

text \<open>The height that \<open>latest_block_for_transaction\<close> observes, or its error.\<close>

definition live_send_expiry_height :: "nat outcome \<Rightarrow> height \<Rightarrow> height outcome" where
  "live_send_expiry_height observed min_target_height =
     (case observed of
        Inl e \<Rightarrow> Inl (Message ''Read live chain tip before transaction construction: {e}'' [AMsg e])
      | Inr tip \<Rightarrow>
          if 2 ^ 32 \<le> tip then Inl (Msg ''Live chain tip exceeds u32'')
          else send_expiry_height_for_live_tip min_target_height tip)"

section \<open>Reserving inputs\<close>

definition st_or_else :: "('s, 'a) store_op \<Rightarrow> (message \<Rightarrow> ('s, 'a) store_op) \<Rightarrow> ('s, 'a) store_op" where
  "st_or_else m handle s = (case m s of (Inl e, s) \<Rightarrow> handle e s | (Inr x, s) \<Rightarrow> (Inr x, s))"

definition reserve_inputs ::
    "('w, 'p) wallet_library \<Rightarrow> string \<Rightarrow> lock_owner \<Rightarrow> output_ref list \<Rightarrow> height \<Rightarrow> (('w, 'p, 'z) send_state_scheme, unit) store_op" where
  "reserve_inputs lib label owner outputs expiry_height =
     st_bind (persist owner outputs expiry_height) (\<lambda>_.
     st_or_else (on_wallet (wl_lock_outputs lib outputs owner expiry_height))
       (\<lambda>e. st_bind (remove_reservation owner) (\<lambda>_. st_fail (Message label [AMsg e]))))"

definition store_proposal ::
    "'p \<Rightarrow> wallet_network \<Rightarrow> string \<Rightarrow> string \<Rightarrow> lock_owner \<Rightarrow> (('w, 'p, 'z) send_state_scheme, nat) store_op" where
  "store_proposal proposal network account_id send_flow_id owner s =
     (Inr (ss_next_id s), s\<lparr>ss_next_id := ss_next_id s + 1,
        ss_locks := AList.update (ss_next_id s) \<lparr>spl_proposal = proposal, spl_network = network, spl_owner = owner,
          spl_send_flow_id = send_flow_id\<rparr> (ss_locks s),
        ss_proposals := AList.update (ss_next_id s) \<lparr>sp_proposal = proposal, sp_network = network,
          sp_account_id = account_id, sp_send_flow_id = send_flow_id\<rparr> (ss_proposals s)\<rparr>)"

text \<open>
  \<open>propose\<close> selects the notes of the proposal, together with its minimum target height; \<open>owner\<close> is the
  lock owner that was drawn.
\<close>

definition propose_and_store_request ::
    "('w, 'p) wallet_library \<Rightarrow> ('w \<Rightarrow> ('p \<times> height) outcome) \<Rightarrow> lock_owner \<Rightarrow> wallet_network \<Rightarrow> string \<Rightarrow> string
      \<Rightarrow> (('w, 'p, 'z) send_state_scheme, nat) store_op" where
  "propose_and_store_request lib propose owner network account_id send_flow_id =
     (if send_flow_id = [] then st_fail (Msg ''Send flow id is required'')
      else st_bind require_active_session (\<lambda>_.
        st_bind (st_read (\<lambda>s. propose (ss_wallet s))) (\<lambda>(proposal, min_target_height).
        st_bind (reserve_inputs lib ''Lock send proposal inputs: {error:?}'' owner (wl_input_refs lib proposal)
          (send_proposal_lock_expiry min_target_height)) (\<lambda>_.
        store_proposal proposal network account_id send_flow_id owner))))"

section \<open>Executing a proposal\<close>

definition release_pczt_proposal_after_failure ::
    "('w, 'p) wallet_library \<Rightarrow> (('w, 'p, 'z) send_state_scheme \<Rightarrow> ('w, 'p, 'z) send_state_scheme)
      \<Rightarrow> nat \<Rightarrow> string \<Rightarrow> message \<Rightarrow> (('w, 'p, 'z) send_state_scheme, 'a) store_op" where
  "release_pczt_proposal_after_failure lib others proposal_id send_flow_id e =
     st_bind (st_or_else (finish_stored_proposal lib others proposal_id send_flow_id True)
       (\<lambda>cleanup. st_fail (Message ''{error}; additionally failed to release proposal inputs: {cleanup_error}'' [AMsg e, AMsg cleanup])))
       (\<lambda>_. st_fail e)"

text \<open>
  Under the write lock, after the tip was read: the lock must still be there, unchanged, and is taken
  again up to the new expiry height.
\<close>

definition same_reservation :: "'p stored_lock \<Rightarrow> 'p stored_lock \<Rightarrow> bool" where
  "same_reservation current before \<longleftrightarrow>
     spl_owner current = spl_owner before \<and> spl_network current = spl_network before"

definition retake_inputs ::
    "('w, 'p) wallet_library \<Rightarrow> string \<Rightarrow> 'p \<Rightarrow> lock_owner \<Rightarrow> height \<Rightarrow> (('w, 'p, 'z) send_state_scheme, unit) store_op" where
  "retake_inputs lib label proposal owner live_expiry_height =
     st_bind (st_context label (on_wallet (wl_lock_outputs lib (wl_input_refs lib proposal) owner live_expiry_height))) (\<lambda>_.
     update_expiry owner live_expiry_height)"

definition create_signing_request ::
    "('w, 'p) wallet_library \<Rightarrow> ('p \<Rightarrow> height \<Rightarrow> ('w, 'b) store_op) \<Rightarrow> (lock_owner \<Rightarrow> 'b \<Rightarrow> byte list)
      \<Rightarrow> nat \<Rightarrow> string \<Rightarrow> 'p \<Rightarrow> 'p stored_lock \<Rightarrow> height \<Rightarrow> (('w, 'p, 'z) send_state_scheme, byte list) store_op" where
  "create_signing_request lib create bind_pczt proposal_id send_flow_id proposal proposal_lock live_expiry_height =
     st_bind (stored_proposal_lock proposal_id send_flow_id) (\<lambda>current.
     if \<not> same_reservation current proposal_lock
     then st_fail (Msg ''Hardware proposal input lock changed while refreshing chain tip'')
     else
       st_bind (retake_inputs lib ''Revalidate hardware proposal input locks: {e:?}'' proposal (spl_owner current) live_expiry_height) (\<lambda>_.
       st_bind (st_context ''Create PCZT failed: {e}'' (on_wallet (create proposal live_expiry_height))) (\<lambda>pczt.
       st_return (bind_pczt (spl_owner current) pczt))))"

text \<open>\<open>min_target_height\<close> of a proposal is read from the library's value.\<close>

definition create_pczt_from_proposal ::
    "('w, 'p) wallet_library \<Rightarrow> (nat \<Rightarrow> ('w, 'p, 'z) send_state_scheme \<Rightarrow> ('w, 'p, 'z) send_state_scheme)
      \<Rightarrow> ('p \<Rightarrow> height) \<Rightarrow> nat outcome \<Rightarrow> ('p \<Rightarrow> height \<Rightarrow> ('w, 'b) store_op) \<Rightarrow> (lock_owner \<Rightarrow> 'b \<Rightarrow> byte list)
      \<Rightarrow> wallet_network \<Rightarrow> nat \<Rightarrow> string \<Rightarrow> (('w, 'p, 'z) send_state_scheme, byte list) store_op" where
  "create_pczt_from_proposal lib others min_target_height observed_tip create bind_pczt network proposal_id send_flow_id =
     st_bind (consume_stored_proposal proposal_id send_flow_id ''Proposal not found (expired or already consumed)'') (\<lambda>stored.
     st_bind (interleave (others 0)) (\<lambda>_.
     st_or_else (
       st_bind (stored_proposal_lock proposal_id send_flow_id) (\<lambda>proposal_lock.
       if spl_network proposal_lock \<noteq> network
       then st_fail (Msg ''Proposal belongs to a different wallet database or network'')
       else
         st_bind (st_lift (live_send_expiry_height observed_tip (min_target_height (sp_proposal stored)))) (\<lambda>live_expiry_height.
         st_bind (interleave (others 1)) (\<lambda>_.
         create_signing_request lib create bind_pczt proposal_id send_flow_id (sp_proposal stored) proposal_lock live_expiry_height))))
     (release_pczt_proposal_after_failure lib (others 2) proposal_id send_flow_id)))"

definition create_transactions ::
    "('w, 'p) wallet_library \<Rightarrow> ('p \<Rightarrow> height) \<Rightarrow> ('p \<Rightarrow> height \<Rightarrow> ('w, 't) store_op) \<Rightarrow> nat \<Rightarrow> string \<Rightarrow> 'p
      \<Rightarrow> 'p stored_lock \<Rightarrow> height \<Rightarrow> (('w, 'p, 'z) send_state_scheme, 't) store_op" where
  "create_transactions lib min_target_height create proposal_id send_flow_id proposal proposal_lock live_expiry_height =
     st_bind (stored_proposal_lock proposal_id send_flow_id) (\<lambda>current.
     if \<not> same_reservation current proposal_lock
     then st_fail (Msg ''Send proposal input lock changed while refreshing chain tip'')
     else
       st_bind (st_context ''Read wallet target height before send: {e}'' (st_read (\<lambda>s. wl_target_height lib (ss_wallet s)))) (\<lambda>target.
       case target of None \<Rightarrow> st_fail (Msg ''Wallet must sync before executing a send proposal'')
       | Some current_target_height \<Rightarrow>
         if send_proposal_is_expired (min_target_height proposal) current_target_height
         then st_fail (Msg ''Send proposal expired; review the payment and create a new proposal'')
         else
           st_bind (retake_inputs lib ''Revalidate send proposal input locks: {e:?}'' proposal (spl_owner current) live_expiry_height) (\<lambda>_.
           on_wallet (create proposal live_expiry_height))))"

text \<open>
  \<open>create\<close> derives the keys, proves and stores the transactions. A failure of the bookkeeping afterwards
  is only logged; then the transactions are broadcast.
\<close>

definition execute_stored_proposal ::
    "('w, 'p) wallet_library \<Rightarrow> (nat \<Rightarrow> ('w, 'p, 'z) send_state_scheme \<Rightarrow> ('w, 'p, 'z) send_state_scheme)
      \<Rightarrow> ('p \<Rightarrow> height) \<Rightarrow> nat outcome \<Rightarrow> ('p \<Rightarrow> height \<Rightarrow> ('w, 't) store_op)
      \<Rightarrow> ('t \<Rightarrow> (('w, 'p, 'z) send_state_scheme, 'r) store_op) \<Rightarrow> nat \<Rightarrow> 'p stored_proposal
      \<Rightarrow> (('w, 'p, 'z) send_state_scheme, 'r) store_op" where
  "execute_stored_proposal lib others min_target_height observed_tip create broadcast proposal_id stored =
     st_bind (st_or_else (
       st_bind (stored_proposal_lock proposal_id (sp_send_flow_id stored)) (\<lambda>proposal_lock.
       st_bind (st_lift (live_send_expiry_height observed_tip (min_target_height (sp_proposal stored)))) (\<lambda>live_expiry_height.
       st_bind (interleave (others 1)) (\<lambda>_.
       create_transactions lib min_target_height create proposal_id (sp_send_flow_id stored) (sp_proposal stored) proposal_lock
         live_expiry_height))))
     (release_pczt_proposal_after_failure lib (others 2) proposal_id (sp_send_flow_id stored))) (\<lambda>txids.
     st_bind (st_or_else (finish_stored_proposal lib (others 3) proposal_id (sp_send_flow_id stored) False) (\<lambda>_. st_return ())) (\<lambda>_.
     broadcast txids))"

definition execute_proposal_with_seed_loader ::
    "('w, 'p) wallet_library \<Rightarrow> (nat \<Rightarrow> ('w, 'p, 'z) send_state_scheme \<Rightarrow> ('w, 'p, 'z) send_state_scheme)
      \<Rightarrow> ('p \<Rightarrow> height) \<Rightarrow> nat outcome \<Rightarrow> (wallet_network \<Rightarrow> string \<Rightarrow> 'seed outcome) \<Rightarrow> ('seed \<Rightarrow> 'p \<Rightarrow> height \<Rightarrow> ('w, 't) store_op)
      \<Rightarrow> ('t \<Rightarrow> (('w, 'p, 'z) send_state_scheme, 'r) store_op) \<Rightarrow> nat \<Rightarrow> string
      \<Rightarrow> (('w, 'p, 'z) send_state_scheme, 'r) store_op" where
  "execute_proposal_with_seed_loader lib others min_target_height observed_tip load_seed create broadcast proposal_id send_flow_id =
     st_bind (consume_stored_proposal proposal_id send_flow_id ''Proposal not found (expired or already executed)'') (\<lambda>stored.
     st_bind (interleave (others 0)) (\<lambda>_.
     st_bind (st_or_else (st_lift (load_seed (sp_network stored) (sp_account_id stored)))
       (release_pczt_proposal_after_failure lib (others 2) proposal_id send_flow_id)) (\<lambda>seed.
     execute_stored_proposal lib others min_target_height observed_tip (create seed) broadcast proposal_id stored)))"

section \<open>The input lock of an immediate migration\<close>

record input_lock =
  il_owner :: lock_owner
  il_outputs :: "output_ref list"
  il_active :: bool
  il_retain_on_drop :: bool

definition new_input_lock :: "lock_owner \<Rightarrow> output_ref list \<Rightarrow> input_lock" where
  "new_input_lock owner outputs = \<lparr>il_owner = owner, il_outputs = outputs, il_active = True, il_retain_on_drop = False\<rparr>"

text \<open>The guard object is state beside the database.\<close>

type_synonym ('w, 'p, 'z) guarded = "input_lock \<times> ('w, 'p, 'z) send_state_scheme"

definition on_send :: "(('w, 'p, 'z) send_state_scheme, 'a) store_op \<Rightarrow> (('w, 'p, 'z) guarded, 'a) store_op" where
  "on_send m g = (case m (snd g) of (result, s) \<Rightarrow> (result, fst g, s))"

definition set_lock :: "(input_lock \<Rightarrow> input_lock) \<Rightarrow> (('w, 'p, 'z) guarded, unit) store_op" where
  "set_lock f g = (Inr (), f (fst g), snd g)"

definition mark_broadcast_started :: "(('w, 'p, 'z) guarded, unit) store_op" where
  "mark_broadcast_started g =
     st_bind (on_send (mark_retain_until_expiry (il_owner (fst g)))) (\<lambda>_.
     set_lock (\<lambda>l. l\<lparr>il_retain_on_drop := True\<rparr>)) g"

definition release_input_lock :: "('w, 'p) wallet_library \<Rightarrow> (('w, 'p, 'z) guarded, unit) store_op" where
  "release_input_lock lib g =
     (if \<not> il_active (fst g) then (Inr (), g)
      else
        st_bind (set_lock (\<lambda>l. l\<lparr>il_retain_on_drop := False\<rparr>)) (\<lambda>_.
        st_bind (on_send (st_each (\<lambda>output. st_context ''Unlock Immediate migration input: {e}''
          (on_wallet (wl_unlock_output lib output (il_owner (fst g))))) (il_outputs (fst g)))) (\<lambda>_.
        st_bind (on_send (remove_reservation (il_owner (fst g)))) (\<lambda>_.
        set_lock (\<lambda>l. l\<lparr>il_active := False\<rparr>)))) g)"

definition retain_until_expiry :: "(('w, 'p, 'z) guarded, unit) store_op" where
  "retain_until_expiry g =
     st_bind (if il_retain_on_drop (fst g) then st_return ()
       else st_or_else (on_send (mark_retain_until_expiry (il_owner (fst g)))) (\<lambda>_. st_return ())) (\<lambda>_.
     set_lock (\<lambda>l. l\<lparr>il_retain_on_drop := True, il_active := False\<rparr>)) g"

definition drop_input_lock :: "('w, 'p) wallet_library \<Rightarrow> (('w, 'p, 'z) guarded, unit) store_op" where
  "drop_input_lock lib g =
     (if il_retain_on_drop (fst g) then (Inr (), g)
      else st_or_else (release_input_lock lib) (\<lambda>_. st_return ()) g)"

datatype send_reply = Replied int string | Unavailable message

text \<open>\<open>send_response_rejection_error\<close> on the code and the message of a response.\<close>

definition send_response_rejection_error :: "int \<Rightarrow> string \<Rightarrow> message option" where
  "send_response_rejection_error error_code error_message =
     (if error_code = 0 \<or> send_rejection_is_already_accepted error_message then None
      else Some (Message ''Broadcast rejected: {} (code {})'' [AStr error_message, AInt error_code]))"

text \<open>
  The broadcast of an immediate migration from the reservation to the end of the scope: \<open>store\<close> keeps the
  transaction in the wallet. The result is the status and its message.
\<close>

definition broadcast_immediately ::
    "('w, 'p) wallet_library \<Rightarrow> ('w, unit) store_op \<Rightarrow> send_reply \<Rightarrow> (('w, 'p, 'z) guarded, string \<times> message option) store_op" where
  "broadcast_immediately lib store reply =
     st_bind mark_broadcast_started (\<lambda>_.
     case reply of
       Unavailable status \<Rightarrow>
         st_bind (st_or_else
           (st_bind (on_send (on_wallet store)) (\<lambda>_.
            st_bind (st_or_else (release_input_lock lib) (\<lambda>_. st_return ())) (\<lambda>_.
            st_return (Msg ''The transaction was stored locally and will retry automatically during sync.''))))
           (\<lambda>e. st_bind retain_until_expiry (\<lambda>_. st_return (Message ''Local tracking also failed: {error}'' [AMsg e])))) (\<lambda>storage_message.
         st_return (''pending_broadcast'', Some (Message
           ''The Immediate migration broadcast response was unavailable ({status}) and may already be on the network. {storage_message}''
           [AMsg status, AMsg storage_message])))
     | Replied error_code error_message \<Rightarrow>
         (case send_response_rejection_error error_code error_message of
           Some e \<Rightarrow>
             st_bind (st_or_else (release_input_lock lib) (\<lambda>release_error. st_fail (Message
               ''{error}; additionally failed to release Immediate migration inputs: {release_error}'' [AMsg e, AMsg release_error])))
               (\<lambda>_. st_fail e)
         | None \<Rightarrow>
             st_bind (st_or_else (st_bind (on_send (on_wallet store)) (\<lambda>_. st_return None)) (\<lambda>e. st_return (Some e))) (\<lambda>storage_error.
             st_bind (if storage_error \<noteq> None then retain_until_expiry
               else st_or_else (release_input_lock lib) (\<lambda>_. st_return ())) (\<lambda>_.
             st_return (PHASE_BROADCASTING, map_option (\<lambda>e. Message
               ''The Immediate migration was accepted, but local tracking failed: {error}. Sync will recover the transaction.''
               [AMsg e]) storage_error)))))"

definition migrate_immediately ::
    "('w, 'p) wallet_library \<Rightarrow> ('w, unit) store_op \<Rightarrow> send_reply \<Rightarrow> lock_owner \<Rightarrow> output_ref list
      \<Rightarrow> (('w, 'p, 'z) send_state_scheme, string \<times> message option) store_op" where
  "migrate_immediately lib store reply owner outputs s =
     (case broadcast_immediately lib store reply (new_input_lock owner outputs, s) of
        (result, g) \<Rightarrow> (result, snd (snd (drop_input_lock lib g))))"

end
