(* ===== verification/Pczt_Broadcast.thy ===== *)
theory Pczt_Broadcast
  imports Send_Flow
begin

text \<open>
  Storing and broadcasting a set of signed PCZTs: \<open>store_and_broadcast_pczts_inner\<close> of
  wallet/sync/pczt.rs, whose transactions depend on each other in their order. The checks that prepare the
  transactions, the routes to the server, its replies and the writes of the wallet library are what the
  call observes, in the record \<open>broadcast_env\<close>.
\<close>

section \<open>One attempt\<close>

definition BROADCASTED :: string where "BROADCASTED = ''broadcasted''"
definition BROADCAST_UNKNOWN :: string where "BROADCAST_UNKNOWN = ''broadcast_unknown''"
definition PARTIAL_BROADCAST :: string where "PARTIAL_BROADCAST = ''partial_broadcast''"
definition BROADCASTED_STORAGE_FAILED :: string where "BROADCASTED_STORAGE_FAILED = ''broadcasted_storage_failed''"
definition EXPIRED :: string where "EXPIRED = ''expired''"

lemmas broadcast_status_defs = BROADCASTED_def BROADCAST_UNKNOWN_def PARTIAL_BROADCAST_def
  BROADCASTED_STORAGE_FAILED_def EXPIRED_def

datatype broadcast_attempt =
    Accepted
  | Transport_Unknown message
  | Definite_Rejection message
  | Route_Unavailable message

record broadcast_plan =
  bp_persisted_prefix_len :: nat
  bp_broadcasted_count :: nat
  bp_status :: string
  bp_message :: "message option"

datatype broadcast_step = Continue_Broadcast | Stop_Broadcast broadcast_plan | Fail_Broadcast message

definition pczt_broadcast_step :: "nat \<Rightarrow> nat \<Rightarrow> broadcast_attempt \<Rightarrow> broadcast_step" where
  "pczt_broadcast_step index total_count attempt =
     (case attempt of
       Accepted \<Rightarrow>
         if index + 1 < total_count then Continue_Broadcast
         else Stop_Broadcast \<lparr>bp_persisted_prefix_len = index + 1, bp_broadcasted_count = index + 1,
           bp_status = BROADCASTED, bp_message = None\<rparr>
     | Transport_Unknown e \<Rightarrow>
         Stop_Broadcast \<lparr>bp_persisted_prefix_len = index + 1, bp_broadcasted_count = index,
           bp_status = (if index = 0 then BROADCAST_UNKNOWN else PARTIAL_BROADCAST),
           bp_message = Some (Message ''Transaction {} of {total_count} has an unknown broadcast result: {error}''
             [ANat (index + 1), ANat total_count, AMsg e])\<rparr>
     | Definite_Rejection e \<Rightarrow>
         if index = 0 then Fail_Broadcast e
         else Stop_Broadcast \<lparr>bp_persisted_prefix_len = index, bp_broadcasted_count = index,
           bp_status = PARTIAL_BROADCAST,
           bp_message = Some (Message ''Transaction {} of {total_count} was rejected and was not stored: {error}''
             [ANat (index + 1), ANat total_count, AMsg e])\<rparr>
     | Route_Unavailable e \<Rightarrow>
         if index = 0 then Fail_Broadcast e
         else Stop_Broadcast \<lparr>bp_persisted_prefix_len = index, bp_broadcasted_count = index,
           bp_status = PARTIAL_BROADCAST,
           bp_message = Some (Message
             ''Failed to open the broadcast route for transaction {} of {total_count}; it was not stored: {error}''
             [ANat (index + 1), ANat total_count, AMsg e])\<rparr>)"

definition pczt_broadcast_expiry_error :: "string \<Rightarrow> height \<Rightarrow> nat \<Rightarrow> message option" where
  "pczt_broadcast_expiry_error txid expiry_height current_height =
     (if expiry_height = 0 \<or> current_height < expiry_height then None
      else Some (Message (''Hardware signing request expired before broadcast: txid={txid}, expiry height {expiry_height}, ''
        @ ''current chain height {current_height}. Start the signing flow again so Vizor can build a fresh transaction.'')
        [AStr txid, ANat expiry_height, ANat current_height]))"

section \<open>The environment\<close>

record 'i prepared_pczt =
  pr_txid :: string
  pr_expiry_height :: height
  pr_combined :: 'i

record ('w, 'i) broadcast_env =
  be_prepared :: "'i prepared_pczt list outcome"
  be_first_route :: "unit outcome"
  be_latest :: "nat outcome"
  be_route :: "nat \<Rightarrow> message option"
  be_reply :: "nat \<Rightarrow> send_reply"
  be_extract_and_store :: "'i \<Rightarrow> ('w, unit) store_op"
  be_decrypt_and_store :: "'i \<Rightarrow> ('w, unit) store_op"

text \<open>The first transaction goes over the route on which the tip was read; the others open their own.\<close>

definition attempt_at :: "('w, 'i) broadcast_env \<Rightarrow> nat \<Rightarrow> broadcast_attempt" where
  "attempt_at env index =
     (case (if index = 0 then None else be_route env index) of
        Some e \<Rightarrow> Route_Unavailable e
      | None \<Rightarrow> (case be_reply env index of
            Unavailable e \<Rightarrow> Transport_Unknown e
          | Replied error_code error_message \<Rightarrow> (case send_response_rejection_error error_code error_message of
                Some e \<Rightarrow> Definite_Rejection e
              | None \<Rightarrow> Accepted)))"

text \<open>
  The loop from the transaction \<open>index\<close> on, \<open>remaining\<close> of them left; the code's \<open>unreachable!\<close> after the
  last one is an error.
\<close>

fun broadcast_loop :: "('w, 'i) broadcast_env \<Rightarrow> nat \<Rightarrow> nat \<Rightarrow> nat \<Rightarrow> broadcast_plan outcome" where
  "broadcast_loop env total_count index 0 =
     Inl (Msg ''a non-empty PCZT set always yields a terminal broadcast plan'')"
| "broadcast_loop env total_count index (Suc remaining) =
     (case pczt_broadcast_step index total_count (attempt_at env index) of
        Continue_Broadcast \<Rightarrow> broadcast_loop env total_count (index + 1) remaining
      | Stop_Broadcast plan \<Rightarrow> Inr plan
      | Fail_Broadcast e \<Rightarrow> Inl e)"

section \<open>The whole operation\<close>

fun join_with :: "string \<Rightarrow> string list \<Rightarrow> string" where
  "join_with sep [] = []"
| "join_with sep [x] = x"
| "join_with sep (x # y # xs) = x @ sep @ join_with sep (y # xs)"

record store_and_broadcast_result =
  sb_txids :: string
  sb_status :: string
  sb_broadcasted_count :: nat
  sb_total_count :: nat
  sb_message :: "message option"

definition release_signed_pczt_operation_after_failure ::
    "('w, 'p) wallet_library \<Rightarrow> (('w, 'p, 'z) send_state_scheme \<Rightarrow> ('w, 'p, 'z) send_state_scheme)
      \<Rightarrow> (nat \<times> string) option \<Rightarrow> message \<Rightarrow> (('w, 'p, 'z) send_state_scheme, 'a) store_op" where
  "release_signed_pczt_operation_after_failure lib others proposal e =
     (case proposal of None \<Rightarrow> st_fail e
      | Some (proposal_id, send_flow_id) \<Rightarrow> release_pczt_proposal_after_failure lib others proposal_id send_flow_id e)"

text \<open>\<open>transactionally\<close> stores the whole prefix or nothing; the fallback stores the plain transactions.\<close>

definition store_prefix :: "('w, 'i) broadcast_env \<Rightarrow> 'i prepared_pczt list \<Rightarrow> ('w, unit) store_op" where
  "store_prefix env stored =
     st_or_else (savepoint (st_each (\<lambda>item. st_context ''Store signed PCZT round {}: {error}''
         (be_extract_and_store env (pr_combined item))) stored))
       (\<lambda>primary_error.
         st_or_else (savepoint (st_each (\<lambda>item. st_context ''Fallback-store broadcast PCZT round {}: {error}''
             (be_decrypt_and_store env (pr_combined item))) stored))
           (\<lambda>fallback_error. st_fail (Message
             ''Primary PCZT storage failed: {primary_error}. Fallback storage failed: {fallback_error}''
             [AMsg primary_error, AMsg fallback_error])))"

definition expired_result :: "'i prepared_pczt list \<Rightarrow> message \<Rightarrow> store_and_broadcast_result" where
  "expired_result prepared e =
     \<lparr>sb_txids = join_with '','' (map pr_txid prepared), sb_status = EXPIRED, sb_broadcasted_count = 0,
      sb_total_count = length prepared, sb_message = Some e\<rparr>"

text \<open>After the loop: the network-touched prefix is stored, and the reservation given up or retained.\<close>

definition finish_broadcast ::
    "(nat \<Rightarrow> ('w, 'p, 'z) send_state_scheme \<Rightarrow> ('w, 'p, 'z) send_state_scheme) \<Rightarrow> ('w, 'p) wallet_library
      \<Rightarrow> ('w, 'i) broadcast_env \<Rightarrow> 'i prepared_pczt list \<Rightarrow> (nat \<times> string) option \<Rightarrow> broadcast_plan
      \<Rightarrow> (('w, 'p, 'z) send_state_scheme, store_and_broadcast_result) store_op" where
  "finish_broadcast others lib env prepared proposal plan =
     st_bind (st_or_else
       (st_bind (on_wallet (store_prefix env (take (bp_persisted_prefix_len plan) prepared))) (\<lambda>_. st_return None))
       (\<lambda>storage_error. st_return (Some storage_error))) (\<lambda>storage_error.
     case storage_error of
       Some storage_error \<Rightarrow>
         st_bind (case proposal of None \<Rightarrow> st_return None
           | Some (proposal_id, send_flow_id) \<Rightarrow>
               st_or_else (st_bind (retain_stored_proposal_lock_until_expiry (others 2) proposal_id send_flow_id) (\<lambda>_. st_return None))
                 (\<lambda>e. st_return (Some e))) (\<lambda>retain_error.
         st_return \<lparr>sb_txids = join_with '','' (map pr_txid prepared),
           sb_status = (if bp_broadcasted_count plan = length prepared then BROADCASTED_STORAGE_FAILED else bp_status plan),
           sb_broadcasted_count = bp_broadcasted_count plan, sb_total_count = length prepared,
           sb_message = Some (Message (''{network_message}A transaction may already be on the network, but local storage ''
             @ ''failed: {storage_error}. Do not send again until sync or an explorer confirms the result.{retain_error}'')
             [case bp_message plan of None \<Rightarrow> AStr '''' | Some m \<Rightarrow> AMsg (Message ''{message} '' [AMsg m]),
              AMsg storage_error,
              case retain_error of None \<Rightarrow> AStr ''''
              | Some e \<Rightarrow> AMsg (Message '' Proposal input-lock retention also failed: {error}.'' [AMsg e])])\<rparr>)
     | None \<Rightarrow>
         st_bind (case proposal of None \<Rightarrow> st_return ()
           | Some (proposal_id, send_flow_id) \<Rightarrow>
               st_or_else (finish_stored_proposal lib (others 2) proposal_id send_flow_id False) (\<lambda>_. st_return ())) (\<lambda>_.
         st_return \<lparr>sb_txids = join_with '','' (map pr_txid prepared), sb_status = bp_status plan,
           sb_broadcasted_count = bp_broadcasted_count plan, sb_total_count = length prepared,
           sb_message = map_option (\<lambda>m. Message
             ''{message} The accepted-or-ambiguous transaction prefix was stored locally for recovery.'' [AMsg m])
             (bp_message plan)\<rparr>))"

definition store_and_broadcast_pczts_inner ::
    "(nat \<Rightarrow> ('w, 'p, 'z) send_state_scheme \<Rightarrow> ('w, 'p, 'z) send_state_scheme) \<Rightarrow> ('w, 'p) wallet_library
      \<Rightarrow> ('w, 'i) broadcast_env \<Rightarrow> (nat \<times> string) option
      \<Rightarrow> (('w, 'p, 'z) send_state_scheme, store_and_broadcast_result) store_op" where
  "store_and_broadcast_pczts_inner others lib env proposal =
     (let release = release_signed_pczt_operation_after_failure lib (others 0) proposal in
      case be_prepared env of Inl e \<Rightarrow> release e
      | Inr prepared \<Rightarrow>
      case be_first_route env of Inl e \<Rightarrow> release (Message ''Failed to open the broadcast route: {error}'' [AMsg e])
      | Inr _ \<Rightarrow>
      case be_latest env of Inl e \<Rightarrow> release (Message ''Failed to read the chain tip before broadcast: {error}'' [AMsg e])
      | Inr latest \<Rightarrow>
      case List.map_filter (\<lambda>item. pczt_broadcast_expiry_error (pr_txid item) (pr_expiry_height item) latest) prepared of
        e # _ \<Rightarrow>
          (case proposal of None \<Rightarrow> st_return (expired_result prepared e)
           | Some (proposal_id, send_flow_id) \<Rightarrow>
               st_bind (st_or_else (finish_stored_proposal lib (others 0) proposal_id send_flow_id True)
                 (\<lambda>cleanup. st_fail (Message ''{error}; additionally failed to release proposal inputs: {cleanup_error}''
                    [AMsg e, AMsg cleanup]))) (\<lambda>_. st_return (expired_result prepared e)))
      | [] \<Rightarrow>
          st_bind (case proposal of None \<Rightarrow> st_return ()
            | Some (proposal_id, send_flow_id) \<Rightarrow> mark_proposal_broadcast_started proposal_id send_flow_id) (\<lambda>_.
          st_bind (interleave (others 1)) (\<lambda>_.
          case broadcast_loop env (length prepared) 0 (length prepared) of
            Inl e \<Rightarrow> release e
          | Inr plan \<Rightarrow> finish_broadcast others lib env prepared proposal plan)))"

end
