(* ===== verification/Ledger_Outbox.thy ===== *)
theory Ledger_Outbox
  imports Pczt_Broadcast Byte_Codec
begin

text \<open>
  The outbox of operations that a Ledger device has signed: wallet/ledger/operations.rs. A row keeps the
  signed transactions from the approval on the device until they are broadcast, and its result until it
  is acknowledged; the reservation of their inputs (\<open>Send_Locks\<close>) is handed over to it in the same
  transaction. Reading a PCZT and validating signatures are computations of other libraries. The clock is
  an argument. White space is that of ASCII.
\<close>

section \<open>Rendered messages\<close>

text \<open>
  The text of a message: the arguments replace the placeholders of the template in their order. The
  outbox stores error texts and looks into them.
\<close>

fun decimal :: "nat \<Rightarrow> string" where
  "decimal n = (if n < 10 then [''0123456789'' ! n] else decimal (n div 10) @ [''0123456789'' ! (n mod 10)])"

declare decimal.simps [simp del]

function fill :: "string \<Rightarrow> string list \<Rightarrow> string" where
  "fill [] args = []"
| "fill (c # cs) [] = c # cs"
| "fill (c # cs) (a # args) =
     (if c = CHR ''{'' then a @ fill (tl (dropWhile (\<lambda>x. x \<noteq> CHR ''}'') cs)) args else c # fill cs (a # args))"
  by pat_completeness auto

termination
  by (relation "measure (\<lambda>(cs, _). length cs)") (auto simp: less_Suc_eq_le intro: le_trans[OF diff_le_self length_dropWhile_le])

fun render :: "message \<Rightarrow> string" and render_arg :: "message_arg \<Rightarrow> string" where
  "render (Message template args) = fill template (map render_arg args)"
| "render_arg (ANat n) = decimal n"
| "render_arg (AStr s) = s"
| "render_arg (AMsg m) = render m"

section \<open>Operations\<close>

datatype operation_kind = Op_Send | Op_Swap_Deposit | Op_Pay_Deposit | Op_Gift_Card | Op_Shield

definition parse_kind :: "string \<Rightarrow> operation_kind outcome" where
  "parse_kind kind =
     (if kind = ''send'' then Inr Op_Send
      else if kind = ''swap_deposit'' then Inr Op_Swap_Deposit
      else if kind = ''pay_deposit'' then Inr Op_Pay_Deposit
      else if kind = ''gift_card'' then Inr Op_Gift_Card
      else if kind = ''shield'' then Inr Op_Shield
      else Inl (Msg ''Ledger operation kind must be send, swap_deposit, pay_deposit, gift_card, or shield''))"

definition requires_ack :: "operation_kind \<Rightarrow> bool" where
  "requires_ack kind \<longleftrightarrow> kind \<in> {Op_Swap_Deposit, Op_Pay_Deposit, Op_Gift_Card}"

definition STATE_SIGNED_PENDING_BROADCAST :: string where
  "STATE_SIGNED_PENDING_BROADCAST = ''signed_pending_broadcast''"

definition STATE_RESULT_PENDING_ACK :: string where
  "STATE_RESULT_PENDING_ACK = ''result_pending_ack''"

record operation_row =
  op_network :: string
  op_operation_id :: string
  op_account_uuid :: string
  op_kind :: string
  op_external_ref :: "string option"
  op_proof_pczt :: "byte list"
  op_signature_pczt :: "byte list"
  op_expiry_height :: "height option"
  op_state :: string
  op_txid :: "string option"
  op_status :: "string option"
  op_message :: "string option"
  op_created_at_ms :: int
  op_updated_at_ms :: int

record signed_operation_metadata =
  om_operation_id :: string
  om_account_uuid :: string
  om_kind :: string
  om_external_ref :: "string option"
  om_expiry_height :: "height option"
  om_state :: string
  om_txid :: "string option"
  om_status :: "string option"
  om_message :: "string option"
  om_created_at_ms :: int
  om_updated_at_ms :: int

record ('w, 'p) outbox_state = "('w, 'p) send_state" +
  ob_operations :: "operation_row list"
  ob_active_broadcasts :: "(string \<times> string) list"

section \<open>The stored batch\<close>

definition PCZT_BATCH_MAGIC :: "byte list" where
  "PCZT_BATCH_MAGIC = [0x56, 0x4c, 0x42, 0x31]"

definition encode_pczt :: "byte list \<Rightarrow> byte list outcome" where
  "encode_pczt pczt =
     (if 2 ^ 32 \<le> length pczt then Inl (Msg ''Ledger PCZT is too large'') else Inr (le 4 (length pczt) @ pczt))"

definition encode_pczt_batch :: "byte list list \<Rightarrow> byte list outcome" where
  "encode_pczt_batch pczts =
     (if 2 ^ 32 \<le> length pczts then Inl (Msg ''Ledger PCZT batch is too large'')
      else res_bind (res_map encode_pczt pczts) (\<lambda>items.
        Inr (PCZT_BATCH_MAGIC @ le 4 (length pczts) @ concat items)))"

definition read_batch_u32 :: "byte list \<Rightarrow> nat \<Rightarrow> (nat \<times> nat) outcome" where
  "read_batch_u32 encoded offset =
     (case checked_add 64 offset 4 of
        Some end_pos \<Rightarrow>
          if end_pos \<le> length encoded then Inr (le_nat (take 4 (drop offset encoded)), end_pos)
          else Inl (Msg ''Ledger signed-operation batch is truncated'')
      | None \<Rightarrow> Inl (Msg ''Ledger signed-operation batch is truncated''))"

definition read_batch_item :: "byte list \<Rightarrow> nat \<Rightarrow> (byte list \<times> nat) outcome" where
  "read_batch_item encoded offset =
     res_bind (read_batch_u32 encoded offset) (\<lambda>(len, offset).
     case checked_add 64 offset len of
       Some end_pos \<Rightarrow>
         if end_pos \<le> length encoded then Inr (take len (drop offset encoded), end_pos)
         else Inl (Msg ''Ledger signed-operation batch is truncated'')
     | None \<Rightarrow> Inl (Msg ''Ledger signed-operation batch is truncated''))"

fun read_batch_items :: "nat \<Rightarrow> byte list \<Rightarrow> nat \<Rightarrow> (byte list list \<times> nat) outcome" where
  "read_batch_items 0 encoded offset = Inr ([], offset)"
| "read_batch_items (Suc n) encoded offset =
     res_bind (read_batch_item encoded offset) (\<lambda>(pczt, offset).
     res_bind (read_batch_items n encoded offset) (\<lambda>(pczts, offset). Inr (pczt # pczts, offset)))"

definition decode_pczt_batch :: "byte list \<Rightarrow> byte list list outcome" where
  "decode_pczt_batch encoded =
     (if length encoded < 4 \<or> take 4 encoded \<noteq> PCZT_BATCH_MAGIC
      then Inl (Msg ''Ledger signed-operation batch has an invalid format'')
      else res_bind (read_batch_u32 encoded 4) (\<lambda>(rounds, offset).
        if rounds = 0 then Inl (Msg ''Ledger signed-operation batch is empty'')
        else if (length encoded - offset) div 4 < rounds
        then Inl (Msg ''Ledger signed-operation batch has an invalid round count'')
        else res_bind (read_batch_items rounds encoded offset) (\<lambda>(pczts, offset).
          if offset \<noteq> length encoded then Inl (Msg ''Ledger signed-operation batch has trailing data'')
          else Inr pczts)))"

section \<open>Checkpoint\<close>

text \<open>The PCZT library and the validation of signed transactions in wallet/sync/pczt.rs.\<close>

record pczt_library =
  px_expiry_height :: "byte list \<Rightarrow> height outcome"
  px_owner_entry :: "byte list \<Rightarrow> byte list option outcome"
  px_validate_signed_pczts :: "byte list list \<Rightarrow> byte list list \<Rightarrow> unit outcome"

definition pczt_owner :: "pczt_library \<Rightarrow> byte list \<Rightarrow> lock_owner option outcome" where
  "pczt_owner px pczt =
     res_bind (px_owner_entry px pczt) (\<lambda>entry.
     case entry of None \<Rightarrow> Inr None
     | Some owner \<Rightarrow> if length owner = 32 then Inr (Some owner) else Inl (Msg ''Invalid PCZT reservation owner''))"

definition is_space :: "char \<Rightarrow> bool" where
  "is_space c \<longleftrightarrow> of_char c = (32 :: nat) \<or> 9 \<le> (of_char c :: nat) \<and> (of_char c :: nat) \<le> 13"

definition validate_identifier :: "string \<Rightarrow> string \<Rightarrow> unit outcome" where
  "validate_identifier label identifier =
     (if list_all is_space identifier then Inl (Message ''Ledger {label} must not be empty'' [AStr label]) else Inr ())"

definition validate_external_ref :: "operation_kind \<Rightarrow> string option \<Rightarrow> unit outcome" where
  "validate_external_ref kind external_ref =
     (if kind \<in> {Op_Swap_Deposit, Op_Pay_Deposit, Op_Gift_Card}
      then (case external_ref of
          Some v \<Rightarrow> if list_all is_space v then Inl (Msg ''Ledger deposit and gift_card operations require an external reference'')
            else Inr ()
        | None \<Rightarrow> Inl (Msg ''Ledger deposit and gift_card operations require an external reference''))
      else if external_ref = None then Inr ()
      else Inl (Msg ''Ledger send and shield operations must not have an external reference''))"

definition round_expiry :: "pczt_library \<Rightarrow> nat \<Rightarrow> byte list \<Rightarrow> byte list \<Rightarrow> height outcome" where
  "round_expiry px index proof_pczt signature_pczt =
     (case px_expiry_height px proof_pczt of
        Inl e \<Rightarrow> Inl (Message ''Parse proof PCZT round {} for Ledger checkpoint: {e:?}'' [ANat (index + 1), AMsg e])
      | Inr proof_expiry \<Rightarrow> (case px_expiry_height px signature_pczt of
          Inl e \<Rightarrow> Inl (Message ''Parse signature PCZT round {} for Ledger checkpoint: {e:?}'' [ANat (index + 1), AMsg e])
        | Inr signature_expiry \<Rightarrow>
            if proof_expiry \<noteq> signature_expiry
            then Inl (Message ''Ledger PCZT expiry mismatch in round {}: proof height {proof_expiry}, signature height {signature_expiry}''
              [ANat (index + 1), ANat proof_expiry, ANat signature_expiry])
            else Inr proof_expiry))"

definition validated_expiry_height :: "pczt_library \<Rightarrow> byte list list \<Rightarrow> byte list list \<Rightarrow> height option outcome" where
  "validated_expiry_height px proof_pczts signature_pczts =
     (if proof_pczts = [] \<or> length proof_pczts \<noteq> length signature_pczts
      then Inl (Msg ''Invalid Ledger signed PCZT round count'')
      else res_bind (res_fold (\<lambda>(index, proof_pczt, signature_pczt) expiry_height.
          res_bind (round_expiry px index proof_pczt signature_pczt) (\<lambda>proof_expiry.
          case expiry_height of
            Some expected \<Rightarrow>
              if proof_expiry \<noteq> expected
              then Inl (Message ''Ledger PCZT batch expiry mismatch: round 1 height {expected}, round {} height {proof_expiry}''
                [ANat expected, ANat (index + 1), ANat proof_expiry])
              else Inr (Some expected)
          | None \<Rightarrow> Inr (Some proof_expiry)))
          (List.enumerate 0 (zip proof_pczts signature_pczts)) None) (\<lambda>expiry_height.
        Inr (if expiry_height = Some 0 then None else expiry_height)))"

definition metadata_of :: "operation_row \<Rightarrow> signed_operation_metadata" where
  "metadata_of r =
     \<lparr>om_operation_id = op_operation_id r, om_account_uuid = op_account_uuid r, om_kind = op_kind r,
      om_external_ref = op_external_ref r, om_expiry_height = op_expiry_height r, om_state = op_state r,
      om_txid = op_txid r, om_status = op_status r, om_message = op_message r,
      om_created_at_ms = op_created_at_ms r, om_updated_at_ms = op_updated_at_ms r\<rparr>"

definition operation_key :: "operation_row \<Rightarrow> string \<times> string" where
  "operation_key r = (op_network r, op_operation_id r)"

definition find_operation :: "string \<Rightarrow> string \<Rightarrow> ('w, 'p) outbox_state \<Rightarrow> operation_row option" where
  "find_operation network operation_id s =
     List.find (\<lambda>r. operation_key r = (network, operation_id)) (ob_operations s)"

definition load_metadata :: "string \<Rightarrow> string \<Rightarrow> ('w, 'p) outbox_state \<Rightarrow> signed_operation_metadata option" where
  "load_metadata network operation_id s = map_option metadata_of (find_operation network operation_id s)"

text \<open>\<open>INSERT ... ON CONFLICT DO NOTHING\<close>, \<open>UPDATE\<close> and \<open>DELETE\<close> with the number of rows they touch.\<close>

definition insert_operation :: "operation_row \<Rightarrow> (('w, 'p) outbox_state, nat) store_op" where
  "insert_operation row s =
     (if \<exists>r \<in> set (ob_operations s). operation_key r = operation_key row then (Inr 0, s)
      else (Inr 1, s\<lparr>ob_operations := ob_operations s @ [row]\<rparr>))"

definition update_operations :: "(operation_row \<Rightarrow> bool) \<Rightarrow> (operation_row \<Rightarrow> operation_row) \<Rightarrow> (('w, 'p) outbox_state, nat) store_op" where
  "update_operations P f s =
     (Inr (length (filter P (ob_operations s))), s\<lparr>ob_operations := map (\<lambda>r. if P r then f r else r) (ob_operations s)\<rparr>)"

definition delete_operations :: "(operation_row \<Rightarrow> bool) \<Rightarrow> (('w, 'p) outbox_state, nat) store_op" where
  "delete_operations P s =
     (Inr (length (filter P (ob_operations s))), s\<lparr>ob_operations := filter (\<lambda>r. \<not> P r) (ob_operations s)\<rparr>)"

definition new_operation ::
    "string \<Rightarrow> string \<Rightarrow> string \<Rightarrow> string \<Rightarrow> string option \<Rightarrow> byte list \<Rightarrow> byte list \<Rightarrow> height option \<Rightarrow> int \<Rightarrow> operation_row" where
  "new_operation network operation_id account_uuid kind external_ref proof_pczt signature_pczt expiry_height now =
     \<lparr>op_network = network, op_operation_id = operation_id, op_account_uuid = account_uuid, op_kind = kind,
      op_external_ref = external_ref, op_proof_pczt = proof_pczt, op_signature_pczt = signature_pczt,
      op_expiry_height = expiry_height, op_state = STATE_SIGNED_PENDING_BROADCAST, op_txid = None, op_status = None,
      op_message = None, op_created_at_ms = now, op_updated_at_ms = now\<rparr>"

definition exact_match :: "operation_row \<Rightarrow> operation_row \<Rightarrow> bool" where
  "exact_match row r \<longleftrightarrow>
     operation_key r = operation_key row \<and> op_account_uuid r = op_account_uuid row \<and> op_kind r = op_kind row
     \<and> op_external_ref r = op_external_ref row \<and> op_proof_pczt r = op_proof_pczt row
     \<and> op_signature_pczt r = op_signature_pczt row \<and> op_expiry_height r = op_expiry_height row"

text \<open>The reservations named in the PCZTs, each handed over once.\<close>

fun checkpoint_owners :: "pczt_library \<Rightarrow> string \<Rightarrow> lock_owner list \<Rightarrow> byte list list \<Rightarrow> (('w, 'p) outbox_state, unit) store_op" where
  "checkpoint_owners px operation_id owners [] = st_return ()"
| "checkpoint_owners px operation_id owners (pczt # pczts) =
     st_bind (st_lift (pczt_owner px pczt)) (\<lambda>owner.
     case owner of None \<Rightarrow> checkpoint_owners px operation_id owners pczts
     | Some owner \<Rightarrow>
         if owner \<in> set owners then checkpoint_owners px operation_id owners pczts
         else st_bind (checkpoint_owner owner operation_id) (\<lambda>_. checkpoint_owners px operation_id (owner # owners) pczts))"

definition record_checkpoint ::
    "pczt_library \<Rightarrow> operation_row \<Rightarrow> byte list list \<Rightarrow> (('w, 'p) outbox_state, signed_operation_metadata) store_op" where
  "record_checkpoint px row proof_pczts =
     st_bind require_active_session (\<lambda>_.
     transaction (
       st_bind (insert_operation row) (\<lambda>inserted.
       st_bind (st_read (\<lambda>s. Inr (list_ex (exact_match row) (ob_operations s)))) (\<lambda>exact.
       if inserted = 0 \<and> \<not> exact
       then st_fail (Message ''Ledger operation {operation_id} is already checkpointed with different data'' [AStr (op_operation_id row)])
       else
         st_bind (if inserted \<noteq> 0 then checkpoint_owners px (op_operation_id row) [] proof_pczts else st_return ()) (\<lambda>_.
         st_read (\<lambda>s. ok_or (load_metadata (op_network row) (op_operation_id row) s)
           (Message ''Ledger operation {operation_id} was not found after checkpointing'' [AStr (op_operation_id row)])))))))"

definition checkpoint_batch ::
    "pczt_library \<Rightarrow> int \<Rightarrow> wallet_network \<Rightarrow> string \<Rightarrow> string \<Rightarrow> string \<Rightarrow> string option \<Rightarrow> byte list list \<Rightarrow> byte list list
      \<Rightarrow> (('w, 'p) outbox_state, signed_operation_metadata) store_op" where
  "checkpoint_batch px now network operation_id account_uuid kind external_ref proof_pczts signature_pczts =
     st_bind (st_lift (validate_identifier ''operation ID'' operation_id)) (\<lambda>_.
     st_bind (st_lift (validate_identifier ''account UUID'' account_uuid)) (\<lambda>_.
     st_bind (st_lift (parse_kind kind)) (\<lambda>operation_kind.
     st_bind (st_lift (validate_external_ref operation_kind external_ref)) (\<lambda>_.
     st_bind (st_lift (validated_expiry_height px proof_pczts signature_pczts)) (\<lambda>expiry_height.
     st_bind (st_context ''Validate Ledger signed checkpoint: {error}''
       (st_lift (px_validate_signed_pczts px proof_pczts signature_pczts))) (\<lambda>_.
     st_bind (st_lift (encode_pczt_batch proof_pczts)) (\<lambda>proof_pczt.
     st_bind (st_lift (encode_pczt_batch signature_pczts)) (\<lambda>signature_pczt.
     record_checkpoint px (new_operation (network_name network) operation_id account_uuid kind external_ref
       proof_pczt signature_pczt expiry_height now) proof_pczts))))))))"

definition checkpoint ::
    "pczt_library \<Rightarrow> int \<Rightarrow> wallet_network \<Rightarrow> string \<Rightarrow> string \<Rightarrow> string \<Rightarrow> string option \<Rightarrow> byte list \<Rightarrow> byte list
      \<Rightarrow> (('w, 'p) outbox_state, signed_operation_metadata) store_op" where
  "checkpoint px now network operation_id account_uuid kind external_ref proof_pczt signature_pczt =
     checkpoint_batch px now network operation_id account_uuid kind external_ref [proof_pczt] [signature_pczt]"

definition list_operations ::
    "wallet_network \<Rightarrow> string option \<Rightarrow> ('w, 'p) outbox_state \<Rightarrow> signed_operation_metadata list outcome" where
  "list_operations network account_uuid s =
     res_bind (case account_uuid of None \<Rightarrow> Inr () | Some account_uuid \<Rightarrow> validate_identifier ''account UUID'' account_uuid) (\<lambda>_.
     Inr (map metadata_of (sort_key (\<lambda>r. (op_created_at_ms r, op_operation_id r))
       (filter (\<lambda>r. op_network r = network_name network \<and> (account_uuid = None \<or> account_uuid = Some (op_account_uuid r)))
         (ob_operations s)))))"

section \<open>Broadcast\<close>

record stored_operation =
  so_kind :: operation_kind
  so_proof_pczts :: "byte list list"
  so_signature_pczts :: "byte list list"

record broadcast_result =
  br_operation_id :: string
  br_txid :: string
  br_status :: string
  br_message :: "string option"
  br_requires_ack :: bool

definition is_pending :: "string \<Rightarrow> string \<Rightarrow> operation_row \<Rightarrow> bool" where
  "is_pending network operation_id r \<longleftrightarrow>
     operation_key r = (network, operation_id) \<and> op_state r = STATE_SIGNED_PENDING_BROADCAST"

definition load_for_broadcast :: "wallet_network \<Rightarrow> string \<Rightarrow> ('w, 'p) outbox_state \<Rightarrow> stored_operation outcome" where
  "load_for_broadcast network operation_id s =
     (case List.find (is_pending (network_name network) operation_id) (ob_operations s) of
        None \<Rightarrow> Inl (Message ''Ledger operation {operation_id} is not pending broadcast on {network}''
                  [AStr operation_id, AStr (network_name network)])
      | Some r \<Rightarrow>
          res_bind (parse_kind (op_kind r)) (\<lambda>kind.
          res_bind (decode_pczt_batch (op_proof_pczt r)) (\<lambda>proof_pczts.
          res_bind (decode_pczt_batch (op_signature_pczt r)) (\<lambda>signature_pczts.
          Inr \<lparr>so_kind = kind, so_proof_pczts = proof_pczts, so_signature_pczts = signature_pczts\<rparr>))))"

definition apply_broadcast_outcome ::
    "int \<Rightarrow> wallet_network \<Rightarrow> string \<Rightarrow> operation_kind \<Rightarrow> string \<Rightarrow> string \<Rightarrow> string option
      \<Rightarrow> (('w, 'p) outbox_state, broadcast_result) store_op" where
  "apply_broadcast_outcome now network operation_id kind txid status message =
     (let clean_terminal = (status = ''broadcasted'' \<and> \<not> requires_ack kind) in
      transaction (
        st_bind (if clean_terminal
          then delete_operations (\<lambda>r. operation_key r = (network_name network, operation_id))
          else update_operations (is_pending (network_name network) operation_id)
            (\<lambda>r. r\<lparr>op_state := STATE_RESULT_PENDING_ACK, op_txid := Some txid, op_status := Some status,
                  op_message := message, op_updated_at_ms := now\<rparr>)) (\<lambda>changed.
        if changed \<noteq> 1
        then st_fail (Message ''Ledger operation {operation_id} changed while its broadcast result was recorded'' [AStr operation_id])
        else
          st_bind (if status = ''broadcasted'' \<or> status = ''expired'' then release_operation operation_id else st_return ()) (\<lambda>_.
          st_return \<lparr>br_operation_id = operation_id, br_txid = txid, br_status = status, br_message = message,
            br_requires_ack = (\<not> clean_terminal)\<rparr>))))"

definition is_terminal_broadcast_failure :: "string \<Rightarrow> bool" where
  "is_terminal_broadcast_failure message =
     (let normalized = to_ascii_lowercase message in
      contains_text ''expired before broadcast'' normalized \<or> contains_text ''broadcast rejected'' normalized)"

definition record_broadcast_failure ::
    "int \<Rightarrow> wallet_network \<Rightarrow> string \<Rightarrow> string \<Rightarrow> (('w, 'p) outbox_state, bool) store_op" where
  "record_broadcast_failure now network operation_id message =
     transaction (
       if is_terminal_broadcast_failure message
       then st_bind (delete_operations (is_pending (network_name network) operation_id)) (\<lambda>_.
         st_bind (release_operation operation_id) (\<lambda>_. st_return True))
       else st_bind (update_operations (is_pending (network_name network) operation_id)
           (\<lambda>r. r\<lparr>op_status := Some ''retryable_error'', op_message := Some message, op_updated_at_ms := now\<rparr>)) (\<lambda>_.
         st_return False))"

text \<open>\<open>BroadcastGuard\<close>: taken for the length of the computation and given back on every path.\<close>

definition with_broadcast_guard ::
    "wallet_network \<Rightarrow> string \<Rightarrow> (('w, 'p) outbox_state, 'a) store_op \<Rightarrow> (('w, 'p) outbox_state, 'a) store_op" where
  "with_broadcast_guard network operation_id m s =
     (let key = (network_name network, operation_id) in
      if key \<in> set (ob_active_broadcasts s)
      then (Inl (Message ''Ledger operation {operation_id} is already being broadcast'' [AStr operation_id]), s)
      else (case m (s\<lparr>ob_active_broadcasts := key # ob_active_broadcasts s\<rparr>) of
        (result, s) \<Rightarrow> (result, s\<lparr>ob_active_broadcasts := removeAll key (ob_active_broadcasts s)\<rparr>)))"

text \<open>The result of a computation as a value: a \<open>match\<close> on it.\<close>

definition st_result :: "('s, 'a) store_op \<Rightarrow> ('s, 'a outcome) store_op" where
  "st_result m s = (case m s of (r, s) \<Rightarrow> (Inr r, s))"

text \<open>
  \<open>env\<close> is what the network and the wallet library answer for the stored transactions; other threads
  may run before the result is recorded.
\<close>

definition broadcast_stored ::
    "('w, 'p) wallet_library \<Rightarrow> (nat \<Rightarrow> ('w, 'p) outbox_state \<Rightarrow> ('w, 'p) outbox_state) \<Rightarrow> ('w, 'i) broadcast_env
      \<Rightarrow> int \<Rightarrow> wallet_network \<Rightarrow> string \<Rightarrow> operation_kind \<Rightarrow> (('w, 'p) outbox_state, broadcast_result) store_op" where
  "broadcast_stored lib others env now network operation_id kind =
     st_bind (st_result (store_and_broadcast_pczts_inner others lib env None)) (\<lambda>result.
     st_bind (interleave (others 3)) (\<lambda>_.
     case result of
       Inr result \<Rightarrow> apply_broadcast_outcome now network operation_id kind (sb_txids result) (sb_status result)
         (map_option render (sb_message result))
     | Inl e \<Rightarrow>
         st_bind (record_broadcast_failure now network operation_id (render e)) (\<lambda>terminal.
         st_fail (if terminal then Message ''Ledger signed operation cannot be retried: {error}'' [AMsg e] else e))))"

definition broadcast ::
    "('w, 'p) wallet_library \<Rightarrow> (nat \<Rightarrow> ('w, 'p) outbox_state \<Rightarrow> ('w, 'p) outbox_state) \<Rightarrow> (stored_operation \<Rightarrow> ('w, 'i) broadcast_env)
      \<Rightarrow> int \<Rightarrow> wallet_network \<Rightarrow> string \<Rightarrow> (('w, 'p) outbox_state, broadcast_result) store_op" where
  "broadcast lib others env now network operation_id =
     st_bind (st_lift (validate_identifier ''operation ID'' operation_id)) (\<lambda>_.
     with_broadcast_guard network operation_id (
       st_bind (st_read (load_for_broadcast network operation_id)) (\<lambda>stored.
       st_bind (st_result (broadcast_stored lib others (env stored) now network operation_id (so_kind stored))) (\<lambda>outcome.
       st_bind (st_or_else (recover_before_balance lib) (\<lambda>_. st_return ())) (\<lambda>_. st_lift outcome)))))"

section \<open>Acknowledgement and removal\<close>

definition acknowledge :: "wallet_network \<Rightarrow> string \<Rightarrow> (('w, 'p) outbox_state, unit) store_op" where
  "acknowledge network operation_id =
     st_bind (st_lift (validate_identifier ''operation ID'' operation_id)) (\<lambda>_.
     st_bind (delete_operations (\<lambda>r. operation_key r = (network_name network, operation_id)
         \<and> op_state r = STATE_RESULT_PENDING_ACK)) (\<lambda>deleted.
     if deleted = 1 then st_return ()
     else st_fail (Message ''Ledger operation {operation_id} has no broadcast result awaiting acknowledgment'' [AStr operation_id])))"

definition delete_for_account_with_tx :: "wallet_network \<Rightarrow> string \<Rightarrow> (('w, 'p) outbox_state, nat) store_op" where
  "delete_for_account_with_tx network account_uuid =
     delete_operations (\<lambda>r. op_network r = network_name network \<and> op_account_uuid r = account_uuid)"

end
