(* ===== verification/Send_Reservation.thy ===== *)
theory Send_Reservation
  imports Ledger_Outbox
begin

text \<open>
  What the reservation rows keep under every operation: the primary key, one state per owner, and the
  meaning of a phase. The reading of the rows after a restart rests on it, since one owner whose rows
  disagree makes every recovery fail.
\<close>

section \<open>Well-formed reservations\<close>

definition row_state :: "lock_row \<Rightarrow> byte list \<times> height \<times> bool \<times> string \<times> string option" where
  "row_state r = (lr_session_id r, lr_expiry_height r, lr_retain_until_expiry r, lr_phase r, lr_operation_id r)"

definition uniform :: "lock_row list \<Rightarrow> bool" where
  "uniform rows \<longleftrightarrow> (\<forall>r \<in> set rows. \<forall>r' \<in> set rows. lr_owner r = lr_owner r' \<longrightarrow> row_state r = row_state r')"

definition phase_ok :: "lock_row \<Rightarrow> bool" where
  "phase_ok r \<longleftrightarrow>
     lr_phase r \<in> {''session'', ''signed'', ''broadcast'', ''release''}
     \<and> (lr_retain_until_expiry r \<longleftrightarrow> lr_phase r \<in> {''signed'', ''broadcast''})
     \<and> (lr_phase r \<in> {''signed'', ''release''} \<longrightarrow> lr_operation_id r \<noteq> None)
     \<and> (lr_phase r = ''session'' \<longrightarrow> lr_operation_id r = None)"

definition row_ok :: "lock_row \<Rightarrow> bool" where
  "row_ok r \<longleftrightarrow> length (lr_owner r) = 32 \<and> length (lr_txid r) = 32 \<and> lr_pool r \<in> range pool_code \<and> phase_ok r"

definition rows_ok :: "lock_row list \<Rightarrow> bool" where
  "rows_ok rows \<longleftrightarrow> distinct (map lock_key rows) \<and> uniform rows \<and> (\<forall>r \<in> set rows. row_ok r)"

abbreviation reservations_ok :: "('w, 'p, 'z) send_state_scheme \<Rightarrow> bool" where
  "reservations_ok s \<equiv> rows_ok (ss_rows s)"

lemma rows_ok_update:
  assumes "rows_ok rows" and "\<And>r. P r \<longleftrightarrow> Q (lr_owner r) (row_state r)" and "\<And>r. row_state (f r) = g (row_state r)"
    and "\<And>r. lock_key (f r) = lock_key r" and "\<And>r. row_ok r \<Longrightarrow> P r \<Longrightarrow> row_ok (f r)"
  shows "rows_ok (map (\<lambda>r. if P r then f r else r) rows)"
proof -
  let ?h = "\<lambda>r. if P r then f r else r"
  have key: "lock_key (?h r) = lock_key r" for r using assms(4) by simp
  have owner: "lr_owner (?h r) = lr_owner r" for r using key[of r] by (simp add: lock_key_def split: if_splits)
  have "distinct (map lock_key (map ?h rows))"
    using assms(1) by (simp add: rows_ok_def comp_def key)
  moreover have "uniform (map ?h rows)"
    unfolding uniform_def
  proof (intro ballI impI)
    fix x y assume "x \<in> set (map ?h rows)" and "y \<in> set (map ?h rows)" and same: "lr_owner x = lr_owner y"
    then obtain r r' where r: "r \<in> set rows" "x = ?h r" "r' \<in> set rows" "y = ?h r'" by auto
    have o: "lr_owner r = lr_owner r'" using same owner[of r] owner[of r'] r by simp
    then have "row_state r = row_state r'" using assms(1) r(1,3) unfolding rows_ok_def uniform_def by blast
    then show "row_state x = row_state y" using assms(2)[of r] assms(2)[of r'] assms(3) o r by simp
  qed
  moreover have "\<forall>r \<in> set (map ?h rows). row_ok r" using assms(1,5) by (auto simp: rows_ok_def)
  ultimately show ?thesis by (simp add: rows_ok_def)
qed

lemma rows_ok_filter: "rows_ok rows \<Longrightarrow> rows_ok (filter P rows)"
  unfolding rows_ok_def uniform_def by (metis (no_types, lifting) distinct_map_filter filter_is_subset subsetD)

lemma rows_ok_insert:
  assumes "rows_ok rows" and "row_ok row" and "\<And>r. r \<in> set rows \<Longrightarrow> lr_owner r = lr_owner row \<Longrightarrow> row_state r = row_state row"
  shows "rows_ok (insert_or_replace row rows)"
proof -
  let ?kept = "filter (\<lambda>r. lock_key r \<noteq> lock_key row) rows"
  have kept: "rows_ok ?kept" using assms(1) by (rule rows_ok_filter)
  have "distinct (map lock_key (?kept @ [row]))" using kept by (auto simp: rows_ok_def)
  moreover have "\<forall>r \<in> set (?kept @ [row]). row_ok r" using kept assms(2) by (auto simp: rows_ok_def)
  moreover have "row_state x = row_state y"
    if "x \<in> set (?kept @ [row])" "y \<in> set (?kept @ [row])" "lr_owner x = lr_owner y" for x y
  proof -
    have "x \<in> set rows \<or> x = row" "y \<in> set rows \<or> y = row" using that by auto
    moreover have "row_state x = row_state y" if "x \<in> set rows" "y \<in> set rows"
      using assms(1) that \<open>lr_owner x = lr_owner y\<close> unfolding rows_ok_def uniform_def by blast
    ultimately show ?thesis using assms(3) that(3) by metis
  qed
  ultimately show ?thesis unfolding rows_ok_def uniform_def insert_or_replace_def by blast
qed

section \<open>The operations\<close>

lemma update_locks_keeps:
  assumes "\<And>r. P r \<longleftrightarrow> Q (lr_owner r) (row_state r)" and "\<And>r. row_state (f r) = g (row_state r)"
    and "\<And>r. lock_key (f r) = lock_key r" and "\<And>r. row_ok r \<Longrightarrow> P r \<Longrightarrow> row_ok (f r)"
  shows "keeps reservations_ok (update_locks P f)"
  unfolding keeps_def update_locks_def using rows_ok_update[where P = P and f = f and Q = Q and g = g, OF _ assms] by simp

lemma delete_locks_keeps: "keeps reservations_ok (delete_locks P)"
  unfolding keeps_def delete_locks_def by (simp add: rows_ok_filter)

lemma st_read_keeps [simp, intro]: "keeps P (st_read f)"
  by (simp add: keeps_def)

lemma on_wallet_rows [simp]:
  "ss_rows (snd (on_wallet m s)) = ss_rows s" "ss_session_id (snd (on_wallet m s)) = ss_session_id s"
  "ss_locks (snd (on_wallet m s)) = ss_locks s"
  by (simp_all add: on_wallet_def split: prod.splits)

lemma on_wallet_keeps [simp, intro]: "keeps reservations_ok (on_wallet m)"
  by (simp add: keeps_def)

lemma remove_reservation_keeps [intro]: "keeps reservations_ok (remove_reservation owner)"
  unfolding remove_reservation_def by (intro keeps_bind delete_locks_keeps) auto

lemma mark_retain_keeps [intro]: "keeps reservations_ok (mark_retain_until_expiry owner)"
  unfolding mark_retain_until_expiry_def
proof (rule keeps_bind)
  show "keeps reservations_ok (update_locks (\<lambda>r. lr_owner r = owner) (\<lambda>r. r\<lparr>lr_retain_until_expiry := True,
      lr_phase := if lr_phase r = ''signed'' then lr_phase r else ''broadcast''\<rparr>))"
    by (rule update_locks_keeps[of _ "\<lambda>o' _. o' = owner" _ "\<lambda>(s, e, t, p, i). (s, e, True, if p = ''signed'' then p else ''broadcast'', i)"])
      (auto simp: row_state_def lock_key_def row_ok_def phase_ok_def)
qed auto

lemma checkpoint_owner_keeps [intro]: "keeps reservations_ok (checkpoint_owner owner operation_id)"
proof -
  have step: "keeps reservations_ok (update_locks (\<lambda>r. lr_owner r = owner \<and> lr_session_id r = session \<and> lr_phase r = ''session'')
      (\<lambda>r. r\<lparr>lr_retain_until_expiry := True, lr_phase := ''signed'', lr_operation_id := Some operation_id\<rparr>))" for session
    by (rule update_locks_keeps[of _ "\<lambda>o' (s, e, t, p, i). o' = owner \<and> s = session \<and> p = ''session''" _
          "\<lambda>(s, e, t, p, i). (s, e, True, ''signed'', Some operation_id)"])
      (auto simp: row_state_def lock_key_def row_ok_def phase_ok_def)
  show ?thesis unfolding checkpoint_owner_def require_active_session_def by (intro keeps_bind step) auto
qed

lemma release_operation_keeps [intro]: "keeps reservations_ok (release_operation operation_id)"
  unfolding release_operation_def
proof (rule keeps_bind)
  show "keeps reservations_ok (update_locks (\<lambda>r. lr_operation_id r = Some operation_id)
      (\<lambda>r. r\<lparr>lr_retain_until_expiry := False, lr_phase := ''release''\<rparr>))"
    by (rule update_locks_keeps[of _ "\<lambda>_ (s, e, t, p, i). i = Some operation_id" _ "\<lambda>(s, e, t, p, i). (s, e, False, ''release'', i)"])
      (auto simp: row_state_def lock_key_def row_ok_def phase_ok_def)
qed auto

lemma update_expiry_keeps [intro]: "keeps reservations_ok (update_expiry owner expiry_height)"
  unfolding update_expiry_def
proof (rule keeps_bind)
  show "keeps reservations_ok (update_locks (\<lambda>r. lr_owner r = owner) (\<lambda>r. r\<lparr>lr_expiry_height := expiry_height\<rparr>))"
    by (rule update_locks_keeps[of _ "\<lambda>o' _. o' = owner" _ "\<lambda>(s, e, t, p, i). (s, expiry_height, t, p, i)"])
      (auto simp: row_state_def lock_key_def row_ok_def phase_ok_def)
qed auto

definition output_ok :: "output_ref \<Rightarrow> bool" where
  "output_ok out \<longleftrightarrow> length (or_txid out) = 32"

lemma session_row_ok: "length owner = 32 \<Longrightarrow> output_ok out \<Longrightarrow> row_ok (session_row session owner out expiry_height)"
  by (auto simp: session_row_def row_ok_def phase_ok_def output_ok_def)

lemma persist_rows_ok:
  assumes "rows_ok rows" and "length owner = 32" and "\<forall>out \<in> set outputs. output_ok out"
    and "\<And>r. r \<in> set rows \<Longrightarrow> lr_owner r = owner \<Longrightarrow> row_state r = (session, expiry_height, False, ''session'', None)"
  shows "rows_ok (fold (\<lambda>out. insert_or_replace (session_row session owner out expiry_height)) outputs rows)"
  using assms
proof (induction outputs arbitrary: rows)
  case (Cons out outputs)
  let ?row = "session_row session owner out expiry_height"
  have st: "row_state ?row = (session, expiry_height, False, ''session'', None)" and o: "lr_owner ?row = owner"
    by (simp_all add: session_row_def row_state_def)
  have ok: "rows_ok (insert_or_replace ?row rows)"
    using Cons.prems by (intro rows_ok_insert session_row_ok) (simp_all add: st o)
  show ?case
    unfolding fold.simps comp_def
  proof (rule Cons.IH[OF ok Cons.prems(2)])
    fix r assume "r \<in> set (insert_or_replace ?row rows)" and "lr_owner r = owner"
    then show "row_state r = (session, expiry_height, False, ''session'', None)"
      using Cons.prems(4) st by (auto simp: insert_or_replace_def)
  qed (use Cons.prems(3) in simp)
qed simp

section \<open>Reading the rows of earlier sessions\<close>

definition output_of :: "lock_row \<Rightarrow> output_ref" where
  "output_of r = \<lparr>or_txid = lr_txid r, or_pool = (case pool_from_code (lr_pool r) of Inr pool \<Rightarrow> pool | Inl _ \<Rightarrow> Transparent_Pool),
     or_output_index = lr_output_index r\<rparr>"

lemma pool_code_inject: "pool_code p = pool_code q \<longleftrightarrow> p = q"
  by (cases p; cases q) (simp_all add: pool_code_def)

lemma pool_from_code_code [simp]: "pool_from_code (pool_code pool) = Inr pool"
  by (cases pool) (simp_all add: pool_code_def pool_from_code_def)

lemma pool_from_code_row: "row_ok r \<Longrightarrow> pool_from_code (lr_pool r) = Inr (or_pool (output_of r))"
  by (auto simp: row_ok_def output_of_def)

text \<open>An entry that agrees with every row of its owner.\<close>

definition agrees :: "orphan_locks \<Rightarrow> lock_row list \<Rightarrow> bool" where
  "agrees locks rows \<longleftrightarrow> (\<forall>r \<in> set rows. \<forall>e t outs. map_of locks (lr_owner r) = Some (e, t, outs) \<longrightarrow>
     e = lr_expiry_height r \<and> t = lr_retain_until_expiry r)"

definition with_row :: "lock_row \<Rightarrow> orphan_locks \<Rightarrow> orphan_locks" where
  "with_row r locks = AList.update (lr_owner r) (lr_expiry_height r, lr_retain_until_expiry r,
     (case map_of locks (lr_owner r) of Some (_, _, outs) \<Rightarrow> outs | None \<Rightarrow> []) @ [output_of r]) locks"

lemma collect_lock_agrees:
  assumes "row_ok r" and "agrees locks rows" and "r \<in> set rows"
  shows "collect_lock r locks = Inr (with_row r locks)"
  using assms pool_from_code_row[OF assms(1)]
  by (cases "map_of locks (lr_owner r)")
    (auto simp: collect_lock_def with_row_def agrees_def row_ok_def output_of_def)

lemma map_of_with_row:
  "map_of (with_row r locks) owner = (if owner = lr_owner r
     then Some (lr_expiry_height r, lr_retain_until_expiry r,
       (case map_of locks owner of Some (_, _, outs) \<Rightarrow> outs | None \<Rightarrow> []) @ [output_of r])
     else map_of locks owner)"
  by (simp add: with_row_def update_conv')

lemma with_row_agrees:
  assumes "uniform rows" and "agrees locks rows" and "r \<in> set rows"
  shows "agrees (with_row r locks) rows"
  unfolding agrees_def
proof (intro ballI allI impI)
  fix r' e t outs assume r': "r' \<in> set rows" and e: "map_of (with_row r locks) (lr_owner r') = Some (e, t, outs)"
  show "e = lr_expiry_height r' \<and> t = lr_retain_until_expiry r'"
  proof (cases "lr_owner r' = lr_owner r")
    case True
    then have "row_state r' = row_state r" using assms(1,3) r' unfolding uniform_def by blast
    then show ?thesis using e True by (simp add: map_of_with_row row_state_def)
  next
    case False
    then have "map_of locks (lr_owner r') = Some (e, t, outs)" using e by (simp add: map_of_with_row)
    then show ?thesis using assms(2) r' unfolding agrees_def by blast
  qed
qed

lemma collect_locks:
  assumes "uniform rows" and "\<forall>r \<in> set rows. row_ok r" and "agrees locks rows" and "set rs \<subseteq> set rows"
  shows "res_fold collect_lock rs locks = Inr (fold with_row rs locks)"
  using assms(3,4)
proof (induction rs arbitrary: locks)
  case (Cons r rs)
  then have "collect_lock r locks = Inr (with_row r locks)" using assms(2) collect_lock_agrees by auto
  moreover have "agrees (with_row r locks) rows" using Cons.prems assms(1) with_row_agrees by auto
  ultimately show ?case using Cons.IH Cons.prems(2) by simp
qed simp

definition orphan_rows :: "('w, 'p, 'z) send_state_scheme \<Rightarrow> lock_row list" where
  "orphan_rows s = sort_key lock_key (filter (\<lambda>r. lr_session_id r \<noteq> ss_session_id s \<or> lr_phase r = ''release'') (ss_rows s))"

lemma read_previous_session_locks_ok:
  assumes "reservations_ok s"
  shows "read_previous_session_locks s = Inr (fold with_row (orphan_rows s) [])"
  unfolding read_previous_session_locks_def orphan_rows_def[symmetric]
proof (rule collect_locks)
  show "uniform (ss_rows s)" "\<forall>r \<in> set (ss_rows s). row_ok r" using assms by (simp_all add: rows_ok_def)
  show "agrees [] (ss_rows s)" by (simp add: agrees_def)
  show "set (orphan_rows s) \<subseteq> set (ss_rows s)" by (auto simp: orphan_rows_def)
qed

lemma fold_with_row_lookup:
  "map_of (fold with_row rs locks) owner =
     (case filter (\<lambda>r. lr_owner r = owner) rs of [] \<Rightarrow> map_of locks owner
      | r # more_rows \<Rightarrow> Some (lr_expiry_height (last (r # more_rows)), lr_retain_until_expiry (last (r # more_rows)),
          (case map_of locks owner of Some (_, _, outs) \<Rightarrow> outs | None \<Rightarrow> []) @ map output_of (r # more_rows)))"
proof (induction rs arbitrary: locks)
  case (Cons r rs)
  show ?case
  proof (cases "lr_owner r = owner")
    case True
    then show ?thesis
      by (cases "filter (\<lambda>r. lr_owner r = owner) rs")
        (auto simp: Cons.IH map_of_with_row split: option.splits prod.splits)
  next
    case False
    then show ?thesis by (simp add: Cons.IH map_of_with_row cong: list.case_cong)
  qed
qed simp

lemma fold_with_row_keys: "distinct (map fst locks) \<Longrightarrow> distinct (map fst (fold with_row rs locks))"
  by (induction rs arbitrary: locks) (simp_all add: with_row_def distinct_update)

end
