(* ===== verification/Send_Steps.thy ===== *)
theory Send_Steps
  imports Send_Reservation
begin

text \<open>
  Reservations over time. One step is one section of the code that holds the wallet write lock or the
  mutex of the proposal store, so that a sequence of steps is an interleaving of all threads, across
  restarts. The label of a step says on whose behalf it works.
\<close>

section \<open>The wallet library\<close>

text \<open>
  \<open>held w out owner\<close>: the output is locked for the owner, and the lock has not expired. The documented
  behaviour of the library: a call made for one owner leaves the locks of the other owners alone.
\<close>

definition scoped :: "('w \<Rightarrow> output_ref \<Rightarrow> lock_owner \<Rightarrow> bool) \<Rightarrow> lock_owner \<Rightarrow> ('w, 'a) store_op \<Rightarrow> bool" where
  "scoped held owner m \<longleftrightarrow> (\<forall>w out other. other \<noteq> owner \<longrightarrow> held w out other \<longrightarrow> held (snd (m w)) out other)"

definition owner_scoped :: "('w, 'p) wallet_library \<Rightarrow> ('w \<Rightarrow> output_ref \<Rightarrow> lock_owner \<Rightarrow> bool) \<Rightarrow> bool" where
  "owner_scoped lib held \<longleftrightarrow> (\<forall>owner.
     (\<forall>outs h. scoped held owner (wl_lock_outputs lib outs owner h))
     \<and> (\<forall>out. scoped held owner (wl_unlock_output lib out owner))
     \<and> (\<forall>proposal. scoped held owner (wl_unlock_proposal_inputs lib proposal owner)))"

section \<open>Steps\<close>

datatype send_event =
    Quiet
  | Reserved lock_owner
  | Worked lock_owner
  | Outcome string string
  | Failed string string
  | Recovered "height option"

definition recovery_height :: "('w, 'p) wallet_library \<Rightarrow> bool \<Rightarrow> ('w, 'p, 'z) send_state_scheme \<Rightarrow> height option" where
  "recovery_height lib check_expiry s =
     (if check_expiry then case wl_target_height lib (ss_wallet s) of Inr h \<Rightarrow> h | Inl _ \<Rightarrow> None else None)"

definition fresh_owner :: "lock_owner \<Rightarrow> ('w, 'p, 'z) send_state_scheme \<Rightarrow> bool" where
  "fresh_owner owner s \<longleftrightarrow> length owner = 32 \<and> (\<forall>r \<in> set (ss_rows s). lr_owner r \<noteq> owner)"

inductive send_step ::
    "('w, 'p) wallet_library \<Rightarrow> ('w \<Rightarrow> output_ref \<Rightarrow> lock_owner \<Rightarrow> bool) \<Rightarrow> send_event \<Rightarrow> ('w, 'p) outbox_state \<Rightarrow> ('w, 'p) outbox_state \<Rightarrow> bool"
  for lib held where
  reserve: "fresh_owner owner s \<Longrightarrow> \<forall>out \<in> set outs. output_ok out
      \<Longrightarrow> send_step lib held (Reserved owner) s (snd (reserve_inputs lib label owner outs h s))"
| store: "send_step lib held Quiet s (snd (store_proposal proposal network account flow owner s))"
| consume: "send_step lib held Quiet s (snd (consume_stored_proposal i flow not_found s))"
| discard: "send_step lib held Quiet s (snd (discard_begin i flow s))"
| forget: "send_step lib held Quiet s (snd (forget_lock i s))"
| unlock_abandoned: "send_step lib held Quiet s (snd (unlock_stored_proposal_locked lib i flow False s))"
| unlock_anyway: "find_lock i s = Some lock
      \<Longrightarrow> send_step lib held (Worked (spl_owner lock)) s (snd (unlock_stored_proposal_locked lib i flow True s))"
| remove: "send_step lib held (Worked owner) s (snd (remove_reservation owner s))"
| retake: "send_step lib held (Worked owner) s (snd (retake_inputs lib label proposal owner h s))"
| wallet: "scoped held owner (m :: ('w, unit) store_op) \<Longrightarrow> send_step lib held (Worked owner) s (snd (on_wallet m s))"
| retain: "send_step lib held Quiet s (snd (retain_locked i flow owner s))"
| mark: "send_step lib held Quiet s (snd (mark_retain_until_expiry owner s))"
| started: "send_step lib held Quiet s (snd (mark_proposal_broadcast_started i flow s))"
| shutdown: "send_step lib held Quiet s (snd (begin_shutdown s))"
| restart: "send_step lib held Quiet s (s\<lparr>ss_session_id := session, ss_shutting_down := False, ss_proposals := [],
      ss_locks := [], ss_next_id := 1, ob_active_broadcasts := []\<rparr>)"
| recover: "send_step lib held (Recovered (recovery_height lib check_expiry s)) s (snd (recover lib check_expiry s))"
| checkpoint: "send_step lib held Quiet s (snd (record_checkpoint px row pczts s))"
| guard: "send_step lib held Quiet s (s\<lparr>ob_active_broadcasts := keys\<rparr>)"
| outcome: "send_step lib held (Outcome operation_id status) s
      (snd (apply_broadcast_outcome now network operation_id kind txid status message s))"
| failure: "send_step lib held (Failed operation_id message) s (snd (record_broadcast_failure now network operation_id message s))"
| acknowledge: "send_step lib held Quiet s (snd (acknowledge network operation_id s))"
| delete_account: "send_step lib held Quiet s (snd (delete_for_account_with_tx network account s))"

inductive send_trace ::
    "('w, 'p) wallet_library \<Rightarrow> ('w \<Rightarrow> output_ref \<Rightarrow> lock_owner \<Rightarrow> bool) \<Rightarrow> send_event list \<Rightarrow> ('w, 'p) outbox_state \<Rightarrow> ('w, 'p) outbox_state \<Rightarrow> bool"
  for lib held where
  none: "send_trace lib held [] s s"
| step: "send_step lib held ev s t \<Longrightarrow> send_trace lib held evs t u \<Longrightarrow> send_trace lib held (ev # evs) s u"

section \<open>Predicates on the reservations\<close>

text \<open>
  What the steps may rely on: a predicate of the rows and the wallet that the operations on rows keep.
  Everything else leaves it alone.
\<close>

definition on_rows :: "(lock_row list \<Rightarrow> 'w \<Rightarrow> bool) \<Rightarrow> ('w, 'p, 'z) send_state_scheme \<Rightarrow> bool" where
  "on_rows I s \<longleftrightarrow> I (ss_rows s) (ss_wallet s)"

lemma on_rows_cong [simp]:
  "on_rows I (s\<lparr>ss_shutting_down := b\<rparr>) = on_rows I s" "on_rows I (s\<lparr>ss_proposals := ps\<rparr>) = on_rows I s"
  "on_rows I (s\<lparr>ss_locks := ls\<rparr>) = on_rows I s" "on_rows I (s\<lparr>ss_next_id := n\<rparr>) = on_rows I s"
  "on_rows I (s\<lparr>ss_session_id := session\<rparr>) = on_rows I s"
  by (simp_all add: on_rows_def)

lemma on_rows_outbox [simp]:
  "on_rows I (s\<lparr>ob_operations := rows\<rparr>) = on_rows I s" "on_rows I (s\<lparr>ob_active_broadcasts := keys\<rparr>) = on_rows I s"
  for s :: "('w, 'p) outbox_state"
  by (simp_all add: on_rows_def)

lemma keeps_memory [simp, intro]:
  "keeps (on_rows I) (forget_lock i)" "keeps (on_rows I) (forget_proposal i)" "keeps (on_rows I) begin_shutdown"
  "keeps (on_rows I) (store_proposal proposal network account flow owner)" "keeps (on_rows I) require_active_session"
  by (simp_all add: keeps_def forget_lock_def forget_proposal_def begin_shutdown_def store_proposal_def
      require_active_session_def)

lemma keeps_operations [simp, intro]:
  "keeps (on_rows I) (insert_operation row)" "keeps (on_rows I) (update_operations P f)" "keeps (on_rows I) (delete_operations P)"
  by (simp_all add: keeps_def insert_operation_def update_operations_def delete_operations_def)

lemma keeps_if [intro]: "(b \<Longrightarrow> keeps P m) \<Longrightarrow> (\<not> b \<Longrightarrow> keeps P n) \<Longrightarrow> keeps P (if b then m else n)"
  by simp

lemma keeps_option [intro]: "(x = None \<Longrightarrow> keeps P m) \<Longrightarrow> (\<And>y. x = Some y \<Longrightarrow> keeps P (f y)) \<Longrightarrow> keeps P (case x of None \<Rightarrow> m | Some y \<Rightarrow> f y)"
  by (cases x) simp_all

lemma keeps_or_else [intro]: "keeps P m \<Longrightarrow> (\<And>e. keeps P (f e)) \<Longrightarrow> keeps P (st_or_else m f)"
  unfolding keeps_def st_or_else_def by (fastforce split: prod.splits sum.splits)

lemma keeps_step: "keeps P m \<Longrightarrow> P s \<Longrightarrow> P (snd (m s))"
  by (simp add: keeps_def)

lemma keeps_consume: "keeps (on_rows I) (consume_stored_proposal i flow not_found)"
  unfolding consume_stored_proposal_def by (intro keeps_bind) auto

lemma keeps_discard: "keeps (on_rows I) (discard_begin i flow)"
  unfolding discard_begin_def by (rule keeps_bind) (auto split: prod.split)

lemma keeps_delete_account: "keeps (on_rows I) (delete_for_account_with_tx network account)"
  unfolding delete_for_account_with_tx_def by auto

lemma keeps_acknowledge: "keeps (on_rows I) (acknowledge network operation_id)"
  unfolding acknowledge_def by (intro keeps_bind keeps_if) auto

text \<open>The operations that change the rows, given what they do on the rows of an owner.\<close>

lemma keeps_started:
  "(\<And>owner. keeps (on_rows I) (mark_retain_until_expiry owner :: (('w, 'p, 'z) send_state_scheme, unit) store_op)) \<Longrightarrow> keeps (on_rows I) (mark_proposal_broadcast_started i flow :: (('w, 'p, 'z) send_state_scheme, unit) store_op)"
  unfolding mark_proposal_broadcast_started_def stored_proposal_lock_def by (intro keeps_bind) auto

lemma keeps_retain:
  "(\<And>owner. keeps (on_rows I) (mark_retain_until_expiry owner :: (('w, 'p, 'z) send_state_scheme, unit) store_op)) \<Longrightarrow> keeps (on_rows I) (retain_locked i flow owner :: (('w, 'p, 'z) send_state_scheme, unit) store_op)"
  unfolding retain_locked_def by (intro keeps_bind keeps_option keeps_if) auto

lemma keeps_checkpoint_owners:
  "(\<And>owner. keeps (on_rows I) (checkpoint_owner owner operation_id :: (('w, 'p) outbox_state, unit) store_op)) \<Longrightarrow> keeps (on_rows I) (checkpoint_owners px operation_id owners pczts :: (('w, 'p) outbox_state, unit) store_op)"
  by (induction px operation_id owners pczts rule: checkpoint_owners.induct) (auto intro!: keeps_bind keeps_option)

lemma keeps_record_checkpoint:
  "(\<And>owner operation_id. keeps (on_rows I) (checkpoint_owner owner operation_id :: (('w, 'p) outbox_state, unit) store_op)) \<Longrightarrow> keeps (on_rows I) (record_checkpoint px row pczts :: (('w, 'p) outbox_state, signed_operation_metadata) store_op)"
  unfolding record_checkpoint_def
  by (intro keeps_bind keeps_savepoint keeps_if keeps_checkpoint_owners) auto

lemma keeps_outcome:
  "(status \<in> {''broadcasted'', ''expired''} \<Longrightarrow> keeps (on_rows I) (release_operation operation_id :: (('w, 'p) outbox_state, unit) store_op))
   \<Longrightarrow> keeps (on_rows I) (apply_broadcast_outcome now network operation_id kind txid status message :: (('w, 'p) outbox_state, broadcast_result) store_op)"
  unfolding apply_broadcast_outcome_def Let_def by (intro keeps_savepoint keeps_bind keeps_if) auto

lemma keeps_failure:
  "(is_terminal_broadcast_failure message \<Longrightarrow> keeps (on_rows I) (release_operation operation_id :: (('w, 'p) outbox_state, unit) store_op))
   \<Longrightarrow> keeps (on_rows I) (record_broadcast_failure now network operation_id message :: (('w, 'p) outbox_state, bool) store_op)"
  unfolding record_broadcast_failure_def by (intro keeps_savepoint keeps_if keeps_bind) auto

end
