(* ===== verification/Send_Props.thy ===== *)
theory Send_Props
  imports Send_Steps
begin

text \<open>
  The properties of reservations: a signed or submitted reservation survives everything but its own end,
  a recovery always succeeds in reading the rows, and a reservation is signed once.
\<close>

section \<open>A durable reservation\<close>

definition durable :: "lock_row \<Rightarrow> bool" where
  "durable r \<longleftrightarrow> lr_phase r \<in> {''signed'', ''broadcast''}"

definition kept :: "('w \<Rightarrow> output_ref \<Rightarrow> lock_owner \<Rightarrow> bool) \<Rightarrow> lock_row \<Rightarrow> lock_row list \<Rightarrow> 'w \<Rightarrow> bool" where
  "kept held r rows w \<longleftrightarrow> rows_ok rows \<and> r \<in> set rows \<and> held w (output_of r) (lr_owner r)"

text \<open>What ends the reservation of a row.\<close>

definition ends :: "lock_row \<Rightarrow> send_event \<Rightarrow> bool" where
  "ends r ev = (case ev of
       Worked owner \<Rightarrow> owner = lr_owner r
     | Outcome operation_id status \<Rightarrow> lr_operation_id r = Some operation_id \<and> status \<in> {''broadcasted'', ''expired''}
     | Failed operation_id message \<Rightarrow> lr_operation_id r = Some operation_id \<and> is_terminal_broadcast_failure message
     | Recovered (Some h) \<Rightarrow> lr_expiry_height r \<le> h
     | _ \<Rightarrow> False)"

lemma kept_keeps:
  assumes "keeps reservations_ok m" and "\<And>s. r \<in> set (ss_rows s) \<Longrightarrow> row_ok r \<Longrightarrow> r \<in> set (ss_rows (snd (m s)))"
    and "\<And>s. ss_wallet (snd (m s)) = ss_wallet s"
  shows "keeps (on_rows (kept held r)) (m :: (('w, 'p, 'z) send_state_scheme, 'a) store_op)"
  using assms by (auto simp: keeps_def on_rows_def kept_def rows_ok_def)

lemma update_locks_row:
  "r \<in> set (ss_rows s) \<Longrightarrow> (P r \<Longrightarrow> f r = r) \<Longrightarrow> r \<in> set (ss_rows (snd (update_locks P f s)))"
  by (force simp: update_locks_def)

lemma after_update:
  "snd (st_bind (update_locks P f) g s) = snd (g (length (filter P (ss_rows s))) (snd (update_locks P f s)))"
  by (simp add: st_bind_def update_locks_def)

lemma mark_retain_row:
  "snd (mark_retain_until_expiry owner s) = snd (update_locks (\<lambda>r. lr_owner r = owner) (\<lambda>r. r\<lparr>lr_retain_until_expiry := True,
      lr_phase := if lr_phase r = ''signed'' then lr_phase r else ''broadcast''\<rparr>) s)"
  by (simp add: mark_retain_until_expiry_def after_update)

lemma mark_retain_kept:
  assumes "durable r"
  shows "keeps (on_rows (kept held r)) (mark_retain_until_expiry owner :: (('w, 'p, 'z) send_state_scheme, unit) store_op)"
proof (rule kept_keeps)
  fix s :: "('w, 'p, 'z) send_state_scheme" assume r: "r \<in> set (ss_rows s)" "row_ok r"
  then have "r\<lparr>lr_retain_until_expiry := True, lr_phase := if lr_phase r = ''signed'' then lr_phase r else ''broadcast''\<rparr> = r"
    using assms by (auto simp: durable_def row_ok_def phase_ok_def)
  then show "r \<in> set (ss_rows (snd (mark_retain_until_expiry owner s)))"
    using r(1) by (simp add: mark_retain_row update_locks_row)
qed (auto simp: mark_retain_row update_locks_def)

lemma checkpoint_owner_rows:
  "ss_rows (snd (checkpoint_owner owner operation_id s)) = (if ss_shutting_down s then ss_rows s else
     map (\<lambda>r. if lr_owner r = owner \<and> lr_session_id r = ss_session_id s \<and> lr_phase r = ''session''
       then r\<lparr>lr_retain_until_expiry := True, lr_phase := ''signed'', lr_operation_id := Some operation_id\<rparr> else r) (ss_rows s))"
  "ss_wallet (snd (checkpoint_owner owner operation_id s)) = ss_wallet s"
  by (simp_all add: checkpoint_owner_def require_active_session_def st_bind_def update_locks_def)

lemma checkpoint_owner_kept:
  "durable r \<Longrightarrow> keeps (on_rows (kept held r)) (checkpoint_owner owner operation_id :: (('w, 'p, 'z) send_state_scheme, unit) store_op)"
  by (rule kept_keeps) (auto simp: checkpoint_owner_rows durable_def image_iff)

lemma release_operation_row:
  "snd (release_operation operation_id s) = snd (update_locks (\<lambda>r. lr_operation_id r = Some operation_id)
      (\<lambda>r. r\<lparr>lr_retain_until_expiry := False, lr_phase := ''release''\<rparr>) s)"
  by (simp add: release_operation_def after_update)

lemma release_operation_kept:
  "lr_operation_id r \<noteq> Some operation_id
   \<Longrightarrow> keeps (on_rows (kept held r)) (release_operation operation_id :: (('w, 'p, 'z) send_state_scheme, unit) store_op)"
  by (rule kept_keeps) (auto simp: release_operation_row intro: update_locks_row, simp add: update_locks_def)

lemma remove_reservation_row:
  "snd (remove_reservation owner s) = s\<lparr>ss_rows := filter (\<lambda>r. lr_owner r \<noteq> owner) (ss_rows s)\<rparr>"
  by (simp add: remove_reservation_def delete_locks_def st_bind_def)

lemma remove_reservation_kept:
  "owner \<noteq> lr_owner r \<Longrightarrow> keeps (on_rows (kept held r)) (remove_reservation owner :: (('w, 'p, 'z) send_state_scheme, unit) store_op)"
  by (rule kept_keeps) (auto simp: remove_reservation_row)

lemma update_expiry_kept:
  assumes "owner \<noteq> lr_owner r"
  shows "keeps (on_rows (kept held r)) (update_expiry owner h :: (('w, 'p, 'z) send_state_scheme, unit) store_op)"
proof -
  have row: "snd (update_expiry owner h s) = snd (update_locks (\<lambda>r. lr_owner r = owner) (\<lambda>r. r\<lparr>lr_expiry_height := h\<rparr>) s)"
    for s :: "('w, 'p, 'z) send_state_scheme"
    by (simp add: update_expiry_def after_update)
  show ?thesis using assms by (intro kept_keeps) (auto simp: row intro: update_locks_row, simp add: update_locks_def)
qed

lemma on_wallet_kept:
  assumes "scoped held owner m" and "owner \<noteq> lr_owner r"
  shows "keeps (on_rows (kept held r)) (on_wallet m :: (('w, 'p, 'z) send_state_scheme, 'a) store_op)"
proof -
  have "ss_wallet (snd (on_wallet m s)) = snd (m (ss_wallet s))" for s :: "('w, 'p, 'z) send_state_scheme"
    by (simp add: on_wallet_def split: prod.splits)
  then show ?thesis using assms by (auto simp: keeps_def on_rows_def kept_def scoped_def)
qed

lemma keeps_persist_kept:
  assumes "\<forall>out \<in> set outs. output_ok out" and "fresh_owner owner s" and "on_rows (kept held r) s"
  shows "on_rows (kept held r) (snd (persist owner outs h s))" and "owner \<noteq> lr_owner r"
proof -
  have ok: "rows_ok (ss_rows s)" and r: "r \<in> set (ss_rows s)" and w: "held (ss_wallet s) (output_of r) (lr_owner r)"
    using assms(3) by (simp_all add: on_rows_def kept_def)
  show other: "owner \<noteq> lr_owner r" using assms(2) r by (auto simp: fresh_owner_def)
  have "r \<in> set (fold (\<lambda>out. insert_or_replace (session_row session owner out h)) outs rows)" if "r \<in> set rows" for session rows
    using that other by (induction outs arbitrary: rows) (auto simp: insert_or_replace_def lock_key_def session_row_def)
  moreover have "rows_ok (fold (\<lambda>out. insert_or_replace (session_row (ss_session_id s) owner out h)) outs (ss_rows s))"
    using assms(1,2) ok by (intro persist_rows_ok) (auto simp: fresh_owner_def)
  ultimately show "on_rows (kept held r) (snd (persist owner outs h s))"
    using r w by (simp add: persist_def on_rows_def kept_def)
qed

lemma reserve_kept:
  assumes "owner_scoped lib held" and "\<forall>out \<in> set outs. output_ok out" and "fresh_owner owner s" and "on_rows (kept held r) s"
  shows "on_rows (kept held r) (snd (reserve_inputs lib label owner outs h s))"
proof -
  have persisted: "on_rows (kept held r) (snd (persist owner outs h s))" "owner \<noteq> lr_owner r"
    using keeps_persist_kept[OF assms(2-4)] by simp_all
  have "keeps (on_rows (kept held r)) (st_or_else (on_wallet (wl_lock_outputs lib outs owner h))
      (\<lambda>e. st_bind (remove_reservation owner) (\<lambda>_. st_fail (Message label [AMsg e])))
      :: (('a, 'b, 'c) send_state_scheme, unit) store_op)"
    using assms(1) persisted(2)
    by (intro keeps_or_else keeps_bind remove_reservation_kept on_wallet_kept[where owner = owner]) (auto simp: owner_scoped_def)
  from keeps_step[OF this persisted(1)] show ?thesis
    by (simp add: reserve_inputs_def st_bind_def persist_def)
qed

lemma unlock_kept:
  assumes "owner_scoped lib held" and "durable r" and "on_rows (kept held r) s"
    and "\<And>lock. find_lock i s = Some lock \<Longrightarrow> allow_durable \<Longrightarrow> spl_owner lock \<noteq> lr_owner r"
  shows "on_rows (kept held r) (snd (unlock_stored_proposal_locked lib i flow allow_durable s))"
proof (cases "find_lock i s")
  case None
  then show ?thesis using assms(3) by (simp add: unlock_stored_proposal_locked_def st_bind_def)
next
  case (Some lock)
  have "spl_owner lock \<noteq> lr_owner r" if "\<not> (\<not> allow_durable \<and> is_durable (spl_owner lock) s)"
  proof (cases allow_durable)
    case False
    then show ?thesis using that assms(2,3) by (auto simp: is_durable_def list_ex_iff on_rows_def kept_def durable_def)
  qed (use assms(4) Some in blast)
  then have "keeps (on_rows (kept held r)) (if \<not> allow_durable \<and> is_durable (spl_owner lock) s then st_return ()
      else st_bind (st_context ''Unlock abandoned send proposal inputs: {e}''
             (on_wallet (wl_unlock_proposal_inputs lib (spl_proposal lock) (spl_owner lock)))) (\<lambda>_.
        st_bind (remove_reservation (spl_owner lock)) (\<lambda>_. forget_lock i)) :: (('a, 'b, 'c) send_state_scheme, unit) store_op)"
    using assms(1)
    by (intro keeps_if keeps_bind keeps_context remove_reservation_kept on_wallet_kept[where owner = "spl_owner lock"])
      (auto simp: owner_scoped_def)
  from keeps_step[OF this assms(3)] show ?thesis
    using assms(3) Some by (simp add: unlock_stored_proposal_locked_def st_bind_def)
qed

section \<open>Recovery\<close>

lemma orphan_lock_state:
  assumes "rows_ok (ss_rows s)" and "r \<in> set (ss_rows s)" and "(lr_owner r, e, t, outs) \<in> set (fold with_row (orphan_rows s) [])"
  shows "e = lr_expiry_height r \<and> t = lr_retain_until_expiry r"
proof -
  let ?locks = "fold with_row (orphan_rows s) []"
  have "map_of ?locks (lr_owner r) = Some (e, t, outs)"
    using assms(3) fold_with_row_keys[of "[]" "orphan_rows s"] by simp
  then have found: "filter (\<lambda>x. lr_owner x = lr_owner r) (orphan_rows s) \<noteq> []"
      "e = lr_expiry_height (last (filter (\<lambda>x. lr_owner x = lr_owner r) (orphan_rows s)))"
      "t = lr_retain_until_expiry (last (filter (\<lambda>x. lr_owner x = lr_owner r) (orphan_rows s)))"
    unfolding fold_with_row_lookup by (simp_all split: list.splits)
  define r0 where "r0 = last (filter (\<lambda>x. lr_owner x = lr_owner r) (orphan_rows s))"
  have r0: "r0 \<in> set (filter (\<lambda>x. lr_owner x = lr_owner r) (orphan_rows s))"
      "e = lr_expiry_height r0" "t = lr_retain_until_expiry r0"
    using found last_in_set[OF found(1)] by (simp_all only: r0_def)
  then have "r0 \<in> set (ss_rows s)" "lr_owner r0 = lr_owner r" by (simp_all add: orphan_rows_def)
  then have "row_state r0 = row_state r" using assms(1,2) unfolding rows_ok_def uniform_def by blast
  then show ?thesis using r0(2,3) by (simp add: row_state_def)
qed

lemma recover_split:
  assumes "reservations_ok s"
  shows "snd (recover lib check_expiry s) = s \<or>
    (\<exists>released. released = filter (\<lambda>(_, expiry, retain, _). should_release_after_restart retain (recovery_height lib check_expiry s) expiry)
        (fold with_row (orphan_rows s) [])
      \<and> snd (recover lib check_expiry s) = snd (st_bind (unlock_orphans lib released)
        (\<lambda>_. transaction (st_each remove_reservation (map fst released))) s))"
proof (cases "check_expiry \<and> (\<exists>e. wl_target_height lib (ss_wallet s) = Inl e)")
  case True
  then have "snd (recover lib check_expiry s) = s"
    using read_previous_session_locks_ok[OF assms] by (auto simp: recover_def st_bind_def st_context_def)
  then show ?thesis ..
next
  case False
  then have "(if check_expiry then st_context ''Read target height for send lock recovery: {e}'' (st_read (\<lambda>s. wl_target_height lib (ss_wallet s)))
      else st_return None) s = (Inr (recovery_height lib check_expiry s), s)"
    by (auto simp: recovery_height_def st_context_def split: sum.splits)
  then show ?thesis
    using read_previous_session_locks_ok[OF assms]
    by (cases "fold with_row (orphan_rows s) [] = []") (simp_all add: recover_def st_bind_def Let_def)
qed

lemma recover_kept:
  assumes "owner_scoped lib held" and "durable r" and "on_rows (kept held r) s"
    and "\<not> ends r (Recovered (recovery_height lib check_expiry s))"
  shows "on_rows (kept held r) (snd (recover lib check_expiry s))"
proof -
  have ok: "reservations_ok s" and r: "r \<in> set (ss_rows s)" using assms(3) by (simp_all add: on_rows_def kept_def)
  have retain: "lr_retain_until_expiry r" using ok r assms(2) by (auto simp: rows_ok_def row_ok_def phase_ok_def durable_def)
  consider "snd (recover lib check_expiry s) = s"
    | released where "released = filter (\<lambda>(_, expiry, retain, _). should_release_after_restart retain (recovery_height lib check_expiry s) expiry)
        (fold with_row (orphan_rows s) [])"
      "snd (recover lib check_expiry s) = snd (st_bind (unlock_orphans lib released)
        (\<lambda>_. transaction (st_each remove_reservation (map fst released))) s)"
    using recover_split[OF ok] by blast
  then show ?thesis
  proof cases
    case 1
    then show ?thesis using assms(3) by simp
  next
    case 2
    have other: "owner \<noteq> lr_owner r" if "(owner, e, t, outs) \<in> set released" for owner e t outs
    proof
      assume "owner = lr_owner r"
      then have "e = lr_expiry_height r \<and> t = lr_retain_until_expiry r" and "should_release_after_restart t (recovery_height lib check_expiry s) e"
        using that orphan_lock_state[OF ok r] by (auto simp: 2(1))
      then show False using assms(4) retain by (auto simp: should_release_after_restart_def ends_def split: option.splits)
    qed
    have "keeps (on_rows (kept held r)) (st_bind (unlock_orphans lib released)
        (\<lambda>_. transaction (st_each remove_reservation (map fst released))) :: (('a, 'b, 'c) send_state_scheme, unit) store_op)"
      unfolding unlock_orphans_def
    proof (intro keeps_bind keeps_savepoint keeps_each)
      fix x :: "lock_owner \<times> height \<times> bool \<times> output_ref list" assume x: "x \<in> set released"
      obtain owner e t outs where [simp]: "x = (owner, e, t, outs)" by (cases x)
      show "keeps (on_rows (kept held r)) ((case x of (owner, _, _, outputs) \<Rightarrow> st_each (\<lambda>output.
          st_context ''Release orphan send proposal input: {e}'' (on_wallet (wl_unlock_output lib output owner))) outputs)
          :: (('a, 'b, 'c) send_state_scheme, unit) store_op)"
        using assms(1) other[of owner e t outs] x
        by (auto intro!: keeps_each keeps_context on_wallet_kept[where owner = owner] simp: owner_scoped_def)
    next
      fix owner assume "owner \<in> set (map fst released)"
      then show "keeps (on_rows (kept held r)) (remove_reservation owner :: (('a, 'b, 'c) send_state_scheme, unit) store_op)"
        using other by (intro remove_reservation_kept) force
    qed
    from keeps_step[OF this assms(3)] show ?thesis by (simp add: 2(2))
  qed
qed

section \<open>Every step\<close>

lemma step_kept:
  assumes "send_step lib held ev s t" and "owner_scoped lib held" and "durable r" and "on_rows (kept held r) s" and "\<not> ends r ev"
  shows "on_rows (kept held r) t"
  using assms
proof cases
  case (reserve owner outs label h)
  then show ?thesis using assms reserve_kept by blast
next
  case (unlock_abandoned i flow)
  then show ?thesis using assms unlock_kept by blast
next
  case (unlock_anyway i lock flow)
  then show ?thesis using assms unlock_kept[OF assms(2-4), of i True flow] by (auto simp: ends_def)
next
  case (retake owner label proposal h)
  then have "keeps (on_rows (kept held r)) (retake_inputs lib label proposal owner h :: (('a, 'b) outbox_state, unit) store_op)"
    using assms unfolding retake_inputs_def
    by (intro keeps_bind keeps_context update_expiry_kept on_wallet_kept[where owner = owner]) (auto simp: owner_scoped_def ends_def)
  from keeps_step[OF this assms(4)] show ?thesis by (simp add: retake)
next
  case (wallet owner m)
  then have "keeps (on_rows (kept held r)) (on_wallet m :: (('a, 'b) outbox_state, unit) store_op)"
    using assms by (intro on_wallet_kept) (auto simp: ends_def)
  from keeps_step[OF this assms(4)] show ?thesis by (simp add: wallet)
next
  case (remove owner)
  then have "keeps (on_rows (kept held r)) (remove_reservation owner :: (('a, 'b) outbox_state, unit) store_op)"
    using assms by (intro remove_reservation_kept) (auto simp: ends_def)
  from keeps_step[OF this assms(4)] show ?thesis by (simp add: remove)
next
  case (recover check_expiry)
  then show ?thesis using assms recover_kept by blast
next
  case (outcome operation_id status now network kind txid message)
  have "keeps (on_rows (kept held r)) (apply_broadcast_outcome now network operation_id kind txid status message :: (('a, 'b) outbox_state, broadcast_result) store_op)"
    using assms(5) outcome by (intro keeps_outcome release_operation_kept) (auto simp: ends_def)
  from keeps_step[OF this assms(4)] show ?thesis by (simp add: outcome)
next
  case (failure operation_id message now network)
  have "keeps (on_rows (kept held r)) (record_broadcast_failure now network operation_id message :: (('a, 'b) outbox_state, bool) store_op)"
    using assms(5) failure by (intro keeps_failure release_operation_kept) (auto simp: ends_def)
  from keeps_step[OF this assms(4)] show ?thesis by (simp add: failure)
qed (use keeps_step[OF mark_retain_kept[OF assms(3)] assms(4)] keeps_step[OF keeps_retain[OF mark_retain_kept[OF assms(3)]] assms(4)]
       keeps_step[OF keeps_started[OF mark_retain_kept[OF assms(3)]] assms(4)]
       keeps_step[OF keeps_record_checkpoint[OF checkpoint_owner_kept[OF assms(3)]] assms(4)]
       keeps_step[OF keeps_consume assms(4)] keeps_step[OF keeps_discard assms(4)] keeps_step[OF keeps_memory(1) assms(4)]
       keeps_step[OF keeps_memory(3) assms(4)] keeps_step[OF keeps_memory(4) assms(4)]
       keeps_step[OF keeps_acknowledge assms(4)] keeps_step[OF keeps_delete_account assms(4)] assms(4) in simp_all)

lemma trace_kept:
  assumes "send_trace lib held evs s t" and "owner_scoped lib held" and "durable r" and "on_rows (kept held r) s"
    and "\<forall>ev \<in> set evs. \<not> ends r ev"
  shows "on_rows (kept held r) t"
  using assms by (induction rule: send_trace.induct) (auto intro: step_kept)

section \<open>Well-formed rows along a trace\<close>

definition well_formed :: "lock_row list \<Rightarrow> 'w \<Rightarrow> bool" where
  "well_formed rows w \<longleftrightarrow> rows_ok rows"

lemma on_rows_well_formed: "on_rows well_formed s = reservations_ok s"
  by (simp add: on_rows_def well_formed_def)

lemma keeps_well_formed: "keeps reservations_ok m \<Longrightarrow> keeps (on_rows well_formed) m"
  by (simp add: keeps_def on_rows_well_formed)

lemma reserve_well_formed:
  assumes "fresh_owner owner s" and "\<forall>out \<in> set outs. output_ok out" and "reservations_ok s"
  shows "reservations_ok (snd (reserve_inputs lib label owner outs h (s :: ('w, 'p, 'z) send_state_scheme)))"
proof -
  have persisted: "reservations_ok (snd (persist owner outs h s))"
    using assms by (auto simp: persist_def fresh_owner_def intro!: persist_rows_ok)
  have "keeps reservations_ok (st_or_else (on_wallet (wl_lock_outputs lib outs owner h))
      (\<lambda>e. st_bind (remove_reservation owner) (\<lambda>_. st_fail (Message label [AMsg e])))
      :: (('w, 'p, 'z) send_state_scheme, unit) store_op)"
    by (intro keeps_or_else keeps_bind on_wallet_keeps remove_reservation_keeps keeps_basic)
  from keeps_step[OF this persisted] show ?thesis
    by (simp add: reserve_inputs_def st_bind_def persist_def)
qed

lemma step_well_formed:
  assumes "send_step lib held ev s t" and "reservations_ok s"
  shows "reservations_ok t"
proof -
  let ?I = "on_rows (well_formed :: lock_row list \<Rightarrow> 'a \<Rightarrow> bool)"
  have ok: "?I s" using assms(2) by (simp add: on_rows_well_formed)
  note basic = keeps_well_formed[OF mark_retain_keeps] keeps_well_formed[OF remove_reservation_keeps]
    keeps_well_formed[OF on_wallet_keeps] keeps_well_formed[OF release_operation_keeps]
    keeps_well_formed[OF update_expiry_keeps] keeps_well_formed[OF checkpoint_owner_keeps]
  have unlock: "keeps ?I (unlock_stored_proposal_locked lib i flow b :: (('a, 'b) outbox_state, unit) store_op)" for i flow b
    unfolding unlock_stored_proposal_locked_def
    by (intro keeps_bind keeps_option keeps_if keeps_context basic) auto
  have retake: "keeps ?I (retake_inputs lib label proposal owner h :: (('a, 'b) outbox_state, unit) store_op)" for label proposal owner h
    unfolding retake_inputs_def by (intro keeps_bind keeps_context basic)
  have recover: "keeps ?I (recover lib check_expiry :: (('a, 'b) outbox_state, unit) store_op)" for check_expiry
    unfolding recover_def unlock_orphans_def Let_def
    by (intro keeps_bind keeps_if keeps_context keeps_savepoint keeps_each basic) (auto intro!: keeps_each keeps_context basic)
  from assms(1) have "?I t"
  proof cases
    case reserve
    then show ?thesis using assms(2) reserve_well_formed by (simp add: on_rows_well_formed)
  qed (use ok keeps_step[OF unlock ok] keeps_step[OF retake ok] keeps_step[OF recover ok] keeps_step[OF basic(1) ok]
      keeps_step[OF basic(2) ok] keeps_step[OF basic(3) ok] keeps_step[OF keeps_retain[OF basic(1)] ok]
      keeps_step[OF keeps_started[OF basic(1)] ok] keeps_step[OF keeps_record_checkpoint[OF basic(6)] ok]
      keeps_step[OF keeps_outcome[OF basic(4)] ok] keeps_step[OF keeps_failure[OF basic(4)] ok]
      keeps_step[OF keeps_consume ok] keeps_step[OF keeps_discard ok] keeps_step[OF keeps_memory(1) ok]
      keeps_step[OF keeps_memory(3) ok] keeps_step[OF keeps_memory(4) ok]
      keeps_step[OF keeps_acknowledge ok] keeps_step[OF keeps_delete_account ok] in simp_all)
  then show ?thesis by (simp add: on_rows_well_formed)
qed

lemma trace_well_formed: "send_trace lib held evs s t \<Longrightarrow> reservations_ok s \<Longrightarrow> reservations_ok t"
  by (induction rule: send_trace.induct) (auto intro: step_well_formed)

end
