(* ===== verification/Send_Handlers.thy ===== *)
theory Send_Handlers
  imports Send_Props
begin

text \<open>
  The handlers of the program are interleavings of the steps: whatever other threads do between the
  critical sections of a handler, its run is a trace. With that the properties of traces are properties
  of the handlers.
\<close>

section \<open>Interleavings\<close>

definition interleaves ::
    "('w, 'p) wallet_library \<Rightarrow> ('w \<Rightarrow> output_ref \<Rightarrow> lock_owner \<Rightarrow> bool) \<Rightarrow> (('w, 'p) outbox_state, 'a) store_op \<Rightarrow> bool" where
  "interleaves lib held m \<longleftrightarrow> (\<forall>s. \<exists>evs. send_trace lib held evs s (snd (m s)))"

lemma trace_append: "send_trace lib held evs s t \<Longrightarrow> send_trace lib held evs' t u \<Longrightarrow> send_trace lib held (evs @ evs') s u"
  by (induction rule: send_trace.induct) (auto intro: send_trace.step)

lemma trace_one: "send_step lib held ev s t \<Longrightarrow> send_trace lib held [ev] s t"
  by (blast intro: send_trace.intros)

lemma interleaves_basic [simp, intro]:
  "interleaves lib held (st_return x)" "interleaves lib held (st_fail e)" "interleaves lib held (st_lift y)"
  "interleaves lib held (st_read f)" "interleaves lib held require_active_session"
  by (auto simp: interleaves_def require_active_session_def intro: send_trace.none)

lemma interleaves_bind [intro]: "interleaves lib held m \<Longrightarrow> (\<And>x. interleaves lib held (f x)) \<Longrightarrow> interleaves lib held (st_bind m f)"
  unfolding interleaves_def st_bind_def
proof
  fix s assume m: "\<forall>s. \<exists>evs. send_trace lib held evs s (snd (m s))" and f: "\<And>x. \<forall>s. \<exists>evs. send_trace lib held evs s (snd (f x s))"
  show "\<exists>evs. send_trace lib held evs s (snd (case m s of (Inl e, s) \<Rightarrow> (Inl e, s) | (Inr x, s) \<Rightarrow> f x s))"
  proof (cases "m s")
    case (Pair r t)
    then show ?thesis using m f trace_append by (cases r) (fastforce dest: spec[of _ s])+
  qed
qed

lemma interleaves_or_else [intro]:
  "interleaves lib held m \<Longrightarrow> (\<And>e. interleaves lib held (f e)) \<Longrightarrow> interleaves lib held (st_or_else m f)"
  unfolding interleaves_def st_or_else_def
proof
  fix s assume m: "\<forall>s. \<exists>evs. send_trace lib held evs s (snd (m s))" and f: "\<And>e. \<forall>s. \<exists>evs. send_trace lib held evs s (snd (f e s))"
  show "\<exists>evs. send_trace lib held evs s (snd (case m s of (Inl e, s) \<Rightarrow> f e s | (Inr x, s) \<Rightarrow> (Inr x, s)))"
  proof (cases "m s")
    case (Pair r t)
    then show ?thesis using m f trace_append by (cases r) (fastforce dest: spec[of _ s])+
  qed
qed

lemma interleaves_context [intro]: "interleaves lib held m \<Longrightarrow> interleaves lib held (st_context label m)"
proof -
  have "snd (st_context label m s) = snd (m s)" for s by (simp add: st_context_def split: prod.split sum.split)
  then show "interleaves lib held m \<Longrightarrow> interleaves lib held (st_context label m)" by (simp add: interleaves_def)
qed

lemma interleaves_if [intro]: "(b \<Longrightarrow> interleaves lib held m) \<Longrightarrow> (\<not> b \<Longrightarrow> interleaves lib held n) \<Longrightarrow> interleaves lib held (if b then m else n)"
  by simp

lemma interleaves_option [intro]:
  "(x = None \<Longrightarrow> interleaves lib held m) \<Longrightarrow> (\<And>y. x = Some y \<Longrightarrow> interleaves lib held (f y)) \<Longrightarrow>
    interleaves lib held (case x of None \<Rightarrow> m | Some y \<Rightarrow> f y)"
  by (cases x) simp_all

lemma interleaves_others [intro]:
  "(\<And>u. \<exists>evs. send_trace lib held evs u (others u)) \<Longrightarrow> interleaves lib held (interleave others)"
  by (simp add: interleaves_def interleave_def)

lemma interleaves_stepI: "(\<And>s. \<exists>ev. send_step lib held ev s (snd (m s))) \<Longrightarrow> interleaves lib held m"
  unfolding interleaves_def using trace_one by blast

section \<open>The proposal store\<close>

lemma unlock_interleaves [intro]: "interleaves lib held (unlock_stored_proposal_locked lib i flow allow_durable)"
proof -
  have "\<exists>evs. send_trace lib held evs s (snd (unlock_stored_proposal_locked lib i flow allow_durable s))" for s
  proof (cases allow_durable)
    case True
    then show ?thesis
      using trace_one[OF unlock_anyway[of i s _ lib held flow]] send_trace.none[of lib held s]
      by (cases "find_lock i s") (auto simp: unlock_stored_proposal_locked_def st_bind_def)
  next
    case False
    then show ?thesis using trace_one[OF unlock_abandoned] by simp blast
  qed
  then show ?thesis by (simp add: interleaves_def)
qed

lemma section_interleaves [intro]:
  "interleaves lib held (forget_lock i)" "interleaves lib held (remove_reservation owner)"
  "interleaves lib held (discard_begin i flow)" "interleaves lib held (retain_locked i flow owner)"
  "interleaves lib held (consume_stored_proposal i flow not_found)" "interleaves lib held (mark_proposal_broadcast_started i flow)"
  "interleaves lib held (store_proposal proposal network account flow owner)" "interleaves lib held begin_shutdown"
  "interleaves lib held (record_checkpoint px row pczts)" "interleaves lib held (acknowledge network operation_id)"
  "interleaves lib held (recover lib check_expiry)" "interleaves lib held (retake_inputs lib label proposal owner h)"
  "interleaves lib held (apply_broadcast_outcome now network operation_id kind txid status message)"
  "interleaves lib held (record_broadcast_failure now network operation_id outcome_text)"
  by (rule interleaves_stepI, rule exI, rule send_step.intros)+

lemma stored_lock_interleaves [intro]: "interleaves lib held (stored_proposal_lock i flow)"
  unfolding stored_proposal_lock_def by (intro interleaves_bind) auto

lemma shutdown_loop_interleaves: "interleaves lib held (shutdown_loop lib started locks)"
proof -
  have "\<exists>evs. send_trace lib held evs s (snd (shutdown_loop lib started locks s))" for s
  proof (induction lib started locks s rule: shutdown_loop.induct)
    case (3 lib started i lock locks s)
    let ?u = "unlock_stored_proposal_locked lib i (spl_send_flow_id lock) False s"
    have first: "\<exists>evs. send_trace lib held evs s (snd ?u)"
      using unlock_interleaves[of lib held i "spl_send_flow_id lock" False] by (simp add: interleaves_def)
    obtain r t where u: "?u = (r, t)" by (cases ?u)
    have "\<exists>evs. send_trace lib held evs t (snd (shutdown_loop lib started locks t))"
      using 3 u by (cases r) auto
    then have "\<exists>evs. send_trace lib held evs s (snd (shutdown_loop lib started locks t))"
      using first u trace_append by fastforce
    then show ?case using u by (cases r; cases "shutdown_loop lib started locks t") simp_all
  qed (auto intro: send_trace.none)
  then show ?thesis by (simp add: interleaves_def)
qed

lemma finish_interleaves:
  assumes "\<And>u. \<exists>evs. send_trace lib held evs u (others u)"
  shows "interleaves lib held (finish_stored_proposal_inner lib others i flow release_inputs allow_durable)"
  unfolding finish_stored_proposal_inner_def using interleaves_others[OF assms]
  by (intro interleaves_bind interleaves_option interleaves_if) auto

lemma release_interleaves:
  assumes "\<And>u. \<exists>evs. send_trace lib held evs u (others u)"
  shows "interleaves lib held (release_pczt_proposal_after_failure lib others i flow e)"
  unfolding release_pczt_proposal_after_failure_def finish_stored_proposal_def
  using finish_interleaves[OF assms] by (intro interleaves_bind interleaves_or_else) auto

lemma wallet_interleaves:
  assumes "scoped held owner m"
  shows "interleaves lib held (on_wallet m :: (('w, 'p) outbox_state, 'a) store_op)"
proof (rule interleaves_stepI)
  fix s :: "('w, 'p) outbox_state"
  have "snd (on_wallet m s) = snd (on_wallet (\<lambda>w. (Inr () :: unit outcome, snd (m w))) s)"
    by (simp add: on_wallet_def split: prod.split)
  moreover have "scoped held owner (\<lambda>w. (Inr () :: unit outcome, snd (m w)))"
    using assms by (simp add: scoped_def)
  ultimately show "\<exists>ev. send_step lib held ev s (snd (on_wallet m s))"
    using send_step.wallet by metis
qed

lemma create_pczt_interleaves:
  assumes "\<And>n u. \<exists>evs. send_trace lib held evs u (others n u)"
    and "\<And>proposal h owner. scoped held owner (create proposal h)"
  shows "interleaves lib held (create_pczt_from_proposal lib others min_target_height observed_tip create bind_pczt network i flow)"
  unfolding create_pczt_from_proposal_def create_signing_request_def
  using interleaves_others[OF assms(1)] release_interleaves[OF assms(1)] wallet_interleaves[OF assms(2)]
  by (intro interleaves_bind interleaves_or_else interleaves_if interleaves_context) auto

lemma interleaves_result [intro]: "interleaves lib held m \<Longrightarrow> interleaves lib held (st_result m)"
proof -
  have "snd (st_result m s) = snd (m s)" for s by (simp add: st_result_def split: prod.split)
  then show "interleaves lib held m \<Longrightarrow> interleaves lib held (st_result m)" by (simp add: interleaves_def)
qed

lemma guard_interleaves:
  fixes lib :: "('w, 'p) wallet_library"
  assumes "interleaves lib held m"
  shows "interleaves lib held (with_broadcast_guard network operation_id m)"
  unfolding interleaves_def
proof
  fix s :: "('w, 'p) outbox_state"
  let ?key = "(network_name network, operation_id)"
  let ?t = "s\<lparr>ob_active_broadcasts := ?key # ob_active_broadcasts s\<rparr>"
  obtain evs where evs: "send_trace lib held evs ?t (snd (m ?t))" using assms by (auto simp: interleaves_def)
  let ?u = "(snd (m ?t))\<lparr>ob_active_broadcasts := removeAll ?key (ob_active_broadcasts (snd (m ?t)))\<rparr>"
  have "send_trace lib held (Quiet # evs @ [Quiet]) s ?u"
    by (rule send_trace.step[OF send_step.guard trace_append[OF evs trace_one[OF send_step.guard]]])
  then show "\<exists>evs. send_trace lib held evs s (snd (with_broadcast_guard network operation_id m s))"
    using send_trace.none by (auto simp: with_broadcast_guard_def Let_def split: prod.split)
qed

lemma sum_interleaves [intro]:
  "(\<And>e. x = Inl e \<Longrightarrow> interleaves lib held (f e)) \<Longrightarrow> (\<And>y. x = Inr y \<Longrightarrow> interleaves lib held (g y)) \<Longrightarrow>
    interleaves lib held (case x of Inl e \<Rightarrow> f e | Inr y \<Rightarrow> g y)"
  by (cases x) simp_all

lemma list_interleaves [intro]:
  "(x = [] \<Longrightarrow> interleaves lib held m) \<Longrightarrow> (\<And>y ys. x = y # ys \<Longrightarrow> interleaves lib held (f y ys)) \<Longrightarrow>
    interleaves lib held (case x of [] \<Rightarrow> m | y # ys \<Rightarrow> f y ys)"
  by (cases x) simp_all

lemma store_and_broadcast_interleaves:
  assumes "\<And>n u. \<exists>evs. send_trace lib held evs u (others n u)" and "\<And>items. scoped held owner (store_prefix env items)"
  shows "interleaves lib held (store_and_broadcast_pczts_inner others lib env None)"
  unfolding store_and_broadcast_pczts_inner_def finish_broadcast_def release_signed_pczt_operation_after_failure_def Let_def option.case
  using interleaves_others[OF assms(1)] wallet_interleaves[OF assms(2)]
  by (intro sum_interleaves list_interleaves interleaves_bind interleaves_or_else interleaves_option) auto

lemma broadcast_interleaves:
  assumes "\<And>n u. \<exists>evs. send_trace lib held evs u (others n u)"
    and "\<And>stored items. scoped held owner (store_prefix (env stored) items)"
  shows "interleaves lib held (broadcast lib others env now network operation_id)"
  unfolding broadcast_def broadcast_stored_def recover_before_balance_def
  using interleaves_others[OF assms(1)] store_and_broadcast_interleaves[OF assms(1,2)]
  by (intro interleaves_bind guard_interleaves interleaves_result interleaves_or_else sum_interleaves) auto

lemma propose_interleaves:
  assumes "fresh_owner owner s" and "\<And>proposal. \<forall>out \<in> set (wl_input_refs lib proposal). output_ok out"
  shows "\<exists>evs. send_trace lib held evs s (snd (propose_and_store_request lib propose owner network account flow s))"
proof (cases "flow = [] \<or> ss_shutting_down s \<or> (\<exists>e. propose (ss_wallet s) = Inl e)")
  case True
  then show ?thesis
    using send_trace.none[of lib held s] by (auto simp: propose_and_store_request_def require_active_session_def st_bind_def)
next
  case False
  then obtain proposal h where p: "propose (ss_wallet s) = Inr (proposal, h)" by (cases "propose (ss_wallet s)") auto
  let ?r = "reserve_inputs lib ''Lock send proposal inputs: {error:?}'' owner (wl_input_refs lib proposal) (send_proposal_lock_expiry h) s"
  have reserved: "send_step lib held (Reserved owner) s (snd ?r)"
    using assms by (intro send_step.reserve) auto
  have final: "snd (propose_and_store_request lib propose owner network account flow s) =
    (case ?r of (Inl _, t) \<Rightarrow> t | (Inr _, t) \<Rightarrow> snd (store_proposal proposal network account flow owner t))"
    using False p by (simp add: propose_and_store_request_def require_active_session_def st_bind_def split: prod.split sum.split)
  obtain r t where r: "?r = (r, t)" by (cases ?r)
  show ?thesis
  proof (cases r)
    case Inl
    then show ?thesis using trace_one[OF reserved] final r by auto
  next
    case Inr
    have "send_trace lib held [Reserved owner, Quiet] s (snd (store_proposal proposal network account flow owner t))"
      using send_trace.step[OF reserved trace_one[OF send_step.store]] r by simp
    then show ?thesis using final r Inr by auto
  qed
qed

end
