(* ===== verification/Reservation_Props.thy ===== *)
theory Reservation_Props
  imports Send_Handlers
begin

text \<open>
  What the reservations of send proposals promise: a signed reservation outlives cancellations, restarts
  and recoveries, a recovery ends exactly the reservations that are over, a reservation is signed once,
  and a signing request that fails gives its inputs back.
\<close>

section \<open>A sample wallet library\<close>

text \<open>The wallet is the list of its locks; a proposal is the list of its inputs.\<close>

type_synonym sample_wallet = "(output_ref \<times> lock_owner) list"

definition sample_library :: "(sample_wallet, output_ref list) wallet_library" where
  "sample_library =
     \<lparr>wl_lock_outputs = (\<lambda>outs owner _ w. (Inr (), map (\<lambda>out. (out, owner)) outs @ w)),
      wl_unlock_output = (\<lambda>out owner w. (Inr (), removeAll (out, owner) w)),
      wl_unlock_proposal_inputs = (\<lambda>outs owner w. (Inr (), filter (\<lambda>(out, owner'). \<not> (out \<in> set outs \<and> owner' = owner)) w)),
      wl_target_height = (\<lambda>_. Inr (Some 100)),
      wl_input_refs = (\<lambda>outs. outs)\<rparr>"

definition sample_held :: "sample_wallet \<Rightarrow> output_ref \<Rightarrow> lock_owner \<Rightarrow> bool" where
  "sample_held w out owner \<longleftrightarrow> (out, owner) \<in> set w"

lemma sample_owner_scoped: "owner_scoped sample_library sample_held"
  by (auto simp: owner_scoped_def scoped_def sample_library_def sample_held_def)

definition sample_output :: output_ref where
  "sample_output = \<lparr>or_txid = replicate 32 7, or_pool = Ironwood_Pool, or_output_index = 1\<rparr>"

definition sample_owner :: lock_owner where
  "sample_owner = replicate 32 9"

definition sample_row :: "height \<Rightarrow> string \<Rightarrow> lock_row" where
  "sample_row expiry_height phase = (session_row [1] sample_owner sample_output expiry_height)
     \<lparr>lr_retain_until_expiry := phase \<noteq> ''session'', lr_phase := phase,
      lr_operation_id := (if phase = ''session'' then None else Some ''op'')\<rparr>"

definition sample_state :: "lock_row list \<Rightarrow> (sample_wallet, output_ref list) outbox_state" where
  "sample_state rows =
     \<lparr>ss_rows = rows, ss_wallet = map (\<lambda>r. (output_of r, lr_owner r)) rows, ss_session_id = [1], ss_shutting_down = False,
      ss_proposals = [], ss_locks = [], ss_next_id = 1, ob_operations = [], ob_active_broadcasts = []\<rparr>"

lemmas sample_defs = sample_library_def sample_held_def sample_output_def sample_owner_def sample_row_def sample_state_def
  session_row_def

lemma rows_ok_Nil: "rows_ok []"
  by (simp add: rows_ok_def uniform_def)

lemma sample_row_ok: "rows_ok [sample_row h ''signed'']" "rows_ok [sample_row h ''session'']"
  by (auto simp: sample_defs rows_ok_def uniform_def row_ok_def phase_ok_def)

section \<open>A signed reservation survives\<close>

text \<open>
  C5: A reservation whose transaction was signed or submitted survives whatever the threads of the
  process do in whatever order, across shutdowns, restarts and recoveries: from a well-formed table, the
  row stays as it is and the input stays locked for its owner, until one of four things ends it. They are
  work on behalf of its own owner, a broadcast result of its operation that is settled (broadcasted or
  expired), a terminal broadcast failure of its operation, or a recovery that sees a chain past its expiry
  height. It is assumed of the wallet library that a call for one owner leaves the locks of others alone.
\<close>

theorem durable_reservation_survives:
  assumes "owner_scoped lib held" and "send_trace lib held evs s t" and "reservations_ok s"
    and "r \<in> set (ss_rows s)" and "lr_phase r = ''signed'' \<or> lr_phase r = ''broadcast''"
    and "held (ss_wallet s) (output_of r) (lr_owner r)" and "\<forall>ev \<in> set evs. \<not> ends r ev"
  shows "r \<in> set (ss_rows t) \<and> held (ss_wallet t) (output_of r) (lr_owner r)"
proof -
  have "on_rows (kept held r) t"
    using assms by (intro trace_kept[OF assms(2,1)]) (auto simp: durable_def on_rows_def kept_def)
  then show ?thesis by (simp add: on_rows_def kept_def)
qed

definition restarted :: "byte list \<Rightarrow> ('w, 'p) outbox_state \<Rightarrow> ('w, 'p) outbox_state" where
  "restarted session s = s\<lparr>ss_session_id := session, ss_shutting_down := False, ss_proposals := [], ss_locks := [],
     ss_next_id := 1, ob_active_broadcasts := []\<rparr>"

lemma restarts: "send_step lib held Quiet s (restarted session s)"
  unfolding restarted_def by (rule send_step.restart)

text \<open>A restart and a recovery at height 100 with a signed reservation that expires at 140.\<close>

theorem durable_reservation_survives_witness:
  "sample_row 140 ''signed'' \<in> set (ss_rows (snd (recover sample_library True (restarted [2] (sample_state [sample_row 140 ''signed''])))))"
proof (rule durable_reservation_survives[OF sample_owner_scoped, THEN conjunct1])
  let ?s = "sample_state [sample_row 140 ''signed'']"
  show "send_trace sample_library sample_held [Quiet, Recovered (recovery_height sample_library True (restarted [2] ?s))] ?s
      (snd (recover sample_library True (restarted [2] ?s)))"
    by (rule send_trace.step[OF restarts[where session = "[2]"] trace_one[OF send_step.recover]])
  show "reservations_ok ?s" using sample_row_ok(1) by (simp add: sample_state_def)
qed (simp_all add: sample_defs ends_def recovery_height_def output_of_def)

section \<open>Recovery ends what is over\<close>

lemma st_each_reaches:
  assumes "\<And>x s. x \<in> set xs \<Longrightarrow> \<exists>s'. f x s = (Inr (), s') \<and> R s s' \<and> Q x s'"
    and "\<And>s. R s s" and "\<And>s t u. R s t \<Longrightarrow> R t u \<Longrightarrow> R s u" and "\<And>x s t. Q x s \<Longrightarrow> R s t \<Longrightarrow> Q x t"
  shows "\<exists>s'. st_each f xs s = (Inr (), s') \<and> R s s' \<and> (\<forall>x \<in> set xs. Q x s')"
  using assms(1)
proof (induction xs arbitrary: s)
  case Nil
  then show ?case using assms(2) by simp
next
  case (Cons x xs)
  obtain s' where s': "f x s = (Inr (), s')" "R s s'" "Q x s'" using Cons.prems[of x s] by auto
  obtain t where t: "st_each f xs s' = (Inr (), t)" "R s' t" "\<forall>y \<in> set xs. Q y t"
    using Cons.IH[of s'] Cons.prems by auto
  then show ?case using s' assms(3,4) by (fastforce simp: st_bind_def)
qed

text \<open>What unlocking keeps: the rows, the session, and every lock that is gone stays gone.\<close>

definition only_unlocks :: "('w \<Rightarrow> output_ref \<Rightarrow> lock_owner \<Rightarrow> bool) \<Rightarrow> ('w, 'p, 'z) send_state_scheme \<Rightarrow> ('w, 'p, 'z) send_state_scheme \<Rightarrow> bool" where
  "only_unlocks held s t \<longleftrightarrow> ss_rows t = ss_rows s \<and> ss_session_id t = ss_session_id s
     \<and> (\<forall>out owner. held (ss_wallet t) out owner \<longrightarrow> held (ss_wallet s) out owner)"

definition unlocks :: "('w, 'p) wallet_library \<Rightarrow> ('w \<Rightarrow> output_ref \<Rightarrow> lock_owner \<Rightarrow> bool) \<Rightarrow> bool" where
  "unlocks lib held \<longleftrightarrow> (\<forall>out owner w. fst (wl_unlock_output lib out owner w) = Inr ()
     \<and> \<not> held (snd (wl_unlock_output lib out owner w)) out owner
     \<and> (\<forall>out' owner'. held (snd (wl_unlock_output lib out owner w)) out' owner' \<longrightarrow> held w out' owner'))"

lemma only_unlocks_trans:
  "only_unlocks held s s" "only_unlocks held s t \<Longrightarrow> only_unlocks held t u \<Longrightarrow> only_unlocks held s u"
  by (auto simp: only_unlocks_def)

lemma unlock_outputs_reach:
  fixes s :: "('w, 'p, 'z) send_state_scheme"
  assumes "unlocks lib held"
  shows "\<exists>t. st_each (\<lambda>out. st_context label (on_wallet (wl_unlock_output lib out owner))) outs s = (Inr (), t)
    \<and> only_unlocks held s t \<and> (\<forall>out \<in> set outs. \<not> held (ss_wallet t) out owner)"
proof -
  have one: "\<exists>t. st_context label (on_wallet (wl_unlock_output lib out owner)) s = (Inr (), t) \<and> only_unlocks held s t
      \<and> \<not> held (ss_wallet t) out owner" for out and s :: "('w, 'p, 'z) send_state_scheme"
  proof -
    have law: "fst (wl_unlock_output lib out owner (ss_wallet s)) = Inr ()"
      "\<not> held (snd (wl_unlock_output lib out owner (ss_wallet s))) out owner"
      "\<And>out' owner'. held (snd (wl_unlock_output lib out owner (ss_wallet s))) out' owner' \<Longrightarrow> held (ss_wallet s) out' owner'"
      using assms unfolding unlocks_def by blast+
    then show ?thesis
      by (cases "wl_unlock_output lib out owner (ss_wallet s)") (auto simp: st_context_def on_wallet_def only_unlocks_def)
  qed
  show ?thesis
    by (rule st_each_reaches[where R = "only_unlocks held" and Q = "\<lambda>out t. \<not> held (ss_wallet t) out owner"])
      (use one in \<open>auto simp: only_unlocks_def\<close>)
qed

lemma unlock_orphans_reaches:
  fixes s :: "('w, 'p, 'z) send_state_scheme"
  assumes "unlocks lib held"
  shows "\<exists>t. unlock_orphans lib released s = (Inr (), t) \<and> only_unlocks held s t
    \<and> (\<forall>(owner, e, r, outs) \<in> set released. \<forall>out \<in> set outs. \<not> held (ss_wallet t) out owner)"
  unfolding unlock_orphans_def
proof (rule st_each_reaches[where R = "only_unlocks held"
      and Q = "\<lambda>x t. case x of (owner, e, r, outs) \<Rightarrow> \<forall>out \<in> set outs. \<not> held (ss_wallet t) out owner"])
  fix x and s :: "('w, 'p, 'z) send_state_scheme"
  show "\<exists>s'. (case x of (owner, _, _, outputs) \<Rightarrow> st_each (\<lambda>output. st_context ''Release orphan send proposal input: {e}''
        (on_wallet (wl_unlock_output lib output owner))) outputs) s = (Inr (), s') \<and> only_unlocks held s s'
      \<and> (case x of (owner, e, r, outs) \<Rightarrow> \<forall>out \<in> set outs. \<not> held (ss_wallet s') out owner)"
    by (cases x) (simp add: unlock_outputs_reach[OF assms])
qed (auto simp: only_unlocks_def)

lemma remove_reservations:
  "transaction (st_each remove_reservation owners) s = (Inr (), s\<lparr>ss_rows := filter (\<lambda>r. lr_owner r \<notin> set owners) (ss_rows s)\<rparr>)"
proof -
  have "st_each remove_reservation owners s = (Inr (), s\<lparr>ss_rows := filter (\<lambda>r. lr_owner r \<notin> set owners) (ss_rows s)\<rparr>)"
    by (induction owners arbitrary: s) (auto simp: st_bind_def remove_reservation_def delete_locks_def intro!: arg_cong2[where f = "\<lambda>rows s. s\<lparr>ss_rows := rows\<rparr>"] filter_cong)
  then show ?thesis by (simp add: savepoint_def)
qed

definition orphaned :: "('w, 'p, 'z) send_state_scheme \<Rightarrow> lock_row \<Rightarrow> bool" where
  "orphaned s r \<longleftrightarrow> lr_session_id r \<noteq> ss_session_id s \<or> lr_phase r = ''release''"

lemma released_iff:
  assumes "rows_ok (ss_rows s)" and "r \<in> set (ss_rows s)"
    and "released = filter (\<lambda>(_, expiry, retain, _). should_release_after_restart retain target expiry) (fold with_row (orphan_rows s) [])"
  shows "lr_owner r \<in> fst ` set released \<longleftrightarrow> orphaned s r \<and> should_release_after_restart (lr_retain_until_expiry r) target (lr_expiry_height r)"
    and "lr_owner r \<in> fst ` set released \<Longrightarrow> \<exists>e t outs. (lr_owner r, e, t, outs) \<in> set released \<and> output_of r \<in> set outs"
proof -
  let ?locks = "fold with_row (orphan_rows s) []" and ?mine = "filter (\<lambda>x. lr_owner x = lr_owner r) (orphan_rows s)"
  have lookup: "map_of ?locks (lr_owner r) = Some (e, t, outs) \<longleftrightarrow> (lr_owner r, e, t, outs) \<in> set ?locks" for e t outs
    using fold_with_row_keys[of "[]" "orphan_rows s"] by simp
  have same: "orphaned s x \<longleftrightarrow> orphaned s r" if "x \<in> set (ss_rows s)" "lr_owner x = lr_owner r" for x
    using assms(1,2) that unfolding rows_ok_def uniform_def orphaned_def by (metis prod.inject row_state_def)
  have mine: "r \<in> set ?mine" if "orphaned s r" using that assms(2) by (auto simp: orphan_rows_def orphaned_def)
  have entry: "orphaned s r \<and> e = lr_expiry_height r \<and> t = lr_retain_until_expiry r \<and> output_of r \<in> set outs"
    if "(lr_owner r, e, t, outs) \<in> set ?locks" for e t outs
  proof -
    have found: "map_of ?locks (lr_owner r) = Some (e, t, outs)" using that lookup by simp
    then have "?mine \<noteq> []" unfolding fold_with_row_lookup by auto
    then obtain x where x: "x \<in> set ?mine" by (meson list.set_sel(1))
    then have "x \<in> set (ss_rows s)" "lr_owner x = lr_owner r" "orphaned s x" by (auto simp: orphan_rows_def orphaned_def)
    then have o: "orphaned s r" using same by blast
    have "outs = map output_of ?mine" using found unfolding fold_with_row_lookup by (auto split: list.splits)
    then have "output_of r \<in> set outs" using mine[OF o] by simp
    then show ?thesis using orphan_lock_state[OF assms(1,2) that] o by simp
  qed
  have exists: "\<exists>e t outs. (lr_owner r, e, t, outs) \<in> set ?locks" if "orphaned s r"
  proof -
    have "?mine \<noteq> []" using mine[OF that] by (metis empty_iff empty_set)
    then have "\<exists>v. map_of ?locks (lr_owner r) = Some v" unfolding fold_with_row_lookup by (simp split: list.splits)
    then show ?thesis using lookup by (metis prod_cases3)
  qed
  show "lr_owner r \<in> fst ` set released \<longleftrightarrow> orphaned s r \<and> should_release_after_restart (lr_retain_until_expiry r) target (lr_expiry_height r)"
    (is "?lhs \<longleftrightarrow> ?rhs")
  proof
    assume ?lhs
    then obtain e t outs where "(lr_owner r, e, t, outs) \<in> set released" by auto
    then show ?rhs using entry[of e t outs] by (auto simp: assms(3))
  next
    assume r: ?rhs
    then obtain e t outs where e: "(lr_owner r, e, t, outs) \<in> set ?locks" using exists by blast
    then have "(lr_owner r, e, t, outs) \<in> set released" using entry[OF e] r by (simp add: assms(3))
    then show ?lhs by (metis fst_conv image_eqI)
  qed
  assume "lr_owner r \<in> fst ` set released"
  then obtain e t outs where "(lr_owner r, e, t, outs) \<in> set released" by auto
  then show "\<exists>e t outs. (lr_owner r, e, t, outs) \<in> set released \<and> output_of r \<in> set outs"
    using entry[of e t outs] by (auto simp: assms(3))
qed


text \<open>
  C10: A recovery ends exactly what is over. In every state that the threads of the process can reach
  from an empty table, when the target height can be read and the unlocking calls do their work, the
  recovery succeeds: rows of one owner never disagree, so the errors for unreadable rows do
  not occur. It removes the rows of other sessions, and those given up for release, that need not be
  retained or whose expiry height the target height has reached; their inputs are unlocked, and every
  other row stays as it is.
\<close>

theorem recovery_ends_what_is_over:
  assumes "send_trace lib held evs s t" and "ss_rows s = []" and "unlocks lib held"
    and "wl_target_height lib (ss_wallet t) = Inr target"
  shows "\<exists>u. recover_previous_process lib t = (Inr (), u)
    \<and> ss_rows u = filter (\<lambda>r. \<not> (orphaned t r \<and> should_release_after_restart (lr_retain_until_expiry r) target (lr_expiry_height r)))
        (ss_rows t)
    \<and> (\<forall>r. r \<in> set (ss_rows t) \<and> r \<notin> set (ss_rows u) \<longrightarrow> \<not> held (ss_wallet u) (output_of r) (lr_owner r))"
proof -
  have ok: "reservations_ok t" using trace_well_formed[OF assms(1)] assms(2) by (simp add: rows_ok_Nil)
  define released where "released = filter (\<lambda>(_, expiry, retain, _). should_release_after_restart retain target expiry) (fold with_row (orphan_rows t) [])"
  note released = released_iff[OF ok _ released_def]
  obtain v where v: "unlock_orphans lib released t = (Inr (), v)" "only_unlocks held t v"
      "\<forall>(owner, e, r, outs) \<in> set released. \<forall>out \<in> set outs. \<not> held (ss_wallet v) out owner"
    using unlock_orphans_reaches[OF assms(3)] by blast
  define u where "u = v\<lparr>ss_rows := filter (\<lambda>r. lr_owner r \<notin> fst ` set released) (ss_rows t)\<rparr>"
  have run: "st_bind (unlock_orphans lib released) (\<lambda>_. transaction (st_each remove_reservation (map fst released))) t = (Inr (), u)"
    using v(1,2) by (simp add: st_bind_def remove_reservations u_def only_unlocks_def)
  have "recover_previous_process lib t = (if fold with_row (orphan_rows t) [] = [] then (Inr (), t) else (Inr (), u))"
    using read_previous_session_locks_ok[OF ok] assms(4) run
    by (simp add: recover_previous_process_def recover_def st_bind_def st_context_def Let_def released_def)
  moreover have "u = v \<and> v = t" if "fold with_row (orphan_rows t) [] = []"
    using that v(1,2) by (simp add: released_def u_def unlock_orphans_def only_unlocks_def)
  ultimately have "recover_previous_process lib t = (Inr (), u)" by (metis (full_types))
  moreover have rows: "ss_rows u = filter (\<lambda>r. \<not> (orphaned t r \<and> should_release_after_restart (lr_retain_until_expiry r) target (lr_expiry_height r))) (ss_rows t)"
    unfolding u_def using released(1) by (simp cong: filter_cong)
  moreover have "\<not> held (ss_wallet u) (output_of r) (lr_owner r)" if r: "r \<in> set (ss_rows t)" "r \<notin> set (ss_rows u)" for r
  proof -
    have "lr_owner r \<in> fst ` set released" using r by (simp add: u_def)
    then obtain e rt outs where "(lr_owner r, e, rt, outs) \<in> set released" "output_of r \<in> set outs"
      using released(2)[OF r(1)] by blast
    then show ?thesis using v(3) by (fastforce simp: u_def)
  qed
  ultimately show ?thesis by blast
qed

text \<open>A request that was left behind by an earlier process is given up by the next one.\<close>

lemma sample_unlocks: "unlocks sample_library sample_held"
  by (simp add: unlocks_def sample_library_def sample_held_def)

theorem recovery_ends_what_is_over_witness:
  "\<exists>(t :: (sample_wallet, output_ref list) outbox_state) u. recover_previous_process sample_library t = (Inr (), u) \<and> ss_rows t \<noteq> [] \<and> ss_rows u = []"
proof -
  define r where "r = reserve_inputs sample_library [] sample_owner [sample_output] 140 (sample_state [])"
  define t where "t = restarted [2] (snd r)"
  have trace: "send_trace sample_library sample_held [Reserved sample_owner, Quiet] (sample_state []) t"
    unfolding t_def r_def
    by (rule send_trace.step[OF send_step.reserve trace_one[OF restarts]]) (simp_all add: sample_defs fresh_owner_def output_ok_def)
  have t: "ss_rows t = [sample_row 140 ''session'']" "ss_session_id t = [2]"
    by (simp_all add: t_def r_def reserve_inputs_def persist_def st_bind_def st_or_else_def on_wallet_def insert_or_replace_def
        restarted_def sample_defs)
  have height: "wl_target_height sample_library (ss_wallet t) = Inr (Some 100)" by (simp add: sample_library_def)
  obtain u where u: "recover_previous_process sample_library t = (Inr (), u)"
    "ss_rows u = filter (\<lambda>r. \<not> (orphaned t r \<and> should_release_after_restart (lr_retain_until_expiry r) (Some 100) (lr_expiry_height r))) (ss_rows t)"
    using recovery_ends_what_is_over[OF trace _ sample_unlocks height] by (auto simp: sample_state_def)
  have "orphaned t (sample_row 140 ''session'') \<and> \<not> lr_retain_until_expiry (sample_row 140 ''session'')"
    by (simp add: orphaned_def t(2) sample_row_def session_row_def)
  then have "ss_rows u = []" using u(2) by (simp add: t(1) should_release_after_restart_def)
  then show ?thesis using u(1) t(1) by (intro exI[of _ t] exI[of _ u]) simp
qed

section \<open>Cancelling spares what was signed\<close>

lemma unlock_abandoned_keeps:
  "owner_scoped lib held \<Longrightarrow> durable r \<Longrightarrow> keeps (on_rows (kept held r)) (unlock_stored_proposal_locked lib i flow False)"
  using unlock_kept[where allow_durable = False] by (fastforce simp: keeps_def)

lemma interleave_keeps: "(\<And>u. P u \<Longrightarrow> P (others u)) \<Longrightarrow> keeps P (interleave others)"
  by (simp add: keeps_def interleave_def)

lemma shutdown_loop_keeps:
  "owner_scoped lib held \<Longrightarrow> durable r \<Longrightarrow> on_rows (kept held r) s \<Longrightarrow> on_rows (kept held r) (snd (shutdown_loop lib started locks s))"
proof (induction lib started locks s rule: shutdown_loop.induct)
  case (3 lib started i lock locks s)
  obtain x t where t: "unlock_stored_proposal_locked lib i (spl_send_flow_id lock) False s = (x, t)" by fastforce
  then have "on_rows (kept held r) t"
    using keeps_step[OF unlock_abandoned_keeps[OF 3(3,4)] 3(5), of i "spl_send_flow_id lock"] by simp
  then show ?case
    using 3(1)[OF t[symmetric]] 3(2)[OF t[symmetric]] 3(3,4) t by (cases x; cases "shutdown_loop lib started locks t") auto
qed simp_all

text \<open>
  C14: Cancelling spares what was signed. Discarding a proposal and cleaning up at shutdown leave a
  reservation alone that is signed or submitted when the code comes to let go of the inputs, even when
  it was signed while the cancellation was already on its way: the row stays as it is and its input stays
  locked. Meanwhile the other threads may do anything that keeps the row, and a call of the wallet library
  for one owner is assumed to leave the locks of others alone.
\<close>

theorem cancelling_spares_the_signed:
  assumes "owner_scoped lib held" and "lr_phase r = ''signed'' \<or> lr_phase r = ''broadcast''"
    and "discard_begin i flow s = (Inr found, t)" and "on_rows (kept held r) (others 0 t)"
    and "\<forall>u. on_rows (kept held r) u \<longrightarrow> on_rows (kept held r) (others 1 u)"
    and "on_rows (kept held r) v"
  shows "on_rows (kept held r) (snd (discard_stored_proposal lib others i flow s))
    \<and> on_rows (kept held r) (snd (shutdown_signing_reservations lib write_lock v))"
proof
  have d: "durable r" using assms(2) by (simp add: durable_def)
  have "keeps (on_rows (kept held r)) (finish_stored_proposal_inner lib (others 1) i flow True False)"
    unfolding finish_stored_proposal_inner_def using assms(5) unlock_abandoned_keeps[OF assms(1) d]
    by (intro keeps_bind keeps_option keeps_if interleave_keeps) auto
  from keeps_step[OF this assms(4)] show "on_rows (kept held r) (snd (discard_stored_proposal lib others i flow s))"
    using assms(4) by (simp add: discard_stored_proposal_def st_bind_def assms(3) interleave_def)
  have "keeps (on_rows (kept held r)) (shutdown_signing_reservations lib write_lock)"
    unfolding shutdown_signing_reservations_def using shutdown_loop_keeps[OF assms(1) d]
    by (intro keeps_bind keeps_option keeps_if keeps_memory) (auto simp: keeps_def)
  from keeps_step[OF this assms(6)] show "on_rows (kept held r) (snd (shutdown_signing_reservations lib write_lock v))" .
qed

definition sample_lock :: "output_ref list stored_lock" where
  "sample_lock = \<lparr>spl_proposal = [sample_output], spl_network = Net_Main, spl_owner = sample_owner, spl_send_flow_id = ''flow''\<rparr>"

definition sample_request :: "lock_row list \<Rightarrow> (sample_wallet, output_ref list) outbox_state" where
  "sample_request rows = (sample_state rows)\<lparr>ss_locks := [(1, sample_lock)],
     ss_proposals := [(1, \<lparr>sp_proposal = [sample_output], sp_network = Net_Main, sp_account_id = ''account'', sp_send_flow_id = ''flow''\<rparr>)]\<rparr>"

lemmas sample_request_defs = sample_defs sample_request_def sample_lock_def

text \<open>The device signs between the two sections of the cancellation.\<close>

lemma sample_kept: "on_rows (kept sample_held (sample_row 140 ''signed'')) (sample_request [sample_row 140 ''signed''])"
  using sample_row_ok(1) by (simp add: on_rows_def kept_def sample_request_def) (simp add: sample_defs)

theorem cancelling_spares_the_signed_witness:
  "sample_row 140 ''signed'' \<in> set (ss_rows (snd (discard_stored_proposal sample_library
     (\<lambda>n u. if n = 0 then snd (checkpoint_owner sample_owner ''op'' u) else u) 1 ''flow'' (sample_request [sample_row 140 ''session'']))))"
proof -
  let ?others = "\<lambda>n u. if n = (0 :: nat) then snd (checkpoint_owner sample_owner ''op'' u) else u"
  let ?s = "sample_request [sample_row 140 ''session'']"
  have first: "discard_begin 1 ''flow'' ?s = (Inr True, ?s\<lparr>ss_proposals := []\<rparr>)"
    by (simp add: discard_begin_def st_bind_def forget_proposal_def sample_request_def)
  have "on_rows (kept sample_held (sample_row 140 ''signed'')) (?others 0 (?s\<lparr>ss_proposals := []\<rparr>))"
    using sample_row_ok(1)
    by (simp add: on_rows_def kept_def checkpoint_owner_rows, simp add: sample_request_defs output_of_def)
  then show ?thesis
    using cancelling_spares_the_signed[where others = ?others and write_lock = None, OF sample_owner_scoped _ first _ _ sample_kept]
    by (simp add: sample_row_def on_rows_def kept_def)
qed

section \<open>A reservation is signed once\<close>

definition handed_over :: "lock_owner \<Rightarrow> lock_row list \<Rightarrow> 'w \<Rightarrow> bool" where
  "handed_over owner rows w \<longleftrightarrow> (\<forall>r \<in> set rows. lr_owner r = owner \<longrightarrow> lr_phase r \<noteq> ''session'')"

lemma handed_over_update:
  "(\<And>r. lr_owner (f r) = lr_owner r) \<Longrightarrow> (\<And>r. lr_phase r \<noteq> ''session'' \<Longrightarrow> lr_phase (f r) \<noteq> ''session'')
    \<Longrightarrow> keeps (on_rows (handed_over owner)) (update_locks P f)"
  by (auto simp: keeps_def on_rows_def handed_over_def update_locks_def)

lemma handed_over_keeps:
  "keeps (on_rows (handed_over owner)) (mark_retain_until_expiry other)"
  "keeps (on_rows (handed_over owner)) (checkpoint_owner other operation_id)"
  "keeps (on_rows (handed_over owner)) (release_operation operation_id)"
  "keeps (on_rows (handed_over owner)) (remove_reservation other)"
  "keeps (on_rows (handed_over owner)) (update_expiry other h)"
  "keeps (on_rows (handed_over owner)) (on_wallet m)"
  unfolding mark_retain_until_expiry_def checkpoint_owner_def require_active_session_def release_operation_def update_expiry_def
  by (auto intro!: keeps_bind handed_over_update keeps_if split: if_splits)
    (auto simp: keeps_def on_rows_def handed_over_def remove_reservation_row)

lemma handed_over_unlock: "keeps (on_rows (handed_over owner)) (unlock_stored_proposal_locked lib i flow allow_durable)"
  unfolding unlock_stored_proposal_locked_def by (intro keeps_bind keeps_option keeps_if keeps_context handed_over_keeps) auto

lemma handed_over_retake: "keeps (on_rows (handed_over owner)) (retake_inputs lib label proposal other h)"
  unfolding retake_inputs_def by (intro keeps_bind keeps_context handed_over_keeps)

lemma handed_over_recover: "keeps (on_rows (handed_over owner)) (recover lib check_expiry)"
  unfolding recover_def unlock_orphans_def Let_def
  by (intro keeps_bind keeps_if keeps_context keeps_savepoint keeps_each handed_over_keeps)
    (auto intro!: keeps_each keeps_context handed_over_keeps)

lemma handed_over_reserve:
  assumes "other \<noteq> owner" and "on_rows (handed_over owner) s"
  shows "on_rows (handed_over owner) (snd (reserve_inputs lib label other outs h (s :: ('w, 'p, 'z) send_state_scheme)))"
proof -
  have one: "handed_over owner (insert_or_replace (session_row session other out h) rows) w"
    if "handed_over owner rows w" for session out rows and w :: 'w
    using that assms(1) by (auto simp: insert_or_replace_def handed_over_def session_row_def)
  have "handed_over owner (fold (\<lambda>out. insert_or_replace (session_row session other out h)) outs rows) w"
    if "handed_over owner rows w" for session rows and w :: 'w
    using that by (induction outs arbitrary: rows) (simp_all add: one)
  then have "on_rows (handed_over owner) (snd (persist other outs h s))"
    using assms(2) by (simp add: on_rows_def persist_def)
  moreover have "keeps (on_rows (handed_over owner)) (st_or_else (on_wallet (wl_lock_outputs lib outs other h))
      (\<lambda>e. st_bind (remove_reservation other) (\<lambda>_. st_fail (Message label [AMsg e]))) :: (('w, 'p, 'z) send_state_scheme, unit) store_op)"
    by (intro keeps_or_else keeps_bind handed_over_keeps keeps_basic)
  ultimately show ?thesis by (simp add: keeps_def reserve_inputs_def st_bind_def persist_def)
qed

lemma handed_over_step:
  assumes "send_step lib held ev s t" and "ev \<noteq> Reserved owner" and "on_rows (handed_over owner) s"
  shows "on_rows (handed_over owner) t"
  using assms(1)
proof cases
  case (reserve other outs label h)
  then show ?thesis using assms handed_over_reserve by blast
qed (use assms(3) keeps_step[OF handed_over_unlock assms(3)] keeps_step[OF handed_over_retake assms(3)]
       keeps_step[OF handed_over_recover assms(3)] keeps_step[OF handed_over_keeps(1) assms(3)] keeps_step[OF handed_over_keeps(4) assms(3)]
       keeps_step[OF handed_over_keeps(6) assms(3)] keeps_step[OF keeps_retain[OF handed_over_keeps(1)] assms(3)]
       keeps_step[OF keeps_started[OF handed_over_keeps(1)] assms(3)] keeps_step[OF keeps_record_checkpoint[OF handed_over_keeps(2)] assms(3)]
       keeps_step[OF keeps_outcome[OF handed_over_keeps(3)] assms(3)] keeps_step[OF keeps_failure[OF handed_over_keeps(3)] assms(3)]
       keeps_step[OF keeps_consume assms(3)] keeps_step[OF keeps_discard assms(3)] keeps_step[OF keeps_memory(1) assms(3)]
       keeps_step[OF keeps_memory(3) assms(3)] keeps_step[OF keeps_memory(4) assms(3)]
       keeps_step[OF keeps_acknowledge assms(3)] keeps_step[OF keeps_delete_account assms(3)] in simp_all)

lemma handed_over_trace:
  "send_trace lib held evs s t \<Longrightarrow> Reserved owner \<notin> set evs \<Longrightarrow> on_rows (handed_over owner) s \<Longrightarrow> on_rows (handed_over owner) t"
  by (induction rule: send_trace.induct) (auto intro: handed_over_step)

text \<open>Handing over an owner needs a row in the phase of the session, and leaves none.\<close>

lemma checkpoint_owner_hands_over:
  assumes "reservations_ok s" and "checkpoint_owner owner operation_id s = (Inr (), t)"
  shows "on_rows (handed_over owner) t"
proof -
  from assms(2) obtain r where r: "r \<in> set (ss_rows s)" "lr_owner r = owner" "lr_session_id r = ss_session_id s" "lr_phase r = ''session''"
    and active: "\<not> ss_shutting_down s"
    by (auto simp: checkpoint_owner_def require_active_session_def st_bind_def update_locks_def filter_empty_conv split: if_splits)
  have all: "lr_session_id x = ss_session_id s \<and> lr_phase x = ''session''" if "x \<in> set (ss_rows s)" "lr_owner x = owner" for x
    using assms(1) that r unfolding rows_ok_def uniform_def by (metis prod.inject row_state_def)
  have t: "ss_rows t = map (\<lambda>r. if lr_owner r = owner \<and> lr_session_id r = ss_session_id s \<and> lr_phase r = ''session''
       then r\<lparr>lr_retain_until_expiry := True, lr_phase := ''signed'', lr_operation_id := Some operation_id\<rparr> else r) (ss_rows s)"
    using checkpoint_owner_rows(1)[of owner operation_id s] active by (simp only: assms(2) snd_conv if_False)
  show ?thesis
    unfolding on_rows_def handed_over_def t
  proof (intro ballI impI)
    fix y assume "y \<in> set (map (\<lambda>r. if lr_owner r = owner \<and> lr_session_id r = ss_session_id s \<and> lr_phase r = ''session''
       then r\<lparr>lr_retain_until_expiry := True, lr_phase := ''signed'', lr_operation_id := Some operation_id\<rparr> else r) (ss_rows s))"
      and y: "lr_owner y = owner"
    then obtain x where x: "x \<in> set (ss_rows s)"
      "y = (if lr_owner x = owner \<and> lr_session_id x = ss_session_id s \<and> lr_phase x = ''session''
        then x\<lparr>lr_retain_until_expiry := True, lr_phase := ''signed'', lr_operation_id := Some operation_id\<rparr> else x)"
      unfolding set_map image_iff by blast
    then have "lr_owner x = owner" using y by (simp split: if_splits)
    then show "lr_phase y \<noteq> ''session''" using all[OF x(1)] x(2) by simp
  qed
qed

lemma checkpoint_owner_refuses:
  assumes "on_rows (handed_over owner) s"
  shows "\<exists>e. fst (checkpoint_owner owner operation_id s) = Inl e"
proof -
  have none: "filter (\<lambda>r. lr_owner r = owner \<and> lr_session_id r = session \<and> lr_phase r = ''session'') (ss_rows s) = []" for session
    using assms by (auto simp: on_rows_def handed_over_def filter_empty_conv)
  show ?thesis by (simp add: checkpoint_owner_def require_active_session_def st_bind_def update_locks_def none)
qed

lemma checkpoint_owners_hand_over:
  assumes "checkpoint_owners px operation_id owners pczts s = (Inr (), t)" and "reservations_ok s"
    and "\<forall>owner \<in> set owners. on_rows (handed_over owner) s" and "owner \<in> set owners \<or> (\<exists>pczt \<in> set pczts. pczt_owner px pczt = Inr (Some owner))"
  shows "on_rows (handed_over owner) t"
  using assms
proof (induction px operation_id owners pczts arbitrary: s rule: checkpoint_owners.induct)
  case (2 px operation_id owners pczt pczts)
  obtain named where named: "pczt_owner px pczt = Inr named"
    using 2(4) by (auto simp: st_bind_def split: sum.splits)
  show ?case
  proof (cases "named = None \<or> (\<exists>x. named = Some x \<and> x \<in> set owners)")
    case True
    then have "checkpoint_owners px operation_id owners pczts s = (Inr (), t)" using 2(4) named by (auto simp: st_bind_def)
    then show ?thesis using True 2(1,2) 2(5-7) named by auto
  next
    case False
    then obtain x where x: "named = Some x" "x \<notin> set owners" by auto
    obtain u where u: "checkpoint_owner x operation_id s = (Inr (), u)" "checkpoint_owners px operation_id (x # owners) pczts u = (Inr (), t)"
      using 2(4) x named by (auto simp: st_bind_Inr)
    have "reservations_ok u" using keeps_step[OF checkpoint_owner_keeps 2(5), of x operation_id] u(1) by simp
    moreover have "\<forall>o' \<in> set (x # owners). on_rows (handed_over o') u"
      using checkpoint_owner_hands_over[OF 2(5) u(1)] 2(6) keeps_step[OF handed_over_keeps(2), of _ s x operation_id] u(1) by simp
    ultimately show ?thesis using 2(3)[OF x(2) u(2)] 2(7) named x by auto
  qed
qed auto

lemma checkpoint_owners_refuse:
  assumes "on_rows (handed_over owner) s" and "owner \<notin> set owners" and "\<exists>pczt \<in> set pczts. pczt_owner px pczt = Inr (Some owner)"
  shows "\<exists>e. fst (checkpoint_owners px operation_id owners pczts s) = Inl e"
  using assms
proof (induction px operation_id owners pczts arbitrary: s rule: checkpoint_owners.induct)
  case (2 px operation_id owners pczt pczts)
  show ?case
  proof (cases "pczt_owner px pczt")
    case Inl
    then show ?thesis by (simp add: st_bind_def)
  next
    case (Inr named)
    show ?thesis
    proof (cases "named = None \<or> (\<exists>x. named = Some x \<and> x \<in> set owners)")
      case True
      then have "\<exists>p \<in> set pczts. pczt_owner px p = Inr (Some owner)" using 2(5,6) Inr by auto
      then have "\<exists>e. fst (checkpoint_owners px operation_id owners pczts s) = Inl e" using True 2(1,2,4,5) by auto
      then show ?thesis using True Inr by (auto simp: st_bind_def)
    next
      case False
      then obtain x where x: "named = Some x" "x \<notin> set owners" by auto
      show ?thesis
      proof (cases "checkpoint_owner x operation_id s")
        case (Pair res u)
        show ?thesis
        proof (cases res)
          case Inl
          then show ?thesis using Pair Inr x by (simp add: st_bind_def)
        next
          case ok: (Inr y)
          then have "x \<noteq> owner" using checkpoint_owner_refuses[OF 2(4), of operation_id] Pair by auto
          moreover have "on_rows (handed_over owner) u" using keeps_step[OF handed_over_keeps(2) 2(4), of x operation_id] Pair by simp
          ultimately show ?thesis using 2(3)[OF x(2)] 2(5,6) Inr x Pair ok by (auto simp: st_bind_def)
        qed
      qed
    qed
  qed
qed auto

definition new_row :: "operation_row \<Rightarrow> ('w, 'p) outbox_state \<Rightarrow> bool" where
  "new_row row s \<longleftrightarrow> (\<forall>r \<in> set (ob_operations s). operation_key r \<noteq> operation_key row)"

lemma insert_new_row: "new_row row s \<Longrightarrow> insert_operation row s = (Inr 1, s\<lparr>ob_operations := ob_operations s @ [row]\<rparr>)"
  by (auto simp: insert_operation_def new_row_def)

text \<open>
  C4: A reservation is signed once. After a new signed operation was recorded whose PCZTs name a
  reservation, no further new operation that names it can be recorded, whatever the threads of the
  process do in between and across restarts, until the owner is reserved anew: the attempt fails and
  leaves the outbox and the reservations as they were. So one reservation is never handed over to two
  recorded operations.
\<close>

theorem reservation_is_signed_once:
  assumes "reservations_ok s" and "record_checkpoint px row pczts s = (Inr metadata, t)" and "new_row row s"
    and "\<exists>pczt \<in> set pczts. pczt_owner px pczt = Inr (Some owner)"
    and "send_trace lib held evs t u" and "Reserved owner \<notin> set evs"
    and "new_row row' u" and "\<exists>pczt \<in> set pczts'. pczt_owner px pczt = Inr (Some owner)"
  shows "\<exists>e. record_checkpoint px row' pczts' u = (Inl e, u)"
proof -
  have "checkpoint_owners px (op_operation_id row) [] pczts (s\<lparr>ob_operations := ob_operations s @ [row]\<rparr>) = (Inr (), t)"
    using assms(2) insert_new_row[OF assms(3)]
    by (auto simp: record_checkpoint_def savepoint_Inr st_bind_Inr require_active_session_def split: if_splits)
  then have "on_rows (handed_over owner) t"
    by (rule checkpoint_owners_hand_over) (use assms(1,4) in auto)
  then have u: "on_rows (handed_over owner) (u\<lparr>ob_operations := ob_operations u @ [row']\<rparr>)"
    using handed_over_trace[OF assms(5,6)] by simp
  obtain e v where "checkpoint_owners px (op_operation_id row') [] pczts' (u\<lparr>ob_operations := ob_operations u @ [row']\<rparr>) = (Inl e, v)"
    using checkpoint_owners_refuse[OF u _ assms(8), of "[]" "op_operation_id row'"]
    by (cases "checkpoint_owners px (op_operation_id row') [] pczts' (u\<lparr>ob_operations := ob_operations u @ [row']\<rparr>)") auto
  then show ?thesis
    using insert_new_row[OF assms(7)]
    by (auto simp: record_checkpoint_def require_active_session_def savepoint_def st_bind_def)
qed

text \<open>Every PCZT names the sample owner and expires at 140.\<close>

definition sample_pczts :: pczt_library where
  "sample_pczts = \<lparr>px_expiry_height = (\<lambda>_. Inr 140), px_owner_entry = (\<lambda>_. Inr (Some sample_owner)), px_validate_signed_pczts = (\<lambda>_ _. Inr ())\<rparr>"

definition sample_operation :: "string \<Rightarrow> operation_row" where
  "sample_operation operation_id = new_operation ''main'' operation_id ''account'' ''send'' None [] [] (Some 140) 0"

lemma sample_records:
  "\<exists>metadata t. record_checkpoint sample_pczts (sample_operation ''op'') [[1]] (sample_state [sample_row 140 ''session'']) = (Inr metadata, t)
     \<and> ob_operations t = [sample_operation ''op'']"
  by (simp add: record_checkpoint_def require_active_session_def st_bind_def savepoint_def insert_operation_def sample_state_def
      pczt_owner_def sample_pczts_def sample_owner_def checkpoint_owner_def update_locks_def sample_row_def session_row_def
      load_metadata_def find_operation_def operation_key_def sample_operation_def new_operation_def ok_or_def)

theorem reservation_is_signed_once_witness:
  "\<exists>(u :: (sample_wallet, output_ref list) outbox_state) e.
     ob_operations u = [sample_operation ''op'']
     \<and> record_checkpoint sample_pczts (sample_operation ''again'') [[1]] u = (Inl e, u)"
proof -
  obtain metadata t where t: "record_checkpoint sample_pczts (sample_operation ''op'') [[1]] (sample_state [sample_row 140 ''session'']) = (Inr metadata, t)"
    "ob_operations t = [sample_operation ''op'']"
    using sample_records by blast
  have names: "\<exists>pczt \<in> set [[1]]. pczt_owner sample_pczts pczt = Inr (Some sample_owner)"
    by (simp add: pczt_owner_def sample_pczts_def sample_owner_def)
  let ?u = "restarted [2] t"
  have rows: "ob_operations ?u = [sample_operation ''op'']" by (simp add: restarted_def t(2))
  have "\<exists>e. record_checkpoint sample_pczts (sample_operation ''again'') [[1]] ?u = (Inl e, ?u)"
    by (rule reservation_is_signed_once[OF _ t(1) _ names trace_one[OF restarts[of sample_library sample_held t "[2]"]] _ _ names])
      (use sample_row_ok(2) in \<open>simp_all add: sample_state_def new_row_def rows sample_operation_def new_operation_def operation_key_def\<close>)
  then show ?thesis using rows by blast
qed

section \<open>A signing request keeps its reservation or gives it back\<close>

text \<open>Everything but the rows of the owner, which are only renewed, while the request is built.\<close>

definition requesting :: "nat \<Rightarrow> 'p stored_lock \<Rightarrow> lock_row list \<Rightarrow> ('w, 'p, 'z) send_state_scheme \<Rightarrow> bool" where
  "requesting i lock others s \<longleftrightarrow> find_lock i s = Some lock \<and> map_of (ss_proposals s) i = None
     \<and> filter (\<lambda>r. lr_owner r \<noteq> spl_owner lock) (ss_rows s) = others"

lemma requesting_wallet: "keeps (requesting i lock others) (on_wallet m)"
  by (auto simp: keeps_def requesting_def on_wallet_def find_lock_def split: prod.split)

lemma requesting_expiry: "keeps (requesting i lock others) (update_expiry (spl_owner lock) h)"
proof -
  have "filter (\<lambda>r. lr_owner r \<noteq> owner) (map (\<lambda>r. if lr_owner r = owner then r\<lparr>lr_expiry_height := h\<rparr> else r) rows)
    = filter (\<lambda>r. lr_owner r \<noteq> owner) rows" for owner and rows :: "lock_row list"
    by (induction rows) simp_all
  then have "keeps (requesting i lock others) (update_locks (\<lambda>r. lr_owner r = spl_owner lock) (\<lambda>r. r\<lparr>lr_expiry_height := h\<rparr>))"
    by (simp add: keeps_def requesting_def update_locks_def find_lock_def)
  then show ?thesis unfolding update_expiry_def by (intro keeps_bind keeps_if) auto
qed

lemma requesting_request:
  assumes "requesting i lock others s" and "spl_send_flow_id lock = flow"
  shows "requesting i lock others (snd (create_signing_request lib create bind_pczt i flow proposal lock h s))"
proof -
  have "keeps (requesting i lock others) (st_bind (retake_inputs lib label proposal (spl_owner lock) h) (\<lambda>_.
      st_bind (st_context label' (on_wallet (create proposal h))) (\<lambda>pczt. st_return (bind_pczt (spl_owner lock) pczt))))" for label label'
    unfolding retake_inputs_def by (intro keeps_bind keeps_context requesting_wallet requesting_expiry) auto
  from keeps_step[OF this assms(1)] show ?thesis
    using assms by (simp add: create_signing_request_def stored_proposal_lock_def require_active_session_def st_bind_def
        requesting_def same_reservation_def)
qed

text \<open>
  A signing request for a hardware wallet keeps its reservation or gives it back. When building the
  request from a stored proposal fails at any point (a foreign network, an unreadable or passed chain
  tip, inputs that cannot be locked again, a PCZT that cannot be made), the rows of the proposal's owner
  are gone, its lock is forgotten and its inputs are unlocked, while the reservations of all others are
  as before. When it succeeds, the lock is kept for the signature to come. Either way the proposal is
  used up, so that it cannot be executed again.
\<close>

theorem signing_request_keeps_or_gives_back:
  assumes "map_of (ss_proposals s) i = Some stored" and "sp_send_flow_id stored = flow"
    and "find_lock i s = Some lock" and "spl_send_flow_id lock = flow" and "\<not> ss_shutting_down s"
    and "\<And>w. fst (wl_unlock_proposal_inputs lib (spl_proposal lock) (spl_owner lock) w) = Inr ()"
    and "\<And>w out. out \<in> set (wl_input_refs lib (spl_proposal lock)) \<Longrightarrow>
      \<not> held (snd (wl_unlock_proposal_inputs lib (spl_proposal lock) (spl_owner lock) w)) out (spl_owner lock)"
    and "create_pczt_from_proposal lib (\<lambda>_ u. u) min_target_height observed_tip create bind_pczt network i flow s = (result, t)"
  shows "map_of (ss_proposals t) i = None
    \<and> filter (\<lambda>r. lr_owner r \<noteq> spl_owner lock) (ss_rows t) = filter (\<lambda>r. lr_owner r \<noteq> spl_owner lock) (ss_rows s)
    \<and> (case result of
        Inr _ \<Rightarrow> find_lock i t = Some lock
      | Inl _ \<Rightarrow> find_lock i t = None \<and> (\<forall>r \<in> set (ss_rows t). lr_owner r \<noteq> spl_owner lock)
          \<and> (\<forall>out \<in> set (wl_input_refs lib (spl_proposal lock)). \<not> held (ss_wallet t) out (spl_owner lock)))"
proof -
  let ?others = "filter (\<lambda>r. lr_owner r \<noteq> spl_owner lock) (ss_rows s)"
  let ?s = "s\<lparr>ss_proposals := AList.delete i (ss_proposals s)\<rparr>"
  let ?inner = "st_bind (stored_proposal_lock i flow) (\<lambda>proposal_lock.
       if spl_network proposal_lock \<noteq> network
       then st_fail (Msg ''Proposal belongs to a different wallet database or network'')
       else
         st_bind (st_lift (live_send_expiry_height observed_tip (min_target_height (sp_proposal stored)))) (\<lambda>live_expiry_height.
         st_bind (interleave (\<lambda>u. u)) (\<lambda>_.
         create_signing_request lib create bind_pczt i flow (sp_proposal stored) proposal_lock live_expiry_height)))"
  have consumed: "consume_stored_proposal i flow not_found s = (Inr stored, ?s)" for not_found
    using assms(1,2,5) by (simp add: consume_stored_proposal_def require_active_session_def st_bind_def forget_proposal_def)
  have start: "requesting i lock ?others ?s"
    using assms(3) by (simp add: requesting_def find_lock_def delete_conv')
  obtain r u where u: "?inner ?s = (r, u)" by fastforce
  have lock: "stored_proposal_lock i flow ?s = (Inr lock, ?s)"
    using start assms(4,5) by (simp add: stored_proposal_lock_def require_active_session_def st_bind_def requesting_def)
  have "requesting i lock ?others (snd (?inner ?s))"
    using start requesting_request[OF start assms(4), of lib create bind_pczt]
    by (simp add: st_bind_def lock interleave_def split: sum.split)
  then have u_ok: "requesting i lock ?others u" by (simp add: u)
  have run: "create_pczt_from_proposal lib (\<lambda>_ u. u) min_target_height observed_tip create bind_pczt network i flow s
      = st_or_else ?inner (release_pczt_proposal_after_failure lib (\<lambda>u. u) i flow) ?s"
    by (simp add: create_pczt_from_proposal_def st_bind_def consumed interleave_def)
  show ?thesis
  proof (cases r)
    case (Inr bytes)
    then have "(result, t) = (Inr bytes, u)" using assms(8) run u by (simp add: st_or_else_def)
    then show ?thesis using u_ok by (simp add: requesting_def)
  next
    case (Inl e)
    obtain w where w: "wl_unlock_proposal_inputs lib (spl_proposal lock) (spl_owner lock) (ss_wallet u) = (Inr (), w)"
      using assms(6)[of "ss_wallet u"] by (cases "wl_unlock_proposal_inputs lib (spl_proposal lock) (spl_owner lock) (ss_wallet u)") auto
    let ?t = "u\<lparr>ss_wallet := w, ss_rows := ?others, ss_locks := AList.delete i (ss_locks u)\<rparr>"
    have "release_pczt_proposal_after_failure lib (\<lambda>u. u) i flow e u = (Inl e :: byte list outcome, ?t)"
      using u_ok assms(4) w
      by (simp add: release_pczt_proposal_after_failure_def finish_stored_proposal_def finish_stored_proposal_inner_def requesting_def
          unlock_stored_proposal_locked_def st_bind_def st_or_else_def st_context_def on_wallet_def interleave_def
          remove_reservation_def delete_locks_def forget_lock_def find_lock_def)
    then have "(result, t) = (Inl e, ?t)" using assms(8) run u Inl by (simp add: st_or_else_def)
    moreover have "\<not> held w out (spl_owner lock)" if "out \<in> set (wl_input_refs lib (spl_proposal lock))" for out
      using assms(7)[OF that, of "ss_wallet u"] w by simp
    ultimately show ?thesis using u_ok by (auto simp: requesting_def find_lock_def delete_conv')
  qed
qed

text \<open>The chain has passed the proposal: its reservation is given back.\<close>

theorem signing_request_keeps_or_gives_back_witness:
  "\<exists>e t. create_pczt_from_proposal sample_library (\<lambda>_ u. u) (\<lambda>_. 100) (Inr 200) (\<lambda>_ _ w. (Inr (), w)) (\<lambda>_ _. [])
      Net_Main 1 ''flow'' (sample_request [sample_row 140 ''session'']) = (Inl e, t) \<and> ss_rows t = [] \<and> find_lock 1 t = None"
proof -
  let ?run = "create_pczt_from_proposal sample_library (\<lambda>_ u. u) (\<lambda>_. 100) (Inr 200) (\<lambda>_ _ w. (Inr (), w)) (\<lambda>_ _. [])
      Net_Main 1 ''flow'' (sample_request [sample_row 140 ''session''])"
  obtain result t where run: "?run = (result, t)" by fastforce
  have failed: "\<exists>e. fst ?run = Inl e"
    by (simp add: create_pczt_from_proposal_def consume_stored_proposal_def require_active_session_def st_bind_def st_or_else_def
        interleave_def stored_proposal_lock_def live_send_expiry_height_def send_expiry_height_for_live_tip_def checked_add_def
        send_proposal_lock_expiry_def SEND_PROPOSAL_LOCK_BLOCKS_def release_pczt_proposal_after_failure_def find_lock_def
        forget_proposal_def ok_or_def sample_request_defs split: sum.split prod.split)
  have "filter (\<lambda>r. lr_owner r \<noteq> sample_owner) [sample_row 140 ''session''] = []" by (simp add: sample_row_def session_row_def)
  then show ?thesis
    using signing_request_keeps_or_gives_back[OF _ _ _ _ _ _ _ run, of _ sample_lock sample_held] failed run
    by (auto simp: sample_request_def sample_lock_def sample_state_def sample_library_def sample_held_def find_lock_def split: sum.splits)
qed

end
