(* ===== verification/Outbox_Props.thy ===== *)
theory Outbox_Props
  imports Reservation_Props
begin

text \<open>
  The properties of the outbox of signed Ledger operations: what is stored reads back, recording an
  operation twice changes nothing, the plan of a broadcast agrees with what reached the network, and a
  broadcast that is not settled keeps the reservation.
\<close>

section \<open>The stored batch\<close>

definition item :: "byte list \<Rightarrow> byte list" where
  "item pczt = le 4 (length pczt) @ pczt"

lemma encode_pczt_batch_iff:
  "encode_pczt_batch pczts = Inr encoded \<longleftrightarrow> length pczts < 2 ^ 32 \<and> (\<forall>pczt \<in> set pczts. length pczt < 2 ^ 32)
     \<and> encoded = PCZT_BATCH_MAGIC @ le 4 (length pczts) @ concat (map item pczts)"
proof -
  have "res_map encode_pczt pczts = Inr items \<longleftrightarrow> (\<forall>pczt \<in> set pczts. length pczt < 2 ^ 32) \<and> items = map item pczts" for items
    by (induction pczts arbitrary: items) (auto simp: res_simps encode_pczt_def item_def)
  then show ?thesis by (auto simp: encode_pczt_batch_def res_simps)
qed

lemma read_batch_u32_iff:
  assumes "length encoded < 2 ^ 64"
  shows "read_batch_u32 encoded offset = Inr (n, offset') \<longleftrightarrow>
    offset' = offset + 4 \<and> offset' \<le> length encoded \<and> n = le_nat (take 4 (drop offset encoded))"
  using assms by (auto simp: read_batch_u32_def checked_add_def split: if_splits)

lemma read_batch_item_iff:
  assumes "length encoded < 2 ^ 64" and "offset \<le> length encoded"
  shows "read_batch_item encoded offset = Inr (pczt, offset') \<longleftrightarrow>
    length pczt < 2 ^ 32 \<and> offset' \<le> length encoded \<and> offset' = offset + length (item pczt)
    \<and> drop offset encoded = item pczt @ drop offset' encoded" (is "?lhs \<longleftrightarrow> ?rhs")
proof
  assume ?lhs
  then obtain len where len: "len = le_nat (take 4 (drop offset encoded))" "offset + 4 \<le> length encoded"
    and pczt: "offset' = offset + 4 + len" "offset' \<le> length encoded" "pczt = take len (drop (offset + 4) encoded)"
    using assms(1) by (auto simp: read_batch_item_def res_simps read_batch_u32_iff checked_add_def split: if_splits)
  have "length (take 4 (drop offset encoded)) = 4" using len(2) by simp
  then have "le 4 len = take 4 (drop offset encoded)" "len < 2 ^ 32"
    using le_le[of "take 4 (drop offset encoded)"] le_nat_less[of "take 4 (drop offset encoded)"] len(1) by simp_all
  moreover have "length pczt = len" using pczt by simp
  moreover have "drop offset encoded = take 4 (drop offset encoded) @ take len (drop (offset + 4) encoded) @ drop offset' encoded"
    using pczt(1) by (metis add.commute append_take_drop_id drop_drop)
  ultimately show ?rhs using pczt by (simp add: item_def)
next
  assume r: ?rhs
  then have here: "drop offset encoded = le 4 (length pczt) @ pczt @ drop offset' encoded" by (simp add: item_def)
  have four: "take 4 (drop offset encoded) = le 4 (length pczt)" by (simp add: here)
  have "drop (offset + 4) encoded = drop 4 (drop offset encoded)" by (simp add: add.commute)
  then have rest: "take (length pczt) (drop (offset + 4) encoded) = pczt" by (simp add: here)
  show ?lhs
    using r assms(1) rest
    by (simp add: read_batch_item_def read_batch_u32_def checked_add_def four item_def le_nat_le)
qed

lemma read_batch_items_iff:
  assumes "length encoded < 2 ^ 64" and "offset \<le> length encoded"
  shows "read_batch_items n encoded offset = Inr (pczts, offset') \<longleftrightarrow>
    length pczts = n \<and> (\<forall>pczt \<in> set pczts. length pczt < 2 ^ 32) \<and> offset' \<le> length encoded
    \<and> offset' = offset + length (concat (map item pczts)) \<and> drop offset encoded = concat (map item pczts) @ drop offset' encoded"
  using assms(2)
proof (induction n arbitrary: offset pczts)
  case (Suc n)
  show ?case
  proof (cases pczts)
    case (Cons pczt more_pczts)
    have step: "read_batch_items n encoded middle = Inr (more_pczts, offset') \<longleftrightarrow>
        length more_pczts = n \<and> (\<forall>pczt \<in> set more_pczts. length pczt < 2 ^ 32) \<and> offset' \<le> length encoded
        \<and> offset' = middle + length (concat (map item more_pczts)) \<and> drop middle encoded = concat (map item more_pczts) @ drop offset' encoded"
      if "middle \<le> length encoded" for middle
      using Suc.IH that .
    let ?m = "offset + length (item pczt)"
    have "read_batch_items (Suc n) encoded offset = Inr (pczts, offset') \<longleftrightarrow>
        read_batch_item encoded offset = Inr (pczt, ?m) \<and> read_batch_items n encoded ?m = Inr (more_pczts, offset')"
      using Cons read_batch_item_iff[OF assms(1) Suc.prems] by (auto simp: res_simps)
    also have "\<dots> \<longleftrightarrow> length pczt < 2 ^ 32 \<and> ?m \<le> length encoded \<and> drop offset encoded = item pczt @ drop ?m encoded
        \<and> length more_pczts = n \<and> (\<forall>pczt \<in> set more_pczts. length pczt < 2 ^ 32) \<and> offset' \<le> length encoded
        \<and> offset' = ?m + length (concat (map item more_pczts)) \<and> drop ?m encoded = concat (map item more_pczts) @ drop offset' encoded"
      using read_batch_item_iff[OF assms(1) Suc.prems] step by auto
    also have "\<dots> \<longleftrightarrow> length pczts = Suc n \<and> (\<forall>pczt \<in> set pczts. length pczt < 2 ^ 32) \<and> offset' \<le> length encoded
        \<and> offset' = offset + length (concat (map item pczts)) \<and> drop offset encoded = concat (map item pczts) @ drop offset' encoded"
      (is "?l \<longleftrightarrow> ?r")
    proof
      assume r: ?r
      then have eq: "drop offset encoded = item pczt @ (concat (map item more_pczts) @ drop offset' encoded)" using Cons by simp
      have "drop ?m encoded = drop (length (item pczt)) (drop offset encoded)" by (simp add: add.commute)
      also have "\<dots> = concat (map item more_pczts) @ drop offset' encoded" unfolding eq by simp
      finally have "drop ?m encoded = concat (map item more_pczts) @ drop offset' encoded" .
      then show ?l using r Cons eq by auto
    qed (use Cons in auto)
    finally show ?thesis .
  qed (auto simp: res_simps)
qed auto

text \<open>
  C27: What the outbox stores of an operation reads back. Bytes decode to a batch of PCZTs exactly when
  they are the encoding of that batch and the batch is not empty, so the signed transactions come back
  as they were approved, one encoding stands for one batch, and truncated or extended bytes are refused.
  The bound is the largest slice of a 64-bit machine.
\<close>

theorem stored_batch_reads_back:
  assumes "length encoded < 2 ^ 64"
  shows "decode_pczt_batch encoded = Inr pczts \<longleftrightarrow> encode_pczt_batch pczts = Inr encoded \<and> pczts \<noteq> []"
proof
  assume d: "decode_pczt_batch encoded = Inr pczts"
  then obtain rounds where head: "4 \<le> length encoded" "take 4 encoded = PCZT_BATCH_MAGIC"
    and rounds: "read_batch_u32 encoded 4 = Inr (rounds, 8)" "rounds \<noteq> 0"
    and items: "read_batch_items rounds encoded 8 = Inr (pczts, length encoded)"
    using read_batch_u32_iff[OF assms, of 4] by (auto simp: decode_pczt_batch_def res_simps split: if_splits prod.splits)
  have r: "8 \<le> length encoded" "rounds = le_nat (take 4 (drop 4 encoded))"
    using rounds(1) read_batch_u32_iff[OF assms, of 4] by auto
  then have "length (take 4 (drop 4 encoded)) = 4" by simp
  then have count: "le 4 rounds = take 4 (drop 4 encoded)" "rounds < 2 ^ 32"
    using le_le[of "take 4 (drop 4 encoded)"] le_nat_less[of "take 4 (drop 4 encoded)"] r(2) by simp_all
  have i: "length pczts = rounds" "\<forall>pczt \<in> set pczts. length pczt < 2 ^ 32" "drop 8 encoded = concat (map item pczts)"
    using items read_batch_items_iff[OF assms r(1), of rounds pczts "length encoded"] by auto
  have "encoded = take 4 encoded @ take 4 (drop 4 encoded) @ drop 8 encoded"
    by (metis append_take_drop_id drop_drop numeral_Bit0)
  then show "encode_pczt_batch pczts = Inr encoded \<and> pczts \<noteq> []"
    using head(2) count i rounds(2) by (auto simp: encode_pczt_batch_iff)
next
  assume e: "encode_pczt_batch pczts = Inr encoded \<and> pczts \<noteq> []"
  then have lens: "length pczts < 2 ^ 32" "\<forall>pczt \<in> set pczts. length pczt < 2 ^ 32"
    and enc: "encoded = PCZT_BATCH_MAGIC @ le 4 (length pczts) @ concat (map item pczts)"
    by (simp_all add: encode_pczt_batch_iff)
  have magic: "length PCZT_BATCH_MAGIC = 4" by (simp add: PCZT_BATCH_MAGIC_def)
  have total: "length encoded = 8 + length (concat (map item pczts))" by (simp add: enc magic)
  have count: "read_batch_u32 encoded 4 = Inr (length pczts, 8)"
    using read_batch_u32_iff[OF assms, of 4 "length pczts" 8] total lens(1) by (simp add: enc magic le_nat_le)
  have "4 * length pczts \<le> length (concat (map item pczts))"
    by (induction pczts) (simp_all add: item_def)
  then have room: "length pczts \<le> (length encoded - 8) div 4" using total by simp
  have "drop 8 encoded = concat (map item pczts)" by (simp add: enc magic)
  then have "read_batch_items (length pczts) encoded 8 = Inr (pczts, length encoded)"
    using read_batch_items_iff[OF assms, of 8 "length pczts" pczts "length encoded"] lens(2) total by simp
  then show "decode_pczt_batch encoded = Inr pczts"
    using e room count total by (simp add: decode_pczt_batch_def enc magic)
qed

theorem stored_batch_reads_back_witness:
  "decode_pczt_batch ([0x56, 0x4c, 0x42, 0x31] @ [2, 0, 0, 0] @ [1, 0, 0, 0, 5] @ [0, 0, 0, 0]) = Inr [[5], []]"
proof -
  have "encode_pczt_batch [[5], []] = Inr ([0x56, 0x4c, 0x42, 0x31] @ [2, 0, 0, 0] @ [1, 0, 0, 0, 5] @ [0, 0, 0, 0])"
    by (simp add: encode_pczt_batch_def encode_pczt_def PCZT_BATCH_MAGIC_def le_numeral)
  then show ?thesis by (subst stored_batch_reads_back) simp_all
qed

section \<open>Recording an operation twice\<close>

lemma checkpoint_owner_active:
  "ss_shutting_down (snd (checkpoint_owner owner operation_id s)) = ss_shutting_down s"
  "ob_operations (snd (checkpoint_owner owner operation_id (u :: ('w, 'p) outbox_state))) = ob_operations u"
  by (simp_all add: checkpoint_owner_def require_active_session_def st_bind_def update_locks_def)

lemma checkpoint_owners_active:
  fixes s :: "('w, 'p) outbox_state"
  shows "ss_shutting_down (snd (checkpoint_owners px operation_id owners pczts s)) = ss_shutting_down s
   \<and> ob_operations (snd (checkpoint_owners px operation_id owners pczts s)) = ob_operations s"
proof -
  have one: "keeps (\<lambda>u. ss_shutting_down u = b \<and> ob_operations u = rows) (checkpoint_owner owner operation_id :: (('w, 'p) outbox_state, unit) store_op)" for b rows owner operation_id
    by (simp add: keeps_def checkpoint_owner_active)
  have "keeps (\<lambda>u. ss_shutting_down u = b \<and> ob_operations u = rows) (checkpoint_owners px operation_id owners pczts :: (('w, 'p) outbox_state, unit) store_op)" for b rows
    by (induction px operation_id owners pczts rule: checkpoint_owners.induct) (auto intro!: keeps_bind keeps_option one keeps_basic simp del: st_simps)
  then show ?thesis by (simp add: keeps_def)
qed

text \<open>
  Recording a signed operation is idempotent. When a checkpoint succeeded, the same call later, with
  whatever clock, finds the operation recorded: it returns the same metadata and changes neither the
  outbox nor the reservations, so the retry of a lost answer does not try to hand over the inputs again.
\<close>

theorem repeated_checkpoint_changes_nothing:
  assumes "checkpoint_batch px now network operation_id account_uuid kind external_ref proof_pczts signature_pczts s = (Inr metadata, t)"
  shows "checkpoint_batch px later network operation_id account_uuid kind external_ref proof_pczts signature_pczts t = (Inr metadata, t)"
proof -
  obtain operation_kind expiry_height proof_pczt signature_pczt where
    checks: "validate_identifier ''operation ID'' operation_id = Inr ()" "validate_identifier ''account UUID'' account_uuid = Inr ()"
      "parse_kind kind = Inr operation_kind" "validate_external_ref operation_kind external_ref = Inr ()"
      "validated_expiry_height px proof_pczts signature_pczts = Inr expiry_height" "px_validate_signed_pczts px proof_pczts signature_pczts = Inr ()"
      "encode_pczt_batch proof_pczts = Inr proof_pczt" "encode_pczt_batch signature_pczts = Inr signature_pczt"
    and first: "record_checkpoint px (new_operation (network_name network) operation_id account_uuid kind external_ref proof_pczt
        signature_pczt expiry_height now) proof_pczts s = (Inr metadata, t)"
    using assms by (auto simp: checkpoint_batch_def st_bind_Inr st_context_Inr)
  let ?row = "\<lambda>clock. new_operation (network_name network) operation_id account_uuid kind external_ref proof_pczt signature_pczt expiry_height clock"
  have same: "exact_match (?row now) = exact_match (?row later)" "operation_key (?row now) = operation_key (?row later)"
    "op_operation_id (?row clock) = operation_id" "op_network (?row clock) = network_name network" for clock
    by (simp_all add: fun_eq_iff exact_match_def new_operation_def operation_key_def)
  obtain u inserted where u: "insert_operation (?row now) s = (Inr inserted, u)" "inserted = 0 \<longrightarrow> list_ex (exact_match (?row now)) (ob_operations u)"
    "(if inserted \<noteq> 0 then checkpoint_owners px operation_id [] proof_pczts else st_return ()) u = (Inr (), t)"
    "ok_or (load_metadata (network_name network) operation_id t) (Message ''Ledger operation {operation_id} was not found after checkpointing'' [AStr operation_id]) = Inr metadata"
    and active: "\<not> ss_shutting_down s"
    using first by (auto simp: record_checkpoint_def savepoint_Inr st_bind_Inr require_active_session_def same split: if_splits)
  have "ss_shutting_down t = ss_shutting_down u \<and> ob_operations t = ob_operations u"
    using checkpoint_owners_active[of px operation_id "[]" proof_pczts u] u(3) by (auto split: if_splits)
  moreover have "ss_shutting_down u = ss_shutting_down s \<and> list_ex (exact_match (?row now)) (ob_operations u)"
    using u(1,2) by (auto simp: insert_operation_def list_ex_iff exact_match_def split: if_splits)
  ultimately have t: "\<not> ss_shutting_down t" "list_ex (exact_match (?row later)) (ob_operations t)" using active same(1) by auto
  then have "insert_operation (?row later) t = (Inr 0, t)"
    by (auto simp: insert_operation_def list_ex_iff exact_match_def)
  then have "record_checkpoint px (?row later) proof_pczts t = (Inr metadata, t)"
    using t u(4) by (simp add: record_checkpoint_def require_active_session_def st_bind_def savepoint_def same)
  then show ?thesis by (simp add: checkpoint_batch_def st_bind_def st_context_def checks)
qed

theorem repeated_checkpoint_changes_nothing_witness:
  "\<exists>metadata (t :: (sample_wallet, output_ref list) outbox_state). ob_operations t \<noteq> []
     \<and> checkpoint_batch sample_pczts 7 Net_Main ''op'' ''account'' ''send'' None [[1]] [[2]] t = (Inr metadata, t)"
proof -
  have enc: "encode_pczt_batch [[x]] = Inr ([0x56, 0x4c, 0x42, 0x31] @ [1, 0, 0, 0] @ [1, 0, 0, 0, x])" for x
    by (simp add: encode_pczt_batch_def encode_pczt_def PCZT_BATCH_MAGIC_def le_numeral)
  have "\<exists>metadata t. checkpoint_batch sample_pczts 0 Net_Main ''op'' ''account'' ''send'' None [[1]] [[2]]
      (sample_state [sample_row 140 ''session'']) = (Inr metadata, t) \<and> ob_operations t \<noteq> []"
    by (simp add: checkpoint_batch_def validate_identifier_def is_space_def parse_kind_def validate_external_ref_def
        validated_expiry_height_def round_expiry_def st_bind_def st_context_def enc record_checkpoint_def require_active_session_def
        savepoint_def insert_operation_def sample_state_def pczt_owner_def sample_pczts_def sample_owner_def checkpoint_owner_def
        update_locks_def sample_row_def session_row_def load_metadata_def find_operation_def operation_key_def new_operation_def ok_or_def)
  then show ?thesis using repeated_checkpoint_changes_nothing by blast
qed

section \<open>The plan of a broadcast\<close>

text \<open>The transactions that the network accepted, from the first on.\<close>

definition accepted_prefix :: "('w, 'i) broadcast_env \<Rightarrow> nat \<Rightarrow> nat" where
  "accepted_prefix env n = length (takeWhile (\<lambda>index. attempt_at env index = Accepted) [0..<n])"

lemma broadcast_loop_from:
  assumes "0 < remaining" and "index + remaining = n"
  shows "broadcast_loop env n index remaining =
    (let k = index + length (takeWhile (\<lambda>index. attempt_at env index = Accepted) [index..<n]) in
     if k = n then Inr \<lparr>bp_persisted_prefix_len = n, bp_broadcasted_count = n, bp_status = BROADCASTED, bp_message = None\<rparr>
     else case pczt_broadcast_step k n (attempt_at env k) of Stop_Broadcast plan \<Rightarrow> Inr plan
       | Fail_Broadcast e \<Rightarrow> Inl e | Continue_Broadcast \<Rightarrow> undefined)"
  using assms
proof (induction remaining arbitrary: index)
  case (Suc remaining)
  then have upt: "[index..<n] = index # [index + 1..<n]" by (simp add: upt_conv_Cons)
  show ?case
  proof (cases "attempt_at env index = Accepted \<and> remaining \<noteq> 0")
    case True
    then have "pczt_broadcast_step index n (attempt_at env index) = Continue_Broadcast"
      using Suc.prems by (simp add: pczt_broadcast_step_def)
    then show ?thesis using True Suc.IH[of "index + 1"] Suc.prems by (simp add: upt)
  next
    case False
    then show ?thesis
      using Suc.prems by (cases "attempt_at env index") (auto simp: upt pczt_broadcast_step_def)
  qed
qed simp

lemma broadcast_loop_plan:
  assumes "0 < n"
  shows "case broadcast_loop env n 0 n of
      Inl e \<Rightarrow> accepted_prefix env n = 0 \<and> attempt_at env 0 = Definite_Rejection e
    | Inr plan \<Rightarrow>
        bp_broadcasted_count plan = accepted_prefix env n
        \<and> bp_persisted_prefix_len plan = (if accepted_prefix env n < n \<and> (\<exists>e. attempt_at env (accepted_prefix env n) = Transport_Unknown e)
            then accepted_prefix env n + 1 else accepted_prefix env n)
        \<and> bp_status plan = (if accepted_prefix env n = n then BROADCASTED
            else if accepted_prefix env n = 0 then BROADCAST_UNKNOWN else PARTIAL_BROADCAST)"
proof -
  let ?k = "accepted_prefix env n"
  have k: "?k \<le> n" unfolding accepted_prefix_def using length_takeWhile_le[of _ "[0..<n]"] by simp
  have stop: "attempt_at env ?k \<noteq> Accepted" if "?k < n"
    using nth_length_takeWhile[of "\<lambda>index. attempt_at env index = Accepted" "[0..<n]"] that by (simp add: accepted_prefix_def)
  have route: "attempt_at env 0 \<noteq> Route_Unavailable e" for e
    by (simp add: attempt_at_def split: send_reply.split option.split)
  have loop: "broadcast_loop env n 0 n = (if ?k = n
      then Inr \<lparr>bp_persisted_prefix_len = n, bp_broadcasted_count = n, bp_status = BROADCASTED, bp_message = None\<rparr>
      else case pczt_broadcast_step ?k n (attempt_at env ?k) of Stop_Broadcast plan \<Rightarrow> Inr plan
        | Fail_Broadcast e \<Rightarrow> Inl e | Continue_Broadcast \<Rightarrow> undefined)"
    using broadcast_loop_from[of n 0 n env] assms by (simp add: accepted_prefix_def Let_def)
  show ?thesis
  proof (cases "?k = n")
    case True
    then show ?thesis using loop by simp
  next
    case False
    then show ?thesis
      using k stop route loop by (cases "attempt_at env ?k"; cases "?k = 0") (auto simp: pczt_broadcast_step_def)
  qed
qed

text \<open>
  C15: The plan of a broadcast says what may be on the network. The transactions are sent in their order
  until one is not accepted. The count of the plan is the number accepted; the prefix it stores in the
  wallet is exactly what may have reached the network, the accepted ones and the one whose answer is
  unknown, and never one that was rejected or not sent. The status is a full success exactly when all were
  accepted. The broadcast as a whole is an error only when the first transaction was rejected.
\<close>

theorem plan_covers_the_network:
  assumes "0 < n"
  shows "case broadcast_loop env n 0 n of
      Inl e \<Rightarrow> accepted_prefix env n = 0 \<and> attempt_at env 0 = Definite_Rejection e
    | Inr plan \<Rightarrow>
        bp_broadcasted_count plan = accepted_prefix env n
        \<and> bp_persisted_prefix_len plan = (if accepted_prefix env n < n \<and> (\<exists>e. attempt_at env (accepted_prefix env n) = Transport_Unknown e)
            then accepted_prefix env n + 1 else accepted_prefix env n)
        \<and> bp_status plan = (if accepted_prefix env n = n then BROADCASTED
            else if accepted_prefix env n = 0 then BROADCAST_UNKNOWN else PARTIAL_BROADCAST)"
  using assms by (rule broadcast_loop_plan)

text \<open>Three transactions, the answer for the second of which is lost.\<close>

definition sample_env :: "(sample_wallet, unit) broadcast_env" where
  "sample_env = \<lparr>be_prepared = Inr (replicate 3 \<lparr>pr_txid = ''t'', pr_expiry_height = 140, pr_combined = ()\<rparr>), be_first_route = Inr (),
     be_latest = Inr 100, be_route = (\<lambda>_. None),
     be_reply = (\<lambda>index. if index = 0 then Replied 0 '''' else Unavailable (Msg ''timeout'')),
     be_extract_and_store = (\<lambda>_ w. (Inr (), w)), be_decrypt_and_store = (\<lambda>_ w. (Inr (), w))\<rparr>"

lemma sample_attempts: "attempt_at sample_env index = (if index = 0 then Accepted else Transport_Unknown (Msg ''timeout''))"
  by (simp add: attempt_at_def sample_env_def send_response_rejection_error_def)

lemma sample_prefix: "accepted_prefix sample_env 3 = 1"
  by (simp add: accepted_prefix_def sample_attempts upt_rec)

theorem plan_covers_the_network_witness:
  "\<exists>plan. broadcast_loop sample_env 3 0 3 = Inr plan \<and> bp_broadcasted_count plan = 1 \<and> bp_persisted_prefix_len plan = 2
     \<and> bp_status plan = PARTIAL_BROADCAST"
  using plan_covers_the_network[of 3 sample_env] by (auto simp: sample_prefix sample_attempts split: sum.splits)

section \<open>A broadcast that is not settled\<close>

text \<open>
  The network was reached, and either not everything was accepted or what was accepted could not be
  stored.
\<close>

definition unsettled :: "('w, 'i) broadcast_env \<Rightarrow> bool" where
  "unsettled env \<longleftrightarrow> (\<exists>prepared latest. be_prepared env = Inr prepared \<and> prepared \<noteq> [] \<and> be_first_route env = Inr ()
     \<and> be_latest env = Inr latest
     \<and> (\<forall>prep \<in> set prepared. pczt_broadcast_expiry_error (pr_txid prep) (pr_expiry_height prep) latest = None)
     \<and> (\<forall>e. attempt_at env 0 \<noteq> Definite_Rejection e)
     \<and> (accepted_prefix env (length prepared) < length prepared
        \<or> (\<forall>w. \<exists>e. fst (store_prefix env prepared w) = Inl e)))"

lemma map_filter_None: "(\<forall>x \<in> set xs. f x = None) \<Longrightarrow> List.map_filter f xs = []"
  by (induction xs) (simp_all add: map_filter_simps)

lemma on_wallet_on_rows:
  "on_rows (kept (\<lambda>_ _ _. True) r) (snd (on_wallet m s)) = on_rows (kept (\<lambda>_ _ _. True) r) s"
  by (simp add: on_rows_def kept_def)

lemma unsettled_result:
  assumes "unsettled env"
  obtains res where "fst (store_and_broadcast_pczts_inner others lib env None s) = Inr res"
    and "sb_status res \<notin> {''broadcasted'', ''expired''}"
    and "\<And>r. on_rows (kept (\<lambda>_ _ _. True) r) (snd (store_and_broadcast_pczts_inner others lib env None s))
      = on_rows (kept (\<lambda>_ _ _. True) r) (others 1 s)"
proof -
  obtain prepared latest where p: "be_prepared env = Inr prepared" "prepared \<noteq> []" "be_first_route env = Inr ()" "be_latest env = Inr latest"
      "\<forall>prep \<in> set prepared. pczt_broadcast_expiry_error (pr_txid prep) (pr_expiry_height prep) latest = None"
    and first: "\<forall>e. attempt_at env 0 \<noteq> Definite_Rejection e"
    and stuck: "accepted_prefix env (length prepared) < length prepared \<or> (\<forall>w. \<exists>e. fst (store_prefix env prepared w) = Inl e)"
    using assms by (auto simp: unsettled_def)
  let ?n = "length prepared" and ?k = "accepted_prefix env (length prepared)"
  obtain plan where plan: "broadcast_loop env ?n 0 ?n = Inr plan" "bp_broadcasted_count plan = ?k"
      "bp_persisted_prefix_len plan = (if ?k < ?n \<and> (\<exists>e. attempt_at env ?k = Transport_Unknown e) then ?k + 1 else ?k)"
      "bp_status plan = (if ?k = ?n then BROADCASTED else if ?k = 0 then BROADCAST_UNKNOWN else PARTIAL_BROADCAST)"
    using broadcast_loop_plan[of ?n env] p(2) first by (cases "broadcast_loop env ?n 0 ?n") auto
  have run: "store_and_broadcast_pczts_inner others lib env None s = finish_broadcast others lib env prepared None plan (others 1 s)"
    using p plan(1) by (simp add: store_and_broadcast_pczts_inner_def Let_def map_filter_None st_bind_def interleave_def)
  let ?stored = "on_wallet (store_prefix env (take (bp_persisted_prefix_len plan) prepared)) (others 1 s)"
  obtain x t where x: "?stored = (x, t)" by fastforce
  have rows: "on_rows (kept (\<lambda>_ _ _. True) r) t = on_rows (kept (\<lambda>_ _ _. True) r) (others 1 s)" for r
    using on_wallet_on_rows[of r "store_prefix env (take (bp_persisted_prefix_len plan) prepared)" "others 1 s"] x by simp
  show thesis
  proof (cases x)
    case (Inl e)
    then show thesis
      using x rows plan(2,4)
      by (intro that[of "sb_result" for sb_result]) (auto simp: run finish_broadcast_def st_bind_def st_or_else_def broadcast_status_defs split: if_splits)
  next
    case (Inr y)
    have "?k \<noteq> ?n"
    proof
      assume "?k = ?n"
      then have "\<forall>w. \<exists>e. fst (store_prefix env (take (bp_persisted_prefix_len plan) prepared) w) = Inl e" using stuck plan(3) by simp
      then obtain e where "fst (store_prefix env (take (bp_persisted_prefix_len plan) prepared) (ss_wallet (others 1 s))) = Inl e" by blast
      then show False using x Inr by (simp add: on_wallet_def split: prod.splits)
    qed
    then show thesis
      using x Inr rows plan(4)
      by (intro that[of "sb_result" for sb_result]) (auto simp: run finish_broadcast_def st_bind_def st_or_else_def broadcast_status_defs split: if_splits)
  qed
qed

lemma unsettled_keeps:
  assumes "unsettled env" and "\<And>n u. on_rows (kept (\<lambda>_ _ _. True) r) u \<Longrightarrow> on_rows (kept (\<lambda>_ _ _. True) r) (others n u)"
  shows "keeps (on_rows (kept (\<lambda>_ _ _. True) r))
    (broadcast_stored lib others env now network operation_id kind :: (('w, 'p) outbox_state, broadcast_result) store_op)"
  unfolding keeps_def
proof (intro allI impI)
  fix s :: "('w, 'p) outbox_state" assume s: "on_rows (kept (\<lambda>_ _ _. True) r) s"
  obtain res where res: "fst (store_and_broadcast_pczts_inner others lib env None s) = Inr res"
      "sb_status res \<notin> {''broadcasted'', ''expired''}"
      "on_rows (kept (\<lambda>_ _ _. True) r) (snd (store_and_broadcast_pczts_inner others lib env None s))
        = on_rows (kept (\<lambda>_ _ _. True) r) (others 1 s)"
    using unsettled_result[OF assms(1), of others lib s] by blast
  then obtain t where t: "store_and_broadcast_pczts_inner others lib env None s = (Inr res, t)" by (metis prod.collapse)
  then have "on_rows (kept (\<lambda>_ _ _. True) r) (others 3 t)" using res(3) assms(2) s by simp
  moreover have "keeps (on_rows (kept (\<lambda>_ _ _. True) r)) (apply_broadcast_outcome now network operation_id kind (sb_txids res)
      (sb_status res) (map_option render (sb_message res)) :: (('w, 'p) outbox_state, broadcast_result) store_op)"
    using res(2) by (intro keeps_outcome) simp
  ultimately show "on_rows (kept (\<lambda>_ _ _. True) r) (snd (broadcast_stored lib others env now network operation_id kind s))"
    using t by (simp add: broadcast_stored_def st_bind_def st_result_def interleave_def keeps_def)
qed

lemma result_keeps: "keeps P m \<Longrightarrow> keeps P (st_result m)"
  by (auto simp: keeps_def st_result_def split: prod.splits)

text \<open>
  C9: A broadcast that is not settled keeps its reservation. Suppose that the call came to
  the broadcast, no transaction had expired, the first was not rejected outright, and either not every
  one was accepted or those that were could not be stored in the wallet. Then after the whole call, its recording and the recovery that
  follows it included, every signed or submitted reservation is still there as it was, whichever
  operation it belongs to: inputs that an unresolved transaction may have spent are not offered for
  another payment. The other threads may do anything that keeps the row.
\<close>

theorem unsettled_broadcast_keeps_reservations:
  assumes "reservations_ok s" and "r \<in> set (ss_rows s)" and "lr_phase r = ''signed'' \<or> lr_phase r = ''broadcast''"
    and "\<forall>stored. load_for_broadcast network operation_id s = Inr stored \<longrightarrow> unsettled (env stored)"
    and "\<forall>n u. reservations_ok u \<and> r \<in> set (ss_rows u) \<longrightarrow> reservations_ok (others n u) \<and> r \<in> set (ss_rows (others n u))"
  shows "r \<in> set (ss_rows (snd (broadcast lib others env now network operation_id s)))"
proof -
  let ?K = "on_rows (kept (\<lambda>_ _ _. True) r) :: ('w, 'p) outbox_state \<Rightarrow> bool"
  have K: "on_rows (kept (\<lambda>_ _ _. True) r) u \<longleftrightarrow> reservations_ok u \<and> r \<in> set (ss_rows u)" for u :: "('w, 'p) outbox_state"
    by (simp add: on_rows_def kept_def)
  have d: "durable r" using assms(3) by (simp add: durable_def)
  have free: "owner_scoped lib (\<lambda>_ _ _. True)" by (simp add: owner_scoped_def scoped_def)
  have "keeps ?K (recover_before_balance lib)"
    using recover_kept[OF free d, of _ False] by (auto simp: keeps_def recover_before_balance_def ends_def recovery_height_def)
  then have after_load: "keeps ?K (st_bind (st_result (broadcast_stored lib others (env stored) now network operation_id (so_kind stored)))
      (\<lambda>outcome. st_bind (st_or_else (recover_before_balance lib) (\<lambda>_. st_return ())) (\<lambda>_. st_lift outcome)))"
    if "unsettled (env stored)" for stored
    using that assms(5) K by (intro keeps_bind result_keeps unsettled_keeps keeps_or_else keeps_basic) auto
  let ?key = "(network_name network, operation_id)"
  let ?s = "s\<lparr>ob_active_broadcasts := ?key # ob_active_broadcasts s\<rparr>"
  have s: "?K s" "?K ?s" using assms(1,2) by (simp_all add: K)
  have load: "load_for_broadcast network operation_id ?s = load_for_broadcast network operation_id s"
    by (simp add: load_for_broadcast_def)
  have "?K (snd (broadcast lib others env now network operation_id s))"
  proof (cases "load_for_broadcast network operation_id s")
    case (Inl e)
    then show ?thesis
      using s by (simp add: broadcast_def st_bind_def with_broadcast_guard_def Let_def load split: sum.split)
  next
    case (Inr stored)
    then show ?thesis
      using s keeps_step[OF after_load s(2), of stored] assms(4)
      by (auto simp: broadcast_def st_bind_def[of "st_lift _"] st_bind_def[of "st_read _"] with_broadcast_guard_def Let_def load
          split: sum.split prod.split)
  qed
  then show ?thesis by (simp add: K)
qed

definition sample_batch :: "byte list" where
  "sample_batch = [0x56, 0x4c, 0x42, 0x31, 1, 0, 0, 0, 1, 0, 0, 0, 5]"

definition sample_outbox :: "(sample_wallet, output_ref list) outbox_state" where
  "sample_outbox = (sample_state [sample_row 140 ''signed''])\<lparr>ob_operations :=
     [(sample_operation ''op'')\<lparr>op_proof_pczt := sample_batch, op_signature_pczt := sample_batch\<rparr>]\<rparr>"

lemma sample_loads: "load_for_broadcast Net_Main ''op'' sample_outbox
    = Inr \<lparr>so_kind = Op_Send, so_proof_pczts = [[5]], so_signature_pczts = [[5]]\<rparr>"
proof -
  have "decode_pczt_batch sample_batch = Inr [[5]]"
    by (simp add: decode_pczt_batch_def sample_batch_def PCZT_BATCH_MAGIC_def read_batch_u32_def read_batch_item_def checked_add_def)
  then show ?thesis
    by (simp add: load_for_broadcast_def sample_outbox_def sample_operation_def new_operation_def is_pending_def operation_key_def
        network_name_def parse_kind_def)
qed

theorem unsettled_broadcast_keeps_reservations_witness:
  "(\<exists>stored. load_for_broadcast Net_Main ''op'' sample_outbox = Inr stored)
   \<and> sample_row 140 ''signed'' \<in> set (ss_rows (snd (broadcast sample_library (\<lambda>_ u. u) (\<lambda>_. sample_env) 0 Net_Main ''op'' sample_outbox)))"
proof
  show "\<exists>stored. load_for_broadcast Net_Main ''op'' sample_outbox = Inr stored" by (simp add: sample_loads)
  have "accepted_prefix sample_env (length (replicate 3 \<lparr>pr_txid = ''t'', pr_expiry_height = 140, pr_combined = ()\<rparr>)) < 3"
    by (simp add: sample_prefix)
  then have env: "unsettled sample_env"
    unfolding unsettled_def
    by (intro exI[of _ "replicate 3 \<lparr>pr_txid = ''t'', pr_expiry_height = 140, pr_combined = ()\<rparr>"] exI[of _ 100])
      (auto simp: sample_env_def pczt_broadcast_expiry_error_def sample_attempts[unfolded sample_env_def])
  show "sample_row 140 ''signed'' \<in> set (ss_rows (snd (broadcast sample_library (\<lambda>_ u. u) (\<lambda>_. sample_env) 0 Net_Main ''op'' sample_outbox)))"
    by (rule unsettled_broadcast_keeps_reservations)
      (use env sample_row_ok(1) in \<open>simp_all add: sample_outbox_def sample_state_def\<close>, simp add: sample_row_def)
qed

end
