(* ===== verification/Handler_Props.thy ===== *)
theory Handler_Props
  imports Outbox_Props
begin

text \<open>
  The handlers as a whole: their runs are traces of steps whatever other threads do in between, and the
  broadcast of an immediate migration settles its inputs.
\<close>

section \<open>Handlers are traces\<close>

text \<open>
  The handlers refine the steps. Whatever runs of steps other threads make between the critical
  sections, a run of each handler (proposing, discarding, finishing and retaining a proposal, the shutdown,
  building a signing request and broadcasting a signed operation) takes the state along a trace of
  steps. So what holds along every trace, the well-formed rows among it, holds for every interleaving of
  handlers. Proposing draws an owner that no row has yet, and building or storing a transaction leaves the
  output locks alone.
\<close>

theorem handlers_run_as_traces:
  assumes "\<And>n u. \<exists>evs. send_trace lib held evs u (others n u)"
    and "\<And>proposal h owner. scoped held owner (create proposal h)"
    and "\<And>stored items owner. scoped held owner (store_prefix (env stored) items)"
    and "fresh_owner owner s" and "\<And>proposal. \<forall>out \<in> set (wl_input_refs lib proposal). output_ok out"
  shows "(\<exists>evs. send_trace lib held evs s (snd (propose_and_store_request lib propose owner network account flow s)))
    \<and> (\<exists>evs. send_trace lib held evs s (snd (discard_stored_proposal lib others i flow s)))
    \<and> (\<exists>evs. send_trace lib held evs s (snd (finish_stored_proposal lib (others 0) i flow release_inputs s)))
    \<and> (\<exists>evs. send_trace lib held evs s (snd (retain_stored_proposal_lock_until_expiry (others 0) i flow s)))
    \<and> (\<exists>evs. send_trace lib held evs s (snd (shutdown_signing_reservations lib write_lock s)))
    \<and> (\<exists>evs. send_trace lib held evs s
         (snd (create_pczt_from_proposal lib others min_target_height observed_tip create bind_pczt network i flow s)))
    \<and> (\<exists>evs. send_trace lib held evs s (snd (broadcast lib others env now network operation_id s)))"
proof (intro conjI)
  show "\<exists>evs. send_trace lib held evs s (snd (propose_and_store_request lib propose owner network account flow s))"
    using assms(4,5) by (rule propose_interleaves)
  have "interleaves lib held (discard_stored_proposal lib others i flow)"
    unfolding discard_stored_proposal_def using interleaves_others[OF assms(1)] finish_interleaves[OF assms(1)]
    by (intro interleaves_bind interleaves_if section_interleaves interleaves_basic) auto
  then show "\<exists>evs. send_trace lib held evs s (snd (discard_stored_proposal lib others i flow s))" by (simp add: interleaves_def)
  have "interleaves lib held (finish_stored_proposal lib (others 0) i flow release_inputs)"
    unfolding finish_stored_proposal_def using finish_interleaves[OF assms(1)] .
  then show "\<exists>evs. send_trace lib held evs s (snd (finish_stored_proposal lib (others 0) i flow release_inputs s))"
    by (simp add: interleaves_def)
  have "interleaves lib held (retain_stored_proposal_lock_until_expiry (others 0) i flow)"
    unfolding retain_stored_proposal_lock_until_expiry_def using interleaves_others[OF assms(1)]
    by (intro interleaves_bind interleaves_option interleaves_if section_interleaves interleaves_basic) auto
  then show "\<exists>evs. send_trace lib held evs s (snd (retain_stored_proposal_lock_until_expiry (others 0) i flow s))"
    by (simp add: interleaves_def)
  have "interleaves lib held (shutdown_signing_reservations lib write_lock)"
    unfolding shutdown_signing_reservations_def
    by (intro interleaves_bind interleaves_option interleaves_if section_interleaves interleaves_basic shutdown_loop_interleaves)
  then show "\<exists>evs. send_trace lib held evs s (snd (shutdown_signing_reservations lib write_lock s))" by (simp add: interleaves_def)
  show "\<exists>evs. send_trace lib held evs s
      (snd (create_pczt_from_proposal lib others min_target_height observed_tip create bind_pczt network i flow s))"
    using create_pczt_interleaves[OF assms(1,2)] by (simp add: interleaves_def)
  show "\<exists>evs. send_trace lib held evs s (snd (broadcast lib others env now network operation_id s))"
    using broadcast_interleaves[OF assms(1,3)] by (simp add: interleaves_def)
qed

text \<open>Proposing in an empty wallet, where a proposal has the sample input.\<close>

definition sample_proposing :: "(sample_wallet, output_ref list) wallet_library" where
  "sample_proposing = sample_library\<lparr>wl_input_refs := \<lambda>_. [sample_output]\<rparr>"

theorem handlers_run_as_traces_witness:
  "\<exists>evs. send_trace sample_proposing sample_held evs (sample_state [])
     (snd (propose_and_store_request sample_proposing (\<lambda>_. Inr ([sample_output], 100)) sample_owner Net_Main ''account'' ''flow'' (sample_state [])))"
proof (rule handlers_run_as_traces[where others = "\<lambda>_ u. u" and create = "\<lambda>_ _ w. (Inr (), w)" and env = "\<lambda>_. sample_env", THEN conjunct1])
  show "\<exists>evs. send_trace sample_proposing sample_held evs u u" for u by (blast intro: send_trace.none)
  have "snd (store_prefix sample_env items w) = w" for items w
  proof -
    have "st_each (\<lambda>item. st_context label (be_extract_and_store sample_env (pr_combined item))) items w = (Inr (), w)" for label
      by (induction items) (simp_all add: st_bind_def st_context_def sample_env_def)
    then show ?thesis by (simp add: store_prefix_def st_or_else_def savepoint_def)
  qed
  then show "scoped sample_held owner (store_prefix sample_env items)" for owner items by (simp add: scoped_def)
qed (simp_all add: scoped_def fresh_owner_def sample_owner_def sample_state_def sample_proposing_def output_ok_def sample_output_def)

section \<open>An immediate migration\<close>

definition retained :: "lock_owner \<Rightarrow> lock_row \<Rightarrow> lock_row" where
  "retained owner r = (if lr_owner r = owner then r\<lparr>lr_retain_until_expiry := True,
     lr_phase := if lr_phase r = ''signed'' then lr_phase r else ''broadcast''\<rparr> else r)"

lemma mark_retain_run:
  "\<exists>r \<in> set (ss_rows s). lr_owner r = owner
   \<Longrightarrow> mark_retain_until_expiry owner s = (Inr (), s\<lparr>ss_rows := map (retained owner) (ss_rows s)\<rparr>)"
  by (auto simp: mark_retain_until_expiry_def st_bind_def update_locks_def filter_empty_conv retained_def)

lemma on_send_run: "m s = (x, t) \<Longrightarrow> on_send m (l, s) = (x, l, t)"
  by (simp add: on_send_def)

lemma retained_others: "filter (\<lambda>r. lr_owner r \<noteq> owner) (map (retained owner) rows) = filter (\<lambda>r. lr_owner r \<noteq> owner) rows"
  by (induction rows) (simp_all add: retained_def)

lemma release_input_lock_run:
  assumes "unlocks lib held" and "il_active l"
  obtains t where "release_input_lock lib (l, s) = (Inr (), l\<lparr>il_retain_on_drop := False, il_active := False\<rparr>, t)"
    and "ss_rows t = filter (\<lambda>r. lr_owner r \<noteq> il_owner l) (ss_rows s)"
    and "\<forall>out \<in> set (il_outputs l). \<not> held (ss_wallet t) out (il_owner l)"
proof -
  obtain t where t: "st_each (\<lambda>out. st_context ''Unlock Immediate migration input: {e}''
      (on_wallet (wl_unlock_output lib out (il_owner l)))) (il_outputs l) s = (Inr (), t)" "only_unlocks held s t"
      "\<forall>out \<in> set (il_outputs l). \<not> held (ss_wallet t) out (il_owner l)"
    using unlock_outputs_reach[OF assms(1)] by blast
  show thesis
    by (rule that[of "t\<lparr>ss_rows := filter (\<lambda>r. lr_owner r \<noteq> il_owner l) (ss_rows t)\<rparr>"])
      (use t assms(2) in \<open>simp_all add: release_input_lock_def st_bind_def set_lock_def on_send_run remove_reservation_def delete_locks_def
        on_send_def only_unlocks_def\<close>)
qed

definition rejected :: "send_reply \<Rightarrow> bool" where
  "rejected reply \<longleftrightarrow> (case reply of Unavailable _ \<Rightarrow> False
     | Replied error_code error_message \<Rightarrow> send_response_rejection_error error_code error_message \<noteq> None)"

text \<open>
  C26: An immediate migration settles its inputs, when the unlocking calls do their work. If its transaction
  was definitely rejected, or was stored in the wallet, the reservation is given up: its rows are gone and
  its inputs are unlocked. In the one case that is left, the transaction may be on the network but could not be stored, the rows are
  retained until the expiry of the transaction, and neither an error on the way nor the end of the scope
  releases them. The reservations of all others are as before.
\<close>

theorem immediate_migration_settles_its_inputs:
  fixes s :: "('w, 'p, 'z) send_state_scheme"
  assumes "unlocks lib held" and "\<exists>r \<in> set (ss_rows s). lr_owner r = owner"
    and "migrate_immediately lib store reply owner outs s = (result, t)"
  shows "if \<not> rejected reply \<and> (\<exists>e. fst (store (ss_wallet s)) = Inl e)
    then ss_rows t = map (retained owner) (ss_rows s)
    else ss_rows t = filter (\<lambda>r. lr_owner r \<noteq> owner) (ss_rows s) \<and> (\<forall>out \<in> set outs. \<not> held (ss_wallet t) out owner)"
proof -
  define l where "l = (new_input_lock owner outs)\<lparr>il_retain_on_drop := True\<rparr>"
  have l: "il_active l" "il_retain_on_drop l" "il_owner l = owner" "il_outputs l = outs" by (simp_all add: l_def new_input_lock_def)
  let ?s = "s\<lparr>ss_rows := map (retained owner) (ss_rows s)\<rparr>"
  obtain stored w where w: "store (ss_wallet s) = (stored, w)" by fastforce
  have started: "mark_broadcast_started (new_input_lock owner outs, s) = (Inr (), l, ?s)"
    using mark_retain_run[OF assms(2)]
    by (simp add: mark_broadcast_started_def st_bind_def on_send_def set_lock_def new_input_lock_def l_def)
  have storing: "on_send (on_wallet store) (l, ?s) = (stored, l, ?s\<lparr>ss_wallet := w\<rparr>)"
    by (simp add: on_send_def on_wallet_def w)
  obtain u where u: "release_input_lock lib (l, ?s) = (Inr (), l\<lparr>il_retain_on_drop := False, il_active := False\<rparr>, u)"
      "ss_rows u = filter (\<lambda>r. lr_owner r \<noteq> owner) (ss_rows s)" "\<forall>out \<in> set outs. \<not> held (ss_wallet u) out owner"
    using release_input_lock_run[OF assms(1), of l ?s] by (auto simp: l retained_others)
  obtain v where v: "release_input_lock lib (l, ?s\<lparr>ss_wallet := w\<rparr>) = (Inr (), l\<lparr>il_retain_on_drop := False, il_active := False\<rparr>, v)"
      "ss_rows v = filter (\<lambda>r. lr_owner r \<noteq> owner) (ss_rows s)" "\<forall>out \<in> set outs. \<not> held (ss_wallet v) out owner"
    using release_input_lock_run[OF assms(1), of l "?s\<lparr>ss_wallet := w\<rparr>"] by (auto simp: l retained_others)
  have keep: "retain_until_expiry (l, x) = (Inr (), l\<lparr>il_active := False\<rparr>, x)" for x :: "('w, 'p, 'z) send_state_scheme"
    by (simp add: retain_until_expiry_def st_bind_def set_lock_def l)
  have drop: "drop_input_lock lib (m, x) = (Inr (), m, x)" if "il_retain_on_drop m \<or> \<not> il_active m" for m and x :: "('w, 'p, 'z) send_state_scheme"
    using that by (auto simp: drop_input_lock_def st_or_else_def release_input_lock_def)
  have run: "t = snd (snd (drop_input_lock lib (snd (broadcast_immediately lib store reply (new_input_lock owner outs, s)))))"
    using assms(3) by (simp add: migrate_immediately_def split: prod.splits)
  show ?thesis
  proof (cases reply)
    case (Replied code msg)
    then show ?thesis
      using u v keep w
      by (cases "send_response_rejection_error code msg"; cases stored)
        (auto simp: run rejected_def broadcast_immediately_def st_bind_def st_or_else_def started storing drop l)
  next
    case (Unavailable status)
    then show ?thesis
      using v keep w
      by (cases stored) (auto simp: run rejected_def broadcast_immediately_def st_bind_def st_or_else_def started storing drop l)
  qed
qed

text \<open>The answer is lost and the transaction cannot be stored.\<close>

theorem immediate_migration_settles_its_inputs_witness:
  "ss_rows (snd (migrate_immediately sample_library (\<lambda>w. (Inl (Msg ''disk full''), w)) (Unavailable (Msg ''timeout'')) sample_owner [sample_output]
     (sample_state [sample_row 140 ''session'']))) = [retained sample_owner (sample_row 140 ''session'')]"
proof -
  obtain result t where run: "migrate_immediately sample_library (\<lambda>w. (Inl (Msg ''disk full''), w)) (Unavailable (Msg ''timeout'')) sample_owner
      [sample_output] (sample_state [sample_row 140 ''session'']) = (result, t)" by fastforce
  show ?thesis
    using immediate_migration_settles_its_inputs[OF sample_unlocks _ run]
    by (simp add: run rejected_def) (simp add: sample_state_def sample_row_def session_row_def)
qed

end
