(* ===== verification/Spec2Isabelle.thy ===== *)
theory Spec2Isabelle
  imports
    Prep_Props Split_Props Planner_Interface Anchor_Props Schedule_Props
    Compact_Sigs Secret_Payload Stage_Props Run_Expiry Run_Stop Run_Reconcile Ledger_Session Ledger_Wire Handler_Props
begin

text \<open>
  The Orchard to Ironwood migration of the Vizor wallet, its signing with a Ledger device, and the
  reservations of inputs that a payment goes through: the Rust core under src/rust/src/wallet.

  The program. A wallet moves its Orchard balance to the Ironwood pool in parts of canonical size.
  A planner chooses the denominations and a graph of preparation transactions that mints one
  funding note per part (wallet/sync/migration/split_plan.rs and preparation_plan.rs, with the
  denominations of denomination_policy.rs). A schedule spreads the transfers and the preparation
  layers over block heights drawn at random (schedule.rs, preparation_policy.rs, policy.rs), and
  proofs anchor to drawn bucket boundaries (denomination_policy.rs). The signed preparation
  transactions are kept, encrypted, in three SQLite tables until they are confirmed (stages.rs,
  secret_payload.rs, and the compact signatures of keystone.rs). A run then sends its transfers one by
  one, follows the chain through reorganisations, and ends complete, abandoned or failed
  (wallet/sync/migration.rs, with schema.rs). A hardware account signs with a Ledger device: the
  transaction is serialised into commands, sent over USB or replayed by a mobile transport, and the
  responses are checked and matched with the spends (wallet/ledger). A payment reserves its inputs for
  an owner drawn at random: a row per input in a table of its own (wallet/sync/proposal_locks.rs) beside
  the lock of the wallet library, and a proposal in memory (sync/mod.rs, send.rs). A request to a hardware
  wallet holds the reservation (pczt.rs); once signed, it is handed over to an operation of the Ledger
  outbox (ledger/operations.rs), which broadcasts it, records the outcome and gives the inputs up only when
  the outcome is settled. What a dead process left behind is recovered by the next one.

  The theories.
  \<^item> \<open>Prelude\<close>: error values (\<open>message\<close>, the text of \<open>format!\<close> with its arguments), the sum type
    of fallible code with its bind, folds and maps, checked arithmetic with the width written
    out, amounts, descending sorts.
  \<^item> \<open>Migration_Policy\<close>, \<open>Denominations\<close>: networks, timing policies and their tables; the canonical
    denominations, the standalone plan and the expiry height.
  \<^item> \<open>Prep_Model\<close> to \<open>Prep_Planner\<close>: preparation_plan.rs. The data model and the feeders; the
    consolidation batches; the balanced split tree; the two passes of a greedy layer; the layered
    and the residual loop; the relabelling of unspent feeders; the planners. \<open>Prep_Invariant\<close> holds
    what every step keeps (\<open>layers_ok\<close>, \<open>pool_ok\<close>), and \<open>plan_ok\<close> in \<open>Prep_Planner\<close> is the contract of
    a plan. \<open>Prep_Props\<close> holds the properties: conservation, references, funding, residuals, bounds
    and errors.
  \<^item> \<open>Planner_Interface\<close>: the contract of the planner as a locale, interpreted on \<open>plan_preparation\<close>.
  \<^item> \<open>Refinement\<close>, \<open>Stage_Translation\<close>, \<open>Split_Planning\<close>, \<open>Split_Lemmas\<close>, \<open>Split_Props\<close>: split_plan.rs.
    The properties: a plan conserves value, carries every part once, replays from its own outputs,
    its stages can be executed in order, and planning reports no internal error.
  \<^item> \<open>Anchors\<close>, \<open>Anchor_Props\<close>: anchor boundaries, candidates, the weighted draw, readiness and retry.
  \<^item> \<open>Schedule\<close>, \<open>Schedule_Lemmas\<close>, \<open>Schedule_Props\<close>: the rejection sampler, schedules, their validation,
    rebuilding and the heights of preparation layers.
  \<^item> \<open>Secret_Payload\<close>, \<open>Compact_Sigs\<close>: the encrypted container and the signature blob.
  \<^item> \<open>Store_Monad\<close>, \<open>Stage_Store\<close>, \<open>Stage_Ops\<close>, \<open>Stage_Invariant\<close>: code against a database as
    state passing with errors; the tables with the constraints of their schema; the operations;
    the invariant of the tables, the step relation of the operations and what every step keeps.
  \<^item> \<open>Stage_Ids\<close>, \<open>Stage_Phases\<close>, \<open>Stage_Roundtrip\<close>, \<open>Stage_Catchup\<close>, \<open>Stage_Props\<close>: the identifiers
    of stored stages; the abstract machine of a stage and its contract \<open>stage_lifecycle\<close>, interpreted
    on the updates; reading an inserted batch back; the catch-up rescheduling of
    preparation_policy.rs; the properties of the store.

  \<^item> \<open>Run_Store\<close>: the migration database of wallet/sync/migration.rs and schema.rs, with runs, prepared
    notes, pending transactions, signed children and the stage tables; the statements with their row
    counts; the reads of the wallet's own tables through \<open>wallet_view\<close>.
  \<^item> \<open>Run_Confirm\<close>, \<open>Run_Insert\<close>, \<open>Run_Promote\<close>: pending transactions. The reconciliation with the chain,
    the due and expired selections and completion; insertion of signed children and transactions;
    promotion, the one-time shift of the schedule and the replacement of parts signed again.
  \<^item> \<open>Run_Reschedule\<close>, \<open>Run_Chain\<close>, \<open>Run_Lifecycle\<close>: the recovery schedule, the redraw of overdue parts
    and the receipts of the background sender; reorganisations of denomination stages; creation,
    stopping and retiring of a run and the wallet locks.
  \<^item> \<open>Run_Keys\<close>: the well-formedness of the tables, \<open>tables_ok\<close>, and lemmas that the operations keep it.
    Part of it are the keys of the schema, which the insertions carry as constraints.
    \<open>Run_Settle\<close>: a reconciliation as one map over the rows, sound and reachable completion.
    \<open>Run_Expiry\<close>: the expiry of scheduled transactions. \<open>Run_Stop\<close>: stopping a run and the lock loop.
    \<open>Run_Reconcile\<close>: what a reconciliation makes of every stage, the displaced stages (\<open>displaced\<close>: gone,
    moved, or descended from one) among them, and that a second one changes nothing.

  \<^item> \<open>Byte_Codec\<close>, \<open>Ledger_Packets\<close>: wallet/ledger/serializer.rs on the records of parse.rs. Integers as
    bytes, the compact size and \<open>self_delimiting\<close>, the contract of an encoding that a reader can cut off
    again, interpreted on fields, inputs, outputs and actions; the packets of a whole transaction.
  \<^item> \<open>Ledger_Plan\<close>, \<open>Ledger_Transport\<close>: ledger/mod.rs, apdu.rs and transport.rs. The account check, the
    command sequence, the responses, the USB session; HID frames, retries, the viewing key, memos.
  \<^item> \<open>Ledger_Props\<close>: the commands determine the transaction, fit their frames, and every signature
    belongs to the spend it was asked for. \<open>Ledger_Session\<close>: the USB session exchanges what the plan
    says. \<open>Ledger_Wire\<close>: frames, the viewing key and the memo check.

  \<^item> \<open>Send_Locks\<close>: proposal_locks.rs and the proposal store of sync/mod.rs. The rows with their phases
    (session, signed, broadcast, release), sessions, recovery; consuming, discarding, finishing, retaining
    and the shutdown.
  \<^item> \<open>Send_Flow\<close>, \<open>Pczt_Broadcast\<close>, \<open>Ledger_Outbox\<close>: proposing, executing and building signing requests
    (send.rs, pczt.rs), the input lock of an immediate migration with the end of its scope; the broadcast
    of signed PCZTs; the outbox of operations.rs. A handler that releases its locks between sections is a
    sequence of sections with \<open>others\<close>, what other threads do to the state, between them.
  \<^item> \<open>Send_Reservation\<close>, \<open>Send_Steps\<close>, \<open>Send_Props\<close>, \<open>Send_Handlers\<close>: well-formed rows (\<open>reservations_ok\<close>);
    the sections as steps that say what they did (\<open>send_step\<close>, \<open>send_trace\<close>, with restarts of the process);
    what steps keep of a row (\<open>kept\<close>, \<open>ends\<close>); handlers as interleaved traces.
  \<^item> \<open>Reservation_Props\<close>, \<open>Outbox_Props\<close>, \<open>Handler_Props\<close>: signed reservations survive, are handed over once
    and are spared by cancellations; recovery ends what is over; the batch encoding, repeated checkpoints,
    the plan of a broadcast and broadcasts that are not settled; handlers refine the steps, and an
    immediate migration settles its inputs.

  Numbers. The code's \<open>u64\<close>, \<open>u32\<close> and \<open>usize\<close> are natural numbers; every checked operation carries
  its width, and where the code adds without a check a property shows that the sums fit.
  Loops are functions with termination proofs, except the rejection sampler, which is a partial
  function whose return is a property of its own; the lock loop carries the code's bound of eight
  passes. \<open>sort_unstable\<close> is a stable sort in the model; the proofs use only that the result is an
  ordered permutation.

  Parameters. Random generators are explicit state (\<open>random_source\<close>, or a function for a single
  draw; \<open>draw_op\<close> threads it through code against the database); double-precision logarithm and
  rounding are \<open>f64_arith\<close>; the cipher, the key derivation and the codecs of other crates are
  \<open>crypto_library\<close>; the wallet's transaction tables, the hexadecimal codec and the trusted
  confirmation count are \<open>wallet_view\<close>; the note locks of the wallet library are \<open>lock_library\<close>, and the
  writes of other threads between two reads are the function \<open>others\<close>. The locking calls of the wallet
  library are \<open>wallet_library\<close> with \<open>held\<close>, whether an input is locked for an owner; the properties assume
  of them that a call for one owner leaves the locks of others alone (\<open>owner_scoped\<close>) or that unlocking
  unlocks (\<open>unlocks\<close>). The PCZT library is \<open>pczt_library\<close>, the network and the storing of a broadcast
  \<open>broadcast_env\<close>.

  Findings. The comments on the consolidating planner and on the signature decoder promise more than
  the code does (\<open>plan_preparation_incomplete\<close>, \<open>oversized_sigs_encode_unreadably\<close>); a part that a
  reorganisation takes out of its block comes back at a height whose expiry window it may not carry, so that
  the selection of due parts fails on it (\<open>requeued_part_blocks_broadcasts\<close>); empty chunks keep the export of a viewing key over USB
  waiting until its deadline (\<open>empty_chunks_keep_usb_waiting\<close>).

  Not modelled. In wallet/sync/migration.rs the outbox export, the status projections and the loop
  over all accounts after a sync; in wallet/ledger the readers of the PCZT library, the application of
  signatures, the operation lock with its deadlines; of the reservations the upgrade of older tables (with
  their phase ''legacy''), timeouts and poisoned mutexes, and characters beyond ASCII in identifiers; the
  schema upgrades and failures of SQLite itself, the sync engine, input selection and proving, the key
  store, the UR and CBOR transport of keystone.rs, voting, Nyctis, network privacy, the generated bridge,
  and the Dart, Kotlin and Swift user interfaces.
\<close>

end
